(* ===== verification/Lhgp_Prelude.thy ===== *)
theory Lhgp_Prelude
  imports Complex_Main "HOL-Library.AList"
begin

text \<open>
  Shared vocabulary of the development: the fallible computations (\<open>'e + 'a\<close>, \<open>Inl\<close> is the
  raised exception), the JSON values that the Python code passes around as dictionaries, the
  string and integer functions of Python's standard library that the sources call, and the
  lemmas about tables that the store theories use.

  Conventions. A Python \<open>str\<close> is an Isabelle \<open>string\<close>, one character per code point (the
  code points 0 to 255); the plan gate, which looks at CJK code points, has its own code-point
  strings. A Python \<open>int\<close> is \<open>int\<close>. A Python \<open>float\<close> is a \<open>pyfloat\<close>: an exact rational or one
  of the three special values; rounding is not modelled. A \<open>dict\<close> is an association list with
  the insertion order Python keeps.
\<close>

named_theorems res_simps \<open>rewriting fallible computations that succeed or fail\<close>
named_theorems frame_simps \<open>what an operation leaves unchanged\<close>
named_theorems inv_intros \<open>operations preserve the invariants\<close>

section \<open>Fallible computations\<close>

definition sbind :: "'e + 'a \<Rightarrow> ('a \<Rightarrow> 'e + 'b) \<Rightarrow> 'e + 'b" where
  "sbind m f = (case m of Inl e \<Rightarrow> Inl e | Inr x \<Rightarrow> f x)"

lemma sbind_Inl [simp]: "sbind (Inl e) f = Inl e"
  by (simp add: sbind_def)

lemma sbind_Inr [simp]: "sbind (Inr x) f = f x"
  by (simp add: sbind_def)

lemma sbind_eq_Inr [res_simps]: "sbind m f = Inr y \<longleftrightarrow> (\<exists>x. m = Inr x \<and> f x = Inr y)"
  by (cases m) auto

lemma sbind_eq_Inl [res_simps]:
  "sbind m f = Inl e \<longleftrightarrow> m = Inl e \<or> (\<exists>x. m = Inr x \<and> f x = Inl e)"
  by (cases m) auto

lemma sbind_assoc: "sbind (sbind m f) g = sbind m (\<lambda>x. sbind (f x) g)"
  by (cases m) auto

lemma sbind_cong [fundef_cong]:
  "m = m' \<Longrightarrow> (\<And>x. m' = Inr x \<Longrightarrow> f x = f' x) \<Longrightarrow> sbind m f = sbind m' f'"
  by (cases m') auto

text \<open>\<open>if not b: raise e\<close>.\<close>

definition require :: "bool \<Rightarrow> 'e \<Rightarrow> 'e + unit" where
  "require b e = (if b then Inr () else Inl e)"

lemma require_True [simp]: "require True e = Inr ()"
  by (simp add: require_def)

lemma require_False [simp]: "require False e = Inl e"
  by (simp add: require_def)

lemma require_eq_Inr [res_simps]: "require b e = Inr u \<longleftrightarrow> b"
  by (simp add: require_def)

lemma require_eq_Inl [res_simps]: "require b e = Inl e' \<longleftrightarrow> \<not> b \<and> e' = e"
  by (auto simp: require_def)

definition of_option :: "'e \<Rightarrow> 'a option \<Rightarrow> 'e + 'a" where
  "of_option e v = (case v of None \<Rightarrow> Inl e | Some x \<Rightarrow> Inr x)"

lemma of_option_simps [simp]: "of_option e None = Inl e" "of_option e (Some x) = Inr x"
  by (simp_all add: of_option_def)

lemma of_option_eq_Inr [res_simps]: "of_option e v = Inr x \<longleftrightarrow> v = Some x"
  by (cases v) auto

lemma of_option_eq_Inl [res_simps]: "of_option e v = Inl e' \<longleftrightarrow> v = None \<and> e' = e"
  by (cases v) auto

text \<open>A comprehension whose body may raise: the first error stops it.\<close>

fun smap :: "('a \<Rightarrow> 'e + 'b) \<Rightarrow> 'a list \<Rightarrow> 'e + 'b list" where
  "smap f [] = Inr []"
| "smap f (x # xs) = sbind (f x) (\<lambda>y. sbind (smap f xs) (\<lambda>ys. Inr (y # ys)))"

lemma smap_Inr_map: "(\<And>x. x \<in> set xs \<Longrightarrow> f (g x) = Inr (h x)) \<Longrightarrow> smap f (map g xs) = Inr (map h xs)"
  by (induction xs) auto

lemma smap_Inr_id: "(\<And>x. x \<in> set xs \<Longrightarrow> f (g x) = Inr x) \<Longrightarrow> smap f (map g xs) = Inr xs"
  using smap_Inr_map [of xs f g id] by simp

lemma smap_length: "smap f xs = Inr ys \<Longrightarrow> length ys = length xs"
  by (induction xs arbitrary: ys) (auto simp: res_simps)

lemma smap_eq_Inr_iff: "smap f xs = Inr ys \<longleftrightarrow> map f xs = map Inr ys"
proof (induction xs arbitrary: ys)
  case Nil
  then show ?case by auto
next
  case (Cons x xs)
  then show ?case by (cases ys) (auto simp: res_simps)
qed

section \<open>Python values\<close>

datatype pyfloat = Fin rat | PosInf | NegInf | NaN

text \<open>\<open>x <= 0\<close> on floats: false for NaN. \<open>math.isfinite\<close>.\<close>

fun float_nonpos :: "pyfloat \<Rightarrow> bool" where
  "float_nonpos (Fin q) = (q \<le> 0)"
| "float_nonpos NegInf = True"
| "float_nonpos _ = False"

fun float_finite :: "pyfloat \<Rightarrow> bool" where
  "float_finite (Fin q) = True"
| "float_finite _ = False"

text \<open>
  Arithmetic and comparison: every comparison with NaN is false. \<open>float_scale\<close> multiplies by a positive
  constant; \<open>max(a, b)\<close> and \<open>min(a, b)\<close> keep \<open>a\<close> unless \<open>b\<close> is strictly larger, smaller.
\<close>

fun float_add :: "pyfloat \<Rightarrow> pyfloat \<Rightarrow> pyfloat" where
  "float_add (Fin a) (Fin b) = Fin (a + b)"
| "float_add NaN _ = NaN"
| "float_add _ NaN = NaN"
| "float_add PosInf NegInf = NaN"
| "float_add NegInf PosInf = NaN"
| "float_add PosInf _ = PosInf"
| "float_add _ PosInf = PosInf"
| "float_add _ _ = NegInf"

fun float_neg :: "pyfloat \<Rightarrow> pyfloat" where
  "float_neg (Fin a) = Fin (- a)"
| "float_neg PosInf = NegInf"
| "float_neg NegInf = PosInf"
| "float_neg NaN = NaN"

definition float_sub :: "pyfloat \<Rightarrow> pyfloat \<Rightarrow> pyfloat" where
  "float_sub a b = float_add a (float_neg b)"

fun float_lt :: "pyfloat \<Rightarrow> pyfloat \<Rightarrow> bool" where
  "float_lt (Fin a) (Fin b) = (a < b)"
| "float_lt NegInf (Fin b) = True"
| "float_lt NegInf PosInf = True"
| "float_lt (Fin a) PosInf = True"
| "float_lt _ _ = False"

definition float_le :: "pyfloat \<Rightarrow> pyfloat \<Rightarrow> bool" where
  "float_le a b = (float_lt a b \<or> a = b \<and> a \<noteq> NaN)"

fun float_scale :: "rat \<Rightarrow> pyfloat \<Rightarrow> pyfloat" where
  "float_scale q (Fin a) = Fin (q * a)"
| "float_scale q x = x"

definition float_max :: "pyfloat \<Rightarrow> pyfloat \<Rightarrow> pyfloat" where
  "float_max a b = (if float_lt a b then b else a)"

definition float_min :: "pyfloat \<Rightarrow> pyfloat \<Rightarrow> pyfloat" where
  "float_min a b = (if float_lt b a then b else a)"

lemma float_le_Fin [simp]: "float_le (Fin a) (Fin b) \<longleftrightarrow> a \<le> b"
  by (auto simp: float_le_def)

lemma float_sub_Fin [simp]: "float_sub (Fin a) (Fin b) = Fin (a - b)"
  by (simp add: float_sub_def)

datatype json =
    JNull
  | JBool bool
  | JInt int
  | JFloat pyfloat
  | JStr string
  | JList "json list"
  | JObj "(string \<times> json) list"

type_synonym dict = "(string \<times> json) list"

text \<open>The errors that the constructors and parsers of the value types raise.\<close>

datatype py_error =
  TypeError string | ValueError string | KeyError string | AttributeError string | OverflowError string

text \<open>\<open>d.get(k)\<close> (a missing key is \<open>None\<close>), \<open>d.get(k, default)\<close> and \<open>d[k]\<close>.\<close>

definition dict_get :: "dict \<Rightarrow> string \<Rightarrow> json" where
  "dict_get d k = (case map_of d k of None \<Rightarrow> JNull | Some v \<Rightarrow> v)"

definition dict_get_or :: "dict \<Rightarrow> string \<Rightarrow> json \<Rightarrow> json" where
  "dict_get_or d k v = (case map_of d k of None \<Rightarrow> v | Some w \<Rightarrow> w)"

definition dict_item :: "dict \<Rightarrow> string \<Rightarrow> py_error + json" where
  "dict_item d k = of_option (KeyError k) (map_of d k)"

text \<open>Python truth: \<open>None\<close>, \<open>False\<close>, zero and the empty containers are false.\<close>

fun truthy :: "json \<Rightarrow> bool" where
  "truthy JNull = False"
| "truthy (JBool b) = b"
| "truthy (JInt i) = (i \<noteq> 0)"
| "truthy (JFloat x) = (x \<noteq> Fin 0)"
| "truthy (JStr s) = (s \<noteq> [])"
| "truthy (JList xs) = (xs \<noteq> [])"
| "truthy (JObj kvs) = (kvs \<noteq> [])"

text \<open>\<open>a or b\<close>.\<close>

definition py_or :: "json \<Rightarrow> json \<Rightarrow> json" where
  "py_or a b = (if truthy a then a else b)"

fun is_obj :: "json \<Rightarrow> bool" where
  "is_obj (JObj kvs) = True"
| "is_obj _ = False"

fun is_str :: "json \<Rightarrow> bool" where
  "is_str (JStr s) = True"
| "is_str _ = False"

text \<open>A list of texts as a JSON value.\<close>

definition str_list :: "string list \<Rightarrow> json" where
  "str_list xs = JList (map JStr xs)"

section \<open>Strings\<close>

text \<open>\<open>str.isspace\<close> on code points below 256.\<close>

definition is_space :: "char \<Rightarrow> bool" where
  "is_space c = (let n = (of_char c :: nat) in (9 \<le> n \<and> n \<le> 13) \<or> (28 \<le> n \<and> n \<le> 32) \<or> n = 133 \<or> n = 160)"

text \<open>\<open>str.strip()\<close>.\<close>

definition lstrip :: "string \<Rightarrow> string" where
  "lstrip s = dropWhile is_space s"

definition strip :: "string \<Rightarrow> string" where
  "strip s = rev (lstrip (rev (lstrip s)))"

text \<open>\<open>not s.strip()\<close>: the string is empty or only white space.\<close>

definition is_blank :: "string \<Rightarrow> bool" where
  "is_blank s = (strip s = [])"

lemma is_blank_iff: "is_blank s \<longleftrightarrow> (\<forall>c \<in> set s. is_space c)"
proof (cases "dropWhile is_space s")
  case Nil
  then show ?thesis by (simp add: is_blank_def strip_def lstrip_def flip: dropWhile_eq_Nil_conv)
next
  case (Cons c cs)
  then have "\<not> is_space c" and "c \<in> set s"
    using hd_dropWhile [of is_space s] set_dropWhileD [of c is_space s] by auto
  with Cons show ?thesis
    by (auto simp: is_blank_def strip_def lstrip_def dropWhile_eq_Nil_conv dest: set_dropWhileD)
qed

lemma strip_Nil [simp]: "strip [] = []"
  by (simp add: strip_def lstrip_def)

lemma strip_not_blank: "strip s \<noteq> [] \<longleftrightarrow> \<not> is_blank s"
  by (simp add: is_blank_def)

text \<open>\<open>str.strip(chars)\<close>, and \<open>str.lower()\<close> on code points below 256.\<close>

definition strip_chars :: "char set \<Rightarrow> string \<Rightarrow> string" where
  "strip_chars cs s = rev (dropWhile (\<lambda>c. c \<in> cs) (rev (dropWhile (\<lambda>c. c \<in> cs) s)))"

definition lower_char :: "char \<Rightarrow> char" where
  "lower_char c = (let n = (of_char c :: nat) in
     if (65 \<le> n \<and> n \<le> 90) \<or> (192 \<le> n \<and> n \<le> 222 \<and> n \<noteq> 215) then char_of (n + 32) else c)"

definition lower :: "string \<Rightarrow> string" where
  "lower s = map lower_char s"

text \<open>\<open>a in b\<close> for strings, \<open>startswith\<close>, \<open>split\<close>.\<close>

fun starts_with :: "'a list \<Rightarrow> 'a list \<Rightarrow> bool" where
  "starts_with _ [] = True"
| "starts_with [] (p # ps) = False"
| "starts_with (x # xs) (p # ps) = (x = p \<and> starts_with xs ps)"

fun contains :: "'a list \<Rightarrow> 'a list \<Rightarrow> bool" where
  "contains [] p = (p = [])"
| "contains (x # xs) p = (starts_with (x # xs) p \<or> contains xs p)"

lemma starts_with_iff: "starts_with xs ps \<longleftrightarrow> (\<exists>zs. xs = ps @ zs)"
  by (induction xs ps rule: starts_with.induct) auto

lemma contains_iff: "contains xs p \<longleftrightarrow> (\<exists>us vs. xs = us @ p @ vs)"
proof (induction xs p rule: contains.induct)
  case (1 p)
  then show ?case by auto
next
  case (2 x xs p)
  then show ?case by (auto simp: starts_with_iff Cons_eq_append_conv)
qed

text \<open>The text before the first occurrence of \<open>p\<close> and the text after it.\<close>

fun break_at :: "'a list \<Rightarrow> 'a list \<Rightarrow> ('a list \<times> 'a list) option" where
  "break_at p [] = (if p = [] then Some ([], []) else None)"
| "break_at p (x # xs) =
     (if starts_with (x # xs) p then Some ([], drop (length p) (x # xs))
      else map_option (\<lambda>(a, b). (x # a, b)) (break_at p xs))"

lemma break_at_Some: "break_at p s = Some (a, b) \<Longrightarrow> s = a @ p @ b"
proof (induction s arbitrary: a b)
  case Nil
  then show ?case by (simp split: if_splits)
next
  case (Cons x xs)
  show ?case
  proof (cases "starts_with (x # xs) p")
    case True
    with Cons.prems have "a = []" "b = drop (length p) (x # xs)" by simp_all
    moreover from True obtain zs where "x # xs = p @ zs" by (auto simp: starts_with_iff)
    ultimately show ?thesis by simp
  next
    case False
    with Cons.prems obtain a' where "break_at p xs = Some (a', b)" "a = x # a'" by auto
    with Cons.IH show ?thesis by simp
  qed
qed

lemma break_at_None: "break_at p s = None \<longleftrightarrow> \<not> contains s p"
  by (induction p s rule: break_at.induct) auto

definition split_on :: "'a \<Rightarrow> 'a list \<Rightarrow> 'a list list" where
  "split_on c s = foldr (\<lambda>x acc. if x = c then [] # acc
     else (case acc of [] \<Rightarrow> [[x]] | y # ys \<Rightarrow> (x # y) # ys)) s [[]]"

text \<open>\<open>str(i)\<close> for an integer.\<close>

fun digits_of :: "nat \<Rightarrow> string" where
  "digits_of n = (if n < 10 then [char_of (48 + n)] else digits_of (n div 10) @ [char_of (48 + n mod 10)])"

declare digits_of.simps [simp del]

definition int_str :: "int \<Rightarrow> string" where
  "int_str i = (if i < 0 then CHR ''-'' # digits_of (nat (- i)) else digits_of (nat i))"

text \<open>
  \<open>str(v)\<close>. The rendering of a float, a list or a dictionary (Python's \<open>repr\<close>) is the
  parameter \<open>rp\<close>: the sources only store the text, nothing depends on its characters.
\<close>

definition py_str :: "(json \<Rightarrow> string) \<Rightarrow> json \<Rightarrow> string" where
  "py_str rp v = (case v of
     JNull \<Rightarrow> ''None''
   | JBool b \<Rightarrow> (if b then ''True'' else ''False'')
   | JInt i \<Rightarrow> int_str i
   | JStr s \<Rightarrow> s
   | _ \<Rightarrow> rp v)"

text \<open>An instance of the parameter for concrete runs.\<close>

definition sample_repr :: "json \<Rightarrow> string" where
  "sample_repr v = ''repr''"

lemma py_str_JStr [simp]: "py_str rp (JStr s) = s"
  by (simp add: py_str_def)

section \<open>Integers from text\<close>

definition digit_val :: "char \<Rightarrow> nat option" where
  "digit_val c = (let n = (of_char c :: nat) in if 48 \<le> n \<and> n \<le> 57 then Some (n - 48) else None)"

text \<open>Digits with single underscores between them, as \<open>int(text)\<close> accepts them.\<close>

fun parse_digits :: "bool \<Rightarrow> nat \<Rightarrow> string \<Rightarrow> nat option" where
  "parse_digits after_digit acc [] = (if after_digit then Some acc else None)"
| "parse_digits after_digit acc (c # cs) =
     (if c = CHR ''_'' then (if after_digit then parse_digits False acc cs else None)
      else case digit_val c of None \<Rightarrow> None | Some d \<Rightarrow> parse_digits True (10 * acc + d) cs)"

definition parse_int :: "string \<Rightarrow> int option" where
  "parse_int s = (case strip s of
     [] \<Rightarrow> None
   | c # cs \<Rightarrow>
       if c = CHR ''-'' then map_option (\<lambda>n. - int n) (parse_digits False 0 cs)
       else if c = CHR ''+'' then map_option int (parse_digits False 0 cs)
       else map_option int (parse_digits False 0 (c # cs)))"

text \<open>
  \<open>int(v)\<close> (a finite float is truncated towards zero) and iteration over a value: a string yields its
  characters, a dictionary its keys.
\<close>

fun py_int :: "json \<Rightarrow> py_error + int" where
  "py_int (JInt i) = Inr i"
| "py_int (JBool b) = Inr (if b then 1 else 0)"
| "py_int (JFloat (Fin q)) = Inr (if q < 0 then \<lceil>q\<rceil> else \<lfloor>q\<rfloor>)"
| "py_int (JFloat NaN) = Inl (ValueError ''cannot convert float NaN to integer'')"
| "py_int (JFloat _) = Inl (OverflowError ''cannot convert float infinity to integer'')"
| "py_int (JStr s) = of_option (ValueError s) (parse_int s)"
| "py_int _ = Inl (TypeError ''int() argument'')"

fun py_iter :: "json \<Rightarrow> py_error + json list" where
  "py_iter (JList xs) = Inr xs"
| "py_iter (JStr s) = Inr (map (\<lambda>c. JStr [c]) s)"
| "py_iter (JObj d) = Inr (map (\<lambda>kv. JStr (fst kv)) d)"
| "py_iter _ = Inl (TypeError ''object is not iterable'')"

text \<open>\<open>v[k]\<close> with a string key, and \<open>data.get(k)\<close> on a value that may be no dictionary.\<close>

fun py_item :: "json \<Rightarrow> string \<Rightarrow> py_error + json" where
  "py_item (JObj d) k = dict_item d k"
| "py_item _ k = Inl (TypeError k)"

section \<open>Lists and tables\<close>

text \<open>\<open>next((x for x in xs if p x), None)\<close> is \<open>find p xs\<close>.\<close>

lemma find_Some_in: "find p xs = Some x \<Longrightarrow> x \<in> set xs \<and> p x"
  by (induction xs) (auto split: if_splits)

lemma find_None_all: "find p xs = None \<longleftrightarrow> (\<forall>x \<in> set xs. \<not> p x)"
  by (induction xs) auto

definition enumerate_from :: "nat \<Rightarrow> 'a list \<Rightarrow> (nat \<times> 'a) list" where
  "enumerate_from n xs = zip [n..<n + length xs] xs"

lemma enumerate_from_Nil [simp]: "enumerate_from n [] = []"
  by (simp add: enumerate_from_def)

lemma enumerate_from_Cons [simp]: "enumerate_from n (x # xs) = (n, x) # enumerate_from (Suc n) xs"
  by (simp add: enumerate_from_def upt_conv_Cons del: upt_Suc)

text \<open>A validator that collects the errors of the items of a list.\<close>

definition errors_each :: "(nat \<Rightarrow> 'a \<Rightarrow> 'e list) \<Rightarrow> 'a list \<Rightarrow> 'e list" where
  "errors_each f xs = concat (map (\<lambda>(i, x). f i x) (enumerate_from 0 xs))"

lemma concat_enumerate_empty:
  assumes "\<And>i x. f i x = [] \<longleftrightarrow> P x"
  shows "concat (map (\<lambda>(i, x). f i x) (enumerate_from n xs)) = [] \<longleftrightarrow> (\<forall>x \<in> set xs. P x)"
  using assms by (induction xs arbitrary: n) auto

lemma errors_each_empty:
  assumes "\<And>i x. f i x = [] \<longleftrightarrow> P x"
  shows "errors_each f xs = [] \<longleftrightarrow> (\<forall>x \<in> set xs. P x)"
  unfolding errors_each_def by (rule concat_enumerate_empty [OF assms])

text \<open>A table keyed by its primary key: \<open>INSERT OR REPLACE\<close>, \<open>DELETE\<close>, \<open>SELECT ... WHERE key = ?\<close>.\<close>

abbreviation put :: "'k \<Rightarrow> 'v \<Rightarrow> ('k \<times> 'v) list \<Rightarrow> ('k \<times> 'v) list" where
  "put \<equiv> AList.update"

abbreviation del :: "'k \<Rightarrow> ('k \<times> 'v) list \<Rightarrow> ('k \<times> 'v) list" where
  "del \<equiv> AList.delete"

lemma map_of_put [simp]: "map_of (put k v t) = (map_of t)(k \<mapsto> v)"
  by (rule AList.update_conv')

lemma map_of_del [simp]: "map_of (del k t) = (map_of t)(k := None)"
  by (rule AList.delete_conv')

lemma distinct_put [inv_intros]: "distinct (map fst t) \<Longrightarrow> distinct (map fst (put k v t))"
  by (rule AList.distinct_update)

lemma distinct_del [inv_intros]: "distinct (map fst t) \<Longrightarrow> distinct (map fst (del k t))"
  by (rule AList.distinct_delete)

end
