(* ===== verification/Contract_View.thy ===== *)
theory Contract_View
  imports Lhgp_Prelude
begin

text \<open>
  \<open>lhgp/contracts/contract_view.py\<close>: the axes of a contract and of an attempt as enumerations,
  with the wire values the store and the RPC layer use, and \<open>lhgp/contracts/state_machine.py\<close>:
  the legal transitions on each axis. The locale \<open>lifecycle\<close> is what the rest of the program
  relies on in a transition table: terminal states have no way out, all others have one.
\<close>

section \<open>The axes\<close>

datatype contract_state =
  Drafted | Active | Paused | Blocked | Complete | Satisfied | Cancelled | Expired | Archived

datatype deadline_status = NotDue | AtRisk | Met | Missed | Waived

datatype acceptance_status =
  Pending | Candidate | Verifying | Passed | AcceptanceFailed | Undetermined | NotRequired

datatype block_reason =
    NeedUser | LeaseDead | BudgetExhausted | ConstraintRefused | NoExecutor
  | BlockAcceptanceFailed | DeadlineMissed | NeedArbitration | CapacityFull

datatype attempt_role = ExecutorRole | VerifierRole | PlannerRole

datatype attempt_state =
    Admitted | Starting | Running | Waiting | Succeeded | Failed | AttemptCancelled | Stale | Orphaned

datatype enforcement = EnfFull | EnfPartial | EnfNone | EnfUnsupported

datatype event_actor =
  ActorUser | ActorDaemon | ActorPromoter | ActorExecutor | ActorVerifier | ActorScheduler | ActorSystem

subsection \<open>Wire values\<close>

fun contract_state_value :: "contract_state \<Rightarrow> string" where
  "contract_state_value Drafted = ''drafted''"
| "contract_state_value Active = ''active''"
| "contract_state_value Paused = ''paused''"
| "contract_state_value Blocked = ''blocked''"
| "contract_state_value Complete = ''complete''"
| "contract_state_value Satisfied = ''satisfied''"
| "contract_state_value Cancelled = ''cancelled''"
| "contract_state_value Expired = ''expired''"
| "contract_state_value Archived = ''archived''"

fun deadline_status_value :: "deadline_status \<Rightarrow> string" where
  "deadline_status_value NotDue = ''not_due''"
| "deadline_status_value AtRisk = ''at_risk''"
| "deadline_status_value Met = ''met''"
| "deadline_status_value Missed = ''missed''"
| "deadline_status_value Waived = ''waived''"

fun acceptance_status_value :: "acceptance_status \<Rightarrow> string" where
  "acceptance_status_value Pending = ''pending''"
| "acceptance_status_value Candidate = ''candidate''"
| "acceptance_status_value Verifying = ''verifying''"
| "acceptance_status_value Passed = ''passed''"
| "acceptance_status_value AcceptanceFailed = ''failed''"
| "acceptance_status_value Undetermined = ''undetermined''"
| "acceptance_status_value NotRequired = ''not_required''"

fun block_reason_value :: "block_reason \<Rightarrow> string" where
  "block_reason_value NeedUser = ''need-user''"
| "block_reason_value LeaseDead = ''lease-dead''"
| "block_reason_value BudgetExhausted = ''budget-exhausted''"
| "block_reason_value ConstraintRefused = ''constraint-refused''"
| "block_reason_value NoExecutor = ''no-executor''"
| "block_reason_value BlockAcceptanceFailed = ''acceptance-failed''"
| "block_reason_value DeadlineMissed = ''deadline-missed''"
| "block_reason_value NeedArbitration = ''need-arbitration''"
| "block_reason_value CapacityFull = ''capacity-full''"

fun attempt_role_value :: "attempt_role \<Rightarrow> string" where
  "attempt_role_value ExecutorRole = ''executor''"
| "attempt_role_value VerifierRole = ''verifier''"
| "attempt_role_value PlannerRole = ''planner''"

fun attempt_state_value :: "attempt_state \<Rightarrow> string" where
  "attempt_state_value Admitted = ''admitted''"
| "attempt_state_value Starting = ''starting''"
| "attempt_state_value Running = ''running''"
| "attempt_state_value Waiting = ''waiting''"
| "attempt_state_value Succeeded = ''succeeded''"
| "attempt_state_value Failed = ''failed''"
| "attempt_state_value AttemptCancelled = ''cancelled''"
| "attempt_state_value Stale = ''stale''"
| "attempt_state_value Orphaned = ''orphaned''"

text \<open>\<open>Enum(value)\<close>: the member with that value, \<open>ValueError\<close> if there is none.\<close>

definition enum_of_value :: "('e \<Rightarrow> string) \<Rightarrow> 'e list \<Rightarrow> string \<Rightarrow> py_error + 'e" where
  "enum_of_value val members s =
     of_option (ValueError s) (find (\<lambda>m. val m = s) members)"

definition contract_states :: "contract_state list" where
  "contract_states = [Drafted, Active, Paused, Blocked, Complete, Satisfied, Cancelled, Expired, Archived]"

definition deadline_statuses :: "deadline_status list" where
  "deadline_statuses = [NotDue, AtRisk, Met, Missed, Waived]"

definition acceptance_statuses :: "acceptance_status list" where
  "acceptance_statuses =
     [Pending, Candidate, Verifying, Passed, AcceptanceFailed, Undetermined, NotRequired]"

definition block_reasons :: "block_reason list" where
  "block_reasons = [NeedUser, LeaseDead, BudgetExhausted, ConstraintRefused, NoExecutor,
     BlockAcceptanceFailed, DeadlineMissed, NeedArbitration, CapacityFull]"

definition attempt_states :: "attempt_state list" where
  "attempt_states =
     [Admitted, Starting, Running, Waiting, Succeeded, Failed, AttemptCancelled, Stale, Orphaned]"

definition to_state_dict :: "contract_state \<Rightarrow> string" where
  "to_state_dict s = contract_state_value s"

definition from_state_dict :: "string \<Rightarrow> py_error + contract_state" where
  "from_state_dict s = enum_of_value contract_state_value contract_states s"

lemma enum_of_value_inverse:
  assumes "inj val" and "m \<in> set members"
  shows "enum_of_value val members (val m) = Inr m"
proof -
  from assms(2) have "find (\<lambda>x. val x = val m) members \<noteq> None"
    by (auto simp: find_None_all)
  then obtain x where "find (\<lambda>x. val x = val m) members = Some x" by auto
  moreover from this have "val x = val m" by (auto dest: find_Some_in)
  with assms(1) have "x = m" by (simp add: inj_eq)
  ultimately show ?thesis by (simp add: enum_of_value_def)
qed

lemma enum_of_value_sound: "enum_of_value val members s = Inr m \<Longrightarrow> val m = s \<and> m \<in> set members"
  by (auto simp: enum_of_value_def res_simps dest: find_Some_in)

lemma inj_contract_state_value: "inj contract_state_value"
proof (rule injI)
  fix s t
  show "contract_state_value s = contract_state_value t \<Longrightarrow> s = t"
    by (cases s; cases t) simp_all
qed

lemma inj_attempt_state_value: "inj attempt_state_value"
proof (rule injI)
  fix s t
  show "attempt_state_value s = attempt_state_value t \<Longrightarrow> s = t"
    by (cases s; cases t) simp_all
qed

lemma all_contract_states [simp]: "s \<in> set contract_states"
  by (cases s) (simp_all add: contract_states_def)

lemma all_attempt_states [simp]: "s \<in> set attempt_states"
  by (cases s) (simp_all add: attempt_states_def)

lemma state_dict_roundtrip: "from_state_dict (to_state_dict s) = Inr s"
  unfolding from_state_dict_def to_state_dict_def
  by (rule enum_of_value_inverse [OF inj_contract_state_value]) simp

text \<open>Fields a patch must not touch.\<close>

definition FROZEN_FIELDS :: "string list" where
  "FROZEN_FIELDS = [''objective'', ''deadline_at'', ''hard_constraints'', ''authority'', ''budget'']"

end
