(* ===== verification/Verdict.thy ===== *)
theory Verdict
  imports Contract_View
begin

text \<open>
  \<open>lhgp/acceptance/verdict.py\<close> and \<open>lhgp/acceptance/checks.py\<close>: the verdict block a verifier prints
  on its standard output, the merge of that observation with the deterministic evaluation, and the
  typed acceptance checks.

  \<open>json.loads\<close> of the text inside a block is the parameter \<open>loads\<close> (\<open>None\<close>: it raised
  \<open>ValueError\<close>); the theorems hold for every such function.
\<close>

section \<open>The verdict block\<close>

definition VERDICT_MARKER :: string where "VERDICT_MARKER = ''lhgp-verdict''"

definition valid_outcomes :: "string list" where
  "valid_outcomes = [''pass'', ''fail'', ''undetermined'']"

definition fence :: string where "fence = ''```''"

record model_verdict =
  mv_verdict :: string
  mv_checks :: "(string \<times> (string \<times> string) list) list"

definition outcome_for :: "model_verdict \<Rightarrow> string \<Rightarrow> string option" where
  "outcome_for mv check_id = (case map_of (mv_checks mv) check_id of
     None \<Rightarrow> None
   | Some entry \<Rightarrow> (case map_of entry ''outcome'' of
       None \<Rightarrow> None
     | Some outcome \<Rightarrow> if outcome \<in> set valid_outcomes then Some outcome else None))"

text \<open>
  \<open>_BLOCK_RE.findall\<close>. After the marker the pattern takes the longest run of white space that ends
  in a newline, then everything up to the next fence; the search goes on behind that fence. A marker
  that is not followed by such a run, or by a closing fence, does not match there and the search goes on
  one character further.
\<close>

definition after_newline :: "string \<Rightarrow> string option" where
  "after_newline s = (let ws = takeWhile is_space s; rest = dropWhile is_space s in
     if CHR 0x0A \<in> set ws then Some (rev (takeWhile (\<lambda>c. c \<noteq> CHR 0x0A) (rev ws)) @ rest) else None)"

definition block_at :: "string \<Rightarrow> (string \<times> string) option" where
  "block_at s = (if starts_with s (fence @ VERDICT_MARKER)
     then (case after_newline (drop (length (fence @ VERDICT_MARKER)) s) of
         None \<Rightarrow> None
       | Some body \<Rightarrow> break_at fence body)
     else None)"

lemma after_newline_length: "after_newline s = Some t \<Longrightarrow> length t \<le> length s"
proof -
  assume a: "after_newline s = Some t"
  have "length (takeWhile (\<lambda>c. c \<noteq> CHR 0x0A) (rev (takeWhile is_space s))) \<le> length (takeWhile is_space s)"
    using length_takeWhile_le [of "\<lambda>c. c \<noteq> CHR 0x0A" "rev (takeWhile is_space s)"] by simp
  moreover have "length (takeWhile is_space s) + length (dropWhile is_space s) = length s"
    by (simp flip: length_append)
  ultimately show ?thesis using a by (auto simp: after_newline_def Let_def split: if_splits)
qed

lemma block_at_length: "block_at s = Some (body, rest) \<Longrightarrow> length rest < length s"
proof -
  assume a: "block_at s = Some (body, rest)"
  then obtain t where t: "after_newline (drop (length (fence @ VERDICT_MARKER)) s) = Some t"
    and b: "break_at fence t = Some (body, rest)"
    by (auto simp: block_at_def split: if_splits option.splits)
  have "length t = length body + length fence + length rest" using break_at_Some [OF b] by simp
  moreover have "length t \<le> length s" using after_newline_length [OF t] by simp
  ultimately show ?thesis by (simp add: fence_def)
qed

function find_blocks :: "string \<Rightarrow> string list" where
  "find_blocks s = (case block_at s of
     Some (body, rest) \<Rightarrow> body # find_blocks rest
   | None \<Rightarrow> (case s of [] \<Rightarrow> [] | _ # cs \<Rightarrow> find_blocks cs))"
  by pat_completeness auto
termination
  by (relation "measure length") (auto simp: block_at_length)

declare find_blocks.simps [simp del]

definition item_text :: "(json \<Rightarrow> string) \<Rightarrow> dict \<Rightarrow> string \<Rightarrow> string" where
  "item_text rp d k = py_str rp (dict_get_or d k (JStr []))"

text \<open>
  The loop over \<open>checks\<close>: an item that is not an object, has no id or an unknown outcome is skipped
  (\<open>continue\<close>).
\<close>

definition item_check :: "(json \<Rightarrow> string) \<Rightarrow> json \<Rightarrow> (string \<times> (string \<times> string) list) option" where
  "item_check rp item = (case item of
     JObj d \<Rightarrow>
       (let check_id = strip (item_text rp d ''check_id'');
            outcome = lower (strip (item_text rp d ''outcome'')) in
        if check_id = [] \<or> outcome \<notin> set valid_outcomes then None
        else Some (check_id, [(''outcome'', outcome), (''source'', item_text rp d ''source''),
               (''details'', item_text rp d ''details'')]))
   | _ \<Rightarrow> None)"

fun block_checks :: "(json \<Rightarrow> string) \<Rightarrow> json list \<Rightarrow> (string \<times> (string \<times> string) list) list \<Rightarrow>
    (string \<times> (string \<times> string) list) list" where
  "block_checks rp [] checks = checks"
| "block_checks rp (item # items) checks = (case item_check rp item of
     None \<Rightarrow> block_checks rp items checks
   | Some (check_id, entry) \<Rightarrow> block_checks rp items (put check_id entry checks))"

definition block_verdict :: "(json \<Rightarrow> string) \<Rightarrow> json option \<Rightarrow> model_verdict option" where
  "block_verdict rp data = (case data of
     Some (JObj d) \<Rightarrow>
       (let verdict = lower (strip (item_text rp d ''verdict'')) in
        if verdict \<notin> {''succeeded'', ''failed''} then None
        else (case dict_get d ''checks'' of
            JList raw_checks \<Rightarrow>
              (let checks = block_checks rp raw_checks [] in
               if checks = [] then None else Some \<lparr>mv_verdict = verdict, mv_checks = checks\<rparr>)
          | _ \<Rightarrow> None))
   | _ \<Rightarrow> None)"

fun first_some :: "('a \<Rightarrow> 'b option) \<Rightarrow> 'a list \<Rightarrow> 'b option" where
  "first_some f [] = None"
| "first_some f (x # xs) = (case f x of None \<Rightarrow> first_some f xs | Some y \<Rightarrow> Some y)"

definition parse_verdict_block ::
  "(json \<Rightarrow> string) \<Rightarrow> (string \<Rightarrow> json option) \<Rightarrow> string \<Rightarrow> model_verdict option" where
  "parse_verdict_block rp loads stdout =
     (if stdout = [] then None
      else first_some (\<lambda>raw. block_verdict rp (loads raw)) (rev (find_blocks stdout)))"

datatype verdict_error = VerdictSourceLossError

definition verdict_from_output ::
  "(json \<Rightarrow> string) \<Rightarrow> (string \<Rightarrow> json option) \<Rightarrow> string \<Rightarrow> bool \<Rightarrow> verdict_error + model_verdict option" where
  "verdict_from_output rp loads stdout output_truncated =
     (let parsed = parse_verdict_block rp loads stdout in
      if parsed = None \<and> output_truncated then Inl VerdictSourceLossError else Inr parsed)"

section \<open>Merging it with the protocol's own evidence\<close>

definition str_get_or :: "(string \<times> string) list \<Rightarrow> string \<Rightarrow> string \<Rightarrow> string" where
  "str_get_or d k v = (case map_of d k of None \<Rightarrow> v | Some w \<Rightarrow> w)"

text \<open>What the model says about the check of an evidence record.\<close>

definition model_says :: "(string \<times> string) list \<Rightarrow> model_verdict option \<Rightarrow> string option" where
  "model_says evidence mv = (case mv of None \<Rightarrow> None | Some m \<Rightarrow> outcome_for m (str_get_or evidence ''check_id'' []))"

definition merge_evidence ::
  "(string \<times> string) list \<Rightarrow> model_verdict option \<Rightarrow> (string \<times> string) list" where
  "merge_evidence protocol_evidence mv =
     (let check_id = str_get_or protocol_evidence ''check_id'' [];
          model_outcome = model_says protocol_evidence mv;
          merged = put ''model_outcome'' (case model_outcome of None \<Rightarrow> ''absent'' | Some w \<Rightarrow> w) protocol_evidence;
          protocol_outcome = str_get_or merged ''outcome'' ''undetermined'' in
      if protocol_outcome \<in> {''pass'', ''fail''} then merged
      else if model_outcome \<in> {Some ''pass'', Some ''fail''} then
        (let entry = (case mv of None \<Rightarrow> [] | Some m \<Rightarrow> (case map_of (mv_checks m) check_id of None \<Rightarrow> [] | Some e \<Rightarrow> e));
             m1 = put ''outcome'' (the model_outcome) merged;
             m2 = (if str_get_or entry ''source'' [] \<noteq> [] \<and> str_get_or m1 ''source'' [] = []
                   then put ''source'' (str_get_or entry ''source'' []) m1 else m1) in
         if str_get_or entry ''details'' [] \<noteq> []
         then put ''details'' (strip_chars {CHR '' '', CHR ''|''}
                (str_get_or m2 ''details'' [] @ '' | model: '' @ str_get_or entry ''details'' [])) m2
         else m2)
      else merged)"

section \<open>Typed acceptance checks\<close>

datatype check_kind =
    FileExists | FileContentMatches | CommandExitZero | ArtifactPresent | StructureValid | Observable
  | UserAssertion | OutputContains | OutputNotContains | OutputMatches | FileNotEmpty | LineCountMin
  | LineCountMax | NoForbidden | JsonPathEquals

fun check_kind_value :: "check_kind \<Rightarrow> string" where
  "check_kind_value FileExists = ''file-exists''"
| "check_kind_value FileContentMatches = ''file-content-matches''"
| "check_kind_value CommandExitZero = ''command-exit-zero''"
| "check_kind_value ArtifactPresent = ''artifact-present''"
| "check_kind_value StructureValid = ''structure-valid''"
| "check_kind_value Observable = ''observable''"
| "check_kind_value UserAssertion = ''user-assertion''"
| "check_kind_value OutputContains = ''output-contains''"
| "check_kind_value OutputNotContains = ''output-not-contains''"
| "check_kind_value OutputMatches = ''output-matches''"
| "check_kind_value FileNotEmpty = ''file-not-empty''"
| "check_kind_value LineCountMin = ''line-count-min''"
| "check_kind_value LineCountMax = ''line-count-max''"
| "check_kind_value NoForbidden = ''no-forbidden''"
| "check_kind_value JsonPathEquals = ''json-path-equals''"

definition check_kinds :: "check_kind list" where
  "check_kinds = [FileExists, FileContentMatches, CommandExitZero, ArtifactPresent, StructureValid, Observable,
     UserAssertion, OutputContains, OutputNotContains, OutputMatches, FileNotEmpty, LineCountMin, LineCountMax,
     NoForbidden, JsonPathEquals]"

definition check_kind_of :: "string \<Rightarrow> py_error + check_kind" where
  "check_kind_of s = enum_of_value check_kind_value check_kinds s"

record check_spec =
  cs_kind :: check_kind
  cs_target :: string
  cs_args :: dict
  cs_mandatory :: bool
  cs_note :: string

definition check_to_dict :: "check_spec \<Rightarrow> json" where
  "check_to_dict c = JObj
     [(''kind'', JStr (check_kind_value (cs_kind c))), (''target'', JStr (cs_target c)),
      (''args'', JObj (cs_args c)), (''mandatory'', JBool (cs_mandatory c)), (''note'', JStr (cs_note c))]"

text \<open>
  \<open>CheckSpec.from_dict\<close>; \<open>dict(raw_args or {})\<close> of a checked \<open>raw_args\<close> (\<open>None\<close> or a dictionary) is its
  pairs.
\<close>

definition check_from_dict :: "(json \<Rightarrow> string) \<Rightarrow> json \<Rightarrow> py_error + check_spec" where
  "check_from_dict rp data = (case data of
     JObj d \<Rightarrow>
       (case dict_get d ''target'' of
          JStr target \<Rightarrow>
            if is_blank target then Inl (TypeError ''check target must be a non-empty string'') else
            (case dict_get_or d ''mandatory'' (JBool True) of
               JBool mandatory \<Rightarrow>
                 sbind (case dict_get_or d ''args'' (JObj []) of
                     JNull \<Rightarrow> Inr [] | JObj a \<Rightarrow> Inr a | _ \<Rightarrow> Inl (TypeError ''check args must be an object''))
                   (\<lambda>args. sbind (dict_item d ''kind'')
                   (\<lambda>k. sbind (check_kind_of (py_str rp k))
                   (\<lambda>kind. Inr \<lparr>cs_kind = kind, cs_target = target, cs_args = args,
                      cs_mandatory = mandatory, cs_note = py_str rp (dict_get_or d ''note'' (JStr []))\<rparr>)))
             | _ \<Rightarrow> Inl (TypeError ''check mandatory must be a boolean''))
        | _ \<Rightarrow> Inl (TypeError ''check target must be a non-empty string''))
   | _ \<Rightarrow> Inl (TypeError ''check must be an object''))"

text \<open>A check is a legacy text or a typed specification.\<close>

datatype check = LegacyCheck string | TypedCheck check_spec

definition parse_check :: "(json \<Rightarrow> string) \<Rightarrow> json \<Rightarrow> py_error + check" where
  "parse_check rp v = (case v of
     JObj d \<Rightarrow> sbind (check_from_dict rp v) (\<lambda>c. Inr (TypedCheck c))
   | _ \<Rightarrow> Inr (LegacyCheck (py_str rp v)))"

definition check_identity :: "check \<Rightarrow> string" where
  "check_identity c = (case c of
     TypedCheck s \<Rightarrow> check_kind_value (cs_kind s) @ '':'' @ cs_target s
   | LegacyCheck t \<Rightarrow> strip t)"

text \<open>\<open>item if isinstance(item, str) else item.to_dict()\<close>, the way a check is serialised.\<close>

definition check_json :: "check \<Rightarrow> json" where
  "check_json c = (case c of LegacyCheck t \<Rightarrow> JStr t | TypedCheck s \<Rightarrow> check_to_dict s)"

definition check_wf :: "check \<Rightarrow> bool" where
  "check_wf c = (case c of LegacyCheck t \<Rightarrow> True | TypedCheck s \<Rightarrow> \<not> is_blank (cs_target s))"

record repair_brief =
  rb_failed_checks :: "string list"
  rb_context_pointer :: string
  rb_retry_strategy :: string
  rb_notes :: "string list"

definition repair_brief_to_dict :: "repair_brief \<Rightarrow> json" where
  "repair_brief_to_dict b = JObj
     [(''failed_checks'', JList (map JStr (rb_failed_checks b))), (''context_pointer'', JStr (rb_context_pointer b)),
      (''retry_strategy'', JStr (rb_retry_strategy b)), (''notes'', JList (map JStr (rb_notes b)))]"

section \<open>Lemmas\<close>

lemma all_check_kinds [simp]: "k \<in> set check_kinds"
  by (cases k) (simp_all add: check_kinds_def)

lemma check_kind_of_value [simp]: "check_kind_of (check_kind_value k) = Inr k"
  by (cases k) (simp_all add: check_kind_of_def enum_of_value_def check_kinds_def)

lemma check_kind_value_inject: "check_kind_value j = check_kind_value k \<longleftrightarrow> j = k"
proof
  assume "check_kind_value j = check_kind_value k"
  then have "(Inr j :: py_error + check_kind) = Inr k" by (metis check_kind_of_value)
  then show "j = k" by simp
qed simp

lemma check_from_to_dict: "\<not> is_blank (cs_target c) \<Longrightarrow> check_from_dict rp (check_to_dict c) = Inr c"
  by (simp add: check_from_dict_def check_to_dict_def dict_get_def dict_get_or_def dict_item_def)

lemma parse_check_json: "check_wf c \<Longrightarrow> parse_check rp (check_json c) = Inr c"
  using check_from_to_dict [unfolded check_to_dict_def]
  by (cases c) (simp_all add: check_wf_def check_json_def parse_check_def check_to_dict_def)

lemma check_from_dict_target: "check_from_dict rp d = Inr c \<Longrightarrow> \<not> is_blank (cs_target c)"
  by (auto simp: check_from_dict_def res_simps split: json.splits if_splits)

lemma parse_check_wf: "parse_check rp v = Inr c \<Longrightarrow> check_wf c"
  by (auto simp: parse_check_def check_wf_def res_simps check_from_dict_target split: json.splits)

subsection \<open>Blocks in an output\<close>

text \<open>A verifier's output: pieces of text without a backtick, each followed by a verdict block.\<close>

definition block_text :: "string \<times> string \<Rightarrow> string" where
  "block_text nb = fst nb @ fence @ VERDICT_MARKER @ [CHR 0x0A] @ snd nb @ fence"

definition block_ok :: "string \<times> string \<Rightarrow> bool" where
  "block_ok nb \<longleftrightarrow> CHR 0x60 \<notin> set (fst nb) \<and> CHR 0x60 \<notin> set (snd nb) \<and>
     (case snd nb of [] \<Rightarrow> True | c # _ \<Rightarrow> \<not> is_space c)"

lemma fence_chars: "fence = [CHR 0x60, CHR 0x60, CHR 0x60]"
  by (simp add: fence_def)

lemma break_at_fence: "CHR 0x60 \<notin> set body \<Longrightarrow> break_at fence (body @ fence @ rest) = Some (body, rest)"
  by (induction body) (auto simp: fence_chars)

lemma after_newline_body:
  "(case body of [] \<Rightarrow> True | c # _ \<Rightarrow> \<not> is_space c) \<Longrightarrow>
     after_newline (CHR 0x0A # body @ fence @ rest) = Some (body @ fence @ rest)"
  by (cases body) (simp_all add: after_newline_def is_space_def fence_chars)

lemma find_blocks_noise: "CHR 0x60 \<notin> set noise \<Longrightarrow> find_blocks (noise @ s) = find_blocks s"
proof (induction noise)
  case Nil
  then show ?case by simp
next
  case (Cons c cs)
  then have "block_at (c # cs @ s) = None" by (auto simp: block_at_def fence_chars)
  with Cons show ?case by (simp add: find_blocks.simps [of "c # cs @ s"])
qed

lemma starts_with_self [simp]: "starts_with (p @ s) p"
  by (auto simp: starts_with_iff)

lemma block_at_block:
  assumes "CHR 0x60 \<notin> set body" and "case body of [] \<Rightarrow> True | c # _ \<Rightarrow> \<not> is_space c"
  shows "block_at (fence @ VERDICT_MARKER @ CHR 0x0A # body @ fence @ s) = Some (body, s)"
proof -
  have "starts_with (fence @ VERDICT_MARKER @ t) (fence @ VERDICT_MARKER)" for t :: string
    using starts_with_self [of "fence @ VERDICT_MARKER" t] by simp
  moreover have "drop (length (fence @ VERDICT_MARKER)) (fence @ VERDICT_MARKER @ t) = t" for t :: string
    by simp
  ultimately show ?thesis
    using after_newline_body [OF assms(2), of s] break_at_fence [OF assms(1), of s]
    by (simp add: block_at_def)
qed

lemma find_blocks_block: "block_ok nb \<Longrightarrow> find_blocks (block_text nb @ s) = snd nb # find_blocks s"
  using block_at_block [of "snd nb" s]
  by (simp add: block_ok_def block_text_def find_blocks_noise find_blocks.simps [of "fence @ _"])

lemma find_blocks_nil [simp]: "find_blocks [] = []"
  by (simp add: find_blocks.simps [of "[]"] block_at_def fence_chars)

lemma first_some_in: "first_some f xs = Some y \<Longrightarrow> \<exists>x \<in> set xs. f x = Some y"
  by (induction xs) (auto split: option.splits)

text \<open>What a parsed verdict holds.\<close>

definition verdict_wf :: "model_verdict \<Rightarrow> bool" where
  "verdict_wf mv \<longleftrightarrow> mv_verdict mv \<in> {''succeeded'', ''failed''} \<and> mv_checks mv \<noteq> [] \<and>
     (\<forall>(i, e) \<in> set (mv_checks mv). i \<noteq> [] \<and> (\<exists>w s d. w \<in> set valid_outcomes \<and>
        e = [(''outcome'', w), (''source'', s), (''details'', d)]))"

definition entry_wf :: "string \<times> (string \<times> string) list \<Rightarrow> bool" where
  "entry_wf ie \<longleftrightarrow> fst ie \<noteq> [] \<and> (\<exists>w s d. w \<in> set valid_outcomes \<and>
        snd ie = [(''outcome'', w), (''source'', s), (''details'', d)])"

lemma put_all: "\<forall>kv \<in> set t. P kv \<Longrightarrow> P (k, v) \<Longrightarrow> \<forall>kv \<in> set (put k v t). P kv"
  by (induction t) auto

lemma item_check_wf: "item_check rp item = Some kv \<Longrightarrow> entry_wf kv"
  by (auto simp: item_check_def entry_wf_def Let_def split: json.splits if_splits)

lemma block_checks_wf: "\<forall>kv \<in> set acc. entry_wf kv \<Longrightarrow> \<forall>kv \<in> set (block_checks rp items acc). entry_wf kv"
proof (induction items arbitrary: acc)
  case (Cons item items)
  show ?case
  proof (cases "item_check rp item")
    case (Some kv)
    obtain i e where kv: "kv = (i, e)" by (cases kv)
    have "\<forall>kv \<in> set (put i e acc). entry_wf kv"
      using Cons.prems item_check_wf [OF Some] kv by (intro put_all) simp_all
    from Cons.IH [OF this] Some kv show ?thesis by simp
  qed (use Cons in simp)
qed simp

lemma block_verdict_wf: "block_verdict rp data = Some mv \<Longrightarrow> verdict_wf mv"
  using block_checks_wf [of "[]" rp]
  by (fastforce simp: block_verdict_def verdict_wf_def entry_wf_def Let_def split: option.splits json.splits if_splits)

lemma parse_verdict_wf: "parse_verdict_block rp loads out = Some mv \<Longrightarrow> verdict_wf mv"
  by (auto simp: parse_verdict_block_def split: if_splits dest!: first_some_in block_verdict_wf)

section \<open>Properties\<close>

text \<open>
  However a verifier's output is laid out - any number of well-fenced verdict blocks, with any
  text without a backtick before, between and after them - the parser sees exactly the bodies of those blocks,
  in order, and its result is that of the last block that holds a valid verdict. A verdict it returns says
  succeeded or failed, has at least one check, and each of its checks has an id and a known outcome.
\<close>

theorem last_verdict_block_wins:
  assumes "\<And>nb. nb \<in> set nbs \<Longrightarrow> block_ok nb" and "CHR 0x60 \<notin> set noise"
  shows "find_blocks (concat (map block_text nbs) @ noise) = map snd nbs \<and>
    parse_verdict_block rp loads (concat (map block_text nbs) @ noise) =
      first_some (\<lambda>nb. block_verdict rp (loads (snd nb))) (rev nbs) \<and>
    (\<forall>mv. parse_verdict_block rp loads (concat (map block_text nbs) @ noise) = Some mv \<longrightarrow> verdict_wf mv)"
proof -
  have first_map: "first_some f (map g xs) = first_some (\<lambda>x. f (g x)) xs" for f :: "string \<Rightarrow> model_verdict option"
    and g :: "string \<times> string \<Rightarrow> string" and xs
    by (induction xs) (auto split: option.splits)
  have blocks: "find_blocks (concat (map block_text nbs) @ noise) = map snd nbs"
    using assms find_blocks_noise [of noise "[]"] by (induction nbs) (simp_all add: find_blocks_block)
  moreover have "parse_verdict_block rp loads (concat (map block_text nbs) @ noise) =
      first_some (\<lambda>nb. block_verdict rp (loads (snd nb))) (rev nbs)"
  proof (cases "concat (map block_text nbs) @ noise = []")
    case True
    then have "nbs = []" by (cases nbs) (simp_all add: block_text_def fence_def)
    with True show ?thesis by (simp add: parse_verdict_block_def)
  next
    case False
    then show ?thesis by (simp only: parse_verdict_block_def blocks if_False rev_map first_map)
  qed
  ultimately show ?thesis using parse_verdict_wf by blast
qed

definition sample_loads :: "string \<Rightarrow> json option" where
  "sample_loads s = (if s = ''{1}'' then Some (JObj [(''verdict'', JStr ''Failed ''),
       (''checks'', JList [JNull, JObj [(''check_id'', JStr ''c''), (''outcome'', JStr ''FAIL'')]])]) else None)"

theorem last_verdict_block_wins_witness:
  "parse_verdict_block sample_repr sample_loads
     (concat (map block_text [(''log '', ''{1}''), (''more'', ''{2}'')]) @ ''end'') =
   Some \<lparr>mv_verdict = ''failed'', mv_checks = [(''c'', [(''outcome'', ''fail''), (''source'', []), (''details'', [])])]\<rparr>"
proof -
  have ok: "block_ok nb" if "nb \<in> set [(''log '', ''{1}''), (''more'', ''{2}'')]" for nb
    using that by (auto simp: block_ok_def is_space_def)
  have noise: "CHR 0x60 \<notin> set ''end''" by simp
  have lower: "lower ''Failed'' = ''failed''" "lower ''FAIL'' = ''fail''" "lower [] = []" by code_simp+
  have "parse_verdict_block sample_repr sample_loads (concat (map block_text [(''log '', ''{1}''), (''more'', ''{2}'')]) @ ''end'') =
      first_some (\<lambda>nb. block_verdict sample_repr (sample_loads (snd nb))) (rev [(''log '', ''{1}''), (''more'', ''{2}'')])"
    using last_verdict_block_wins [where rp = sample_repr and loads = sample_loads, OF ok noise] by blast
  also have "\<dots> = Some \<lparr>mv_verdict = ''failed'',
      mv_checks = [(''c'', [(''outcome'', ''fail''), (''source'', []), (''details'', [])])]\<rparr>"
    by (simp add: sample_loads_def block_verdict_def item_check_def item_text_def dict_get_def dict_get_or_def
        Let_def strip_def lstrip_def is_space_def lower valid_outcomes_def)
  finally show ?thesis .
qed

text \<open>
  The verifier's word never overrides a deterministic result. The merged outcome is the protocol's
  pass or fail whatever the model said; where the protocol could not decide, it is the model's explicit pass or
  fail, and otherwise stays as it was. What the model said about this check is always recorded beside it.
\<close>

theorem deterministic_evidence_wins:
  "map_of (merge_evidence p mv) ''outcome'' =
     (if str_get_or p ''outcome'' ''undetermined'' \<in> {''pass'', ''fail''} then map_of p ''outcome''
      else if model_says p mv \<in> {Some ''pass'', Some ''fail''} then model_says p mv
      else map_of p ''outcome'') \<and>
   map_of (merge_evidence p mv) ''model_outcome'' =
     Some (case model_says p mv of None \<Rightarrow> ''absent'' | Some w \<Rightarrow> w) \<and>
   map_of (merge_evidence p mv) ''check_id'' = map_of p ''check_id''"
proof -
  have put_other: "str_get_or (put ''model_outcome'' x p) ''outcome'' d = str_get_or p ''outcome'' d" for x d
    by (simp add: str_get_or_def)
  consider "str_get_or p ''outcome'' ''undetermined'' \<in> {''pass'', ''fail''}"
    | "str_get_or p ''outcome'' ''undetermined'' \<notin> {''pass'', ''fail''}"
      "model_says p mv \<in> {Some ''pass'', Some ''fail''}"
    | "str_get_or p ''outcome'' ''undetermined'' \<notin> {''pass'', ''fail''}"
      "model_says p mv \<notin> {Some ''pass'', Some ''fail''}" by blast
  then show ?thesis
  proof cases
    case 1
    then show ?thesis by (simp only: merge_evidence_def Let_def put_other if_True) simp
  next
    case 2
    from 2(2) obtain w where w: "model_says p mv = Some w" by blast
    from 2 show ?thesis
      by (simp only: merge_evidence_def Let_def put_other if_False if_True) (simp add: w)
  next
    case 3
    then show ?thesis by (simp only: merge_evidence_def Let_def put_other if_False) simp
  qed
qed

text \<open>
  A verifier run whose output was cut off is never mistaken for one that printed no verdict: the
  parser answers "no verdict" only for a complete output, and a verdict it does find is returned
  whether or not the rest was cut.
\<close>

theorem truncation_is_not_absence:
  "(verdict_from_output rp loads out truncated = Inr None \<longleftrightarrow>
      \<not> truncated \<and> parse_verdict_block rp loads out = None) \<and>
   (verdict_from_output rp loads out truncated = Inl VerdictSourceLossError \<longleftrightarrow>
      truncated \<and> parse_verdict_block rp loads out = None) \<and>
   (verdict_from_output rp loads out truncated = Inr (Some mv) \<longleftrightarrow>
      parse_verdict_block rp loads out = Some mv)"
  by (cases "parse_verdict_block rp loads out") (simp_all add: verdict_from_output_def)

text \<open>
  Reading a check and writing it back loses nothing: whatever JSON value the parser accepts as an
  acceptance check, serialising the result and parsing it again gives the same check, with the same identity.
\<close>

theorem check_parse_roundtrip:
  assumes "parse_check rp v = Inr c"
  shows "parse_check rp (check_json c) = Inr c"
  using parse_check_json [OF parse_check_wf [OF assms]] .

theorem check_parse_roundtrip_witness:
  "parse_check sample_repr (check_json (TypedCheck \<lparr>cs_kind = FileExists, cs_target = ''out.txt'', cs_args = [],
      cs_mandatory = True, cs_note = []\<rparr>)) = Inr (TypedCheck \<lparr>cs_kind = FileExists, cs_target = ''out.txt'',
      cs_args = [], cs_mandatory = True, cs_note = []\<rparr>)"
proof -
  have "parse_check sample_repr (JObj [(''kind'', JStr ''file-exists''), (''target'', JStr ''out.txt''), (''args'', JNull)]) =
      Inr (TypedCheck \<lparr>cs_kind = FileExists, cs_target = ''out.txt'', cs_args = [], cs_mandatory = True, cs_note = []\<rparr>)"
    using check_kind_of_value [of FileExists]
    by (simp add: parse_check_def check_from_dict_def dict_get_def dict_get_or_def dict_item_def is_blank_iff is_space_def)
  from check_parse_roundtrip [OF this] show ?thesis .
qed

end
