(* ===== verification/Plan_Gate.thy ===== *)
theory Plan_Gate
  imports Verdict
begin

text \<open>
  \<open>lhgp/contracts/plan.py\<close>: the gate a plan passes before an attempt is dispatched. Objectives are
  often Chinese, and the gate looks at CJK code points, so the strings of this theory are lists of code
  points. Python's Unicode tables (\<open>isspace\<close>, \<open>isalnum\<close>, \<open>lower\<close>) are the parameter \<open>u\<close> and the
  theorems hold for all of them; the SHA-256 digest of a plan is the parameter \<open>digest\<close>. UTF-8 is
  injective and leaves the separator bytes 0 and 1 alone, so the hashed bytes are modelled by the
  code points.
\<close>

type_synonym ustring = "nat list"

definition codes :: "string \<Rightarrow> ustring" where
  "codes s = map of_char s"

record unicode =
  u_space :: "nat \<Rightarrow> bool"
  u_alnum :: "nat \<Rightarrow> bool"
  u_lower :: "ustring \<Rightarrow> ustring"

definition u_blank :: "unicode \<Rightarrow> ustring \<Rightarrow> bool" where
  "u_blank u s = (\<forall>c \<in> set s. u_space u c)"

text \<open>\<open>str.split()\<close>: the maximal runs without white space.\<close>

fun split_words :: "(nat \<Rightarrow> bool) \<Rightarrow> ustring \<Rightarrow> ustring \<Rightarrow> ustring list" where
  "split_words sp w [] = (if w = [] then [] else [w])"
| "split_words sp w (c # cs) =
     (if sp c then (if w = [] then split_words sp [] cs else w # split_words sp [] cs)
      else split_words sp (w @ [c]) cs)"

section \<open>Plans\<close>

definition ALLOWED_ACTIONS :: "ustring list" where
  "ALLOWED_ACTIONS = map codes
     [''read file'', ''run command'', ''ask user'', ''verify acceptance'', ''write file'', ''search code'']"

definition STOP_WORDS :: "ustring list" where
  "STOP_WORDS = map codes
     [''the'', ''a'', ''an'', ''and'', ''or'', ''to'', ''of'', ''in'', ''for'', ''on'', ''with'', ''by'', ''is'', ''are'',
      ''be'', ''this'', ''that'', ''it'', ''as'', ''at'', ''from'', ''into''] @
     [[0x5B8C, 0x6210], [0x7684], [0x5728], [0x5E76]]"

record plan_step =
  ps_step_id :: int
  ps_action :: ustring
  ps_target :: ustring
  ps_rationale :: ustring
  ps_expected_outcome :: ustring

record plan =
  pl_contract_id :: string
  pl_steps :: "plan_step list"
  pl_submitted_at :: int
  pl_submitted_by :: string

text \<open>The parts of a contract view the gate reads.\<close>

datatype plan_check = TextCheck ustring | KindCheck check_kind ustring

record gate_view =
  gv_objective :: ustring
  gv_checks :: "plan_check list"
  gv_auto_enabled :: bool
  gv_auto_actions :: "ustring list"

definition step_bytes :: "plan_step \<Rightarrow> nat list" where
  "step_bytes s = codes (int_str (ps_step_id s)) @ [0] @ ps_action s @ [0] @ ps_target s @ [0] @
     ps_rationale s @ [0] @ ps_expected_outcome s @ [1]"

definition content_hash :: "(nat list \<Rightarrow> string) \<Rightarrow> plan \<Rightarrow> string" where
  "content_hash digest p = digest (concat (map step_bytes (pl_steps p)))"

section \<open>Keywords of the objective\<close>

definition is_cjk_code :: "nat \<Rightarrow> bool" where
  "is_cjk_code c = ((0x4E00 \<le> c \<and> c \<le> 0x9FFF) \<or> (0x3400 \<le> c \<and> c \<le> 0x4DBF))"

definition is_cjk :: "ustring \<Rightarrow> bool" where
  "is_cjk token = list_ex is_cjk_code token"

fun add_chars :: "nat list \<Rightarrow> ustring \<Rightarrow> nat list" where
  "add_chars acc [] = acc"
| "add_chars acc (c # cs) = add_chars (if \<not> is_cjk [c] \<or> c \<in> set acc then acc else acc @ [c]) cs"

text \<open>One turn of the loop over the words; each \<open>continue\<close> leaves the rest of the state as it is.\<close>

definition keyword_step :: "unicode \<Rightarrow> nat list \<times> ustring list \<Rightarrow> ustring \<Rightarrow> nat list \<times> ustring list" where
  "keyword_step u ck raw =
     (let cleaned = filter (u_alnum u) raw; lowered = u_lower u cleaned in
      if cleaned = [] then ck
      else if lowered \<in> set STOP_WORDS then ck
      else if is_cjk cleaned then (add_chars (fst ck) cleaned, snd ck)
      else if length lowered < 3 then ck
      else if lowered \<in> set (snd ck) then ck
      else (fst ck, snd ck @ [lowered]))"

definition pick_keyword :: "unicode \<Rightarrow> ustring \<Rightarrow> ustring list" where
  "pick_keyword u objective =
     (let (cjk_chars, keywords) = foldl (keyword_step u) ([], []) (split_words (u_space u) [] objective) in
      map (\<lambda>c. [c]) cjk_chars @ keywords)"

definition contains_any_keyword :: "unicode \<Rightarrow> ustring \<Rightarrow> ustring list \<Rightarrow> bool" where
  "contains_any_keyword u s keywords = list_ex (\<lambda>kw. contains (u_lower u s) kw) keywords"

section \<open>Coverage of the acceptance checks\<close>

definition check_identifier :: "plan_check \<Rightarrow> ustring" where
  "check_identifier c = (case c of
     KindCheck k t \<Rightarrow> codes (check_kind_value k) @ codes '':'' @ t
   | TextCheck t \<Rightarrow> t)"

definition haystack :: "unicode \<Rightarrow> plan_step \<Rightarrow> ustring" where
  "haystack u s = u_lower u (ps_target s @ codes '' '' @ ps_expected_outcome s)"

definition uncovered_checks :: "unicode \<Rightarrow> plan_step list \<Rightarrow> ustring list \<Rightarrow> ustring list" where
  "uncovered_checks u steps check_ids =
     (let covered = concat (map (\<lambda>s. filter (\<lambda>cid. contains (haystack u s) (u_lower u cid)) check_ids) steps) in
      filter (\<lambda>cid. cid \<notin> set covered) check_ids)"

section \<open>The gate\<close>

datatype plan_reason =
    NoSteps | ActionNotAllowed nat ustring | RationaleEmpty nat | TargetEmpty nat | OutcomeEmpty nat
  | ObjectiveHasNoKeyword | RationaleMissesKeyword nat "ustring list" | CheckUncovered ustring

record plan_validation =
  pv_approved :: bool
  pv_rejection_reasons :: "plan_reason list"
  pv_requires_signoff :: bool

definition step_errors :: "unicode \<Rightarrow> nat \<Rightarrow> plan_step \<Rightarrow> plan_reason list" where
  "step_errors u i s =
     (if ps_action s \<notin> set ALLOWED_ACTIONS then [ActionNotAllowed (Suc i) (ps_action s)] else []) @
     (if u_blank u (ps_rationale s) then [RationaleEmpty (Suc i)] else []) @
     (if u_blank u (ps_target s) then [TargetEmpty (Suc i)] else []) @
     (if u_blank u (ps_expected_outcome s) then [OutcomeEmpty (Suc i)] else [])"

definition keyword_errors :: "unicode \<Rightarrow> ustring list \<Rightarrow> plan_step list \<Rightarrow> plan_reason list" where
  "keyword_errors u keywords steps =
     (if keywords = [] then [ObjectiveHasNoKeyword]
      else errors_each (\<lambda>i s. if contains_any_keyword u (ps_rationale s) keywords then []
             else [RationaleMissesKeyword (Suc i) (take 3 keywords)]) steps)"

definition plan_validate :: "unicode \<Rightarrow> plan \<Rightarrow> gate_view \<Rightarrow> plan_validation" where
  "plan_validate u p contract =
     (if pl_steps p = [] then \<lparr>pv_approved = False, pv_rejection_reasons = [NoSteps], pv_requires_signoff = False\<rparr>
      else
        (let reasons = errors_each (step_errors u) (pl_steps p) @
               keyword_errors u (pick_keyword u (gv_objective contract)) (pl_steps p) @
               map CheckUncovered (uncovered_checks u (pl_steps p) (map check_identifier (gv_checks contract)));
             approved = (reasons = []);
             requires_signoff =
               (if approved \<and> \<not> gv_auto_enabled contract then True
                else if approved then list_ex (\<lambda>s. ps_action s \<notin> set (gv_auto_actions contract)) (pl_steps p)
                else False) in
         \<lparr>pv_approved = approved, pv_rejection_reasons = reasons, pv_requires_signoff = requires_signoff\<rparr>))"

section \<open>Lemmas\<close>

lemma uncovered_checks_empty: "uncovered_checks u steps ids = [] \<longleftrightarrow>
   (\<forall>cid \<in> set ids. \<exists>s \<in> set steps. contains (haystack u s) (u_lower u cid))"
  by (auto simp: uncovered_checks_def filter_empty_conv)

lemma step_errors_empty: "step_errors u i s = [] \<longleftrightarrow> ps_action s \<in> set ALLOWED_ACTIONS \<and>
   \<not> u_blank u (ps_rationale s) \<and> \<not> u_blank u (ps_target s) \<and> \<not> u_blank u (ps_expected_outcome s)"
  by (simp add: step_errors_def)

lemma keyword_errors_empty: "keyword_errors u kws steps = [] \<longleftrightarrow>
   kws \<noteq> [] \<and> (\<forall>s \<in> set steps. contains_any_keyword u (ps_rationale s) kws)"
proof -
  have "errors_each (\<lambda>i s. if contains_any_keyword u (ps_rationale s) kws then []
      else [RationaleMissesKeyword (Suc i) (take 3 kws)]) steps = [] \<longleftrightarrow>
      (\<forall>s \<in> set steps. contains_any_keyword u (ps_rationale s) kws)"
    by (rule errors_each_empty) simp
  then show ?thesis by (auto simp: keyword_errors_def)
qed

text \<open>What an approved plan is.\<close>

definition aligned_plan :: "unicode \<Rightarrow> plan_step list \<Rightarrow> gate_view \<Rightarrow> bool" where
  "aligned_plan u steps c \<longleftrightarrow> steps \<noteq> [] \<and>
     (\<forall>s \<in> set steps. ps_action s \<in> set ALLOWED_ACTIONS \<and> \<not> u_blank u (ps_rationale s) \<and>
        \<not> u_blank u (ps_target s) \<and> \<not> u_blank u (ps_expected_outcome s) \<and>
        (\<exists>kw \<in> set (pick_keyword u (gv_objective c)). contains (u_lower u (ps_rationale s)) kw)) \<and>
     (\<forall>chk \<in> set (gv_checks c). \<exists>s \<in> set steps. contains (haystack u s) (u_lower u (check_identifier chk)))"

lemma plan_validate_approved: "pv_approved (plan_validate u p c) \<longleftrightarrow> aligned_plan u (pl_steps p) c"
proof (cases "pl_steps p = []")
  case False
  then obtain s ss where "pl_steps p = s # ss" by (cases "pl_steps p") auto
  then show ?thesis
    using errors_each_empty [of "step_errors u", OF step_errors_empty]
    by (auto simp: plan_validate_def aligned_plan_def Let_def keyword_errors_empty uncovered_checks_empty
        contains_any_keyword_def list_ex_iff)
qed (simp add: plan_validate_def aligned_plan_def)

lemma plan_validate_reasons: "pv_approved (plan_validate u p c) \<longleftrightarrow> pv_rejection_reasons (plan_validate u p c) = []"
  by (simp add: plan_validate_def Let_def)

lemma plan_validate_signoff: "pv_requires_signoff (plan_validate u p c) \<longleftrightarrow> aligned_plan u (pl_steps p) c \<and>
   \<not> (gv_auto_enabled c \<and> ps_action ` set (pl_steps p) \<subseteq> set (gv_auto_actions c))"
proof -
  have "pv_requires_signoff (plan_validate u p c) \<longleftrightarrow> pv_approved (plan_validate u p c) \<and>
      (\<not> gv_auto_enabled c \<or> list_ex (\<lambda>s. ps_action s \<notin> set (gv_auto_actions c)) (pl_steps p))"
    by (auto simp: plan_validate_def Let_def)
  also have "(\<not> gv_auto_enabled c \<or> list_ex (\<lambda>s. ps_action s \<notin> set (gv_auto_actions c)) (pl_steps p)) \<longleftrightarrow>
      \<not> (gv_auto_enabled c \<and> ps_action ` set (pl_steps p) \<subseteq> set (gv_auto_actions c))"
    by (auto simp: list_ex_iff)
  finally show ?thesis by (simp add: plan_validate_approved)
qed

lemma add_chars_inv: "distinct acc \<and> (\<forall>c \<in> set acc. is_cjk_code c) \<Longrightarrow>
   distinct (add_chars acc cs) \<and> (\<forall>c \<in> set (add_chars acc cs). is_cjk_code c)"
proof (induction cs arbitrary: acc)
  case (Cons c cs)
  show ?case
    unfolding add_chars.simps by (rule Cons.IH) (use Cons.prems in \<open>simp add: is_cjk_def\<close>)
qed simp

definition good_word :: "ustring \<Rightarrow> bool" where
  "good_word w \<longleftrightarrow> 3 \<le> length w \<and> w \<notin> set STOP_WORDS"

definition kw_inv :: "nat list \<times> ustring list \<Rightarrow> bool" where
  "kw_inv ck \<longleftrightarrow> distinct (fst ck) \<and> (\<forall>c \<in> set (fst ck). is_cjk_code c) \<and>
     distinct (snd ck) \<and> (\<forall>w \<in> set (snd ck). good_word w)"

lemma keyword_step_inv:
  assumes "kw_inv ck"
  shows "kw_inv (keyword_step u ck raw)"
proof -
  have "kw_inv (add_chars (fst ck) cs, snd ck)" for cs
    using add_chars_inv [of "fst ck" cs] assms by (simp add: kw_inv_def)
  moreover have "kw_inv (fst ck, snd ck @ [w])" if "w \<notin> set STOP_WORDS" "\<not> length w < 3" "w \<notin> set (snd ck)" for w
    using assms that by (simp add: kw_inv_def good_word_def)
  ultimately show ?thesis using assms by (simp add: keyword_step_def Let_def)
qed

lemma keyword_loop_inv: "kw_inv ck \<Longrightarrow> kw_inv (foldl (keyword_step u) ck ws)"
  by (induction ws arbitrary: ck) (simp_all add: keyword_step_inv)

lemma pick_keyword_words:
  "distinct (pick_keyword u obj) \<and> (\<forall>w \<in> set (pick_keyword u obj). (\<exists>c. w = [c] \<and> is_cjk_code c) \<or> good_word w)"
proof -
  obtain cjk kws where l: "foldl (keyword_step u) ([], []) (split_words (u_space u) [] obj) = (cjk, kws)"
    by (cases "foldl (keyword_step u) ([], []) (split_words (u_space u) [] obj)")
  have "kw_inv ([], [])" by (simp add: kw_inv_def)
  from keyword_loop_inv [OF this, of u "split_words (u_space u) [] obj"] have "kw_inv (cjk, kws)" by (simp add: l)
  then show ?thesis by (auto simp: pick_keyword_def l kw_inv_def distinct_map inj_on_def good_word_def)
qed

section \<open>The hashed bytes determine the plan\<close>

definition digit_value :: "nat list \<Rightarrow> nat" where
  "digit_value ds = foldl (\<lambda>a d. 10 * a + (d - 48)) 0 ds"

lemma codes_append [simp]: "codes (a @ b) = codes a @ codes b"
  by (simp add: codes_def)

lemma digit_code: "n < 10 \<Longrightarrow> (of_char (char_of (48 + n :: nat)) :: nat) = 48 + n"
  by (simp add: of_char_of)

lemma codes_digits: "digit_value (codes (digits_of n)) = n \<and> (\<forall>c \<in> set (codes (digits_of n)). 48 \<le> c)"
proof (induction n rule: digits_of.induct)
  case (1 n)
  show ?case
  proof (cases "n < 10")
    case True
    then show ?thesis using digit_code [of n] by (simp add: digits_of.simps [of n] codes_def digit_value_def)
  next
    case False
    then have "n = 10 * (n div 10) + n mod 10" by simp
    with False 1 digit_code [of "n mod 10"] show ?thesis
      by (simp add: digits_of.simps [of n] digit_value_def) (simp add: codes_def)
  qed
qed

lemma codes_int_str_inject:
  assumes "codes (int_str i) = codes (int_str j)"
  shows "i = j"
proof -
  have nat_inj: "m = n" if "digits_of m = digits_of n" for m n
    using that codes_digits by metis
  have minus: "CHR ''-'' # digits_of m \<noteq> digits_of n" for m n
  proof
    assume "CHR ''-'' # digits_of m = digits_of n"
    then have "45 \<in> set (codes (digits_of n))" by (simp add: codes_def flip: \<open>_ = digits_of n\<close>)
    then show False using codes_digits [of n] by fastforce
  qed
  have "inj (of_char :: char \<Rightarrow> nat)" by (metis char_of_char injI)
  then have "int_str i = int_str j" using assms by (simp add: codes_def inj_map_eq_map)
  then show ?thesis
    using minus minus [symmetric]
    by (cases "i < 0"; cases "j < 0") (auto simp: int_str_def dest!: nat_inj)
qed

lemma codes_int_str_clean: "c \<in> set (codes (int_str i)) \<Longrightarrow> 1 < c"
  using codes_digits by (fastforce simp: int_str_def codes_def split: if_splits)

lemma split_at_separator:
  assumes "xs @ sep # ys = xs' @ sep # ys'" and "sep \<notin> set xs" and "sep \<notin> set xs'"
  shows "xs = xs' \<and> ys = ys'"
  using assms
proof (induction xs arbitrary: xs')
  case Nil
  then show ?case by (cases xs') auto
next
  case (Cons x xs)
  then show ?case by (cases xs') auto
qed

text \<open>A step whose texts hold neither of the two separator bytes.\<close>

definition clean_step :: "plan_step \<Rightarrow> bool" where
  "clean_step s \<longleftrightarrow> {0, 1} \<inter> (set (ps_action s) \<union> set (ps_target s) \<union> set (ps_rationale s) \<union> set (ps_expected_outcome s)) = {}"

lemma step_bytes_inject:
  assumes "step_bytes s @ bs = step_bytes t @ cs" and "clean_step s" and "clean_step t"
  shows "s = t \<and> bs = cs"
proof -
  have num: "0 \<notin> set (codes (int_str i))" for i using codes_int_str_clean [of 0 i] by auto
  have e1: "codes (int_str (ps_step_id s)) = codes (int_str (ps_step_id t)) \<and>
      ps_action s @ 0 # ps_target s @ 0 # ps_rationale s @ 0 # ps_expected_outcome s @ 1 # bs =
      ps_action t @ 0 # ps_target t @ 0 # ps_rationale t @ 0 # ps_expected_outcome t @ 1 # cs"
    by (rule split_at_separator [where sep = 0]) (use assms num in \<open>simp_all add: step_bytes_def\<close>)
  have e2: "ps_action s = ps_action t \<and>
      ps_target s @ 0 # ps_rationale s @ 0 # ps_expected_outcome s @ 1 # bs =
      ps_target t @ 0 # ps_rationale t @ 0 # ps_expected_outcome t @ 1 # cs"
    by (rule split_at_separator [where sep = 0]) (use e1 assms in \<open>simp_all add: clean_step_def\<close>)
  have e3: "ps_target s = ps_target t \<and>
      ps_rationale s @ 0 # ps_expected_outcome s @ 1 # bs = ps_rationale t @ 0 # ps_expected_outcome t @ 1 # cs"
    by (rule split_at_separator [where sep = 0]) (use e2 assms in \<open>simp_all add: clean_step_def\<close>)
  have e4: "ps_rationale s = ps_rationale t \<and>
      ps_expected_outcome s @ 1 # bs = ps_expected_outcome t @ 1 # cs"
    by (rule split_at_separator [where sep = 0]) (use e3 assms in \<open>simp_all add: clean_step_def\<close>)
  have e5: "ps_expected_outcome s = ps_expected_outcome t \<and> bs = cs"
    by (rule split_at_separator [where sep = 1]) (use e4 assms in \<open>simp_all add: clean_step_def\<close>)
  show ?thesis using e1 e2 e3 e4 e5 codes_int_str_inject by auto
qed

lemma step_bytes_nonempty: "step_bytes s \<noteq> []"
  by (simp add: step_bytes_def)

lemma plan_bytes_inject:
  assumes "concat (map step_bytes ss) = concat (map step_bytes ts)"
    and "\<forall>s \<in> set ss. clean_step s" and "\<forall>t \<in> set ts. clean_step t"
  shows "ss = ts"
  using assms
proof (induction ss arbitrary: ts)
  case Nil
  then show ?case by (cases ts) (auto simp: step_bytes_nonempty)
next
  case (Cons s ss)
  then obtain t ts' where ts: "ts = t # ts'" by (cases ts) (auto simp: step_bytes_nonempty)
  with Cons.prems have "s = t \<and> concat (map step_bytes ss) = concat (map step_bytes ts')"
    by (intro step_bytes_inject) auto
  with Cons ts show ?case by auto
qed

section \<open>Properties\<close>

text \<open>
  The plan gate approves exactly the aligned plans: at least one step, every action allowed, no blank
  target, rationale or outcome, every rationale with a keyword of the objective and every acceptance
  check mentioned by some step. It gives a reason whenever it rejects, and it asks for the user's sign-off
  exactly on the approved plans that the contract's pre-authorised actions do not cover.
\<close>

theorem plan_gate_exact:
  "(pv_approved (plan_validate u p c) \<longleftrightarrow> aligned_plan u (pl_steps p) c) \<and>
   (pv_rejection_reasons (plan_validate u p c) = [] \<longleftrightarrow> aligned_plan u (pl_steps p) c) \<and>
   (pv_requires_signoff (plan_validate u p c) \<longleftrightarrow> aligned_plan u (pl_steps p) c \<and>
      \<not> (gv_auto_enabled c \<and> ps_action ` set (pl_steps p) \<subseteq> set (gv_auto_actions c)))"
  using plan_validate_approved [of u p c] plan_validate_reasons [of u p c] plan_validate_signoff [of u p c] by simp

text \<open>A runtime for ASCII, in which every other code point is a letter without case.\<close>

definition ascii :: unicode where
  "ascii = \<lparr>u_space = (\<lambda>c. (9 \<le> c \<and> c \<le> 13) \<or> c = 32),
     u_alnum = (\<lambda>c. (48 \<le> c \<and> c \<le> 57) \<or> (65 \<le> c \<and> c \<le> 90) \<or> (97 \<le> c \<and> c \<le> 122) \<or> 128 \<le> c),
     u_lower = map (\<lambda>c. if 65 \<le> c \<and> c \<le> 90 then c + 32 else c)\<rparr>"

definition sample_step :: "ustring \<Rightarrow> ustring \<Rightarrow> plan_step" where
  "sample_step target rationale = \<lparr>ps_step_id = 1, ps_action = codes ''run command'', ps_target = target,
     ps_rationale = rationale, ps_expected_outcome = codes ''file-exists:a''\<rparr>"

definition sample_plan :: "plan_step \<Rightarrow> plan" where
  "sample_plan s = \<lparr>pl_contract_id = ''c'', pl_steps = [s], pl_submitted_at = 0, pl_submitted_by = ''agent:e''\<rparr>"

definition sample_view :: gate_view where
  "sample_view = \<lparr>gv_objective = codes ''Fix the login'', gv_checks = [KindCheck FileExists (codes ''a'')],
     gv_auto_enabled = False, gv_auto_actions = []\<rparr>"

lemma sample_keywords: "pick_keyword ascii (codes ''Fix the login'') = [codes ''fix'', codes ''login'']"
  by (simp add: pick_keyword_def keyword_step_def codes_def ascii_def STOP_WORDS_def is_cjk_def is_cjk_code_def)

lemma run_command_allowed: "codes ''run command'' \<in> set ALLOWED_ACTIONS"
  by (simp add: ALLOWED_ACTIONS_def)

text \<open>A step that mentions the keyword and the check is approved, whatever else its texts hold.\<close>

lemma sample_plan_aligned:
  assumes "contains (u_lower ascii r) (codes ''fix'')" and "hd t \<notin> {9, 10, 11, 12, 13, 32}" and "t \<noteq> []"
  shows "pv_approved (plan_validate ascii (sample_plan (sample_step t r)) sample_view)"
proof -
  have "contains (haystack ascii (sample_step t r)) (u_lower ascii (check_identifier (KindCheck FileExists (codes ''a''))))"
    unfolding contains_iff
    by (rule exI [of _ "u_lower ascii (t @ codes '' '')"], rule exI [of _ "[]"])
      (simp add: haystack_def sample_step_def ascii_def check_identifier_def codes_def)
  moreover have "\<not> u_blank ascii t"
    using assms(2,3) by (cases t) (auto simp: u_blank_def ascii_def)
  moreover have "\<not> u_blank ascii r"
  proof
    assume "u_blank ascii r"
    then have "u_lower ascii r = r" by (induction r) (auto simp: u_blank_def ascii_def)
    with assms(1) have "102 \<in> set r" by (auto simp: contains_iff codes_def)
    with \<open>u_blank ascii r\<close> show False by (auto simp: u_blank_def ascii_def)
  qed
  moreover have "\<not> u_blank ascii (codes ''file-exists:a'')"
    by (simp add: u_blank_def ascii_def codes_def)
  ultimately show ?thesis
    using assms(1) run_command_allowed
    by (simp add: plan_validate_approved aligned_plan_def sample_plan_def sample_view_def sample_keywords)
      (simp add: sample_step_def)
qed

lemma sample_plan_approved: "pv_approved (plan_validate ascii (sample_plan (sample_step (codes ''make'') (codes ''a FIX''))) sample_view)"
  by (rule sample_plan_aligned) (simp_all add: codes_def ascii_def)

text \<open>
  No step of an approved plan can be justified by filler. Its rationale contains a keyword
  of the objective that is either a single CJK ideograph or a word of at least three characters that is not a
  stop word; the keywords of an objective are all distinct.
\<close>

theorem approved_steps_name_the_objective:
  assumes "pv_approved (plan_validate u p c)" and "s \<in> set (pl_steps p)"
  shows "(\<exists>kw \<in> set (pick_keyword u (gv_objective c)). contains (u_lower u (ps_rationale s)) kw \<and>
      ((\<exists>ch. kw = [ch] \<and> is_cjk_code ch) \<or> (3 \<le> length kw \<and> kw \<notin> set STOP_WORDS))) \<and>
    distinct (pick_keyword u (gv_objective c))"
proof -
  note words = pick_keyword_words [of u "gv_objective c"]
  obtain kw where kw: "kw \<in> set (pick_keyword u (gv_objective c))" "contains (u_lower u (ps_rationale s)) kw"
    using assms unfolding plan_validate_approved aligned_plan_def by blast
  moreover from words kw(1) have "(\<exists>ch. kw = [ch] \<and> is_cjk_code ch) \<or> (3 \<le> length kw \<and> kw \<notin> set STOP_WORDS)"
    unfolding good_word_def by blast
  ultimately show ?thesis using words by blast
qed

theorem approved_steps_name_the_objective_witness:
  "\<exists>kw \<in> set (pick_keyword ascii (codes ''Fix the login'')). contains (codes ''a fix'') kw"
proof -
  have "sample_step (codes ''make'') (codes ''a FIX'') \<in> set (pl_steps (sample_plan (sample_step (codes ''make'') (codes ''a FIX''))))"
    by (simp add: sample_plan_def)
  from approved_steps_name_the_objective [OF sample_plan_approved this]
  show ?thesis by (auto simp: sample_view_def sample_step_def ascii_def codes_def)
qed

text \<open>
  An approval is bound to the plan it was given for: as long as the texts of the steps hold neither of
  the two separator bytes and the digest does not collide on these two plans, plans with the same content
  hash have the same steps, in the same order, whatever contract they name and whenever they were submitted.
\<close>

theorem plan_hash_binds_steps:
  assumes "content_hash digest p = content_hash digest q"
    and "digest (concat (map step_bytes (pl_steps p))) = digest (concat (map step_bytes (pl_steps q))) \<Longrightarrow>
      concat (map step_bytes (pl_steps p)) = concat (map step_bytes (pl_steps q))"
    and "\<forall>s \<in> set (pl_steps p) \<union> set (pl_steps q). clean_step s"
  shows "pl_steps p = pl_steps q"
  using assms plan_bytes_inject by (simp add: content_hash_def)

theorem plan_hash_binds_steps_witness:
  "content_hash (\<lambda>bs. map char_of bs) (sample_plan (sample_step (codes ''make'') (codes ''fix''))) \<noteq>
   content_hash (\<lambda>bs. map char_of bs) (sample_plan (sample_step (codes ''rm'') (codes ''fix'')))"
proof
  let ?p = "sample_plan (sample_step (codes ''make'') (codes ''fix''))"
    and ?q = "sample_plan (sample_step (codes ''rm'') (codes ''fix''))"
  assume eq: "content_hash (\<lambda>bs. map char_of bs) ?p = content_hash (\<lambda>bs. map char_of bs) ?q"
  have codes_lt: "\<forall>b \<in> set (codes s). b < 256" for s
    by (auto simp: codes_def)
  have "map of_char (map char_of bs :: string) = bs" if "\<forall>b \<in> set bs. b < 256" for bs :: "nat list"
    using that by (simp add: map_idI)
  moreover have "\<forall>b \<in> set (concat (map step_bytes (pl_steps (sample_plan (sample_step (codes t) (codes r)))))). b < 256" for t r
    using codes_lt by (auto simp: sample_plan_def sample_step_def step_bytes_def)
  ultimately have inj: "map char_of (concat (map step_bytes (pl_steps ?p))) = (map char_of (concat (map step_bytes (pl_steps ?q))) :: string) \<Longrightarrow>
      concat (map step_bytes (pl_steps ?p)) = concat (map step_bytes (pl_steps ?q))"
    by metis
  have clean: "\<forall>s \<in> set (pl_steps ?p) \<union> set (pl_steps ?q). clean_step s"
    by (simp add: sample_plan_def sample_step_def clean_step_def codes_def)
  from plan_hash_binds_steps [OF eq inj clean] show False
    by (simp add: sample_plan_def sample_step_def codes_def)
qed

text \<open>
  The guard on the separator bytes is needed: there are two different plans, both approved by the
  same gate, that hash the same whatever the digest, because a NUL in a target moves the boundary between
  target and rationale. An approval of one is then an approval of the other.
\<close>

theorem hash_collides_on_nul:
  "\<exists>p q. pl_steps p \<noteq> pl_steps q \<and> pv_approved (plan_validate ascii p sample_view) \<and>
     pv_approved (plan_validate ascii q sample_view) \<and> (\<forall>digest. content_hash digest p = content_hash digest q)"
proof -
  let ?p = "sample_plan (sample_step (codes ''make'' @ [0] @ codes ''fix'') (codes ''fix''))"
    and ?q = "sample_plan (sample_step (codes ''make'') (codes ''fix'' @ [0] @ codes ''fix''))"
  have "pv_approved (plan_validate ascii ?p sample_view)"
    by (rule sample_plan_aligned) (simp_all add: codes_def ascii_def)
  moreover have "pv_approved (plan_validate ascii ?q sample_view)"
    by (rule sample_plan_aligned) (simp_all add: codes_def ascii_def)
  moreover have "pl_steps ?p \<noteq> pl_steps ?q" by (simp add: sample_plan_def sample_step_def codes_def)
  moreover have "\<forall>digest. content_hash digest ?p = content_hash digest ?q"
    by (simp add: content_hash_def sample_plan_def sample_step_def step_bytes_def)
  ultimately show ?thesis by blast
qed

end
