(* ===== verification/Urgency.thy ===== *)
theory Urgency
  imports Lhgp_Prelude
begin

text \<open>
  \<open>lhgp/promoter/urgency.py\<close> and \<open>lhgp/promoter/escalation.py\<close>: the urgency ratio, its tiers and
  the escalation ladder that turns a tier and the remaining budgets into one decision. The reason
  text of a decision is a constructor that carries the values the text interpolates.
\<close>

section \<open>Tiers\<close>

datatype urgency_tier = Queued | Remind | Steer | Respawn | Parallel | HandToUser

fun tier_int :: "urgency_tier \<Rightarrow> int" where
  "tier_int Queued = 0"
| "tier_int Remind = 1"
| "tier_int Steer = 2"
| "tier_int Respawn = 3"
| "tier_int Parallel = 4"
| "tier_int HandToUser = 5"

lemma tier_int_inject: "tier_int s = tier_int t \<longleftrightarrow> s = t"
  by (cases s; cases t) simp_all

text \<open>An \<open>IntEnum\<close> is ordered by its value.\<close>

instantiation urgency_tier :: linorder
begin

definition less_eq_urgency_tier :: "urgency_tier \<Rightarrow> urgency_tier \<Rightarrow> bool" where
  "less_eq_urgency_tier s t \<longleftrightarrow> tier_int s \<le> tier_int t"

definition less_urgency_tier :: "urgency_tier \<Rightarrow> urgency_tier \<Rightarrow> bool" where
  "less_urgency_tier s t \<longleftrightarrow> tier_int s < tier_int t"

instance
  by intro_classes
    (auto simp: less_eq_urgency_tier_def less_urgency_tier_def simp flip: tier_int_inject)

end

lemmas tier_order = less_eq_urgency_tier_def less_urgency_tier_def

record urgency_thresholds =
  th_remind :: rat
  th_steer :: rat
  th_respawn :: rat
  th_hand_to_user :: rat

definition thresholds_validate :: "urgency_thresholds \<Rightarrow> urgency_thresholds list" where
  "thresholds_validate th =
     (if \<not> (0 < th_remind th \<and> th_remind th < th_steer th \<and> th_steer th < th_respawn th \<and>
             th_respawn th < th_hand_to_user th) then [th] else [])"

definition DEFAULT_THRESHOLDS :: urgency_thresholds where
  "DEFAULT_THRESHOLDS = \<lparr>th_remind = 1/4, th_steer = 1/2, th_respawn = 1, th_hand_to_user = 3/2\<rparr>"

definition urgency :: "rat \<Rightarrow> rat \<Rightarrow> py_error + rat option" where
  "urgency remaining_hours hours_left =
     (if hours_left \<le> 0 then Inr None
      else if remaining_hours < 0 then Inl (ValueError ''remaining_hours'')
      else Inr (Some (remaining_hours / hours_left)))"

definition classify :: "urgency_thresholds \<Rightarrow> rat option \<Rightarrow> urgency_tier option" where
  "classify th u = (case u of
     None \<Rightarrow> None
   | Some u \<Rightarrow>
       if u < th_remind th then Some Queued
       else if u < th_steer th then Some Remind
       else if u < th_respawn th then Some Steer
       else Some Respawn)"

section \<open>The escalation ladder\<close>

datatype escalation_reason =
    PastDeadline
  | LeaseAliveCap urgency_tier urgency_tier
  | CostExhausted pyfloat
  | SteerBudgetExhausted
  | SteerRespawn
  | FreeAction urgency_tier
  | DispatchExhausted
  | StalledRespawn bool int
  | ThresholdRespawn

record escalation_decision =
  ed_tier :: "urgency_tier option"
  ed_reason :: escalation_reason
  ed_consumes_dispatch :: bool
  ed_consumes_escalation :: bool

definition free_decision :: "urgency_tier \<Rightarrow> escalation_reason \<Rightarrow> escalation_decision" where
  "free_decision t r = \<lparr>ed_tier = Some t, ed_reason = r, ed_consumes_dispatch = False,
     ed_consumes_escalation = False\<rparr>"

record ladder_input =
  li_tier :: "urgency_tier option"
  li_lease_alive :: bool
  li_dispatches_left :: int
  li_escalations_left :: int
  li_estimate_stalled :: bool
  li_partitions_allowed :: bool
  li_cost_left :: "pyfloat option"

definition decide :: "ladder_input \<Rightarrow> escalation_decision" where
  "decide i = (case li_tier i of
     None \<Rightarrow> \<lparr>ed_tier = None, ed_reason = PastDeadline, ed_consumes_dispatch = False,
              ed_consumes_escalation = False\<rparr>
   | Some tier \<Rightarrow>
       if li_lease_alive i then
         (let capped = min tier Remind in free_decision capped (LeaseAliveCap tier capped))
       else if (case li_cost_left i of None \<Rightarrow> False | Some c \<Rightarrow> float_nonpos c) then
         \<lparr>ed_tier = Some HandToUser, ed_reason = CostExhausted (the (li_cost_left i)),
          ed_consumes_dispatch = False, ed_consumes_escalation = False\<rparr>
       else if tier = Steer then
         (if li_dispatches_left i < 1 then
            \<lparr>ed_tier = Some HandToUser, ed_reason = SteerBudgetExhausted,
             ed_consumes_dispatch = False, ed_consumes_escalation = False\<rparr>
          else
            \<lparr>ed_tier = Some Respawn, ed_reason = SteerRespawn,
             ed_consumes_dispatch = True, ed_consumes_escalation = False\<rparr>)
       else if tier = Queued \<or> tier = Remind then free_decision tier (FreeAction tier)
       else if li_dispatches_left i < 1 then
         \<lparr>ed_tier = Some HandToUser, ed_reason = DispatchExhausted,
          ed_consumes_dispatch = False, ed_consumes_escalation = False\<rparr>
       else if li_estimate_stalled i then
         \<lparr>ed_tier = Some Respawn,
          ed_reason = StalledRespawn (li_partitions_allowed i) (li_escalations_left i),
          ed_consumes_dispatch = True, ed_consumes_escalation = False\<rparr>
       else
         \<lparr>ed_tier = Some Respawn, ed_reason = ThresholdRespawn,
          ed_consumes_dispatch = True, ed_consumes_escalation = False\<rparr>)"

definition cost_exhausted :: "ladder_input \<Rightarrow> bool" where
  "cost_exhausted i \<longleftrightarrow> (\<exists>c. li_cost_left i = Some c \<and> float_nonpos c)"

lemma cost_exhausted_case:
  "(case li_cost_left i of None \<Rightarrow> False | Some c \<Rightarrow> float_nonpos c) = cost_exhausted i"
  by (auto simp: cost_exhausted_def split: option.splits)

lemma decide_past: "li_tier i = None \<Longrightarrow> ed_tier (decide i) = None \<and> \<not> ed_consumes_dispatch (decide i)"
  by (simp add: decide_def)

lemma decide_alive:
  "li_tier i = Some t \<Longrightarrow> li_lease_alive i \<Longrightarrow> decide i = free_decision (min t Remind) (LeaseAliveCap t (min t Remind))"
  by (simp add: decide_def Let_def)

text \<open>When the ladder spends a dispatch.\<close>

lemma decide_consumes_iff:
  "ed_consumes_dispatch (decide i) \<longleftrightarrow>
     (\<exists>t. li_tier i = Some t \<and> Steer \<le> t) \<and> \<not> li_lease_alive i \<and> \<not> cost_exhausted i \<and>
     1 \<le> li_dispatches_left i"
proof (cases "li_tier i")
  case None
  then show ?thesis by (simp add: decide_def)
next
  case (Some t)
  then show ?thesis
    by (cases t)
      (simp_all add: decide_def free_decision_def cost_exhausted_case tier_order Let_def)
qed

lemma decide_never_escalates: "\<not> ed_consumes_escalation (decide i)"
  by (simp add: decide_def free_decision_def Let_def split: option.splits)

lemma decide_tier_dispatch:
  "ed_tier (decide i) = Some Respawn \<longleftrightarrow> ed_consumes_dispatch (decide i)"
proof (cases "li_tier i")
  case None
  then show ?thesis by (simp add: decide_def)
next
  case (Some t)
  then show ?thesis
    by (cases t)
      (simp_all add: decide_def free_decision_def cost_exhausted_case tier_order Let_def min_def)
qed

section \<open>A run of ticks against one dispatch budget\<close>

text \<open>
  The daemon asks the ladder once per tick and lowers the remaining dispatches whenever the
  decision consumes one. \<open>ladder_run\<close> feeds the inputs of successive ticks to \<open>decide\<close>, with the
  budget threaded through.
\<close>

fun ladder_run :: "int \<Rightarrow> ladder_input list \<Rightarrow> escalation_decision list" where
  "ladder_run budget [] = []"
| "ladder_run budget (i # is) =
     (let d = decide (i\<lparr>li_dispatches_left := budget\<rparr>)
      in d # ladder_run (if ed_consumes_dispatch d then budget - 1 else budget) is)"

lemma ladder_run_spends_at_most:
  "int (length (filter ed_consumes_dispatch (ladder_run budget is))) \<le> max 0 budget"
proof (induction "is" arbitrary: budget)
  case Nil
  then show ?case by simp
next
  case (Cons i "is")
  let ?d = "decide (i\<lparr>li_dispatches_left := budget\<rparr>)"
  show ?case
  proof (cases "ed_consumes_dispatch ?d")
    case True
    then have "1 \<le> budget" using decide_consumes_iff by simp
    with True Cons.IH [of "budget - 1"] show ?thesis by (simp add: Let_def)
  next
    case False
    with Cons.IH [of budget] show ?thesis by (simp add: Let_def)
  qed
qed

section \<open>Properties\<close>

text \<open>
  The ladder spends a dispatch exactly when the contract has a tier of at least steer, no live
  lease, a cost budget that is not exhausted and at least one dispatch left; it then always says
  respawn, and respawn is never said for free. It never spends an escalation and never answers
  parallel; with a live lease it never goes above remind.
\<close>

theorem ladder_dispatch_exact:
  "(ed_consumes_dispatch (decide i) \<longleftrightarrow>
      (\<exists>t. li_tier i = Some t \<and> Steer \<le> t) \<and> \<not> li_lease_alive i \<and>
      (case li_cost_left i of None \<Rightarrow> True | Some c \<Rightarrow> \<not> float_nonpos c) \<and> 1 \<le> li_dispatches_left i) \<and>
   (ed_tier (decide i) = Some Respawn \<longleftrightarrow> ed_consumes_dispatch (decide i)) \<and>
   \<not> ed_consumes_escalation (decide i) \<and>
   (case ed_tier (decide i) of None \<Rightarrow> li_tier i = None
      | Some t \<Rightarrow> if li_lease_alive i then t \<le> Remind else t \<noteq> Parallel)"
proof -
  have cost: "(case li_cost_left i of None \<Rightarrow> True | Some c \<Rightarrow> \<not> float_nonpos c) = (\<not> cost_exhausted i)"
    by (auto simp: cost_exhausted_def split: option.splits)
  have "case ed_tier (decide i) of None \<Rightarrow> li_tier i = None
      | Some t \<Rightarrow> if li_lease_alive i then t \<le> Remind else t \<noteq> Parallel"
  proof (cases "li_tier i")
    case None
    then show ?thesis by (simp add: decide_def)
  next
    case (Some t)
    then show ?thesis
      by (cases t) (simp_all add: decide_def free_decision_def Let_def)
  qed
  then show ?thesis
    using decide_consumes_iff [of i] decide_never_escalates [of i] decide_tier_dispatch [of i]
    unfolding cost by blast
qed

text \<open>
  Whatever the inputs of successive ticks are, the ladder fed with the remaining dispatch budget
  spends at most that budget over the whole run, and once the budget is used up every further
  decision is free.
\<close>

theorem ladder_never_overspends:
  "int (length (filter ed_consumes_dispatch (ladder_run budget ticks))) \<le> max 0 budget \<and>
   (budget \<le> 0 \<longrightarrow> (\<forall>d \<in> set (ladder_run budget ticks). \<not> ed_consumes_dispatch d))"
proof
  show spent: "int (length (filter ed_consumes_dispatch (ladder_run budget ticks))) \<le> max 0 budget"
    by (rule ladder_run_spends_at_most)
  show "budget \<le> 0 \<longrightarrow> (\<forall>d \<in> set (ladder_run budget ticks). \<not> ed_consumes_dispatch d)"
  proof
    assume "budget \<le> 0"
    with spent have "filter ed_consumes_dispatch (ladder_run budget ticks) = []" by simp
    then show "\<forall>d \<in> set (ladder_run budget ticks). \<not> ed_consumes_dispatch d"
      by (simp add: filter_empty_conv)
  qed
qed

theorem ladder_never_overspends_witness:
  "(0::int) \<le> 0 \<and>
   list_all (\<lambda>d. \<not> ed_consumes_dispatch d) (ladder_run 0 [\<lparr>li_tier = Some Respawn, li_lease_alive = False,
        li_dispatches_left = 7, li_escalations_left = 1, li_estimate_stalled = False, li_partitions_allowed = True,
        li_cost_left = None\<rparr>])"
  using ladder_never_overspends [of 0 "[\<lparr>li_tier = Some Respawn, li_lease_alive = False, li_dispatches_left = 7,
        li_escalations_left = 1, li_estimate_stalled = False, li_partitions_allowed = True,
        li_cost_left = None\<rparr>]"] by (simp add: list_all_iff)

text \<open>
  Classification is monotone in the urgency ratio for every threshold set that validates: a
  contract with a larger ratio is never put in a lower tier, and only the tiers queued, remind,
  steer and respawn are produced.
\<close>

theorem classify_monotone:
  assumes "thresholds_validate th = []" and "u \<le> v"
  shows "\<exists>s t. classify th (Some u) = Some s \<and> classify th (Some v) = Some t \<and> s \<le> t \<and> t \<le> Respawn"
proof -
  from assms(1) have "th_remind th < th_steer th" "th_steer th < th_respawn th"
    by (auto simp: thresholds_validate_def split: if_splits)
  with assms(2) show ?thesis by (auto simp: classify_def tier_order)
qed

theorem classify_monotone_witness:
  "thresholds_validate DEFAULT_THRESHOLDS = [] \<and> (1/3 :: rat) \<le> 2 \<and>
   classify DEFAULT_THRESHOLDS (Some (1/3)) = Some Remind \<and>
   (\<exists>s t. classify DEFAULT_THRESHOLDS (Some (1/3)) = Some s \<and> classify DEFAULT_THRESHOLDS (Some 2) = Some t \<and>
      s \<le> t \<and> t \<le> Respawn)"
proof -
  have v: "thresholds_validate DEFAULT_THRESHOLDS = []"
    by (simp add: thresholds_validate_def DEFAULT_THRESHOLDS_def)
  have o: "(1/3 :: rat) \<le> 2" by simp
  show ?thesis using v o classify_monotone [OF v o]
    by (simp add: classify_def DEFAULT_THRESHOLDS_def)
qed

end
