(* ===== verification/Fairness.thy ===== *)
theory Fairness
  imports Urgency "HOL-Library.Multiset"
begin

text \<open>
  \<open>lhgp/promoter/fairness.py\<close>: the starvation counter of one contract, the per-tick capacity
  ledger, and the reordering that puts starved contracts first; \<open>lhgp/promoter/proposals.py\<close>: the
  structural check of a plan a model proposes.
\<close>

section \<open>Starvation\<close>

record fairness_config =
  fc_starvation_ticks :: int
  fc_max_dispatches_per_tick :: int

definition DEFAULT_FAIRNESS :: fairness_config where
  "DEFAULT_FAIRNESS = \<lparr>fc_starvation_ticks = 5, fc_max_dispatches_per_tick = 0\<rparr>"

record fairness_state =
  fs_contract_id :: string
  fs_last_tier :: "int option"
  fs_tier_consecutive_ticks :: int
  fs_ticks_since_last_dispatch :: int

text \<open>The method mutates the state and returns whether the contract is starved.\<close>

definition observe_tick :: "fairness_state \<Rightarrow> int \<Rightarrow> bool \<Rightarrow> fairness_state \<times> bool" where
  "observe_tick s tier dispatched =
     (let s1 = (if dispatched
                then s\<lparr>fs_tier_consecutive_ticks := 0, fs_ticks_since_last_dispatch := 0\<rparr>
                else s\<lparr>fs_ticks_since_last_dispatch := fs_ticks_since_last_dispatch s + 1\<rparr>);
          s2 = (if fs_last_tier s1 = Some tier
                then s1\<lparr>fs_tier_consecutive_ticks := fs_tier_consecutive_ticks s1 + 1\<rparr>
                else s1\<lparr>fs_tier_consecutive_ticks := 1, fs_last_tier := Some tier\<rparr>)
      in (s2, fs_ticks_since_last_dispatch s2 \<ge> fc_starvation_ticks DEFAULT_FAIRNESS))"

fun observe_all :: "fairness_state \<Rightarrow> (int \<times> bool) list \<Rightarrow> fairness_state" where
  "observe_all s [] = s"
| "observe_all s ((tier, d) # ts) = observe_all (fst (observe_tick s tier d)) ts"

lemma observe_tick_since:
  "fs_ticks_since_last_dispatch (fst (observe_tick s tier d)) =
     (if d then 0 else fs_ticks_since_last_dispatch s + 1)"
  by (simp add: observe_tick_def Let_def)

lemma observe_all_append: "observe_all s (xs @ ys) = observe_all (observe_all s xs) ys"
  by (induction s xs rule: observe_all.induct) auto

lemma observe_all_undispatched:
  "\<forall>t \<in> set ts. \<not> snd t \<Longrightarrow>
     fs_ticks_since_last_dispatch (observe_all s ts) = fs_ticks_since_last_dispatch s + int (length ts)"
  by (induction s ts rule: observe_all.induct) (auto simp: observe_tick_since)

section \<open>The capacity ledger of one tick\<close>

record capacity_ledger =
  cl_config :: fairness_config
  cl_dispatched :: "string list"

definition can_dispatch :: "capacity_ledger \<Rightarrow> string \<Rightarrow> bool" where
  "can_dispatch l cid =
     (if cid \<in> set (cl_dispatched l) then False
      else if fc_max_dispatches_per_tick (cl_config l) \<le> 0 then True
      else int (length (cl_dispatched l)) < fc_max_dispatches_per_tick (cl_config l))"

text \<open>The ledger's set is kept as a list without repetitions.\<close>

definition record_dispatch :: "capacity_ledger \<Rightarrow> string \<Rightarrow> capacity_ledger" where
  "record_dispatch l cid = l\<lparr>cl_dispatched := List.insert cid (cl_dispatched l)\<rparr>"

definition dispatched_count :: "capacity_ledger \<Rightarrow> nat" where
  "dispatched_count l = length (cl_dispatched l)"

text \<open>A tick that offers the contracts in order and records those the ledger lets through.\<close>

fun dispatch_in_order :: "capacity_ledger \<Rightarrow> string list \<Rightarrow> capacity_ledger" where
  "dispatch_in_order l [] = l"
| "dispatch_in_order l (c # cs) =
     dispatch_in_order (if can_dispatch l c then record_dispatch l c else l) cs"

definition ledger_ok :: "capacity_ledger \<Rightarrow> bool" where
  "ledger_ok l \<longleftrightarrow> distinct (cl_dispatched l) \<and>
     (0 < fc_max_dispatches_per_tick (cl_config l) \<longrightarrow>
        int (length (cl_dispatched l)) \<le> fc_max_dispatches_per_tick (cl_config l))"

lemma record_dispatch_ok [inv_intros]:
  "ledger_ok l \<Longrightarrow> can_dispatch l c \<Longrightarrow> ledger_ok (record_dispatch l c)"
  by (auto simp: ledger_ok_def can_dispatch_def record_dispatch_def List.insert_def split: if_splits)

lemma record_dispatch_config [frame_simps]: "cl_config (record_dispatch l c) = cl_config l"
  by (simp add: record_dispatch_def)

lemma dispatch_in_order_ok [inv_intros]: "ledger_ok l \<Longrightarrow> ledger_ok (dispatch_in_order l cs)"
  by (induction l cs rule: dispatch_in_order.induct) (simp_all add: record_dispatch_ok)

lemma dispatch_in_order_config [frame_simps]:
  "cl_config (dispatch_in_order l cs) = cl_config l"
  by (induction l cs rule: dispatch_in_order.induct) (auto simp: frame_simps)

section \<open>The order\<close>

definition starved_id :: "(string \<rightharpoonup> fairness_state) \<Rightarrow> string \<Rightarrow> bool" where
  "starved_id states cid = (case states cid of
     None \<Rightarrow> False
   | Some s \<Rightarrow> fs_ticks_since_last_dispatch s \<ge> fc_starvation_ticks DEFAULT_FAIRNESS)"

definition apply_fairness_order ::
    "string list \<Rightarrow> (string \<rightharpoonup> int) \<Rightarrow> (string \<rightharpoonup> fairness_state) \<Rightarrow> string list" where
  "apply_fairness_order contract_ids urgency_by_contract fairness_states =
     (let starved = filter (starved_id fairness_states) contract_ids;
          rest = filter (\<lambda>cid. cid \<notin> set starved) contract_ids
      in starved @ rest)"

lemma fairness_rest:
  "filter (\<lambda>cid. cid \<notin> set (filter p xs)) xs = filter (\<lambda>cid. \<not> p cid) xs"
  by (rule filter_cong) auto

lemma apply_fairness_order_alt:
  "apply_fairness_order ids u st = filter (starved_id st) ids @ filter (\<lambda>c. \<not> starved_id st c) ids"
  by (simp add: apply_fairness_order_def Let_def fairness_rest del: set_filter)

section \<open>Proposed plans\<close>

datatype proposal_error =
    PlanNotObject
  | StagesNotArray
  | TooManyStages nat
  | StageNotObject nat
  | StageTooManyFields nat nat
  | StageIdMissing nat
  | StageContractIdBlank nat
  | StageContractIdPath nat string
  | StageForbiddenField nat string

definition MAX_STAGES :: nat where "MAX_STAGES = 20"
definition MAX_STAGE_FIELDS :: nat where "MAX_STAGE_FIELDS = 10"

definition forbidden_stage_fields :: "string list" where
  "forbidden_stage_fields = [''executor'', ''model'', ''budget'', ''authority'']"

fun nonblank_str :: "json \<Rightarrow> bool" where
  "nonblank_str (JStr s) = (\<not> is_blank s)"
| "nonblank_str _ = False"

definition has_path_chars :: "string \<Rightarrow> bool" where
  "has_path_chars s = (\<exists>c \<in> {''/'', [char_of (92::nat)], ''..''}. contains s c)"

definition contract_id_errors :: "nat \<Rightarrow> json \<Rightarrow> proposal_error list" where
  "contract_id_errors i v = (case v of
     JNull \<Rightarrow> []
   | JStr s \<Rightarrow> (if is_blank s then [StageContractIdBlank i]
                 else if has_path_chars s then [StageContractIdPath i s] else [])
   | _ \<Rightarrow> [StageContractIdBlank i])"

definition proposed_stage_errors :: "nat \<Rightarrow> json \<Rightarrow> proposal_error list" where
  "proposed_stage_errors i stage = (case stage of
     JObj d \<Rightarrow>
       (if length d > MAX_STAGE_FIELDS then [StageTooManyFields i (length d)] else []) @
       (if \<not> nonblank_str (dict_get d ''id'') then [StageIdMissing i] else []) @
       contract_id_errors i (dict_get d ''contract_id'') @
       concat (map (\<lambda>f. if f \<in> fst ` set d then [StageForbiddenField i f] else []) forbidden_stage_fields)
   | _ \<Rightarrow> [StageNotObject i])"

definition validate_proposed_plan :: "json \<Rightarrow> proposal_error list" where
  "validate_proposed_plan plan = (case plan of
     JObj d \<Rightarrow> (case dict_get d ''stages'' of
         JList stages \<Rightarrow>
           (if length stages > MAX_STAGES then [TooManyStages (length stages)] else []) @
           errors_each proposed_stage_errors stages
       | _ \<Rightarrow> [StagesNotArray])
   | _ \<Rightarrow> [PlanNotObject])"

text \<open>What an accepted stage looks like.\<close>

definition safe_proposed_stage :: "json \<Rightarrow> bool" where
  "safe_proposed_stage stage = (\<exists>d. stage = JObj d \<and> length d \<le> MAX_STAGE_FIELDS \<and>
     nonblank_str (dict_get d ''id'') \<and>
     (dict_get d ''contract_id'' = JNull \<or>
        (\<exists>s. dict_get d ''contract_id'' = JStr s \<and> \<not> is_blank s \<and> \<not> has_path_chars s)) \<and>
     fst ` set d \<inter> set forbidden_stage_fields = {})"

lemma contract_id_errors_empty:
  "contract_id_errors i v = [] \<longleftrightarrow>
     v = JNull \<or> (\<exists>s. v = JStr s \<and> \<not> is_blank s \<and> \<not> has_path_chars s)"
  by (cases v) (auto simp: contract_id_errors_def)

lemma proposed_stage_errors_empty: "proposed_stage_errors i stage = [] \<longleftrightarrow> safe_proposed_stage stage"
proof (cases stage)
  case (JObj d)
  then show ?thesis
    by (auto simp: proposed_stage_errors_def safe_proposed_stage_def contract_id_errors_empty)
qed (simp_all add: proposed_stage_errors_def safe_proposed_stage_def)

section \<open>Properties\<close>

text \<open>
  Reordering for fairness loses and duplicates no contract, puts exactly the starved contracts in
  front, and keeps the incoming order inside both groups; a contract that was not dispatched for
  five consecutive observed ticks counts as starved.
\<close>

theorem fairness_order_correct:
  "mset (apply_fairness_order ids u states) = mset ids \<and>
   apply_fairness_order ids u states =
     filter (starved_id states) ids @ filter (\<lambda>c. \<not> starved_id states c) ids \<and>
   ((\<forall>t \<in> set ticks. \<not> snd t) \<and> 5 \<le> length ticks \<and> 0 \<le> fs_ticks_since_last_dispatch s \<longrightarrow>
      starved_id (states(cid \<mapsto> observe_all s ticks)) cid)"
  by (auto simp: apply_fairness_order_alt starved_id_def observe_all_undispatched DEFAULT_FAIRNESS_def)

theorem fairness_order_correct_witness:
  "starved_id (Map.empty(''b'' \<mapsto> observe_all \<lparr>fs_contract_id = ''b'', fs_last_tier = None,
      fs_tier_consecutive_ticks = 0, fs_ticks_since_last_dispatch = 0\<rparr> (replicate 5 (3, False)))) ''b''"
  using fairness_order_correct
    [of "[]" Map.empty Map.empty "replicate 5 (3, False)"
      "\<lparr>fs_contract_id = ''b'', fs_last_tier = None, fs_tier_consecutive_ticks = 0,
        fs_ticks_since_last_dispatch = 0\<rparr>" "''b''"]
  by simp

text \<open>
  A tick that asks the capacity ledger before every dispatch never dispatches a contract twice and,
  when a positive cap is configured, never dispatches more contracts than the cap, whatever the
  contracts offered and their order.
\<close>

theorem tick_capacity_respected:
  "distinct (cl_dispatched (dispatch_in_order \<lparr>cl_config = cfg, cl_dispatched = []\<rparr> ids)) \<and>
   (0 < fc_max_dispatches_per_tick cfg \<longrightarrow>
      int (dispatched_count (dispatch_in_order \<lparr>cl_config = cfg, cl_dispatched = []\<rparr> ids))
        \<le> fc_max_dispatches_per_tick cfg)"
proof -
  have "ledger_ok (dispatch_in_order \<lparr>cl_config = cfg, cl_dispatched = []\<rparr> ids)"
    by (rule dispatch_in_order_ok) (simp add: ledger_ok_def)
  then show ?thesis by (simp add: ledger_ok_def dispatched_count_def frame_simps)
qed

theorem tick_capacity_respected_witness:
  "0 < fc_max_dispatches_per_tick \<lparr>fc_starvation_ticks = 5, fc_max_dispatches_per_tick = 2\<rparr> \<and>
   int (dispatched_count (dispatch_in_order \<lparr>cl_config = \<lparr>fc_starvation_ticks = 5,
      fc_max_dispatches_per_tick = 2\<rparr>, cl_dispatched = []\<rparr> [''a'', ''b'', ''a'', ''c''])) \<le> 2"
  using tick_capacity_respected [of "\<lparr>fc_starvation_ticks = 5, fc_max_dispatches_per_tick = 2\<rparr>"
      "[''a'', ''b'', ''a'', ''c'']"] by simp

text \<open>
  A proposed plan is accepted exactly when it is an object whose stages are an array of at most
  twenty objects, each with at most ten fields, a non-blank id, a contract id that (if present) is
  non-blank and free of path characters, and none of the frozen-zone fields executor, model, budget
  and authority.
\<close>

theorem proposed_plan_accepted_iff:
  "validate_proposed_plan plan = [] \<longleftrightarrow>
     (\<exists>d stages. plan = JObj d \<and> dict_get d ''stages'' = JList stages \<and>
        length stages \<le> MAX_STAGES \<and> (\<forall>stage \<in> set stages. safe_proposed_stage stage))"
proof (cases plan)
  case (JObj d)
  show ?thesis
  proof (cases "dict_get d ''stages''")
    case (JList stages)
    with JObj show ?thesis
      by (auto simp: validate_proposed_plan_def errors_each_empty [OF proposed_stage_errors_empty])
  qed (simp_all add: JObj validate_proposed_plan_def)
qed (simp_all add: validate_proposed_plan_def)

theorem proposed_plan_accepted_iff_witness:
  "validate_proposed_plan (JObj [(''stages'', JList [JObj [(''id'', JStr ''s1'')]])]) = [] \<and>
   validate_proposed_plan (JObj [(''stages'', JList [JObj [(''id'', JStr ''s1''), (''budget'', JInt 9)]])]) \<noteq> []"
proof -
  have d: "dict_get [(''stages'', JList [x])] ''stages'' = JList [x]" for x
    by (simp add: dict_get_def)
  have ok: "safe_proposed_stage (JObj [(''id'', JStr ''s1'')])"
    by (simp add: safe_proposed_stage_def dict_get_def MAX_STAGE_FIELDS_def is_blank_iff is_space_def
        forbidden_stage_fields_def)
  have bad: "\<not> safe_proposed_stage (JObj [(''id'', JStr ''s1''), (''budget'', JInt 9)])"
    by (simp add: safe_proposed_stage_def forbidden_stage_fields_def)
  show ?thesis
    using ok bad by (auto simp: proposed_plan_accepted_iff d MAX_STAGES_def)
qed

end
