(* ===== verification/Acceptance_Spec.thy ===== *)
theory Acceptance_Spec
  imports Lhgp_Prelude
begin

text \<open>
  \<open>lhgp/acceptance/spec.py\<close>: the declarative acceptance specification, a JSON tree whose inner
  nodes are \<open>all\<close> and \<open>any\<close> and whose leaves name who judges them; its validator; and the
  composition of check outcomes into one verdict. The recursions follow the JSON tree: a node is
  an object, its combinator is the first of \<open>all\<close>, \<open>any\<close> that holds an array.
\<close>

section \<open>Nodes\<close>

definition VALID_COMBINATORS :: "string list" where
  "VALID_COMBINATORS = [''all'', ''any'']"

definition VALID_JUDGES :: "json list" where
  "VALID_JUDGES = [JStr ''machine'', JStr ''user'']"

definition has_key :: "dict \<Rightarrow> string \<Rightarrow> bool" where
  "has_key d k = (map_of d k \<noteq> None)"

text \<open>The array under a key, if the key is there and holds an array.\<close>

definition children :: "dict \<Rightarrow> string \<Rightarrow> json list option" where
  "children d k = (case map_of d k of Some (JList cs) \<Rightarrow> Some cs | _ \<Rightarrow> None)"

definition first_comb :: "dict \<Rightarrow> (string \<times> json list) option" where
  "first_comb d = (case children d ''all'' of
     Some cs \<Rightarrow> Some (''all'', cs)
   | None \<Rightarrow> (case children d ''any'' of Some cs \<Rightarrow> Some (''any'', cs) | None \<Rightarrow> None))"

lemma size_map_of: "map_of d k = Some v \<Longrightarrow> size v < size (JObj d)"
  by (induction d) (auto split: if_splits)

lemma size_children: "children d k = Some cs \<Longrightarrow> size_list size cs < size (JObj d)"
  using size_map_of [of d k "JList cs"] by (auto simp: children_def split: option.splits json.splits)

lemma size_child: "children d k = Some cs \<Longrightarrow> c \<in> set cs \<Longrightarrow> size c < size (JObj d)"
  using size_children [of d k cs] size_list_estimation' [of c cs "size c" size] by fastforce

lemma size_first_comb: "first_comb d = Some (k, cs) \<Longrightarrow> size_list size cs < size (JObj d)"
  by (auto simp: first_comb_def split: option.splits dest: size_children)

lemma size_first_comb_child: "first_comb d = Some (k, cs) \<Longrightarrow> c \<in> set cs \<Longrightarrow> size c < size (JObj d)"
  using size_first_comb [of d k cs] size_list_estimation' [of c cs "size c" size] by fastforce

lemma set_enumerate_from: "(i, x) \<in> set (enumerate_from n xs) \<Longrightarrow> x \<in> set xs"
  by (auto simp: enumerate_from_def dest: set_zip_rightD)

section \<open>Validation\<close>

text \<open>An error carries the path of the node, the combinator and index taken at each level.\<close>

type_synonym node_path = "(string \<times> nat) list"

datatype spec_error =
    NodeNotObject node_path
  | CombNotArray node_path string
  | CombEmpty node_path string
  | UnexpectedKey node_path string
  | BadJudge node_path json
  | KindRequired node_path
  | TargetRequired node_path

fun nonblank_text :: "json \<Rightarrow> bool" where
  "nonblank_text (JStr s) = (\<not> is_blank s)"
| "nonblank_text _ = False"

text \<open>
  The leaf case. The source's branch for an \<open>agent\<close> judge comes after the judge has been checked
  against \<open>VALID_JUDGES\<close>, which does not contain it, and is never reached.
\<close>

definition leaf_errors :: "node_path \<Rightarrow> dict \<Rightarrow> spec_error list" where
  "leaf_errors p d =
     (let judge = dict_get d ''judge''
      in if judge \<notin> set VALID_JUDGES then [BadJudge p judge]
         else if judge = JStr ''machine'' then
           (if \<not> nonblank_text (dict_get d ''kind'') then [KindRequired p] else []) @
           (if \<not> nonblank_text (dict_get d ''target'') then [TargetRequired p] else [])
         else [])"

function validate_node :: "node_path \<Rightarrow> json \<Rightarrow> spec_error list" where
  "validate_node p (JObj d) =
     (let comb_errors = concat (map (\<lambda>comb.
            if \<not> has_key d comb then []
            else case children d comb of
                None \<Rightarrow> [CombNotArray p comb]
              | Some cs \<Rightarrow> (if cs = [] then [CombEmpty p comb] else []) @
                  concat (map (\<lambda>(i, c). validate_node (p @ [(comb, i)]) c) (enumerate_from 0 cs)))
            VALID_COMBINATORS)
      in if \<exists>comb \<in> set VALID_COMBINATORS. has_key d comb
         then comb_errors @
           map (\<lambda>k. UnexpectedKey p k) (filter (\<lambda>k. k \<notin> set VALID_COMBINATORS) (map fst d))
         else leaf_errors p d)"
| "validate_node p JNull = [NodeNotObject p]"
| "validate_node p (JBool b) = [NodeNotObject p]"
| "validate_node p (JInt i) = [NodeNotObject p]"
| "validate_node p (JFloat f) = [NodeNotObject p]"
| "validate_node p (JStr s) = [NodeNotObject p]"
| "validate_node p (JList l) = [NodeNotObject p]"
  by pat_completeness auto
termination
  by (relation "measure (\<lambda>(p, j). size j)")
    (auto dest!: size_child set_enumerate_from simp del: json.size)

declare validate_node.simps(1) [simp del]

definition validate_spec :: "json \<Rightarrow> spec_error list" where
  "validate_spec spec = validate_node [] spec"

subsection \<open>What validation accepts\<close>

definition leaf_ok :: "dict \<Rightarrow> bool" where
  "leaf_ok d \<longleftrightarrow> dict_get d ''judge'' = JStr ''user'' \<or>
     (dict_get d ''judge'' = JStr ''machine'' \<and> nonblank_text (dict_get d ''kind'') \<and>
      nonblank_text (dict_get d ''target''))"

inductive wf_spec :: "json \<Rightarrow> bool" where
  wf_leaf: "\<not> has_key d ''all'' \<Longrightarrow> \<not> has_key d ''any'' \<Longrightarrow> leaf_ok d \<Longrightarrow> wf_spec (JObj d)"
| wf_comb: "has_key d ''all'' \<or> has_key d ''any'' \<Longrightarrow>
    (\<And>k. k \<in> set (map fst d) \<Longrightarrow> k \<in> set VALID_COMBINATORS) \<Longrightarrow>
    (\<And>k. k \<in> set VALID_COMBINATORS \<Longrightarrow> has_key d k \<Longrightarrow>
       \<exists>cs. children d k = Some cs \<and> cs \<noteq> [] \<and> (\<forall>c \<in> set cs. wf_spec c)) \<Longrightarrow>
    wf_spec (JObj d)"

inductive_cases wf_spec_ObjE: "wf_spec (JObj d)"
inductive_simps wf_spec_simps [simp]:
  "wf_spec JNull" "wf_spec (JBool b)" "wf_spec (JInt i)" "wf_spec (JFloat x)" "wf_spec (JStr s)"
  "wf_spec (JList l)"

lemma leaf_errors_empty: "leaf_errors p d = [] \<longleftrightarrow> leaf_ok d"
  by (auto simp: leaf_errors_def leaf_ok_def VALID_JUDGES_def Let_def)

lemma comb_key: "comb \<in> set VALID_COMBINATORS \<longleftrightarrow> comb = ''all'' \<or> comb = ''any''"
  by (auto simp: VALID_COMBINATORS_def)

lemma wf_spec_Obj:
  "wf_spec (JObj d) \<longleftrightarrow>
     (if has_key d ''all'' \<or> has_key d ''any''
      then set (map fst d) \<subseteq> set VALID_COMBINATORS \<and>
        (\<forall>k \<in> set VALID_COMBINATORS. has_key d k \<longrightarrow>
           (\<exists>cs. children d k = Some cs \<and> cs \<noteq> [] \<and> (\<forall>c \<in> set cs. wf_spec c)))
      else leaf_ok d)"
  (is "?l = ?r")
proof
  show "?l \<Longrightarrow> ?r" by (erule wf_spec_ObjE) auto
  assume r: ?r
  show ?l
  proof (cases "has_key d ''all'' \<or> has_key d ''any''")
    case True
    with r show ?thesis by (intro wf_comb) auto
  next
    case False
    with r show ?thesis by (auto intro: wf_leaf)
  qed
qed

lemma concat_map_empty_iff: "concat (map f xs) = [] \<longleftrightarrow> (\<forall>x \<in> set xs. f x = [])"
  by (induction xs) auto

lemma children_errors_empty:
  assumes "\<And>i c. (i, c) \<in> set (enumerate_from n cs) \<Longrightarrow> f i c = [] \<longleftrightarrow> P c"
  shows "concat (map (\<lambda>(i, c). f i c) (enumerate_from n cs)) = [] \<longleftrightarrow> (\<forall>c \<in> set cs. P c)"
  using assms by (induction cs arbitrary: n) auto

lemma validate_node_wf: "validate_node p j = [] \<longleftrightarrow> wf_spec j"
proof (induction p j rule: validate_node.induct)
  case (1 p d)
  have kids: "concat (map (\<lambda>(i, c). validate_node (p @ [(comb, i)]) c) (enumerate_from 0 cs)) = []
      \<longleftrightarrow> (\<forall>c \<in> set cs. wf_spec c)"
    if "comb \<in> set VALID_COMBINATORS" "has_key d comb" "children d comb = Some cs" for comb cs
    by (rule children_errors_empty) (use "1.IH" that in auto)
  define F where "F comb = (if \<not> has_key d comb then []
        else case children d comb of
            None \<Rightarrow> [CombNotArray p comb]
          | Some cs \<Rightarrow> (if cs = [] then [CombEmpty p comb] else []) @
              concat (map (\<lambda>(i, c). validate_node (p @ [(comb, i)]) c) (enumerate_from 0 cs)))" for comb
  have F: "F comb = [] \<longleftrightarrow> (has_key d comb \<longrightarrow>
            (\<exists>cs. children d comb = Some cs \<and> cs \<noteq> [] \<and> (\<forall>c \<in> set cs. wf_spec c)))"
    if "comb \<in> set VALID_COMBINATORS" for comb
    using kids [OF that] by (auto simp: F_def simp del: concat_eq_Nil_conv split: option.splits)
  have eq: "validate_node p (JObj d) =
      (if has_key d ''all'' \<or> has_key d ''any''
       then concat (map F VALID_COMBINATORS) @
         map (UnexpectedKey p) (filter (\<lambda>k. k \<notin> set VALID_COMBINATORS) (map fst d))
       else leaf_errors p d)"
    unfolding validate_node.simps(1) Let_def F_def [abs_def] by (simp add: comb_key VALID_COMBINATORS_def)
  show ?case
    unfolding eq wf_spec_Obj
    using F by (auto simp: leaf_errors_empty filter_empty_conv)
qed simp_all

section \<open>Composing a verdict\<close>

record check_result =
  cr_judge :: string
  cr_kind :: json
  cr_target :: json
  cr_outcome :: string
  cr_detail :: string
  cr_source :: string

record spec_verdict =
  sv_outcome :: string
  sv_results :: "check_result list"
  sv_summary :: string
  sv_machine_pass :: nat
  sv_machine_fail :: nat
  sv_agent_pending :: nat
  sv_user_pending :: nat

text \<open>The text \<open>kind:target\<close>, for any JSON kind and target.\<close>

definition identity_of :: "(json \<Rightarrow> string) \<Rightarrow> json \<Rightarrow> json \<Rightarrow> string" where
  "identity_of rp kind target = py_str rp kind @ '':'' @ py_str rp target"

definition collect_leaf :: "(json \<Rightarrow> string) \<Rightarrow> (string \<times> string) list \<Rightarrow> dict \<Rightarrow> check_result list" where
  "collect_leaf rp check_results d =
     (if dict_get d ''judge'' \<noteq> JStr ''machine'' then []
      else
        (let kind = dict_get_or d ''kind'' (JStr ''unknown'');
             target = dict_get_or d ''target'' (JStr []);
             identity = identity_of rp kind target;
             outcome = (case map_of check_results identity of None \<Rightarrow> ''pending'' | Some r \<Rightarrow> r)
         in [\<lparr>cr_judge = ''machine'', cr_kind = kind, cr_target = target, cr_outcome = outcome,
              cr_detail = ''check '' @ identity @ '' returned '' @ outcome,
              cr_source = ''typed-check''\<rparr>]))"

function collect_machine ::
    "(json \<Rightarrow> string) \<Rightarrow> (string \<times> string) list \<Rightarrow> json \<Rightarrow> check_result list" where
  "collect_machine rp check_results (JObj d) = (case first_comb d of
       Some (comb, cs) \<Rightarrow> concat (map (collect_machine rp check_results) cs)
     | None \<Rightarrow> collect_leaf rp check_results d)"
| "collect_machine rp check_results JNull = []"
| "collect_machine rp check_results (JBool b) = []"
| "collect_machine rp check_results (JInt i) = []"
| "collect_machine rp check_results (JFloat f) = []"
| "collect_machine rp check_results (JStr s) = []"
| "collect_machine rp check_results (JList l) = []"
  by pat_completeness auto
termination
  by (relation "measure (\<lambda>(rp, r, j). size j)") (auto dest: size_first_comb_child simp del: json.size)

declare collect_machine.simps(1) [simp del]

definition evaluate_machine_checks ::
    "(json \<Rightarrow> string) \<Rightarrow> json \<Rightarrow> (string \<times> string) list \<Rightarrow> check_result list" where
  "evaluate_machine_checks rp spec check_results = collect_machine rp check_results spec"

text \<open>The counters and the result list that \<open>eval_node\<close> updates while it walks the tree.\<close>

record eval_state =
  es_pass :: nat
  es_fail :: nat
  es_user :: nat
  es_results :: "check_result list"

definition eval_leaf ::
    "(json \<Rightarrow> string) \<Rightarrow> (string \<rightharpoonup> check_result) \<Rightarrow> dict \<Rightarrow> eval_state \<Rightarrow> string \<times> eval_state" where
  "eval_leaf rp machine_map d st =
     (if dict_get d ''judge'' = JStr ''machine'' then
        (case machine_map (identity_of rp (dict_get_or d ''kind'' (JStr []))
                            (dict_get_or d ''target'' (JStr []))) of
           None \<Rightarrow> (''pending'', st)
         | Some r \<Rightarrow>
             (cr_outcome r,
              if cr_outcome r = ''pass'' then st\<lparr>es_pass := es_pass st + 1\<rparr>
              else if cr_outcome r = ''fail'' then st\<lparr>es_fail := es_fail st + 1\<rparr>
              else st))
      else if dict_get d ''judge'' = JStr ''user'' then
        (''pending'', st\<lparr>es_user := es_user st + 1, es_results := es_results st @
           [\<lparr>cr_judge = ''user'', cr_kind = JStr ''user-confirm'',
             cr_target = dict_get_or d ''question'' (JStr ''user confirmation required''),
             cr_outcome = ''pending'', cr_detail = ''requires user'', cr_source = ''user''\<rparr>]\<rparr>)
      else (''pending'', st))"

definition combine :: "string \<Rightarrow> string list \<Rightarrow> string" where
  "combine comb outcomes =
     (if comb = ''all'' then
        (if ''fail'' \<in> set outcomes then ''fail''
         else if ''pending'' \<in> set outcomes then ''pending''
         else ''pass'')
      else
        (if ''pass'' \<in> set outcomes then ''pass''
         else if ''pending'' \<in> set outcomes then ''pending''
         else ''fail''))"

text \<open>A list comprehension over the children: all of them are evaluated, left to right.\<close>

function (sequential)
  eval_node :: "(json \<Rightarrow> string) \<Rightarrow> (string \<rightharpoonup> check_result) \<Rightarrow> json \<Rightarrow> eval_state \<Rightarrow> string \<times> eval_state" and
  eval_nodes :: "(json \<Rightarrow> string) \<Rightarrow> (string \<rightharpoonup> check_result) \<Rightarrow> json list \<Rightarrow> eval_state \<Rightarrow> string list \<times> eval_state"
where
  "eval_node rp m (JObj d) st = (case first_comb d of
       Some (comb, cs) \<Rightarrow> (case eval_nodes rp m cs st of (os, st') \<Rightarrow> (combine comb os, st'))
     | None \<Rightarrow> eval_leaf rp m d st)"
| "eval_node rp m j st = (''pending'', st)"
| "eval_nodes rp m [] st = ([], st)"
| "eval_nodes rp m (c # cs) st = (case eval_node rp m c st of
       (o1, st1) \<Rightarrow> (case eval_nodes rp m cs st1 of (os, st2) \<Rightarrow> (o1 # os, st2)))"
  by pat_completeness auto
termination
  by (relation "measure (\<lambda>x. case x of Inl (rp, m, j, st) \<Rightarrow> size j | Inr (rp, m, cs, st) \<Rightarrow> size_list size cs)")
    (auto dest: size_first_comb simp del: json.size)

declare eval_node.simps(1) [simp del]

lemma eval_node_comb:
  "first_comb d = Some (comb, cs) \<Longrightarrow>
     eval_node rp m (JObj d) st = (combine comb (fst (eval_nodes rp m cs st)), snd (eval_nodes rp m cs st))"
  by (simp add: eval_node.simps(1) split: prod.splits)

lemma eval_node_leaf: "first_comb d = None \<Longrightarrow> eval_node rp m (JObj d) st = eval_leaf rp m d st"
  by (simp add: eval_node.simps(1))

definition machine_map_of :: "(json \<Rightarrow> string) \<Rightarrow> check_result list \<Rightarrow> (string \<rightharpoonup> check_result)" where
  "machine_map_of rp results =
     map_of (rev (map (\<lambda>r. (identity_of rp (cr_kind r) (cr_target r), r)) results))"

definition join :: "string \<Rightarrow> string list \<Rightarrow> string" where
  "join sep parts = (case parts of [] \<Rightarrow> [] | p # ps \<Rightarrow> p @ concat (map (\<lambda>q. sep @ q) ps))"

definition summary_of :: "eval_state \<Rightarrow> string" where
  "summary_of st =
     (let parts =
        (if es_pass st \<noteq> 0 then [''machine: '' @ int_str (int (es_pass st)) @ '' pass''] else []) @
        (if es_fail st \<noteq> 0 then [''machine: '' @ int_str (int (es_fail st)) @ '' fail''] else []) @
        (if es_user st \<noteq> 0 then [''user: '' @ int_str (int (es_user st)) @ '' pending''] else [])
      in if parts = [] then ''no criteria'' else join ''; '' parts)"

definition compose_verdict :: "(json \<Rightarrow> string) \<Rightarrow> json \<Rightarrow> check_result list \<Rightarrow> spec_verdict" where
  "compose_verdict rp spec machine_results =
     (case eval_node rp (machine_map_of rp machine_results) spec
             \<lparr>es_pass = 0, es_fail = 0, es_user = 0, es_results = machine_results\<rparr> of
        (overall, st) \<Rightarrow>
          \<lparr>sv_outcome = overall, sv_results = es_results st, sv_summary = summary_of st,
           sv_machine_pass = es_pass st, sv_machine_fail = es_fail st, sv_agent_pending = 0,
           sv_user_pending = es_user st\<rparr>)"

definition evaluate_stage_acceptance ::
    "(json \<Rightarrow> string) \<Rightarrow> json \<Rightarrow> (string \<times> string) list \<Rightarrow> py_error + spec_verdict" where
  "evaluate_stage_acceptance rp spec check_results =
     (if \<not> is_obj spec then Inl (ValueError ''acceptance spec must be a dict'')
      else Inr (compose_verdict rp spec (evaluate_machine_checks rp spec check_results)))"

definition check_result_to_dict :: "check_result \<Rightarrow> json" where
  "check_result_to_dict r = JObj
     [(''judge'', JStr (cr_judge r)), (''kind'', cr_kind r), (''target'', cr_target r),
      (''outcome'', JStr (cr_outcome r)), (''detail'', JStr (cr_detail r)),
      (''source'', JStr (cr_source r))]"

definition verdict_to_event_payload :: "spec_verdict \<Rightarrow> json" where
  "verdict_to_event_payload v = JObj
     [(''outcome'', JStr (sv_outcome v)), (''summary'', JStr (sv_summary v)),
      (''machine_pass'', JInt (int (sv_machine_pass v))),
      (''machine_fail'', JInt (int (sv_machine_fail v))),
      (''user_pending'', JInt (int (sv_user_pending v))),
      (''results'', JList (map check_result_to_dict (sv_results v)))]"

section \<open>What a verdict means\<close>

text \<open>
  The boolean reading of a specification once every criterion is decided: \<open>M\<close> says which machine
  checks hold (by identity), \<open>U\<close> which of the other leaves do.
\<close>

definition leaf_identity :: "(json \<Rightarrow> string) \<Rightarrow> dict \<Rightarrow> string" where
  "leaf_identity rp d =
     identity_of rp (dict_get_or d ''kind'' (JStr [])) (dict_get_or d ''target'' (JStr []))"

definition is_machine_leaf :: "dict \<Rightarrow> bool" where
  "is_machine_leaf d \<longleftrightarrow> dict_get d ''judge'' = JStr ''machine''"

definition is_user_leaf :: "dict \<Rightarrow> bool" where
  "is_user_leaf d \<longleftrightarrow> dict_get d ''judge'' = JStr ''user''"

function spec_holds ::
    "(json \<Rightarrow> string) \<Rightarrow> (string \<Rightarrow> bool) \<Rightarrow> (dict \<Rightarrow> bool) \<Rightarrow> json \<Rightarrow> bool" where
  "spec_holds rp M U (JObj d) = (case first_comb d of
       Some (comb, cs) \<Rightarrow>
         (if comb = ''all'' then list_all (spec_holds rp M U) cs else list_ex (spec_holds rp M U) cs)
     | None \<Rightarrow> (if is_machine_leaf d then M (leaf_identity rp d) else U d))"
| "spec_holds rp M U JNull = False"
| "spec_holds rp M U (JBool b) = False"
| "spec_holds rp M U (JInt i) = False"
| "spec_holds rp M U (JFloat f) = False"
| "spec_holds rp M U (JStr s) = False"
| "spec_holds rp M U (JList l) = False"
  by pat_completeness auto
termination
  by (relation "measure (\<lambda>(rp, m, u, j). size j)") (auto dest: size_first_comb_child simp del: json.size)

declare spec_holds.simps(1) [simp del]

text \<open>The leaves that evaluation reaches, in order.\<close>

function spec_leaves :: "json \<Rightarrow> dict list" where
  "spec_leaves (JObj d) = (case first_comb d of
       Some (comb, cs) \<Rightarrow> concat (map spec_leaves cs)
     | None \<Rightarrow> [d])"
| "spec_leaves JNull = []"
| "spec_leaves (JBool b) = []"
| "spec_leaves (JInt i) = []"
| "spec_leaves (JFloat f) = []"
| "spec_leaves (JStr s) = []"
| "spec_leaves (JList l) = []"
  by pat_completeness auto
termination
  by (relation "measure size") (auto dest: size_first_comb_child simp del: json.size)

declare spec_leaves.simps(1) [simp del]

definition verdict_words :: "string set" where
  "verdict_words = {''pass'', ''fail'', ''pending''}"

text \<open>An outcome agrees with a truth value unless it is still pending.\<close>

definition agrees :: "string \<Rightarrow> bool \<Rightarrow> bool" where
  "agrees w b \<longleftrightarrow> w \<in> verdict_words \<and> (w = ''pass'' \<longrightarrow> b) \<and> (w = ''fail'' \<longrightarrow> \<not> b)"

lemmas agrees_defs = agrees_def verdict_words_def

lemma agrees_simps [simp]:
  "agrees ''pending'' b" "agrees ''pass'' b \<longleftrightarrow> b" "agrees ''fail'' b \<longleftrightarrow> \<not> b"
  by (simp_all add: agrees_defs)

lemma list_all2_member: "list_all2 P xs ys \<Longrightarrow> x \<in> set xs \<Longrightarrow> \<exists>y \<in> set ys. P x y"
  by (induction rule: list_all2_induct) auto

lemma list_all2_member2: "list_all2 P xs ys \<Longrightarrow> y \<in> set ys \<Longrightarrow> \<exists>x \<in> set xs. P x y"
  by (induction rule: list_all2_induct) auto

lemma combine_agrees:
  assumes "list_all2 (\<lambda>w c. agrees w (h c)) ws cs"
  shows "agrees (combine comb ws) (if comb = ''all'' then list_all h cs else list_ex h cs)"
proof -
  have all: "agrees w (h c)" if "(w, c) \<in> set (zip ws cs)" for w c
    using assms that by (auto simp: list_all2_iff)
  have l: "\<exists>w. (w, c) \<in> set (zip ws cs) \<and> w \<in> set ws" if "c \<in> set cs" for c
    using assms that by (metis in_set_impl_in_set_zip2 list_all2_lengthD set_zip_leftD)
  have r: "\<exists>c. (w, c) \<in> set (zip ws cs) \<and> c \<in> set cs" if "w \<in> set ws" for w
    using assms that by (metis in_set_impl_in_set_zip1 list_all2_lengthD set_zip_rightD)
  show ?thesis
  proof (cases "comb = ''all''")
    case True
    have "h c" if "''fail'' \<notin> set ws" "''pending'' \<notin> set ws" "c \<in> set cs" for c
      using l [OF that(3)] all that(1,2) by (auto simp: agrees_defs)
    moreover have "\<exists>c \<in> set cs. \<not> h c" if "''fail'' \<in> set ws"
      using r [OF that] all by fastforce
    ultimately show ?thesis using True by (auto simp: combine_def list_all_iff)
  next
    case False
    have "\<not> h c" if "''pass'' \<notin> set ws" "''pending'' \<notin> set ws" "c \<in> set cs" for c
      using l [OF that(3)] all that(1,2) by (auto simp: agrees_defs)
    moreover have "\<exists>c \<in> set cs. h c" if "''pass'' \<in> set ws"
      using r [OF that] all by fastforce
    ultimately show ?thesis using False by (auto simp: combine_def list_ex_iff)
  qed
qed

text \<open>
  The readings of an outcome that evaluation preserves: a relation between the word of a node and its boolean value that holds of
  every pending node and carries over from the children to their combination.
\<close>

locale verdict_reading =
  fixes reads :: "string \<Rightarrow> bool \<Rightarrow> bool"
  assumes reads_pending: "reads ''pending'' b"
    and reads_combine: "list_all2 (\<lambda>w c. reads w (h c)) ws cs \<Longrightarrow>
      reads (combine comb ws) (if comb = ''all'' then list_all h (cs :: json list) else list_ex h cs)"
begin

definition map_reads :: "(string \<rightharpoonup> check_result) \<Rightarrow> (string \<Rightarrow> bool) \<Rightarrow> bool" where
  "map_reads m M \<longleftrightarrow> (\<forall>i r. m i = Some r \<longrightarrow> reads (cr_outcome r) (M i))"

lemma eval_leaf_reads:
  "map_reads m M \<Longrightarrow>
     reads (fst (eval_leaf rp m d st)) (if is_machine_leaf d then M (leaf_identity rp d) else U d)"
  by (auto simp: map_reads_def eval_leaf_def is_machine_leaf_def leaf_identity_def reads_pending split: option.splits)

lemma eval_reads:
  "map_reads m M \<Longrightarrow> reads (fst (eval_node rp m j st)) (spec_holds rp M U j)"
  "map_reads m M \<Longrightarrow>
     list_all2 (\<lambda>w c. reads w (spec_holds rp M U c)) (fst (eval_nodes rp m cs st)) cs"
proof (induction rp m j st and rp m cs st rule: eval_node_eval_nodes.induct)
  case (1 rp m d st)
  show ?case
  proof (cases "first_comb d")
    case None
    then show ?thesis
      using eval_leaf_reads [OF "1.prems", of rp d st U]
      by (simp add: eval_node.simps(1) spec_holds.simps(1))
  next
    case (Some p)
    obtain comb cs where p: "p = (comb, cs)" by (cases p)
    have "list_all2 (\<lambda>w c. reads w (spec_holds rp M U c)) (fst (eval_nodes rp m cs st)) cs"
      using "1.IH" [OF _ p [symmetric] "1.prems"] Some by simp
    from reads_combine [OF this, of comb] show ?thesis
      using Some p by (simp add: eval_node_comb spec_holds.simps(1))
  qed
qed (auto simp: reads_pending split: prod.splits)

end

text \<open>
  Three readings. A word agrees with a truth value when it is one of the expected three and means it. Read leniently, every word but
  fail and pending says that the criterion holds; read strictly, every word but pass and pending says that it does not.
\<close>

definition lenient :: "string \<Rightarrow> bool \<Rightarrow> bool" where
  "lenient w b \<longleftrightarrow> (w \<notin> {''fail'', ''pending''} \<longrightarrow> b)"

definition strict :: "string \<Rightarrow> bool \<Rightarrow> bool" where
  "strict w b \<longleftrightarrow> (w \<notin> {''pass'', ''pending''} \<longrightarrow> \<not> b)"

interpretation agreeing: verdict_reading agrees
  by unfold_locales (simp, rule combine_agrees)

interpretation lenient: verdict_reading lenient
proof
  fix h :: "json \<Rightarrow> bool" and ws cs comb
  assume all: "list_all2 (\<lambda>w c. lenient w (h c)) ws cs"
  have "\<exists>c \<in> set cs. h c" if "''pass'' \<in> set ws"
    using list_all2_member [OF all that] by (auto simp: lenient_def)
  moreover have "h c" if "''fail'' \<notin> set ws" "''pending'' \<notin> set ws" "c \<in> set cs" for c
    using list_all2_member2 [OF all that(3)] that(1,2) by (auto simp: lenient_def)
  ultimately show "lenient (combine comb ws) (if comb = ''all'' then list_all h cs else list_ex h cs)"
    by (auto simp: lenient_def combine_def list_all_iff list_ex_iff)
qed (simp add: lenient_def)

interpretation strict: verdict_reading strict
proof
  fix h :: "json \<Rightarrow> bool" and ws cs comb
  assume all: "list_all2 (\<lambda>w c. strict w (h c)) ws cs"
  have "\<exists>c \<in> set cs. \<not> h c" if "''fail'' \<in> set ws"
    using list_all2_member [OF all that] by (auto simp: strict_def)
  moreover have "\<not> h c" if "''pass'' \<notin> set ws" "''pending'' \<notin> set ws" "c \<in> set cs" for c
    using list_all2_member2 [OF all that(3)] that(1,2) by (auto simp: strict_def)
  ultimately show "strict (combine comb ws) (if comb = ''all'' then list_all h cs else list_ex h cs)"
    by (auto simp: strict_def combine_def list_all_iff list_ex_iff)
qed (simp add: strict_def)

lemma concat_map_concat: "concat (map f (concat (map g xs))) = concat (map (\<lambda>x. concat (map f (g x))) xs)"
  by (induction xs) auto

lemma collect_machine_leaves:
  "collect_machine rp res j = concat (map (collect_leaf rp res) (spec_leaves j))"
proof (induction rp res j rule: collect_machine.induct)
  case (1 rp res d)
  have kids: "map (collect_machine rp res) cs = map (\<lambda>c. concat (map (collect_leaf rp res) (spec_leaves c))) cs"
    if "first_comb d = Some (comb, cs)" for comb cs
    using "1.IH" that by auto
  show ?case
    by (auto simp: collect_machine.simps(1) spec_leaves.simps(1) kids concat_map_concat
        split: option.splits)
qed simp_all

definition outcome_of :: "(string \<times> string) list \<Rightarrow> string \<Rightarrow> string" where
  "outcome_of res i = (case map_of res i of None \<Rightarrow> ''pending'' | Some w \<Rightarrow> w)"

lemma collect_leaf_outcome:
  "r \<in> set (collect_leaf rp res d) \<Longrightarrow> cr_outcome r = outcome_of res (identity_of rp (cr_kind r) (cr_target r))"
  by (auto simp: collect_leaf_def outcome_of_def Let_def split: if_splits)

lemma machine_map_outcome:
  assumes "machine_map_of rp (collect_machine rp res j) i = Some r"
  shows "cr_outcome r = outcome_of res i"
proof -
  from assms have "(i, r) \<in> set (map (\<lambda>r. (identity_of rp (cr_kind r) (cr_target r), r)) (collect_machine rp res j))"
    unfolding machine_map_of_def by (auto dest!: map_of_SomeD)
  then have "r \<in> set (collect_machine rp res j)" and i: "i = identity_of rp (cr_kind r) (cr_target r)"
    by auto
  then obtain d where "r \<in> set (collect_leaf rp res d)" by (auto simp: collect_machine_leaves)
  then show ?thesis using i by (simp add: collect_leaf_outcome)
qed

definition stage_outcome :: "(json \<Rightarrow> string) \<Rightarrow> json \<Rightarrow> (string \<times> string) list \<Rightarrow> string" where
  "stage_outcome rp spec res =
     sv_outcome (compose_verdict rp spec (evaluate_machine_checks rp spec res))"

lemma stage_outcome_eval:
  "stage_outcome rp spec res =
     fst (eval_node rp (machine_map_of rp (collect_machine rp res spec)) spec
       \<lparr>es_pass = 0, es_fail = 0, es_user = 0, es_results = collect_machine rp res spec\<rparr>)"
  by (simp add: stage_outcome_def compose_verdict_def evaluate_machine_checks_def split: prod.splits)

lemma evaluate_stage_outcome:
  "evaluate_stage_acceptance rp spec res = Inr v \<Longrightarrow> sv_outcome v = stage_outcome rp spec res"
  by (auto simp: evaluate_stage_acceptance_def stage_outcome_def split: if_splits)

context verdict_reading
begin

lemma stage_outcome_reads:
  assumes "\<And>i. reads (outcome_of res i) (M i)"
  shows "reads (stage_outcome rp spec res) (spec_holds rp M U spec)"
  unfolding stage_outcome_eval
  by (rule eval_reads(1)) (use assms machine_map_outcome in \<open>unfold map_reads_def, metis\<close>)

end

subsection \<open>Decided specifications\<close>

text \<open>Every leaf is a machine criterion whose check has passed or failed.\<close>

definition decided :: "(json \<Rightarrow> string) \<Rightarrow> (string \<times> string) list \<Rightarrow> json \<Rightarrow> bool" where
  "decided rp res spec \<longleftrightarrow>
     (\<forall>d \<in> set (spec_leaves spec). is_machine_leaf d \<and>
        map_of res (leaf_identity rp d) \<in> {Some ''pass'', Some ''fail''})"

definition settled :: "string \<Rightarrow> bool" where
  "settled w \<longleftrightarrow> w = ''pass'' \<or> w = ''fail''"

lemma combine_settled:
  assumes "list_all settled ws"
  shows "settled (combine comb ws)"
proof -
  have "\<not> settled ''pending''" by (simp add: settled_def)
  with assms have "''pending'' \<notin> set ws" by (auto simp only: list_all_iff)
  then show ?thesis by (simp add: combine_def settled_def)
qed

lemma wf_leaf_identity:
  assumes "leaf_ok d" and "is_machine_leaf d" and "r \<in> set (collect_leaf rp res d)"
  shows "identity_of rp (cr_kind r) (cr_target r) = leaf_identity rp d"
proof -
  from assms(1,2) have "nonblank_text (dict_get d ''kind'')" "nonblank_text (dict_get d ''target'')"
    by (auto simp: leaf_ok_def is_machine_leaf_def)
  then have "map_of d ''kind'' \<noteq> None" "map_of d ''target'' \<noteq> None"
    by (auto simp: dict_get_def split: option.splits)
  with assms(2,3) show ?thesis
    by (auto simp: collect_leaf_def is_machine_leaf_def leaf_identity_def dict_get_or_def Let_def)
qed

lemma first_comb_children: "first_comb d = Some (comb, cs) \<Longrightarrow> comb \<in> set VALID_COMBINATORS \<and> children d comb = Some cs"
  by (auto simp: first_comb_def VALID_COMBINATORS_def split: option.splits)

lemma first_comb_None_wf:
  "wf_spec (JObj d) \<Longrightarrow> first_comb d = None \<Longrightarrow> leaf_ok d"
  by (auto simp: wf_spec_Obj first_comb_def comb_key split: option.splits if_splits)

lemma wf_children:
  assumes "wf_spec (JObj d)" and "first_comb d = Some (comb, cs)"
  shows "cs \<noteq> [] \<and> (\<forall>c \<in> set cs. wf_spec c)"
proof -
  have k: "comb \<in> set VALID_COMBINATORS" "children d comb = Some cs" "has_key d comb"
    using first_comb_children [OF assms(2)] by (auto simp: children_def has_key_def split: option.splits)
  then have "has_key d ''all'' \<or> has_key d ''any''" by (auto simp: comb_key)
  with k assms(1) show ?thesis by (auto simp: wf_spec_Obj)
qed

lemma wf_leaves_ok: "wf_spec j \<Longrightarrow> d \<in> set (spec_leaves j) \<Longrightarrow> leaf_ok d"
proof (induction j rule: spec_leaves.induct)
  case (1 d')
  show ?case
  proof (cases "first_comb d'")
    case None
    with "1.prems" show ?thesis by (simp add: spec_leaves.simps(1) first_comb_None_wf)
  next
    case (Some p)
    obtain comb cs where p: "p = (comb, cs)" by (cases p)
    with Some "1.prems"(2) obtain c where c: "c \<in> set cs" "d \<in> set (spec_leaves c)"
      by (auto simp: spec_leaves.simps(1))
    have "wf_spec c" using wf_children [of d' comb cs] "1.prems"(1) Some p c(1) by blast
    then show ?thesis using "1.IH" [OF Some p [symmetric] c(1) _ c(2)] by blast
  qed
qed simp_all

lemma machine_map_of_in:
  assumes "r \<in> set rs"
  shows "machine_map_of rp rs (identity_of rp (cr_kind r) (cr_target r)) \<noteq> None"
proof -
  have "identity_of rp (cr_kind r) (cr_target r) \<in>
      fst ` set (map (\<lambda>r. (identity_of rp (cr_kind r) (cr_target r), r)) rs)"
    using assms by force
  then show ?thesis unfolding machine_map_of_def map_of_eq_None_iff set_rev by simp
qed

lemma wf_leaf_in_map:
  assumes "wf_spec j" and "d \<in> set (spec_leaves j)" and "is_machine_leaf d"
  shows "\<exists>r. machine_map_of rp (collect_machine rp res j) (leaf_identity rp d) = Some r"
proof -
  have ok: "leaf_ok d" by (rule wf_leaves_ok [OF assms(1,2)])
  obtain r where r: "r \<in> set (collect_leaf rp res d)"
    using assms(3) by (fastforce simp: collect_leaf_def is_machine_leaf_def Let_def)
  then have "r \<in> set (collect_machine rp res j)"
    using assms(2) by (auto simp: collect_machine_leaves)
  then show ?thesis
    using machine_map_of_in [of r _ rp] wf_leaf_identity [OF ok assms(3) r] by auto
qed

definition leaves_settled :: "(json \<Rightarrow> string) \<Rightarrow> (string \<rightharpoonup> check_result) \<Rightarrow> json \<Rightarrow> bool" where
  "leaves_settled rp m j \<longleftrightarrow> (\<forall>d \<in> set (spec_leaves j). \<forall>st. settled (fst (eval_leaf rp m d st)))"

lemma eval_settled:
  "leaves_settled rp m j \<Longrightarrow> wf_spec j \<Longrightarrow> settled (fst (eval_node rp m j st))"
  "list_all (leaves_settled rp m) cs \<Longrightarrow> list_all wf_spec cs \<Longrightarrow>
     list_all settled (fst (eval_nodes rp m cs st))"
proof (induction rp m j st and rp m cs st rule: eval_node_eval_nodes.induct)
  case (1 rp m d st)
  show ?case
  proof (cases "first_comb d")
    case None
    with "1.prems"(1) show ?thesis by (simp add: leaves_settled_def eval_node_leaf spec_leaves.simps(1))
  next
    case (Some p)
    obtain comb cs where p: "p = (comb, cs)" by (cases p)
    have "list_all settled (fst (eval_nodes rp m cs st))"
    proof (rule "1.IH" [OF Some p [symmetric]])
      show "list_all (leaves_settled rp m) cs"
        using "1.prems"(1) Some p by (auto simp: leaves_settled_def list_all_iff spec_leaves.simps(1))
      show "list_all wf_spec cs"
        using wf_children [of d comb cs] "1.prems"(2) Some p by (simp add: list_all_iff)
    qed
    then show ?thesis using Some p combine_settled by (simp add: eval_node_comb)
  qed
qed (auto split: prod.splits)

lemma decided_settled:
  assumes "wf_spec spec" and "decided rp res spec"
  shows "settled (stage_outcome rp spec res)"
  unfolding stage_outcome_eval
proof (rule eval_settled(1) [OF _ assms(1)])
  let ?m = "machine_map_of rp (collect_machine rp res spec)"
  have "settled (fst (eval_leaf rp ?m d st))" if d: "d \<in> set (spec_leaves spec)" for d st
  proof -
    from d assms(2) have ml: "is_machine_leaf d"
      and res: "map_of res (leaf_identity rp d) \<in> {Some ''pass'', Some ''fail''}"
      by (auto simp: decided_def)
    obtain r where r: "?m (leaf_identity rp d) = Some r"
      using wf_leaf_in_map [OF assms(1) d ml] by blast
    then have "cr_outcome r = outcome_of res (leaf_identity rp d)" by (rule machine_map_outcome)
    with res have "settled (cr_outcome r)" by (auto simp: outcome_of_def settled_def)
    with r ml show ?thesis by (simp add: eval_leaf_def is_machine_leaf_def leaf_identity_def)
  qed
  then show "leaves_settled rp ?m spec" by (simp add: leaves_settled_def)
qed

subsection \<open>The counters\<close>

lemma eval_user_count:
  "es_user (snd (eval_node rp m j st)) = es_user st + length (filter is_user_leaf (spec_leaves j))"
  "es_user (snd (eval_nodes rp m cs st)) =
     es_user st + length (filter is_user_leaf (concat (map spec_leaves cs)))"
proof (induction rp m j st and rp m cs st rule: eval_node_eval_nodes.induct)
  case (1 rp m d st)
  show ?case
  proof (cases "first_comb d")
    case None
    then show ?thesis
      by (auto simp: eval_node_leaf spec_leaves.simps(1) eval_leaf_def is_user_leaf_def split: option.splits)
  next
    case (Some p)
    obtain comb cs where p: "p = (comb, cs)" by (cases p)
    show ?thesis using "1.IH" [OF Some p [symmetric]] Some p
      by (simp add: eval_node_comb spec_leaves.simps(1))
  qed
qed (auto split: prod.splits)

lemma eval_leaf_machine_count:
  "es_pass (snd (eval_leaf rp m d st)) + es_fail (snd (eval_leaf rp m d st))
     \<le> es_pass st + es_fail st + (if is_machine_leaf d then 1 else 0)"
  by (simp add: eval_leaf_def is_machine_leaf_def split: option.splits)

lemma eval_machine_count:
  "es_pass (snd (eval_node rp m j st)) + es_fail (snd (eval_node rp m j st))
     \<le> es_pass st + es_fail st + length (filter is_machine_leaf (spec_leaves j))"
  "es_pass (snd (eval_nodes rp m cs st)) + es_fail (snd (eval_nodes rp m cs st))
     \<le> es_pass st + es_fail st + length (filter is_machine_leaf (concat (map spec_leaves cs)))"
proof (induction rp m j st and rp m cs st rule: eval_node_eval_nodes.induct)
  case (1 rp m d st)
  show ?case
  proof (cases "first_comb d")
    case None
    then show ?thesis
      using eval_leaf_machine_count [of rp m d st]
      by (cases "is_machine_leaf d") (simp_all add: eval_node_leaf spec_leaves.simps(1))
  next
    case (Some p)
    obtain comb cs where p: "p = (comb, cs)" by (cases p)
    show ?thesis using "1.IH" [OF Some p [symmetric]] Some p
      by (simp add: eval_node_comb spec_leaves.simps(1))
  qed
next
  case (4 rp m c cs st)
  then show ?case by (cases "eval_node rp m c st"; cases "eval_nodes rp m cs (snd (eval_node rp m c st))") fastforce
qed simp_all

lemma verdict_sound:
  assumes "\<And>i w. map_of res i = Some w \<Longrightarrow> w \<in> verdict_words"
    and "\<And>i. map_of res i = Some ''pass'' \<Longrightarrow> M i"
    and "\<And>i. map_of res i = Some ''fail'' \<Longrightarrow> \<not> M i"
  shows "agrees (stage_outcome rp spec res) (spec_holds rp M U spec)"
proof (rule agreeing.stage_outcome_reads)
  fix i
  show "agrees (outcome_of res i) (M i)"
  proof (cases "map_of res i")
    case None
    then show ?thesis by (simp add: outcome_of_def)
  next
    case (Some w)
    with assms [of i] show ?thesis by (auto simp: outcome_of_def agrees_def)
  qed
qed

lemma lenient_outcome:
  assumes "\<forall>i w. map_of res i = Some w \<longrightarrow> w \<notin> {''fail'', ''pending''} \<longrightarrow> M i"
  shows "lenient (stage_outcome rp spec res) (spec_holds rp M U spec)"
  by (rule lenient.stage_outcome_reads) (use assms in \<open>auto simp: lenient_def outcome_of_def split: option.split\<close>)

lemma strict_outcome:
  assumes "\<forall>i w. map_of res i = Some w \<longrightarrow> w \<notin> {''pass'', ''pending''} \<longrightarrow> \<not> M i"
  shows "strict (stage_outcome rp spec res) (spec_holds rp M U spec)"
  by (rule strict.stage_outcome_reads) (use assms in \<open>auto simp: strict_def outcome_of_def split: option.split\<close>)

section \<open>Properties\<close>

text \<open>
  The validator accepts a specification exactly when it is well formed: every node is an object;
  a node with \<open>all\<close> or \<open>any\<close> has no other key and non-empty arrays of well-formed nodes under
  them; a leaf is judged by the user, or by the machine with a non-blank kind and target.
\<close>

theorem validate_spec_iff_wf: "validate_spec spec = [] \<longleftrightarrow> wf_spec spec"
  by (simp add: validate_spec_def validate_node_wf)

text \<open>
  C33: The composed verdict is conservative, whatever words the checks came back with and however the pending checks and
  the decisions of the user turn out. A word other than pass, fail and pending (undetermined, say) counts as passed in an \<open>all\<close> node
  and as failed in an \<open>any\<close> node; so a verdict other than fail and pending, which is what is accepted, means that the
  specification holds once every check that reported neither fail nor pending is taken to hold; and a verdict of fail means
  that it does not hold once every check that reported neither pass nor pending is taken not to hold. Where all the words
  are pass, fail or pending, the verdict is one of the three.
\<close>

theorem verdict_conservative:
  "(stage_outcome rp spec res \<notin> {''fail'', ''pending''} \<longrightarrow>
      (\<forall>M U. (\<forall>i w. map_of res i = Some w \<longrightarrow> w \<notin> {''fail'', ''pending''} \<longrightarrow> M i) \<longrightarrow> spec_holds rp M U spec)) \<and>
   (stage_outcome rp spec res = ''fail'' \<longrightarrow>
      (\<forall>M U. (\<forall>i w. map_of res i = Some w \<longrightarrow> w \<notin> {''pass'', ''pending''} \<longrightarrow> \<not> M i) \<longrightarrow> \<not> spec_holds rp M U spec)) \<and>
   ((\<forall>i w. map_of res i = Some w \<longrightarrow> w \<in> verdict_words) \<longrightarrow> stage_outcome rp spec res \<in> verdict_words)"
proof -
  have "spec_holds rp M U spec" if "stage_outcome rp spec res \<notin> {''fail'', ''pending''}"
    and "\<forall>i w. map_of res i = Some w \<longrightarrow> w \<notin> {''fail'', ''pending''} \<longrightarrow> M i" for M U
    using lenient_outcome [OF that(2), of rp spec U] that(1) by (simp add: lenient_def)
  moreover have "\<not> spec_holds rp M U spec" if "stage_outcome rp spec res = ''fail''"
    and "\<forall>i w. map_of res i = Some w \<longrightarrow> w \<notin> {''pass'', ''pending''} \<longrightarrow> \<not> M i" for M U
    using strict_outcome [OF that(2), of rp spec U] that(1) by (simp add: strict_def)
  moreover have "stage_outcome rp spec res \<in> verdict_words" if "\<forall>i w. map_of res i = Some w \<longrightarrow> w \<in> verdict_words"
    using verdict_sound [of res "\<lambda>i. map_of res i = Some ''pass''" rp spec "\<lambda>_. True"] that by (auto simp: agrees_def)
  ultimately show ?thesis by blast
qed

text \<open>
  On a specification that validates and whose leaves are all machine criteria with a passed or
  failed check, the verdict is exactly the boolean value of the specification over the passed checks;
  it is never pending.
\<close>

theorem verdict_exact_when_decided:
  assumes "validate_spec spec = []" and "decided rp res spec"
    and "\<And>i w. map_of res i = Some w \<Longrightarrow> w \<in> verdict_words"
  shows "stage_outcome rp spec res =
    (if spec_holds rp (\<lambda>i. map_of res i = Some ''pass'') U spec then ''pass'' else ''fail'')"
proof -
  have "settled (stage_outcome rp spec res)"
    using assms(1,2) by (intro decided_settled) (simp_all add: validate_spec_def validate_node_wf)
  moreover have "agrees (stage_outcome rp spec res) (spec_holds rp (\<lambda>i. map_of res i = Some ''pass'') U spec)"
    using assms(3) by (intro verdict_sound) auto
  ultimately show ?thesis by (auto simp: settled_def)
qed

definition sample_leaf :: "string \<Rightarrow> string \<Rightarrow> json" where
  "sample_leaf kind target =
     JObj [(''judge'', JStr ''machine''), (''kind'', JStr kind), (''target'', JStr target)]"

definition sample_user_leaf :: json where
  "sample_user_leaf = JObj [(''judge'', JStr ''user'')]"

lemma first_comb_simps [simp]:
  "first_comb ((''all'', JList cs) # d) = Some (''all'', cs)"
  "first_comb [(''any'', JList cs)] = Some (''any'', cs)"
  "first_comb [(''judge'', j), (''kind'', k), (''target'', t)] = None"
  "first_comb [(''judge'', j)] = None"
  by (simp_all add: first_comb_def children_def)

lemma leaves_simps [simp]:
  "spec_leaves (JObj ((''all'', JList cs) # d)) = concat (map spec_leaves cs)"
  "spec_leaves (JObj [(''any'', JList cs)]) = concat (map spec_leaves cs)"
  "spec_leaves (sample_leaf k t) = [[(''judge'', JStr ''machine''), (''kind'', JStr k), (''target'', JStr t)]]"
  "spec_leaves sample_user_leaf = [[(''judge'', JStr ''user'')]]"
  by (simp_all add: spec_leaves.simps(1) sample_leaf_def sample_user_leaf_def)

lemma holds_simps [simp]:
  "spec_holds rp M U (JObj ((''all'', JList cs) # d)) = list_all (spec_holds rp M U) cs"
  "spec_holds rp M U (JObj [(''any'', JList cs)]) = list_ex (spec_holds rp M U) cs"
  "spec_holds rp M U (sample_leaf k t) = M (k @ '':'' @ t)"
  "spec_holds rp M U sample_user_leaf = U [(''judge'', JStr ''user'')]"
  by (simp_all add: spec_holds.simps(1) sample_leaf_def sample_user_leaf_def is_machine_leaf_def
      leaf_identity_def identity_of_def dict_get_def dict_get_or_def)

lemma sample_leaf_wf: "wf_spec (sample_leaf k t) \<longleftrightarrow> \<not> is_blank k \<and> \<not> is_blank t"
  by (simp add: sample_leaf_def wf_spec_Obj has_key_def leaf_ok_def dict_get_def)

lemma sample_user_wf: "wf_spec sample_user_leaf"
  by (simp add: sample_user_leaf_def wf_spec_Obj has_key_def leaf_ok_def dict_get_def)

lemma all_node_wf: "wf_spec (JObj [(''all'', JList cs)]) \<longleftrightarrow> cs \<noteq> [] \<and> (\<forall>c \<in> set cs. wf_spec c)"
  by (auto simp: wf_spec_Obj has_key_def children_def VALID_COMBINATORS_def)

lemma both_node_wf:
  "wf_spec (JObj [(''all'', JList as), (''any'', JList bs)]) \<longleftrightarrow>
     as \<noteq> [] \<and> bs \<noteq> [] \<and> (\<forall>c \<in> set as \<union> set bs. wf_spec c)"
  by (auto simp: wf_spec_Obj has_key_def children_def VALID_COMBINATORS_def)

lemma eval_sample_leaf:
  "eval_node rp m (sample_leaf k t) st =
     (case m (k @ '':'' @ t) of
        None \<Rightarrow> (''pending'', st)
      | Some r \<Rightarrow> (cr_outcome r,
          if cr_outcome r = ''pass'' then st\<lparr>es_pass := es_pass st + 1\<rparr>
          else if cr_outcome r = ''fail'' then st\<lparr>es_fail := es_fail st + 1\<rparr> else st))"
  by (simp add: sample_leaf_def eval_node_leaf eval_leaf_def dict_get_def dict_get_or_def identity_of_def
      split: option.splits)

text \<open>A check that came back undetermined beside a passed one, and a failed check beside an undetermined one.\<close>

theorem verdict_conservative_witness:
  "spec_holds sample_repr (\<lambda>i. i \<in> {''k:a'', ''k:b''}) (\<lambda>d. False) (JObj [(''all'', JList [sample_leaf ''k'' ''a'', sample_leaf ''k'' ''b''])]) \<and>
   \<not> spec_holds sample_repr (\<lambda>i. False) (\<lambda>d. True) (JObj [(''any'', JList [sample_leaf ''k'' ''a'', sample_leaf ''k'' ''b''])])"
proof -
  have "stage_outcome sample_repr (JObj [(''all'', JList [sample_leaf ''k'' ''a'', sample_leaf ''k'' ''b''])])
      [(''k:a'', ''undetermined''), (''k:b'', ''pass'')] \<notin> {''fail'', ''pending''}"
    and "stage_outcome sample_repr (JObj [(''any'', JList [sample_leaf ''k'' ''a'', sample_leaf ''k'' ''b''])])
      [(''k:a'', ''undetermined''), (''k:b'', ''fail'')] = ''fail''"
    by (simp_all add: stage_outcome_eval eval_node_comb eval_sample_leaf collect_machine_leaves collect_leaf_def machine_map_of_def
        identity_of_def dict_get_def dict_get_or_def combine_def Let_def)
  then show ?thesis
    using verdict_conservative [of sample_repr "JObj [(''all'', JList [sample_leaf ''k'' ''a'', sample_leaf ''k'' ''b''])]"
        "[(''k:a'', ''undetermined''), (''k:b'', ''pass'')]"]
      verdict_conservative [of sample_repr "JObj [(''any'', JList [sample_leaf ''k'' ''a'', sample_leaf ''k'' ''b''])]"
        "[(''k:a'', ''undetermined''), (''k:b'', ''fail'')]"]
    by (auto split: if_splits)
qed

theorem verdict_exact_when_decided_witness:
  "stage_outcome sample_repr (JObj [(''all'', JList [sample_leaf ''file-exists'' ''a'', sample_leaf ''file-exists'' ''b''])])
      [(''file-exists:a'', ''pass''), (''file-exists:b'', ''fail'')] = ''fail''"
proof -
  let ?res = "[(''file-exists:a'', ''pass''), (''file-exists:b'', ''fail'')]"
  let ?spec = "JObj [(''all'', JList [sample_leaf ''file-exists'' ''a'', sample_leaf ''file-exists'' ''b''])]"
  have v: "validate_spec ?spec = []"
    by (simp add: validate_spec_def validate_node_wf all_node_wf sample_leaf_wf is_blank_iff is_space_def)
  have d: "decided sample_repr ?res ?spec"
    by (simp add: decided_def is_machine_leaf_def leaf_identity_def identity_of_def dict_get_def dict_get_or_def)
  have w: "w \<in> verdict_words" if "map_of ?res i = Some w" for i w
    using that by (auto simp: verdict_words_def split: if_splits)
  show ?thesis
    using verdict_exact_when_decided [where U = "\<lambda>d. True", OF v d w] by simp
qed

text \<open>
  The counters of a verdict are those of the criteria: user-pending is the number of user leaves
  that evaluation reaches, the passed and failed machine criteria together are at most the machine
  leaves, and no agent criterion is ever counted.
\<close>

theorem verdict_counts:
  assumes "evaluate_stage_acceptance rp spec res = Inr v"
  shows "sv_user_pending v = length (filter is_user_leaf (spec_leaves spec)) \<and>
    sv_machine_pass v + sv_machine_fail v \<le> length (filter is_machine_leaf (spec_leaves spec)) \<and>
    sv_agent_pending v = 0"
proof -
  let ?m = "machine_map_of rp (collect_machine rp res spec)"
  let ?st = "\<lparr>es_pass = 0, es_fail = 0, es_user = 0, es_results = collect_machine rp res spec\<rparr>"
  have "sv_user_pending v = es_user (snd (eval_node rp ?m spec ?st))"
    "sv_machine_pass v = es_pass (snd (eval_node rp ?m spec ?st))"
    "sv_machine_fail v = es_fail (snd (eval_node rp ?m spec ?st))" "sv_agent_pending v = 0"
    using assms by (auto simp: evaluate_stage_acceptance_def compose_verdict_def evaluate_machine_checks_def
        split: if_splits prod.splits)
  then show ?thesis
    using eval_user_count(1) [of rp ?m spec ?st] eval_machine_count(1) [of rp ?m spec ?st] by simp
qed

theorem verdict_counts_witness:
  "\<exists>v. evaluate_stage_acceptance rp (JObj [(''any'', JList [sample_user_leaf, sample_user_leaf])]) [] = Inr v \<and>
     sv_user_pending v = 2"
proof -
  obtain v where v: "evaluate_stage_acceptance rp (JObj [(''any'', JList [sample_user_leaf, sample_user_leaf])]) [] = Inr v"
    by (simp add: evaluate_stage_acceptance_def)
  show ?thesis using v verdict_counts [OF v] by (simp add: is_user_leaf_def dict_get_def)
qed

text \<open>
  A machine check whose result is a word other than fail and pending does not hold up a verdict:
  a validated \<open>all\<close> specification whose only check came back \<open>undetermined\<close> is judged pass. The
  verdict is conservative only for the three expected words.
\<close>

theorem unknown_outcome_passes:
  assumes "w \<noteq> ''fail''" and "w \<noteq> ''pending''" and "\<not> is_blank kind" and "\<not> is_blank target"
  shows "validate_spec (JObj [(''all'', JList [sample_leaf kind target])]) = [] \<and>
    stage_outcome rp (JObj [(''all'', JList [sample_leaf kind target])]) [(kind @ '':'' @ target, w)] = ''pass''"
proof -
  let ?spec = "JObj [(''all'', JList [sample_leaf kind target])]"
  let ?res = "[(kind @ '':'' @ target, w)]"
  have wf: "wf_spec ?spec" using assms by (simp add: all_node_wf sample_leaf_wf)
  have "\<exists>r. machine_map_of rp (collect_machine rp ?res ?spec) (kind @ '':'' @ target) = Some r"
    using wf_leaf_in_map [OF wf, of "[(''judge'', JStr ''machine''), (''kind'', JStr kind), (''target'', JStr target)]"]
    by (simp add: is_machine_leaf_def leaf_identity_def identity_of_def dict_get_def dict_get_or_def)
  then obtain r where r: "machine_map_of rp (collect_machine rp ?res ?spec) (kind @ '':'' @ target) = Some r"
    by blast
  then have "cr_outcome r = w" using machine_map_outcome [OF r] by (simp add: outcome_of_def)
  with r assms(1,2) have "stage_outcome rp ?spec ?res = ''pass''"
    by (simp add: stage_outcome_eval eval_node_comb eval_sample_leaf combine_def)
  with wf show ?thesis by (simp add: validate_spec_def validate_node_wf)
qed

theorem unknown_outcome_passes_witness:
  "stage_outcome rp (JObj [(''all'', JList [sample_leaf ''file-exists'' ''a''])])
     [(''file-exists:a'', ''undetermined'')] = ''pass''"
  using unknown_outcome_passes [of "''undetermined''" "''file-exists''" "''a''" rp]
  by (simp add: is_blank_iff is_space_def)

text \<open>
  A node may carry both combinators and still validate, but its \<open>any\<close> part is never looked at:
  the verdict is the one of the \<open>all\<close> part alone, whatever the alternatives require.
\<close>

theorem any_beside_all_is_ignored:
  assumes "wf_spec (JObj [(''all'', JList as), (''any'', JList bs)])"
  shows "validate_spec (JObj [(''all'', JList as), (''any'', JList bs)]) = [] \<and>
    stage_outcome rp (JObj [(''all'', JList as), (''any'', JList bs)]) res =
    stage_outcome rp (JObj [(''all'', JList as)]) res"
  using assms
  by (simp add: validate_spec_def validate_node_wf stage_outcome_eval eval_node_comb collect_machine_leaves)

theorem any_beside_all_is_ignored_witness:
  "validate_spec (JObj [(''all'', JList [sample_user_leaf]), (''any'', JList [sample_leaf ''k'' ''t''])]) = [] \<and>
   stage_outcome rp (JObj [(''all'', JList [sample_leaf ''k'' ''t'']), (''any'', JList [sample_user_leaf])])
     [(''k:t'', ''pass'')] =
   stage_outcome rp (JObj [(''all'', JList [sample_leaf ''k'' ''t''])]) [(''k:t'', ''pass'')]"
proof -
  have k: "wf_spec (sample_leaf ''k'' ''t'')" by (simp add: sample_leaf_wf is_blank_iff is_space_def)
  have a: "wf_spec (JObj [(''all'', JList [sample_user_leaf]), (''any'', JList [sample_leaf ''k'' ''t''])])"
    and b: "wf_spec (JObj [(''all'', JList [sample_leaf ''k'' ''t'']), (''any'', JList [sample_user_leaf])])"
    using k by (simp_all add: both_node_wf sample_user_wf)
  show ?thesis
    using any_beside_all_is_ignored [OF a] any_beside_all_is_ignored [OF b] by blast
qed

end
