(* ===== verification/Contract_Values.thy ===== *)
theory Contract_Values
  imports Verdict Acceptance_Spec "HOL-Library.Char_ord" "HOL-Library.List_Lexorder" "HOL-Library.Multiset"
begin

text \<open>
  The value objects a contract draft is composed of: \<open>lhgp/contracts/authority.py\<close>, \<open>budget.py\<close>,
  \<open>attention.py\<close>, \<open>continuity.py\<close>, \<open>auto_approve.py\<close> and \<open>acceptance.py\<close>. Each has its record,
  its validator (the messages are constructors of \<open>draft_error\<close>, with the data they print), its
  serialisation and its parser. Parsers take JSON values, as they come from the wire and from the store.
\<close>

section \<open>Validation errors\<close>

datatype draft_error =
    BadTitle | BadObjective | NaiveDeadline | BadWorkload
  | BadStandard | NoChecks | CheckTargetEmpty nat | CheckArgvBad nat | CheckBlank nat
  | UnknownVerifier string | SpecInvalid spec_error
  | BudgetNotPositive string int | MaxCostNotPositive pyfloat
  | BadExecutorPolicy string | BindingNoExecutor nat | BindingNoModels nat | BindingNoRoles nat
  | UnknownControls "string list"
  | UnknownNotifyOn "string list" | UnknownBypass "string list"
  | QuietStartBad string | QuietEndBad string | QuietTimezoneEmpty
  | CheckpointAgeBad int | RecoveryGraceBad int | CapsuleTokensBad int

text \<open>\<open>sorted(set(xs) - allowed)\<close>.\<close>

definition sorted_unknown :: "string list \<Rightarrow> string list \<Rightarrow> string list" where
  "sorted_unknown xs allowed = sort (remdups (filter (\<lambda>x. x \<notin> set allowed) xs))"

lemma sorted_unknown_empty: "sorted_unknown xs allowed = [] \<longleftrightarrow> set xs \<subseteq> set allowed"
proof -
  have "sorted_unknown xs allowed = [] \<longleftrightarrow> set (sorted_unknown xs allowed) = {}" by simp
  also have "\<dots> \<longleftrightarrow> set xs \<subseteq> set allowed" by (auto simp: sorted_unknown_def)
  finally show ?thesis .
qed

section \<open>Parsing helpers\<close>

text \<open>\<open>tuple(str(x) for x in v or ())\<close>.\<close>

definition str_tuple :: "(json \<Rightarrow> string) \<Rightarrow> json \<Rightarrow> py_error + string list" where
  "str_tuple rp v = (if truthy v then sbind (py_iter v) (\<lambda>xs. Inr (map (py_str rp) xs)) else Inr [])"

definition strict_bool :: "json \<Rightarrow> string \<Rightarrow> py_error + bool" where
  "strict_bool v field = (case v of JBool b \<Rightarrow> Inr b | _ \<Rightarrow> Inl (TypeError field))"

definition strict_int :: "json \<Rightarrow> string \<Rightarrow> py_error + int" where
  "strict_int v field = (case v of JBool b \<Rightarrow> Inl (TypeError field) | JFloat x \<Rightarrow> Inl (TypeError field) | _ \<Rightarrow> py_int v)"

lemma str_tuple_str_list [simp]: "str_tuple rp (str_list xs) = Inr xs"
  by (simp add: str_tuple_def str_list_def comp_def)

lemma strict_simps [simp]: "strict_bool (JBool b) f = Inr b" "strict_int (JInt i) f = Inr i"
  by (simp_all add: strict_bool_def strict_int_def)

section \<open>Authority\<close>

definition ALLOWED_CONTROLS :: "string list" where
  "ALLOWED_CONTROLS = [''notify'', ''followup'', ''steer'', ''spawn'']"

record authority_binding =
  ab_executor_id :: string
  ab_models :: "string list"
  ab_roles :: "string list"

record authority =
  au_executor_policy :: string
  au_executors :: "authority_binding list"
  au_required_capabilities :: "string list"
  au_allowed_controls :: "string list"
  au_allow_parallel :: bool

definition default_authority :: authority where
  "default_authority = \<lparr>au_executor_policy = ''closed'', au_executors = [], au_required_capabilities = [],
     au_allowed_controls = [], au_allow_parallel = False\<rparr>"

definition binding_validate :: "nat \<Rightarrow> authority_binding \<Rightarrow> draft_error list" where
  "binding_validate idx b =
     (if is_blank (ab_executor_id b) then [BindingNoExecutor idx] else []) @
     (if ab_models b = [] then [BindingNoModels idx] else []) @
     (if ab_roles b = [] then [BindingNoRoles idx] else [])"

definition authority_validate :: "authority \<Rightarrow> draft_error list" where
  "authority_validate a =
     (if au_executor_policy a \<notin> {''closed'', ''explicit_allow''} then [BadExecutorPolicy (au_executor_policy a)] else []) @
     errors_each binding_validate (au_executors a) @
     (let unknown = sorted_unknown (au_allowed_controls a) ALLOWED_CONTROLS in
      if unknown \<noteq> [] then [UnknownControls unknown] else [])"

definition models_allow :: "authority \<Rightarrow> authority_binding \<Rightarrow> string \<Rightarrow> bool" where
  "models_allow a b model = (ab_models b \<noteq> [] \<and> (''*'' \<in> set (ab_models b) \<or> model \<in> set (ab_models b)))"

definition roles_allow :: "authority \<Rightarrow> authority_binding \<Rightarrow> string \<Rightarrow> bool" where
  "roles_allow a b role = (role \<in> set (ab_roles b))"

definition binding_for_executor :: "authority \<Rightarrow> string \<Rightarrow> authority_binding option" where
  "binding_for_executor a executor_id = find (\<lambda>b. ab_executor_id b = executor_id) (au_executors a)"

definition binding_to_dict :: "authority_binding \<Rightarrow> json" where
  "binding_to_dict b = JObj [(''executor_id'', JStr (ab_executor_id b)), (''models'', str_list (ab_models b)),
     (''roles'', str_list (ab_roles b))]"

definition authority_to_dict :: "authority \<Rightarrow> json" where
  "authority_to_dict a = JObj [(''executor_policy'', JStr (au_executor_policy a)),
     (''executors'', JList (map binding_to_dict (au_executors a))),
     (''required_capabilities'', str_list (au_required_capabilities a)),
     (''allowed_controls'', str_list (au_allowed_controls a)),
     (''allow_parallel'', JBool (au_allow_parallel a))]"

definition binding_from_dict :: "(json \<Rightarrow> string) \<Rightarrow> dict \<Rightarrow> py_error + authority_binding" where
  "binding_from_dict rp item =
     sbind (dict_item item ''executor_id'') (\<lambda>e.
     sbind (str_tuple rp (dict_get item ''models'')) (\<lambda>models.
     sbind (str_tuple rp (dict_get item ''roles'')) (\<lambda>roles.
     Inr \<lparr>ab_executor_id = py_str rp e, ab_models = models, ab_roles = roles\<rparr>)))"

text \<open>Items of \<open>executors\<close> that are no dictionaries are left out.\<close>

fun dict_items :: "json list \<Rightarrow> dict list" where
  "dict_items [] = []"
| "dict_items (JObj d # vs) = d # dict_items vs"
| "dict_items (_ # vs) = dict_items vs"

definition authority_from_dict :: "(json \<Rightarrow> string) \<Rightarrow> json \<Rightarrow> py_error + authority" where
  "authority_from_dict rp data = (case data of
     JObj d \<Rightarrow>
       if d = [] then Inr default_authority else
       sbind (py_iter (py_or (dict_get d ''executors'') (JList []))) (\<lambda>raw.
       sbind (smap (binding_from_dict rp) (dict_items raw)) (\<lambda>executors.
       sbind (str_tuple rp (dict_get d ''required_capabilities'')) (\<lambda>caps.
       sbind (str_tuple rp (dict_get d ''allowed_controls'')) (\<lambda>controls.
       sbind (strict_bool (dict_get_or d ''allow_parallel'' (JBool False)) ''allow_parallel'') (\<lambda>par.
       Inr \<lparr>au_executor_policy = py_str rp (py_or (dict_get d ''executor_policy'') (JStr ''closed'')),
            au_executors = executors, au_required_capabilities = caps, au_allowed_controls = controls,
            au_allow_parallel = par\<rparr>)))))
   | _ \<Rightarrow> Inr default_authority)"

lemma dict_items_bindings: "dict_items (map binding_to_dict bs) = map (\<lambda>b. [(''executor_id'', JStr (ab_executor_id b)),
    (''models'', str_list (ab_models b)), (''roles'', str_list (ab_roles b))]) bs"
  by (induction bs) (simp_all add: binding_to_dict_def)

lemma authority_roundtrip:
  assumes "au_executor_policy a \<noteq> []"
  shows "authority_from_dict rp (authority_to_dict a) = Inr a"
proof -
  have "smap (binding_from_dict rp) (dict_items (map binding_to_dict bs)) = Inr bs" for bs
    unfolding dict_items_bindings
    by (rule smap_Inr_id) (simp add: binding_from_dict_def dict_item_def dict_get_def)
  moreover have "py_iter (py_or (JList (map binding_to_dict bs)) (JList [])) = Inr (map binding_to_dict bs)" for bs
    by (simp add: py_or_def)
  ultimately show ?thesis
    using assms by (simp add: authority_from_dict_def authority_to_dict_def dict_get_def dict_get_or_def py_or_def)
qed

lemma authority_validate_empty: "authority_validate a = [] \<longleftrightarrow>
   au_executor_policy a \<in> {''closed'', ''explicit_allow''} \<and>
   (\<forall>b \<in> set (au_executors a). \<not> is_blank (ab_executor_id b) \<and> ab_models b \<noteq> [] \<and> ab_roles b \<noteq> []) \<and>
   set (au_allowed_controls a) \<subseteq> set ALLOWED_CONTROLS"
proof -
  have "errors_each binding_validate bs = [] \<longleftrightarrow>
      (\<forall>b \<in> set bs. \<not> is_blank (ab_executor_id b) \<and> ab_models b \<noteq> [] \<and> ab_roles b \<noteq> [])" for bs
    by (rule errors_each_empty) (auto simp: binding_validate_def)
  then show ?thesis by (auto simp: authority_validate_def Let_def sorted_unknown_empty)
qed

section \<open>Budget\<close>

definition DEFAULT_VERIFICATION_RESERVED :: int where "DEFAULT_VERIFICATION_RESERVED = 2"

record budget =
  bu_max_dispatches :: int
  bu_max_escalations :: int
  bu_max_concurrent_attempts :: int
  bu_max_attempt_minutes :: int
  bu_max_output_bytes :: int
  bu_verification_attempts_reserved :: int
  bu_max_cost :: "pyfloat option"

definition budget_lines :: "budget \<Rightarrow> (string \<times> int) list" where
  "budget_lines b =
     [(''max_dispatches'', bu_max_dispatches b), (''max_escalations'', bu_max_escalations b),
      (''max_concurrent_attempts'', bu_max_concurrent_attempts b), (''max_attempt_minutes'', bu_max_attempt_minutes b),
      (''max_output_bytes'', bu_max_output_bytes b),
      (''verification_attempts_reserved'', bu_verification_attempts_reserved b)]"

definition budget_validate :: "budget \<Rightarrow> draft_error list" where
  "budget_validate b =
     concat (map (\<lambda>(name, value).
       if value < 0 \<or> (name \<noteq> ''verification_attempts_reserved'' \<and> value = 0)
       then [BudgetNotPositive name value] else []) (budget_lines b)) @
     (case bu_max_cost b of None \<Rightarrow> [] | Some c \<Rightarrow> if float_nonpos c then [MaxCostNotPositive c] else [])"

lemma budget_validate_empty: "budget_validate b = [] \<longleftrightarrow>
   0 < bu_max_dispatches b \<and> 0 < bu_max_escalations b \<and> 0 < bu_max_concurrent_attempts b \<and>
   0 < bu_max_attempt_minutes b \<and> 0 < bu_max_output_bytes b \<and> 0 \<le> bu_verification_attempts_reserved b \<and>
   (\<forall>c. bu_max_cost b = Some c \<longrightarrow> \<not> float_nonpos c)"
  by (auto simp: budget_validate_def budget_lines_def split: option.splits)

section \<open>Attention\<close>

definition VALID_NOTIFY_ON :: "string list" where
  "VALID_NOTIFY_ON = [''need_user'', ''risk_red'', ''satisfied'', ''missed'']"

record quiet_hours =
  qh_start :: string
  qh_end :: string
  qh_timezone :: string

record attention =
  at_notify_on :: "string list"
  at_quiet_hours :: "quiet_hours option"
  at_bypass_quiet_hours_on :: "string list"

definition default_attention :: attention where
  "default_attention = \<lparr>at_notify_on = [], at_quiet_hours = None, at_bypass_quiet_hours_on = []\<rparr>"

definition is_hhmm :: "string \<Rightarrow> bool" where
  "is_hhmm s =
     (if length s \<noteq> 5 \<or> s ! 2 \<noteq> CHR '':'' then False
      else (case (parse_int (take 2 s), parse_int (drop 3 s)) of
          (Some hh, Some mm) \<Rightarrow> 0 \<le> hh \<and> hh < 24 \<and> 0 \<le> mm \<and> mm < 60
        | _ \<Rightarrow> False))"

definition quiet_hours_validate :: "quiet_hours \<Rightarrow> draft_error list" where
  "quiet_hours_validate q =
     (if \<not> is_hhmm (qh_start q) then [QuietStartBad (qh_start q)] else []) @
     (if \<not> is_hhmm (qh_end q) then [QuietEndBad (qh_end q)] else []) @
     (if is_blank (qh_timezone q) then [QuietTimezoneEmpty] else [])"

definition attention_validate :: "attention \<Rightarrow> draft_error list" where
  "attention_validate a =
     (let bad = sorted_unknown (at_notify_on a) VALID_NOTIFY_ON in if bad \<noteq> [] then [UnknownNotifyOn bad] else []) @
     (let bad_bypass = sorted_unknown (at_bypass_quiet_hours_on a) VALID_NOTIFY_ON in
      if bad_bypass \<noteq> [] then [UnknownBypass bad_bypass] else []) @
     (case at_quiet_hours a of None \<Rightarrow> [] | Some q \<Rightarrow> quiet_hours_validate q)"

definition attention_to_dict :: "attention \<Rightarrow> json" where
  "attention_to_dict a = JObj [(''notify_on'', str_list (at_notify_on a)),
     (''quiet_hours'', (case at_quiet_hours a of None \<Rightarrow> JNull | Some q \<Rightarrow>
        JObj [(''start'', JStr (qh_start q)), (''end'', JStr (qh_end q)), (''timezone'', JStr (qh_timezone q))])),
     (''bypass_quiet_hours_on'', str_list (at_bypass_quiet_hours_on a))]"

definition quiet_hours_from_dict :: "(json \<Rightarrow> string) \<Rightarrow> json \<Rightarrow> py_error + quiet_hours option" where
  "quiet_hours_from_dict rp v = (case v of
     JObj q \<Rightarrow>
       sbind (dict_item q ''start'') (\<lambda>s.
       sbind (dict_item q ''end'') (\<lambda>e.
       sbind (dict_item q ''timezone'') (\<lambda>z.
       Inr (Some \<lparr>qh_start = py_str rp s, qh_end = py_str rp e, qh_timezone = py_str rp z\<rparr>))))
   | _ \<Rightarrow> Inr None)"

definition attention_from_dict :: "(json \<Rightarrow> string) \<Rightarrow> json \<Rightarrow> py_error + attention" where
  "attention_from_dict rp data = (case data of
     JObj d \<Rightarrow>
       if d = [] then Inr default_attention else
       sbind (quiet_hours_from_dict rp (dict_get d ''quiet_hours'')) (\<lambda>q.
       sbind (str_tuple rp (dict_get d ''notify_on'')) (\<lambda>notify.
       sbind (str_tuple rp (dict_get d ''bypass_quiet_hours_on'')) (\<lambda>bypass.
       Inr \<lparr>at_notify_on = notify, at_quiet_hours = q, at_bypass_quiet_hours_on = bypass\<rparr>)))
   | _ \<Rightarrow> Inr default_attention)"

lemma attention_roundtrip: "attention_from_dict rp (attention_to_dict a) = Inr a"
  by (cases "at_quiet_hours a")
    (simp_all add: attention_from_dict_def attention_to_dict_def quiet_hours_from_dict_def dict_get_def dict_item_def)

lemma attention_validate_empty: "attention_validate a = [] \<longleftrightarrow>
   set (at_notify_on a) \<subseteq> set VALID_NOTIFY_ON \<and> set (at_bypass_quiet_hours_on a) \<subseteq> set VALID_NOTIFY_ON \<and>
   (\<forall>q. at_quiet_hours a = Some q \<longrightarrow> is_hhmm (qh_start q) \<and> is_hhmm (qh_end q) \<and> \<not> is_blank (qh_timezone q))"
  by (auto simp: attention_validate_def quiet_hours_validate_def Let_def sorted_unknown_empty split: option.splits)

section \<open>Continuity\<close>

record continuity =
  co_checkpoint_max_age_minutes :: int
  co_checkpoint_on_material_change :: bool
  co_recovery_grace_minutes :: int
  co_capsule_max_tokens :: int

definition default_continuity :: continuity where
  "default_continuity = \<lparr>co_checkpoint_max_age_minutes = 20, co_checkpoint_on_material_change = True,
     co_recovery_grace_minutes = 5, co_capsule_max_tokens = 12000\<rparr>"

definition continuity_validate :: "continuity \<Rightarrow> draft_error list" where
  "continuity_validate c =
     (if co_checkpoint_max_age_minutes c \<le> 0 then [CheckpointAgeBad (co_checkpoint_max_age_minutes c)] else []) @
     (if co_recovery_grace_minutes c < 0 then [RecoveryGraceBad (co_recovery_grace_minutes c)] else []) @
     (if co_capsule_max_tokens c \<le> 0 then [CapsuleTokensBad (co_capsule_max_tokens c)] else [])"

definition continuity_to_dict :: "continuity \<Rightarrow> json" where
  "continuity_to_dict c = JObj
     [(''checkpoint_max_age_minutes'', JInt (co_checkpoint_max_age_minutes c)),
      (''checkpoint_on_material_change'', JBool (co_checkpoint_on_material_change c)),
      (''recovery_grace_minutes'', JInt (co_recovery_grace_minutes c)),
      (''capsule_max_tokens'', JInt (co_capsule_max_tokens c))]"

definition continuity_from_dict :: "json \<Rightarrow> py_error + continuity" where
  "continuity_from_dict data = (case data of
     JObj d \<Rightarrow>
       if d = [] then Inr default_continuity else
       sbind (strict_int (dict_get_or d ''checkpoint_max_age_minutes'' (JInt 20)) ''checkpoint_max_age_minutes'') (\<lambda>age.
       sbind (strict_bool (dict_get_or d ''checkpoint_on_material_change'' (JBool True)) ''checkpoint_on_material_change'') (\<lambda>chg.
       sbind (strict_int (dict_get_or d ''recovery_grace_minutes'' (JInt 5)) ''recovery_grace_minutes'') (\<lambda>grace.
       sbind (strict_int (dict_get_or d ''capsule_max_tokens'' (JInt 12000)) ''capsule_max_tokens'') (\<lambda>tokens.
       Inr \<lparr>co_checkpoint_max_age_minutes = age, co_checkpoint_on_material_change = chg,
            co_recovery_grace_minutes = grace, co_capsule_max_tokens = tokens\<rparr>))))
   | _ \<Rightarrow> Inr default_continuity)"

lemma continuity_roundtrip: "continuity_from_dict (continuity_to_dict c) = Inr c"
  by (simp add: continuity_from_dict_def continuity_to_dict_def dict_get_or_def)

lemma continuity_validate_empty: "continuity_validate c = [] \<longleftrightarrow>
   0 < co_checkpoint_max_age_minutes c \<and> 0 \<le> co_recovery_grace_minutes c \<and> 0 < co_capsule_max_tokens c"
  by (auto simp: continuity_validate_def)

section \<open>Pre-authorised plan approval\<close>

record auto_approve =
  aa_enabled :: bool
  aa_actions :: "string list"
  aa_max_budget_increment :: int
  aa_max_spec_changes :: int

definition default_auto_approve :: auto_approve where
  "default_auto_approve = \<lparr>aa_enabled = False, aa_actions = [], aa_max_budget_increment = 0, aa_max_spec_changes = 0\<rparr>"

definition covers_action :: "auto_approve \<Rightarrow> string \<Rightarrow> bool" where
  "covers_action a act = (act \<in> set (aa_actions a))"

definition inherit_from :: "auto_approve \<Rightarrow> auto_approve \<Rightarrow> auto_approve" where
  "inherit_from self previous =
     (if aa_enabled self then self
      else if \<not> aa_enabled previous then self
      else \<lparr>aa_enabled = True, aa_actions = aa_actions previous,
             aa_max_budget_increment = aa_max_budget_increment previous,
             aa_max_spec_changes = aa_max_spec_changes previous\<rparr>)"

definition auto_approve_to_dict :: "auto_approve \<Rightarrow> json" where
  "auto_approve_to_dict a = JObj [(''enabled'', JBool (aa_enabled a)), (''actions'', str_list (aa_actions a)),
     (''max_budget_increment'', JInt (aa_max_budget_increment a)), (''max_spec_changes'', JInt (aa_max_spec_changes a))]"

text \<open>Unlike its siblings this parser does not check that it was given a dictionary: \<open>data.get\<close> of another
  true value raises \<open>AttributeError\<close>.\<close>

definition auto_approve_from_dict :: "(json \<Rightarrow> string) \<Rightarrow> json \<Rightarrow> py_error + auto_approve" where
  "auto_approve_from_dict rp data =
     (if \<not> truthy data then Inr default_auto_approve
      else (case data of
          JObj d \<Rightarrow>
            sbind (case py_or (dict_get d ''actions'') (JList []) of
                JList xs \<Rightarrow> Inr (map (py_str rp) xs)
              | _ \<Rightarrow> Inl (TypeError ''auto_approve.actions must be a list of action strings'')) (\<lambda>actions.
            sbind (py_int (py_or (dict_get_or d ''max_budget_increment'' (JInt 0)) (JInt 0))) (\<lambda>inc.
            sbind (py_int (py_or (dict_get_or d ''max_spec_changes'' (JInt 0)) (JInt 0))) (\<lambda>chg.
            Inr \<lparr>aa_enabled = truthy (dict_get_or d ''enabled'' (JBool False)), aa_actions = actions,
                 aa_max_budget_increment = inc, aa_max_spec_changes = chg\<rparr>)))
        | _ \<Rightarrow> Inl (AttributeError ''get'')))"

lemma auto_approve_roundtrip: "auto_approve_from_dict rp (auto_approve_to_dict a) = Inr a"
proof -
  have "py_or (str_list xs) (JList []) = str_list xs" for xs
    by (simp add: py_or_def str_list_def)
  moreover have "py_or (JInt i) (JInt 0) = JInt i" for i
    by (simp add: py_or_def)
  ultimately show ?thesis
    by (simp add: auto_approve_from_dict_def auto_approve_to_dict_def dict_get_def dict_get_or_def)
      (simp add: str_list_def comp_def)
qed

section \<open>Acceptance\<close>

definition VALID_VERIFIER_KINDS :: "string list" where
  "VALID_VERIFIER_KINDS = [''cross_check'', ''none'']"

text \<open>\<open>spec\<close> and \<open>spec_hash\<close> are stored as they were submitted; \<open>None\<close> is \<open>JNull\<close>.\<close>

record acceptance =
  ac_standard :: string
  ac_checks :: "check list"
  ac_verifier :: string
  ac_spec :: json
  ac_spec_hash :: json

text \<open>
  \<open>json.dumps(..., sort_keys=True)\<close> does not see the order of the keys of a mapping: \<open>canon\<close> sorts them,
  on every level. The digest of the text (\<open>hashlib.sha256\<close>) is a parameter.
\<close>

fun canon :: "json \<Rightarrow> json" where
  "canon (JList xs) = JList (map canon xs)"
| "canon (JObj kvs) = JObj (sort_key fst (map (\<lambda>kv. (fst kv, canon (snd kv))) kvs))"
| "canon v = v"

definition fingerprint_payload :: "acceptance \<Rightarrow> json" where
  "fingerprint_payload a = JObj
     [(''standard'', JStr (ac_standard a)), (''verifier'', JStr (ac_verifier a)),
      (''checks'', JList (map check_json (ac_checks a))), (''spec'', ac_spec a)]"

definition content_fingerprint :: "(json \<Rightarrow> string) \<Rightarrow> acceptance \<Rightarrow> string" where
  "content_fingerprint digest a = digest (canon (fingerprint_payload a))"

definition evidence_binding :: "(json \<Rightarrow> string) \<Rightarrow> acceptance \<Rightarrow> dict" where
  "evidence_binding digest a =
     [(''acceptance_fingerprint'', JStr (content_fingerprint digest a)), (''spec_hash'', ac_spec_hash a)]"

definition validate_check :: "nat \<Rightarrow> check_spec \<Rightarrow> draft_error list" where
  "validate_check i c =
     (if is_blank (cs_target c) then [CheckTargetEmpty i] else []) @
     (if check_kind_value (cs_kind c) = ''command-exit-zero'' \<and> map_of (cs_args c) ''argv'' \<noteq> None
      then (case dict_get (cs_args c) ''argv'' of
          JList items \<Rightarrow> if list_ex (\<lambda>x. case x of JStr s \<Rightarrow> s = [] | _ \<Rightarrow> True) items then [CheckArgvBad i] else []
        | _ \<Rightarrow> [CheckArgvBad i])
      else [])"

definition acceptance_check_errors :: "nat \<Rightarrow> check \<Rightarrow> draft_error list" where
  "acceptance_check_errors i c = (case c of
     TypedCheck s \<Rightarrow> validate_check i s
   | LegacyCheck t \<Rightarrow> if is_blank t then [CheckBlank i] else [])"

definition acceptance_validate :: "acceptance \<Rightarrow> draft_error list" where
  "acceptance_validate a =
     (if is_blank (ac_standard a) then [BadStandard] else []) @
     (if ac_checks a = [] then [NoChecks] else []) @
     errors_each acceptance_check_errors (ac_checks a) @
     (if ac_verifier a \<notin> set VALID_VERIFIER_KINDS then [UnknownVerifier (ac_verifier a)] else []) @
     (if ac_spec a \<noteq> JNull then map SpecInvalid (validate_spec (ac_spec a)) else [])"

definition acceptance_from_values ::
  "(json \<Rightarrow> string) \<Rightarrow> string \<Rightarrow> json list \<Rightarrow> string \<Rightarrow> json \<Rightarrow> json \<Rightarrow> py_error + acceptance" where
  "acceptance_from_values rp standard checks verifier spec spec_hash =
     sbind (smap (parse_check rp) checks) (\<lambda>cs.
     Inr \<lparr>ac_standard = standard, ac_checks = cs, ac_verifier = verifier, ac_spec = spec, ac_spec_hash = spec_hash\<rparr>)"

text \<open>What a valid check is: a non-blank text or target, and a proper \<open>argv\<close> where a command is given one.\<close>

definition good_argv :: "json \<Rightarrow> bool" where
  "good_argv v \<longleftrightarrow> (\<exists>ss. v = JList (map JStr ss) \<and> [] \<notin> set ss)"

definition good_check :: "check \<Rightarrow> bool" where
  "good_check c \<longleftrightarrow> (case c of LegacyCheck t \<Rightarrow> \<not> is_blank t
     | TypedCheck s \<Rightarrow> \<not> is_blank (cs_target s) \<and>
         (cs_kind s = CommandExitZero \<longrightarrow> (\<forall>v. map_of (cs_args s) ''argv'' = Some v \<longrightarrow> good_argv v)))"

lemma str_items: "(\<forall>x \<in> set items. \<exists>s. x = JStr s \<and> s \<noteq> []) \<longleftrightarrow> (\<exists>ss. items = map JStr ss \<and> [] \<notin> set ss)"
proof (induction items)
  case (Cons x xs)
  show ?case
  proof
    assume "\<forall>y \<in> set (x # xs). \<exists>s. y = JStr s \<and> s \<noteq> []"
    then obtain s ss where "x = JStr s" "s \<noteq> []" "xs = map JStr ss" "[] \<notin> set ss"
      using Cons.IH by auto
    then have "x # xs = map JStr (s # ss) \<and> [] \<notin> set (s # ss)" by simp
    then show "\<exists>ss. x # xs = map JStr ss \<and> [] \<notin> set ss" by (rule exI)
  next
    assume "\<exists>ss. x # xs = map JStr ss \<and> [] \<notin> set ss"
    then obtain ss where ss: "x # xs = map JStr ss" "[] \<notin> set ss" by (elim exE conjE)
    show "\<forall>y \<in> set (x # xs). \<exists>s. y = JStr s \<and> s \<noteq> []"
      unfolding ss(1) using ss(2) by (simp add: image_iff) blast
  qed
qed simp

lemma good_argv_list: "good_argv (JList items) \<longleftrightarrow> \<not> list_ex (\<lambda>x. case x of JStr s \<Rightarrow> s = [] | _ \<Rightarrow> True) items"
proof -
  have "(case x of JStr s \<Rightarrow> s = [] | _ \<Rightarrow> True) = (\<not> (\<exists>s. x = JStr s \<and> s \<noteq> []))" for x
    by (cases x) simp_all
  then show ?thesis
    using str_items [of items] by (auto simp: good_argv_def list_ex_iff)
qed

lemma good_argv_not_list: "(\<And>items. v \<noteq> JList items) \<Longrightarrow> \<not> good_argv v"
  by (auto simp: good_argv_def)

lemma kind_command: "check_kind_value k = ''command-exit-zero'' \<longleftrightarrow> k = CommandExitZero"
  by (cases k) simp_all

lemma acceptance_check_errors_empty: "acceptance_check_errors i c = [] \<longleftrightarrow> good_check c"
proof (cases c)
  case (TypedCheck s)
  show ?thesis
  proof (cases "map_of (cs_args s) ''argv''")
    case (Some v)
    then show ?thesis
      by (cases v) (auto simp: TypedCheck acceptance_check_errors_def validate_check_def good_check_def kind_command
          dict_get_def good_argv_list good_argv_not_list)
  qed (auto simp: TypedCheck acceptance_check_errors_def validate_check_def good_check_def kind_command)
qed (simp add: acceptance_check_errors_def good_check_def)

lemma acceptance_validate_empty: "acceptance_validate a = [] \<longleftrightarrow>
   \<not> is_blank (ac_standard a) \<and> ac_checks a \<noteq> [] \<and> (\<forall>c \<in> set (ac_checks a). good_check c) \<and>
   ac_verifier a \<in> set VALID_VERIFIER_KINDS \<and> (ac_spec a = JNull \<or> validate_spec (ac_spec a) = [])"
  by (auto simp: acceptance_validate_def errors_each_empty [OF acceptance_check_errors_empty])

subsection \<open>What the fingerprint binds\<close>

lemma map_of_sort_key:
  assumes "distinct (map fst kvs)"
  shows "map_of (sort_key fst kvs) = map_of kvs"
proof -
  have "mset (map fst (sort_key fst kvs)) = mset (map fst kvs)" by (simp only: mset_map mset_sort)
  then have "distinct (map fst (sort_key fst kvs))" using assms mset_eq_imp_distinct_iff by blast
  with assms show ?thesis by (simp add: map_of_inject_set)
qed

lemma map_of_map_snd: "map_of (map (\<lambda>kv. (fst kv, f (snd kv))) kvs) k = map_option f (map_of kvs k)"
  by (induction kvs) auto

lemma canon_obj_field:
  assumes "canon (JObj as) = canon (JObj bs)" and "distinct (map fst as)" and "distinct (map fst bs)"
  shows "map_option canon (map_of as k) = map_option canon (map_of bs k)"
proof -
  let ?c = "map (\<lambda>kv. (fst kv, canon (snd kv)))"
  have "map_of (sort_key fst (?c as)) k = map_of (sort_key fst (?c bs)) k" using assms(1) by simp
  moreover have "distinct (map fst (?c xs))" if "distinct (map fst xs)" for xs :: dict
    using that by (simp add: comp_def)
  ultimately show ?thesis using assms(2,3) by (simp only: map_of_sort_key map_of_map_snd)
qed

text \<open>Two checks with the same content, up to the order of the keys in \<open>args\<close>.\<close>

definition same_check :: "check \<Rightarrow> check \<Rightarrow> bool" where
  "same_check c d \<longleftrightarrow> (case (c, d) of
     (LegacyCheck s, LegacyCheck t) \<Rightarrow> s = t
   | (TypedCheck a, TypedCheck b) \<Rightarrow> cs_kind a = cs_kind b \<and> cs_target a = cs_target b \<and>
       cs_mandatory a = cs_mandatory b \<and> cs_note a = cs_note b \<and> canon (JObj (cs_args a)) = canon (JObj (cs_args b))
   | _ \<Rightarrow> False)"

lemma check_dict_fields:
  "map_of [(''kind'', JStr (check_kind_value (cs_kind c))), (''target'', JStr (cs_target c)),
      (''args'', JObj (cs_args c)), (''mandatory'', JBool (cs_mandatory c)), (''note'', JStr (cs_note c))]
   = [''kind'' \<mapsto> JStr (check_kind_value (cs_kind c)), ''target'' \<mapsto> JStr (cs_target c), ''args'' \<mapsto> JObj (cs_args c),
      ''mandatory'' \<mapsto> JBool (cs_mandatory c), ''note'' \<mapsto> JStr (cs_note c)]"
  by (rule ext) simp

lemma canon_typed_check:
  assumes "canon (check_to_dict a) = canon (check_to_dict b)"
  shows "same_check (TypedCheck a) (TypedCheck b)"
proof -
  note field = canon_obj_field [OF assms [unfolded check_to_dict_def]]
  show ?thesis
    using field [of "''kind''"] field [of "''target''"] field [of "''args''"] field [of "''mandatory''"]
      field [of "''note''"]
    by (simp add: same_check_def check_kind_value_inject)
qed

lemma canon_check: "canon (check_json c) = canon (check_json d) \<Longrightarrow> same_check c d"
  by (cases c; cases d) (simp_all add: check_json_def canon_typed_check, simp_all add: check_to_dict_def same_check_def)

lemma canon_checks: "map canon (map check_json cs) = map canon (map check_json ds) \<Longrightarrow> list_all2 same_check cs ds"
  by (induction cs arbitrary: ds) (auto simp: Cons_eq_map_conv canon_check)

lemma fingerprint_payload_canon:
  assumes "canon (fingerprint_payload a) = canon (fingerprint_payload b)"
  shows "ac_standard a = ac_standard b \<and> ac_verifier a = ac_verifier b \<and>
    list_all2 same_check (ac_checks a) (ac_checks b) \<and> canon (ac_spec a) = canon (ac_spec b)"
proof -
  note field = canon_obj_field [OF assms [unfolded fingerprint_payload_def]]
  show ?thesis
    using field [of "''standard''"] field [of "''verifier''"] field [of "''checks''"] field [of "''spec''"]
    by (simp add: canon_checks comp_def del: map_map)
qed

text \<open>
  Verifier evidence cannot be reused after the acceptance was edited. Unless the digest collides on
  these two contents, two acceptances have the same fingerprint only if their standard, verifier policy,
  every check (kind, target, arguments, mandatory flag, note) and specification are the same; the caller's own
  \<open>spec_hash\<close> label plays no part in it.
\<close>

theorem fingerprint_binds_content:
  assumes "content_fingerprint digest a = content_fingerprint digest b"
    and "digest (canon (fingerprint_payload a)) = digest (canon (fingerprint_payload b)) \<Longrightarrow>
      canon (fingerprint_payload a) = canon (fingerprint_payload b)"
  shows "ac_standard a = ac_standard b \<and> ac_verifier a = ac_verifier b \<and>
    list_all2 same_check (ac_checks a) (ac_checks b) \<and> canon (ac_spec a) = canon (ac_spec b) \<and>
    content_fingerprint digest (a\<lparr>ac_spec_hash := h\<rparr>) = content_fingerprint digest a"
proof -
  have "fingerprint_payload (a\<lparr>ac_spec_hash := h\<rparr>) = fingerprint_payload a"
    by (simp add: fingerprint_payload_def)
  then show ?thesis
    using fingerprint_payload_canon [of a b] assms by (simp add: content_fingerprint_def)
qed

definition sample_acceptance :: "string \<Rightarrow> json \<Rightarrow> acceptance" where
  "sample_acceptance standard h = \<lparr>ac_standard = standard,
     ac_checks = [LegacyCheck ''done'', TypedCheck \<lparr>cs_kind = FileExists, cs_target = ''a'', cs_args = [],
       cs_mandatory = True, cs_note = []\<rparr>], ac_verifier = ''cross_check'', ac_spec = JNull, ac_spec_hash = h\<rparr>"

theorem fingerprint_binds_content_witness:
  "content_fingerprint (\<lambda>j. if j = canon (fingerprint_payload (sample_acceptance ''s'' JNull)) then ''x'' else ''y'')
      (sample_acceptance ''t'' (JStr ''same'')) \<noteq>
   content_fingerprint (\<lambda>j. if j = canon (fingerprint_payload (sample_acceptance ''s'' JNull)) then ''x'' else ''y'')
      (sample_acceptance ''s'' (JStr ''same''))"
proof
  let ?d = "\<lambda>j. if j = canon (fingerprint_payload (sample_acceptance ''s'' JNull)) then ''x'' else ''y''"
  let ?a = "sample_acceptance ''t'' (JStr ''same'')" and ?b = "sample_acceptance ''s'' (JStr ''same'')"
  assume eq: "content_fingerprint ?d ?a = content_fingerprint ?d ?b"
  have pay: "fingerprint_payload ?b = fingerprint_payload (sample_acceptance ''s'' JNull)"
    by (simp add: fingerprint_payload_def sample_acceptance_def)
  have no_collision: "?d (canon (fingerprint_payload ?a)) = ?d (canon (fingerprint_payload ?b)) \<Longrightarrow>
      canon (fingerprint_payload ?a) = canon (fingerprint_payload ?b)"
    unfolding pay by (simp split: if_splits)
  from fingerprint_binds_content [OF eq no_collision] show False by (simp add: sample_acceptance_def)
qed

end
