(* ===== verification/Draft.thy ===== *)
theory Draft
  imports Contract_Values
begin

text \<open>
  \<open>lhgp/contracts/contract_draft.py\<close> and \<open>validation.py\<close>: the contract draft, its parser, its
  serialisation and the two validators (of raw input and of the parsed draft).

  What the drafts use of Python's runtime and is not text, numbers or dictionaries is collected in a
  \<open>pyhost\<close>: \<open>repr\<close> of floats and containers, \<open>float(text)\<close> and the ISO form of date-times. The laws
  the round trip needs of it are \<open>host_ok\<close>. A date-time is its instant, with the offset when it
  carries one. \<open>dict(v)\<close> of a list of pairs is modelled for text keys; a pair with another key, which no
  JSON object can hold, is reported as \<open>ValueError\<close>.
\<close>

section \<open>The runtime's part\<close>

datatype py_datetime = NaiveTime int | AwareTime int int

fun is_aware :: "py_datetime \<Rightarrow> bool" where
  "is_aware (NaiveTime t) = False"
| "is_aware (AwareTime t off) = True"

record pyhost =
  h_repr :: "json \<Rightarrow> string"
  h_float_of :: "string \<Rightarrow> pyfloat option"
  h_iso_parse :: "string \<Rightarrow> py_datetime option"
  h_iso_format :: "py_datetime \<Rightarrow> string"

definition host_ok :: "pyhost \<Rightarrow> bool" where
  "host_ok h \<longleftrightarrow> (\<forall>t. h_iso_parse h (h_iso_format h t) = Some t) \<and> (\<forall>v. h_repr h v \<noteq> [])"

fun pair_of :: "json \<Rightarrow> py_error + (string \<times> json)" where
  "pair_of (JList [JStr k, v]) = Inr (k, v)"
| "pair_of (JStr [a, b]) = Inr ([a], JStr [b])"
| "pair_of (JObj [(k, _), (l, _)]) = Inr (k, JStr l)"
| "pair_of (JList _) = Inl (ValueError ''dictionary update sequence'')"
| "pair_of (JStr _) = Inl (ValueError ''dictionary update sequence'')"
| "pair_of (JObj _) = Inl (ValueError ''dictionary update sequence'')"
| "pair_of _ = Inl (TypeError ''cannot convert dictionary update sequence'')"

text \<open>\<open>dict(v or {})\<close>.\<close>

definition py_dict :: "json \<Rightarrow> py_error + dict" where
  "py_dict v = (if \<not> truthy v then Inr [] else (case v of
     JObj d \<Rightarrow> Inr d
   | JList xs \<Rightarrow> sbind (smap pair_of xs) (\<lambda>ps. Inr (fold (\<lambda>(k, w) d. put k w d) ps []))
   | JStr s \<Rightarrow> Inl (ValueError ''dictionary update sequence'')
   | _ \<Rightarrow> Inl (TypeError ''object is not iterable'')))"

text \<open>\<open>k in v\<close>.\<close>

fun py_in :: "string \<Rightarrow> json \<Rightarrow> py_error + bool" where
  "py_in k (JObj d) = Inr (map_of d k \<noteq> None)"
| "py_in k (JList xs) = Inr (JStr k \<in> set xs)"
| "py_in k (JStr s) = Inr (contains s k)"
| "py_in k _ = Inl (TypeError ''argument is not iterable'')"

section \<open>Numbers of a draft\<close>

text \<open>\<open>_strict_int\<close>: whatever \<open>int\<close> raises becomes \<open>TypeError\<close>.\<close>

definition budget_int :: "json \<Rightarrow> string \<Rightarrow> py_error + int" where
  "budget_int v field = (case v of
     JBool b \<Rightarrow> Inl (TypeError field) | JFloat x \<Rightarrow> Inl (TypeError field)
   | _ \<Rightarrow> (case py_int v of Inr i \<Rightarrow> Inr i | Inl e \<Rightarrow> Inl (TypeError field)))"

definition strict_float :: "pyhost \<Rightarrow> json \<Rightarrow> string \<Rightarrow> py_error + pyfloat" where
  "strict_float h v field =
     sbind (of_option (TypeError field) (case v of
         JInt i \<Rightarrow> Some (Fin (of_int i)) | JFloat x \<Rightarrow> Some x | JStr s \<Rightarrow> h_float_of h s | _ \<Rightarrow> None))
       (\<lambda>x. if float_finite x then Inr x else Inl (TypeError field))"

definition optional_positive_float :: "json \<Rightarrow> string \<Rightarrow> py_error + pyfloat" where
  "optional_positive_float v field =
     sbind (of_option (TypeError field) (case v of
         JInt i \<Rightarrow> Some (Fin (of_int i)) | JFloat x \<Rightarrow> Some x | _ \<Rightarrow> None))
       (\<lambda>x. if \<not> float_finite x \<or> float_nonpos x then Inl (TypeError field) else Inr x)"

section \<open>The draft\<close>

definition SCHEMA_VERSION :: int where "SCHEMA_VERSION = 2"

record contract_draft =
  cd_title :: string
  cd_objective :: string
  cd_deadline_at :: py_datetime
  cd_hard_constraints :: dict
  cd_acceptance :: acceptance
  cd_workload_initial_hours :: pyfloat
  cd_budget :: budget
  cd_authority :: authority
  cd_attention :: attention
  cd_continuity :: continuity
  cd_auto_approve :: auto_approve
  cd_soft_guidance :: dict
  cd_context :: dict
  cd_execution :: dict
  cd_client_meta :: dict

definition draft_validate :: "contract_draft \<Rightarrow> draft_error list" where
  "draft_validate d =
     (if \<not> (0 < length (cd_title d) \<and> length (cd_title d) \<le> 200) then [BadTitle] else []) @
     (if is_blank (cd_objective d) then [BadObjective] else []) @
     (if \<not> is_aware (cd_deadline_at d) then [NaiveDeadline] else []) @
     (if float_nonpos (cd_workload_initial_hours d) then [BadWorkload] else []) @
     acceptance_validate (cd_acceptance d) @ budget_validate (cd_budget d) @ authority_validate (cd_authority d) @
     attention_validate (cd_attention d) @ continuity_validate (cd_continuity d)"

definition acceptance_to_dict :: "acceptance \<Rightarrow> json" where
  "acceptance_to_dict a = JObj [(''standard'', JStr (ac_standard a)),
     (''checks'', JList (map check_json (ac_checks a))), (''verifier'', JStr (ac_verifier a)),
     (''spec'', ac_spec a), (''spec_hash'', ac_spec_hash a)]"

definition budget_to_dict :: "budget \<Rightarrow> json" where
  "budget_to_dict b = JObj ([(''max_dispatches'', JInt (bu_max_dispatches b)),
     (''max_escalations'', JInt (bu_max_escalations b)),
     (''max_concurrent_attempts'', JInt (bu_max_concurrent_attempts b)),
     (''max_attempt_minutes'', JInt (bu_max_attempt_minutes b)),
     (''max_output_bytes'', JInt (bu_max_output_bytes b)),
     (''verification_attempts_reserved'', JInt (bu_verification_attempts_reserved b))] @
     (case bu_max_cost b of None \<Rightarrow> [] | Some c \<Rightarrow> [(''max_cost'', JFloat c)]))"

definition draft_to_dict :: "pyhost \<Rightarrow> contract_draft \<Rightarrow> dict" where
  "draft_to_dict h d =
     [(''schema_version'', JInt SCHEMA_VERSION), (''title'', JStr (cd_title d)), (''objective'', JStr (cd_objective d)),
      (''deadline_at'', JStr (h_iso_format h (cd_deadline_at d))), (''hard_constraints'', JObj (cd_hard_constraints d)),
      (''acceptance'', acceptance_to_dict (cd_acceptance d)),
      (''workload_estimate'', JObj [(''initial_hours'', JFloat (cd_workload_initial_hours d))]),
      (''workload_initial_hours'', JFloat (cd_workload_initial_hours d)), (''budget'', budget_to_dict (cd_budget d)),
      (''authority'', authority_to_dict (cd_authority d)), (''attention'', attention_to_dict (cd_attention d)),
      (''continuity'', continuity_to_dict (cd_continuity d)), (''auto_approve'', auto_approve_to_dict (cd_auto_approve d)),
      (''soft_guidance'', JObj (cd_soft_guidance d)), (''context'', JObj (cd_context d)),
      (''execution'', JObj (cd_execution d)), (''client_meta'', JObj (cd_client_meta d))]"

definition acceptance_from_dict :: "(json \<Rightarrow> string) \<Rightarrow> json \<Rightarrow> py_error + acceptance" where
  "acceptance_from_dict rp raw =
     sbind (py_item raw ''standard'') (\<lambda>standard. case raw of
       JObj a \<Rightarrow>
         sbind (py_iter (py_or (dict_get a ''checks'') (JList []))) (\<lambda>items.
         sbind (smap (parse_check rp) items) (\<lambda>checks.
         Inr \<lparr>ac_standard = py_str rp standard, ac_checks = checks,
              ac_verifier = py_str rp (py_or (dict_get a ''verifier'') (JStr ''cross_check'')),
              ac_spec = dict_get a ''spec'', ac_spec_hash = dict_get a ''spec_hash''\<rparr>))
     | _ \<Rightarrow> Inl (TypeError ''acceptance''))"

definition workload_from_dict :: "pyhost \<Rightarrow> dict \<Rightarrow> py_error + pyfloat" where
  "workload_from_dict h d =
     (let raw = py_or (dict_get d ''workload_estimate'') (JObj []); field = ''workload_estimate.initial_hours'' in
      sbind (py_in ''initial_hours'' raw) (\<lambda>present.
        if present then sbind (py_item raw ''initial_hours'') (\<lambda>v. strict_float h v field)
        else (case map_of d ''workload_initial_hours'' of
            Some v \<Rightarrow> strict_float h v field
          | None \<Rightarrow> Inl (KeyError field))))"

definition budget_item :: "json \<Rightarrow> string \<Rightarrow> py_error + int" where
  "budget_item raw name = sbind (py_item raw name) (\<lambda>v. budget_int v name)"

definition budget_from_dict :: "json \<Rightarrow> py_error + budget" where
  "budget_from_dict raw =
     sbind (budget_item raw ''max_dispatches'') (\<lambda>dispatches.
     sbind (budget_item raw ''max_escalations'') (\<lambda>escalations.
     sbind (budget_item raw ''max_concurrent_attempts'') (\<lambda>concurrent.
     sbind (budget_item raw ''max_attempt_minutes'') (\<lambda>minutes.
     sbind (budget_item raw ''max_output_bytes'') (\<lambda>bytes. case raw of
       JObj b \<Rightarrow>
         sbind (budget_int (dict_get_or b ''verification_attempts_reserved'' (JInt DEFAULT_VERIFICATION_RESERVED))
                  ''verification_attempts_reserved'') (\<lambda>reserved.
         sbind (case map_of b ''max_cost'' of
             Some v \<Rightarrow> sbind (optional_positive_float v ''budget.max_cost'') (\<lambda>c. Inr (Some c))
           | None \<Rightarrow> Inr None) (\<lambda>cost.
         Inr \<lparr>bu_max_dispatches = dispatches, bu_max_escalations = escalations,
              bu_max_concurrent_attempts = concurrent, bu_max_attempt_minutes = minutes,
              bu_max_output_bytes = bytes, bu_verification_attempts_reserved = reserved, bu_max_cost = cost\<rparr>))
     | _ \<Rightarrow> Inl (TypeError ''budget''))))))"

definition draft_from_dict :: "pyhost \<Rightarrow> dict \<Rightarrow> py_error + contract_draft" where
  "draft_from_dict h d = (let rp = h_repr h in
     sbind (dict_item d ''deadline_at'') (\<lambda>raw_deadline.
     sbind (of_option (ValueError ''Invalid isoformat string'') (h_iso_parse h (py_str rp raw_deadline))) (\<lambda>deadline.
     sbind (dict_item d ''acceptance'') (\<lambda>acceptance_raw.
     sbind (acceptance_from_dict rp acceptance_raw) (\<lambda>acc.
     sbind (workload_from_dict h d) (\<lambda>workload.
     sbind (dict_item d ''budget'') (\<lambda>budget_raw.
     sbind (budget_from_dict budget_raw) (\<lambda>bud.
     sbind (dict_item d ''title'') (\<lambda>title.
     sbind (dict_item d ''objective'') (\<lambda>objective.
     sbind (py_dict (dict_get d ''hard_constraints'')) (\<lambda>hard.
     sbind (authority_from_dict rp (dict_get d ''authority'')) (\<lambda>auth.
     sbind (attention_from_dict rp (dict_get d ''attention'')) (\<lambda>att.
     sbind (continuity_from_dict (dict_get d ''continuity'')) (\<lambda>cont.
     sbind (auto_approve_from_dict rp (dict_get d ''auto_approve'')) (\<lambda>auto.
     sbind (py_dict (dict_get d ''soft_guidance'')) (\<lambda>soft.
     sbind (py_dict (dict_get d ''context'')) (\<lambda>ctxt.
     sbind (py_dict (dict_get d ''execution'')) (\<lambda>exec.
     sbind (py_dict (dict_get d ''client_meta'')) (\<lambda>meta.
     Inr \<lparr>cd_title = py_str rp title, cd_objective = py_str rp objective, cd_deadline_at = deadline,
          cd_hard_constraints = hard, cd_acceptance = acc, cd_workload_initial_hours = workload,
          cd_budget = bud, cd_authority = auth, cd_attention = att, cd_continuity = cont,
          cd_auto_approve = auto, cd_soft_guidance = soft, cd_context = ctxt, cd_execution = exec,
          cd_client_meta = meta\<rparr>)))))))))))))))))))"

section \<open>Validation of raw input\<close>

datatype raw_error =
    RawTitle | RawObjective | RawDeadline | RawHardConstraints | RawAcceptance | RawStandard | RawChecks
  | RawVerifier json | RawWorkload | RawBudget | RawBudgetInt string json | RawMaxCost json

definition is_slug_char :: "char \<Rightarrow> bool" where
  "is_slug_char c = (let n = (of_char c :: nat) in
     (48 \<le> n \<and> n \<le> 57) \<or> (65 \<le> n \<and> n \<le> 90) \<or> (97 \<le> n \<and> n \<le> 122))"

text \<open>The pattern \<open>^[0-9a-zA-Z][0-9a-zA-Z_.-]*\Z\<close>.\<close>

definition matches_contract_id :: "string \<Rightarrow> bool" where
  "matches_contract_id s = (case s of
     [] \<Rightarrow> False
   | c # cs \<Rightarrow> is_slug_char c \<and> (\<forall>x \<in> set cs. is_slug_char x \<or> x \<in> {CHR ''_'', CHR ''.'', CHR ''-''}))"

definition is_safe_contract_id :: "json \<Rightarrow> bool" where
  "is_safe_contract_id contract_id = (case contract_id of
     JStr s \<Rightarrow>
       if \<not> matches_contract_id s then False
       else s \<notin> {''.'', ''..''} \<and> ''..'' \<notin> set (split_on CHR ''-'' s)
   | _ \<Rightarrow> False)"

definition looks_like_datetime_with_tz :: "pyhost \<Rightarrow> json \<Rightarrow> bool" where
  "looks_like_datetime_with_tz h v = (case v of
     JStr s \<Rightarrow> (case h_iso_parse h s of None \<Rightarrow> False | Some t \<Rightarrow> is_aware t)
   | _ \<Rightarrow> False)"

text \<open>\<open>isinstance(v, int) and v > 0\<close> (a Boolean is an integer) and a finite positive number.\<close>

definition positive_int :: "json \<Rightarrow> bool" where
  "positive_int v = (case v of JInt i \<Rightarrow> 0 < i | JBool b \<Rightarrow> b | _ \<Rightarrow> False)"

definition positive_number :: "json \<Rightarrow> bool" where
  "positive_number v = (case v of JInt i \<Rightarrow> 0 < i | JFloat x \<Rightarrow> \<not> float_nonpos x | _ \<Rightarrow> False)"

definition finite_number :: "json \<Rightarrow> bool" where
  "finite_number v = (case v of JInt i \<Rightarrow> True | JFloat x \<Rightarrow> float_finite x | _ \<Rightarrow> False)"

text \<open>
  \<open>x not in VALID_VERIFIER_KINDS\<close> hashes \<open>x\<close>: a list or a dictionary raises \<open>TypeError\<close>, and nothing
  catches it.
\<close>

definition verifier_errors :: "json \<Rightarrow> py_error + raw_error list" where
  "verifier_errors v = (case v of
     JStr s \<Rightarrow> Inr (if s \<in> set VALID_VERIFIER_KINDS then [] else [RawVerifier v])
   | JList _ \<Rightarrow> Inl (TypeError ''unhashable type'')
   | JObj _ \<Rightarrow> Inl (TypeError ''unhashable type'')
   | _ \<Rightarrow> Inr [RawVerifier v])"

definition raw_acceptance_errors :: "json \<Rightarrow> py_error + raw_error list" where
  "raw_acceptance_errors v = (case v of
     JObj acc \<Rightarrow>
       sbind (verifier_errors (dict_get acc ''verifier'')) (\<lambda>ver. Inr (
         (case dict_get acc ''standard'' of JStr s \<Rightarrow> if is_blank s then [RawStandard] else [] | _ \<Rightarrow> [RawStandard]) @
         (case dict_get acc ''checks'' of JList xs \<Rightarrow> if xs = [] then [RawChecks] else [] | _ \<Rightarrow> [RawChecks]) @ ver))
   | _ \<Rightarrow> Inr [RawAcceptance])"

definition raw_budget_errors :: "json \<Rightarrow> raw_error list" where
  "raw_budget_errors v = (case v of
     JObj b \<Rightarrow>
       concat (map (\<lambda>name. if positive_int (dict_get b name) then [] else [RawBudgetInt name (dict_get b name)])
         [''max_dispatches'', ''max_escalations'', ''max_concurrent_attempts'', ''max_attempt_minutes'',
          ''max_output_bytes'']) @
       (let max_cost = dict_get b ''max_cost'' in
        if max_cost \<noteq> JNull \<and> \<not> positive_number max_cost then [RawMaxCost max_cost] else [])
   | _ \<Rightarrow> [RawBudget])"

definition raw_hours :: "dict \<Rightarrow> json" where
  "raw_hours d = (let w = py_or (dict_get d ''workload_estimate'') (JObj []);
      init = (case w of JObj o' \<Rightarrow> dict_get o' ''initial_hours'' | _ \<Rightarrow> JNull) in
    if init = JNull then dict_get d ''workload_initial_hours'' else init)"

definition validate_raw :: "pyhost \<Rightarrow> dict \<Rightarrow> py_error + raw_error list" where
  "validate_raw h d =
     sbind (raw_acceptance_errors (dict_get d ''acceptance'')) (\<lambda>acc. Inr (
       (case dict_get d ''title'' of JStr s \<Rightarrow> if 0 < length s \<and> length s \<le> 200 then [] else [RawTitle] | _ \<Rightarrow> [RawTitle]) @
       (case dict_get d ''objective'' of JStr s \<Rightarrow> if is_blank s then [RawObjective] else [] | _ \<Rightarrow> [RawObjective]) @
       (if looks_like_datetime_with_tz h (dict_get d ''deadline_at'') then [] else [RawDeadline]) @
       (if is_obj (dict_get d ''hard_constraints'') then [] else [RawHardConstraints]) @
       acc @
       (let hours = raw_hours d in if finite_number hours \<and> positive_number hours then [] else [RawWorkload]) @
       raw_budget_errors (dict_get d ''budget'')))"

datatype validation_error = RawError raw_error | ParseFailed py_error | DraftError draft_error

text \<open>\<open>except (KeyError, TypeError, ValueError)\<close>: the other exceptions leave the validator.\<close>

fun caught :: "py_error \<Rightarrow> bool" where
  "caught (KeyError _) = True"
| "caught (TypeError _) = True"
| "caught (ValueError _) = True"
| "caught _ = False"

definition validate_draft :: "pyhost \<Rightarrow> dict \<Rightarrow> py_error + validation_error list" where
  "validate_draft h d =
     sbind (validate_raw h d) (\<lambda>errors.
       if errors \<noteq> [] then Inr (map RawError errors)
       else (case draft_from_dict h d of
           Inl e \<Rightarrow> if caught e then Inr [ParseFailed e] else Inl e
         | Inr c \<Rightarrow> Inr (map DraftError (draft_validate c))))"

section \<open>Parsing what was serialised\<close>

text \<open>The lookups in a serialised draft.\<close>

lemma draft_fields:
  "map_of (draft_to_dict h d) ''title'' = Some (JStr (cd_title d))"
  "map_of (draft_to_dict h d) ''objective'' = Some (JStr (cd_objective d))"
  "map_of (draft_to_dict h d) ''deadline_at'' = Some (JStr (h_iso_format h (cd_deadline_at d)))"
  "map_of (draft_to_dict h d) ''hard_constraints'' = Some (JObj (cd_hard_constraints d))"
  "map_of (draft_to_dict h d) ''acceptance'' = Some (acceptance_to_dict (cd_acceptance d))"
  "map_of (draft_to_dict h d) ''workload_estimate'' = Some (JObj [(''initial_hours'', JFloat (cd_workload_initial_hours d))])"
  "map_of (draft_to_dict h d) ''budget'' = Some (budget_to_dict (cd_budget d))"
  "map_of (draft_to_dict h d) ''authority'' = Some (authority_to_dict (cd_authority d))"
  "map_of (draft_to_dict h d) ''attention'' = Some (attention_to_dict (cd_attention d))"
  "map_of (draft_to_dict h d) ''continuity'' = Some (continuity_to_dict (cd_continuity d))"
  "map_of (draft_to_dict h d) ''auto_approve'' = Some (auto_approve_to_dict (cd_auto_approve d))"
  "map_of (draft_to_dict h d) ''soft_guidance'' = Some (JObj (cd_soft_guidance d))"
  "map_of (draft_to_dict h d) ''context'' = Some (JObj (cd_context d))"
  "map_of (draft_to_dict h d) ''execution'' = Some (JObj (cd_execution d))"
  "map_of (draft_to_dict h d) ''client_meta'' = Some (JObj (cd_client_meta d))"
  by (simp_all add: draft_to_dict_def)

text \<open>What every parsed draft satisfies, validated or not.\<close>

definition draft_parsed :: "contract_draft \<Rightarrow> bool" where
  "draft_parsed d \<longleftrightarrow> (\<forall>c \<in> set (ac_checks (cd_acceptance d)). check_wf c) \<and> ac_verifier (cd_acceptance d) \<noteq> [] \<and>
     au_executor_policy (cd_authority d) \<noteq> [] \<and> float_finite (cd_workload_initial_hours d) \<and>
     (\<forall>c. bu_max_cost (cd_budget d) = Some c \<longrightarrow> float_finite c \<and> \<not> float_nonpos c)"

lemma acceptance_roundtrip:
  assumes "\<forall>c \<in> set (ac_checks a). check_wf c" and "ac_verifier a \<noteq> []"
  shows "acceptance_from_dict rp (acceptance_to_dict a) = Inr a"
proof -
  have "smap (parse_check rp) (map check_json cs) = Inr cs" if "\<forall>c \<in> set cs. check_wf c" for cs
    using that by (intro smap_Inr_id) (simp add: parse_check_json)
  moreover have "py_iter (py_or (JList xs) (JList [])) = Inr xs" for xs
    by (simp add: py_or_def)
  ultimately show ?thesis
    using assms by (simp add: acceptance_from_dict_def acceptance_to_dict_def dict_item_def dict_get_def) (simp add: py_or_def)
qed

lemma budget_roundtrip:
  assumes "\<And>c. bu_max_cost b = Some c \<Longrightarrow> float_finite c \<and> \<not> float_nonpos c"
  shows "budget_from_dict (budget_to_dict b) = Inr b"
  using assms
  by (cases "bu_max_cost b") (simp_all add: budget_from_dict_def budget_to_dict_def budget_item_def budget_int_def
      dict_item_def dict_get_or_def optional_positive_float_def)

lemma py_dict_JObj [simp]: "py_dict (JObj d) = Inr d"
  by (simp add: py_dict_def)

lemma workload_roundtrip:
  assumes "float_finite (cd_workload_initial_hours d)"
  shows "workload_from_dict h (draft_to_dict h d) = Inr (cd_workload_initial_hours d)"
  using assms by (simp add: workload_from_dict_def dict_get_def draft_fields py_or_def dict_item_def strict_float_def)

lemma draft_roundtrip:
  assumes "host_ok h" and "draft_parsed d"
  shows "draft_from_dict h (draft_to_dict h d) = Inr d"
proof -
  have iso: "h_iso_parse h (h_iso_format h t) = Some t" for t
    using assms(1) by (simp add: host_ok_def)
  have acc: "acceptance_from_dict (h_repr h) (acceptance_to_dict (cd_acceptance d)) = Inr (cd_acceptance d)"
    and bud: "budget_from_dict (budget_to_dict (cd_budget d)) = Inr (cd_budget d)"
    and auth: "authority_from_dict (h_repr h) (authority_to_dict (cd_authority d)) = Inr (cd_authority d)"
    and work: "workload_from_dict h (draft_to_dict h d) = Inr (cd_workload_initial_hours d)"
    using assms(2) by (auto simp: draft_parsed_def intro: acceptance_roundtrip budget_roundtrip authority_roundtrip workload_roundtrip)
  show ?thesis
    by (simp add: draft_from_dict_def dict_item_def dict_get_def draft_fields iso acc bud auth work
        attention_roundtrip continuity_roundtrip auto_approve_roundtrip)
qed

section \<open>What parsing establishes\<close>

lemma digits_of_nonempty: "digits_of n \<noteq> []"
  by (simp add: digits_of.simps [of n])

lemma py_str_truthy:
  assumes "host_ok h" and "truthy v"
  shows "py_str (h_repr h) v \<noteq> []"
  using assms by (cases v) (auto simp: py_str_def host_ok_def int_str_def digits_of_nonempty)

lemma py_str_or:
  assumes "host_ok h" and "s \<noteq> []"
  shows "py_str (h_repr h) (py_or v (JStr s)) \<noteq> []"
  using assms py_str_truthy [of h v] by (simp add: py_or_def)

lemma acceptance_from_dict_parsed:
  assumes "host_ok h" and "acceptance_from_dict (h_repr h) raw = Inr a"
  shows "(\<forall>c \<in> set (ac_checks a). check_wf c) \<and> ac_verifier a \<noteq> []"
proof -
  from assms(2) obtain d items where c: "smap (parse_check (h_repr h)) items = Inr (ac_checks a)"
    and v: "ac_verifier a = py_str (h_repr h) (py_or (dict_get d ''verifier'') (JStr ''cross_check''))"
    by (cases raw) (auto simp: acceptance_from_dict_def res_simps)
  have "check_wf x" if x: "x \<in> set (ac_checks a)" for x
  proof -
    have "Inr x \<in> set (map (parse_check (h_repr h)) items)"
      using c x by (simp add: smap_eq_Inr_iff image_iff)
    then show ?thesis using parse_check_wf by (metis (no_types, lifting) ex_map_conv)
  qed
  with v py_str_or [OF assms(1), of "''cross_check''"] show ?thesis by simp
qed

lemma strict_float_finite: "strict_float h v f = Inr x \<Longrightarrow> float_finite x"
  by (auto simp: strict_float_def res_simps split: if_splits)

lemma workload_from_dict_finite: "workload_from_dict h d = Inr x \<Longrightarrow> float_finite x"
  by (auto simp: workload_from_dict_def res_simps Let_def dest: strict_float_finite split: if_splits option.splits)

lemma optional_positive_float_pos: "optional_positive_float v f = Inr x \<Longrightarrow> float_finite x \<and> \<not> float_nonpos x"
  by (auto simp: optional_positive_float_def res_simps split: if_splits)

lemma budget_from_dict_cost:
  assumes "budget_from_dict raw = Inr b" and "bu_max_cost b = Some c"
  shows "float_finite c \<and> \<not> float_nonpos c"
  using assms
  by (cases raw) (auto simp: budget_from_dict_def budget_item_def res_simps split: option.splits dest: optional_positive_float_pos)

lemma authority_from_dict_policy:
  assumes "host_ok h" and "authority_from_dict (h_repr h) v = Inr a"
  shows "au_executor_policy a \<noteq> []"
  using assms py_str_or [OF assms(1), of "''closed''"]
  by (auto simp: authority_from_dict_def res_simps default_authority_def split: json.splits if_splits)

lemma draft_from_dict_parts:
  assumes "draft_from_dict h d = Inr c"
  shows "acceptance_from_dict (h_repr h) (dict_get d ''acceptance'') = Inr (cd_acceptance c)"
    "workload_from_dict h d = Inr (cd_workload_initial_hours c)"
    "budget_from_dict (dict_get d ''budget'') = Inr (cd_budget c)"
    "authority_from_dict (h_repr h) (dict_get d ''authority'') = Inr (cd_authority c)"
    "\<exists>v. auto_approve_from_dict (h_repr h) (dict_get d ''auto_approve'') = Inr v"
  using assms by (auto simp: draft_from_dict_def Let_def res_simps dict_item_def dict_get_def)

lemma draft_from_dict_parsed:
  assumes "host_ok h" and "draft_from_dict h d = Inr c"
  shows "draft_parsed c"
  unfolding draft_parsed_def
  using acceptance_from_dict_parsed [OF assms(1) draft_from_dict_parts(1) [OF assms(2)]]
    workload_from_dict_finite [OF draft_from_dict_parts(2) [OF assms(2)]]
    budget_from_dict_cost [OF draft_from_dict_parts(3) [OF assms(2)]]
    authority_from_dict_policy [OF assms(1) draft_from_dict_parts(4) [OF assms(2)]]
  by blast

section \<open>What validation means\<close>

definition draft_good :: "contract_draft \<Rightarrow> bool" where
  "draft_good d \<longleftrightarrow>
     cd_title d \<noteq> [] \<and> length (cd_title d) \<le> 200 \<and> \<not> is_blank (cd_objective d) \<and> is_aware (cd_deadline_at d) \<and>
     \<not> float_nonpos (cd_workload_initial_hours d) \<and>
     (let a = cd_acceptance d in \<not> is_blank (ac_standard a) \<and> ac_checks a \<noteq> [] \<and> (\<forall>c \<in> set (ac_checks a). good_check c) \<and>
        ac_verifier a \<in> {''cross_check'', ''none''} \<and> (ac_spec a = JNull \<or> wf_spec (ac_spec a))) \<and>
     (let b = cd_budget d in 0 < bu_max_dispatches b \<and> 0 < bu_max_escalations b \<and> 0 < bu_max_concurrent_attempts b \<and>
        0 < bu_max_attempt_minutes b \<and> 0 < bu_max_output_bytes b \<and> 0 \<le> bu_verification_attempts_reserved b \<and>
        (\<forall>c. bu_max_cost b = Some c \<longrightarrow> \<not> float_nonpos c)) \<and>
     (let a = cd_authority d in au_executor_policy a \<in> {''closed'', ''explicit_allow''} \<and>
        (\<forall>b \<in> set (au_executors a). \<not> is_blank (ab_executor_id b) \<and> ab_models b \<noteq> [] \<and> ab_roles b \<noteq> []) \<and>
        set (au_allowed_controls a) \<subseteq> set ALLOWED_CONTROLS) \<and>
     (let a = cd_attention d in set (at_notify_on a) \<subseteq> set VALID_NOTIFY_ON \<and>
        set (at_bypass_quiet_hours_on a) \<subseteq> set VALID_NOTIFY_ON \<and>
        (\<forall>q. at_quiet_hours a = Some q \<longrightarrow> is_hhmm (qh_start q) \<and> is_hhmm (qh_end q) \<and> \<not> is_blank (qh_timezone q))) \<and>
     (let c = cd_continuity d in 0 < co_checkpoint_max_age_minutes c \<and> 0 \<le> co_recovery_grace_minutes c \<and>
        0 < co_capsule_max_tokens c)"

lemma draft_validate_good: "draft_validate d = [] \<longleftrightarrow> draft_good d"
  by (simp add: draft_validate_def draft_good_def Let_def acceptance_validate_empty budget_validate_empty
      authority_validate_empty attention_validate_empty continuity_validate_empty VALID_VERIFIER_KINDS_def
      validate_spec_def validate_node_wf conj_ac)

lemma is_aware_str: "h_iso_parse h s = Some t \<Longrightarrow> is_aware t \<Longrightarrow> looks_like_datetime_with_tz h (JStr s)"
  by (simp add: looks_like_datetime_with_tz_def)

lemma raw_budget_good:
  assumes "budget_validate b = []"
  shows "raw_budget_errors (budget_to_dict b) = []"
  using assms unfolding budget_validate_empty
  by (cases "bu_max_cost b") (simp_all add: raw_budget_errors_def budget_to_dict_def dict_get_def positive_int_def positive_number_def)

lemma validate_raw_stored:
  assumes "host_ok h" and "draft_parsed d" and "draft_validate d = []"
  shows "validate_raw h (draft_to_dict h d) = Inr []"
proof -
  have good: "draft_good d" using assms(3) by (simp add: draft_validate_good)
  have iso: "h_iso_parse h (h_iso_format h t) = Some t" for t
    using assms(1) by (simp add: host_ok_def)
  have acc: "raw_acceptance_errors (acceptance_to_dict (cd_acceptance d)) = Inr []"
    using good by (auto simp: draft_good_def Let_def raw_acceptance_errors_def acceptance_to_dict_def dict_get_def
        verifier_errors_def VALID_VERIFIER_KINDS_def)
  have bud: "raw_budget_errors (budget_to_dict (cd_budget d)) = []"
    using assms(3) by (intro raw_budget_good) (simp add: draft_validate_def)
  have hours: "raw_hours (draft_to_dict h d) = JFloat (cd_workload_initial_hours d)"
    by (simp add: raw_hours_def dict_get_def draft_fields py_or_def)
  show ?thesis
    using good assms(2)
    by (simp add: validate_raw_def dict_get_def draft_fields acc bud hours is_aware_str [OF iso] draft_good_def
        draft_parsed_def finite_number_def positive_number_def Suc_leI)
qed

section \<open>A concrete runtime and a concrete draft\<close>

definition enc_int :: "int \<Rightarrow> string" where
  "enc_int i = (if i < 0 then CHR ''-'' # replicate (nat (- i)) CHR ''1'' else CHR ''+'' # replicate (nat i) CHR ''1'')"

definition dec_int :: "string \<Rightarrow> int" where
  "dec_int s = (if hd s = CHR ''-'' then - int (length s - 1) else int (length s - 1))"

lemma dec_enc: "dec_int (enc_int i) = i"
  by (simp add: dec_int_def enc_int_def)

lemma enc_no_space: "c \<in> set (enc_int i) \<Longrightarrow> c \<noteq> CHR '' ''"
  by (auto simp: enc_int_def split: if_splits)

fun unary_format :: "py_datetime \<Rightarrow> string" where
  "unary_format (NaiveTime t) = CHR ''N'' # enc_int t"
| "unary_format (AwareTime t off) = CHR ''A'' # enc_int t @ CHR '' '' # enc_int off"

definition unary_parse :: "string \<Rightarrow> py_datetime option" where
  "unary_parse s = (case s of [] \<Rightarrow> None | c # cs \<Rightarrow>
     if c = CHR ''N'' then Some (NaiveTime (dec_int cs))
     else if c = CHR ''A'' then Some (AwareTime (dec_int (takeWhile (\<lambda>x. x \<noteq> CHR '' '') cs))
       (dec_int (tl (dropWhile (\<lambda>x. x \<noteq> CHR '' '') cs))))
     else None)"

definition unary_host :: pyhost where
  "unary_host = \<lparr>h_repr = (\<lambda>v. ''?''), h_float_of = (\<lambda>s. None), h_iso_parse = unary_parse,
     h_iso_format = unary_format\<rparr>"

lemma unary_host_ok: "host_ok unary_host"
proof -
  have "takeWhile (\<lambda>x. x \<noteq> CHR '' '') (enc_int t @ CHR '' '' # s) = enc_int t"
    "dropWhile (\<lambda>x. x \<noteq> CHR '' '') (enc_int t @ CHR '' '' # s) = CHR '' '' # s" for t s
    using enc_no_space by (simp_all add: takeWhile_append2 dropWhile_append2)
  then have "unary_parse (unary_format t) = Some t" for t
    by (cases t) (simp_all add: unary_parse_def dec_enc)
  then show ?thesis by (simp add: host_ok_def unary_host_def)
qed

definition sample_draft :: dict where
  "sample_draft =
     [(''title'', JStr ''T''), (''objective'', JStr ''O''), (''deadline_at'', JStr ''A+1 +''),
      (''hard_constraints'', JObj []),
      (''acceptance'', JObj [(''standard'', JStr ''S''), (''checks'', JList [JStr ''done'']),
         (''verifier'', JStr ''cross_check'')]),
      (''workload_estimate'', JObj [(''initial_hours'', JInt 3)]),
      (''budget'', JObj [(''max_dispatches'', JInt 5), (''max_escalations'', JInt 1), (''max_concurrent_attempts'', JInt 1),
         (''max_attempt_minutes'', JInt 10), (''max_output_bytes'', JInt 100)])]"

definition sample_contract_draft :: contract_draft where
  "sample_contract_draft = \<lparr>cd_title = ''T'', cd_objective = ''O'', cd_deadline_at = AwareTime 1 0,
     cd_hard_constraints = [], cd_acceptance = \<lparr>ac_standard = ''S'', ac_checks = [LegacyCheck ''done''],
       ac_verifier = ''cross_check'', ac_spec = JNull, ac_spec_hash = JNull\<rparr>,
     cd_workload_initial_hours = Fin 3,
     cd_budget = \<lparr>bu_max_dispatches = 5, bu_max_escalations = 1, bu_max_concurrent_attempts = 1,
       bu_max_attempt_minutes = 10, bu_max_output_bytes = 100, bu_verification_attempts_reserved = 2, bu_max_cost = None\<rparr>,
     cd_authority = default_authority, cd_attention = default_attention, cd_continuity = default_continuity,
     cd_auto_approve = default_auto_approve, cd_soft_guidance = [], cd_context = [], cd_execution = [],
     cd_client_meta = []\<rparr>"

lemma sample_draft_get:
  "map_of sample_draft ''title'' = Some (JStr ''T'')" "map_of sample_draft ''objective'' = Some (JStr ''O'')"
  "map_of sample_draft ''deadline_at'' = Some (JStr ''A+1 +'')" "map_of sample_draft ''hard_constraints'' = Some (JObj [])"
  "map_of sample_draft ''acceptance'' = Some (JObj [(''standard'', JStr ''S''), (''checks'', JList [JStr ''done'']),
     (''verifier'', JStr ''cross_check'')])"
  "map_of sample_draft ''workload_estimate'' = Some (JObj [(''initial_hours'', JInt 3)])"
  "map_of sample_draft ''budget'' = Some (JObj [(''max_dispatches'', JInt 5), (''max_escalations'', JInt 1),
     (''max_concurrent_attempts'', JInt 1), (''max_attempt_minutes'', JInt 10), (''max_output_bytes'', JInt 100)])"
  "map_of sample_draft ''authority'' = None" "map_of sample_draft ''attention'' = None"
  "map_of sample_draft ''continuity'' = None" "map_of sample_draft ''auto_approve'' = None"
  "map_of sample_draft ''soft_guidance'' = None" "map_of sample_draft ''context'' = None"
  "map_of sample_draft ''execution'' = None" "map_of sample_draft ''client_meta'' = None"
  by (simp_all add: sample_draft_def)

lemma sample_deadline: "h_iso_parse unary_host ''A+1 +'' = Some (AwareTime 1 0)"
  by (simp add: unary_host_def unary_parse_def dec_int_def)

lemma sample_draft_parses: "draft_from_dict unary_host sample_draft = Inr sample_contract_draft"
proof -
  have "acceptance_from_dict rp (JObj [(''standard'', JStr ''S''), (''checks'', JList [JStr ''done'']),
      (''verifier'', JStr ''cross_check'')]) = Inr (cd_acceptance sample_contract_draft)" for rp
    by (simp add: acceptance_from_dict_def dict_item_def dict_get_def py_or_def parse_check_def sample_contract_draft_def)
  moreover have "workload_from_dict h sample_draft = Inr (Fin 3)" for h
    by (simp add: workload_from_dict_def dict_get_def sample_draft_get py_or_def dict_item_def strict_float_def)
  moreover have "budget_from_dict (JObj [(''max_dispatches'', JInt 5), (''max_escalations'', JInt 1),
     (''max_concurrent_attempts'', JInt 1), (''max_attempt_minutes'', JInt 10), (''max_output_bytes'', JInt 100)]) =
     Inr (cd_budget sample_contract_draft)"
    by (simp add: budget_from_dict_def budget_item_def dict_item_def dict_get_or_def budget_int_def
        DEFAULT_VERIFICATION_RESERVED_def sample_contract_draft_def)
  moreover have "py_dict JNull = Inr []" by (simp add: py_dict_def)
  ultimately show ?thesis
    by (simp add: draft_from_dict_def dict_item_def dict_get_def sample_draft_get sample_deadline
        authority_from_dict_def attention_from_dict_def continuity_from_dict_def auto_approve_from_dict_def)
      (simp add: sample_contract_draft_def)
qed

lemma sample_draft_good: "draft_good sample_contract_draft"
  by (simp add: draft_good_def sample_contract_draft_def is_blank_iff is_space_def good_check_def default_authority_def
      default_attention_def default_continuity_def)

lemma sample_draft_valid: "validate_draft unary_host sample_draft = Inr []"
proof -
  have "validate_raw unary_host sample_draft = Inr []"
    by (simp add: validate_raw_def dict_get_def sample_draft_get raw_acceptance_errors_def verifier_errors_def
        VALID_VERIFIER_KINDS_def is_blank_iff is_space_def is_aware_str [OF sample_deadline] raw_hours_def py_or_def
        finite_number_def positive_number_def raw_budget_errors_def positive_int_def)
  then show ?thesis
    by (simp add: validate_draft_def sample_draft_parses draft_validate_good sample_draft_good)
qed

section \<open>Properties\<close>

text \<open>
  C36: A stored contract draft reloads as the same draft. Whatever dictionary the parser accepts - legacy or
  typed checks, omitted optional groups, either place of the workload estimate - serialising the resulting
  draft and parsing it again gives exactly that draft, every field included.
\<close>

theorem stored_draft_reloads:
  assumes "host_ok h" and "draft_from_dict h d = Inr c"
  shows "draft_from_dict h (draft_to_dict h c) = Inr c"
  using draft_roundtrip [OF assms(1) draft_from_dict_parsed [OF assms]] .

theorem stored_draft_reloads_witness:
  "draft_from_dict unary_host (draft_to_dict unary_host sample_contract_draft) = Inr sample_contract_draft"
  using stored_draft_reloads [OF unary_host_ok sample_draft_parses] .

text \<open>
  C35: Accepting a draft is final: when the validator reports nothing for a raw draft, parsing it succeeds; its own validation of the parsed
  draft reports nothing, which means that title and objective, an explicit timezone, positive workload and budget lines, good checks, a well-formed
  specification, known policies and notification kinds and the bounds on continuity are as \<open>draft_good\<close> lists them; and the form in which the draft
  is stored parses to the same draft and is accepted again. The validator asks less than the JSON schema of a contract does (the mode of the file effects).
\<close>

theorem accepted_draft_is_good:
  assumes "host_ok h" and "validate_draft h d = Inr []"
  shows "\<exists>c. draft_from_dict h d = Inr c \<and> draft_validate c = [] \<and> draft_good c \<and>
    draft_from_dict h (draft_to_dict h c) = Inr c \<and> validate_draft h (draft_to_dict h c) = Inr []"
proof -
  obtain c where c: "draft_from_dict h d = Inr c" and v: "draft_validate c = []"
    using assms(2) by (auto simp: validate_draft_def res_simps split: if_splits sum.splits)
  have p: "draft_parsed c" using draft_from_dict_parsed [OF assms(1) c] .
  have "validate_draft h (draft_to_dict h c) = Inr []"
    by (simp add: validate_draft_def validate_raw_stored [OF assms(1) p v] draft_roundtrip [OF assms(1) p] v)
  with c v show ?thesis by (simp add: draft_validate_good draft_roundtrip [OF assms(1) p])
qed

theorem accepted_draft_is_good_witness:
  "\<exists>c. draft_from_dict unary_host sample_draft = Inr c \<and> bu_max_dispatches (cd_budget c) > 0"
  using accepted_draft_is_good [OF unary_host_ok sample_draft_valid] by (auto simp: draft_good_def Let_def)

text \<open>Reading a dictionary after one of its keys was replaced.\<close>

lemma dict_get_put: "dict_get (put k v d) l = (if l = k then v else dict_get d l)"
  by (simp add: dict_get_def)

lemma dict_item_put: "dict_item (put k v d) l = (if l = k then Inr v else dict_item d l)"
  by (simp add: dict_item_def)

lemma workload_put: "workload_from_dict h (put ''auto_approve'' v d) = workload_from_dict h d"
  by (simp add: workload_from_dict_def dict_get_put Let_def cong: if_cong)

lemma validate_raw_put_auto: "validate_raw h (put ''auto_approve'' v d) = validate_raw h d"
proof -
  have "raw_hours (put ''auto_approve'' v d) = raw_hours d"
    by (simp add: raw_hours_def dict_get_put cong: if_cong)
  then show ?thesis by (simp add: validate_raw_def dict_get_put)
qed

text \<open>
  The validator is not total on bad input. A draft it accepts, with its \<open>auto_approve\<close> group
  replaced by a non-empty list, makes \<open>validate_draft\<close> raise \<open>AttributeError\<close> instead of reporting a
  violation: that parser is the only one that does not check for a dictionary, and the validator does
  not catch this exception.
\<close>

theorem auto_approve_list_escapes_validator:
  assumes "validate_draft h d = Inr []"
  shows "validate_draft h (put ''auto_approve'' (JList (x # xs)) d) = Inl (AttributeError ''get'')"
proof -
  have raw: "validate_raw h d = Inr []" and "\<exists>c. draft_from_dict h d = Inr c"
    using assms by (auto simp: validate_draft_def res_simps split: if_splits sum.splits)
  then obtain c where c: "draft_from_dict h d = Inr c" by blast
  have "draft_from_dict h (put ''auto_approve'' (JList (x # xs)) d) = Inl (AttributeError ''get'')"
    using c by (auto simp: draft_from_dict_def Let_def res_simps dict_item_put dict_get_put workload_put
        auto_approve_from_dict_def)
  with raw show ?thesis by (simp add: validate_draft_def validate_raw_put_auto)
qed

theorem auto_approve_list_escapes_validator_witness:
  "validate_draft unary_host (put ''auto_approve'' (JList [JStr ''complete'']) sample_draft) = Inl (AttributeError ''get'')"
  using auto_approve_list_escapes_validator [OF sample_draft_valid] .

lemma split_on_absent: "c \<notin> set s \<Longrightarrow> split_on c s = [s]"
  by (induction s) (auto simp: split_on_def)

lemma slug_no_separator:
  assumes "matches_contract_id s" and "x \<in> {CHR ''/'', CHR 0x5C, CHR '':'', CHR 0x00, CHR '' '', CHR 0x0A}"
  shows "x \<notin> set s"
  using assms by (auto simp: matches_contract_id_def is_slug_char_def Let_def split: list.splits)

text \<open>
  A contract id that passes the safety check is one component of a path: it is not empty, \<open>.\<close> or
  \<open>..\<close>, it has no slash, backslash, drive colon, NUL or white space, so splitting it at a separator
  gives the id itself.
\<close>

theorem safe_contract_id_is_one_component:
  assumes "is_safe_contract_id v"
  shows "\<exists>s. v = JStr s \<and> s \<notin> {[], ''.'', ''..''} \<and> split_on CHR ''/'' s = [s] \<and> split_on CHR 0x5C s = [s] \<and>
    CHR '':'' \<notin> set s \<and> CHR 0x00 \<notin> set s \<and> CHR '' '' \<notin> set s \<and> CHR 0x0A \<notin> set s"
proof -
  obtain s where s: "v = JStr s" "matches_contract_id s" "s \<notin> {''.'', ''..''}"
    using assms by (auto simp: is_safe_contract_id_def split: json.splits if_splits)
  moreover have "s \<noteq> []" using s(2) by (auto simp: matches_contract_id_def)
  ultimately show ?thesis
    using slug_no_separator [OF s(2)] by (intro exI [of _ s]) (simp add: split_on_absent)
qed

theorem safe_contract_id_is_one_component_witness:
  "split_on CHR ''/'' ''goal-1.a'' = [''goal-1.a'']"
proof -
  have "is_safe_contract_id (JStr ''goal-1.a'')"
    by (simp add: is_safe_contract_id_def matches_contract_id_def is_slug_char_def split_on_def)
  from safe_contract_id_is_one_component [OF this] show ?thesis by simp
qed

text \<open>Quiet hours are read with \<open>int\<close>, so a sign or a space passes for a digit.\<close>

lemma hhmm_accepts_signs: "is_hhmm ''+9: 5'' \<and> is_hhmm ''-0:+0''"
  by code_simp

end
