(* ===== verification/Event_Log.thy ===== *)
theory Event_Log
  imports Contract_View
begin

text \<open>
  \<open>lhgp/persistence/events.py\<close>, \<open>events_query.py\<close> and the storage-key helpers of \<open>schema.py\<close>: the
  event vocabulary, the append-only event table and its queries.

  An event type is its wire string, as the table stores it and as the queries compare it. A point in time
  is an integer (the stored ISO texts are compared as times). A payload is the JSON object that is
  serialised into \<open>payload_json\<close>.
\<close>

section \<open>The vocabulary\<close>

type_synonym event_type = string

definition EVENT_TYPES :: "event_type list" where
  "EVENT_TYPES = [
    ''goal/amended'', ''goal/proposed'', ''agent/message'', ''user/directive'', ''contract/prepared'',
    ''contract/approved'', ''contract/patched'', ''contract/paused'', ''contract/resumed'',
    ''contract/cancelled'', ''contract/expired'', ''contract/blocked'', ''contract/unblocked'',
    ''contract/completed'', ''contract/satisfied'', ''contract/arbitrated'', ''contract/revision'',
    ''attempt/admitted'', ''attempt/started'', ''attempt/succeeded'', ''attempt/failed'',
    ''attempt/cancelled'', ''attempt/stale'', ''attempt/orphaned'', ''attempt/write-back'',
    ''attempt/resumed'', ''deadline/status-changed'', ''acceptance/status-changed'',
    ''acceptance/calibrated'', ''decision/recorded'', ''lease/acquired'', ''lease/renewed'',
    ''lease/released'', ''lease/reclaimed'', ''lease/fenced'', ''lease/partition-conflict'',
    ''context/policy-approved'', ''context/snapshot-built'', ''context/snapshot-expired'',
    ''context/scratch-updated'', ''context/promotion-requested'', ''context/promotion-accepted'',
    ''context/promotion-rejected'', ''context/capacity-refused'', ''context/rebuilt'',
    ''handover/incomplete'', ''handover/due'', ''projection/rebuilt'', ''projection/dirty'',
    ''store/tampered'', ''escalation/reminded'', ''escalation/steered'', ''escalation/spawned'',
    ''escalation/parallelized'', ''escalation/handed-to-user'', ''verification/requested'',
    ''verification/consumed'', ''verification/started'', ''dispatch/refused'', ''dispatch/deferred'',
    ''handle/registered'', ''reconcile/reattached'', ''reconcile/collected'', ''reconcile/orphan-graced'',
    ''reconcile/fenced-redispatched'', ''checkpoint/built'', ''capsule/built'', ''forecast/updated'',
    ''next-decision/set'', ''notify/dispatched'', ''wakeup/sleep-guard'', ''wakeup/rtc-armed'',
    ''wakeup/rtc-fired'', ''wakeup/degraded'', ''user/evaluation-submitted'', ''acceptance/diff-computed'',
    ''deadline/level-escalated'', ''deadline/breach-locked'', ''portfolio/summary-viewed'',
    ''template/evolved'', ''memory/expired'', ''memory/auto-mined'', ''memory/auto-mine-failed'',
    ''memory/lesson-mined'', ''retry/attempted'', ''plan/submitted'', ''plan/approved'', ''plan/rejected'',
    ''directive/acknowledged'']"

definition CONTRACT_PREPARED :: event_type where "CONTRACT_PREPARED = ''contract/prepared''"
definition CONTRACT_APPROVED :: event_type where "CONTRACT_APPROVED = ''contract/approved''"
definition CONTRACT_PATCHED :: event_type where "CONTRACT_PATCHED = ''contract/patched''"
definition CONTRACT_PAUSED :: event_type where "CONTRACT_PAUSED = ''contract/paused''"
definition CONTRACT_BLOCKED :: event_type where "CONTRACT_BLOCKED = ''contract/blocked''"
definition CONTRACT_COMPLETED :: event_type where "CONTRACT_COMPLETED = ''contract/completed''"
definition CONTRACT_SATISFIED :: event_type where "CONTRACT_SATISFIED = ''contract/satisfied''"
definition CONTRACT_CANCELLED :: event_type where "CONTRACT_CANCELLED = ''contract/cancelled''"
definition CONTRACT_EXPIRED :: event_type where "CONTRACT_EXPIRED = ''contract/expired''"
definition CONTRACT_ARBITRATED :: event_type where "CONTRACT_ARBITRATED = ''contract/arbitrated''"
definition GOAL_AMENDED :: event_type where "GOAL_AMENDED = ''goal/amended''"
definition ATTEMPT_WRITE_BACK :: event_type where "ATTEMPT_WRITE_BACK = ''attempt/write-back''"
definition LEASE_ACQUIRED :: event_type where "LEASE_ACQUIRED = ''lease/acquired''"
definition LEASE_RENEWED :: event_type where "LEASE_RENEWED = ''lease/renewed''"
definition LEASE_RELEASED :: event_type where "LEASE_RELEASED = ''lease/released''"
definition LEASE_RECLAIMED :: event_type where "LEASE_RECLAIMED = ''lease/reclaimed''"
definition ESCALATION_HANDED_TO_USER :: event_type where "ESCALATION_HANDED_TO_USER = ''escalation/handed-to-user''"
definition FORECAST_UPDATED :: event_type where "FORECAST_UPDATED = ''forecast/updated''"
definition NEXT_DECISION_AT_SET :: event_type where "NEXT_DECISION_AT_SET = ''next-decision/set''"
definition PLAN_APPROVED :: event_type where "PLAN_APPROVED = ''plan/approved''"
definition PLAN_REJECTED :: event_type where "PLAN_REJECTED = ''plan/rejected''"
definition ATTEMPT_STARTED :: event_type where "ATTEMPT_STARTED = ''attempt/started''"

lemmas event_names =
  CONTRACT_PREPARED_def CONTRACT_APPROVED_def CONTRACT_PATCHED_def CONTRACT_PAUSED_def CONTRACT_BLOCKED_def CONTRACT_COMPLETED_def CONTRACT_SATISFIED_def CONTRACT_CANCELLED_def CONTRACT_EXPIRED_def CONTRACT_ARBITRATED_def GOAL_AMENDED_def ATTEMPT_WRITE_BACK_def LEASE_ACQUIRED_def LEASE_RENEWED_def LEASE_RELEASED_def LEASE_RECLAIMED_def ESCALATION_HANDED_TO_USER_def FORECAST_UPDATED_def NEXT_DECISION_AT_SET_def PLAN_APPROVED_def PLAN_REJECTED_def ATTEMPT_STARTED_def

lemma event_types_distinct: "distinct EVENT_TYPES"
  by code_simp

section \<open>Storage keys\<close>

definition STORE_SCHEMA_VERSION :: int where "STORE_SCHEMA_VERSION = 6"

definition partition_key :: "string option \<Rightarrow> string" where
  "partition_key partition_id = (case partition_id of None \<Rightarrow> [] | Some p \<Rightarrow> p)"

definition parse_partition_key :: "string \<Rightarrow> string option" where
  "parse_partition_key stored = (if stored = [] then None else Some stored)"

lemma partition_key_roundtrip: "partition_key (parse_partition_key s) = s"
  by (simp add: partition_key_def parse_partition_key_def)

section \<open>The event table\<close>

record event =
  ev_id :: int
  ev_contract :: "string option"
  ev_goal :: "string option"
  ev_attempt :: "string option"
  ev_generation :: "int option"
  ev_revision :: "int option"
  ev_role :: "string option"
  ev_type :: event_type
  ev_payload :: dict
  ev_payload_version :: int
  ev_request :: "string option"
  ev_created :: int
  ev_actor :: string
  ev_schema :: int

text \<open>The rows in id order, and SQLite's counter for the \<open>AUTOINCREMENT\<close> key.\<close>

record event_log =
  el_rows :: "event list"
  el_next :: int

definition empty_log :: event_log where
  "empty_log = \<lparr>el_rows = [], el_next = 1\<rparr>"

text \<open>The keyword arguments of \<open>append_event\<close>, and a call that leaves the optional ones out.\<close>

record new_event =
  ne_contract :: "string option"
  ne_type :: event_type
  ne_payload :: dict
  ne_now :: int
  ne_attempt :: "string option"
  ne_generation :: "int option"
  ne_request :: "string option"
  ne_actor :: string
  ne_schema :: int
  ne_goal :: "string option"
  ne_revision :: "int option"
  ne_role :: "string option"
  ne_payload_schema :: "int option"

definition event_call :: "string option \<Rightarrow> event_type \<Rightarrow> dict \<Rightarrow> int \<Rightarrow> new_event" where
  "event_call contract_id typ payload now = \<lparr>ne_contract = contract_id, ne_type = typ, ne_payload = payload,
     ne_now = now, ne_attempt = None, ne_generation = None, ne_request = None, ne_actor = ''daemon'',
     ne_schema = STORE_SCHEMA_VERSION, ne_goal = None, ne_revision = None, ne_role = None, ne_payload_schema = None\<rparr>"

definition stored_event :: "int \<Rightarrow> new_event \<Rightarrow> event" where
  "stored_event i n = \<lparr>ev_id = i, ev_contract = ne_contract n,
     ev_goal = (case ne_goal n of None \<Rightarrow> ne_contract n | Some g \<Rightarrow> Some g),
     ev_attempt = ne_attempt n, ev_generation = ne_generation n, ev_revision = ne_revision n, ev_role = ne_role n,
     ev_type = ne_type n, ev_payload = ne_payload n,
     ev_payload_version = (case ne_payload_schema n of None \<Rightarrow> ne_schema n | Some v \<Rightarrow> v),
     ev_request = ne_request n, ev_created = ne_now n, ev_actor = ne_actor n, ev_schema = ne_schema n\<rparr>"

definition append_event :: "new_event \<Rightarrow> event_log \<Rightarrow> event \<times> event_log" where
  "append_event n l = (let e = stored_event (el_next l) n in
     (e, \<lparr>el_rows = el_rows l @ [e], el_next = el_next l + 1\<rparr>))"

section \<open>Queries\<close>

text \<open>\<open>LIMIT\<close>: SQLite treats a negative limit as no limit.\<close>

definition sql_limit :: "int \<Rightarrow> 'a list \<Rightarrow> 'a list" where
  "sql_limit n xs = (if n < 0 then xs else take (nat n) xs)"

definition get_events ::
  "string option \<Rightarrow> int option \<Rightarrow> event_type list \<Rightarrow> int option \<Rightarrow> event_log \<Rightarrow> event list" where
  "get_events contract_id after_event_id event_types limit l =
     (let rows = filter (\<lambda>e. (case contract_id of None \<Rightarrow> True | Some c \<Rightarrow> ev_contract e = Some c) \<and>
            (case after_event_id of None \<Rightarrow> True | Some a \<Rightarrow> a < ev_id e) \<and>
            (event_types = [] \<or> ev_type e \<in> set event_types)) (el_rows l) in
      (case limit of None \<Rightarrow> rows | Some n \<Rightarrow> sql_limit n rows))"

definition get_recent_events ::
  "string \<Rightarrow> event_type list \<Rightarrow> int \<Rightarrow> event_log \<Rightarrow> py_error + event list" where
  "get_recent_events contract_id event_types limit l =
     (if limit < 1 then Inl (ValueError ''limit must be a positive integer'')
      else Inr (rev (take (nat limit) (rev (filter (\<lambda>e. ev_contract e = Some contract_id \<and>
             (event_types = [] \<or> ev_type e \<in> set event_types)) (el_rows l))))))"

definition count_events :: "string \<Rightarrow> event_type \<Rightarrow> event_log \<Rightarrow> int" where
  "count_events contract_id typ l =
     int (length (filter (\<lambda>e. ev_contract e = Some contract_id \<and> ev_type e = typ) (el_rows l)))"

definition get_latest_forecast_snapshot :: "string \<Rightarrow> event_log \<Rightarrow> dict option" where
  "get_latest_forecast_snapshot contract_id l =
     map_option ev_payload (find (\<lambda>e. ev_contract e = Some contract_id \<and> ev_type e = FORECAST_UPDATED) (rev (el_rows l)))"

definition get_events_by_request_id :: "string \<Rightarrow> event_log \<Rightarrow> event list" where
  "get_events_by_request_id request_id l = filter (\<lambda>e. ev_request e = Some request_id) (el_rows l)"

section \<open>Logs with increasing ids\<close>

text \<open>
  What a reader of the log relies on: appending adds one row behind all others, with a fresh id above
  every id handed out before.
\<close>

locale id_log =
  fixes ids :: "'l \<Rightarrow> int list"
    and ok :: "'l \<Rightarrow> bool"
    and add :: "'n \<Rightarrow> 'l \<Rightarrow> 'l"
  assumes add_appends: "ok l \<Longrightarrow> \<exists>i. ids (add n l) = ids l @ [i] \<and> (\<forall>j \<in> set (ids l). j < i)"
    and add_ok: "ok l \<Longrightarrow> ok (add n l)"
begin

definition add_all :: "'n list \<Rightarrow> 'l \<Rightarrow> 'l" where
  "add_all ns l = fold add ns l"

lemma add_all_ok: "ok l \<Longrightarrow> ok (add_all ns l)"
  unfolding add_all_def by (induction ns arbitrary: l) (simp_all add: add_ok)

lemma add_all_ids:
  assumes "ok l" and "sorted_wrt (<) (ids l)"
  shows "\<exists>new. ids (add_all ns l) = ids l @ new \<and> length new = length ns \<and> sorted_wrt (<) (ids l @ new)"
  using assms
proof (induction ns arbitrary: l)
  case Nil
  then show ?case by (simp add: add_all_def)
next
  case (Cons n ns)
  from add_appends [OF Cons.prems(1), of n] obtain i where i: "ids (add n l) = ids l @ [i]" "\<forall>j \<in> set (ids l). j < i"
    by blast
  then have "sorted_wrt (<) (ids (add n l))" using Cons.prems(2) by (simp add: sorted_wrt_append)
  from Cons.IH [OF add_ok [OF Cons.prems(1), of n] this] obtain new where
    "ids (add_all ns (add n l)) = ids (add n l) @ new" "length new = length ns" "sorted_wrt (<) (ids (add n l) @ new)"
    by blast
  then show ?case using i by (intro exI [of _ "i # new"]) (simp add: add_all_def)
qed

text \<open>A reader that remembers the last id it saw gets, by asking for larger ids, exactly what was added since.\<close>

lemma cursor_exact:
  assumes "ok l" and "sorted_wrt (<) (ids l)" and "ids l \<noteq> []"
  shows "filter (\<lambda>i. last (ids l) < i) (ids (add_all ns l)) = drop (length (ids l)) (ids (add_all ns l))"
proof -
  from add_all_ids [OF assms(1,2), of ns] obtain new where
    new: "ids (add_all ns l) = ids l @ new" "sorted_wrt (<) (ids l @ new)" by blast
  obtain js i where l: "ids l = js @ [i]" using assms(3) by (metis rev_exhaust)
  have "filter (\<lambda>j. i < j) (js @ [i]) = []"
    using new(2) l by (auto simp: sorted_wrt_append filter_empty_conv)
  moreover have "filter (\<lambda>j. i < j) new = new"
    using new(2) l by (auto simp: sorted_wrt_append filter_id_conv)
  ultimately show ?thesis using new(1) l by simp
qed

end

definition log_ok :: "event_log \<Rightarrow> bool" where
  "log_ok l \<longleftrightarrow> sorted_wrt (<) (map ev_id (el_rows l)) \<and> (\<forall>e \<in> set (el_rows l). ev_id e < el_next l)"

lemma append_event_rows [simp]:
  "el_rows (snd (append_event n l)) = el_rows l @ [stored_event (el_next l) n]"
  "el_next (snd (append_event n l)) = el_next l + 1"
  "fst (append_event n l) = stored_event (el_next l) n"
  by (simp_all add: append_event_def Let_def)

lemma stored_event_simps [simp]:
  "ev_id (stored_event i n) = i" "ev_contract (stored_event i n) = ne_contract n" "ev_type (stored_event i n) = ne_type n"
  "ev_request (stored_event i n) = ne_request n" "ev_revision (stored_event i n) = ne_revision n"
  "ev_payload (stored_event i n) = ne_payload n" "ev_created (stored_event i n) = ne_now n"
  by (simp_all add: stored_event_def)

lemma log_ok_append [inv_intros]: "log_ok l \<Longrightarrow> log_ok (snd (append_event n l))"
  by (auto simp: log_ok_def sorted_wrt_append)

lemma log_ok_empty: "log_ok empty_log"
  by (simp add: log_ok_def empty_log_def)

interpretation event_ids: id_log "\<lambda>l. map ev_id (el_rows l)" log_ok "\<lambda>n l. snd (append_event n l)"
proof
  fix l and n :: new_event
  assume ok: "log_ok l"
  then show "log_ok (snd (append_event n l))" by (rule log_ok_append)
  show "\<exists>i. map ev_id (el_rows (snd (append_event n l))) = map ev_id (el_rows l) @ [i] \<and>
      (\<forall>j \<in> set (map ev_id (el_rows l)). j < i)"
    using ok by (auto simp: log_ok_def)
qed

section \<open>Properties\<close>

text \<open>
  A reader of the event log misses nothing and sees nothing twice. However many events are
  appended to a well-formed log, asking for the events after the last id seen returns exactly the new ones that match
  the filter, in the order they were appended, and their ids keep increasing.
\<close>

theorem event_cursor_exact:
  assumes "log_ok l" and "el_rows l \<noteq> []"
  shows "\<exists>new. el_rows (fold (\<lambda>n l. snd (append_event n l)) ns l) = el_rows l @ new \<and> length new = length ns \<and>
    log_ok (fold (\<lambda>n l. snd (append_event n l)) ns l) \<and>
    get_events c (Some (ev_id (last (el_rows l)))) types None (fold (\<lambda>n l. snd (append_event n l)) ns l) =
      filter (\<lambda>e. (c = None \<or> ev_contract e = c) \<and> (types = [] \<or> ev_type e \<in> set types)) new"
proof -
  let ?l = "fold (\<lambda>n l. snd (append_event n l)) ns l"
  have "\<exists>new. el_rows (fold (\<lambda>n l. snd (append_event n l)) ns l) = el_rows l @ new \<and> length new = length ns" for ns l
    by (induction ns arbitrary: l) (auto, metis append_Cons append_assoc append_event_rows(1) append_Nil length_Cons)
  then obtain new where new: "el_rows ?l = el_rows l @ new" "length new = length ns" by blast
  have ok: "log_ok ?l" using event_ids.add_all_ok [OF assms(1), of ns] by (simp add: event_ids.add_all_def)
  have "filter (\<lambda>i. ev_id (last (el_rows l)) < i) (map ev_id (el_rows ?l)) = map ev_id new"
    using event_ids.cursor_exact [OF assms(1), of ns] assms
    by (simp add: event_ids.add_all_def new(1) log_ok_def last_map)
  then have "map ev_id (filter (\<lambda>e. ev_id (last (el_rows l)) < ev_id e) (el_rows l @ new)) = map ev_id new"
    by (simp add: filter_map comp_def new(1))
  moreover have "inj_on ev_id (set (filter (\<lambda>e. ev_id (last (el_rows l)) < ev_id e) (el_rows l @ new)) \<union> set new)"
  proof (rule inj_on_subset)
    show "inj_on ev_id (set (el_rows l @ new))"
      using ok unfolding log_ok_def strict_sorted_iff new(1) [symmetric] by (simp add: distinct_map)
  qed auto
  ultimately have later: "filter (\<lambda>e. ev_id (last (el_rows l)) < ev_id e) (el_rows l @ new) = new"
    by (rule map_inj_on)
  have "get_events c (Some (ev_id (last (el_rows l)))) types None ?l =
      filter (\<lambda>e. (c = None \<or> ev_contract e = c) \<and> (types = [] \<or> ev_type e \<in> set types))
        (filter (\<lambda>e. ev_id (last (el_rows l)) < ev_id e) (el_rows l @ new))"
    by (cases c) (simp_all add: get_events_def new(1) conj_commute conj_left_commute del: filter_append)
  with later new ok show ?thesis by auto
qed

theorem event_cursor_exact_witness:
  "get_events None (Some 1) [] None (fold (\<lambda>n l. snd (append_event n l)) [event_call None PLAN_REJECTED [] 5]
     (snd (append_event (event_call (Some ''c'') PLAN_APPROVED [] 4) empty_log)))
   = [stored_event 2 (event_call None PLAN_REJECTED [] 5)]"
proof -
  let ?l = "snd (append_event (event_call (Some ''c'') PLAN_APPROVED [] 4) empty_log)"
  have ok: "log_ok ?l" by (rule log_ok_append [OF log_ok_empty])
  have ne: "el_rows ?l \<noteq> []" by simp
  from event_cursor_exact [OF ok ne, of "[event_call None PLAN_REJECTED [] 5]" None "[]"]
  show ?thesis by (auto simp: empty_log_def)
qed

end
