(* ===== verification/Notifications.thy ===== *)
theory Notifications
  imports Event_Log Contract_Values "HOL-Library.Product_Lexorder"
begin

text \<open>
  \<open>longtask/persistence/notifications.py\<close> and the notification rules of \<open>persistence/store.py\<close>: which
  state change notifies the user, when quiet hours let the notification out, and the outbox that delivers it
  at least once.

  Times are microseconds. The time zone database is the parameter \<open>tz\<close>: \<open>tz_local\<close> is
  \<open>now.astimezone(zone)\<close> as a wall clock (microseconds since the epoch on that clock; \<open>None\<close> for an
  unknown zone), \<open>tz_instant\<close> the way back. The channel is the parameter \<open>deliver\<close>; \<open>Some\<close> of a
  text is the exception it raised.
\<close>

section \<open>Which change notifies, and when\<close>

definition notification_kind :: "event_type \<Rightarrow> contract_state \<Rightarrow> string option" where
  "notification_kind raw state =
     (if state = Expired \<or> raw = CONTRACT_EXPIRED then Some ''missed''
      else if state = Complete \<or> raw \<in> {CONTRACT_COMPLETED, CONTRACT_SATISFIED} then Some ''satisfied''
      else if state = Blocked \<or> raw = ESCALATION_HANDED_TO_USER then Some ''need_user''
      else None)"

record tzdb =
  tz_local :: "string \<Rightarrow> int \<Rightarrow> int option"
  tz_instant :: "string \<Rightarrow> int \<Rightarrow> int"

definition SECOND :: int where "SECOND = 1000000"
definition MINUTE :: int where "MINUTE = 60 * SECOND"
definition DAY :: int where "DAY = 24 * 60 * MINUTE"

text \<open>\<open>h, m = (int(part) for part in text.split(":"))\<close> followed by \<open>time(h, m)\<close>, as minutes; \<open>None\<close> is the \<open>ValueError\<close>.\<close>

definition clock_minutes :: "string \<Rightarrow> int option" where
  "clock_minutes s = (case map parse_int (split_on CHR '':'' s) of
     [Some h, Some m] \<Rightarrow> if 0 \<le> h \<and> h < 24 \<and> 0 \<le> m \<and> m < 60 then Some (60 * h + m) else None
   | _ \<Rightarrow> None)"

definition in_quiet :: "int \<Rightarrow> int \<Rightarrow> int \<Rightarrow> bool" where
  "in_quiet start stop local_time =
     (if start \<le> stop then start \<le> local_time \<and> local_time < stop else start \<le> local_time \<or> local_time < stop)"

text \<open>The end of the quiet window on the wall clock, given the wall clock now and the window in microseconds.\<close>

definition quiet_end :: "int \<Rightarrow> int \<Rightarrow> int \<Rightarrow> int" where
  "quiet_end start stop wall = (let date = wall div DAY; local_time = wall mod DAY in
     (if stop < start \<and> start \<le> local_time then date + 1 else date) * DAY + stop)"

definition notification_available_at :: "tzdb \<Rightarrow> attention \<Rightarrow> string \<Rightarrow> int \<Rightarrow> int" where
  "notification_available_at tz a kind now = (case at_quiet_hours a of
     None \<Rightarrow> now
   | Some quiet \<Rightarrow>
       if kind \<in> set (at_bypass_quiet_hours_on a) then now
       else
         let utc = qh_timezone quiet \<in> {''UTC'', ''Etc/UTC''};
             local_now = (if utc then Some now else tz_local tz (qh_timezone quiet) now) in
         (case (local_now, clock_minutes (qh_start quiet), clock_minutes (qh_end quiet)) of
            (Some wall, Some s, Some e) \<Rightarrow>
              if \<not> in_quiet (s * MINUTE) (e * MINUTE) (wall mod DAY) then now
              else (let t = quiet_end (s * MINUTE) (e * MINUTE) wall in
                    if utc then t else tz_instant tz (qh_timezone quiet) t)
          | _ \<Rightarrow> now))"

section \<open>The outbox\<close>

datatype notification_status = NPending | NLeased | NSent

record notification =
  nf_id :: int
  nf_key :: string
  nf_goal :: "string option"
  nf_type :: string
  nf_channel :: string
  nf_payload :: dict
  nf_status :: notification_status
  nf_attempts :: int
  nf_available :: int
  nf_lease_until :: "int option"
  nf_error :: "string option"
  nf_updated :: int

record outbox =
  ob_rows :: "notification list"
  ob_next :: int

definition empty_outbox :: outbox where
  "empty_outbox = \<lparr>ob_rows = [], ob_next = 1\<rparr>"

definition get_by_key :: "outbox \<Rightarrow> string \<Rightarrow> notification option" where
  "get_by_key ob key = find (\<lambda>n. nf_key n = key) (ob_rows ob)"

definition enqueue_notification ::
  "string \<Rightarrow> string \<Rightarrow> string \<Rightarrow> dict \<Rightarrow> int \<Rightarrow> string option \<Rightarrow> int option \<Rightarrow> outbox \<Rightarrow> py_error + outbox" where
  "enqueue_notification key typ channel payload now goal_id available_at ob =
     (if is_blank key \<or> is_blank typ \<or> is_blank channel
      then Inl (ValueError ''idempotency_key, event_type and channel must be non-empty'')
      else if get_by_key ob key \<noteq> None then Inr ob
      else Inr \<lparr>ob_rows = ob_rows ob @ [\<lparr>nf_id = ob_next ob, nf_key = key, nf_goal = goal_id, nf_type = typ,
             nf_channel = channel, nf_payload = payload, nf_status = NPending, nf_attempts = 0,
             nf_available = (case available_at of None \<Rightarrow> now | Some t \<Rightarrow> t), nf_lease_until = None,
             nf_error = None, nf_updated = now\<rparr>],
           ob_next = ob_next ob + 1\<rparr>)"

definition is_due :: "int \<Rightarrow> notification \<Rightarrow> bool" where
  "is_due now n = ((nf_status n = NPending \<and> nf_available n \<le> now) \<or>
     (nf_status n = NLeased \<and> (case nf_lease_until n of None \<Rightarrow> False | Some t \<Rightarrow> t \<le> now)))"

definition due_ids :: "int \<Rightarrow> int \<Rightarrow> outbox \<Rightarrow> int list" where
  "due_ids now limit ob = map nf_id (sql_limit limit (sort_key (\<lambda>n. (nf_available n, nf_id n)) (filter (is_due now) (ob_rows ob))))"

definition lease_notification :: "int \<Rightarrow> int \<Rightarrow> notification \<Rightarrow> notification" where
  "lease_notification now lease_until n = n\<lparr>nf_status := NLeased, nf_attempts := nf_attempts n + 1,
     nf_lease_until := Some lease_until, nf_updated := now\<rparr>"

definition list_by_ids :: "int list \<Rightarrow> outbox \<Rightarrow> notification list" where
  "list_by_ids ids ob = sort_key nf_id (filter (\<lambda>n. nf_id n \<in> set ids) (ob_rows ob))"

definition claim_notifications :: "int \<Rightarrow> int \<Rightarrow> int \<Rightarrow> outbox \<Rightarrow> py_error + notification list \<times> outbox" where
  "claim_notifications now lease_seconds limit ob =
     (if lease_seconds \<le> 0 \<or> limit \<le> 0 then Inl (ValueError ''lease_seconds and limit must be positive'')
      else
        (let ids = due_ids now limit ob;
             ob' = ob\<lparr>ob_rows := map (\<lambda>n. if nf_id n \<in> set ids
                 then lease_notification now (now + lease_seconds * SECOND) n else n) (ob_rows ob)\<rparr> in
         Inr (list_by_ids ids ob', ob')))"

definition mark_sent :: "int \<Rightarrow> int \<Rightarrow> outbox \<Rightarrow> outbox" where
  "mark_sent notification_id now ob = ob\<lparr>ob_rows := map (\<lambda>n.
     if nf_id n = notification_id \<and> nf_status n = NLeased
     then n\<lparr>nf_status := NSent, nf_lease_until := None, nf_updated := now\<rparr> else n) (ob_rows ob)\<rparr>"

definition mark_failed :: "int \<Rightarrow> int \<Rightarrow> string \<Rightarrow> int \<Rightarrow> outbox \<Rightarrow> outbox" where
  "mark_failed notification_id now err retry_at ob = ob\<lparr>ob_rows := map (\<lambda>n.
     if nf_id n = notification_id \<and> nf_status n = NLeased
     then n\<lparr>nf_status := NPending, nf_lease_until := None, nf_available := retry_at, nf_error := Some err,
            nf_updated := now\<rparr> else n) (ob_rows ob)\<rparr>"

definition prune_sent :: "int \<Rightarrow> int \<Rightarrow> outbox \<Rightarrow> py_error + nat \<times> outbox" where
  "prune_sent before keep_latest ob =
     (if keep_latest < 0 then Inl (ValueError ''keep_latest must be non-negative'')
      else
        (let kept = take (nat keep_latest) (rev (sort_key nf_id (filter (\<lambda>n. nf_status n = NSent) (ob_rows ob))));
             rows = filter (\<lambda>n. \<not> (nf_status n = NSent \<and> nf_updated n < before \<and> nf_id n \<notin> nf_id ` set kept)) (ob_rows ob) in
         Inr (length (ob_rows ob) - length rows, ob\<lparr>ob_rows := rows\<rparr>)))"

fun drain_loop :: "(notification \<Rightarrow> string option) \<Rightarrow> int \<Rightarrow> int \<Rightarrow> notification list \<Rightarrow> nat \<times> outbox \<Rightarrow> nat \<times> outbox" where
  "drain_loop deliver now retry_at [] st = st"
| "drain_loop deliver now retry_at (n # ns) (sent, ob) = (case deliver n of
     Some exc \<Rightarrow> drain_loop deliver now retry_at ns (sent, mark_failed (nf_id n) now exc retry_at ob)
   | None \<Rightarrow> drain_loop deliver now retry_at ns (Suc sent, mark_sent (nf_id n) now ob))"

definition drain_notifications ::
  "(notification \<Rightarrow> string option) \<Rightarrow> int \<Rightarrow> int \<Rightarrow> int \<Rightarrow> outbox \<Rightarrow> py_error + nat \<times> outbox" where
  "drain_notifications deliver now limit retry_delay_seconds ob =
     sbind (claim_notifications now 300 limit ob) (\<lambda>(claimed, ob').
       Inr (drain_loop deliver now (now + retry_delay_seconds * SECOND) claimed (0, ob')))"

section \<open>Lemmas\<close>

text \<open>What a drain makes of one claimed row.\<close>

definition settled_row :: "(notification \<Rightarrow> string option) \<Rightarrow> int \<Rightarrow> int \<Rightarrow> notification \<Rightarrow> notification" where
  "settled_row deliver now retry_at n = (case deliver n of
     Some exc \<Rightarrow> n\<lparr>nf_status := NPending, nf_lease_until := None, nf_available := retry_at, nf_error := Some exc,
                    nf_updated := now\<rparr>
   | None \<Rightarrow> n\<lparr>nf_status := NSent, nf_lease_until := None, nf_updated := now\<rparr>)"

definition outbox_ok :: "outbox \<Rightarrow> bool" where
  "outbox_ok ob \<longleftrightarrow> distinct (map nf_id (ob_rows ob)) \<and> (\<forall>n \<in> set (ob_rows ob). nf_id n < ob_next ob) \<and>
     distinct (map nf_key (ob_rows ob))"

lemma drain_loop_rows:
  assumes "distinct (map nf_id ns)" and "set ns \<subseteq> set (ob_rows ob)" and "\<forall>n \<in> set ns. nf_status n = NLeased"
    and "distinct (map nf_id (ob_rows ob))"
  shows "ob_rows (snd (drain_loop deliver now retry_at ns (k, ob))) =
      map (\<lambda>r. if nf_id r \<in> nf_id ` set ns then settled_row deliver now retry_at r else r) (ob_rows ob) \<and>
    fst (drain_loop deliver now retry_at ns (k, ob)) = k + length (filter (\<lambda>n. deliver n = None) ns)"
  using assms
proof (induction ns arbitrary: k ob)
  case (Cons n ns)
  define step where "step = (\<lambda>r. if nf_id r = nf_id n then settled_row deliver now retry_at r else r)"
  define ob1 where "ob1 = ob\<lparr>ob_rows := map step (ob_rows ob)\<rparr>"
  have same: "r = n" if "r \<in> set (ob_rows ob)" "nf_id r = nf_id n" for r
    using Cons.prems(2,4) that by (auto simp: distinct_map inj_on_def)
  have rows: "ob_rows (case deliver n of Some exc \<Rightarrow> mark_failed (nf_id n) now exc retry_at ob | None \<Rightarrow> mark_sent (nf_id n) now ob)
      = map step (ob_rows ob)"
    using Cons.prems(3)
    by (cases "deliver n") (auto simp: mark_failed_def mark_sent_def step_def settled_row_def dest: same)
  then have ob1: "(case deliver n of Some exc \<Rightarrow> mark_failed (nf_id n) now exc retry_at ob | None \<Rightarrow> mark_sent (nf_id n) now ob) = ob1"
    by (auto simp: ob1_def mark_failed_def mark_sent_def split: option.splits)
  have ids: "nf_id (step r) = nf_id r" for r
    by (simp add: step_def settled_row_def split: option.splits)
  have untouched: "step m = m" if m: "m \<in> set ns" for m
  proof -
    have "nf_id m \<in> nf_id ` set ns" using m by (rule imageI)
    with Cons.prems(1) have "nf_id m \<noteq> nf_id n" by auto
    then show ?thesis by (simp add: step_def)
  qed
  have loop: "drain_loop deliver now retry_at (n # ns) (k, ob) =
      drain_loop deliver now retry_at ns ((if deliver n = None then Suc k else k), ob1)"
    using ob1 by (cases "deliver n") simp_all
  have IH: "ob_rows (snd (drain_loop deliver now retry_at ns (j, ob1))) =
      map (\<lambda>r. if nf_id r \<in> nf_id ` set ns then settled_row deliver now retry_at r else r) (ob_rows ob1) \<and>
    fst (drain_loop deliver now retry_at ns (j, ob1)) = j + length (filter (\<lambda>n. deliver n = None) ns)" for j
  proof (rule Cons.IH)
    show "set ns \<subseteq> set (ob_rows ob1)"
      using Cons.prems(2) untouched by (force simp: ob1_def image_iff)
    show "distinct (map nf_id (ob_rows ob1))" using Cons.prems(4) ids by (simp add: ob1_def comp_def)
  qed (use Cons.prems in auto)
  have "nf_id n \<notin> nf_id ` set ns" using Cons.prems(1) by auto
  then show ?case
    unfolding loop using IH ids by (auto simp: ob1_def step_def)
qed simp

lemma settled_row_id [simp]: "nf_id (settled_row deliver now retry_at n) = nf_id n"
  by (simp add: settled_row_def split: option.splits)

lemma lease_notification_simps [simp]:
  "nf_id (lease_notification now t n) = nf_id n" "nf_status (lease_notification now t n) = NLeased"
  "nf_key (lease_notification now t n) = nf_key n"
  by (simp_all add: lease_notification_def)

lemma sql_limit_subset: "set (sql_limit n xs) \<subseteq> set xs"
  by (auto simp: sql_limit_def dest: in_set_takeD)

lemma outbox_ok_enqueue [inv_intros]:
  assumes "outbox_ok ob" and "enqueue_notification key typ channel payload now g available ob = Inr ob'"
  shows "outbox_ok ob'"
  using assms
  by (fastforce simp: enqueue_notification_def outbox_ok_def get_by_key_def find_None_all split: if_splits)

lemma length_filter_sort: "length (filter P (sort_key f xs)) = length (filter P xs)"
  by (simp add: filter_sort)

section \<open>Properties\<close>

text \<open>
  C40: A drain loses nothing and hands over what it claims. A drain of a well-formed outbox keeps every row; it claims the first
  \<open>limit\<close> of the due rows, those whose earlier claim ran out included. A claimed row is sent if
  the channel took it and otherwise pending again with the error, due once the retry delay is over, with one more
  attempt counted; all other rows, the due ones beyond the limit included, are unchanged; and the returned number is that of the rows sent.
\<close>

theorem drain_delivers_at_least_once:
  assumes "outbox_ok ob" and "drain_notifications deliver now limit delay ob = Inr (k, ob')"
  shows "ob_rows ob' = map (\<lambda>r. if nf_id r \<in> set (due_ids now limit ob)
      then settled_row deliver now (now + delay * SECOND) (lease_notification now (now + 300 * SECOND) r) else r) (ob_rows ob) \<and>
    k = length (filter (\<lambda>r. nf_id r \<in> set (due_ids now limit ob) \<and>
      deliver (lease_notification now (now + 300 * SECOND) r) = None) (ob_rows ob))"
proof -
  define ids where "ids = due_ids now limit ob"
  define lease where "lease = lease_notification now (now + 300 * SECOND)"
  define ob1 where "ob1 = ob\<lparr>ob_rows := map (\<lambda>n. if nf_id n \<in> set ids then lease n else n) (ob_rows ob)\<rparr>"
  define claimed where "claimed = list_by_ids ids ob1"
  have lease_id [simp]: "nf_id (lease r) = nf_id r" "nf_status (lease r) = NLeased" for r by (simp_all add: lease_def)
  have d: "distinct (map nf_id (ob_rows ob1))"
    using assms(1) by (simp add: outbox_ok_def ob1_def comp_def if_distrib cong: if_cong)
  have cl: "set claimed = {r \<in> set (ob_rows ob1). nf_id r \<in> set ids}" by (auto simp: claimed_def list_by_ids_def)
  have "distinct (map nf_id (filter (\<lambda>n. nf_id n \<in> set ids) (ob_rows ob1)))"
    using d by (simp add: distinct_map_filter)
  then have dc: "distinct (map nf_id claimed)"
    unfolding claimed_def list_by_ids_def by (metis distinct_map distinct_sort set_sort)
  have drain: "drain_loop deliver now (now + delay * SECOND) claimed (0, ob1) = (k, ob')"
    using assms(2) unfolding claimed_def ob1_def ids_def lease_def
    by (simp add: drain_notifications_def claim_notifications_def Let_def split: if_splits)
  have "\<forall>n \<in> set claimed. nf_status n = NLeased" by (auto simp: cl ob1_def)
  then have result: "ob_rows ob' = map (\<lambda>r. if nf_id r \<in> nf_id ` set claimed then settled_row deliver now (now + delay * SECOND) r else r) (ob_rows ob1)"
    "k = length (filter (\<lambda>n. deliver n = None) claimed)"
    using drain_loop_rows [OF dc _ _ d, of deliver now "now + delay * SECOND" 0] drain cl by auto
  have "nf_id r \<in> nf_id ` set claimed \<longleftrightarrow> nf_id r \<in> set ids" if "r \<in> set (ob_rows ob1)" for r
    using that by (auto simp: cl)
  then have "ob_rows ob' = map (\<lambda>r. if nf_id r \<in> set ids then settled_row deliver now (now + delay * SECOND) (lease r) else r) (ob_rows ob)"
    unfolding result(1) by (auto simp: ob1_def)
  moreover have "k = length (filter (\<lambda>r. nf_id r \<in> set ids \<and> deliver (lease r) = None) (ob_rows ob))"
  proof -
    have "length (filter (\<lambda>n. deliver n = None) claimed) =
        length (filter (\<lambda>n. deliver n = None) (filter (\<lambda>n. nf_id n \<in> set ids) (ob_rows ob1)))"
      by (simp only: claimed_def list_by_ids_def length_filter_sort)
    also have "\<dots> = length (filter (\<lambda>r. nf_id r \<in> set ids \<and> deliver (lease r) = None) (ob_rows ob))"
      by (simp add: ob1_def filter_map comp_def) (metis (no_types, lifting) lease_id(1))
    finally show ?thesis using result(2) by simp
  qed
  ultimately show ?thesis unfolding ids_def lease_def by blast
qed

definition sample_outbox :: outbox where
  "sample_outbox = \<lparr>ob_rows = [
     \<lparr>nf_id = 1, nf_key = ''k1'', nf_goal = None, nf_type = ''missed'', nf_channel = ''local'', nf_payload = [],
      nf_status = NLeased, nf_attempts = 1, nf_available = 0, nf_lease_until = Some 5, nf_error = None, nf_updated = 0\<rparr>,
     \<lparr>nf_id = 2, nf_key = ''k2'', nf_goal = None, nf_type = ''satisfied'', nf_channel = ''local'', nf_payload = [],
      nf_status = NPending, nf_attempts = 0, nf_available = 7, nf_lease_until = None, nf_error = None, nf_updated = 0\<rparr>],
     ob_next = 3\<rparr>"

theorem drain_delivers_at_least_once_witness:
  "map nf_status (ob_rows (snd (projr (drain_notifications (\<lambda>n. if nf_id n = 2 then Some ''down'' else None) 10 20 60 sample_outbox))))
     = [NSent, NPending]"
proof -
  let ?d = "\<lambda>n. if nf_id n = 2 then Some ''down'' else None"
  have ok: "outbox_ok sample_outbox" by (simp add: outbox_ok_def sample_outbox_def)
  obtain k ob' where r: "drain_notifications ?d 10 20 60 sample_outbox = Inr (k, ob')"
    by (cases "drain_loop ?d 10 (10 + 60 * SECOND) (fst (projr (claim_notifications 10 300 20 sample_outbox)))
        (0, snd (projr (claim_notifications 10 300 20 sample_outbox)))")
      (simp add: drain_notifications_def claim_notifications_def Let_def)
  have due: "due_ids 10 20 sample_outbox = [1, 2]"
    by (simp add: due_ids_def sample_outbox_def is_due_def sql_limit_def)
  from drain_delivers_at_least_once [OF ok r] show ?thesis
    by (simp add: r due) (simp add: sample_outbox_def settled_row_def)
qed

text \<open>
  Quiet hours delay a notification, they never drop or hasten it. In UTC, a notification of a
  kind that does not bypass them becomes available now or, inside the window, less than a day later at the
  end of the window, which is outside the window; a bypassing kind, and every kind when there are no quiet hours,
  is available at once.
\<close>

theorem quiet_hours_only_defer:
  assumes "at_quiet_hours a = Some q" and "qh_timezone q = ''UTC''"
    and "clock_minutes (qh_start q) = Some s" and "clock_minutes (qh_end q) = Some e"
  shows "now \<le> notification_available_at tz a kind now \<and> notification_available_at tz a kind now < now + DAY \<and>
    (kind \<in> set (at_bypass_quiet_hours_on a) \<longrightarrow> notification_available_at tz a kind now = now) \<and>
    (kind \<notin> set (at_bypass_quiet_hours_on a) \<longrightarrow>
       \<not> in_quiet (s * MINUTE) (e * MINUTE) (notification_available_at tz a kind now mod DAY)) \<and>
    notification_available_at tz (a\<lparr>at_quiet_hours := None\<rparr>) kind now = now"
proof -
  have range: "0 \<le> m \<and> m < 24 * 60" if "clock_minutes t = Some m" for t m
    using that by (auto simp: clock_minutes_def split: list.splits option.splits if_splits)
  define S E where "S = s * MINUTE" and "E = e * MINUTE"
  have SE: "0 \<le> S" "S < DAY" "0 \<le> E" "E < DAY"
    using range [OF assms(3)] range [OF assms(4)] by (simp_all add: S_def E_def MINUTE_def DAY_def SECOND_def)
  define k r where "k = now div DAY" and "r = now mod DAY"
  have now: "now = k * DAY + r" "0 \<le> r" "r < DAY"
    by (simp_all add: k_def r_def DAY_def MINUTE_def SECOND_def)
  have E_mod: "(j * DAY + E) mod DAY = E" "(j * DAY + E + DAY) mod DAY = E" for j
    using SE by (simp_all add: mod_pos_pos_trivial)
  define t where "t = quiet_end S E now"
  have q: "t = k * DAY + E + (if E < S \<and> S \<le> r then DAY else 0)"
    by (simp add: t_def quiet_end_def Let_def k_def r_def distrib_right)
  have t: "now \<le> t \<and> t < now + DAY \<and> t mod DAY = E" if "in_quiet S E (now mod DAY)"
  proof -
    have "in_quiet S E r" using that by (simp add: r_def)
    then have "now \<le> t \<and> t < now + DAY" using SE now by (auto simp: q in_quiet_def split: if_splits)
    moreover have "t mod DAY = E" using E_mod by (simp add: q)
    ultimately show ?thesis by simp
  qed
  have "\<not> in_quiet S E E" by (simp add: in_quiet_def)
  moreover have "notification_available_at tz a kind now =
      (if kind \<in> set (at_bypass_quiet_hours_on a) \<or> \<not> in_quiet S E (now mod DAY) then now else t)"
    by (simp add: notification_available_at_def assms t_def S_def E_def Let_def)
  ultimately show ?thesis
    using t SE by (simp add: notification_available_at_def S_def [symmetric] E_def [symmetric])
qed

definition sample_tz :: tzdb where
  "sample_tz = \<lparr>tz_local = (\<lambda>name t. if name = ''UTC'' then Some t else None), tz_instant = (\<lambda>name t. t)\<rparr>"

theorem quiet_hours_only_defer_witness:
  "notification_available_at sample_tz \<lparr>at_notify_on = [], at_quiet_hours = Some \<lparr>qh_start = ''22:30'', qh_end = ''07:00'',
      qh_timezone = ''UTC''\<rparr>, at_bypass_quiet_hours_on = []\<rparr> ''missed'' (23 * 60 * MINUTE) < 23 * 60 * MINUTE + DAY"
proof -
  let ?a = "\<lparr>at_notify_on = [], at_quiet_hours = Some \<lparr>qh_start = ''22:30'', qh_end = ''07:00'', qh_timezone = ''UTC''\<rparr>,
     at_bypass_quiet_hours_on = []\<rparr>"
  have q: "at_quiet_hours ?a = Some \<lparr>qh_start = ''22:30'', qh_end = ''07:00'', qh_timezone = ''UTC''\<rparr>" by simp
  have s: "clock_minutes (qh_start \<lparr>qh_start = ''22:30'', qh_end = ''07:00'', qh_timezone = ''UTC''\<rparr>) = Some 1350"
    and e: "clock_minutes (qh_end \<lparr>qh_start = ''22:30'', qh_end = ''07:00'', qh_timezone = ''UTC''\<rparr>) = Some 420"
    by (simp_all add: clock_minutes_def split_on_def parse_int_def strip_def lstrip_def is_space_def digit_val_def Let_def)
  show ?thesis using quiet_hours_only_defer [OF q _ s e, of "23 * 60 * MINUTE" sample_tz "''missed''"] by simp
qed

text \<open>
  The idempotency key is one. Enqueueing keeps the ids and the keys of the outbox distinct and, once
  a key is in it, any further enqueue under that key - whatever its payload, kind, time or channel -
  leaves the outbox as it is.
\<close>

theorem enqueue_is_idempotent:
  assumes "outbox_ok ob" and "enqueue_notification key typ channel payload now g available ob = Inr ob'"
    and "\<not> is_blank typ'" and "\<not> is_blank channel'"
  shows "outbox_ok ob' \<and> enqueue_notification key typ' channel' payload' now' g' available' ob' = Inr ob' \<and>
    (\<exists>n. get_by_key ob' key = Some n \<and> (\<forall>m \<in> set (ob_rows ob'). nf_key m = key \<longrightarrow> m = n))"
proof -
  have ok: "outbox_ok ob'" using outbox_ok_enqueue [OF assms(1,2)] .
  have "get_by_key ob' key \<noteq> None"
    using assms(2) by (auto simp: enqueue_notification_def get_by_key_def find_None_all split: if_splits)
  then obtain n where n: "get_by_key ob' key = Some n" by blast
  then have "n \<in> set (ob_rows ob')" "nf_key n = key" by (auto simp: get_by_key_def dest: find_Some_in)
  then have "\<forall>m \<in> set (ob_rows ob'). nf_key m = key \<longrightarrow> m = n"
    using ok by (auto simp: outbox_ok_def distinct_map inj_on_def)
  moreover have "\<not> is_blank key" using assms(2) by (auto simp: enqueue_notification_def split: if_splits)
  ultimately show ?thesis using ok n assms(3,4) by (simp add: enqueue_notification_def)
qed

theorem enqueue_is_idempotent_witness:
  "\<forall>ob'. enqueue_notification ''k3'' ''missed'' ''local'' [] 0 None None sample_outbox = Inr ob' \<longrightarrow>
     enqueue_notification ''k3'' ''satisfied'' ''mail'' [(''a'', JNull)] 9 None (Some 4) ob' = Inr ob'"
proof (intro allI impI)
  fix ob'
  assume e: "enqueue_notification ''k3'' ''missed'' ''local'' [] 0 None None sample_outbox = Inr ob'"
  have ok: "outbox_ok sample_outbox" by (simp add: outbox_ok_def sample_outbox_def)
  have b: "\<not> is_blank ''satisfied''" "\<not> is_blank ''mail''" by (simp_all add: is_blank_iff is_space_def)
  show "enqueue_notification ''k3'' ''satisfied'' ''mail'' [(''a'', JNull)] 9 None (Some 4) ob' = Inr ob'"
    using enqueue_is_idempotent [OF ok e b] by blast
qed

end
