(* ===== verification/State_Machine.thy ===== *)
theory State_Machine
  imports Contract_View
begin

text \<open>
  \<open>lhgp/contracts/state_machine.py\<close>: the transition tables and the four transition predicates.
  The locale \<open>lifecycle\<close> states what callers rely on in a table (terminal states are final, every
  other state can be left) and proves what follows for a recorded history; it is interpreted on
  the contract table (\<open>contract_lc\<close>) and on the attempt table (\<open>attempt_lc\<close>).
\<close>

section \<open>Lifecycles\<close>

locale lifecycle =
  fixes legal :: "'s \<Rightarrow> 's \<Rightarrow> bool"
    and terminal :: "'s \<Rightarrow> bool"
  assumes terminal_final: "terminal s \<Longrightarrow> \<not> legal s t"
    and nonterminal_exit: "\<not> terminal s \<Longrightarrow> \<exists>t. legal s t"
begin

text \<open>A history is legal when each entry repeats the one before or is a legal transition from it.\<close>

fun history :: "'s list \<Rightarrow> bool" where
  "history [] = True"
| "history [s] = True"
| "history (s # t # ss) = ((s = t \<or> legal s t) \<and> history (t # ss))"

lemma history_snoc:
  "history (ss @ [s]) \<Longrightarrow> s = t \<or> legal s t \<Longrightarrow> history (ss @ [s, t])"
  by (induction ss rule: history.induct) auto

lemma history_ConsD: "history (s # ss) \<Longrightarrow> history ss"
  by (cases ss) auto

lemma history_appendD: "history (ss @ ts) \<Longrightarrow> history ts"
  by (induction ss) (auto dest: history_ConsD)

lemma terminal_history_constant: "history (s # ss) \<Longrightarrow> terminal s \<Longrightarrow> \<forall>t \<in> set ss. t = s"
proof (induction ss)
  case Nil
  then show ?case by simp
next
  case (Cons t ss)
  then have "t = s" using terminal_final by auto
  with Cons show ?case by auto
qed

text \<open>Once a terminal state is recorded, everything recorded later is that state.\<close>

lemma terminal_absorbs:
  assumes "history (ss @ [s] @ ts)" and "terminal s" and "t \<in> set ts"
  shows "t = s"
  using terminal_history_constant [of s ts] history_appendD [of ss "[s] @ ts"] assms by auto

lemma history_last_terminal:
  assumes "history (ss @ [s])" and "t \<in> set ss" and "terminal t"
  shows "s = t"
proof -
  from \<open>t \<in> set ss\<close> obtain us vs where "ss = us @ t # vs" by (auto simp: in_set_conv_decomp)
  with assms(1) have "history (us @ [t] @ (vs @ [s]))" by simp
  then show ?thesis using \<open>terminal t\<close> by (rule terminal_absorbs) simp
qed

text \<open>Reachability in the table.\<close>

inductive reaches :: "'s \<Rightarrow> 's \<Rightarrow> bool" where
  reaches_refl: "reaches s s"
| reaches_step: "reaches s t \<Longrightarrow> legal t u \<Longrightarrow> reaches s u"

lemma reaches_terminal: "reaches s t \<Longrightarrow> terminal s \<Longrightarrow> t = s"
  by (induction rule: reaches.induct) (auto dest: terminal_final)

lemma history_reaches: "history (s # ss) \<Longrightarrow> reaches s (last (s # ss))"
proof (induction ss rule: rev_induct)
  case Nil
  then show ?case by (simp add: reaches_refl)
next
  case (snoc t ss)
  have split: "s # ss @ [t] = butlast (s # ss) @ [last (s # ss), t]"
    by (metis append_Cons append_assoc append_butlast_last_id append_Nil list.distinct(1))
  from snoc.prems have "history ([last (s # ss), t])"
    using history_appendD [of "butlast (s # ss)"] split by metis
  then have "last (s # ss) = t \<or> legal (last (s # ss)) t" by simp
  moreover have "history (s # ss)"
    using snoc.prems by (induction "s # ss" arbitrary: s ss rule: history.induct) auto
  ultimately show ?case using snoc.IH by (auto intro: reaches_step)
qed

end

section \<open>The contract table\<close>

definition TERMINAL_STATES :: "contract_state set" where
  "TERMINAL_STATES = {Complete, Satisfied, Cancelled, Archived}"

definition NON_TERMINAL_STATES :: "contract_state set" where
  "NON_TERMINAL_STATES = {Drafted, Active, Paused, Blocked, Expired}"

fun LEGAL_TRANSITIONS :: "contract_state \<Rightarrow> contract_state set" where
  "LEGAL_TRANSITIONS Drafted = {Active, Cancelled}"
| "LEGAL_TRANSITIONS Active = {Paused, Blocked, Satisfied, Complete, Expired, Cancelled}"
| "LEGAL_TRANSITIONS Paused = {Active, Cancelled}"
| "LEGAL_TRANSITIONS Blocked = {Active, Satisfied, Complete, Archived, Expired, Cancelled}"
| "LEGAL_TRANSITIONS Expired = {Satisfied, Complete, Archived, Active, Cancelled}"
| "LEGAL_TRANSITIONS Satisfied = {}"
| "LEGAL_TRANSITIONS Complete = {}"
| "LEGAL_TRANSITIONS Cancelled = {}"
| "LEGAL_TRANSITIONS Archived = {}"

definition is_terminal_state :: "contract_state \<Rightarrow> bool" where
  "is_terminal_state s \<longleftrightarrow> s \<in> TERMINAL_STATES"

definition is_valid_transition :: "contract_state \<Rightarrow> contract_state \<Rightarrow> bool" where
  "is_valid_transition from_state to_state \<longleftrightarrow> to_state \<in> LEGAL_TRANSITIONS from_state"

lemmas contract_table = TERMINAL_STATES_def NON_TERMINAL_STATES_def is_terminal_state_def
  is_valid_transition_def

lemma contract_states_partition:
  "TERMINAL_STATES \<union> NON_TERMINAL_STATES = UNIV" "TERMINAL_STATES \<inter> NON_TERMINAL_STATES = {}"
proof -
  have "s \<in> TERMINAL_STATES \<union> NON_TERMINAL_STATES" for s
    by (cases s) (simp_all add: contract_table)
  then show "TERMINAL_STATES \<union> NON_TERMINAL_STATES = UNIV" by blast
qed (auto simp: contract_table)

lemma legal_irrefl [simp]: "\<not> is_valid_transition s s"
  by (cases s) (simp_all add: contract_table)

lemma cancel_always_legal:
  "is_valid_transition s Cancelled \<longleftrightarrow> \<not> is_terminal_state s"
  by (cases s) (simp_all add: contract_table)

interpretation contract_lc: lifecycle is_valid_transition is_terminal_state
proof
  fix s t :: contract_state
  show "is_terminal_state s \<Longrightarrow> \<not> is_valid_transition s t"
    by (cases s) (simp_all add: contract_table)
  show "\<not> is_terminal_state s \<Longrightarrow> \<exists>t. is_valid_transition s t"
    using cancel_always_legal by blast
qed

section \<open>The attempt table\<close>

definition ATTEMPT_TERMINAL_STATES :: "attempt_state list" where
  "ATTEMPT_TERMINAL_STATES = [Succeeded, Failed, AttemptCancelled, Stale, Orphaned]"

text \<open>\<open>frozenset(AttemptState) - ATTEMPT_TERMINAL_STATES\<close>.\<close>

definition ATTEMPT_NON_TERMINAL_STATES :: "attempt_state list" where
  "ATTEMPT_NON_TERMINAL_STATES = filter (\<lambda>s. s \<notin> set ATTEMPT_TERMINAL_STATES) attempt_states"

fun ATTEMPT_LEGAL_TRANSITIONS :: "attempt_state \<Rightarrow> attempt_state set" where
  "ATTEMPT_LEGAL_TRANSITIONS Admitted =
     {Starting, Running, Failed, AttemptCancelled, Stale, Orphaned}"
| "ATTEMPT_LEGAL_TRANSITIONS Starting = {Running, Failed, AttemptCancelled, Stale, Orphaned}"
| "ATTEMPT_LEGAL_TRANSITIONS Running =
     {Waiting, Succeeded, Failed, AttemptCancelled, Stale, Orphaned}"
| "ATTEMPT_LEGAL_TRANSITIONS Waiting =
     {Running, Succeeded, Failed, AttemptCancelled, Stale, Orphaned}"
| "ATTEMPT_LEGAL_TRANSITIONS Succeeded = {}"
| "ATTEMPT_LEGAL_TRANSITIONS Failed = {}"
| "ATTEMPT_LEGAL_TRANSITIONS AttemptCancelled = {}"
| "ATTEMPT_LEGAL_TRANSITIONS Stale = {}"
| "ATTEMPT_LEGAL_TRANSITIONS Orphaned = {}"

definition is_terminal_attempt_state :: "attempt_state \<Rightarrow> bool" where
  "is_terminal_attempt_state s \<longleftrightarrow> s \<in> set ATTEMPT_TERMINAL_STATES"

definition is_valid_attempt_transition :: "attempt_state \<Rightarrow> attempt_state \<Rightarrow> bool" where
  "is_valid_attempt_transition from_state to_state \<longleftrightarrow> to_state \<in> ATTEMPT_LEGAL_TRANSITIONS from_state"

lemmas attempt_table = ATTEMPT_TERMINAL_STATES_def is_terminal_attempt_state_def
  is_valid_attempt_transition_def

lemma attempt_non_terminal:
  "ATTEMPT_NON_TERMINAL_STATES = [Admitted, Starting, Running, Waiting]"
  by (simp add: ATTEMPT_NON_TERMINAL_STATES_def ATTEMPT_TERMINAL_STATES_def attempt_states_def)

lemma attempt_fail_always_legal:
  "is_valid_attempt_transition s Failed \<longleftrightarrow> \<not> is_terminal_attempt_state s"
  by (cases s) (simp_all add: attempt_table)

interpretation attempt_lc: lifecycle is_valid_attempt_transition is_terminal_attempt_state
proof
  fix s t :: attempt_state
  show "is_terminal_attempt_state s \<Longrightarrow> \<not> is_valid_attempt_transition s t"
    by (cases s) (simp_all add: attempt_table)
  show "\<not> is_terminal_attempt_state s \<Longrightarrow> \<exists>t. is_valid_attempt_transition s t"
    using attempt_fail_always_legal by blast
qed

section \<open>The deadline and acceptance axes\<close>

definition is_valid_deadline_transition ::
    "deadline_status \<Rightarrow> deadline_status \<Rightarrow> bool \<Rightarrow> bool" where
  "is_valid_deadline_transition from_status to_status deadline_passed =
     (if to_status = Waived then True
      else if deadline_passed \<and> to_status \<in> {NotDue, AtRisk} then False
      else \<not> (from_status = Missed \<and> to_status \<in> {NotDue, AtRisk}))"

definition is_valid_acceptance_transition :: "acceptance_status \<Rightarrow> acceptance_status \<Rightarrow> bool" where
  "is_valid_acceptance_transition from_status to_status =
     (if from_status = to_status then True
      else if from_status = Passed then False
      else if to_status = NotRequired then True
      else if to_status = AcceptanceFailed then from_status \<in> {Pending, Candidate, Verifying}
      else if to_status = Passed then from_status = Candidate
      else False)"

text \<open>What the acceptance axis can reach by legal transitions alone.\<close>

inductive acceptance_reach :: "acceptance_status \<Rightarrow> acceptance_status \<Rightarrow> bool" where
  acc_refl: "acceptance_reach a a"
| acc_step: "acceptance_reach a b \<Longrightarrow> is_valid_acceptance_transition b c \<Longrightarrow> acceptance_reach a c"

inductive_cases acceptance_reachE: "acceptance_reach a b"

lemma acceptance_reach_closed:
  assumes "acceptance_reach a b" and "a \<in> S"
    and "\<And>x y. x \<in> S \<Longrightarrow> is_valid_acceptance_transition x y \<Longrightarrow> y \<in> S"
  shows "b \<in> S"
  using assms by (induction rule: acceptance_reach.induct) auto

lemma passed_is_final: "is_valid_acceptance_transition Passed s \<longleftrightarrow> s = Passed"
  by (auto simp: is_valid_acceptance_transition_def)

lemma passed_only_from_candidate:
  "is_valid_acceptance_transition s Passed \<longleftrightarrow> s = Candidate \<or> s = Passed"
  by (auto simp: is_valid_acceptance_transition_def)

text \<open>Deadline statuses recorded while the deadline is already past.\<close>

fun late_history :: "deadline_status list \<Rightarrow> bool" where
  "late_history [] = True"
| "late_history [d] = True"
| "late_history (d # e # ds) = (is_valid_deadline_transition d e True \<and> late_history (e # ds))"

lemma late_history_tail: "late_history (d # ds) \<Longrightarrow> e \<in> set ds \<Longrightarrow> e \<notin> {NotDue, AtRisk}"
proof (induction ds arbitrary: d)
  case Nil
  then show ?case by simp
next
  case (Cons f ds)
  then have "f \<notin> {NotDue, AtRisk}"
    by (auto simp: is_valid_deadline_transition_def split: if_splits)
  with Cons show ?case by auto
qed

section \<open>Properties\<close>

text \<open>
  In every recorded history of contract states whose consecutive entries are equal or legal
  transitions, a terminal state (complete, satisfied, cancelled, archived) is final: every later
  entry is that same state. Conversely every non-terminal state can still be cancelled.
\<close>

theorem contract_terminal_final:
  assumes "contract_lc.history (before @ [s] @ after)" and "is_terminal_state s"
  shows "(\<forall>t \<in> set after. t = s) \<and> (\<forall>u. is_valid_transition u Cancelled = (\<not> is_terminal_state u))"
  using contract_lc.terminal_absorbs [OF assms] cancel_always_legal by blast

theorem contract_terminal_final_witness:
  "contract_lc.history ([Drafted, Active] @ [Complete] @ [Complete]) \<and> is_terminal_state Complete \<and>
   list_all (\<lambda>t. t = Complete) [Complete]"
proof -
  have h: "contract_lc.history ([Drafted, Active] @ [Complete] @ [Complete])"
    by (simp add: contract_table)
  have t: "is_terminal_state Complete" by (simp add: contract_table)
  show ?thesis using h t contract_terminal_final [OF h t] by (simp add: list_all_iff)
qed

text \<open>
  The acceptance predicate, taken by itself, lets a contract that starts at pending reach only
  pending, failed and not-required: neither candidate, nor verifying, nor passed is reachable. Only
  candidate may move to passed.
\<close>

theorem acceptance_reach_from_pending:
  "acceptance_reach Pending s \<longleftrightarrow> s \<in> {Pending, AcceptanceFailed, NotRequired}"
proof
  assume "acceptance_reach Pending s"
  then show "s \<in> {Pending, AcceptanceFailed, NotRequired}"
    by (rule acceptance_reach_closed)
      (auto simp: is_valid_acceptance_transition_def split: if_splits)
next
  have "acceptance_reach Pending t" if "is_valid_acceptance_transition Pending t" for t
    using acc_refl that by (rule acc_step)
  moreover assume "s \<in> {Pending, AcceptanceFailed, NotRequired}"
  ultimately show "acceptance_reach Pending s"
    by (auto simp: is_valid_acceptance_transition_def)
qed

text \<open>
  After the deadline has passed, no sequence of valid deadline transitions ever returns to
  not-due or at-risk; and a missed status can only become met or waived (or stay missed), whether
  or not the deadline has passed.
\<close>

theorem deadline_never_recovers:
  "(late_history (d # ds) \<longrightarrow> (\<forall>e \<in> set ds. e \<notin> {NotDue, AtRisk})) \<and>
   (is_valid_deadline_transition Missed e passed \<longleftrightarrow> e \<in> {Met, Missed, Waived})"
proof
  show "late_history (d # ds) \<longrightarrow> (\<forall>e \<in> set ds. e \<notin> {NotDue, AtRisk})"
    using late_history_tail by blast
  show "is_valid_deadline_transition Missed e passed \<longleftrightarrow> e \<in> {Met, Missed, Waived}"
    by (cases e) (simp_all add: is_valid_deadline_transition_def)
qed

theorem deadline_never_recovers_witness:
  "late_history [AtRisk, Missed, Waived] \<and> list_all (\<lambda>e. e \<notin> {NotDue, AtRisk}) [Missed, Waived]"
proof -
  have h: "late_history [AtRisk, Missed, Waived]"
    by (simp add: is_valid_deadline_transition_def)
  then show ?thesis
    using deadline_never_recovers [of AtRisk "[Missed, Waived]" Met True] unfolding list_all_iff by blast
qed

end
