(* ===== verification/Store_State.thy ===== *)
theory Store_State
  imports Draft Notifications State_Machine
begin

text \<open>
  The authoritative state: the rows of the SQLite tables of \<open>longtask/persistence/schema.py\<close> that the
  modelled operations read and write, the contract view of
  \<open>lhgp/contracts/contract_view_entity.py\<close>, the error hierarchy of \<open>lhgp/persistence/errors.py\<close> and
  the stored types of \<open>types.py\<close>.

  A table is an association list with its primary key in front, in insertion order; the revision table and
  the decision table only grow. A row holds the values that its columns encode: the JSON columns of a contract are
  kept as the draft they encode (the round trip of that encoding is in \<open>Draft\<close>). An operation that runs in a
  \<open>transaction\<close> is a function to \<open>store_error + 'a \<times> store\<close>: the exception rolls everything back.
\<close>

section \<open>Errors\<close>

datatype store_error =
    StoreError string
  | StoreTamperedError string
  | LeaseCASError string
  | LeaseFencedError string
  | RevisionConflictError int int
  | IllegalStateTransitionError contract_state contract_state
  | IdempotencyMismatchError string
  | IntegrityError string
  | CallError py_error

section \<open>Rows\<close>

record contract_view =
  cv_draft :: contract_draft
  cv_contract_id :: string
  cv_goal_id :: string
  cv_revision :: int
  cv_state :: contract_state
  cv_deadline_status :: deadline_status
  cv_acceptance_status :: acceptance_status
  cv_created_at :: int
  cv_updated_at :: int
  cv_next_wakeup_at :: "int option"
  cv_next_decision_at :: "int option"
  cv_blocked_reason :: "block_reason option"

record revision_row =
  rr_draft :: contract_draft
  rr_state :: contract_state
  rr_deadline_status :: deadline_status
  rr_acceptance_status :: acceptance_status
  rr_blocked_reason :: "block_reason option"
  rr_recorded_at :: int
  rr_recorded_by :: string
  rr_change_reason :: string

record goal_row =
  go_revision :: int
  go_title :: string
  go_objective :: string
  go_plan :: dict
  go_progress :: dict
  go_created_at :: int
  go_updated_at :: int

text \<open>\<open>StoredLease\<close>, with the \<open>updated_at\<close> column of its row.\<close>

record lease =
  le_contract :: string
  le_partition :: "string option"
  le_holder :: string
  le_generation :: int
  le_heartbeat :: int
  le_timeout :: int
  le_updated :: int

definition lease_is_alive :: "lease \<Rightarrow> int \<Rightarrow> bool" where
  "lease_is_alive l now = (now \<le> le_heartbeat l + le_timeout l)"

text \<open>\<open>StoredAttempt\<close>. The state column is a text without a constraint; a JSON column is its object.\<close>

record attempt =
  sa_goal :: string
  sa_contract :: "string option"
  sa_revision :: int
  sa_role :: string
  sa_executor :: "string option"
  sa_model :: "string option"
  sa_state :: string
  sa_generation :: "int option"
  sa_admitted :: int
  sa_started :: "int option"
  sa_terminal :: "int option"
  sa_return_code :: "int option"
  sa_error_class :: "string option"
  sa_payload :: dict
  sa_external_run :: "string option"
  sa_session_locator :: "string option"
  sa_recovery :: "string option"
  sa_process_identity :: dict
  sa_capability :: dict
  sa_handle_registered :: "int option"
  sa_orphaned :: "int option"
  sa_usage :: dict
  sa_updated :: int

record decision_row =
  de_goal :: string
  de_contract :: "string option"
  de_revision :: int
  de_tier :: "int option"
  de_type :: string
  de_reason :: string
  de_dispatches_left :: int
  de_escalations_left :: int
  de_recorded_at :: int
  de_actor :: string

record store =
  st_goals :: "(string \<times> goal_row) list"
  st_contracts :: "(string \<times> contract_view) list"
  st_revisions :: "((string \<times> int) \<times> revision_row) list"
  st_log :: event_log
  st_leases :: "((string \<times> string) \<times> lease) list"
  st_attempts :: "(string \<times> attempt) list"
  st_decisions :: "decision_row list"
  st_outbox :: outbox

definition empty_store :: store where
  "empty_store = \<lparr>st_goals = [], st_contracts = [], st_revisions = [], st_log = empty_log, st_leases = [],
     st_attempts = [], st_decisions = [], st_outbox = empty_outbox\<rparr>"

section \<open>Shared steps\<close>

text \<open>\<open>SELECT ... WHERE contract_id = ?\<close>, and the goal a contract belongs to.\<close>

definition get_contract :: "store \<Rightarrow> string \<Rightarrow> contract_view option" where
  "get_contract s contract_id = map_of (st_contracts s) contract_id"

definition goal_id_for_contract :: "store \<Rightarrow> string \<Rightarrow> string" where
  "goal_id_for_contract s contract_id = (case get_contract s contract_id of
     None \<Rightarrow> contract_id
   | Some c \<Rightarrow> if cv_goal_id c = [] then contract_id else cv_goal_id c)"

definition log_event :: "new_event \<Rightarrow> store \<Rightarrow> event \<times> store" where
  "log_event n s = (let (e, l) = append_event n (st_log s) in (e, s\<lparr>st_log := l\<rparr>))"

text \<open>\<open>if request_id\<close>: the key given and not empty; the events recorded under it.\<close>

definition request_events :: "store \<Rightarrow> string option \<Rightarrow> event list" where
  "request_events s request_id = (case request_id of
     None \<Rightarrow> []
   | Some r \<Rightarrow> if r = [] then [] else get_events_by_request_id r (st_log s))"

text \<open>\<open>a or b\<close> on optional texts.\<close>

definition text_or :: "string option \<Rightarrow> string \<Rightarrow> string" where
  "text_or a b = (case a of None \<Rightarrow> b | Some t \<Rightarrow> if t = [] then b else t)"

definition jopt :: "('a \<Rightarrow> json) \<Rightarrow> 'a option \<Rightarrow> json" where
  "jopt f v = (case v of None \<Rightarrow> JNull | Some x \<Rightarrow> f x)"

text \<open>\<open>{**a, **b}\<close>.\<close>

definition dict_merge :: "dict \<Rightarrow> dict \<Rightarrow> dict" where
  "dict_merge a b = fold (\<lambda>(k, v) d. put k v d) b a"

lemma log_event_simps [simp]:
  "fst (log_event n s) = stored_event (el_next (st_log s)) n"
  "snd (log_event n s) = s\<lparr>st_log := snd (append_event n (st_log s))\<rparr>"
  by (simp_all add: log_event_def append_event_def Let_def)

text \<open>The contract view on the wire.\<close>

definition contract_view_to_dict :: "pyhost \<Rightarrow> (int \<Rightarrow> string) \<Rightarrow> contract_view \<Rightarrow> dict" where
  "contract_view_to_dict h fmt c = dict_merge
     [(''schema_version'', JInt SCHEMA_VERSION), (''contract_id'', JStr (cv_contract_id c)),
      (''goal_id'', JStr (cv_goal_id c)), (''revision'', JInt (cv_revision c)),
      (''state'', JStr (contract_state_value (cv_state c))),
      (''deadline_status'', JStr (deadline_status_value (cv_deadline_status c))),
      (''acceptance_status'', JStr (acceptance_status_value (cv_acceptance_status c))),
      (''blocked_reason'', jopt (\<lambda>b. JStr (block_reason_value b)) (cv_blocked_reason c)),
      (''created_at'', JStr (fmt (cv_created_at c))), (''updated_at'', JStr (fmt (cv_updated_at c))),
      (''next_wakeup_at'', jopt (\<lambda>t. JStr (fmt t)) (cv_next_wakeup_at c)),
      (''next_decision_at'', jopt (\<lambda>t. JStr (fmt t)) (cv_next_decision_at c))]
     (draft_to_dict h (cv_draft c))"

end
