(* ===== verification/Versioned.thy ===== *)
theory Versioned
  imports Lhgp_Prelude
begin

text \<open>
  The contract that every compare-and-swap write of the store offers its callers: a call that takes effect
  moves the version of its target from \<open>v\<close> to \<open>v + 1\<close>, and when it names an expected version that
  version is \<open>v\<close>. A call may also be silent (an idempotent replay, or a write that keeps the version). The
  locale is interpreted on the leases, on the contracts and on the goals.
\<close>

locale versioned_cells =
  fixes version :: "'s \<Rightarrow> 'k \<Rightarrow> int option"
    and write_cell :: "'c \<Rightarrow> 's \<Rightarrow> 'e + 's"
    and target :: "'c \<Rightarrow> 'k"
    and expected :: "'c \<Rightarrow> int option"
    and silent :: "'c \<Rightarrow> 's \<Rightarrow> bool"
  assumes write_silent: "write_cell c s = Inr s' \<Longrightarrow> silent c s \<Longrightarrow> version s' k = version s k"
    and write_step: "write_cell c s = Inr s' \<Longrightarrow> \<not> silent c s \<Longrightarrow>
      \<exists>v. version s (target c) = Some v \<and> version s' (target c) = Some (v + 1) \<and> expected c \<in> {None, Some v}"
    and write_frame: "write_cell c s = Inr s' \<Longrightarrow> k \<noteq> target c \<Longrightarrow> version s' k = version s k"
begin

text \<open>Sequences of successful calls; the list holds the calls that took effect, in order.\<close>

inductive run :: "'s \<Rightarrow> 'c list \<Rightarrow> 's \<Rightarrow> bool" where
  run_none: "run s [] s"
| run_silent: "run s cs t \<Longrightarrow> write_cell c t = Inr u \<Longrightarrow> silent c t \<Longrightarrow> run s cs u"
| run_write: "run s cs t \<Longrightarrow> write_cell c t = Inr u \<Longrightarrow> \<not> silent c t \<Longrightarrow> run s (cs @ [c]) u"

definition on_target :: "'k \<Rightarrow> 'c list \<Rightarrow> 'c list" where
  "on_target k cs = filter (\<lambda>c. target c = k) cs"

lemma on_target_snoc: "on_target k (cs @ [c]) = on_target k cs @ (if target c = k then [c] else [])"
  by (simp add: on_target_def)

lemma run_versions:
  assumes "run s cs s'" and "version s k = Some v"
  shows "version s' k = Some (v + int (length (on_target k cs))) \<and>
    (\<forall>i < length (on_target k cs). expected (on_target k cs ! i) \<in> {None, Some (v + int i)})"
  using assms
proof (induction rule: run.induct)
  case (run_none s)
  then show ?case by (simp add: on_target_def)
next
  case (run_silent s cs t c u)
  then show ?case using write_silent by simp
next
  case (run_write s cs t c u)
  then have IH: "version t k = Some (v + int (length (on_target k cs)))"
    "\<forall>i < length (on_target k cs). expected (on_target k cs ! i) \<in> {None, Some (v + int i)}" by blast+
  show ?case
  proof (cases "target c = k")
    case True
    with write_step [OF run_write.hyps(2,3)] IH(1) have "version u k = Some (v + int (length (on_target k cs)) + 1)"
      "expected c \<in> {None, Some (v + int (length (on_target k cs)))}" by auto
    with IH(2) True show ?thesis by (auto simp: on_target_snoc nth_append less_Suc_eq)
  next
    case False
    with write_frame [OF run_write.hyps(2)] IH show ?thesis by (simp add: on_target_snoc)
  qed
qed

text \<open>No lost update: two calls on one target that take effect never name the same expected version.\<close>

lemma winners_distinct:
  assumes "run s cs s'" and "version s k = Some v"
    and "i < j" and "j < length (on_target k cs)" and "expected (on_target k cs ! i) \<noteq> None"
  shows "expected (on_target k cs ! i) \<noteq> expected (on_target k cs ! j)"
proof -
  have "expected (on_target k cs ! i) \<in> {None, Some (v + int i)}" "expected (on_target k cs ! j) \<in> {None, Some (v + int j)}"
    using run_versions [OF assms(1,2)] assms(3,4) by (simp_all del: insert_iff)
  with assms(3,5) show ?thesis by auto
qed

end

end
