(* ===== verification/Leases.thy ===== *)
theory Leases
  imports Store_State Versioned
begin

text \<open>
  \<open>longtask/persistence/leases.py\<close>: acquiring, reclaiming, renewing and releasing the lease of a contract
  (and partition) under compare-and-swap on its generation, and the pure rules of
  \<open>lhgp/promoter/lease.py\<close> that fence a write.
\<close>

section \<open>The fence\<close>

definition check_write_fence :: "lease \<Rightarrow> int \<Rightarrow> string \<Rightarrow> store_error + unit" where
  "check_write_fence l write_generation write_attempt_id =
     (if write_generation \<noteq> le_generation l then Inl (LeaseFencedError ''write generation is fenced by lease generation'')
      else if write_attempt_id \<noteq> le_holder l then Inl (LeaseFencedError ''write attempt is not lease holder'')
      else Inr ())"

section \<open>Operations\<close>

text \<open>
  The keyword arguments of the four operations. \<open>lc_generation\<close> is \<open>expected_generation\<close> for
  acquire and reclaim and \<open>lease_generation\<close> for renew and release; \<open>lc_holder\<close> is the holder to be, or
  the holder on whose behalf the lease is renewed or released.
\<close>

record lease_call =
  lc_contract :: string
  lc_partition :: "string option"
  lc_holder :: "string option"
  lc_generation :: int
  lc_now :: int
  lc_timeout :: int
  lc_request :: "string option"
  lc_actor :: string
  lc_reason :: string
  lc_payload :: dict
  lc_schema :: int
  lc_role :: "string option"
  lc_revision :: "int option"

definition lease_key :: "lease_call \<Rightarrow> string \<times> string" where
  "lease_key c = (lc_contract c, partition_key (lc_partition c))"

definition get_lease :: "store \<Rightarrow> string \<Rightarrow> string option \<Rightarrow> lease option" where
  "get_lease s contract_id partition_id = map_of (st_leases s) (contract_id, partition_key partition_id)"

definition lease_event :: "event_type \<Rightarrow> dict \<Rightarrow> int \<Rightarrow> lease_call \<Rightarrow> store \<Rightarrow> new_event" where
  "lease_event typ body generation c s = (event_call (Some (lc_contract c)) typ body (lc_now c))
     \<lparr>ne_attempt := lc_holder c, ne_generation := Some generation, ne_request := lc_request c, ne_actor := lc_actor c,
      ne_schema := lc_schema c, ne_goal := Some (goal_id_for_contract s (lc_contract c)), ne_revision := lc_revision c,
      ne_role := Some (text_or (lc_role c) (lc_actor c)), ne_payload_schema := Some (lc_schema c)\<rparr>"

text \<open>A replayed request that finds a lease returns that lease and changes nothing.\<close>

definition replayed_lease :: "lease_call \<Rightarrow> store \<Rightarrow> lease option" where
  "replayed_lease c s = (if request_events s (lc_request c) = [] then None
     else get_lease s (lc_contract c) (lc_partition c))"

definition lease_row :: "lease_call \<Rightarrow> string \<Rightarrow> int \<Rightarrow> lease" where
  "lease_row c holder generation = \<lparr>le_contract = lc_contract c, le_partition = parse_partition_key (partition_key (lc_partition c)),
     le_holder = holder, le_generation = generation, le_heartbeat = lc_now c, le_timeout = lc_timeout c,
     le_updated = lc_now c\<rparr>"

text \<open>\<open>holder_attempt_id\<close> is \<open>NOT NULL\<close>.\<close>

definition write_lease :: "lease_call \<Rightarrow> int \<Rightarrow> store \<Rightarrow> store_error + store" where
  "write_lease c generation s = (case lc_holder c of
     None \<Rightarrow> Inl (IntegrityError ''leases.holder_attempt_id'')
   | Some h \<Rightarrow> Inr (s\<lparr>st_leases := put (lease_key c) (lease_row c h generation) (st_leases s)\<rparr>))"

definition lease_body :: "lease_call \<Rightarrow> int \<Rightarrow> dict" where
  "lease_body c generation = [(''actor'', JStr (lc_actor c)), (''holder_attempt_id'', jopt JStr (lc_holder c)),
     (''generation'', JInt generation), (''partition_id'', jopt JStr (lc_partition c))]"

definition finish_lease :: "event_type \<Rightarrow> dict \<Rightarrow> int \<Rightarrow> lease_call \<Rightarrow> store \<Rightarrow> store_error + lease \<times> store" where
  "finish_lease typ body generation c s =
     (let s' = snd (log_event (lease_event typ body generation c s) s) in
      case get_lease s' (lc_contract c) (lc_partition c) of
        None \<Rightarrow> Inl (LeaseCASError ''lease could not be retrieved'')
      | Some l \<Rightarrow> Inr (l, s'))"

definition acquire_lease :: "lease_call \<Rightarrow> store \<Rightarrow> store_error + lease \<times> store" where
  "acquire_lease c s = (case replayed_lease c s of
     Some l \<Rightarrow> Inr (l, s)
   | None \<Rightarrow>
       (let current_gen = (case get_lease s (lc_contract c) (lc_partition c) of None \<Rightarrow> 0 | Some l \<Rightarrow> le_generation l) in
        if lc_generation c \<noteq> current_gen then Inl (LeaseCASError ''acquire lease CAS failed'')
        else
          (let new_generation = lc_generation c + 1 in
           sbind (write_lease c new_generation s) (\<lambda>s'.
             finish_lease LEASE_ACQUIRED (dict_merge (lease_body c new_generation) (lc_payload c)) new_generation c s'))))"

definition reclaim_lease :: "lease_call \<Rightarrow> store \<Rightarrow> store_error + lease \<times> store" where
  "reclaim_lease c s = (case replayed_lease c s of
     Some l \<Rightarrow> Inr (l, s)
   | None \<Rightarrow>
       (case get_lease s (lc_contract c) (lc_partition c) of
          None \<Rightarrow> Inl (LeaseCASError ''no lease to reclaim'')
        | Some current \<Rightarrow>
            if le_generation current \<noteq> lc_generation c then Inl (LeaseCASError ''reclaim lease CAS failed'')
            else
              (let new_generation = lc_generation c + 1;
                   body = [(''actor'', JStr (lc_actor c)), (''previous_holder_attempt_id'', JStr (le_holder current)),
                     (''holder_attempt_id'', jopt JStr (lc_holder c)), (''generation'', JInt new_generation),
                     (''partition_id'', jopt JStr (lc_partition c)), (''reason'', JStr (lc_reason c))] in
               sbind (write_lease c new_generation s) (\<lambda>s'.
                 finish_lease LEASE_RECLAIMED (dict_merge body (lc_payload c)) new_generation c s'))))"

definition renew_lease :: "lease_call \<Rightarrow> store \<Rightarrow> store_error + lease \<times> store" where
  "renew_lease c s = (case replayed_lease c s of
     Some l \<Rightarrow> Inr (l, s)
   | None \<Rightarrow>
       (case get_lease s (lc_contract c) (lc_partition c) of
          None \<Rightarrow> Inl (LeaseFencedError ''no active lease'')
        | Some current \<Rightarrow>
            if le_generation current \<noteq> lc_generation c \<or> Some (le_holder current) \<noteq> lc_holder c
            then Inl (LeaseFencedError ''renew lease fenced'')
            else
              (let s' = s\<lparr>st_leases := put (lease_key c) (current\<lparr>le_heartbeat := lc_now c, le_timeout := lc_timeout c,
                     le_updated := lc_now c\<rparr>) (st_leases s)\<rparr> in
               finish_lease LEASE_RENEWED (lease_body c (lc_generation c)) (lc_generation c) c s')))"

definition release_lease :: "lease_call \<Rightarrow> store \<Rightarrow> store_error + store" where
  "release_lease c s =
     (if request_events s (lc_request c) \<noteq> [] then Inr s
      else (case get_lease s (lc_contract c) (lc_partition c) of
          None \<Rightarrow> Inr s
        | Some current \<Rightarrow>
            if le_generation current \<noteq> lc_generation c then Inl (LeaseFencedError ''release lease fenced: generation'')
            else if Some (le_holder current) \<noteq> lc_holder c then Inl (LeaseFencedError ''release lease fenced: holder'')
            else
              (let s' = s\<lparr>st_leases := del (lease_key c) (st_leases s)\<rparr> in
               Inr (snd (log_event (lease_event LEASE_RELEASED (lease_body c (lc_generation c)) (lc_generation c) c s') s')))))"

section \<open>What the operations do\<close>

definition holds :: "store \<Rightarrow> string \<times> string \<Rightarrow> (string \<times> int) option" where
  "holds s k = map_option (\<lambda>l. (le_holder l, le_generation l)) (map_of (st_leases s) k)"

lemma get_lease_key: "get_lease s (lc_contract c) (lc_partition c) = map_of (st_leases s) (lease_key c)"
  by (simp add: get_lease_def lease_key_def)

lemma get_lease_plain: "get_lease s cid None = map_of (st_leases s) (cid, [])"
  by (simp add: get_lease_def partition_key_def)

lemma get_lease_log [simp]: "get_lease (s\<lparr>st_log := l\<rparr>) x p = get_lease s x p"
  by (simp add: get_lease_def)

lemma finish_lease_result:
  assumes "finish_lease typ body g c s = Inr (l, s')"
  shows "s' = s\<lparr>st_log := snd (append_event (lease_event typ body g c s) (st_log s))\<rparr> \<and>
    map_of (st_leases s) (lease_key c) = Some l"
  using assms by (auto simp: finish_lease_def Let_def get_lease_key split: option.splits)

text \<open>
  Every successful operation is a replay that changes nothing, or writes one lease row under the guard of
  its compare-and-swap and appends one event.
\<close>

definition lease_write :: "lease_call \<Rightarrow> lease option \<Rightarrow> event_type \<Rightarrow> store \<Rightarrow> store \<Rightarrow> bool" where
  "lease_write c row typ s s' \<longleftrightarrow> (\<exists>n. ne_type n = typ \<and> ne_contract n = Some (lc_contract c) \<and> ne_request n = lc_request c \<and>
     s' = s\<lparr>st_leases := (case row of None \<Rightarrow> del (lease_key c) (st_leases s) | Some l \<Rightarrow> put (lease_key c) l (st_leases s)),
            st_log := snd (append_event n (st_log s))\<rparr>)"

lemma lease_write_events [simp]:
  "lease_write c (Some l) typ s (s\<lparr>st_leases := put (lease_key c) l (st_leases s),
     st_log := snd (append_event (lease_event typ b g c s0) (st_log s))\<rparr>)"
  "lease_write c None typ s (s\<lparr>st_leases := del (lease_key c) (st_leases s),
     st_log := snd (append_event (lease_event typ b g c s0) (st_log s))\<rparr>)"
  unfolding lease_write_def
  by (rule exI [of _ "lease_event typ b g c s0"], simp add: lease_event_def event_call_def)+

lemma acquire_lease_cases:
  assumes "acquire_lease c s = Inr (l, s')"
  obtains (replay) "replayed_lease c s = Some l \<and> s' = s"
  | (written) h where "replayed_lease c s = None" and "lc_holder c = Some h"
      and "lc_generation c = (case map_of (st_leases s) (lease_key c) of None \<Rightarrow> 0 | Some l \<Rightarrow> le_generation l)"
      and "l = lease_row c h (lc_generation c + 1)" and "lease_write c (Some l) LEASE_ACQUIRED s s'"
proof (cases "replayed_lease c s")
  case None
  then show ?thesis
    using assms written
    by (auto simp: acquire_lease_def get_lease_key Let_def res_simps write_lease_def
        split: if_splits option.splits dest!: finish_lease_result)
qed (use assms replay in \<open>auto simp: acquire_lease_def\<close>)

lemma reclaim_lease_cases:
  assumes "reclaim_lease c s = Inr (l, s')"
  obtains (replay) "replayed_lease c s = Some l \<and> s' = s"
  | (written) h l0 where "replayed_lease c s = None" and "lc_holder c = Some h" and "map_of (st_leases s) (lease_key c) = Some l0"
      and "le_generation l0 = lc_generation c" and "l = lease_row c h (lc_generation c + 1)" and "lease_write c (Some l) LEASE_RECLAIMED s s'"
proof (cases "replayed_lease c s")
  case None
  then show ?thesis
    using assms written
    by (auto simp: reclaim_lease_def get_lease_key Let_def res_simps write_lease_def
        split: if_splits option.splits dest!: finish_lease_result)
qed (use assms replay in \<open>auto simp: reclaim_lease_def\<close>)

lemma renew_lease_cases:
  assumes "renew_lease c s = Inr (l, s')"
  obtains (replay) "replayed_lease c s = Some l \<and> s' = s"
  | (written) l0 where "replayed_lease c s = None" and "map_of (st_leases s) (lease_key c) = Some l0"
      and "le_generation l0 = lc_generation c" and "lc_holder c = Some (le_holder l0)"
      and "le_holder l = le_holder l0" and "le_generation l = le_generation l0" and "lease_write c (Some l) LEASE_RENEWED s s'"
proof (cases "replayed_lease c s")
  case None
  then show ?thesis
    using assms written
    by (auto simp: renew_lease_def get_lease_key Let_def
        split: if_splits option.splits dest!: finish_lease_result)
qed (use assms replay in \<open>auto simp: renew_lease_def\<close>)

lemma release_lease_cases:
  assumes "release_lease c s = Inr s'"
  obtains (nothing) "s' = s"
  | (release) l0 where "map_of (st_leases s) (lease_key c) = Some l0" and "le_generation l0 = lc_generation c"
      and "lc_holder c = Some (le_holder l0)" and "lease_write c None LEASE_RELEASED s s'"
  using assms
  by (auto simp: release_lease_def get_lease_key Let_def
      split: if_splits option.splits)

lemma lease_write_holds:
  "lease_write c row typ s s' \<Longrightarrow>
     holds s' k = (if k = lease_key c then map_option (\<lambda>l. (le_holder l, le_generation l)) row else holds s k)"
  by (auto simp: lease_write_def holds_def split: option.splits)

lemma lease_row_simps [simp]:
  "le_holder (lease_row c h g) = h" "le_generation (lease_row c h g) = g"
  by (simp_all add: lease_row_def)

section \<open>The interface: leases that are handed on by generation\<close>

text \<open>
  What the users of a lease rely on in any step of the system: a held lease stays with its holder at its
  generation, or is handed on with the generation increased by one, or is released.
\<close>

locale fenced_leases =
  fixes held :: "'s \<Rightarrow> 'k \<Rightarrow> (string \<times> int) option"
    and step :: "'s \<Rightarrow> 's \<Rightarrow> bool"
  assumes step_held: "step s s' \<Longrightarrow> held s k = Some (h, g) \<Longrightarrow>
    held s' k = None \<or> held s' k = Some (h, g) \<or> (\<exists>h'. held s' k = Some (h', g + 1))"
begin

text \<open>Steps during which the lease is never released.\<close>

inductive keeping :: "'k \<Rightarrow> 's \<Rightarrow> 's \<Rightarrow> bool" for k where
  keeping_refl: "held s k \<noteq> None \<Longrightarrow> keeping k s s"
| keeping_step: "keeping k s t \<Longrightarrow> step t u \<Longrightarrow> held u k \<noteq> None \<Longrightarrow> keeping k s u"

lemma keeping_generation:
  assumes "keeping k s t" and "held s k = Some (h, g)"
  shows "\<exists>h' g'. held t k = Some (h', g') \<and> g \<le> g' \<and> (g' = g \<longrightarrow> h' = h)"
  using assms
proof (induction rule: keeping.induct)
  case (keeping_step s t u)
  then obtain h' g' where t: "held t k = Some (h', g')" "g \<le> g'" "g' = g \<longrightarrow> h' = h" by blast
  from step_held [OF keeping_step.hyps(2) t(1)] keeping_step.hyps(3) consider
    "held u k = Some (h', g')" | h'' where "held u k = Some (h'', g' + 1)" by auto
  then show ?case by cases (use t in auto)
qed auto

text \<open>A holder that lost the lease never gets it back at the generation it remembers.\<close>

lemma lost_forever:
  assumes "keeping k s t" and "held s k = Some (h, g)" and "held t k \<noteq> Some (h, g)" and "keeping k t u"
  shows "\<exists>h' g'. held u k = Some (h', g') \<and> g < g'"
proof -
  from keeping_generation [OF assms(1,2)] assms(3) obtain h' g' where "held t k = Some (h', g')" "g < g'"
    by (auto simp: order.order_iff_strict)
  with keeping_generation [OF assms(4), of h' g'] show ?thesis by force
qed

end

inductive lease_step :: "store \<Rightarrow> store \<Rightarrow> bool" where
  acquire: "acquire_lease c s = Inr (l, s') \<Longrightarrow> lease_step s s'"
| reclaim: "reclaim_lease c s = Inr (l, s') \<Longrightarrow> lease_step s s'"
| renew: "renew_lease c s = Inr (l, s') \<Longrightarrow> lease_step s s'"
| release: "release_lease c s = Inr s' \<Longrightarrow> lease_step s s'"

lemma lease_step_holds:
  assumes "lease_step s s'" and "holds s k = Some (h, g)"
  shows "holds s' k = None \<or> holds s' k = Some (h, g) \<or> (\<exists>h'. holds s' k = Some (h', g + 1))"
  using assms(1)
proof cases
  case (acquire c l)
  from acquire_lease_cases [OF this] show ?thesis
    by cases (use assms(2) in \<open>auto simp: lease_write_holds, auto simp: holds_def\<close>)
next
  case (reclaim c l)
  from reclaim_lease_cases [OF this] show ?thesis
    by cases (use assms(2) in \<open>auto simp: lease_write_holds, auto simp: holds_def\<close>)
next
  case (renew c l)
  from renew_lease_cases [OF this] show ?thesis
    by cases (use assms(2) in \<open>auto simp: lease_write_holds, auto simp: holds_def\<close>)
next
  case (release c)
  from release_lease_cases [OF this] show ?thesis
    by cases (use assms(2) in \<open>auto simp: lease_write_holds\<close>)
qed

interpretation lease_ops: fenced_leases holds lease_step
  by unfold_locales (rule lease_step_holds)

section \<open>The generation as a version\<close>

text \<open>A lease that does not exist has generation 0. Only acquiring and reclaiming take a new generation.\<close>

datatype lease_take = Acquire lease_call | Reclaim lease_call

fun take_call :: "lease_take \<Rightarrow> lease_call" where
  "take_call (Acquire c) = c"
| "take_call (Reclaim c) = c"

fun take_lease :: "lease_take \<Rightarrow> store \<Rightarrow> store_error + store" where
  "take_lease (Acquire c) s = sbind (acquire_lease c s) (\<lambda>(l, s'). Inr s')"
| "take_lease (Reclaim c) s = sbind (reclaim_lease c s) (\<lambda>(l, s'). Inr s')"

definition generation_of :: "store \<Rightarrow> string \<times> string \<Rightarrow> int option" where
  "generation_of s k = Some (case holds s k of None \<Rightarrow> 0 | Some (h, g) \<Rightarrow> g)"

lemma take_lease_cases:
  assumes "take_lease t s = Inr s'"
  shows "(replayed_lease (take_call t) s \<noteq> None \<and> s' = s) \<or>
    (replayed_lease (take_call t) s = None \<and> generation_of s (lease_key (take_call t)) = Some (lc_generation (take_call t)) \<and>
     (\<exists>h typ. lease_write (take_call t) (Some (lease_row (take_call t) h (lc_generation (take_call t) + 1))) typ s s'))"
proof (cases t)
  case (Acquire c)
  with assms obtain l where a: "acquire_lease c s = Inr (l, s')" by (auto simp: res_simps)
  from acquire_lease_cases [OF this] Acquire show ?thesis
    by cases (auto simp: generation_of_def holds_def split: option.splits)
next
  case (Reclaim c)
  with assms obtain l where a: "reclaim_lease c s = Inr (l, s')" by (auto simp: res_simps)
  from reclaim_lease_cases [OF this] Reclaim show ?thesis
    by cases (auto simp: generation_of_def holds_def split: option.splits)
qed

lemma taken_lease_held:
  assumes "take_lease t s = Inr s'" and "request_events s (lc_request (take_call t)) = []"
  shows "\<exists>h. lc_holder (take_call t) = Some h \<and>
    holds s' (lease_key (take_call t)) = Some (h, lc_generation (take_call t) + 1)"
proof (cases t)
  case (Acquire c)
  with assms(1) obtain l where "acquire_lease c s = Inr (l, s')" by (auto simp: res_simps)
  from acquire_lease_cases [OF this] Acquire assms(2) show ?thesis
    by cases (auto simp: replayed_lease_def lease_write_holds)
next
  case (Reclaim c)
  with assms(1) obtain l where "reclaim_lease c s = Inr (l, s')" by (auto simp: res_simps)
  from reclaim_lease_cases [OF this] Reclaim assms(2) show ?thesis
    by cases (auto simp: replayed_lease_def lease_write_holds)
qed

interpretation lease_cells: versioned_cells generation_of take_lease "\<lambda>t. lease_key (take_call t)"
  "\<lambda>t. Some (lc_generation (take_call t))" "\<lambda>t s. replayed_lease (take_call t) s \<noteq> None"
  by unfold_locales (auto dest!: take_lease_cases simp: generation_of_def lease_write_holds)

section \<open>Partitions\<close>

text \<open>
  The compatibility rules of \<open>lhgp/promoter/lease.py\<close>. The code marks them as not yet wired to any
  dispatch. A set of stages shared with another partition is one error.
\<close>

record partition =
  pt_id :: string
  pt_paths :: "string list"
  pt_stages :: "string list"
  pt_description :: string

definition rstrip_slash :: "string \<Rightarrow> string" where
  "rstrip_slash s = rev (dropWhile (\<lambda>c. c = CHR ''/'') (rev s))"

definition path_prefix_overlap :: "string \<Rightarrow> string \<Rightarrow> bool" where
  "path_prefix_overlap a b = (let a_norm = rstrip_slash a; b_norm = rstrip_slash b in
     a_norm = b_norm \<or> starts_with a_norm (b_norm @ ''/'') \<or> starts_with b_norm (a_norm @ ''/''))"

datatype partition_error = IdActive string | PathsOverlap string string string | StagesOverlap string

definition check_partition_compatible :: "partition \<Rightarrow> partition list \<Rightarrow> partition_error list" where
  "check_partition_compatible new active = concat (map (\<lambda>other.
      (if pt_id other = pt_id new then [IdActive (pt_id new)] else []) @
      concat (map (\<lambda>p. concat (map (\<lambda>q. if path_prefix_overlap p q then [PathsOverlap (pt_id other) p q] else [])
        (pt_paths other))) (pt_paths new)) @
      (if set (pt_stages new) \<inter> set (pt_stages other) \<noteq> {} then [StagesOverlap (pt_id other)] else [])) active)"

lemma path_prefix_overlap_sym: "path_prefix_overlap a b = path_prefix_overlap b a"
  by (auto simp: path_prefix_overlap_def Let_def)

lemma check_partition_compatible_empty:
  "check_partition_compatible new active = [] \<longleftrightarrow> (\<forall>other \<in> set active. pt_id other \<noteq> pt_id new \<and>
     (\<forall>p \<in> set (pt_paths new). \<forall>q \<in> set (pt_paths other). \<not> path_prefix_overlap p q) \<and>
     set (pt_stages new) \<inter> set (pt_stages other) = {})"
  by (auto simp: check_partition_compatible_def split: if_splits)

section \<open>Properties\<close>

definition sample_call :: "string \<Rightarrow> int \<Rightarrow> string \<Rightarrow> lease_call" where
  "sample_call holder generation request = \<lparr>lc_contract = ''c1'', lc_partition = None, lc_holder = Some holder,
     lc_generation = generation, lc_now = 100, lc_timeout = 60, lc_request = Some request, lc_actor = ''daemon'',
     lc_reason = ''heartbeat timeout'', lc_payload = [], lc_schema = 2, lc_role = None, lc_revision = Some 1\<rparr>"

lemmas lease_eval = acquire_lease_def reclaim_lease_def release_lease_def replayed_lease_def request_events_def get_lease_def
  get_events_by_request_id_def write_lease_def finish_lease_def lease_key_def holds_def sample_call_def partition_key_def
  empty_store_def empty_log_def lease_event_def event_call_def lease_row_def Let_def

text \<open>
  C2: Taking a lease is exclusive for as long as it is not released. When one call with a fresh request has
  acquired or reclaimed the lease of a contract (and partition), it holds the lease at the next generation; and
  after any further renewals, reclaims and acquisitions, as long as none of the steps releases the lease, the
  generation is still past the expected one, its first generation still belongs to the winner, and every other
  call with a fresh request that names the same expected generation fails with a compare-and-swap error, whether
  it acquires or reclaims.
\<close>

theorem lease_cas_exclusive:
  assumes "take_lease t s = Inr s'" and "request_events s (lc_request (take_call t)) = []"
    and "lease_ops.keeping (lease_key (take_call t)) s' u"
    and "lease_key d = lease_key (take_call t)" and "lc_generation d = lc_generation (take_call t)"
    and "request_events u (lc_request d) = []"
  shows "\<exists>h h' g'. lc_holder (take_call t) = Some h \<and>
    holds s' (lease_key (take_call t)) = Some (h, lc_generation (take_call t) + 1) \<and>
    holds u (lease_key (take_call t)) = Some (h', g') \<and> lc_generation (take_call t) < g' \<and>
    (g' = lc_generation (take_call t) + 1 \<longrightarrow> h' = h) \<and>
    (\<exists>m. acquire_lease d u = Inl (LeaseCASError m)) \<and> (\<exists>m. reclaim_lease d u = Inl (LeaseCASError m))"
proof -
  from taken_lease_held [OF assms(1,2)] obtain h where h: "lc_holder (take_call t) = Some h"
    "holds s' (lease_key (take_call t)) = Some (h, lc_generation (take_call t) + 1)" by blast
  from lease_ops.keeping_generation [OF assms(3) this(2)] obtain h' g' where
    g: "holds u (lease_key (take_call t)) = Some (h', g')" "lc_generation (take_call t) + 1 \<le> g'"
      "g' = lc_generation (take_call t) + 1 \<longrightarrow> h' = h" by blast
  from g(1) obtain l where "map_of (st_leases u) (lease_key d) = Some l" "le_generation l = g'"
    using assms(4) by (auto simp: holds_def)
  with g(2) assms(5,6) have "(\<exists>m. acquire_lease d u = Inl (LeaseCASError m)) \<and> (\<exists>m. reclaim_lease d u = Inl (LeaseCASError m))"
    by (auto simp: acquire_lease_def reclaim_lease_def replayed_lease_def get_lease_key)
  with h g show ?thesis by auto
qed

theorem lease_cas_exclusive_witness:
  "\<exists>s t. take_lease (Acquire (sample_call ''a'' 0 ''r1'')) empty_store = Inr s \<and>
     take_lease (Reclaim (sample_call ''b'' 1 ''r2'')) s = Inr t \<and> holds t (''c1'', []) = Some (''b'', 2) \<and>
     (\<exists>m. acquire_lease (sample_call ''d'' 0 ''r3'') t = Inl (LeaseCASError m)) \<and>
     (\<exists>m. reclaim_lease (sample_call ''d'' 0 ''r3'') t = Inl (LeaseCASError m))"
proof -
  obtain l s where a: "acquire_lease (sample_call ''a'' 0 ''r1'') empty_store = Inr (l, s)"
    and s: "holds s (''c1'', []) = Some (''a'', 1)"
    by (simp add: lease_eval)
  obtain l' t where b: "reclaim_lease (sample_call ''b'' 1 ''r2'') s = Inr (l', t)"
    and t: "holds t (''c1'', []) = Some (''b'', 2)" and r: "request_events t (Some ''r3'') = []"
    using a by (auto simp: lease_eval)
  have "take_lease (Acquire (sample_call ''a'' 0 ''r1'')) empty_store = Inr s"
    and "take_lease (Reclaim (sample_call ''b'' 1 ''r2'')) s = Inr t" by (simp_all add: a b res_simps)
  moreover have "lease_ops.keeping (lease_key (take_call (Acquire (sample_call ''a'' 0 ''r1'')))) s t"
    by (rule lease_ops.keeping_step [OF lease_ops.keeping_refl lease_step.reclaim [OF b]])
      (use s t in \<open>simp_all add: lease_key_def sample_call_def partition_key_def\<close>)
  moreover have "request_events empty_store (lc_request (take_call (Acquire (sample_call ''a'' 0 ''r1'')))) = []"
    "lease_key (sample_call ''d'' 0 ''r3'') = lease_key (take_call (Acquire (sample_call ''a'' 0 ''r1'')))"
    "lc_generation (sample_call ''d'' 0 ''r3'') = lc_generation (take_call (Acquire (sample_call ''a'' 0 ''r1'')))"
    "request_events t (lc_request (sample_call ''d'' 0 ''r3'')) = []"
    using r by (simp_all add: lease_eval)
  ultimately show ?thesis
    using lease_cas_exclusive [of "Acquire (sample_call ''a'' 0 ''r1'')" empty_store s t "sample_call ''d'' 0 ''r3''"] t by blast
qed

text \<open>
  C1: A stale worker is fenced for good. Once the lease that a holder had at a generation has passed
  on, then for as long as the lease is not released, no matter how often it is renewed, reclaimed or acquired
  again, a write under the old generation fails the write fence, and a fresh attempt to renew or release the lease
  at the old generation is refused as fenced.
\<close>

theorem stale_holder_stays_fenced:
  assumes "lease_ops.keeping k s t" and "holds s k = Some (h, g)" and "holds t k \<noteq> Some (h, g)" and "lease_ops.keeping k t u"
  shows "\<exists>l. map_of (st_leases u) k = Some l \<and> g < le_generation l \<and> (\<forall>a. \<exists>m. check_write_fence l g a = Inl (LeaseFencedError m)) \<and>
    (\<forall>c. lease_key c = k \<and> lc_generation c = g \<and> request_events u (lc_request c) = [] \<longrightarrow>
       (\<exists>m. renew_lease c u = Inl (LeaseFencedError m)) \<and> (\<exists>m. release_lease c u = Inl (LeaseFencedError m)))"
proof -
  from lease_ops.lost_forever [OF assms] obtain l where "map_of (st_leases u) k = Some l" "g < le_generation l"
    by (auto simp: holds_def)
  then show ?thesis
    by (auto simp: check_write_fence_def renew_lease_def release_lease_def replayed_lease_def get_lease_key)
qed

theorem stale_holder_stays_fenced_witness:
  "\<exists>s t l. holds s (''c1'', []) = Some (''a'', 1) \<and> holds t (''c1'', []) = Some (''b'', 2) \<and>
     map_of (st_leases t) (''c1'', []) = Some l \<and> (\<exists>m. check_write_fence l 1 ''a'' = Inl (LeaseFencedError m))"
proof -
  obtain l s where a: "acquire_lease (sample_call ''a'' 0 ''r1'') empty_store = Inr (l, s)"
    and s: "holds s (''c1'', []) = Some (''a'', 1)"
    by (simp add: lease_eval)
  obtain l' t where b: "reclaim_lease (sample_call ''b'' 1 ''r2'') s = Inr (l', t)"
    and t: "holds t (''c1'', []) = Some (''b'', 2)"
    using a by (auto simp: lease_eval)
  have "lease_ops.keeping (''c1'', []) s t"
    by (rule lease_ops.keeping_step [OF lease_ops.keeping_refl lease_step.reclaim [OF b]]) (simp_all add: s t)
  moreover have "lease_ops.keeping (''c1'', []) t t"
    by (rule lease_ops.keeping_refl) (simp add: t)
  ultimately show ?thesis
    using stale_holder_stays_fenced [of "(''c1'', [])" s t "''a''" 1 t] s t by auto
qed

text \<open>
  The generation is not monotone over a release. Releasing deletes the row, so that the next
  acquirer must expect generation 0 and holds the lease at generation 1, whatever generation was reached
  before.
\<close>

theorem release_forgets_generation:
  assumes "release_lease c s = Inr s'" and "request_events s (lc_request c) = []" and "lease_key d = lease_key c"
    and "request_events s' (lc_request d) = []" and "lc_holder d = Some h"
  shows "holds s' (lease_key c) = None \<and>
    (lc_generation d \<noteq> 0 \<longrightarrow> (\<exists>m. acquire_lease d s' = Inl (LeaseCASError m))) \<and>
    (lc_generation d = 0 \<longrightarrow> (\<exists>s''. acquire_lease d s' = Inr (lease_row d h 1, s'')))"
proof -
  from assms(1,2) have "map_of (st_leases s') (lease_key c) = None"
    by (auto simp: release_lease_def get_lease_key Let_def split: option.splits if_splits)
  then show ?thesis
    using assms(3-5)
    by (auto simp: holds_def acquire_lease_def replayed_lease_def get_lease_key write_lease_def finish_lease_def Let_def)
qed

theorem release_forgets_generation_witness:
  "\<exists>s s' s''. holds s (''c1'', []) = Some (''b'', 2) \<and> release_lease (sample_call ''b'' 2 ''r3'') s = Inr s' \<and>
     acquire_lease (sample_call ''d'' 0 ''r4'') s' = Inr (lease_row (sample_call ''d'' 0 ''r4'') ''d'' 1, s'')"
proof -
  define s where "s = empty_store\<lparr>st_leases := [((''c1'', []), lease_row (sample_call ''b'' 1 ''r2'') ''b'' 2)]\<rparr>"
  obtain s' where r: "release_lease (sample_call ''b'' 2 ''r3'') s = Inr s'" and f: "request_events s' (Some ''r4'') = []"
    by (simp add: s_def lease_eval)
  have "request_events s (lc_request (sample_call ''b'' 2 ''r3'')) = []"
    "lease_key (sample_call ''d'' 0 ''r4'') = lease_key (sample_call ''b'' 2 ''r3'')"
    "request_events s' (lc_request (sample_call ''d'' 0 ''r4'')) = []" "lc_holder (sample_call ''d'' 0 ''r4'') = Some ''d''"
    using f by (simp_all add: s_def lease_eval)
  from release_forgets_generation [OF r this] obtain s'' where
    "acquire_lease (sample_call ''d'' 0 ''r4'') s' = Inr (lease_row (sample_call ''d'' 0 ''r4'') ''d'' 1, s'')"
    by (auto simp: sample_call_def)
  moreover have "holds s (''c1'', []) = Some (''b'', 2)" by (simp add: s_def lease_eval)
  ultimately show ?thesis using r by blast
qed

end
