(* ===== verification/Contract_Store.thy ===== *)
theory Contract_Store
  imports Leases
begin

text \<open>
  The writes of \<open>longtask/persistence/store.py\<close> to a contract: \<open>save_contract\<close>, \<open>update_contract_state\<close>,
  \<open>patch_contract\<close> and the fenced \<open>write_back\<close>, with the immutable revision snapshots and the evidence
  bindings that are read from them. Each runs in one transaction; the view that the code re-reads after the
  transaction is returned with the new store.
\<close>

section \<open>Equality of dictionaries\<close>

text \<open>\<open>==\<close> of Python on JSON values: numbers by value, dictionaries whatever their order. Keys are distinct.\<close>

fun py_num :: "json \<Rightarrow> pyfloat option" where
  "py_num (JBool b) = Some (Fin (if b then 1 else 0))"
| "py_num (JInt i) = Some (Fin (of_int i))"
| "py_num (JFloat x) = Some x"
| "py_num _ = None"

lemma size_zip_left: "(a, b) \<in> set (zip xs ys) \<Longrightarrow> size a < Suc (size_list size xs)"
  using size_list_estimation' [of a xs "size a" size] by (auto dest: set_zip_leftD)

lemma size_pair_member: "(k, v) \<in> set kvs \<Longrightarrow> size v < Suc (size_list (size_prod (\<lambda>_. 0) size) kvs)"
  using size_list_estimation' [of "(k, v)" kvs "size v" "size_prod (\<lambda>_. 0) size"] by simp

function (sequential) py_eq :: "json \<Rightarrow> json \<Rightarrow> bool" where
  "py_eq JNull b = (b = JNull)"
| "py_eq (JStr s) b = (b = JStr s)"
| "py_eq (JList xs) b = (case b of
     JList ys \<Rightarrow> length xs = length ys \<and> (\<forall>p \<in> set (zip xs ys). py_eq (fst p) (snd p)) | _ \<Rightarrow> False)"
| "py_eq (JObj kvs) b = (case b of
     JObj lws \<Rightarrow> length kvs = length lws \<and>
       (\<forall>kv \<in> set kvs. case map_of lws (fst kv) of None \<Rightarrow> False | Some w \<Rightarrow> py_eq (snd kv) w) | _ \<Rightarrow> False)"
| "py_eq (JBool x) b = (py_num b = py_num (JBool x))"
| "py_eq (JInt x) b = (py_num b = py_num (JInt x))"
| "py_eq (JFloat x) b = (x \<noteq> NaN \<and> py_num b = Some x)"
  by pat_completeness auto

termination py_eq
  by (relation "measure (\<lambda>(a, b). size a)") (auto dest: size_zip_left size_pair_member)

section \<open>Shared steps of the writes\<close>

definition replayed_events :: "store \<Rightarrow> string option \<Rightarrow> string \<Rightarrow> store_error + event list" where
  "replayed_events s request_id contract_id =
     (let existing = request_events s request_id in
      if existing = [] then Inr []
      else if ev_contract ` set existing \<noteq> {Some contract_id}
      then Inl (IdempotencyMismatchError ''request_id already belongs to another contract'')
      else Inr existing)"

definition assert_legal_contract_transition :: "contract_state \<Rightarrow> contract_state \<Rightarrow> store_error + unit" where
  "assert_legal_contract_transition current new_state =
     (if current = new_state then Inr ()
      else if \<not> is_valid_transition current new_state then Inl (IllegalStateTransitionError current new_state)
      else Inr ())"

definition write_revision_snapshot :: "string \<Rightarrow> int \<Rightarrow> revision_row \<Rightarrow> store \<Rightarrow> store_error + store" where
  "write_revision_snapshot contract_id revision row s =
     (if map_of (st_revisions s) (contract_id, revision) \<noteq> None then Inl (IntegrityError ''contract_revisions'')
      else Inr (s\<lparr>st_revisions := st_revisions s @ [((contract_id, revision), row)]\<rparr>))"

definition snapshot_of :: "contract_view \<Rightarrow> int \<Rightarrow> string \<Rightarrow> string \<Rightarrow> revision_row" where
  "snapshot_of v now actor reason = \<lparr>rr_draft = cv_draft v, rr_state = cv_state v, rr_deadline_status = cv_deadline_status v,
     rr_acceptance_status = cv_acceptance_status v, rr_blocked_reason = cv_blocked_reason v, rr_recorded_at = now,
     rr_recorded_by = actor, rr_change_reason = reason\<rparr>"

text \<open>The plan approvals of a contract are stamped with its new revision.\<close>

definition restamp_plan_approvals :: "string \<Rightarrow> int \<Rightarrow> store \<Rightarrow> store" where
  "restamp_plan_approvals contract_id new_revision s = s\<lparr>st_log := (st_log s)\<lparr>el_rows := map (\<lambda>e.
     if ev_contract e = Some contract_id \<and> ev_type e = PLAN_APPROVED \<and>
        (case ev_revision e of None \<Rightarrow> False | Some r \<Rightarrow> r < new_revision)
     then e\<lparr>ev_revision := Some new_revision\<rparr> else e) (el_rows (st_log s))\<rparr>\<rparr>"

definition set_contract :: "string \<Rightarrow> contract_view \<Rightarrow> store \<Rightarrow> store" where
  "set_contract contract_id v s = s\<lparr>st_contracts := put contract_id v (st_contracts s)\<rparr>"

section \<open>Creation\<close>

record save_call =
  sv_draft :: contract_draft
  sv_contract :: string
  sv_now :: int
  sv_goal :: "string option"
  sv_state :: contract_state
  sv_revision :: int
  sv_next_wakeup :: "int option"
  sv_blocked :: "block_reason option"
  sv_deadline :: deadline_status
  sv_acceptance :: acceptance_status
  sv_next_decision :: "int option"
  sv_request :: "string option"
  sv_actor :: string
  sv_schema :: int

definition save_replay :: "pyhost \<Rightarrow> save_call \<Rightarrow> store \<Rightarrow> store_error + contract_view option" where
  "save_replay h c s =
     (let existing = request_events s (sv_request c) in
      if existing = [] then Inr None
      else
        (let replay_contract_id = (case find (\<lambda>e. ev_type e = CONTRACT_PREPARED \<and> text_or (ev_contract e) [] \<noteq> []) existing of
               None \<Rightarrow> sv_contract c | Some e \<Rightarrow> text_or (ev_contract e) []) in
         case get_contract s replay_contract_id of
           None \<Rightarrow> Inr None
         | Some v \<Rightarrow>
             if \<not> py_eq (JObj (draft_to_dict h (cv_draft v))) (JObj (draft_to_dict h (sv_draft c)))
             then Inl (IdempotencyMismatchError ''request_id already belongs to a different contract draft'')
             else Inr (Some v)))"

definition upsert_goal :: "string \<Rightarrow> contract_draft \<Rightarrow> int \<Rightarrow> store \<Rightarrow> store" where
  "upsert_goal goal_id d now s = s\<lparr>st_goals := put goal_id (case map_of (st_goals s) goal_id of
     None \<Rightarrow> \<lparr>go_revision = 1, go_title = cd_title d, go_objective = cd_objective d, go_plan = [], go_progress = [],
              go_created_at = now, go_updated_at = now\<rparr>
   | Some g \<Rightarrow> g\<lparr>go_updated_at := now\<rparr>) (st_goals s)\<rparr>"

definition save_contract :: "pyhost \<Rightarrow> save_call \<Rightarrow> store \<Rightarrow> store_error + contract_view \<times> store" where
  "save_contract h c s = sbind (save_replay h c s) (\<lambda>replay. case replay of
     Some v \<Rightarrow> Inr (v, s)
   | None \<Rightarrow>
       (let goal_id = text_or (sv_goal c) (sv_contract c);
            s1 = upsert_goal goal_id (sv_draft c) (sv_now c) s;
            v = \<lparr>cv_draft = sv_draft c, cv_contract_id = sv_contract c,
                 cv_goal_id = (if goal_id = [] then sv_contract c else goal_id), cv_revision = sv_revision c,
                 cv_state = sv_state c, cv_deadline_status = sv_deadline c, cv_acceptance_status = sv_acceptance c,
                 cv_created_at = sv_now c, cv_updated_at = sv_now c, cv_next_wakeup_at = sv_next_wakeup c,
                 cv_next_decision_at = sv_next_decision c, cv_blocked_reason = sv_blocked c\<rparr> in
        if get_contract s (sv_contract c) \<noteq> None then Inl (IntegrityError ''contracts'')
        else
          sbind (write_revision_snapshot (sv_contract c) (sv_revision c)
                   (snapshot_of v (sv_now c) (sv_actor c) ''contract/prepared'') (set_contract (sv_contract c) v s1)) (\<lambda>s2.
          Inr (v, snd (log_event ((event_call (Some (sv_contract c)) CONTRACT_PREPARED
             [(''actor'', JStr (sv_actor c)), (''title'', JStr (cd_title (sv_draft c))),
              (''objective'', JStr (cd_objective (sv_draft c))), (''state'', JStr (contract_state_value (sv_state c))),
              (''goal_id'', JStr goal_id), (''deadline_status'', JStr (deadline_status_value (sv_deadline c))),
              (''acceptance_status'', JStr (acceptance_status_value (sv_acceptance c))), (''revision'', JInt (sv_revision c))]
             (sv_now c))\<lparr>ne_request := sv_request c, ne_actor := sv_actor c, ne_schema := sv_schema c, ne_goal := Some goal_id,
               ne_revision := Some (sv_revision c), ne_role := Some ''user'', ne_payload_schema := Some (sv_schema c)\<rparr>) s2)))))"

section \<open>State changes\<close>

fun state_to_event :: "contract_state \<Rightarrow> event_type option" where
  "state_to_event Drafted = Some CONTRACT_PREPARED"
| "state_to_event Active = Some CONTRACT_APPROVED"
| "state_to_event Paused = Some CONTRACT_PAUSED"
| "state_to_event Blocked = Some CONTRACT_BLOCKED"
| "state_to_event Complete = Some CONTRACT_COMPLETED"
| "state_to_event Cancelled = Some CONTRACT_CANCELLED"
| "state_to_event Expired = Some CONTRACT_EXPIRED"
| "state_to_event Archived = Some CONTRACT_ARBITRATED"
| "state_to_event Satisfied = None"

record update_call =
  uc_contract :: string
  uc_state :: contract_state
  uc_now :: int
  uc_expected :: "int option"
  uc_blocked :: "block_reason option"
  uc_next_wakeup :: "int option"
  uc_deadline :: "deadline_status option"
  uc_acceptance :: "acceptance_status option"
  uc_next_decision :: "int option"
  uc_event :: "event_type option"
  uc_payload :: dict
  uc_request :: "string option"
  uc_actor :: string
  uc_schema :: int

definition or_else :: "'a option \<Rightarrow> 'a \<Rightarrow> 'a" where
  "or_else a b = (case a of None \<Rightarrow> b | Some x \<Rightarrow> x)"

definition updated_view :: "update_call \<Rightarrow> contract_view \<Rightarrow> contract_view" where
  "updated_view c current = current\<lparr>cv_revision := cv_revision current + 1, cv_state := uc_state c,
     cv_deadline_status := or_else (uc_deadline c) (cv_deadline_status current),
     cv_acceptance_status := or_else (uc_acceptance c) (cv_acceptance_status current),
     cv_blocked_reason := uc_blocked c, cv_updated_at := uc_now c,
     cv_next_wakeup_at := (case uc_next_wakeup c of None \<Rightarrow> cv_next_wakeup_at current | t \<Rightarrow> t),
     cv_next_decision_at := (case uc_next_decision c of None \<Rightarrow> cv_next_decision_at current | t \<Rightarrow> t)\<rparr>"

definition given_event :: "update_call \<Rightarrow> event_type option" where
  "given_event c = (case uc_event c of Some t \<Rightarrow> if t = [] then None else Some t | None \<Rightarrow> None)"

definition chosen_event :: "update_call \<Rightarrow> event_type" where
  "chosen_event c = or_else (given_event c) (or_else (state_to_event (uc_state c)) CONTRACT_PATCHED)"

definition change_reason :: "update_call \<Rightarrow> string" where
  "change_reason c = or_else (given_event c) (''transition -> '' @ contract_state_value (uc_state c))"

definition update_payload :: "update_call \<Rightarrow> contract_view \<Rightarrow> contract_view \<Rightarrow> dict" where
  "update_payload c current v =
     (let payload = dict_merge [(''actor'', JStr (uc_actor c)), (''previous_state'', JStr (contract_state_value (cv_state current))),
          (''new_state'', JStr (contract_state_value (uc_state c))), (''revision'', JInt (cv_revision v)),
          (''deadline_status'', JStr (deadline_status_value (cv_deadline_status v))),
          (''acceptance_status'', JStr (acceptance_status_value (cv_acceptance_status v)))] (uc_payload c) in
      case uc_blocked c of None \<Rightarrow> payload | Some b \<Rightarrow> put ''blocked_reason'' (JStr (block_reason_value b)) payload)"

definition notify_state :: "tzdb \<Rightarrow> update_call \<Rightarrow> contract_view \<Rightarrow> event \<Rightarrow> dict \<Rightarrow> store \<Rightarrow> store_error + store" where
  "notify_state tz c current e payload s = (case notification_kind (chosen_event c) (uc_state c) of
     None \<Rightarrow> Inr s
   | Some kind \<Rightarrow>
       if kind \<notin> set (at_notify_on (cd_attention (cv_draft current))) then Inr s
       else (case enqueue_notification (uc_contract c @ '':event:'' @ int_str (ev_id e)) kind ''local''
                (dict_merge [(''contract_id'', JStr (uc_contract c)), (''event_id'', JInt (ev_id e))] payload) (uc_now c)
                (Some (cv_goal_id current))
                (Some (notification_available_at tz (cd_attention (cv_draft current)) kind (uc_now c))) (st_outbox s) of
           Inl x \<Rightarrow> Inl (CallError x)
         | Inr ob \<Rightarrow> Inr (s\<lparr>st_outbox := ob\<rparr>)))"

text \<open>The transaction after its guards.\<close>

definition apply_update :: "tzdb \<Rightarrow> update_call \<Rightarrow> contract_view \<Rightarrow> store \<Rightarrow> store_error + contract_view \<times> store" where
  "apply_update tz c current s =
     (let v = updated_view c current;
          s1 = restamp_plan_approvals (uc_contract c) (cv_revision v) (set_contract (uc_contract c) v s) in
      sbind (write_revision_snapshot (uc_contract c) (cv_revision v)
               (snapshot_of v (uc_now c) (uc_actor c) (change_reason c)) s1) (\<lambda>s2.
      let payload = update_payload c current v;
          (e, s3) = log_event ((event_call (Some (uc_contract c)) (chosen_event c) payload (uc_now c))
            \<lparr>ne_request := uc_request c, ne_actor := uc_actor c, ne_schema := uc_schema c, ne_goal := Some (cv_goal_id current),
             ne_revision := Some (cv_revision v), ne_role := Some (uc_actor c), ne_payload_schema := Some (uc_schema c)\<rparr>) s2 in
      sbind (notify_state tz c current e payload s3) (\<lambda>s4. Inr (v, s4))))"

definition update_contract_state :: "tzdb \<Rightarrow> update_call \<Rightarrow> store \<Rightarrow> store_error + contract_view \<times> store" where
  "update_contract_state tz c s = sbind (replayed_events s (uc_request c) (uc_contract c)) (\<lambda>existing.
     case get_contract s (uc_contract c) of
       None \<Rightarrow> Inl (StoreError ''contract not found'')
     | Some current \<Rightarrow>
         if existing \<noteq> [] then Inr (current, s)
         else
           sbind (case uc_expected c of
               Some r \<Rightarrow> if cv_revision current \<noteq> r then Inl (RevisionConflictError r (cv_revision current)) else Inr ()
             | None \<Rightarrow> Inr ()) (\<lambda>_.
           sbind (assert_legal_contract_transition (cv_state current) (uc_state c)) (\<lambda>_.
           apply_update tz c current s)))"

section \<open>Amendments\<close>

record patch_call =
  pc_contract :: string
  pc_expected :: int
  pc_now :: int
  pc_guidance :: "dict option"
  pc_acceptance :: "acceptance option"
  pc_workload :: "pyfloat option"
  pc_request :: "string option"
  pc_actor :: string
  pc_schema :: int

definition patched_draft :: "patch_call \<Rightarrow> contract_draft \<Rightarrow> contract_draft" where
  "patched_draft c d = d\<lparr>cd_acceptance := or_else (pc_acceptance c) (cd_acceptance d),
     cd_soft_guidance := or_else (pc_guidance c) (cd_soft_guidance d),
     cd_workload_initial_hours := or_else (pc_workload c) (cd_workload_initial_hours d)\<rparr>"

definition patch_details :: "patch_call \<Rightarrow> int \<Rightarrow> dict" where
  "patch_details c revision = [(''actor'', JStr (pc_actor c)), (''revision'', JInt revision)] @
     (case pc_guidance c of None \<Rightarrow> [] | Some g \<Rightarrow> [(''soft_guidance'', JObj g)]) @
     (case pc_acceptance c of None \<Rightarrow> [] | Some a \<Rightarrow> [(''acceptance'', JObj [(''standard'', JStr (ac_standard a)),
        (''checks'', JList (map check_json (ac_checks a))), (''verifier'', JStr (ac_verifier a))])]) @
     (case pc_workload c of None \<Rightarrow> [] | Some w \<Rightarrow> [(''workload_initial_hours'', JFloat w)])"

definition patch_contract :: "patch_call \<Rightarrow> store \<Rightarrow> store_error + contract_view \<times> store" where
  "patch_contract c s = sbind (replayed_events s (pc_request c) (pc_contract c)) (\<lambda>existing.
     case get_contract s (pc_contract c) of
       None \<Rightarrow> Inl (StoreError ''contract not found'')
     | Some current \<Rightarrow>
         if existing \<noteq> [] then Inr (current, s)
         else if cv_revision current \<noteq> pc_expected c
         then Inl (RevisionConflictError (pc_expected c) (cv_revision current))
         else
           (let v = current\<lparr>cv_revision := cv_revision current + 1, cv_draft := patched_draft c (cv_draft current),
                  cv_updated_at := pc_now c\<rparr> in
            sbind (write_revision_snapshot (pc_contract c) (cv_revision v)
                     (snapshot_of v (pc_now c) (pc_actor c) ''contract/patched'') (set_contract (pc_contract c) v s)) (\<lambda>s1.
            let s2 = snd (log_event ((event_call (Some (pc_contract c)) CONTRACT_PATCHED (patch_details c (cv_revision v)) (pc_now c))
                  \<lparr>ne_request := pc_request c, ne_actor := pc_actor c, ne_schema := pc_schema c, ne_goal := Some (cv_goal_id current),
                   ne_revision := Some (cv_revision v), ne_role := Some (pc_actor c), ne_payload_schema := Some (pc_schema c)\<rparr>) s1) in
            Inr (v, restamp_plan_approvals (pc_contract c) (cv_revision v) s2))))"

section \<open>Write-back\<close>

record event_input =
  ei_type :: event_type
  ei_payload :: dict
  ei_attempt :: "string option"
  ei_generation :: "int option"
  ei_request :: "string option"
  ei_actor :: "string option"
  ei_revision :: "int option"
  ei_role :: "string option"
  ei_payload_schema :: "int option"
  ei_goal :: "string option"

record write_back_call =
  wb_contract :: string
  wb_attempt :: string
  wb_generation :: int
  wb_now :: int
  wb_partition :: "string option"
  wb_events :: "event_input list"
  wb_state :: "contract_state option"
  wb_expected :: "int option"
  wb_blocked :: "block_reason option"
  wb_next_wakeup :: "int option"
  wb_request :: "string option"
  wb_actor :: string
  wb_schema :: int
  wb_role :: "string option"
  wb_revision :: "int option"
  wb_goal :: "string option"
  wb_model :: "string option"
  wb_usage :: dict

record write_back_result =
  wr_contract :: string
  wr_attempt :: string
  wr_generation :: int
  wr_event_ids :: "int list"
  wr_revision :: "int option"

definition int_or :: "int option \<Rightarrow> int option \<Rightarrow> int option" where
  "int_or a b = (case a of Some i \<Rightarrow> if i = 0 then b else a | None \<Rightarrow> b)"

definition text_or_opt :: "string option \<Rightarrow> string option \<Rightarrow> string option" where
  "text_or_opt a b = (case a of Some t \<Rightarrow> if t = [] then b else a | None \<Rightarrow> b)"

definition update_attempt :: "string \<Rightarrow> (attempt \<Rightarrow> attempt) \<Rightarrow> store \<Rightarrow> store" where
  "update_attempt attempt_id f s = s\<lparr>st_attempts := map (\<lambda>(k, a). (k, if k = attempt_id then f a else a)) (st_attempts s)\<rparr>"

definition write_back_report :: "write_back_call \<Rightarrow> store \<Rightarrow> store" where
  "write_back_report c s =
     (let s1 = (case wb_model c of
            Some m \<Rightarrow> if is_blank m then s
              else update_attempt (wb_attempt c) (\<lambda>a. a\<lparr>sa_model := Some (strip m), sa_updated := wb_now c\<rparr>) s
          | None \<Rightarrow> s) in
      if wb_usage c = [] then s1
      else update_attempt (wb_attempt c) (\<lambda>a. a\<lparr>sa_usage := wb_usage c, sa_updated := wb_now c\<rparr>) s1)"

definition write_back_update :: "write_back_call \<Rightarrow> contract_state \<Rightarrow> update_call" where
  "write_back_update c new_state = \<lparr>uc_contract = wb_contract c, uc_state = new_state, uc_now = wb_now c,
     uc_expected = wb_expected c, uc_blocked = wb_blocked c, uc_next_wakeup = wb_next_wakeup c, uc_deadline = None,
     uc_acceptance = None, uc_next_decision = None, uc_event = None, uc_payload = [], uc_request = None,
     uc_actor = wb_actor c, uc_schema = wb_schema c\<rparr>"

definition write_back_event :: "write_back_call \<Rightarrow> event_input \<Rightarrow> new_event" where
  "write_back_event c i = \<lparr>ne_contract = Some (wb_contract c), ne_type = ei_type i, ne_payload = ei_payload i, ne_now = wb_now c,
     ne_attempt = Some (text_or (ei_attempt i) (wb_attempt c)), ne_generation = int_or (ei_generation i) (Some (wb_generation c)),
     ne_request = text_or_opt (ei_request i) (wb_request c), ne_actor = text_or (ei_actor i) (wb_actor c),
     ne_schema = wb_schema c, ne_goal = Some (text_or (ei_goal i) (text_or (wb_goal c) (wb_contract c))),
     ne_revision = int_or (ei_revision i) (wb_revision c), ne_role = Some (text_or (ei_role i) (text_or (wb_role c) (wb_actor c))),
     ne_payload_schema = int_or (ei_payload_schema i) (Some (wb_schema c))\<rparr>"

fun append_inputs :: "write_back_call \<Rightarrow> event_input list \<Rightarrow> store \<Rightarrow> int list \<times> store" where
  "append_inputs c [] s = ([], s)"
| "append_inputs c (i # is) s = (let (e, s1) = log_event (write_back_event c i) s; (ids, s2) = append_inputs c is s1 in
     (ev_id e # ids, s2))"

definition bookkeeping_event :: "write_back_call \<Rightarrow> new_event" where
  "bookkeeping_event c = (event_call (Some (wb_contract c)) ATTEMPT_WRITE_BACK
     [(''attempt_id'', JStr (wb_attempt c)), (''write_generation'', JInt (wb_generation c)),
      (''contract_state'', jopt (\<lambda>t. JStr (contract_state_value t)) (wb_state c)), (''bookkeeping'', JBool True)] (wb_now c))
     \<lparr>ne_attempt := Some (wb_attempt c), ne_generation := Some (wb_generation c), ne_request := wb_request c,
      ne_actor := wb_actor c, ne_schema := wb_schema c, ne_goal := Some (text_or (wb_goal c) (wb_contract c)),
      ne_revision := wb_revision c, ne_role := Some (text_or (wb_role c) (wb_actor c)), ne_payload_schema := Some (wb_schema c)\<rparr>"

text \<open>\<open>checker\<close> is \<open>fence_checker\<close>; without one the code does what \<open>check_write_fence\<close> does.\<close>

definition write_back_fence :: "(lease \<Rightarrow> int \<Rightarrow> string \<Rightarrow> store_error + unit) option \<Rightarrow> write_back_call \<Rightarrow> store \<Rightarrow> store_error + unit" where
  "write_back_fence checker c s = (case get_lease s (wb_contract c) (wb_partition c) of
     None \<Rightarrow> Inl (LeaseFencedError ''write fenced: no active lease found'')
   | Some l \<Rightarrow> or_else checker check_write_fence l (wb_generation c) (wb_attempt c))"

definition write_back_result :: "write_back_call \<Rightarrow> int list \<Rightarrow> int option \<Rightarrow> write_back_result" where
  "write_back_result c ids revision = \<lparr>wr_contract = wb_contract c, wr_attempt = wb_attempt c,
     wr_generation = wb_generation c, wr_event_ids = ids, wr_revision = revision\<rparr>"

text \<open>The state change and the report of a write-back that passed the fence, then its events.\<close>

definition write_back_state :: "tzdb \<Rightarrow> write_back_call \<Rightarrow> store \<Rightarrow> store_error + int option \<times> store" where
  "write_back_state tz c s = (case wb_state c of
     None \<Rightarrow> Inr (None, write_back_report c s)
   | Some new_state \<Rightarrow> sbind (update_contract_state tz (write_back_update c new_state) (write_back_report c s))
       (\<lambda>(v, s1). Inr (Some (cv_revision v), s1)))"

definition write_back_events :: "write_back_call \<Rightarrow> int option \<Rightarrow> store \<Rightarrow> write_back_result \<times> store" where
  "write_back_events c new_revision s =
     (let (ids, s') = append_inputs c (wb_events c) s in
      if text_or (wb_request c) [] \<noteq> [] \<and> ids = []
      then (let (e, s'') = log_event (bookkeeping_event c) s' in (write_back_result c [ev_id e] new_revision, s''))
      else (write_back_result c ids new_revision, s'))"

definition write_back ::
  "tzdb \<Rightarrow> (lease \<Rightarrow> int \<Rightarrow> string \<Rightarrow> store_error + unit) option \<Rightarrow> write_back_call \<Rightarrow> store \<Rightarrow> store_error + write_back_result \<times> store" where
  "write_back tz checker c s = sbind (replayed_events s (wb_request c) (wb_contract c)) (\<lambda>existing.
     if existing \<noteq> [] then
       Inr (write_back_result c (map ev_id existing) (map_option cv_revision (get_contract s (wb_contract c))), s)
     else
       sbind (write_back_fence checker c s) (\<lambda>_.
       sbind (write_back_state tz c s) (\<lambda>(new_revision, s1). Inr (write_back_events c new_revision s1))))"

section \<open>Reading snapshots\<close>

definition acceptance_at_revision :: "store \<Rightarrow> string \<Rightarrow> int \<Rightarrow> acceptance option" where
  "acceptance_at_revision s contract_id revision =
     map_option (\<lambda>r. cd_acceptance (rr_draft r)) (map_of (st_revisions s) (contract_id, revision))"

definition attempt_evidence_binding :: "(json \<Rightarrow> string) \<Rightarrow> store \<Rightarrow> string option \<Rightarrow> int option \<Rightarrow> dict" where
  "attempt_evidence_binding digest s contract_id contract_revision = (case (contract_id, contract_revision) of
     (Some c, Some r) \<Rightarrow> (case acceptance_at_revision s c r of None \<Rightarrow> [] | Some a \<Rightarrow> evidence_binding digest a)
   | _ \<Rightarrow> [])"

definition list_contracts :: "contract_state option \<Rightarrow> string option \<Rightarrow> int \<Rightarrow> store \<Rightarrow> contract_view list" where
  "list_contracts state after limit s = sql_limit limit (sort_key cv_contract_id (filter (\<lambda>v.
      (case state of None \<Rightarrow> True | Some t \<Rightarrow> cv_state v = t) \<and>
      (case after of None \<Rightarrow> True | Some a \<Rightarrow> a < cv_contract_id v)) (map snd (st_contracts s))))"

section \<open>What the writes do\<close>

text \<open>A write of a contract: its row, one snapshot that mirrors it, and nothing else but events and notifications.\<close>

definition mirrors :: "revision_row \<Rightarrow> contract_view \<Rightarrow> bool" where
  "mirrors row v \<longleftrightarrow> rr_draft row = cv_draft v \<and> rr_state row = cv_state v \<and> rr_deadline_status row = cv_deadline_status v \<and>
     rr_acceptance_status row = cv_acceptance_status v \<and> rr_blocked_reason row = cv_blocked_reason v"

definition wrote_contract :: "string \<Rightarrow> contract_view \<Rightarrow> store \<Rightarrow> store \<Rightarrow> bool" where
  "wrote_contract contract_id v s s' \<longleftrightarrow> map_of (st_revisions s) (contract_id, cv_revision v) = None \<and>
     st_contracts s' = put contract_id v (st_contracts s) \<and> st_leases s' = st_leases s \<and>
     (\<exists>row. mirrors row v \<and> st_revisions s' = st_revisions s @ [((contract_id, cv_revision v), row)])"

lemma mirrors_snapshot [simp]: "mirrors (snapshot_of v now actor reason) v"
  by (simp add: mirrors_def snapshot_of_def)

lemma restamp_frame [simp]:
  "st_contracts (restamp_plan_approvals c r s) = st_contracts s" "st_revisions (restamp_plan_approvals c r s) = st_revisions s"
  "st_leases (restamp_plan_approvals c r s) = st_leases s" "st_goals (restamp_plan_approvals c r s) = st_goals s"
  "st_attempts (restamp_plan_approvals c r s) = st_attempts s" "st_outbox (restamp_plan_approvals c r s) = st_outbox s"
  "st_decisions (restamp_plan_approvals c r s) = st_decisions s"
  by (simp_all add: restamp_plan_approvals_def)

lemma set_contract_frame [simp]:
  "st_contracts (set_contract c v s) = put c v (st_contracts s)" "st_revisions (set_contract c v s) = st_revisions s"
  "st_leases (set_contract c v s) = st_leases s" "st_goals (set_contract c v s) = st_goals s"
  "st_log (set_contract c v s) = st_log s" "st_outbox (set_contract c v s) = st_outbox s"
  "st_attempts (set_contract c v s) = st_attempts s"
  by (simp_all add: set_contract_def)

lemma write_revision_snapshot_Inr:
  "write_revision_snapshot c r row s = Inr s' \<longleftrightarrow> map_of (st_revisions s) (c, r) = None \<and>
     s' = s\<lparr>st_revisions := st_revisions s @ [((c, r), row)]\<rparr>"
  by (auto simp: write_revision_snapshot_def)

lemma notify_state_frame:
  "notify_state tz c cur e p s = Inr s' \<Longrightarrow> \<exists>ob. s' = s\<lparr>st_outbox := ob\<rparr>"
proof -
  assume "notify_state tz c cur e p s = Inr s'"
  then have "s' = s \<or> (\<exists>ob. s' = s\<lparr>st_outbox := ob\<rparr>)"
    by (auto simp: notify_state_def split: option.splits if_splits sum.splits)
  moreover have "s = s\<lparr>st_outbox := st_outbox s\<rparr>" by simp
  ultimately show ?thesis by blast
qed

lemma updated_view_simps [simp]:
  "cv_revision (updated_view c v) = cv_revision v + 1" "cv_state (updated_view c v) = uc_state c"
  "cv_draft (updated_view c v) = cv_draft v" "cv_goal_id (updated_view c v) = cv_goal_id v"
  "cv_contract_id (updated_view c v) = cv_contract_id v"
  by (simp_all add: updated_view_def)

lemma log_event_pair: "log_event n s = (stored_event (el_next (st_log s)) n, s\<lparr>st_log := snd (append_event n (st_log s))\<rparr>)"
  by (rule prod_eqI) simp_all

lemma apply_update_Inr:
  assumes "apply_update tz c current s = Inr (v, s')"
  shows "v = updated_view c current \<and> wrote_contract (uc_contract c) v s s' \<and> st_goals s' = st_goals s"
  using assms
  by (auto simp: apply_update_def Let_def res_simps write_revision_snapshot_Inr wrote_contract_def log_event_pair
      dest!: notify_state_frame)

lemma replayed_events_fresh: "request_events s r = [] \<Longrightarrow> replayed_events s r c = Inr []"
  by (simp add: replayed_events_def)

lemma replayed_events_Inr: "replayed_events s r c = Inr es \<Longrightarrow> es = request_events s r"
  by (auto simp: replayed_events_def Let_def split: if_splits)

lemma update_fresh:
  assumes "request_events s (uc_request c) = []"
  shows "update_contract_state tz c s = (case get_contract s (uc_contract c) of
     None \<Rightarrow> Inl (StoreError ''contract not found'')
   | Some current \<Rightarrow>
       if uc_expected c \<notin> {None, Some (cv_revision current)}
       then Inl (RevisionConflictError (the (uc_expected c)) (cv_revision current))
       else if cv_state current \<noteq> uc_state c \<and> \<not> is_valid_transition (cv_state current) (uc_state c)
       then Inl (IllegalStateTransitionError (cv_state current) (uc_state c))
       else apply_update tz c current s)"
  using assms
  by (cases "uc_expected c")
    (simp_all add: update_contract_state_def replayed_events_fresh assert_legal_contract_transition_def split: option.split)

lemma update_replay:
  assumes "request_events s (uc_request c) \<noteq> []" and "update_contract_state tz c s = Inr (v, s')"
  shows "s' = s \<and> get_contract s (uc_contract c) = Some v"
  using assms(2) replayed_events_Inr [of s "uc_request c"] assms(1)
  by (cases "replayed_events s (uc_request c) (uc_contract c)")
    (fastforce simp: update_contract_state_def split: option.splits)+

lemma update_cases:
  assumes "update_contract_state tz c s = Inr (v, s')"
  obtains (replay) "request_events s (uc_request c) \<noteq> [] \<and> s' = s \<and> get_contract s (uc_contract c) = Some v"
  | (written) current where "request_events s (uc_request c) = []" and "get_contract s (uc_contract c) = Some current"
      and "uc_expected c \<in> {None, Some (cv_revision current)}"
      and "cv_state current = uc_state c \<or> is_valid_transition (cv_state current) (uc_state c)"
      and "v = updated_view c current" and "wrote_contract (uc_contract c) v s s'" and "st_goals s' = st_goals s"
proof (cases "request_events s (uc_request c) = []")
  case True
  then show ?thesis
    using assms written apply_update_Inr by (auto simp: update_fresh split: option.splits if_splits)
qed (use assms update_replay replay in blast)

lemma patch_fresh:
  assumes "request_events s (pc_request c) = []" and "patch_contract c s = Inr (v, s')"
  shows "\<exists>current. get_contract s (pc_contract c) = Some current \<and> cv_revision current = pc_expected c \<and>
    v = current\<lparr>cv_revision := cv_revision current + 1, cv_draft := patched_draft c (cv_draft current), cv_updated_at := pc_now c\<rparr> \<and>
    wrote_contract (pc_contract c) v s s' \<and> st_goals s' = st_goals s"
  using assms(2)
  by (cases "get_contract s (pc_contract c)")
    (auto simp: patch_contract_def replayed_events_fresh [OF assms(1)] Let_def res_simps write_revision_snapshot_Inr
      wrote_contract_def log_event_pair split: if_splits)

lemma patch_replay:
  assumes "request_events s (pc_request c) \<noteq> []" and "patch_contract c s = Inr (v, s')"
  shows "s' = s \<and> get_contract s (pc_contract c) = Some v"
  using assms(2) replayed_events_Inr [of s "pc_request c"] assms(1)
  by (cases "replayed_events s (pc_request c) (pc_contract c)")
    (fastforce simp: patch_contract_def split: option.splits)+

lemma save_cases:
  assumes "save_contract h c s = Inr (v, s')"
  obtains (replay) "s' = s"
  | (written) "get_contract s (sv_contract c) = None" and "cv_revision v = sv_revision c" and "cv_state v = sv_state c"
      and "wrote_contract (sv_contract c) v s s'"
proof (cases "save_replay h c s")
  case (Inr r)
  then show ?thesis
  proof (cases r)
    case None
    with assms Inr written show ?thesis
      by (auto simp: save_contract_def Let_def res_simps write_revision_snapshot_Inr wrote_contract_def upsert_goal_def
          log_event_pair split: if_splits)
  qed (use assms Inr replay in \<open>auto simp: save_contract_def\<close>)
qed (use assms in \<open>simp add: save_contract_def\<close>)

section \<open>The write-back in its parts\<close>

lemma write_back_report_frame: "\<exists>as. write_back_report c s = s\<lparr>st_attempts := as\<rparr>"
proof -
  have "\<exists>as. s = s\<lparr>st_attempts := as\<rparr>" by (rule exI [of _ "st_attempts s"]) simp
  then show ?thesis
    by (auto simp: write_back_report_def update_attempt_def Let_def split: option.splits)
qed

lemma append_inputs_frame: "\<exists>l. snd (append_inputs c is s) = s\<lparr>st_log := l\<rparr>"
proof (induction "is" arbitrary: s)
  case Nil
  show ?case by (rule exI [of _ "st_log s"]) simp
next
  case (Cons i "is")
  from Cons [of "s\<lparr>st_log := snd (append_event (write_back_event c i) (st_log s))\<rparr>"] show ?case
    by (auto simp: log_event_pair split: prod.splits)
qed

lemma wrote_contract_cong:
  assumes "st_contracts t = st_contracts s" "st_revisions t = st_revisions s" "st_leases t = st_leases s"
    "st_contracts t' = st_contracts s'" "st_revisions t' = st_revisions s'" "st_leases t' = st_leases s'"
  shows "wrote_contract c v t t' = wrote_contract c v s s'"
  using assms by (simp add: wrote_contract_def)

lemma request_events_None [simp]: "request_events s None = []"
  by (simp add: request_events_def)

definition advances :: "string \<Rightarrow> contract_view \<Rightarrow> contract_view \<Rightarrow> store \<Rightarrow> store \<Rightarrow> bool" where
  "advances contract_id current v s s' \<longleftrightarrow> get_contract s contract_id = Some current \<and> cv_revision v = cv_revision current + 1 \<and>
     (cv_state current = cv_state v \<or> is_valid_transition (cv_state current) (cv_state v)) \<and> wrote_contract contract_id v s s'"

definition untouched :: "store \<Rightarrow> store \<Rightarrow> bool" where
  "untouched s s' \<longleftrightarrow> st_contracts s' = st_contracts s \<and> st_revisions s' = st_revisions s \<and> st_leases s' = st_leases s"

lemma untouched_refl [simp]: "untouched s s"
  by (simp add: untouched_def)

lemma update_advances:
  assumes "update_contract_state tz c s = Inr (v, s')"
  shows "untouched s s' \<or> (\<exists>current. advances (uc_contract c) current v s s' \<and> uc_expected c \<in> {None, Some (cv_revision current)})"
  using assms by (cases rule: update_cases) (auto simp: advances_def)

lemma patch_advances:
  assumes "patch_contract c s = Inr (v, s')"
  shows "untouched s s' \<or> (\<exists>current. advances (pc_contract c) current v s s' \<and> cv_revision current = pc_expected c)"
proof (cases "request_events s (pc_request c) = []")
  case True
  from patch_fresh [OF this assms] obtain current where "get_contract s (pc_contract c) = Some current"
    "cv_revision current = pc_expected c" "wrote_contract (pc_contract c) v s s'"
    "v = current\<lparr>cv_revision := cv_revision current + 1, cv_draft := patched_draft c (cv_draft current), cv_updated_at := pc_now c\<rparr>"
    by blast
  then have "advances (pc_contract c) current v s s'" by (simp add: advances_def)
  with \<open>cv_revision current = pc_expected c\<close> show ?thesis by blast
qed (use patch_replay [OF _ assms] in auto)

lemma append_inputs_untouched: "append_inputs c is s = (ids, s') \<Longrightarrow> untouched s s'"
  using append_inputs_frame [of c "is" s] by (auto simp: untouched_def)

lemma write_back_events_frame:
  "write_back_events c nr s = (r, s') \<Longrightarrow> untouched s s' \<and> wr_revision r = nr"
  using append_inputs_frame [of c "wb_events c" s]
  by (cases "append_inputs c (wb_events c) s")
    (auto simp: write_back_events_def untouched_def log_event_pair write_back_result_def split: if_splits)

lemma write_back_state_cases:
  assumes "write_back_state tz c s = Inr (nr, s1)"
  shows "(wb_state c = None \<and> untouched s s1) \<or>
    (\<exists>current v. wb_state c = Some (cv_state v) \<and> advances (wb_contract c) current v s s1 \<and> nr = Some (cv_revision v) \<and>
       wb_expected c \<in> {None, Some (cv_revision current)})"
proof -
  obtain as where rep: "write_back_report c s = s\<lparr>st_attempts := as\<rparr>" using write_back_report_frame by blast
  show ?thesis
  proof (cases "wb_state c")
    case None
    moreover have "untouched s (write_back_report c s)" by (simp add: rep untouched_def)
    ultimately show ?thesis using assms by (auto simp: write_back_state_def)
  next
    case (Some t)
    with assms obtain v where u: "update_contract_state tz (write_back_update c t) (write_back_report c s) = Inr (v, s1)"
      and v: "nr = Some (cv_revision v)" by (auto simp: write_back_state_def res_simps)
    from u show ?thesis
    proof (cases rule: update_cases)
      case (written current)
      have "wrote_contract (wb_contract c) v s s1"
        using written(6) rep by (simp add: write_back_update_def wrote_contract_def)
      with written(2-5) rep have "advances (wb_contract c) current v s s1" "cv_state v = t"
        "wb_expected c \<in> {None, Some (cv_revision current)}"
        by (simp_all add: advances_def write_back_update_def get_contract_def)
      with Some v show ?thesis by blast
    qed (simp add: write_back_update_def)
  qed
qed

lemma untouched_trans: "untouched s t \<Longrightarrow> untouched t u \<Longrightarrow> untouched s u"
  by (simp add: untouched_def)

lemma advances_untouched: "advances c cur v s t \<Longrightarrow> untouched t u \<Longrightarrow> advances c cur v s u"
  unfolding advances_def untouched_def wrote_contract_def by auto

lemma write_back_replay:
  assumes "request_events s (wb_request c) \<noteq> []" and "write_back tz checker c s = Inr (r, s')"
  shows "s' = s \<and> wr_event_ids r = map ev_id (request_events s (wb_request c))"
  using assms(2) replayed_events_Inr [of s "wb_request c"] assms(1)
  by (cases "replayed_events s (wb_request c) (wb_contract c)") (fastforce simp: write_back_def write_back_result_def)+

lemma write_back_fresh:
  assumes "request_events s (wb_request c) = []" and "write_back tz checker c s = Inr (r, s')"
  shows "write_back_fence checker c s = Inr () \<and>
    ((wb_state c = None \<and> untouched s s') \<or>
     (\<exists>current v. wb_state c = Some (cv_state v) \<and> advances (wb_contract c) current v s s' \<and>
       wr_revision r = Some (cv_revision v) \<and> wb_expected c \<in> {None, Some (cv_revision current)}))"
proof -
  from assms(2) obtain nr s1 where f: "write_back_fence checker c s = Inr ()"
    and st: "write_back_state tz c s = Inr (nr, s1)" and ev: "write_back_events c nr s1 = (r, s')"
    by (auto simp: write_back_def replayed_events_fresh [OF assms(1)] res_simps)
  show ?thesis
    using f write_back_state_cases [OF st] write_back_events_frame [OF ev]
    by (auto intro: untouched_trans dest: advances_untouched)
qed

section \<open>Reachable stores\<close>

inductive contract_step :: "pyhost \<Rightarrow> tzdb \<Rightarrow> store \<Rightarrow> store \<Rightarrow> bool" for h tz where
  step_save: "save_contract h c s = Inr (v, s') \<Longrightarrow> contract_step h tz s s'"
| step_update: "update_contract_state tz c s = Inr (v, s') \<Longrightarrow> contract_step h tz s s'"
| step_patch: "patch_contract c s = Inr (v, s') \<Longrightarrow> contract_step h tz s s'"
| step_write_back: "write_back tz checker w s = Inr (r, s') \<Longrightarrow> contract_step h tz s s'"
| step_lease: "lease_step s s' \<Longrightarrow> contract_step h tz s s'"

inductive contract_steps :: "pyhost \<Rightarrow> tzdb \<Rightarrow> store \<Rightarrow> store \<Rightarrow> bool" for h tz where
  steps_refl: "contract_steps h tz s s"
| steps_step: "contract_steps h tz s t \<Longrightarrow> contract_step h tz t u \<Longrightarrow> contract_steps h tz s u"

definition creates :: "string \<Rightarrow> contract_view \<Rightarrow> store \<Rightarrow> store \<Rightarrow> bool" where
  "creates contract_id v s s' \<longleftrightarrow> get_contract s contract_id = None \<and> wrote_contract contract_id v s s'"

lemma lease_step_contracts: "lease_step s s' \<Longrightarrow> st_contracts s' = st_contracts s \<and> st_revisions s' = st_revisions s"
proof (induction rule: lease_step.induct)
  case (acquire c s l s')
  then show ?case by (cases rule: acquire_lease_cases) (auto simp: lease_write_def)
next
  case (reclaim c s l s')
  then show ?case by (cases rule: reclaim_lease_cases) (auto simp: lease_write_def)
next
  case (renew c s l s')
  then show ?case by (cases rule: renew_lease_cases) (auto simp: lease_write_def)
next
  case (release c s s')
  then show ?case by (cases rule: release_lease_cases) (auto simp: lease_write_def)
qed

lemma contract_step_change:
  assumes "contract_step h tz s s'"
  obtains (same) "st_contracts s' = st_contracts s \<and> st_revisions s' = st_revisions s"
  | (advance) c current v where "advances c current v s s'"
  | (create) c v where "creates c v s s'"
  using assms
proof cases
  case (step_save c v)
  then show ?thesis by (cases rule: save_cases) (use same create in \<open>auto simp: creates_def\<close>)
next
  case (step_update c v)
  from update_advances [OF this] show ?thesis using same advance by (auto simp: untouched_def)
next
  case (step_patch c v)
  from patch_advances [OF this] show ?thesis using same advance by (auto simp: untouched_def)
next
  case (step_write_back checker w r)
  then show ?thesis
    using write_back_replay [OF _ step_write_back] write_back_fresh [OF _ step_write_back] same advance
    by (cases "request_events s (wb_request w) = []") (auto simp: untouched_def)
next
  case step_lease
  then show ?thesis using same lease_step_contracts by blast
qed

text \<open>The recorded revisions of a contract, oldest first.\<close>

definition revisions_of :: "store \<Rightarrow> string \<Rightarrow> (int \<times> revision_row) list" where
  "revisions_of s contract_id = map (\<lambda>p. (snd (fst p), snd p)) (filter (\<lambda>p. fst (fst p) = contract_id) (st_revisions s))"

definition recorded :: "contract_view \<Rightarrow> (int \<times> revision_row) list \<Rightarrow> bool" where
  "recorded v rs \<longleftrightarrow> rs \<noteq> [] \<and> (\<exists>first \<le> cv_revision v. map fst rs = [first..cv_revision v]) \<and> mirrors (snd (last rs)) v \<and>
     contract_lc.history (map (\<lambda>r. rr_state (snd r)) rs)"

definition history_at :: "store \<Rightarrow> string \<Rightarrow> bool" where
  "history_at s c \<longleftrightarrow> (case get_contract s c of None \<Rightarrow> revisions_of s c = [] | Some v \<Rightarrow> recorded v (revisions_of s c))"

definition history_ok :: "store \<Rightarrow> bool" where
  "history_ok s \<longleftrightarrow> (\<forall>c. history_at s c)"

lemma history_at_cong:
  "revisions_of s' c = revisions_of s c \<Longrightarrow> get_contract s' c = get_contract s c \<Longrightarrow> history_at s' c = history_at s c"
  by (simp add: history_at_def split: option.split)

lemma history_ok_empty: "history_ok empty_store"
  by (simp add: history_ok_def history_at_def empty_store_def get_contract_def revisions_of_def)

lemma wrote_contract_revisions:
  assumes "wrote_contract c v s s'"
  obtains row where "mirrors row v" and "revisions_of s' c = revisions_of s c @ [(cv_revision v, row)]"
    and "\<And>d. d \<noteq> c \<Longrightarrow> revisions_of s' d = revisions_of s d" and "\<And>d. get_contract s' d = (if d = c then Some v else get_contract s d)"
  using assms by (auto simp: wrote_contract_def revisions_of_def get_contract_def)

lemma recorded_single: "mirrors row v \<Longrightarrow> recorded v [(cv_revision v, row)]"
  by (auto simp: recorded_def intro!: exI [of _ "cv_revision v"])

lemma recorded_extend:
  assumes "recorded current rs" and "cv_revision v = cv_revision current + 1" and "mirrors row v"
    and "cv_state current = cv_state v \<or> is_valid_transition (cv_state current) (cv_state v)"
  shows "recorded v (rs @ [(cv_revision v, row)])"
proof -
  from assms(1) obtain first where f: "first \<le> cv_revision current" "map fst rs = [first..cv_revision current]"
    by (auto simp: recorded_def)
  then have "map fst (rs @ [(cv_revision v, row)]) = [first..cv_revision v]"
    using assms(2) upto_rec2 [of first "cv_revision v"] by simp
  moreover from assms(1) obtain init lst where rs: "rs = init @ [lst]" by (cases rs rule: rev_cases) (auto simp: recorded_def)
  moreover have "contract_lc.history (map (\<lambda>r. rr_state (snd r)) init @ [rr_state (snd lst), rr_state row])"
    using assms rs by (intro contract_lc.history_snoc) (auto simp: recorded_def mirrors_def)
  ultimately show ?thesis using assms(2,3) f by (auto simp: recorded_def intro!: exI [of _ first])
qed

lemma history_ok_wrote:
  assumes "history_ok s" and "wrote_contract c v s s'"
    and "\<And>row. mirrors row v \<Longrightarrow> recorded v (revisions_of s c @ [(cv_revision v, row)])"
  shows "history_ok s'"
  unfolding history_ok_def
proof
  fix d
  from wrote_contract_revisions [OF assms(2)] obtain row where
    row: "mirrors row v" "revisions_of s' c = revisions_of s c @ [(cv_revision v, row)]"
    "\<And>d. d \<noteq> c \<Longrightarrow> revisions_of s' d = revisions_of s d" "\<And>d. get_contract s' d = (if d = c then Some v else get_contract s d)"
    by blast
  show "history_at s' d"
  proof (cases "d = c")
    case True
    then show ?thesis using assms(3) row by (simp add: history_at_def)
  next
    case False
    then have "history_at s' d = history_at s d" by (intro history_at_cong) (simp_all add: row)
    then show ?thesis using assms(1) by (simp add: history_ok_def)
  qed
qed

lemma history_ok_step:
  assumes "contract_step h tz s s'" and "history_ok s"
  shows "history_ok s'"
  using assms(1)
proof (cases rule: contract_step_change)
  case same
  then have "history_at s' c = history_at s c" for c
    by (intro history_at_cong) (simp_all add: get_contract_def revisions_of_def)
  then show ?thesis using assms(2) by (simp add: history_ok_def)
next
  case (advance c current v)
  have "recorded current (revisions_of s c)"
    using advance assms(2) by (auto simp: history_ok_def history_at_def advances_def dest: spec [of _ c])
  with advance have "recorded v (revisions_of s c @ [(cv_revision v, row)])" if "mirrors row v" for row
    using that unfolding advances_def by (blast intro: recorded_extend)
  then show ?thesis using advance assms(2) by (auto simp: advances_def intro: history_ok_wrote)
next
  case (create c v)
  have "revisions_of s c = []"
    using create assms(2) by (auto simp: history_ok_def history_at_def creates_def dest: spec [of _ c])
  then have "recorded v (revisions_of s c @ [(cv_revision v, row)])" if "mirrors row v" for row
    using that by (simp add: recorded_single)
  then show ?thesis using create assms(2) by (auto simp: creates_def intro: history_ok_wrote)
qed

lemma history_ok_steps: "contract_steps h tz s s' \<Longrightarrow> history_ok s \<Longrightarrow> history_ok s'"
  by (induction rule: contract_steps.induct) (auto intro: history_ok_step)

lemma snapshot_kept_step:
  assumes "contract_step h tz s s'" and "map_of (st_revisions s) k = Some row"
  shows "map_of (st_revisions s') k = Some row"
  using assms(1)
  by (cases rule: contract_step_change) (use assms(2) in \<open>auto simp: advances_def creates_def wrote_contract_def\<close>)

lemma snapshot_kept: "contract_steps h tz s s' \<Longrightarrow> map_of (st_revisions s) k = Some row \<Longrightarrow> map_of (st_revisions s') k = Some row"
  by (induction rule: contract_steps.induct) (auto intro: snapshot_kept_step)

section \<open>The revision as a version\<close>

datatype contract_write = UpdateState update_call | Patch patch_call | WriteBack write_back_call

fun write_contract :: "tzdb \<Rightarrow> (lease \<Rightarrow> int \<Rightarrow> string \<Rightarrow> store_error + unit) option \<Rightarrow> contract_write \<Rightarrow> store \<Rightarrow> store_error + store" where
  "write_contract tz checker (UpdateState c) s = sbind (update_contract_state tz c s) (\<lambda>(v, s'). Inr s')"
| "write_contract tz checker (Patch c) s = sbind (patch_contract c s) (\<lambda>(v, s'). Inr s')"
| "write_contract tz checker (WriteBack c) s = sbind (write_back tz checker c s) (\<lambda>(r, s'). Inr s')"

fun write_target :: "contract_write \<Rightarrow> string" where
  "write_target (UpdateState c) = uc_contract c"
| "write_target (Patch c) = pc_contract c"
| "write_target (WriteBack c) = wb_contract c"

fun write_expected :: "contract_write \<Rightarrow> int option" where
  "write_expected (UpdateState c) = uc_expected c"
| "write_expected (Patch c) = Some (pc_expected c)"
| "write_expected (WriteBack c) = wb_expected c"

text \<open>Replays, and write-backs that only append events, keep the revision.\<close>

fun write_silent :: "contract_write \<Rightarrow> store \<Rightarrow> bool" where
  "write_silent (UpdateState c) s = (request_events s (uc_request c) \<noteq> [])"
| "write_silent (Patch c) s = (request_events s (pc_request c) \<noteq> [])"
| "write_silent (WriteBack c) s = (request_events s (wb_request c) \<noteq> [] \<or> wb_state c = None)"

definition contract_version :: "store \<Rightarrow> string \<Rightarrow> int option" where
  "contract_version s c = map_option cv_revision (get_contract s c)"

lemma contract_version_untouched: "untouched s s' \<Longrightarrow> contract_version s' c = contract_version s c"
  by (simp add: contract_version_def untouched_def get_contract_def)

lemma contract_version_advances:
  assumes "advances c current v s s'"
  shows "contract_version s c = Some (cv_revision current)" "contract_version s' c = Some (cv_revision current + 1)"
    "d \<noteq> c \<Longrightarrow> contract_version s' d = contract_version s d"
  using assms by (simp_all add: contract_version_def advances_def wrote_contract_def get_contract_def)

lemma write_contract_effect:
  assumes "write_contract tz checker w s = Inr s'"
  shows "(write_silent w s \<and> untouched s s') \<or>
    (\<not> write_silent w s \<and> (\<exists>current v. advances (write_target w) current v s s' \<and> write_expected w \<in> {None, Some (cv_revision current)}))"
proof (cases w)
  case (UpdateState c)
  with assms obtain v where u: "update_contract_state tz c s = Inr (v, s')" by (auto simp: res_simps)
  from u show ?thesis
  proof (cases rule: update_cases)
    case (written current)
    then have "advances (uc_contract c) current v s s'" by (auto simp: advances_def)
    with written UpdateState show ?thesis by auto
  qed (use UpdateState in auto)
next
  case (Patch c)
  with assms obtain v where p: "patch_contract c s = Inr (v, s')" by (auto simp: res_simps)
  show ?thesis
  proof (cases "request_events s (pc_request c) = []")
    case True
    from patch_fresh [OF this p] obtain current where "advances (pc_contract c) current v s s'" "cv_revision current = pc_expected c"
      by (auto simp: advances_def)
    with True Patch show ?thesis by auto
  qed (use patch_replay [OF _ p] Patch in auto)
next
  case (WriteBack c)
  with assms obtain r where b: "write_back tz checker c s = Inr (r, s')" by (auto simp: res_simps)
  show ?thesis
  proof (cases "request_events s (wb_request c) = []")
    case True
    from write_back_fresh [OF this b] True WriteBack show ?thesis by auto
  qed (use write_back_replay [OF _ b] WriteBack in auto)
qed

interpretation contract_cells: versioned_cells contract_version "write_contract tz checker" write_target write_expected write_silent
  for tz checker
  by unfold_locales (auto dest!: write_contract_effect simp: contract_version_untouched contract_version_advances)

section \<open>Requests\<close>

lemma request_events_text: "request_events s r = (if text_or r [] = [] then [] else
     filter (\<lambda>e. ev_request e = r) (el_rows (st_log s)))"
  by (auto simp: request_events_def text_or_def get_events_by_request_id_def split: option.splits)

lemma append_inputs_rows:
  "append_inputs c is s = (ids, s') \<Longrightarrow> \<exists>new. el_rows (st_log s') = el_rows (st_log s) @ new \<and> ids = map ev_id new \<and>
     map ev_request new = map (\<lambda>i. text_or_opt (ei_request i) (wb_request c)) is \<and>
     (\<forall>e \<in> set new. ev_contract e = Some (wb_contract c))"
proof (induction "is" arbitrary: s ids)
  case Nil
  then show ?case by simp
next
  case (Cons i "is")
  let ?s = "s\<lparr>st_log := snd (append_event (write_back_event c i) (st_log s))\<rparr>"
  obtain ids' where r: "append_inputs c is ?s = (ids', s')" "ids = el_next (st_log s) # ids'"
    using Cons.prems by (auto simp: log_event_pair split: prod.splits)
  from Cons.IH [OF r(1)] obtain new where new: "el_rows (st_log s') = el_rows (st_log ?s) @ new" "ids' = map ev_id new"
    "map ev_request new = map (\<lambda>i. text_or_opt (ei_request i) (wb_request c)) is" "\<forall>e \<in> set new. ev_contract e = Some (wb_contract c)"
    by blast
  show ?case
    using new r(2)
    by (intro exI [of _ "stored_event (el_next (st_log s)) (write_back_event c i) # new"]) (simp add: write_back_event_def)
qed

lemma restamp_requests:
  "map (\<lambda>e. (ev_id e, ev_contract e, ev_request e)) (el_rows (st_log (restamp_plan_approvals c r s))) =
   map (\<lambda>e. (ev_id e, ev_contract e, ev_request e)) (el_rows (st_log s))"
  by (auto simp: restamp_plan_approvals_def)

end
