(* ===== verification/Contract_Properties.thy ===== *)
theory Contract_Properties
  imports Contract_Store
begin

text \<open>
  What \<open>Contract_Store\<close> guarantees: serialised revisions, a legal and gapless revision history, evidence bound to
  the revision it was produced at, fenced and repeatable write-backs, and the outcome of a state change on every branch.
\<close>

section \<open>A concrete contract\<close>

definition sample_save :: save_call where
  "sample_save = \<lparr>sv_draft = sample_contract_draft, sv_contract = ''c1'', sv_now = 10, sv_goal = None, sv_state = Drafted,
     sv_revision = 1, sv_next_wakeup = None, sv_blocked = None, sv_deadline = NotDue, sv_acceptance = Pending,
     sv_next_decision = None, sv_request = None, sv_actor = ''user'', sv_schema = 6\<rparr>"

definition sample_view :: contract_view where
  "sample_view = \<lparr>cv_draft = sample_contract_draft, cv_contract_id = ''c1'', cv_goal_id = ''c1'', cv_revision = 1,
     cv_state = Drafted, cv_deadline_status = NotDue, cv_acceptance_status = Pending, cv_created_at = 10, cv_updated_at = 10,
     cv_next_wakeup_at = None, cv_next_decision_at = None, cv_blocked_reason = None\<rparr>"

definition sample_update :: "contract_state \<Rightarrow> int option \<Rightarrow> update_call" where
  "sample_update t expected = \<lparr>uc_contract = ''c1'', uc_state = t, uc_now = 20, uc_expected = expected, uc_blocked = None,
     uc_next_wakeup = None, uc_deadline = None, uc_acceptance = None, uc_next_decision = None, uc_event = None,
     uc_payload = [], uc_request = None, uc_actor = ''daemon'', uc_schema = 6\<rparr>"

definition sample_store :: store where
  "sample_store = snd (projr (save_contract unary_host sample_save empty_store))"

lemmas save_eval = save_contract_def save_replay_def sample_save_def request_events_def Let_def text_or_def
  get_contract_def upsert_goal_def empty_store_def write_revision_snapshot_def

lemma sample_saved: "save_contract unary_host sample_save empty_store = Inr (sample_view, sample_store)"
  by (simp add: sample_store_def save_eval sample_view_def)

lemma sample_contract: "get_contract sample_store ''c1'' = Some sample_view"
  by (simp add: sample_store_def save_eval sample_view_def)

lemma sample_update_simps [simp]:
  "uc_contract (sample_update t e) = ''c1''" "uc_state (sample_update t e) = t" "uc_expected (sample_update t e) = e"
  "uc_request (sample_update t e) = None"
  by (simp_all add: sample_update_def)

lemma sample_view_simps [simp]: "cv_revision sample_view = 1" "cv_state sample_view = Drafted"
  by (simp_all add: sample_view_def)

lemma sample_store_steps: "contract_steps unary_host tz empty_store sample_store"
  by (rule steps_step [OF steps_refl step_save [OF sample_saved]])

lemma sample_history: "history_ok sample_store"
  using history_ok_steps [OF sample_store_steps history_ok_empty] .

section \<open>State changes on every branch\<close>

lemma next_revision_free:
  assumes "history_ok s" and "get_contract s c = Some v"
  shows "map_of (st_revisions s) (c, cv_revision v + 1) = None"
proof (rule ccontr)
  assume "map_of (st_revisions s) (c, cv_revision v + 1) \<noteq> None"
  then obtain row where "((c, cv_revision v + 1), row) \<in> set (st_revisions s)" by (auto dest: map_of_SomeD)
  then have "cv_revision v + 1 \<in> set (map fst (revisions_of s c))" by (force simp: revisions_of_def)
  moreover from assms have "recorded v (revisions_of s c)"
    by (auto simp: history_ok_def history_at_def dest: spec [of _ c])
  then obtain first where "map fst (revisions_of s c) = [first..cv_revision v]" by (auto simp: recorded_def)
  ultimately show False by (simp only: set_upto) simp
qed

lemma enqueue_state_ok:
  assumes "notification_kind e t = Some kind"
  shows "\<exists>ob'. enqueue_notification (c @ '':event:'' @ i) kind ''local'' p now g a ob = Inr ob'"
proof -
  have "\<not> is_blank kind"
    using assms by (auto simp: notification_kind_def Let_def is_blank_iff is_space_def split: if_splits)
  moreover have "\<not> is_blank (c @ '':event:'' @ i)" "\<not> is_blank ''local''"
    by (auto simp: is_blank_iff is_space_def)
  ultimately show ?thesis by (simp add: enqueue_notification_def)
qed

lemma notify_state_ok: "\<exists>s'. notify_state tz c current e p s = Inr s'"
proof (cases "notification_kind (chosen_event c) (uc_state c)")
  case (Some kind)
  from enqueue_state_ok [OF this] show ?thesis
    by (simp add: notify_state_def Some) (metis sum.case(2))
qed (simp add: notify_state_def)

lemma apply_update_total:
  assumes "history_ok s" and "get_contract s (uc_contract c) = Some current"
  shows "\<exists>s'. apply_update tz c current s = Inr (updated_view c current, s')"
proof -
  have "\<exists>s'. notify_state tz c current e p t = Inr s'" for e p t by (rule notify_state_ok)
  then show ?thesis
    using next_revision_free [OF assms]
    by (simp add: apply_update_def Let_def write_revision_snapshot_def log_event_pair) (metis sbind_Inr)
qed

text \<open>
  Every outcome of a state change of a contract that exists, in a store reached from the empty one, with a
  request that was not used before. A wrong expected revision is refused; then an illegal transition is refused; in all other
  cases the call succeeds, with the revision raised by one and the new state, and the draft unchanged.
\<close>

theorem state_change_outcome:
  assumes "contract_steps h tz empty_store s" and "request_events s (uc_request c) = []"
    and "get_contract s (uc_contract c) = Some current"
  shows "(uc_expected c \<notin> {None, Some (cv_revision current)} \<longrightarrow>
      update_contract_state tz c s = Inl (RevisionConflictError (the (uc_expected c)) (cv_revision current))) \<and>
    (uc_expected c \<in> {None, Some (cv_revision current)} \<and> \<not> (cv_state current = uc_state c \<or> is_valid_transition (cv_state current) (uc_state c)) \<longrightarrow>
      update_contract_state tz c s = Inl (IllegalStateTransitionError (cv_state current) (uc_state c))) \<and>
    (uc_expected c \<in> {None, Some (cv_revision current)} \<and> (cv_state current = uc_state c \<or> is_valid_transition (cv_state current) (uc_state c)) \<longrightarrow>
      (\<exists>v s'. update_contract_state tz c s = Inr (v, s') \<and> get_contract s' (uc_contract c) = Some v \<and>
         cv_revision v = cv_revision current + 1 \<and> cv_state v = uc_state c \<and> cv_draft v = cv_draft current))"
proof -
  have "history_ok s" using history_ok_steps [OF assms(1) history_ok_empty] .
  from apply_update_total [OF this assms(3)] obtain s' where s': "apply_update tz c current s = Inr (updated_view c current, s')"
    by blast
  have "get_contract s' (uc_contract c) = Some (updated_view c current)"
    using apply_update_Inr [OF s'] by (simp add: wrote_contract_def get_contract_def)
  then show ?thesis using s' by (auto simp: update_fresh [OF assms(2)] assms(3))
qed

theorem state_change_outcome_witness:
  "(\<exists>v s'. update_contract_state sample_tz (sample_update Active (Some 1)) sample_store = Inr (v, s') \<and> cv_revision v = 2) \<and>
   update_contract_state sample_tz (sample_update Complete None) sample_store = Inl (IllegalStateTransitionError Drafted Complete) \<and>
   update_contract_state sample_tz (sample_update Active (Some 7)) sample_store = Inl (RevisionConflictError 7 1)"
proof -
  note outcome = state_change_outcome [OF sample_store_steps, of "sample_update t e" sample_view sample_tz for t e,
      simplified sample_update_simps sample_contract request_events_None, OF refl refl]
  from outcome [of "Some 1" Active] have "\<exists>v s'. update_contract_state sample_tz (sample_update Active (Some 1)) sample_store = Inr (v, s') \<and> cv_revision v = 2"
    by (simp add: contract_table) blast
  moreover from outcome [of None Complete] have
    "update_contract_state sample_tz (sample_update Complete None) sample_store = Inl (IllegalStateTransitionError Drafted Complete)"
    by (simp add: contract_table)
  moreover from outcome [of "Some 7" Active] have
    "update_contract_state sample_tz (sample_update Active (Some 7)) sample_store = Inl (RevisionConflictError 7 1)"
    by simp
  ultimately show ?thesis by blast
qed

section \<open>Revisions\<close>

text \<open>
  C4: No update is lost. In any sequence of successful state changes, amendments and write-backs the revision
  of a contract grows by one for each that took effect, and two that took effect never named the same expected revision.
\<close>

theorem contract_writes_serialised:
  assumes "contract_cells.run tz checker s ws s'" and "get_contract s k = Some v"
  shows "\<exists>v'. get_contract s' k = Some v' \<and> cv_revision v' = cv_revision v + int (length (contract_cells.on_target k ws)) \<and>
    (\<forall>i j. i < j \<and> j < length (contract_cells.on_target k ws) \<and> write_expected (contract_cells.on_target k ws ! i) \<noteq> None \<longrightarrow>
       write_expected (contract_cells.on_target k ws ! i) \<noteq> write_expected (contract_cells.on_target k ws ! j))"
proof -
  have v: "contract_version s k = Some (cv_revision v)" by (simp add: contract_version_def assms(2))
  from contract_cells.run_versions [OF assms(1) v] obtain v' where "get_contract s' k = Some v'"
    "cv_revision v' = cv_revision v + int (length (contract_cells.on_target k ws))"
    by (auto simp: contract_version_def)
  then show ?thesis using contract_cells.winners_distinct [OF assms(1) v] by blast
qed

theorem contract_writes_serialised_witness:
  "\<exists>s' v'. contract_cells.run sample_tz None sample_store [UpdateState (sample_update Active (Some 1))] s' \<and>
     get_contract s' ''c1'' = Some v' \<and> cv_revision v' = 2"
proof -
  have c: "uc_contract (sample_update Active (Some 1)) = ''c1''" "request_events sample_store (uc_request (sample_update Active (Some 1))) = []"
    by (simp_all add: sample_update_def)
  from apply_update_total [OF sample_history, of "sample_update Active (Some 1)" sample_view] obtain s' where
    "apply_update sample_tz (sample_update Active (Some 1)) sample_view sample_store = Inr (updated_view (sample_update Active (Some 1)) sample_view, s')"
    by (auto simp: c sample_contract)
  then have "write_contract sample_tz None (UpdateState (sample_update Active (Some 1))) sample_store = Inr s'"
    by (simp add: update_fresh [OF c(2)] c(1) sample_contract) (simp add: sample_update_def sample_view_def contract_table)
  then have r: "contract_cells.run sample_tz None sample_store ([] @ [UpdateState (sample_update Active (Some 1))]) s'"
    by (rule contract_cells.run_write [OF contract_cells.run_none]) (simp add: c(2))
  with contract_writes_serialised [OF r sample_contract] show ?thesis
    by (auto simp: contract_cells.on_target_def c(1))
qed

text \<open>
  The revision history of a contract under the writes of the store alone. In every store that they reach the recorded revisions of a contract
  are numbered without a gap up to its current revision, consecutive states are equal or legal transitions, the newest entry
  is the contract as it stands, and once a terminal state was recorded the contract is still in it. (The theory \<open>History\<close> adds the
  writers that keep the revision.)
\<close>

theorem store_history_sound:
  assumes "contract_steps h tz empty_store s" and "get_contract s c = Some v"
  shows "(\<exists>first \<le> cv_revision v. map fst (revisions_of s c) = [first..cv_revision v]) \<and> mirrors (snd (last (revisions_of s c))) v \<and>
    contract_lc.history (map (\<lambda>r. rr_state (snd r)) (revisions_of s c)) \<and>
    (\<forall>r \<in> set (revisions_of s c). is_terminal_state (rr_state (snd r)) \<longrightarrow> cv_state v = rr_state (snd r))"
proof -
  have rec: "recorded v (revisions_of s c)"
    using history_ok_steps [OF assms(1) history_ok_empty] assms(2) by (auto simp: history_ok_def history_at_def dest: spec [of _ c])
  let ?hs = "map (\<lambda>r. rr_state (snd r)) (revisions_of s c)"
  obtain init lst where l: "revisions_of s c = init @ [lst]" using rec by (cases "revisions_of s c" rule: rev_cases) (auto simp: recorded_def)
  have h: "contract_lc.history (map (\<lambda>r. rr_state (snd r)) init @ [cv_state v])"
    using rec by (auto simp: recorded_def l mirrors_def)
  have "cv_state v = rr_state (snd r)" if "r \<in> set (revisions_of s c)" "is_terminal_state (rr_state (snd r))" for r
  proof (cases "r \<in> set init")
    case True
    then show ?thesis using contract_lc.history_last_terminal [OF h, of "rr_state (snd r)"] that(2) by simp
  next
    case False
    then show ?thesis using that(1) rec by (simp add: l recorded_def mirrors_def)
  qed
  then show ?thesis using rec unfolding recorded_def by blast
qed

theorem store_history_sound_witness:
  "map fst (revisions_of sample_store ''c1'') = [1] \<and> mirrors (snd (last (revisions_of sample_store ''c1''))) sample_view"
proof -
  from store_history_sound [OF sample_store_steps sample_contract] have
    "mirrors (snd (last (revisions_of sample_store ''c1''))) sample_view" by blast
  moreover have "map fst (revisions_of sample_store ''c1'') = [1]"
    by (simp add: sample_store_def save_eval revisions_of_def)
  ultimately show ?thesis by blast
qed

text \<open>
  Evidence stays bound to what was asked. The binding that a verifier's evidence carries is computed from
  the snapshot of the revision the attempt was admitted at; no later creation, state change, amendment, write-back or lease
  operation changes it.
\<close>

theorem evidence_binding_stable:
  assumes "contract_steps h tz s s'" and "acceptance_at_revision s c r = Some a"
  shows "attempt_evidence_binding digest s' (Some c) (Some r) = evidence_binding digest a \<and>
    attempt_evidence_binding digest s (Some c) (Some r) = evidence_binding digest a"
proof -
  from assms(2) obtain row where "map_of (st_revisions s) (c, r) = Some row" "a = cd_acceptance (rr_draft row)"
    by (auto simp: acceptance_at_revision_def)
  with snapshot_kept [OF assms(1)] show ?thesis
    by (simp add: attempt_evidence_binding_def acceptance_at_revision_def)
qed

definition sample_patch :: patch_call where
  "sample_patch = \<lparr>pc_contract = ''c1'', pc_expected = 1, pc_now = 30, pc_guidance = None,
     pc_acceptance = Some (sample_acceptance ''other'' JNull), pc_workload = None, pc_request = None, pc_actor = ''user'', pc_schema = 6\<rparr>"

theorem evidence_binding_stable_witness:
  "\<exists>v s'. patch_contract sample_patch sample_store = Inr (v, s') \<and> cd_acceptance (cv_draft v) = sample_acceptance ''other'' JNull \<and>
     attempt_evidence_binding sample_repr s' (Some ''c1'') (Some 1) = evidence_binding sample_repr (cd_acceptance sample_contract_draft)"
proof -
  have f: "map_of (st_revisions sample_store) (''c1'', 2) = None"
    using next_revision_free [OF sample_history sample_contract] by (simp add: sample_view_def)
  obtain v s' where p: "patch_contract sample_patch sample_store = Inr (v, s')"
    and v: "cd_acceptance (cv_draft v) = sample_acceptance ''other'' JNull"
    using f by (simp add: patch_contract_def sample_patch_def replayed_events_def sample_contract Let_def write_revision_snapshot_def
        sample_view_def patched_draft_def or_else_def)
  have "contract_steps unary_host sample_tz sample_store s'" by (rule steps_step [OF steps_refl step_patch [OF p]])
  moreover have "acceptance_at_revision sample_store ''c1'' 1 = Some (cd_acceptance sample_contract_draft)"
    by (simp add: acceptance_at_revision_def sample_store_def save_eval snapshot_of_def)
  ultimately have "attempt_evidence_binding sample_repr s' (Some ''c1'') (Some 1) = evidence_binding sample_repr (cd_acceptance sample_contract_draft) \<and>
      attempt_evidence_binding sample_repr sample_store (Some ''c1'') (Some 1) = evidence_binding sample_repr (cd_acceptance sample_contract_draft)"
    by (rule evidence_binding_stable)
  with p v show ?thesis by blast
qed

section \<open>Write-backs\<close>

text \<open>
  C3: Only the holder writes back. A write-back that succeeds moves no lease; it either repeats a request that was
  already recorded and changes nothing, or its request is new and the fence let it through: the lease of its contract and partition
  exists, and without a checker of its own (no caller under \<open>src\<close> passes one) its attempt is the holder and its
  generation the current one. Otherwise a new request is refused as fenced. The fence compares holder and
  generation only: the age of the lease does not matter, an expired lease that nobody took over still writes.
\<close>

theorem write_back_is_fenced:
  "(\<forall>r s'. write_back tz checker c s = Inr (r, s') \<longrightarrow> st_leases s' = st_leases s \<and>
      (if request_events s (wb_request c) \<noteq> [] then s' = s
       else \<exists>l. get_lease s (wb_contract c) (wb_partition c) = Some l \<and>
         (case checker of None \<Rightarrow> le_holder l = wb_attempt c \<and> le_generation l = wb_generation c
          | Some f \<Rightarrow> f l (wb_generation c) (wb_attempt c) = Inr ()))) \<and>
   (request_events s (wb_request c) = [] \<longrightarrow>
      (if holds s (wb_contract c, partition_key (wb_partition c)) = Some (wb_attempt c, wb_generation c)
       then write_back tz None c s = sbind (write_back_state tz c s) (\<lambda>(r, s'). Inr (write_back_events c r s'))
       else \<exists>m. write_back tz None c s = Inl (LeaseFencedError m)))"
proof -
  have "st_leases s' = st_leases s \<and>
      (if request_events s (wb_request c) \<noteq> [] then s' = s
       else \<exists>l. get_lease s (wb_contract c) (wb_partition c) = Some l \<and>
         (case checker of None \<Rightarrow> le_holder l = wb_attempt c \<and> le_generation l = wb_generation c
          | Some f \<Rightarrow> f l (wb_generation c) (wb_attempt c) = Inr ()))"
    if w: "write_back tz checker c s = Inr (r, s')" for r s'
  proof (cases "request_events s (wb_request c) = []")
    case True
    from write_back_fresh [OF True w] have "st_leases s' = st_leases s" by (auto simp: untouched_def advances_def wrote_contract_def)
    moreover from write_back_fresh [OF True w] have "write_back_fence checker c s = Inr ()" by blast
    ultimately show ?thesis
      using True by (auto simp: write_back_fence_def check_write_fence_def or_else_def split: option.splits if_splits)
  qed (use write_back_replay [OF _ w] in auto)
  moreover have "if holds s (wb_contract c, partition_key (wb_partition c)) = Some (wb_attempt c, wb_generation c)
      then write_back tz None c s = sbind (write_back_state tz c s) (\<lambda>(r, s'). Inr (write_back_events c r s'))
      else \<exists>m. write_back tz None c s = Inl (LeaseFencedError m)" if "request_events s (wb_request c) = []"
    by (cases "map_of (st_leases s) (wb_contract c, partition_key (wb_partition c))")
      (auto simp: write_back_def replayed_events_fresh [OF that] write_back_fence_def get_lease_def holds_def or_else_def
        check_write_fence_def)
  ultimately show ?thesis by blast
qed

definition sample_write_back :: "string \<Rightarrow> int \<Rightarrow> string \<Rightarrow> write_back_call" where
  "sample_write_back attempt_id generation request = \<lparr>wb_contract = ''c1'', wb_attempt = attempt_id, wb_generation = generation, wb_now = 40,
     wb_partition = None, wb_events = [], wb_state = None, wb_expected = None, wb_blocked = None, wb_next_wakeup = None,
     wb_request = Some request, wb_actor = ''model'', wb_schema = 6, wb_role = None, wb_revision = None, wb_goal = None,
     wb_model = None, wb_usage = []\<rparr>"

definition leased_store :: store where
  "leased_store = empty_store\<lparr>st_leases := [((''c1'', []), lease_row (sample_call ''a'' 1 ''r1'') ''a'' 2)]\<rparr>"

lemma sample_write_back_simps [simp]:
  "wb_contract (sample_write_back a g r) = ''c1''" "wb_attempt (sample_write_back a g r) = a"
  "wb_generation (sample_write_back a g r) = g" "wb_partition (sample_write_back a g r) = None"
  "wb_events (sample_write_back a g r) = []" "wb_state (sample_write_back a g r) = None"
  "wb_request (sample_write_back a g r) = Some r" "wb_model (sample_write_back a g r) = None"
  "wb_usage (sample_write_back a g r) = []"
  by (simp_all add: sample_write_back_def)

lemma leased_lease: "get_lease leased_store ''c1'' None = Some (lease_row (sample_call ''a'' 1 ''r1'') ''a'' 2)"
  and leased_log: "st_log leased_store = empty_log" "el_next empty_log = 1"
  by (simp_all add: leased_store_def get_lease_def partition_key_def empty_store_def empty_log_def)

theorem write_back_is_fenced_witness:
  "(\<exists>m. write_back sample_tz None (sample_write_back ''b'' 2 ''w'') leased_store = Inl (LeaseFencedError m)) \<and>
   (\<exists>m. write_back sample_tz None (sample_write_back ''a'' 1 ''w'') leased_store = Inl (LeaseFencedError m)) \<and>
   \<not> isl (write_back sample_tz None (sample_write_back ''a'' 2 ''w'') leased_store)"
proof -
  have f: "request_events leased_store (wb_request (sample_write_back x g ''w'')) = []" for x g
    by (simp add: request_events_text leased_store_def empty_store_def empty_log_def)
  have k: "holds leased_store (wb_contract (sample_write_back x g ''w''), partition_key (wb_partition (sample_write_back x g ''w''))) = Some (''a'', 2)" for x g
    by (simp add: leased_store_def holds_def sample_write_back_def partition_key_def)
  show ?thesis
    using write_back_is_fenced [of sample_tz None "sample_write_back ''b'' 2 ''w''" leased_store]
      write_back_is_fenced [of sample_tz None "sample_write_back ''a'' 1 ''w''" leased_store]
      write_back_is_fenced [of sample_tz None "sample_write_back ''a'' 2 ''w''" leased_store] f k
    by (auto simp: write_back_state_def)
qed

text \<open>At any time, however old the lease is, its holder writes back.\<close>

lemma expired_lease_still_writes: "\<not> isl (write_back tz None (sample_write_back ''a'' 2 ''w''\<lparr>wb_now := n\<rparr>) leased_store)"
proof -
  let ?c = "sample_write_back ''a'' 2 ''w''\<lparr>wb_now := n\<rparr>"
  have "request_events leased_store (wb_request ?c) = []"
    by (simp add: request_events_text leased_store_def empty_store_def empty_log_def)
  then have "replayed_events leased_store (wb_request ?c) (wb_contract ?c) = Inr []" by (rule replayed_events_fresh)
  moreover have "write_back_fence None ?c leased_store = Inr ()"
    by (simp add: write_back_fence_def leased_lease or_else_def check_write_fence_def)
  moreover have "write_back_state tz ?c leased_store = Inr (None, write_back_report ?c leased_store)"
    by (simp add: write_back_state_def)
  ultimately show ?thesis by (simp add: write_back_def res_simps)
qed

lemma apply_update_log:
  assumes "apply_update tz c current s = Inr (v, s')"
  shows "\<exists>e. el_rows (st_log s') = el_rows (st_log (restamp_plan_approvals (uc_contract c) (cv_revision v) s)) @ [e] \<and>
    ev_request e = uc_request c \<and> ev_contract e = Some (uc_contract c) \<and> ev_type e = chosen_event c"
  using assms
  by (auto simp: apply_update_def Let_def res_simps write_revision_snapshot_Inr log_event_pair event_call_def restamp_plan_approvals_def
      dest!: notify_state_frame)

lemma filter_eq_Nil_image: "filter (\<lambda>e. f e = r) xs = [] \<longleftrightarrow> r \<notin> f ` set xs"
  by (auto simp: filter_empty_conv)

lemma restamp_request_filter:
  "filter (\<lambda>e. ev_request e = r) (el_rows (st_log (restamp_plan_approvals c n s))) = [] \<longleftrightarrow>
   filter (\<lambda>e. ev_request e = r) (el_rows (st_log s)) = []"
proof -
  have "map ev_request (el_rows (st_log (restamp_plan_approvals c n s))) = map ev_request (el_rows (st_log s))"
    by (simp add: restamp_plan_approvals_def)
  then have "ev_request ` set (el_rows (st_log (restamp_plan_approvals c n s))) = ev_request ` set (el_rows (st_log s))"
    by (metis set_map)
  then show ?thesis by (simp only: filter_eq_Nil_image)
qed

lemma write_back_state_requests:
  assumes "write_back_state tz c s = Inr (nr, s')" and "r \<noteq> None" and "filter (\<lambda>e. ev_request e = r) (el_rows (st_log s)) = []"
  shows "filter (\<lambda>e. ev_request e = r) (el_rows (st_log s')) = []"
proof -
  obtain as where rep: "write_back_report c s = s\<lparr>st_attempts := as\<rparr>" using write_back_report_frame by blast
  show ?thesis
  proof (cases "wb_state c")
    case None
    have "st_log (write_back_report c s) = st_log s" by (simp add: rep)
    moreover from None assms(1) have "s' = write_back_report c s" by (simp add: write_back_state_def)
    ultimately show ?thesis using assms(3) by (simp only:)
  next
    case (Some t)
    let ?u = "write_back_update c t"
    have fresh: "request_events (write_back_report c s) (uc_request ?u) = []" by (simp add: write_back_update_def)
    from Some assms(1) obtain v where "update_contract_state tz ?u (write_back_report c s) = Inr (v, s')"
      by (auto simp: write_back_state_def res_simps)
    then obtain current where "apply_update tz ?u current (write_back_report c s) = Inr (v, s')"
      by (auto simp: update_fresh [OF fresh] split: option.splits if_splits)
    from apply_update_log [OF this] assms(2,3) rep show ?thesis
      using restamp_request_filter [of r "uc_contract ?u" "cv_revision v" "write_back_report c s"]
      by (auto simp: write_back_update_def)
  qed
qed

lemma write_back_events_empty:
  assumes "write_back_events c nr s = (res, s')" and "append_inputs c (wb_events c) s = (ids, s2)"
    and "text_or (wb_request c) [] \<noteq> []" and "ids = []"
  shows "\<exists>e. el_rows (st_log s') = el_rows (st_log s2) @ [e] \<and> ev_request e = wb_request c \<and>
    ev_contract e = Some (wb_contract c) \<and> wr_event_ids res = [ev_id e]"
  using assms
  by (auto simp: write_back_events_def log_event_pair write_back_result_def bookkeeping_event_def event_call_def)

text \<open>
  A write-back takes effect at most once. When its events carry no request of their own, repeating a
  successful write-back with a request changes nothing and reports the same event ids, also when it wrote no events.
\<close>

theorem write_back_repeats_safely:
  assumes "write_back tz checker c s = Inr (res, s')" and "request_events s (wb_request c) = []"
    and "text_or (wb_request c) [] \<noteq> []" and "\<forall>i \<in> set (wb_events c). text_or (ei_request i) [] = []"
  shows "\<exists>res'. write_back tz checker c s' = Inr (res', s') \<and> wr_event_ids res' = wr_event_ids res"
proof -
  let ?r = "wb_request c"
  have r: "?r \<noteq> None" using assms(3) by (cases ?r) (simp_all add: text_or_def)
  have s0: "filter (\<lambda>e. ev_request e = ?r) (el_rows (st_log s)) = []" using assms(2,3) by (simp add: request_events_text)
  from assms(1) obtain nr s1 where st: "write_back_state tz c s = Inr (nr, s1)" and ev: "write_back_events c nr s1 = (res, s')"
    by (auto simp: write_back_def replayed_events_fresh [OF assms(2)] res_simps)
  have s1: "filter (\<lambda>e. ev_request e = ?r) (el_rows (st_log s1)) = []"
    using write_back_state_requests [OF st r s0] .
  obtain ids s2 where a: "append_inputs c (wb_events c) s1 = (ids, s2)" by fastforce
  from append_inputs_rows [OF a] obtain new where new: "el_rows (st_log s2) = el_rows (st_log s1) @ new" "ids = map ev_id new"
    "map ev_request new = map (\<lambda>i. text_or_opt (ei_request i) ?r) (wb_events c)" "\<forall>e \<in> set new. ev_contract e = Some (wb_contract c)"
    by blast
  have "text_or_opt (ei_request i) ?r = ?r" if "i \<in> set (wb_events c)" for i
    using that assms(4) by (auto simp: text_or_opt_def text_or_def split: option.splits if_splits)
  then have "set (map ev_request new) \<subseteq> {?r}" unfolding new(3) by auto
  then have req: "\<forall>e \<in> set new. ev_request e = ?r" by auto
  have old: "filter (\<lambda>e. ev_request e = ?r) (el_rows (st_log s2)) = new"
    using s1 new(1) req by (simp add: filter_id_conv)
  have "\<exists>rows. rows \<noteq> [] \<and> request_events s' ?r = rows \<and> wr_event_ids res = map ev_id rows \<and> (\<forall>e \<in> set rows. ev_contract e = Some (wb_contract c))"
  proof (cases "ids = []")
    case True
    from write_back_events_empty [OF ev a assms(3) True] obtain e where "el_rows (st_log s') = el_rows (st_log s2) @ [e]"
      "ev_request e = ?r" "ev_contract e = Some (wb_contract c)" "wr_event_ids res = [ev_id e]" by blast
    with True new(2) old assms(3) show ?thesis by (simp add: request_events_text)
  next
    case False
    with ev a have "s' = s2" "wr_event_ids res = ids" by (auto simp: write_back_events_def write_back_result_def)
    with False new(2,4) old assms(3) show ?thesis by (simp add: request_events_text)
  qed
  then obtain rows where rows: "rows \<noteq> []" "request_events s' ?r = rows" "wr_event_ids res = map ev_id rows"
    "\<forall>e \<in> set rows. ev_contract e = Some (wb_contract c)" by blast
  then have "ev_contract ` set rows = {Some (wb_contract c)}" by (cases rows) auto
  with rows have "replayed_events s' ?r (wb_contract c) = Inr rows" by (simp add: replayed_events_def)
  with rows(1,3) show ?thesis by (simp add: write_back_def write_back_result_def)
qed

theorem write_back_repeats_safely_witness:
  "\<exists>res s' res'. write_back sample_tz None (sample_write_back ''a'' 2 ''w'') leased_store = Inr (res, s') \<and> wr_event_ids res = [1] \<and>
     write_back sample_tz None (sample_write_back ''a'' 2 ''w'') s' = Inr (res', s') \<and> wr_event_ids res' = [1]"
proof -
  have f: "request_events leased_store (wb_request (sample_write_back ''a'' 2 ''w'')) = []"
    by (simp add: request_events_text leased_store_def empty_store_def empty_log_def)
  obtain res s' where b: "write_back sample_tz None (sample_write_back ''a'' 2 ''w'') leased_store = Inr (res, s')" "wr_event_ids res = [1]"
    by (simp add: write_back_def replayed_events_fresh [OF f, simplified] write_back_fence_def leased_lease or_else_def check_write_fence_def
        write_back_state_def write_back_events_def log_event_pair write_back_result_def write_back_report_def text_or_def leased_log)
  from write_back_repeats_safely [OF b(1) f] obtain res' where
    "write_back sample_tz None (sample_write_back ''a'' 2 ''w'') s' = Inr (res', s')" "wr_event_ids res' = wr_event_ids res"
    by (auto simp: sample_write_back_def text_or_def)
  with b show ?thesis by auto
qed

text \<open>
  The anchor is only written for a write-back without events: when every event carries a request of its own,
  nothing is recorded under the request of the write-back, and repeating it runs it again.
\<close>

lemma write_back_own_requests_leave_no_anchor:
  assumes "write_back tz checker c s = Inr (res, s')" and "request_events s (wb_request c) = []" and "wb_events c \<noteq> []"
    and "\<forall>i \<in> set (wb_events c). text_or (ei_request i) [] \<noteq> [] \<and> ei_request i \<noteq> wb_request c"
  shows "request_events s' (wb_request c) = []"
proof (cases "text_or (wb_request c) [] = []")
  case False
  let ?r = "wb_request c"
  have r: "?r \<noteq> None" using False by (cases ?r) (simp_all add: text_or_def)
  have s0: "filter (\<lambda>e. ev_request e = ?r) (el_rows (st_log s)) = []" using assms(2) False by (simp add: request_events_text)
  from assms(1) obtain nr s1 where st: "write_back_state tz c s = Inr (nr, s1)" and ev: "write_back_events c nr s1 = (res, s')"
    by (auto simp: write_back_def replayed_events_fresh [OF assms(2)] res_simps)
  obtain ids s2 where a: "append_inputs c (wb_events c) s1 = (ids, s2)" by fastforce
  from append_inputs_rows [OF a] obtain new where new: "el_rows (st_log s2) = el_rows (st_log s1) @ new" "ids = map ev_id new"
    "map ev_request new = map (\<lambda>i. text_or_opt (ei_request i) ?r) (wb_events c)" by blast
  have "?r \<noteq> text_or_opt (ei_request i) ?r" if "i \<in> set (wb_events c)" for i
    using that assms(4) by (auto simp: text_or_opt_def text_or_def split: option.splits if_splits)
  then have "?r \<notin> set (map ev_request new)" unfolding new(3) set_map by blast
  moreover have "ids \<noteq> []" using new(2,3) assms(3) by (metis Nil_is_map_conv)
  then have "s' = s2" using ev a by (auto simp: write_back_events_def)
  ultimately show ?thesis
    using write_back_state_requests [OF st r s0] new(1) by (auto simp: request_events_text filter_eq_Nil_image)
qed (simp add: request_events_text)

section \<open>Amendments and announcements\<close>

text \<open>
  An amendment leaves all four axes alone, whatever state the contract is in, and stamps the plan approvals of the
  contract with the new revision, also when it replaces the acceptance.
\<close>

lemma patch_keeps_axes_and_approvals:
  assumes "patch_contract c s = Inr (v, s')" and "request_events s (pc_request c) = []"
  shows "\<exists>current. get_contract s (pc_contract c) = Some current \<and> cv_state v = cv_state current \<and>
    cv_deadline_status v = cv_deadline_status current \<and> cv_acceptance_status v = cv_acceptance_status current \<and>
    cv_blocked_reason v = cv_blocked_reason current \<and> cd_auto_approve (cv_draft v) = cd_auto_approve (cv_draft current)"
  using patch_fresh [OF assms(2,1)] by (auto simp: patched_draft_def)

lemma restamped_approval:
  assumes "e \<in> set (el_rows (st_log s))" and "ev_contract e = Some c" and "ev_type e = PLAN_APPROVED"
    and "ev_revision e = Some r" and "r < n"
  shows "e\<lparr>ev_revision := Some n\<rparr> \<in> set (el_rows (st_log (restamp_plan_approvals c n s)))"
  using assms by (force simp: restamp_plan_approvals_def)

text \<open>
  Satisfying a contract without naming an event is logged as \<open>contract/patched\<close> and notifies nobody: the table of
  default events has no entry for the state.
\<close>

lemma satisfied_is_logged_as_patched:
  assumes "uc_event c = None" and "uc_state c = Satisfied"
  shows "chosen_event c = CONTRACT_PATCHED \<and> notification_kind (chosen_event c) Satisfied = None"
  using assms by (simp add: chosen_event_def given_event_def or_else_def notification_kind_def event_names)

end
