(* ===== verification/Goal_Progress.thy ===== *)
theory Goal_Progress
  imports Acceptance_Spec
begin

text \<open>
  \<open>lhgp/goals/progress.py\<close> and \<open>lhgp/goals/stage.py\<close>: the ordered plan of a goal, the advance from one
  stage to the next, and the stage specification with its parser and validator. Plans and progress are
  the JSON dictionaries the store keeps.
\<close>

section \<open>The plan\<close>

text \<open>\<open>dict.setdefault\<close>.\<close>

definition set_default :: "string \<Rightarrow> json \<Rightarrow> dict \<Rightarrow> dict" where
  "set_default k v d = (if map_of d k = None then put k v d else d)"

fun stage_dict :: "json \<Rightarrow> py_error + dict" where
  "stage_dict (JStr s) = Inr [(''id'', JStr s), (''title'', JStr s)]"
| "stage_dict (JObj d) = Inr d"
| "stage_dict _ = Inl (ValueError ''plan.stages[] must be a string or object'')"

fun normalize_stages :: "(json \<Rightarrow> string) \<Rightarrow> string list \<Rightarrow> json list \<Rightarrow> py_error + dict list" where
  "normalize_stages rp seen [] = Inr []"
| "normalize_stages rp seen (raw # rest) =
     sbind (stage_dict raw) (\<lambda>stage.
       let stage_id = strip (py_str rp (dict_get_or stage ''id'' (JStr []))) in
       if stage_id = [] then Inl (ValueError ''plan.stages[].id is required'')
       else if stage_id \<in> set seen then Inl (ValueError (''duplicate stage id: '' @ stage_id))
       else sbind (normalize_stages rp (seen @ [stage_id]) rest) (\<lambda>normalized.
         Inr (set_default ''title'' (JStr stage_id) (put ''id'' (JStr stage_id) stage) # normalized)))"

definition normalize_plan :: "(json \<Rightarrow> string) \<Rightarrow> dict \<Rightarrow> py_error + dict" where
  "normalize_plan rp plan = (case dict_get plan ''stages'' of
     JNull \<Rightarrow> Inr plan
   | JList stages \<Rightarrow>
       if stages = [] then Inl (ValueError ''plan.stages must be a non-empty list'')
       else sbind (normalize_stages rp [] stages) (\<lambda>normalized.
         Inr (put ''stages'' (JList (map JObj normalized)) plan))
   | _ \<Rightarrow> Inl (ValueError ''plan.stages must be a non-empty list''))"

text \<open>\<open>[str(stage["id"]) for stage in stages]\<close> of a normalised plan.\<close>

fun stage_id_of :: "(json \<Rightarrow> string) \<Rightarrow> json \<Rightarrow> string" where
  "stage_id_of rp (JObj d) = py_str rp (dict_get d ''id'')"
| "stage_id_of rp _ = []"

definition plan_stage_ids :: "(json \<Rightarrow> string) \<Rightarrow> dict \<Rightarrow> string list" where
  "plan_stage_ids rp plan = (case dict_get plan ''stages'' of JList ss \<Rightarrow> map (stage_id_of rp) ss | _ \<Rightarrow> [])"

section \<open>Progress\<close>

definition opt_str :: "string option \<Rightarrow> json" where
  "opt_str x = (case x of None \<Rightarrow> JNull | Some s \<Rightarrow> JStr s)"

text \<open>\<open>progress.get("current")\<close>, or the first stage that is not completed (the first of all when none is left).\<close>

definition expected_stage :: "string list \<Rightarrow> string list \<Rightarrow> json \<Rightarrow> json" where
  "expected_stage stage_ids completed current =
     (if current = JNull
      then JStr (case find (\<lambda>s. s \<notin> set completed) stage_ids of Some s \<Rightarrow> s | None \<Rightarrow> hd stage_ids)
      else current)"

definition with_stage :: "string \<Rightarrow> string list \<Rightarrow> string list" where
  "with_stage s completed = (if s \<in> set completed then completed else completed @ [s])"

definition progress_after :: "string list \<Rightarrow> string list \<Rightarrow> dict \<Rightarrow> dict" where
  "progress_after stage_ids completed progress =
     (let next_stage = find (\<lambda>s. s \<notin> set completed) stage_ids in
      put ''status'' (JStr (if next_stage = None then ''satisfied'' else ''active''))
        (put ''current'' (opt_str next_stage)
        (put ''completed'' (JList (map JStr completed)) progress)))"

definition advance_progress :: "(json \<Rightarrow> string) \<Rightarrow> dict \<Rightarrow> dict \<Rightarrow> string \<Rightarrow> py_error + dict" where
  "advance_progress rp plan progress complete_stage =
     sbind (normalize_plan rp plan) (\<lambda>normalized.
       if \<not> truthy (dict_get normalized ''stages'') then
         Inl (ValueError ''a staged plan is required before advancing progress'')
       else
         let stage_ids = plan_stage_ids rp normalized in
         sbind (py_iter (dict_get_or progress ''completed'' (JList []))) (\<lambda>raw_completed.
           let completed = map (py_str rp) raw_completed in
           if complete_stage \<notin> set stage_ids then Inl (ValueError (''unknown stage: '' @ complete_stage))
           else if py_str rp (expected_stage stage_ids completed (dict_get progress ''current'')) \<noteq> complete_stage
           then Inl (ValueError (''stage is not current: '' @ complete_stage))
           else Inr (progress_after stage_ids (with_stage complete_stage completed) progress)))"

section \<open>Lemmas\<close>

lemma dropWhile_idem: "dropWhile P (dropWhile P xs) = dropWhile P xs"
  by (induction xs) auto

lemma lstrip_rev_lstrip: "lstrip (rev (lstrip (rev (lstrip s)))) = rev (lstrip (rev (lstrip s)))"
proof (cases "lstrip s")
  case Nil
  moreover have "lstrip [] = []" by (simp add: lstrip_def)
  ultimately show ?thesis by simp
next
  case (Cons c cs)
  then have c: "\<not> is_space c" using hd_dropWhile [of is_space s] by (auto simp: lstrip_def)
  have "\<exists>ds. rev (lstrip (rev (c # cs))) = c # ds"
  proof (cases "\<forall>x \<in> set cs. is_space x")
    case True
    then have "dropWhile is_space (rev cs @ [c]) = [c]" using c by (subst dropWhile_append2) auto
    then show ?thesis by (simp add: lstrip_def)
  next
    case False
    then have "dropWhile is_space (rev cs @ [c]) = dropWhile is_space (rev cs) @ [c]"
      by (subst dropWhile_append) (auto simp: dropWhile_eq_Nil_conv)
    then show ?thesis by (simp add: lstrip_def)
  qed
  then obtain ds where "rev (lstrip (rev (c # cs))) = c # ds" by blast
  then show ?thesis using c Cons by (simp add: lstrip_def)
qed

lemma strip_strip [simp]: "strip (strip s) = strip s"
proof -
  have "strip (strip s) = rev (lstrip (rev (strip s)))"
    by (simp add: strip_def lstrip_rev_lstrip)
  also have "\<dots> = strip s" by (simp add: strip_def) (simp add: lstrip_def dropWhile_idem)
  finally show ?thesis .
qed

text \<open>A normalised stage: its \<open>id\<close> is a stripped, non-empty text and it has a title.\<close>

definition norm_stage :: "dict \<Rightarrow> bool" where
  "norm_stage d \<longleftrightarrow> (\<exists>i. map_of d ''id'' = Some (JStr i) \<and> i \<noteq> [] \<and> strip i = i) \<and> map_of d ''title'' \<noteq> None"

lemma normalize_stages_result:
  assumes "normalize_stages rp seen raw = Inr ds"
  shows "(\<forall>d \<in> set ds. norm_stage d) \<and> distinct (map (stage_id_of rp) (map JObj ds)) \<and>
    set (map (stage_id_of rp) (map JObj ds)) \<inter> set seen = {} \<and> length ds = length raw"
  using assms
proof (induction raw arbitrary: seen ds)
  case (Cons r rest)
  from Cons.prems obtain st ds' where "stage_dict r = Inr st"
    and i: "strip (py_str rp (dict_get_or st ''id'' (JStr []))) \<noteq> []"
      "strip (py_str rp (dict_get_or st ''id'' (JStr []))) \<notin> set seen"
    and ds': "normalize_stages rp (seen @ [strip (py_str rp (dict_get_or st ''id'' (JStr [])))]) rest = Inr ds'"
    and ds: "ds = set_default ''title'' (JStr (strip (py_str rp (dict_get_or st ''id'' (JStr [])))))
      (put ''id'' (JStr (strip (py_str rp (dict_get_or st ''id'' (JStr []))))) st) # ds'"
    by (auto simp: res_simps Let_def split: if_splits)
  define i where "i = strip (py_str rp (dict_get_or st ''id'' (JStr [])))"
  have ii: "i \<noteq> []" "i \<notin> set seen" "strip i = i" using i by (simp_all add: i_def)
  have d: "ds = set_default ''title'' (JStr i) (put ''id'' (JStr i) st) # ds'" using ds by (simp only: i_def)
  have head: "map_of (hd ds) ''id'' = Some (JStr i)" "map_of (hd ds) ''title'' \<noteq> None"
    by (simp_all add: d set_default_def split: if_splits)
  have IH: "(\<forall>d \<in> set ds'. norm_stage d) \<and> distinct (map (stage_id_of rp) (map JObj ds')) \<and>
      set (map (stage_id_of rp) (map JObj ds')) \<inter> set (seen @ [i]) = {} \<and> length ds' = length rest"
    unfolding i_def by (rule Cons.IH [OF ds'])
  have "norm_stage (hd ds)" using head ii by (auto simp: norm_stage_def)
  moreover have "stage_id_of rp (JObj (hd ds)) = i" using head(1) by (simp add: dict_get_def)
  moreover have "ds = hd ds # ds'" by (simp add: d)
  ultimately obtain d where "ds = d # ds'" "norm_stage d" "stage_id_of rp (JObj d) = i" by metis
  then show ?case using IH ii by auto
qed simp

lemma normalize_stages_idem:
  assumes "\<forall>d \<in> set ds. norm_stage d" and "distinct (map (stage_id_of rp) (map JObj ds))"
    and "set (map (stage_id_of rp) (map JObj ds)) \<inter> set seen = {}"
  shows "normalize_stages rp seen (map JObj ds) = Inr ds"
  using assms
proof (induction ds arbitrary: seen)
  case (Cons d ds)
  then obtain i where i: "map_of d ''id'' = Some (JStr i)" "i \<noteq> []" "strip i = i" and "map_of d ''title'' \<noteq> None"
    by (auto simp: norm_stage_def)
  then have "put ''id'' (JStr i) d = d" by (simp add: AList.update_triv)
  moreover have "stage_id_of rp (JObj d) = i" using i by (simp add: dict_get_def)
  moreover have "normalize_stages rp (seen @ [i]) (map JObj ds) = Inr ds"
    using Cons.prems calculation(2) by (intro Cons.IH) auto
  ultimately show ?case using i Cons.prems \<open>map_of d ''title'' \<noteq> None\<close>
    by (auto simp: dict_get_or_def set_default_def)
qed simp

lemma normalize_plan_result:
  assumes "normalize_plan rp plan = Inr p" and "dict_get plan ''stages'' \<noteq> JNull"
  obtains ds where "p = put ''stages'' (JList (map JObj ds)) plan" "ds \<noteq> []" "\<forall>d \<in> set ds. norm_stage d"
    "plan_stage_ids rp p = map (stage_id_of rp) (map JObj ds)" "distinct (plan_stage_ids rp p)"
    "plan_stage_ids rp p \<noteq> []"
proof -
  from assms obtain ss ds where "dict_get plan ''stages'' = JList ss" "ss \<noteq> []" and ds: "normalize_stages rp [] ss = Inr ds"
    and p: "p = put ''stages'' (JList (map JObj ds)) plan"
    by (auto simp: normalize_plan_def res_simps split: json.splits if_splits)
  moreover from this have "ds \<noteq> []" using normalize_stages_result [OF ds] by auto
  moreover have "plan_stage_ids rp p = map (stage_id_of rp) (map JObj ds)"
    by (simp add: p plan_stage_ids_def dict_get_def)
  ultimately show ?thesis using that normalize_stages_result [OF ds] by simp
qed

lemma normalize_plan_idem:
  assumes "normalize_plan rp plan = Inr p"
  shows "normalize_plan rp p = Inr p"
proof (cases "dict_get plan ''stages'' = JNull")
  case True
  with assms show ?thesis by (auto simp: normalize_plan_def)
next
  case False
  from normalize_plan_result [OF assms False] obtain ds where
    p: "p = put ''stages'' (JList (map JObj ds)) plan" and ds: "ds \<noteq> []" "\<forall>d \<in> set ds. norm_stage d"
    "distinct (map (stage_id_of rp) (map JObj ds))" by metis
  have "normalize_stages rp [] (map JObj ds) = Inr ds"
    using ds by (intro normalize_stages_idem) simp_all
  moreover have "map_of p ''stages'' = Some (JList (map JObj ds))" by (simp add: p)
  moreover from this have "put ''stages'' (JList (map JObj ds)) p = p" by (simp add: AList.update_triv)
  ultimately show ?thesis using ds(1) by (simp add: normalize_plan_def dict_get_def)
qed

lemma find_first_open:
  "distinct ids \<Longrightarrow> find (\<lambda>s. s \<notin> set (take k ids)) ids = (if k < length ids then Some (ids ! k) else None)"
proof (induction ids arbitrary: k)
  case (Cons a ids)
  show ?case
  proof (cases k)
    case (Suc j)
    have "find (\<lambda>s. s \<noteq> a \<and> s \<notin> set (take j ids)) ids = find (\<lambda>s. s \<notin> set (take j ids)) ids"
      using Cons.prems by (intro find_cong) auto
    with Cons Suc show ?thesis by simp
  qed simp
qed simp

text \<open>What one accepted advance does.\<close>

lemma advance_progress_cases:
  assumes "advance_progress rp plan progress s = Inr progress'"
  obtains p completed where "normalize_plan rp plan = Inr p" "dict_get p ''stages'' \<noteq> JNull"
    "py_iter (dict_get_or progress ''completed'' (JList [])) = Inr completed" "s \<in> set (plan_stage_ids rp p)"
    "py_str rp (expected_stage (plan_stage_ids rp p) (map (py_str rp) completed) (dict_get progress ''current'')) = s"
    "progress' = progress_after (plan_stage_ids rp p) (with_stage s (map (py_str rp) completed)) progress"
proof -
  obtain p where p: "normalize_plan rp plan = Inr p" using assms by (auto simp: advance_progress_def res_simps)
  then have st: "truthy (dict_get p ''stages'')" using assms by (auto simp: advance_progress_def split: if_splits)
  then obtain completed where c: "py_iter (dict_get_or progress ''completed'' (JList [])) = Inr completed"
    using assms p by (auto simp: advance_progress_def Let_def res_simps)
  have "dict_get p ''stages'' \<noteq> JNull" using st by auto
  with that [OF p _ c] assms st show ?thesis
    by (simp add: advance_progress_def p c Let_def split: if_splits)
qed

fun run_stages :: "(json \<Rightarrow> string) \<Rightarrow> dict \<Rightarrow> dict \<Rightarrow> string list \<Rightarrow> py_error + dict" where
  "run_stages rp plan progress [] = Inr progress"
| "run_stages rp plan progress (s # ss) =
     sbind (advance_progress rp plan progress s) (\<lambda>progress'. run_stages rp plan progress' ss)"

lemma run_stages_snoc: "run_stages rp plan pr (ss @ [s]) =
   sbind (run_stages rp plan pr ss) (\<lambda>pr'. advance_progress rp plan pr' s)"
  by (induction ss arbitrary: pr) (simp_all add: sbind_def split: sum.splits)

text \<open>The progress of a goal that has completed the first \<open>k\<close> stages.\<close>

definition progress_at :: "string list \<Rightarrow> nat \<Rightarrow> dict \<Rightarrow> bool" where
  "progress_at ids k pr \<longleftrightarrow>
     dict_get_or pr ''completed'' (JList []) = JList (map JStr (take k ids)) \<and>
     (k = 0 \<longrightarrow> dict_get pr ''current'' = JNull) \<and>
     (0 < k \<longrightarrow> dict_get pr ''current'' = (if k < length ids then JStr (ids ! k) else JNull) \<and>
        dict_get pr ''status'' = JStr (if k < length ids then ''active'' else ''satisfied''))"

lemma advance_next_stage:
  assumes "normalize_plan rp plan = Inr p" and "dict_get plan ''stages'' \<noteq> JNull" and "ids = plan_stage_ids rp p"
    and "progress_at ids k pr" and "k < length ids"
  shows "\<exists>pr'. advance_progress rp plan pr (ids ! k) = Inr pr' \<and> progress_at ids (Suc k) pr'"
proof -
  from normalize_plan_result [OF assms(1,2)] obtain ds where p: "p = put ''stages'' (JList (map JObj ds)) plan" "ds \<noteq> []"
    and d: "distinct ids" using assms(3) by metis
  have truthy: "truthy (dict_get p ''stages'')" by (simp add: p dict_get_def)
  have completed: "py_iter (dict_get_or pr ''completed'' (JList [])) = Inr (map JStr (take k ids))"
    using assms(4) by (simp add: progress_at_def)
  have open_k: "find (\<lambda>s. s \<notin> set (take k ids)) ids = Some (ids ! k)"
    using assms(5) by (simp add: find_first_open [OF d])
  have cur: "py_str rp (expected_stage ids (take k ids) (dict_get pr ''current'')) = ids ! k"
    using assms(4,5) open_k by (cases "k = 0") (simp_all add: progress_at_def expected_stage_def)
  have new: "ids ! k \<notin> set (take k ids)"
    using d assms(5) by (auto simp: in_set_conv_nth distinct_conv_nth)
  have suc: "with_stage (ids ! k) (take k ids) = take (Suc k) ids"
    using assms(5) new by (simp add: with_stage_def take_Suc_conv_app_nth)
  have comp: "map (py_str rp) (map JStr xs) = xs" for xs by (simp add: comp_def)
  have "advance_progress rp plan pr (ids ! k) = Inr (progress_after ids (take (Suc k) ids) pr)"
    using assms(1,3,5) truthy completed cur suc
    by (simp add: advance_progress_def Let_def comp del: map_map)
  moreover have "progress_at ids (Suc k) (progress_after ids (take (Suc k) ids) pr)"
    by (simp add: progress_at_def progress_after_def find_first_open [OF d] dict_get_def dict_get_or_def opt_str_def)
  ultimately show ?thesis by blast
qed

section \<open>Stage specifications\<close>

record stage_spec =
  sg_goal :: string
  sg_functional :: "string list"
  sg_interfaces :: "string list"
  sg_constraints :: "string list"
  sg_out_of_scope :: "string list"
  sg_acceptance :: dict
  sg_dependencies :: "string list"
  sg_artifacts :: "string list"
  sg_deadline_at :: "string option"
  sg_max_retries :: int
  sg_max_dispatches :: int
  sg_max_concurrent_attempts :: int
  sg_max_attempt_minutes :: int
  sg_modifiable_scope :: "string list"

definition stage_spec_to_dict :: "stage_spec \<Rightarrow> dict" where
  "stage_spec_to_dict s =
     [(''goal'', JStr (sg_goal s)),
      (''scope'', JObj [(''functional'', str_list (sg_functional s)), (''interfaces'', str_list (sg_interfaces s)),
         (''constraints'', str_list (sg_constraints s)), (''out_of_scope'', str_list (sg_out_of_scope s))]),
      (''acceptance'', JObj (sg_acceptance s)), (''dependencies'', str_list (sg_dependencies s)),
      (''artifacts'', str_list (sg_artifacts s)), (''time_budget'', JObj [(''deadline_at'', opt_str (sg_deadline_at s))]),
      (''budget'', JObj [(''max_retries'', JInt (sg_max_retries s)), (''max_dispatches'', JInt (sg_max_dispatches s)),
         (''max_concurrent_attempts'', JInt (sg_max_concurrent_attempts s)),
         (''max_attempt_minutes'', JInt (sg_max_attempt_minutes s))]),
      (''permissions'', JObj [(''modifiable_scope'', str_list (sg_modifiable_scope s))])]"

text \<open>\<open>d.get(k) if isinstance(d.get(k), dict) else {}\<close>; the non-blank texts among the items of a list.\<close>

fun dict_or_empty :: "json \<Rightarrow> dict" where
  "dict_or_empty (JObj d) = d"
| "dict_or_empty _ = []"

fun text_items :: "json list \<Rightarrow> string list" where
  "text_items [] = []"
| "text_items (JStr s # vs) = (if is_blank s then text_items vs else s # text_items vs)"
| "text_items (_ # vs) = text_items vs"

fun scope_tuple :: "json \<Rightarrow> string list" where
  "scope_tuple (JList vs) = text_items vs"
| "scope_tuple _ = []"

definition loose_tuple :: "json \<Rightarrow> py_error + string list" where
  "loose_tuple v = sbind (py_iter (py_or v (JList []))) (\<lambda>vs. Inr (text_items vs))"

definition stage_spec_from_dict :: "(json \<Rightarrow> string) \<Rightarrow> json \<Rightarrow> py_error + stage_spec" where
  "stage_spec_from_dict rp raw = (case raw of
     JObj d \<Rightarrow>
       (let scope = dict_or_empty (dict_get d ''scope''); time_budget = dict_or_empty (dict_get d ''time_budget'');
            budget = dict_or_empty (dict_get d ''budget''); permissions = dict_or_empty (dict_get d ''permissions'');
            acceptance = dict_or_empty (dict_get d ''acceptance'') in
        sbind (loose_tuple (dict_get d ''dependencies'')) (\<lambda>dependencies.
        sbind (loose_tuple (dict_get d ''artifacts'')) (\<lambda>artifacts.
        sbind (py_int (dict_get_or budget ''max_retries'' (JInt 3))) (\<lambda>retries.
        sbind (py_int (dict_get_or budget ''max_dispatches'' (JInt 10))) (\<lambda>dispatches.
        sbind (py_int (dict_get_or budget ''max_concurrent_attempts'' (JInt 2))) (\<lambda>concurrent.
        sbind (py_int (dict_get_or budget ''max_attempt_minutes'' (JInt 30))) (\<lambda>minutes.
        sbind (loose_tuple (dict_get permissions ''modifiable_scope'')) (\<lambda>scope_paths.
        Inr \<lparr>sg_goal = strip (py_str rp (dict_get_or d ''goal'' (JStr []))),
             sg_functional = scope_tuple (dict_get scope ''functional''),
             sg_interfaces = scope_tuple (dict_get scope ''interfaces''),
             sg_constraints = scope_tuple (dict_get scope ''constraints''),
             sg_out_of_scope = scope_tuple (dict_get scope ''out_of_scope''),
             sg_acceptance = acceptance, sg_dependencies = dependencies, sg_artifacts = artifacts,
             sg_deadline_at = (if dict_get time_budget ''deadline_at'' = JNull then None
               else Some (py_str rp (dict_get time_budget ''deadline_at''))),
             sg_max_retries = retries, sg_max_dispatches = dispatches,
             sg_max_concurrent_attempts = concurrent, sg_max_attempt_minutes = minutes,
             sg_modifiable_scope = scope_paths\<rparr>))))))))
   | _ \<Rightarrow> Inl (ValueError ''stage spec must be a dict''))"

datatype stage_error =
    StageNoGoal | StageNoAcceptance | StageAcceptance spec_error | StageRetriesNegative
  | StageDispatchesLow | StageConcurrencyLow | StageMinutesLow
  | StageNotDict | StageSpecMissing | StageSpecInvalid py_error

definition stage_spec_validate :: "stage_spec \<Rightarrow> stage_error list" where
  "stage_spec_validate s =
     (if sg_goal s = [] then [StageNoGoal] else []) @
     (if sg_acceptance s = [] then [StageNoAcceptance]
      else map StageAcceptance (validate_spec (JObj (sg_acceptance s)))) @
     (if sg_max_retries s < 0 then [StageRetriesNegative] else []) @
     (if sg_max_dispatches s < 1 then [StageDispatchesLow] else []) @
     (if sg_max_concurrent_attempts s < 1 then [StageConcurrencyLow] else []) @
     (if sg_max_attempt_minutes s < 1 then [StageMinutesLow] else [])"

text \<open>
  \<open>spec_hash\<close> digests \<open>json.dumps(self.to_dict(), sort_keys=True)\<close>; the digest of a JSON value is a
  parameter. \<open>validate_stage_entry\<close> catches \<open>ValueError\<close> and \<open>TypeError\<close>.
\<close>

definition stage_spec_hash :: "(json \<Rightarrow> string) \<Rightarrow> stage_spec \<Rightarrow> string" where
  "stage_spec_hash digest s = digest (JObj (stage_spec_to_dict s))"

definition validate_stage_entry :: "(json \<Rightarrow> string) \<Rightarrow> json \<Rightarrow> py_error + stage_error list" where
  "validate_stage_entry rp stage = (case stage of
     JObj d \<Rightarrow>
       (case dict_get d ''spec'' of
          JObj raw \<Rightarrow>
            (case stage_spec_from_dict rp (JObj raw) of
               Inr spec \<Rightarrow> Inr (stage_spec_validate spec)
             | Inl (ValueError m) \<Rightarrow> Inr [StageSpecInvalid (ValueError m)]
             | Inl (TypeError m) \<Rightarrow> Inr [StageSpecInvalid (TypeError m)]
             | Inl e \<Rightarrow> Inl e)
        | _ \<Rightarrow> Inr [StageSpecMissing])
   | _ \<Rightarrow> Inr [StageNotDict])"

text \<open>What parsing establishes, and the round trip.\<close>

definition stage_spec_parsed :: "stage_spec \<Rightarrow> bool" where
  "stage_spec_parsed s \<longleftrightarrow> strip (sg_goal s) = sg_goal s \<and>
     (\<forall>xs \<in> {sg_functional s, sg_interfaces s, sg_constraints s, sg_out_of_scope s, sg_dependencies s, sg_artifacts s,
        sg_modifiable_scope s}. \<forall>x \<in> set xs. \<not> is_blank x)"

lemma text_items_clean: "x \<in> set (text_items vs) \<Longrightarrow> \<not> is_blank x"
  by (induction vs rule: text_items.induct) (auto split: if_splits)

lemma text_items_strs: "\<forall>x \<in> set xs. \<not> is_blank x \<Longrightarrow> text_items (map JStr xs) = xs"
  by (induction xs) auto

lemma scope_tuple_clean: "x \<in> set (scope_tuple v) \<Longrightarrow> \<not> is_blank x"
  by (cases v) (auto dest: text_items_clean)

lemma loose_tuple_clean: "loose_tuple v = Inr xs \<Longrightarrow> x \<in> set xs \<Longrightarrow> \<not> is_blank x"
  by (auto simp: loose_tuple_def res_simps dest: text_items_clean)

lemma stage_spec_from_dict_parsed:
  assumes "stage_spec_from_dict rp raw = Inr s"
  shows "stage_spec_parsed s"
  using assms
  by (cases raw) (auto simp: stage_spec_from_dict_def Let_def res_simps stage_spec_parsed_def
      dest: scope_tuple_clean loose_tuple_clean)

lemma loose_tuple_strs: "\<forall>x \<in> set xs. \<not> is_blank x \<Longrightarrow> loose_tuple (str_list xs) = Inr xs"
  by (simp add: loose_tuple_def str_list_def py_or_def text_items_strs)

lemma scope_tuple_strs: "\<forall>x \<in> set xs. \<not> is_blank x \<Longrightarrow> scope_tuple (str_list xs) = xs"
  by (simp add: str_list_def text_items_strs)

lemma stage_spec_roundtrip:
  assumes "stage_spec_parsed s"
  shows "stage_spec_from_dict rp (JObj (stage_spec_to_dict s)) = Inr s"
  using assms
  by (cases "sg_deadline_at s")
    (simp_all add: stage_spec_from_dict_def stage_spec_to_dict_def stage_spec_parsed_def dict_get_def dict_get_or_def
      loose_tuple_strs scope_tuple_strs opt_str_def del: scope_tuple.simps)


section \<open>Properties\<close>

text \<open>
  A goal runs through its plan. From empty progress, completing the stages of a valid staged plan one
  after the other in plan order is accepted at every step: after the first \<open>k\<close> stages exactly those are
  completed, the current stage is the next one, and the goal is satisfied exactly when no stage is left.
\<close>

theorem goal_completes_in_order:
  assumes "normalize_plan rp plan = Inr p" and "dict_get plan ''stages'' \<noteq> JNull"
    and "k \<le> length (plan_stage_ids rp p)"
  shows "\<exists>pr. run_stages rp plan [] (take k (plan_stage_ids rp p)) = Inr pr \<and> progress_at (plan_stage_ids rp p) k pr"
  using assms(3)
proof (induction k)
  case 0
  show ?case by (simp add: progress_at_def dict_get_or_def dict_get_def)
next
  case (Suc k)
  then obtain pr where pr: "run_stages rp plan [] (take k (plan_stage_ids rp p)) = Inr pr"
    and at: "progress_at (plan_stage_ids rp p) k pr" by auto
  obtain pr' where "advance_progress rp plan pr (plan_stage_ids rp p ! k) = Inr pr'"
    "progress_at (plan_stage_ids rp p) (Suc k) pr'"
    using advance_next_stage [OF assms(1,2) refl at] Suc.prems by auto
  with pr Suc.prems show ?case by (auto simp: take_Suc_conv_app_nth run_stages_snoc)
qed

definition two_stage_plan :: dict where
  "two_stage_plan = [(''stages'', JList [JStr ''design'', JObj [(''id'', JStr '' build '')]])]"

lemma two_stage_plan_normal:
  "normalize_plan rp two_stage_plan = Inr [(''stages'', JList [JObj [(''id'', JStr ''design''), (''title'', JStr ''design'')],
     JObj [(''id'', JStr ''build''), (''title'', JStr ''build'')]])]"
  by (simp add: two_stage_plan_def normalize_plan_def dict_get_def dict_get_or_def set_default_def Let_def strip_def
      lstrip_def is_space_def)

theorem goal_completes_in_order_witness:
  "\<exists>pr. run_stages sample_repr two_stage_plan [] [''design'', ''build''] = Inr pr \<and> dict_get pr ''status'' = JStr ''satisfied''"
proof -
  have s: "dict_get two_stage_plan ''stages'' \<noteq> JNull" by (simp add: two_stage_plan_def dict_get_def)
  have ids: "plan_stage_ids sample_repr [(''stages'', JList [JObj [(''id'', JStr ''design''), (''title'', JStr ''design'')],
     JObj [(''id'', JStr ''build''), (''title'', JStr ''build'')]])] = [''design'', ''build'']"
    by (simp add: plan_stage_ids_def dict_get_def)
  show ?thesis
    using goal_completes_in_order [OF two_stage_plan_normal s, of 2 sample_repr] by (auto simp: ids progress_at_def)
qed

text \<open>
  No stage can be skipped. An accepted advance completes the stage that was expected - the recorded
  current stage, or the first open one - adds only it to the completed stages, moves on to the first stage of
  the plan that is still open, marks the goal satisfied exactly when none is left, and touches no other field.
\<close>

theorem advance_completes_only_the_expected_stage:
  assumes "advance_progress rp plan progress s = Inr progress'"
  shows "\<exists>p completed. normalize_plan rp plan = Inr p \<and>
    py_iter (dict_get_or progress ''completed'' (JList [])) = Inr completed \<and>
    s \<in> set (plan_stage_ids rp p) \<and>
    s = py_str rp (expected_stage (plan_stage_ids rp p) (map (py_str rp) completed) (dict_get progress ''current'')) \<and>
    dict_get progress' ''completed'' = JList (map JStr (with_stage s (map (py_str rp) completed))) \<and>
    dict_get progress' ''current'' = opt_str (find (\<lambda>x. x \<notin> insert s (py_str rp ` set completed)) (plan_stage_ids rp p)) \<and>
    (dict_get progress' ''status'' = JStr ''satisfied'' \<longleftrightarrow>
       set (plan_stage_ids rp p) \<subseteq> insert s (py_str rp ` set completed)) \<and>
    (\<forall>k. k \<notin> {''completed'', ''current'', ''status''} \<longrightarrow> map_of progress' k = map_of progress k)"
proof -
  from advance_progress_cases [OF assms] obtain p completed where *:
    "normalize_plan rp plan = Inr p" "py_iter (dict_get_or progress ''completed'' (JList [])) = Inr completed"
    "s \<in> set (plan_stage_ids rp p)"
    "py_str rp (expected_stage (plan_stage_ids rp p) (map (py_str rp) completed) (dict_get progress ''current'')) = s"
    "progress' = progress_after (plan_stage_ids rp p) (with_stage s (map (py_str rp) completed)) progress" by metis
  have set: "set (with_stage s (map (py_str rp) completed)) = insert s (py_str rp ` set completed)"
    by (auto simp: with_stage_def)
  have satisfied: "find (\<lambda>x. x \<notin> insert s (py_str rp ` set completed)) ids = None \<longleftrightarrow>
      set ids \<subseteq> insert s (py_str rp ` set completed)" for ids
    by (auto simp: find_None_all)
  have frame: "\<forall>k. k \<notin> {''completed'', ''current'', ''status''} \<longrightarrow> map_of progress' k = map_of progress k"
    by (simp add: *(5) progress_after_def Let_def)
  have fields: "map_of progress' ''completed'' = Some (JList (map JStr (with_stage s (map (py_str rp) completed))))"
    "map_of progress' ''current'' =
       Some (opt_str (find (\<lambda>x. x \<notin> insert s (py_str rp ` set completed)) (plan_stage_ids rp p)))"
    "map_of progress' ''status'' = Some (JStr (if find (\<lambda>x. x \<notin> insert s (py_str rp ` set completed))
       (plan_stage_ids rp p) = None then ''satisfied'' else ''active''))"
    by (simp_all add: *(5) progress_after_def Let_def set del: insert_iff)
  show ?thesis
    using *(1-4) satisfied frame
    by (intro exI [of _ p] exI [of _ completed]) (simp add: dict_get_def fields del: insert_iff)
qed

theorem advance_completes_only_the_expected_stage_witness:
  "\<exists>progress'. advance_progress sample_repr two_stage_plan [(''current'', JStr ''build''), (''note'', JInt 7)] ''build'' = Inr progress' \<and>
     dict_get progress' ''current'' = JStr ''design'' \<and> map_of progress' ''note'' = Some (JInt 7)"
proof -
  have "\<not> isl (advance_progress sample_repr two_stage_plan [(''current'', JStr ''build''), (''note'', JInt 7)] ''build'')"
    by code_simp
  then obtain progress' where
    a: "advance_progress sample_repr two_stage_plan [(''current'', JStr ''build''), (''note'', JInt 7)] ''build'' = Inr progress'"
    by (cases "advance_progress sample_repr two_stage_plan [(''current'', JStr ''build''), (''note'', JInt 7)] ''build''") auto
  from advance_completes_only_the_expected_stage [OF a] have
    "dict_get progress' ''current'' = JStr ''design'' \<and> map_of progress' ''note'' = Some (JInt 7)"
    by (auto simp: two_stage_plan_normal plan_stage_ids_def dict_get_def dict_get_or_def opt_str_def)
  with a show ?thesis by blast
qed

text \<open>
  A stage specification survives being stored: whatever the parser accepts is reproduced exactly by
  serialising and parsing it again, so the validation result and the hash that a contract approval is bound to are
  those of the submitted stage.
\<close>

theorem stage_spec_reloads:
  assumes "stage_spec_from_dict rp raw = Inr s"
  shows "stage_spec_from_dict rp (JObj (stage_spec_to_dict s)) = Inr s \<and>
    validate_stage_entry rp (JObj [(''spec'', JObj (stage_spec_to_dict s))]) = Inr (stage_spec_validate s)"
  using stage_spec_roundtrip [OF stage_spec_from_dict_parsed [OF assms], of rp]
  by (simp add: validate_stage_entry_def dict_get_def)

theorem stage_spec_reloads_witness:
  "\<exists>s. stage_spec_from_dict sample_repr (JObj [(''goal'', JStr '' ship it ''), (''dependencies'', JList [JStr ''a'', JStr '' '', JInt 1])]) = Inr s \<and>
     sg_goal s = ''ship it'' \<and> sg_dependencies s = [''a''] \<and>
     stage_spec_from_dict sample_repr (JObj (stage_spec_to_dict s)) = Inr s"
proof -
  obtain s where s: "stage_spec_from_dict sample_repr (JObj [(''goal'', JStr '' ship it ''), (''dependencies'', JList [JStr ''a'', JStr '' '', JInt 1])]) = Inr s"
      "sg_goal s = ''ship it''" "sg_dependencies s = [''a'']"
    by (simp add: stage_spec_from_dict_def dict_get_def dict_get_or_def loose_tuple_def py_or_def strip_def lstrip_def
        is_space_def is_blank_iff)
  then show ?thesis using stage_spec_reloads [OF s(1)] by blast
qed

end
