(* ===== verification/Goal_Store.thy ===== *)
theory Goal_Store
  imports Contract_Properties Goal_Progress
begin

text \<open>
  The goals of \<open>longtask/persistence/store.py\<close>: the aggregated view, amendment and advancement under compare-and-swap,
  the user's pre-authorisation with the automatic approval of drafted contracts, and the next action and contract draft that a
  goal offers. \<open>rp\<close> is \<open>str\<close> of a float, list or dictionary.

  \<open>ORDER BY created_at DESC LIMIT 1\<close> leaves open which of several newest rows is returned; the choice is the parameter
  \<open>pick\<close>, applied to the newest rows.
\<close>

section \<open>The view of a goal\<close>

record goal_view =
  gw_goal_id :: string
  gw_row :: goal_row
  gw_contract_ids :: "string list"
  gw_state_counts :: "(string \<times> int) list"
  gw_current_contract :: "contract_view option"
  gw_deadline_snapshot :: "dict option"
  gw_active_attempts :: int
  gw_timeline :: "event list"

definition goal_contract_ids :: "store \<Rightarrow> string \<Rightarrow> string list" where
  "goal_contract_ids s goal_id = map cv_contract_id (sort_key (\<lambda>v. (- cv_updated_at v, cv_contract_id v))
     (filter (\<lambda>v. cv_goal_id v = goal_id) (map snd (st_contracts s))))"

definition count_state :: "contract_view \<Rightarrow> (string \<times> int) list \<Rightarrow> (string \<times> int) list" where
  "count_state v d = (let k = contract_state_value (cv_state v) in
     put k ((case map_of d k of None \<Rightarrow> 0 | Some n \<Rightarrow> n) + 1) d)"

definition latest_forecast :: "store \<Rightarrow> string \<Rightarrow> dict option" where
  "latest_forecast s contract_id = map_option ev_payload
     (find (\<lambda>e. ev_type e = FORECAST_UPDATED) (rev (get_events (Some contract_id) None [] None (st_log s))))"

definition get_goal :: "store \<Rightarrow> string \<Rightarrow> goal_view option" where
  "get_goal s goal_id = map_option (\<lambda>row.
     let contract_ids = goal_contract_ids s goal_id;
         views = concat (map (\<lambda>c. case get_contract s c of None \<Rightarrow> [] | Some v \<Rightarrow> [v]) contract_ids);
         latest = (case views of [] \<Rightarrow> None | v # _ \<Rightarrow> Some v) in
     \<lparr>gw_goal_id = goal_id, gw_row = row, gw_contract_ids = contract_ids, gw_state_counts = fold count_state views [],
      gw_current_contract = latest,
      gw_deadline_snapshot = (case latest of None \<Rightarrow> None | Some v \<Rightarrow> latest_forecast s (cv_contract_id v)),
      gw_active_attempts = int (length (filter (\<lambda>(i, a). sa_goal a = goal_id \<and> sa_state a \<in> {''admitted'', ''running''}) (st_attempts s))),
      gw_timeline = sql_limit 20 (rev (filter (\<lambda>e. ev_goal e = Some goal_id) (el_rows (st_log s))))\<rparr>)
     (map_of (st_goals s) goal_id)"

definition list_goals :: "store \<Rightarrow> int \<Rightarrow> goal_view list" where
  "list_goals s limit = concat (map (\<lambda>g. case get_goal s g of None \<Rightarrow> [] | Some v \<Rightarrow> [v])
     (map fst (sql_limit limit (sort_key (\<lambda>(g, row). (- go_updated_at row, g)) (st_goals s)))))"

section \<open>Amendment and advancement\<close>

record goal_patch =
  gp_goal :: string
  gp_now :: int
  gp_plan :: "dict option"
  gp_progress :: "dict option"
  gp_expected :: "int option"
  gp_actor :: string

definition lift_py :: "py_error + 'a \<Rightarrow> store_error + 'a" where
  "lift_py r = (case r of Inl e \<Rightarrow> Inl (CallError e) | Inr x \<Rightarrow> Inr x)"

definition amend_event :: "goal_patch \<Rightarrow> goal_row \<Rightarrow> new_event" where
  "amend_event c row = (event_call None GOAL_AMENDED [(''revision'', JInt (go_revision row)), (''plan'', JObj (go_plan row)),
     (''progress'', JObj (go_progress row))] (gp_now c))\<lparr>ne_goal := Some (gp_goal c), ne_actor := gp_actor c, ne_role := Some ''user''\<rparr>"

definition patch_goal :: "(json \<Rightarrow> string) \<Rightarrow> goal_patch \<Rightarrow> store \<Rightarrow> store_error + goal_view \<times> store" where
  "patch_goal rp c s = (case map_of (st_goals s) (gp_goal c) of
     None \<Rightarrow> Inl (StoreError ''goal not found'')
   | Some row \<Rightarrow>
       if gp_expected c \<notin> {None, Some (go_revision row)}
       then Inl (RevisionConflictError (the (gp_expected c)) (go_revision row))
       else
         sbind (lift_py (normalize_plan rp (or_else (gp_plan c) (go_plan row)))) (\<lambda>next_plan.
         let row' = row\<lparr>go_revision := go_revision row + 1, go_plan := next_plan,
               go_progress := or_else (gp_progress c) (go_progress row), go_updated_at := gp_now c\<rparr>;
             s' = snd (log_event (amend_event c row') (s\<lparr>st_goals := put (gp_goal c) row' (st_goals s)\<rparr>)) in
         (case get_goal s' (gp_goal c) of
            None \<Rightarrow> Inl (StoreError ''goal disappeared after update'')
          | Some g \<Rightarrow> Inr (g, s'))))"

text \<open>\<open>_goal_stage_dicts\<close>: the stages that are objects.\<close>

definition goal_stage_dicts :: "dict \<Rightarrow> dict list" where
  "goal_stage_dicts plan = (case dict_get plan ''stages'' of JList xs \<Rightarrow> dict_items xs | _ \<Rightarrow> [])"

definition stage_contract_ok :: "(json \<Rightarrow> string) \<Rightarrow> store \<Rightarrow> string \<Rightarrow> dict \<Rightarrow> py_error + unit" where
  "stage_contract_ok rp s goal_id bound =
     (if \<not> truthy (dict_get bound ''contract_id'') then Inr ()
      else (case get_contract s (py_str rp (dict_get bound ''contract_id'')) of
          None \<Rightarrow> Inl (ValueError ''stage contract is missing or belongs to another goal'')
        | Some v \<Rightarrow>
            if cv_goal_id v \<noteq> goal_id then Inl (ValueError ''stage contract is missing or belongs to another goal'')
            else if cv_acceptance_status v \<noteq> Passed then Inl (ValueError ''stage contract must pass acceptance before advancement'')
            else Inr ()))"

definition advance_goal ::
  "(json \<Rightarrow> string) \<Rightarrow> string \<Rightarrow> string \<Rightarrow> int \<Rightarrow> int \<Rightarrow> string \<Rightarrow> store \<Rightarrow> store_error + goal_view \<times> store" where
  "advance_goal rp goal_id complete_stage now expected_revision actor s = (case get_goal s goal_id of
     None \<Rightarrow> Inl (StoreError ''goal not found'')
   | Some g \<Rightarrow>
       sbind (lift_py (case find (\<lambda>d. py_str rp (dict_get_or d ''id'' (JStr [])) = complete_stage) (goal_stage_dicts (go_plan (gw_row g))) of
           None \<Rightarrow> Inr () | Some bound \<Rightarrow> stage_contract_ok rp s goal_id bound)) (\<lambda>_.
       sbind (lift_py (advance_progress rp (go_plan (gw_row g)) (go_progress (gw_row g)) complete_stage)) (\<lambda>progress.
       patch_goal rp \<lparr>gp_goal = goal_id, gp_now = now, gp_plan = None, gp_progress = Some progress,
         gp_expected = Some expected_revision, gp_actor = actor\<rparr> s)))"

text \<open>The exceptions are swallowed: the store stays as it was.\<close>

definition advance_goal_after_verified_contract :: "(json \<Rightarrow> string) \<Rightarrow> contract_view \<Rightarrow> int \<Rightarrow> store \<Rightarrow> store" where
  "advance_goal_after_verified_contract rp contract now s = (case get_goal s (cv_goal_id contract) of
     None \<Rightarrow> s
   | Some g \<Rightarrow>
       (case dict_get (go_plan (gw_row g)) ''stages'' of
          JList stages \<Rightarrow>
            (case find (\<lambda>d. dict_get d ''contract_id'' = JStr (cv_contract_id contract)) (dict_items stages) of
               None \<Rightarrow> s
             | Some bound \<Rightarrow>
                 (let current = dict_get (go_progress (gw_row g)) ''current'';
                      stage_id = py_str rp (dict_get_or bound ''id'' (JStr [])) in
                  if current \<noteq> JNull \<and> py_str rp current \<noteq> stage_id then s
                  else (case advance_goal rp (cv_goal_id contract) stage_id now (go_revision (gw_row g)) ''verifier'' s of
                      Inl e \<Rightarrow> s
                    | Inr (g', s') \<Rightarrow> s')))
        | _ \<Rightarrow> s))"

section \<open>Pre-authorisation\<close>

definition PLAN_OVERRIDE_LOOKBACK_SECONDS :: int where "PLAN_OVERRIDE_LOOKBACK_SECONDS = 7200"

text \<open>\<open>{str(a) for a in actions if a}\<close>.\<close>

definition action_set :: "(json \<Rightarrow> string) \<Rightarrow> json list \<Rightarrow> string set" where
  "action_set rp xs = set (map (py_str rp) (filter truthy xs))"

definition grant_scope :: "(json \<Rightarrow> string) \<Rightarrow> dict \<Rightarrow> string set \<times> bool" where
  "grant_scope rp pre_authorized =
     (case py_or (dict_get pre_authorized ''actions'') (JList []) of JList xs \<Rightarrow> action_set rp xs | _ \<Rightarrow> {},
      truthy (dict_get_or pre_authorized ''wildcard'' (JBool False)))"

definition grant_still_covers :: "(json \<Rightarrow> string) \<Rightarrow> dict \<Rightarrow> dict \<Rightarrow> bool" where
  "grant_still_covers rp previous current =
     (let (previous_actions, previous_wildcard) = grant_scope rp previous;
          (current_actions, current_wildcard) = grant_scope rp current in
      if previous_wildcard then current_wildcard
      else if current_wildcard then True
      else previous_actions \<subseteq> current_actions)"

definition newest :: "(event list \<Rightarrow> event) \<Rightarrow> event list \<Rightarrow> event option" where
  "newest pick rows = (if rows = [] then None
     else Some (pick (filter (\<lambda>e. list_all (\<lambda>e'. ev_created e' \<le> ev_created e) rows) rows)))"

definition grant_as_of :: "(event list \<Rightarrow> event) \<Rightarrow> store \<Rightarrow> string \<Rightarrow> int \<Rightarrow> dict option" where
  "grant_as_of pick s goal_id approval_created_at =
     (case newest pick (filter (\<lambda>e. ev_goal e = Some goal_id \<and> ev_type e = GOAL_AMENDED \<and> ev_created e \<le> approval_created_at)
             (el_rows (st_log s))) of
        None \<Rightarrow> None
      | Some e \<Rightarrow>
          (case dict_get (ev_payload e) ''plan'' of
             JObj plan \<Rightarrow> (case dict_get plan ''pre_authorized'' of JObj grant \<Rightarrow> Some grant | _ \<Rightarrow> None)
           | _ \<Rightarrow> None))"

definition plan_verdicts :: "store \<Rightarrow> string \<Rightarrow> int \<Rightarrow> event list" where
  "plan_verdicts s contract_id now = filter (\<lambda>e. ev_contract e = Some contract_id \<and> ev_type e \<in> {PLAN_APPROVED, PLAN_REJECTED} \<and>
     now - PLAN_OVERRIDE_LOOKBACK_SECONDS * SECOND \<le> ev_created e) (el_rows (st_log s))"

definition has_recent_plan_approval_for_goal ::
  "(json \<Rightarrow> string) \<Rightarrow> (event list \<Rightarrow> event) \<Rightarrow> store \<Rightarrow> string \<Rightarrow> string set \<Rightarrow> int \<Rightarrow> string option \<Rightarrow> dict option \<Rightarrow> bool" where
  "has_recent_plan_approval_for_goal rp pick s contract_id granted_set now goal_id current_pre_authorized =
     (if granted_set = {} then False
      else (case newest pick (plan_verdicts s contract_id now) of
          None \<Rightarrow> False
        | Some e \<Rightarrow>
            if ev_type e \<noteq> PLAN_APPROVED then False
            else (case (goal_id, current_pre_authorized) of
                (Some g, Some current) \<Rightarrow>
                  (case grant_as_of pick s g (ev_created e) of None \<Rightarrow> True | Some grant \<Rightarrow> grant_still_covers rp grant current)
              | _ \<Rightarrow> True)))"

definition goal_pre_authorizes_contract ::
  "(json \<Rightarrow> string) \<Rightarrow> (event list \<Rightarrow> event) \<Rightarrow> store \<Rightarrow> contract_view \<Rightarrow> int \<Rightarrow> bool \<Rightarrow> bool" where
  "goal_pre_authorizes_contract rp pick s contract now plan_approved_override =
     (if cv_goal_id contract = [] then False
      else (case get_goal s (cv_goal_id contract) of
          None \<Rightarrow> False
        | Some g \<Rightarrow>
            (case dict_get (go_plan (gw_row g)) ''pre_authorized'' of
               JObj pre_authorized \<Rightarrow>
                 if \<not> truthy (dict_get_or pre_authorized ''enabled'' (JBool False)) then False
                 else (case py_or (dict_get pre_authorized ''actions'') (JList []) of
                     JList granted \<Rightarrow>
                       (let granted_set = action_set rp granted;
                            is_wildcard = truthy (dict_get_or pre_authorized ''wildcard'' (JBool False));
                            claimed = cd_auto_approve (cv_draft contract) in
                        if granted_set = {} \<and> \<not> is_wildcard then False
                        else if \<not> aa_enabled claimed then
                          is_wildcard \<or> (plan_approved_override \<and>
                            has_recent_plan_approval_for_goal rp pick s (cv_contract_id contract) granted_set now
                              (Some (cv_goal_id contract)) (Some pre_authorized))
                        else
                          (let claimed_actions = set (filter (\<lambda>a. a \<noteq> []) (aa_actions claimed)) in
                           if claimed_actions = {} \<and> \<not> is_wildcard then False
                           else claimed_actions \<subseteq> granted_set))
                   | _ \<Rightarrow> False)
             | _ \<Rightarrow> False)))"

text \<open>\<open>except (RevisionConflictError, StoreError)\<close>: what is not a \<open>StoreError\<close> propagates.\<close>

fun is_store_error :: "store_error \<Rightarrow> bool" where
  "is_store_error (IntegrityError _) = False"
| "is_store_error (CallError _) = False"
| "is_store_error _ = True"

definition promote_call :: "contract_view \<Rightarrow> int \<Rightarrow> update_call" where
  "promote_call contract now = \<lparr>uc_contract = cv_contract_id contract, uc_state = Active, uc_now = now,
     uc_expected = Some (cv_revision contract), uc_blocked = None, uc_next_wakeup = None, uc_deadline = None,
     uc_acceptance = None, uc_next_decision = None, uc_event = None, uc_payload = [], uc_request = None,
     uc_actor = ''daemon'', uc_schema = STORE_SCHEMA_VERSION\<rparr>"

definition auto_approve_drafted_contract ::
  "(json \<Rightarrow> string) \<Rightarrow> (event list \<Rightarrow> event) \<Rightarrow> tzdb \<Rightarrow> contract_view \<Rightarrow> int \<Rightarrow> store \<Rightarrow> store_error + bool \<times> store" where
  "auto_approve_drafted_contract rp pick tz contract now s =
     (if cv_state contract \<noteq> Drafted then Inr (False, s)
      else if \<not> goal_pre_authorizes_contract rp pick s contract now True then Inr (False, s)
      else (case update_contract_state tz (promote_call contract now) s of
          Inl e \<Rightarrow> if is_store_error e then Inr (False, s) else Inl e
        | Inr (v, s') \<Rightarrow> Inr (True, s')))"

definition list_drafted_contracts :: "store \<Rightarrow> contract_view list" where
  "list_drafted_contracts s = filter (\<lambda>v. cv_state v = Drafted) (list_contracts None None 1000 s)"

section \<open>What to do next\<close>

datatype next_action =
    SatisfiedAction string
  | ResumeContract string json "dict option" string deadline_status "int option"
  | CreateContract string json "dict option"

definition open_stage :: "(json \<Rightarrow> string) \<Rightarrow> dict list \<Rightarrow> string list \<Rightarrow> json \<Rightarrow> json" where
  "open_stage rp stages completed current =
     (if current = JNull \<and> stages \<noteq> []
      then opt_str (find (\<lambda>i. i \<notin> set completed) (map (\<lambda>d. py_str rp (dict_get d ''id'')) stages))
      else current)"

definition goal_next_action :: "(json \<Rightarrow> string) \<Rightarrow> store \<Rightarrow> string \<Rightarrow> store_error + next_action" where
  "goal_next_action rp s goal_id = (case get_goal s goal_id of
     None \<Rightarrow> Inl (StoreError ''goal not found'')
   | Some g \<Rightarrow>
       (let stages = goal_stage_dicts (go_plan (gw_row g)) in
        sbind (lift_py (py_iter (dict_get_or (go_progress (gw_row g)) ''completed'' (JList [])))) (\<lambda>items.
        let current = open_stage rp stages (map (py_str rp) items) (dict_get (go_progress (gw_row g)) ''current'') in
        if current = JNull \<and> stages \<noteq> [] then Inr (SatisfiedAction goal_id)
        else
          (let stage = (case find (\<lambda>d. py_str rp (dict_get d ''id'') = py_str rp current) stages of
                 Some d \<Rightarrow> Some d | None \<Rightarrow> if truthy current then Some [(''id'', current)] else None);
               found = concat (map (\<lambda>c. case get_contract s c of None \<Rightarrow> [] | Some v \<Rightarrow> [v]) (gw_contract_ids g)) in
           case filter (\<lambda>v. cv_state v \<notin> {Complete, Satisfied, Cancelled, Archived}) found of
             v # _ \<Rightarrow> Inr (ResumeContract goal_id current stage (cv_contract_id v) (cv_deadline_status v) (cv_next_decision_at v))
           | [] \<Rightarrow> Inr (CreateContract goal_id current stage)))))"

definition goal_contract_draft :: "(json \<Rightarrow> string) \<Rightarrow> store \<Rightarrow> string \<Rightarrow> string option \<Rightarrow> store_error + dict \<times> dict" where
  "goal_contract_draft rp s goal_id stage_id = (case get_goal s goal_id of
     None \<Rightarrow> Inl (StoreError ''goal not found'')
   | Some g \<Rightarrow>
       (let current = (if text_or stage_id [] = [] then dict_get (go_progress (gw_row g)) ''current'' else opt_str stage_id) in
        case find (\<lambda>d. py_str rp (dict_get d ''id'') = py_str rp current) (goal_stage_dicts (go_plan (gw_row g))) of
          None \<Rightarrow> Inl (CallError (ValueError ''stage_id does not identify a planned stage''))
        | Some stage \<Rightarrow>
            (let draft = (case dict_get_or stage ''draft'' (JObj []) of JObj d \<Rightarrow> d | _ \<Rightarrow> []) in
             Inr (stage, set_default ''stage_id'' (dict_get stage ''id'') (set_default ''goal_id'' (JStr goal_id)
               (set_default ''objective'' (JStr (go_objective (gw_row g)))
               (set_default ''title'' (dict_get_or stage ''title'' (dict_get_or stage ''id'' (JStr ''Goal stage''))) draft)))))))"

section \<open>Lemmas\<close>

lemma get_goal_Some: "get_goal s g = Some v \<Longrightarrow> map_of (st_goals s) g = Some (gw_row v) \<and> gw_goal_id v = g"
  by (auto simp: get_goal_def Let_def)

lemma get_goal_None: "get_goal s g = None \<longleftrightarrow> map_of (st_goals s) g = None"
  by (simp add: get_goal_def)

lemma get_goal_row:
  assumes "map_of (st_goals s) g = Some row"
  obtains v where "get_goal s g = Some v" and "gw_row v = row"
  using assms get_goal_None get_goal_Some by (metis not_None_eq option.inject)

lemma lift_py_Inr [res_simps]: "lift_py r = Inr x \<longleftrightarrow> r = Inr x"
  by (cases r) (simp_all add: lift_py_def)

lemma patch_goal_Inr:
  assumes "patch_goal rp c s = Inr (g, s')"
  shows "\<exists>row row'. map_of (st_goals s) (gp_goal c) = Some row \<and> gp_expected c \<in> {None, Some (go_revision row)} \<and>
    go_revision row' = go_revision row + 1 \<and> go_progress row' = or_else (gp_progress c) (go_progress row) \<and> gw_row g = row' \<and>
    s' = s\<lparr>st_goals := put (gp_goal c) row' (st_goals s), st_log := snd (append_event (amend_event c row') (st_log s))\<rparr>"
proof -
  obtain row where row: "map_of (st_goals s) (gp_goal c) = Some row"
    using assms by (cases "map_of (st_goals s) (gp_goal c)") (simp_all add: patch_goal_def)
  have rev: "gp_expected c \<in> {None, Some (go_revision row)}"
    using assms row by (auto simp: patch_goal_def split: if_splits)
  obtain plan where plan: "normalize_plan rp (or_else (gp_plan c) (go_plan row)) = Inr plan"
    using assms row rev by (cases "normalize_plan rp (or_else (gp_plan c) (go_plan row))") (auto simp: patch_goal_def lift_py_def)
  define row' where "row' = row\<lparr>go_revision := go_revision row + 1, go_plan := plan,
    go_progress := or_else (gp_progress c) (go_progress row), go_updated_at := gp_now c\<rparr>"
  define s1 where "s1 = snd (log_event (amend_event c row') (s\<lparr>st_goals := put (gp_goal c) row' (st_goals s)\<rparr>))"
  have eq: "patch_goal rp c s = (case get_goal s1 (gp_goal c) of None \<Rightarrow> Inl (StoreError ''goal disappeared after update'')
    | Some g \<Rightarrow> Inr (g, s1))"
    using row rev plan by (simp add: patch_goal_def lift_py_def row'_def s1_def Let_def split: option.split)
  have s1: "s1 = s\<lparr>st_goals := put (gp_goal c) row' (st_goals s), st_log := snd (append_event (amend_event c row') (st_log s))\<rparr>"
    by (simp add: s1_def log_event_pair)
  from eq assms have "get_goal s1 (gp_goal c) = Some g \<and> s1 = s'" by (auto split: option.splits)
  moreover then have "gw_row g = row'" using get_goal_Some by (fastforce simp: s1)
  ultimately show ?thesis using row rev s1 by (auto simp: row'_def)
qed

lemma patch_goal_succeeds:
  assumes "map_of (st_goals s) (gp_goal c) = Some row" and "gp_expected c \<in> {None, Some (go_revision row)}"
    and "normalize_plan rp (or_else (gp_plan c) (go_plan row)) = Inr plan"
  shows "\<exists>g s'. patch_goal rp c s = Inr (g, s')"
  using assms by (simp add: patch_goal_def lift_py_def Let_def get_goal_None split: option.split)

definition goal_version :: "store \<Rightarrow> string \<Rightarrow> int option" where
  "goal_version s g = map_option go_revision (map_of (st_goals s) g)"

definition amend_goal :: "(json \<Rightarrow> string) \<Rightarrow> goal_patch \<Rightarrow> store \<Rightarrow> store_error + store" where
  "amend_goal rp c s = sbind (patch_goal rp c s) (\<lambda>(g, s'). Inr s')"

interpretation goal_cells: versioned_cells goal_version "amend_goal rp" gp_goal gp_expected "\<lambda>c s. False" for rp
  by unfold_locales (auto simp: amend_goal_def res_simps goal_version_def dest!: patch_goal_Inr)

lemma find_first_stage: "find p xs = Some d \<Longrightarrow> p d"
  using find_Some_in by metis

section \<open>Properties\<close>

text \<open>
  No amendment of a goal is lost. In any sequence of successful amendments the revision of a goal grows by one for each,
  and two amendments of one goal never named the same expected revision.
\<close>

theorem goal_amendments_serialised:
  assumes "goal_cells.run rp s cs s'" and "map_of (st_goals s) k = Some row"
  shows "\<exists>row'. map_of (st_goals s') k = Some row' \<and> go_revision row' = go_revision row + int (length (goal_cells.on_target k cs)) \<and>
    (\<forall>i j. i < j \<and> j < length (goal_cells.on_target k cs) \<and> gp_expected (goal_cells.on_target k cs ! i) \<noteq> None \<longrightarrow>
       gp_expected (goal_cells.on_target k cs ! i) \<noteq> gp_expected (goal_cells.on_target k cs ! j))"
proof -
  have v: "goal_version s k = Some (go_revision row)" by (simp add: goal_version_def assms(2))
  from goal_cells.run_versions [OF assms(1) v] obtain row' where "map_of (st_goals s') k = Some row'"
    "go_revision row' = go_revision row + int (length (goal_cells.on_target k cs))"
    by (auto simp: goal_version_def)
  then show ?thesis using goal_cells.winners_distinct [OF assms(1) v] by blast
qed

text \<open>
  C32: A stage bound to a contract is only completed on verified work. When an advance succeeds and the plan binds the
  stage to a contract, that contract belongs to the goal and its acceptance has passed; the advance raises the
  revision of the goal by one from the revision the caller saw and leaves contracts, leases and attempts untouched.
\<close>

theorem stage_advances_on_verified_contract:
  assumes "advance_goal rp goal_id stage now expected actor s = Inr (g, s')" and "map_of (st_goals s) goal_id = Some row"
    and "find (\<lambda>d. py_str rp (dict_get_or d ''id'' (JStr [])) = stage) (goal_stage_dicts (go_plan row)) = Some bound"
    and "truthy (dict_get bound ''contract_id'')"
  shows "(\<exists>v. get_contract s (py_str rp (dict_get bound ''contract_id'')) = Some v \<and> cv_goal_id v = goal_id \<and> cv_acceptance_status v = Passed) \<and>
    go_revision row = expected \<and> go_revision (gw_row g) = expected + 1 \<and>
    st_contracts s' = st_contracts s \<and> st_leases s' = st_leases s \<and> st_attempts s' = st_attempts s \<and> st_revisions s' = st_revisions s"
proof -
  obtain g0 where g0: "get_goal s goal_id = Some g0" "gw_row g0 = row" using assms(2) by (rule get_goal_row)
  have "stage_contract_ok rp s goal_id bound = Inr ()"
    using assms(1,3) g0 by (auto simp: advance_goal_def res_simps)
  then have "\<exists>v. get_contract s (py_str rp (dict_get bound ''contract_id'')) = Some v \<and> cv_goal_id v = goal_id \<and> cv_acceptance_status v = Passed"
    using assms(4) by (auto simp: stage_contract_ok_def split: option.splits if_splits)
  moreover obtain c where "patch_goal rp c s = Inr (g, s')" "gp_goal c = goal_id" "gp_expected c = Some expected"
    using assms(1,3) g0 by (auto simp: advance_goal_def res_simps)
  ultimately show ?thesis using assms(2) by (auto dest!: patch_goal_Inr)
qed

definition bound_plan :: dict where
  "bound_plan = [(''stages'', JList [JObj [(''id'', JStr ''design''), (''title'', JStr ''design''), (''contract_id'', JStr ''c1'')]])]"

definition bound_store :: "acceptance_status \<Rightarrow> store" where
  "bound_store status = empty_store\<lparr>st_goals := [(''g'', \<lparr>go_revision = 4, go_title = ''t'', go_objective = ''o'', go_plan = bound_plan,
     go_progress = [], go_created_at = 0, go_updated_at = 0\<rparr>)],
     st_contracts := [(''c1'', sample_view\<lparr>cv_goal_id := ''g'', cv_acceptance_status := status\<rparr>)]\<rparr>"

lemma bound_plan_facts:
  "normalize_plan rp bound_plan = Inr bound_plan"
  "dict_get bound_plan ''stages'' = JList [JObj [(''id'', JStr ''design''), (''title'', JStr ''design''), (''contract_id'', JStr ''c1'')]]"
  "plan_stage_ids rp bound_plan = [''design'']"
  by (simp_all add: bound_plan_def normalize_plan_def plan_stage_ids_def dict_get_def dict_get_or_def set_default_def Let_def strip_def lstrip_def is_space_def)

theorem stage_advances_on_verified_contract_witness:
  "\<exists>g s'. advance_goal sample_repr ''g'' ''design'' 9 4 ''user'' (bound_store Passed) = Inr (g, s') \<and> go_revision (gw_row g) = 5 \<and>
     st_contracts s' = st_contracts (bound_store Passed)"
proof -
  have row: "map_of (st_goals (bound_store Passed)) ''g'' = Some \<lparr>go_revision = 4, go_title = ''t'', go_objective = ''o'', go_plan = bound_plan,
     go_progress = [], go_created_at = 0, go_updated_at = 0\<rparr>" by (simp add: bound_store_def)
  then obtain g0 where g0: "get_goal (bound_store Passed) ''g'' = Some g0" "go_plan (gw_row g0) = bound_plan"
      "go_progress (gw_row g0) = []" "go_revision (gw_row g0) = 4"
    by (rule get_goal_row) auto
  have ok: "stage_contract_ok sample_repr (bound_store Passed) ''g''
      [(''id'', JStr ''design''), (''title'', JStr ''design''), (''contract_id'', JStr ''c1'')] = Inr ()"
    by (simp add: stage_contract_ok_def dict_get_def get_contract_def bound_store_def)
  have progress: "\<exists>p. advance_progress sample_repr bound_plan [] ''design'' = Inr p"
    by (simp add: advance_progress_def bound_plan_facts expected_stage_def dict_get_or_def) (simp add: dict_get_def)
  have "\<not> isl (patch_goal sample_repr c (bound_store Passed))"
    if "gp_goal c = ''g''" "gp_expected c = Some 4" "gp_plan c = None" for c
  proof -
    have "map_of (st_goals (bound_store Passed)) (gp_goal c) = Some (gw_row g0)" using that g0(1) get_goal_Some by simp
    then show ?thesis using that g0(2,4) patch_goal_succeeds [of "bound_store Passed" c _ sample_repr bound_plan]
      by (auto simp: or_else_def bound_plan_facts)
  qed
  then have "\<not> isl (advance_goal sample_repr ''g'' ''design'' 9 4 ''user'' (bound_store Passed))"
    using g0 ok progress by (auto simp: advance_goal_def goal_stage_dicts_def bound_plan_facts lift_py_def dict_get_or_def)
  then obtain g s' where a: "advance_goal sample_repr ''g'' ''design'' 9 4 ''user'' (bound_store Passed) = Inr (g, s')"
    by (cases "advance_goal sample_repr ''g'' ''design'' 9 4 ''user'' (bound_store Passed)") auto
  from stage_advances_on_verified_contract [OF a row] a show ?thesis
    by (simp add: goal_stage_dicts_def bound_plan_def dict_get_def dict_get_or_def)
qed


definition grant_goal :: "dict \<Rightarrow> goal_row" where
  "grant_goal grant = \<lparr>go_revision = 1, go_title = ''t'', go_objective = ''o'', go_plan = [(''pre_authorized'', JObj grant)],
     go_progress = [], go_created_at = 0, go_updated_at = 0\<rparr>"

text \<open>A drafted contract under a grant, with one event of its own in the log.\<close>

definition granted_store :: "dict \<Rightarrow> event_type \<Rightarrow> store" where
  "granted_store grant verdict = snd (log_event ((event_call (Some ''c1'') verdict [] 5)\<lparr>ne_revision := Some 1\<rparr>)
     (sample_store\<lparr>st_goals := [(''c1'', grant_goal grant)], st_log := empty_log\<rparr>))"

definition bounded_grant :: dict where
  "bounded_grant = [(''enabled'', JBool True), (''actions'', JList [JStr ''read file''])]"

lemma granted_store_simps [simp]:
  "st_contracts (granted_store grant verdict) = st_contracts sample_store"
  "st_goals (granted_store grant verdict) = [(''c1'', grant_goal grant)]"
  "st_revisions (granted_store grant verdict) = st_revisions sample_store"
  by (simp_all add: granted_store_def)

lemma granted_history: "history_ok (granted_store grant verdict)"
  using sample_history history_at_cong [of "granted_store grant verdict" _ sample_store]
  by (simp add: history_ok_def revisions_of_def get_contract_def)

lemma granted_view: "get_contract (granted_store grant verdict) ''c1'' = Some sample_view"
  using sample_contract by (simp add: get_contract_def)

lemma latest_verdict:
  "newest hd (plan_verdicts (granted_store grant verdict) ''c1'' 9) =
     (if verdict \<in> {PLAN_APPROVED, PLAN_REJECTED}
      then Some (stored_event 1 ((event_call (Some ''c1'') verdict [] 5)\<lparr>ne_revision := Some 1\<rparr>)) else None)"
  by (simp add: granted_store_def plan_verdicts_def newest_def empty_log_def append_event_def stored_event_def event_call_def
      PLAN_OVERRIDE_LOOKBACK_SECONDS_def SECOND_def log_event_pair Let_def)

lemma no_amendment: "grant_as_of hd (granted_store grant PLAN_APPROVED) g t = None"
  by (simp add: grant_as_of_def granted_store_def newest_def empty_log_def append_event_def stored_event_def event_call_def log_event_pair
      PLAN_APPROVED_def GOAL_AMENDED_def Let_def)

lemma grant_view:
  obtains v where "get_goal (granted_store grant verdict) ''c1'' = Some v" and "go_plan (gw_row v) = [(''pre_authorized'', JObj grant)]"
  by (rule get_goal_row [of "granted_store grant verdict" "''c1''" "grant_goal grant"]) (simp_all add: grant_goal_def)

lemma bounded_grant_facts:
  "truthy (dict_get_or bounded_grant ''enabled'' (JBool False))" "\<not> truthy (dict_get_or bounded_grant ''wildcard'' (JBool False))"
  "py_or (dict_get bounded_grant ''actions'') (JList []) = JList [JStr ''read file'']" "action_set sample_repr [JStr ''read file''] = {''read file''}"
  by (simp_all add: bounded_grant_def dict_get_def dict_get_or_def py_or_def action_set_def)

lemma approved_contract_is_covered:
  "goal_pre_authorizes_contract sample_repr hd (granted_store bounded_grant PLAN_APPROVED) sample_view 9 True"
proof -
  obtain v where v: "get_goal (granted_store bounded_grant PLAN_APPROVED) ''c1'' = Some v" "go_plan (gw_row v) = [(''pre_authorized'', JObj bounded_grant)]"
    by (rule grant_view)
  have claim: "cv_goal_id sample_view = ''c1''" "cv_contract_id sample_view = ''c1''" "\<not> aa_enabled (cd_auto_approve (cv_draft sample_view))"
    by (simp_all add: sample_view_def sample_contract_draft_def default_auto_approve_def)
  have plan: "dict_get [(''pre_authorized'', JObj bounded_grant)] ''pre_authorized'' = JObj bounded_grant" by (simp add: dict_get_def)
  show ?thesis
    by (simp add: goal_pre_authorizes_contract_def claim v plan bounded_grant_facts Let_def has_recent_plan_approval_for_goal_def
        latest_verdict no_amendment) (simp add: stored_event_def event_call_def)
qed


text \<open>
  A wildcard grant covers every earlier grant, and yet refuses the contract that names an action the earlier grant listed.
\<close>

lemma wildcard_refuses_named_actions:
  assumes "aa_enabled (cd_auto_approve (cv_draft contract))" and "a \<in> set (aa_actions (cd_auto_approve (cv_draft contract)))" and "a \<noteq> []"
    and "map_of (st_goals s) (cv_goal_id contract) = Some row" and "dict_get (go_plan row) ''pre_authorized'' = JObj [(''enabled'', JBool True), (''wildcard'', JBool True)]"
  shows "grant_still_covers rp old [(''enabled'', JBool True), (''wildcard'', JBool True)] \<and> \<not> goal_pre_authorizes_contract rp pick s contract now True"
proof -
  obtain v where "get_goal s (cv_goal_id contract) = Some v" "gw_row v = row" using assms(4) by (rule get_goal_row)
  then show ?thesis using assms(1-3,5)
    by (auto simp: goal_pre_authorizes_contract_def grant_still_covers_def grant_scope_def dict_get_def dict_get_or_def py_or_def action_set_def)
qed

theorem goal_amendments_serialised_witness:
  "\<exists>c s' row'. goal_cells.run sample_repr (bound_store Passed) [c] s' \<and> gp_expected c = Some 4 \<and>
     map_of (st_goals s') ''g'' = Some row' \<and> go_revision row' = 5"
proof -
  let ?c = "\<lparr>gp_goal = ''g'', gp_now = 9, gp_plan = None, gp_progress = None, gp_expected = Some 4, gp_actor = ''user''\<rparr>"
  obtain row where row: "map_of (st_goals (bound_store Passed)) ''g'' = Some row" "go_revision row = 4" "go_plan row = bound_plan"
    by (simp add: bound_store_def)
  have "\<exists>g s'. patch_goal sample_repr ?c (bound_store Passed) = Inr (g, s')"
    by (rule patch_goal_succeeds [where row = row and plan = bound_plan]) (simp_all add: row or_else_def bound_plan_facts)
  then obtain s' where "amend_goal sample_repr ?c (bound_store Passed) = Inr s'" by (auto simp: amend_goal_def)
  then have r: "goal_cells.run sample_repr (bound_store Passed) ([] @ [?c]) s'"
    by (rule goal_cells.run_write [OF goal_cells.run_none]) simp
  from goal_amendments_serialised [OF r row(1)] row(2) r show ?thesis
    by (intro exI [of _ ?c] exI [of _ s']) (auto simp: goal_cells.on_target_def)
qed

end
