(* ===== verification/Attempts.thy ===== *)
theory Attempts
  imports Goal_Store
begin

text \<open>
  The attempt table: \<open>longtask/persistence/attempts.py\<close> and the attempt and decision bookkeeping of
  \<open>lhgp/promoter/records.py\<close>. The state column is the text that was written, legal or not: legality is left to the
  callers. Where a query sorts by admission time only, the order of attempts admitted at one instant is the parameter \<open>tie\<close>.
\<close>

section \<open>Queries\<close>

definition state_texts :: "attempt_state list \<Rightarrow> string set" where
  "state_texts S = set (map attempt_state_value S)"

definition attempt_is_terminal :: "attempt \<Rightarrow> bool" where
  "attempt_is_terminal a \<longleftrightarrow> sa_state a \<in> state_texts ATTEMPT_TERMINAL_STATES"

definition RECONCILABLE_STATES :: "string list" where
  "RECONCILABLE_STATES = [''admitted'', ''starting'', ''running'', ''waiting'', ''orphaned'']"

definition get_attempt :: "store \<Rightarrow> string \<Rightarrow> attempt option" where
  "get_attempt s attempt_id = map_of (st_attempts s) attempt_id"

definition list_contract_attempts :: "store \<Rightarrow> string \<Rightarrow> int \<Rightarrow> (string \<times> attempt) list" where
  "list_contract_attempts s contract_id limit = sql_limit (max 1 (min limit 100))
     (rev (sort_key (\<lambda>(i, a). (sa_admitted a, i)) (filter (\<lambda>(i, a). sa_contract a = Some contract_id) (st_attempts s))))"

definition in_flight :: "store \<Rightarrow> string \<Rightarrow> attempt list" where
  "in_flight s executor_id = filter (\<lambda>a. sa_executor a = Some executor_id \<and> sa_state a \<in> state_texts ATTEMPT_NON_TERMINAL_STATES)
     (map snd (st_attempts s))"

text \<open>\<open>GROUP BY executor_id\<close>: an executor without a group is not in the dictionary.\<close>

definition count_running_by_executor :: "store \<Rightarrow> (string \<times> int) list" where
  "count_running_by_executor s = map (\<lambda>e. (e, int (length (in_flight s e))))
     (remdups (concat (map (\<lambda>a. case sa_executor a of
        Some e \<Rightarrow> if sa_state a \<in> state_texts ATTEMPT_NON_TERMINAL_STATES then [e] else [] | None \<Rightarrow> []) (map snd (st_attempts s)))))"

definition list_reconcilable_attempts :: "store \<Rightarrow> (string \<times> attempt) list" where
  "list_reconcilable_attempts s = sort_key (\<lambda>(i, a). (sa_admitted a, i))
     (filter (\<lambda>(i, a). sa_state a \<in> set RECONCILABLE_STATES) (st_attempts s))"

section \<open>Updates\<close>

definition register_attempt_handle ::
  "string \<Rightarrow> string \<Rightarrow> string \<Rightarrow> string \<Rightarrow> dict \<Rightarrow> dict \<Rightarrow> int \<Rightarrow> store \<Rightarrow> store" where
  "register_attempt_handle attempt_id external_run_id session_locator recovery_strategy process_identity capability_snapshot now =
     update_attempt attempt_id (\<lambda>a. a\<lparr>sa_external_run := Some external_run_id, sa_session_locator := Some session_locator,
       sa_recovery := Some recovery_strategy, sa_process_identity := process_identity, sa_capability := capability_snapshot,
       sa_handle_registered := Some now, sa_updated := now\<rparr>)"

text \<open>\<open>COALESCE(a, b)\<close>.\<close>

definition coalesce :: "'a option \<Rightarrow> 'a option \<Rightarrow> 'a option" where
  "coalesce a b = (case a of None \<Rightarrow> b | Some x \<Rightarrow> Some x)"

definition with_state :: "string \<Rightarrow> int \<Rightarrow> string option \<Rightarrow> int option \<Rightarrow> bool \<Rightarrow> attempt \<Rightarrow> attempt" where
  "with_state state now error_class return_code clear_orphaned_at a = a\<lparr>sa_state := state,
     sa_started := (if state = ''running'' then coalesce (sa_started a) (Some now) else sa_started a),
     sa_terminal := (if state \<in> state_texts ATTEMPT_TERMINAL_STATES then Some now else sa_terminal a),
     sa_error_class := coalesce error_class (sa_error_class a),
     sa_return_code := coalesce return_code (sa_return_code a),
     sa_orphaned := (if clear_orphaned_at then None else sa_orphaned a), sa_updated := now\<rparr>"

definition set_attempt_state :: "string \<Rightarrow> string \<Rightarrow> int \<Rightarrow> string option \<Rightarrow> int option \<Rightarrow> bool \<Rightarrow> store \<Rightarrow> store" where
  "set_attempt_state attempt_id state now error_class return_code clear_orphaned_at =
     update_attempt attempt_id (with_state state now error_class return_code clear_orphaned_at)"

definition mark_attempt_orphaned :: "string \<Rightarrow> int \<Rightarrow> store \<Rightarrow> store" where
  "mark_attempt_orphaned attempt_id now = update_attempt attempt_id (\<lambda>a. a\<lparr>sa_state := ''orphaned'',
     sa_orphaned := coalesce (sa_orphaned a) (Some now), sa_updated := now\<rparr>)"

section \<open>Records\<close>

record attempt_record =
  ra_goal :: string
  ra_contract :: "string option"
  ra_attempt :: string
  ra_revision :: int
  ra_role :: string
  ra_executor :: "string option"
  ra_model :: "string option"
  ra_state :: string
  ra_admitted :: int
  ra_started :: "int option"
  ra_terminal :: "int option"
  ra_return_code :: "int option"
  ra_error_class :: "string option"
  ra_payload :: dict
  ra_updated :: int

definition new_attempt :: "attempt_record \<Rightarrow> attempt" where
  "new_attempt c = \<lparr>sa_goal = ra_goal c, sa_contract = ra_contract c, sa_revision = ra_revision c, sa_role = ra_role c,
     sa_executor = ra_executor c, sa_model = ra_model c, sa_state = ra_state c, sa_generation = None, sa_admitted = ra_admitted c,
     sa_started = ra_started c, sa_terminal = ra_terminal c, sa_return_code = ra_return_code c, sa_error_class = ra_error_class c,
     sa_payload = ra_payload c, sa_external_run = None, sa_session_locator = None, sa_recovery = None, sa_process_identity = [],
     sa_capability = [], sa_handle_registered = None, sa_orphaned = None, sa_usage = [], sa_updated = ra_updated c\<rparr>"

text \<open>\<open>ON CONFLICT DO UPDATE\<close>: the named columns only; the inserted generation is \<open>NULL\<close>.\<close>

definition merged_attempt :: "attempt_record \<Rightarrow> attempt \<Rightarrow> attempt" where
  "merged_attempt c a = a\<lparr>sa_state := ra_state c, sa_generation := None, sa_model := coalesce (ra_model c) (sa_model a),
     sa_started := coalesce (ra_started c) (sa_started a), sa_terminal := ra_terminal c, sa_return_code := ra_return_code c,
     sa_error_class := ra_error_class c, sa_payload := ra_payload c, sa_updated := ra_updated c\<rparr>"

definition record_attempt :: "attempt_record \<Rightarrow> store \<Rightarrow> store" where
  "record_attempt c s = s\<lparr>st_attempts := put (ra_attempt c)
     (case get_attempt s (ra_attempt c) of None \<Rightarrow> new_attempt c | Some a \<Rightarrow> merged_attempt c a) (st_attempts s)\<rparr>"

definition record_decision :: "decision_row \<Rightarrow> store \<Rightarrow> store" where
  "record_decision d s = s\<lparr>st_decisions := st_decisions s @ [d]\<rparr>"

definition count_verifier_attempts :: "store \<Rightarrow> string \<Rightarrow> int" where
  "count_verifier_attempts s contract_id = int (length (filter (\<lambda>(i, a). sa_contract a = Some contract_id \<and> sa_role a = ''verifier'' \<and>
     sa_state a \<in> {''succeeded'', ''failed'', ''cancelled'', ''stale'', ''orphaned''}) (st_attempts s)))"

definition estimate_stalled_from_attempts :: "(string \<Rightarrow> int) \<Rightarrow> store \<Rightarrow> string \<Rightarrow> bool" where
  "estimate_stalled_from_attempts tie s contract_id =
     (let goal_id = goal_id_for_contract s contract_id;
          rows = map snd (take 4 (sort_key (\<lambda>(i, a). (- sa_admitted a, tie i)) (filter (\<lambda>(i, a). sa_goal a = goal_id) (st_attempts s)))) in
      case filter (\<lambda>a. sa_role a = ''executor'') rows of
        a # b # _ \<Rightarrow>
          if sa_state a \<notin> {''running'', ''admitted''} \<or> sa_state b \<in> {''succeeded'', ''cancelled''} then False
          else \<not> list_ex (\<lambda>(i, a). sa_goal a = goal_id \<and> sa_role a = ''verifier'') (st_attempts s)
      | _ \<Rightarrow> False)"

definition last_event_at :: "store \<Rightarrow> string \<Rightarrow> event_type \<Rightarrow> int option" where
  "last_event_at s contract_id t = map_option ev_created
     (find (\<lambda>e. ev_contract e = Some contract_id \<and> ev_type e = t) (rev (el_rows (st_log s))))"

definition last_attempt_started_at :: "store \<Rightarrow> string \<Rightarrow> int option" where
  "last_attempt_started_at s contract_id = last_event_at s contract_id ATTEMPT_STARTED"

section \<open>Facts\<close>

lemma attempt_update_row [simp]: "get_attempt (update_attempt i f s) j = (if j = i then map_option f (get_attempt s i) else get_attempt s j)"
proof -
  have "map_of (map (\<lambda>(k, a). (k, if k = i then f a else a)) t) j = (if j = i then map_option f (map_of t i) else map_of t j)" for t
    by (induction t) auto
  then show ?thesis by (simp add: get_attempt_def update_attempt_def)
qed

lemma update_attempt_frame [simp]:
  "st_contracts (update_attempt i f s) = st_contracts s" "st_leases (update_attempt i f s) = st_leases s"
  "st_log (update_attempt i f s) = st_log s" "st_revisions (update_attempt i f s) = st_revisions s" "st_goals (update_attempt i f s) = st_goals s"
  by (simp_all add: update_attempt_def)

text \<open>The documented invariant of the capacity count: terminal attempts hold no slot.\<close>

lemma terminal_attempts_hold_no_slot:
  assumes "\<forall>(i, a) \<in> set (st_attempts s). attempt_is_terminal a"
  shows "count_running_by_executor s = []"
proof -
  have "state_texts ATTEMPT_NON_TERMINAL_STATES \<inter> state_texts ATTEMPT_TERMINAL_STATES = {}"
    by (auto simp: state_texts_def attempt_non_terminal ATTEMPT_TERMINAL_STATES_def)
  with assms have "sa_state a \<notin> state_texts ATTEMPT_NON_TERMINAL_STATES" if "a \<in> set (map snd (st_attempts s))" for a
    using that by (auto simp: attempt_is_terminal_def)
  then show ?thesis by (simp add: count_running_by_executor_def split: option.split)
qed

text \<open>Marking again does not restart the grace, and no state write except a terminal one touches the terminal time.\<close>

lemma orphan_clock_is_stable:
  assumes "get_attempt s i = Some a" and "sa_orphaned a = Some t"
  shows "\<exists>a'. get_attempt (mark_attempt_orphaned i now s) i = Some a' \<and> sa_orphaned a' = Some t"
  using assms by (simp add: mark_attempt_orphaned_def coalesce_def)

lemma terminal_time_is_kept:
  assumes "get_attempt s i = Some a" and "state \<notin> state_texts ATTEMPT_TERMINAL_STATES"
  shows "\<exists>a'. get_attempt (set_attempt_state i state now err rc clr s) i = Some a' \<and> sa_terminal a' = sa_terminal a"
  using assms by (simp add: set_attempt_state_def with_state_def)

text \<open>Recording an attempt again, by contrast, erases its terminal time and its generation.\<close>

lemma record_again_erases:
  assumes "get_attempt s (ra_attempt c) = Some a" and "ra_terminal c = None"
  shows "\<exists>a'. get_attempt (record_attempt c s) (ra_attempt c) = Some a' \<and> sa_terminal a' = None \<and> sa_generation a' = None"
  using assms by (simp add: record_attempt_def merged_attempt_def get_attempt_def)

end
