(* ===== verification/Reconcile.thy ===== *)
theory Reconcile
  imports Attempts Urgency
begin

text \<open>
  \<open>longtask/promoter/reconcile.py\<close> and \<open>lhgp/adapters/handles.py\<close>: what the runtime does after a start with the
  attempts it finds, by four branches: confirmed alive (renew), confirmed terminated (settle), unknown (orphan and hold the
  lease for a grace period), unknown after the grace (fence).

  The outside world is the parameter \<open>recon_env\<close>: the executor adapters, the process table, the digest and the formatting of times.
  An adapter answers \<open>Inl\<close> with the text of the exception it raised. Projections (files) and the messages of \<open>emit\<close> are not modelled,
  nor are the \<open>detail\<close> texts of an outcome.
\<close>

section \<open>Handles\<close>

record run_handle =
  eh_run :: string
  eh_locator :: string
  eh_recovery :: string
  eh_capability :: dict
  eh_identity :: dict

definition RECOVERY_REATTACH :: string where "RECOVERY_REATTACH = ''reattach''"
definition RECOVERY_POLL :: string where "RECOVERY_POLL = ''poll''"
definition RECOVERY_NONRECOVERABLE :: string where "RECOVERY_NONRECOVERABLE = ''nonrecoverable''"

definition handle_to_dict :: "run_handle \<Rightarrow> dict" where
  "handle_to_dict h = [(''external_run_id'', JStr (eh_run h)), (''session_locator'', JStr (eh_locator h)),
     (''recovery_strategy'', JStr (eh_recovery h)), (''capability_snapshot'', JObj (eh_capability h)),
     (''process_identity'', JObj (eh_identity h))]"

text \<open>\<open>dict(data.get(k) or {})\<close>: a value that is no dictionary, and not empty, is an error.\<close>

definition handle_part :: "json \<Rightarrow> py_error + dict" where
  "handle_part v = (case py_or v (JObj []) of JObj d \<Rightarrow> Inr d | _ \<Rightarrow> Inl (TypeError ''cannot convert to a dictionary''))"

definition handle_from_dict :: "(json \<Rightarrow> string) \<Rightarrow> dict \<Rightarrow> py_error + run_handle" where
  "handle_from_dict rp d =
     sbind (handle_part (dict_get d ''capability_snapshot'')) (\<lambda>capability.
     sbind (handle_part (dict_get d ''process_identity'')) (\<lambda>identity_dict.
     Inr \<lparr>eh_run = py_str rp (dict_get_or d ''external_run_id'' (JStr [])), eh_locator = py_str rp (dict_get_or d ''session_locator'' (JStr [])),
       eh_recovery = py_str rp (dict_get_or d ''recovery_strategy'' (JStr RECOVERY_NONRECOVERABLE)),
       eh_capability = capability, eh_identity = identity_dict\<rparr>))"

definition is_recoverable :: "run_handle \<Rightarrow> bool" where
  "is_recoverable h \<longleftrightarrow> eh_recovery h \<in> {RECOVERY_REATTACH, RECOVERY_POLL}"

definition parse_legacy_session_ref :: "string \<Rightarrow> run_handle" where
  "parse_legacy_session_ref ref = (let parts = split_on (CHR '':'') ref in
     if 3 \<le> length parts \<and> parts ! 0 = ''subprocess'' then
       \<lparr>eh_run = parts ! 2, eh_locator = parts ! 1, eh_recovery = RECOVERY_POLL,
        eh_capability = [(''transport'', JStr ''subprocess'')], eh_identity = [(''pid'', JStr (parts ! 2))]\<rparr>
     else if 2 \<le> length parts \<and> parts ! 0 = ''fake'' then
       \<lparr>eh_run = parts ! 1, eh_locator = parts ! 1, eh_recovery = RECOVERY_NONRECOVERABLE,
        eh_capability = [(''transport'', JStr ''fake'')], eh_identity = []\<rparr>
     else \<lparr>eh_run = ref, eh_locator = ref, eh_recovery = RECOVERY_NONRECOVERABLE, eh_capability = [], eh_identity = []\<rparr>)"

definition attempt_handle :: "attempt \<Rightarrow> run_handle option" where
  "attempt_handle a =
     (if text_or (sa_external_run a) [] \<noteq> [] \<and> text_or (sa_session_locator a) [] \<noteq> [] then
        Some \<lparr>eh_run = the (sa_external_run a), eh_locator = the (sa_session_locator a),
          eh_recovery = text_or (sa_recovery a) RECOVERY_NONRECOVERABLE, eh_capability = sa_capability a, eh_identity = sa_process_identity a\<rparr>
      else (case dict_get (sa_payload a) ''session_ref'' of
          JStr legacy \<Rightarrow> if legacy \<noteq> [] then Some (parse_legacy_session_ref legacy) else None
        | _ \<Rightarrow> None))"

section \<open>The world outside\<close>

record adapter =
  ad_reattach :: "run_handle \<Rightarrow> bool"
  ad_observe :: "string \<Rightarrow> string + dict"
  ad_collect :: "string \<Rightarrow> string + dict"

record recon_env =
  rv_fmt :: "int \<Rightarrow> string"
  rv_repr :: "json \<Rightarrow> string"
  rv_digest :: "json \<Rightarrow> string"
  rv_resolve :: "string option \<Rightarrow> adapter option"
  rv_alive :: "int \<Rightarrow> bool option"
  rv_identity :: "int \<Rightarrow> json \<Rightarrow> bool option"
  rv_terminate :: "int \<Rightarrow> bool"

datatype reconcile_branch = Reattached | Collected | OrphanGraced | FencedRedispatched | Skipped

record reconcile_outcome =
  ro_attempt :: string
  ro_contract :: string
  ro_branch :: reconcile_branch
  ro_external :: "string option"

section \<open>Helpers\<close>

definition DEFAULT_RECOVERY_GRACE :: int where "DEFAULT_RECOVERY_GRACE = 5 * MINUTE"
definition FALLBACK_LEASE_TIMEOUT :: int where "FALLBACK_LEASE_TIMEOUT = 10 * MINUTE"

definition resolve_contract_id :: "store \<Rightarrow> attempt \<Rightarrow> string option" where
  "resolve_contract_id s a =
     (if text_or (sa_contract a) [] \<noteq> [] then sa_contract a
      else (case filter (\<lambda>(i, v). cv_goal_id v = sa_goal a) (st_contracts s) of
          [(i, v)] \<Rightarrow> Some i
        | rows \<Rightarrow> (case filter (\<lambda>(i, v). cv_revision v = sa_revision a) rows of [(i, v)] \<Rightarrow> Some i | _ \<Rightarrow> None)))"

definition settle_contract :: "store \<Rightarrow> attempt \<Rightarrow> string" where
  "settle_contract s a = text_or (resolve_contract_id s a) (sa_goal a)"

definition as_int :: "json \<Rightarrow> int option" where
  "as_int v = (case v of JInt i \<Rightarrow> Some i | _ \<Rightarrow> None)"

text \<open>\<open>str.isdigit\<close> on the decimal digits; the superscripts that it also accepts make \<open>int\<close> fail and are left out.\<close>

definition is_digit_text :: "string \<Rightarrow> bool" where
  "is_digit_text t \<longleftrightarrow> t \<noteq> [] \<and> list_all (\<lambda>c. digit_val c \<noteq> None) t"

definition pid_from_identity :: "dict \<Rightarrow> int option" where
  "pid_from_identity d = (case dict_get d ''pid'' of
     JInt i \<Rightarrow> if 0 < i then Some i else None
   | JFloat (Fin q) \<Rightarrow> (let i = (if q < 0 then \<lceil>q\<rceil> else \<lfloor>q\<rfloor>) in if 0 < i then Some i else None)
   | JStr t \<Rightarrow> if is_digit_text (strip t) then parse_int t else None
   | _ \<Rightarrow> None)"

definition grace_lease_call :: "string \<Rightarrow> string \<Rightarrow> int \<Rightarrow> int \<Rightarrow> int \<Rightarrow> string option \<Rightarrow> lease_call" where
  "grace_lease_call contract_id attempt_id generation now timeout role = \<lparr>lc_contract = contract_id, lc_partition = None,
     lc_holder = Some attempt_id, lc_generation = generation, lc_now = now, lc_timeout = timeout, lc_request = None,
     lc_actor = ''daemon'', lc_reason = [], lc_payload = [], lc_schema = 2, lc_role = role, lc_revision = None\<rparr>"

definition renew_timeout :: "store \<Rightarrow> string \<Rightarrow> int" where
  "renew_timeout s contract_id = (case get_contract s contract_id of
     None \<Rightarrow> FALLBACK_LEASE_TIMEOUT | Some v \<Rightarrow> bu_max_attempt_minutes (cd_budget (cv_draft v)) * MINUTE)"

definition recon_renew :: "string \<Rightarrow> string \<Rightarrow> int \<Rightarrow> int \<Rightarrow> store \<Rightarrow> bool \<times> store" where
  "recon_renew contract_id attempt_id generation now s =
     (case renew_lease (grace_lease_call contract_id attempt_id generation now (renew_timeout s contract_id) (Some ''system'')) s of
        Inl e \<Rightarrow> (False, s) | Inr (l, s') \<Rightarrow> (True, s'))"

text \<open>\<open>with contextlib.suppress(LeaseFencedError): release_lease(...)\<close>.\<close>

definition recon_release :: "string \<Rightarrow> string \<Rightarrow> int \<Rightarrow> int \<Rightarrow> store \<Rightarrow> store" where
  "recon_release contract_id attempt_id generation now s =
     (case release_lease (grace_lease_call contract_id attempt_id generation now 0 None) s of Inl e \<Rightarrow> s | Inr s' \<Rightarrow> s')"

definition recon_event :: "string \<Rightarrow> string \<Rightarrow> attempt \<Rightarrow> event_type \<Rightarrow> string \<Rightarrow> dict \<Rightarrow> int \<Rightarrow> new_event" where
  "recon_event contract_id attempt_id a t role payload now = (event_call (Some contract_id) t payload now)
     \<lparr>ne_attempt := Some attempt_id, ne_goal := Some contract_id, ne_revision := Some (sa_revision a), ne_role := Some role\<rparr>"

section \<open>The four branches\<close>

definition reattach_branch :: "recon_env \<Rightarrow> string \<Rightarrow> attempt \<Rightarrow> run_handle \<Rightarrow> lease option \<Rightarrow> bool \<Rightarrow> int \<Rightarrow> store \<Rightarrow> reconcile_outcome \<times> store" where
  "reattach_branch env i a h l holds_lease now s =
     (let cid = settle_contract s a;
          s1 = set_attempt_state i ''running'' now None None False s;
          (renewed, s2) = (if holds_lease then recon_renew cid i (le_generation (the l)) now s1 else (False, s1));
          payload = [(''external_run_id'', JStr (eh_run h)), (''session_locator'', JStr (eh_locator h)),
            (''recovery_strategy'', JStr (eh_recovery h)), (''lease_renewed'', JBool renewed),
            (''reason'', JStr ''same external run confirmed alive after restart'')] in
      (\<lparr>ro_attempt = i, ro_contract = cid, ro_branch = Reattached, ro_external = Some ''running''\<rparr>,
       snd (log_event (recon_event cid i a ''reconcile/reattached'' ''system'' payload now) s2)))"

text \<open>What is known of the end of a run: the state to settle and the payload of its event.\<close>

definition collect_result :: "adapter \<Rightarrow> string \<Rightarrow> string \<Rightarrow> string option \<Rightarrow> dict \<Rightarrow> string \<times> dict" where
  "collect_result ad i observed_state collect_note payload = (case collect_note of
     Some note \<Rightarrow> (observed_state, put ''collect_note'' (JStr note) (put ''exit_code_known'' (JBool False) payload))
   | None \<Rightarrow>
       (case ad_collect ad i of
          Inl exc \<Rightarrow> (''failed'', put ''exit_code_known'' (JBool False) (put ''collect_error'' (JStr exc) payload))
        | Inr collected \<Rightarrow>
            (let p = put ''exit_code_known'' (dict_get_or collected ''exit_code_known'' (JBool True))
                   (put ''returncode'' (dict_get collected ''returncode'') payload) in
             (observed_state, if truthy (dict_get collected ''error_class'') then put ''error_class'' (dict_get collected ''error_class'') p else p))))"

text \<open>An adapter reports the class of an error as a text.\<close>

definition settled_error :: "dict \<Rightarrow> string option" where
  "settled_error payload = (case py_or (dict_get payload ''collect_error'') (dict_get payload ''error_class'') of JStr t \<Rightarrow> Some t | _ \<Rightarrow> None)"

text \<open>The evidence of a verifier carries the identity of the acceptance it was dispatched under.\<close>

definition stamped_payload :: "recon_env \<Rightarrow> attempt \<Rightarrow> string \<Rightarrow> store \<Rightarrow> string \<Rightarrow> dict \<Rightarrow> dict" where
  "stamped_payload env a cid s state payload = (if state = ''succeeded'' \<and> sa_role a = ''verifier''
     then dict_merge payload (attempt_evidence_binding (rv_digest env) s (Some cid) (Some (sa_revision a))) else payload)"

definition collect_branch ::
  "recon_env \<Rightarrow> string \<Rightarrow> attempt \<Rightarrow> adapter \<Rightarrow> run_handle \<Rightarrow> string \<Rightarrow> string option \<Rightarrow> lease option \<Rightarrow> bool \<Rightarrow> int \<Rightarrow> store \<Rightarrow>
     reconcile_outcome \<times> store" where
  "collect_branch env i a ad h observed_state collect_note l holds_lease now s =
     (let cid = settle_contract s a;
          (state, payload) = collect_result ad i observed_state collect_note
            [(''external_run_id'', JStr (eh_run h)), (''session_locator'', JStr (eh_locator h))];
          succeeded = (state = ''succeeded'');
          payload' = stamped_payload env a cid s state payload;
          s1 = snd (log_event (recon_event cid i a (if succeeded then ''attempt/succeeded'' else ''attempt/failed'') (sa_role a) payload' now) s);
          s2 = snd (log_event (recon_event cid i a ''reconcile/collected'' ''system''
            [(''settled_state'', JStr state), (''external_run_id'', JStr (eh_run h)),
             (''reason'', JStr ''external run confirmed terminated; attempt settled'')] now) s1);
          s3 = set_attempt_state i state now (settled_error payload') (as_int (dict_get payload' ''returncode'')) False s2;
          s4 = (if holds_lease \<and> l \<noteq> None then recon_release cid i (le_generation (the l)) now s3 else s3) in
      (\<lparr>ro_attempt = i, ro_contract = cid, ro_branch = Collected, ro_external = Some state\<rparr>, s4))"

definition orphan_branch ::
  "recon_env \<Rightarrow> string \<Rightarrow> attempt \<Rightarrow> lease option \<Rightarrow> bool \<Rightarrow> int \<Rightarrow> string \<Rightarrow> store \<Rightarrow> reconcile_outcome \<times> store" where
  "orphan_branch env i a l holds_lease now detail s =
     (let cid = settle_contract s a;
          first_time = (sa_state a \<noteq> ''orphaned'');
          s1 = mark_attempt_orphaned i now s;
          (renewed, s2) = (if holds_lease \<and> l \<noteq> None then recon_renew cid i (le_generation (the l)) now s1 else (False, s1));
          s3 = (if first_time then
              snd (log_event (recon_event cid i a ''reconcile/orphan-graced'' ''system''
                [(''reason'', JStr detail), (''lease_held_for_grace'', JBool renewed),
                 (''note'', JStr ''no respawn during recovery grace'')] now)
              (snd (log_event (recon_event cid i a ''attempt/orphaned'' (sa_role a)
                [(''reason'', JStr detail), (''orphaned_at'', JStr (rv_fmt env now))] now) s2)))
            else s2) in
      (\<lparr>ro_attempt = i, ro_contract = cid, ro_branch = OrphanGraced, ro_external = None\<rparr>, s3))"

text \<open>Only a run whose process is alive and provably the same is terminated.\<close>

definition terminate_if_identity_confirmed :: "recon_env \<Rightarrow> string \<Rightarrow> attempt \<Rightarrow> int \<Rightarrow> store \<Rightarrow> store" where
  "terminate_if_identity_confirmed env i a now s = (case attempt_handle a of
     None \<Rightarrow> s
   | Some h \<Rightarrow>
       if \<not> is_recoverable h then s
       else
         (let start_time = dict_get (eh_identity h) ''start_time'';
              pid = (case dict_get (eh_identity h) ''pid'' of JInt p \<Rightarrow> Some p | JBool b \<Rightarrow> Some (if b then 1 else 0) | _ \<Rightarrow> None);
              timed = (case start_time of JInt _ \<Rightarrow> True | JFloat _ \<Rightarrow> True | JBool _ \<Rightarrow> True | _ \<Rightarrow> False) in
          case pid of
            None \<Rightarrow> s
          | Some p \<Rightarrow>
              if \<not> timed \<or> rv_alive env p \<noteq> Some True \<or> rv_identity env p start_time \<noteq> Some True \<or> \<not> rv_terminate env p then s
              else snd (log_event ((event_call (Some (text_or (sa_contract a) (sa_goal a))) ''handle/registered''
                  [(''action'', JStr ''terminate_on_fence''), (''pid'', dict_get (eh_identity h) ''pid''),
                   (''reason'', JStr ''orphan grace expired; confirmed-identity run terminated'')] now)
                \<lparr>ne_attempt := Some i, ne_goal := Some (sa_goal a), ne_revision := Some (sa_revision a), ne_role := Some ''system''\<rparr>) s)))"

definition sweep_orphan ::
  "recon_env \<Rightarrow> string \<Rightarrow> attempt \<Rightarrow> lease option \<Rightarrow> bool \<Rightarrow> int \<Rightarrow> int \<Rightarrow> store \<Rightarrow> reconcile_outcome \<times> store" where
  "sweep_orphan env i a l holds_lease now grace s =
     (let cid = settle_contract s a;
          outcome = (\<lambda>b. \<lparr>ro_attempt = i, ro_contract = cid, ro_branch = b, ro_external = None\<rparr>) in
      if \<not> holds_lease \<or> l = None then (outcome Skipped, s)
      else
        (let orphaned_at = (case sa_orphaned a of None \<Rightarrow> now | Some t \<Rightarrow> t);
             generation = le_generation (the l) in
         if now - orphaned_at < grace then (outcome OrphanGraced, snd (recon_renew cid i generation now s))
         else
           (let s1 = terminate_if_identity_confirmed env i a now s;
                s2 = recon_release cid i generation now s1;
                payload = [(''fenced_generation'', JInt generation), (''orphaned_at'', JStr (rv_fmt env orphaned_at)),
                  (''grace'', JFloat (Fin (of_int grace / of_int SECOND))),
                  (''risk'', JStr ''external run state still unknown after grace; old generation fenced, redispatch left to dispatcher'')] in
            (outcome FencedRedispatched, snd (log_event (recon_event cid i a ''reconcile/fenced-redispatched'' ''system'' payload now) s2)))))"

definition lease_held_by :: "lease option \<Rightarrow> string \<Rightarrow> bool" where
  "lease_held_by l attempt_id = (case l of None \<Rightarrow> False | Some x \<Rightarrow> le_holder x = attempt_id)"

definition reconcile_one :: "recon_env \<Rightarrow> string \<Rightarrow> attempt \<Rightarrow> int \<Rightarrow> int \<Rightarrow> store \<Rightarrow> reconcile_outcome \<times> store" where
  "reconcile_one env i a now grace s = (case resolve_contract_id s a of
     None \<Rightarrow> (\<lparr>ro_attempt = i, ro_contract = sa_goal a, ro_branch = Skipped, ro_external = None\<rparr>, s)
   | Some cid \<Rightarrow>
       (let l = get_lease s cid None;
            holds_lease = lease_held_by l i;
            orphan = (\<lambda>detail. orphan_branch env i a l holds_lease now detail s) in
        if sa_state a = ''orphaned'' then sweep_orphan env i a l holds_lease now grace s
        else (case attempt_handle a of
            None \<Rightarrow> orphan ''no persisted external run handle: external state unknown''
          | Some h \<Rightarrow>
              (case rv_resolve env (sa_executor a) of
                 None \<Rightarrow> orphan ''executor unavailable: cannot observe external run''
               | Some ad \<Rightarrow>
                   if \<not> is_recoverable h then orphan ''external run unobservable, state unknown''
                   else if \<not> ad_reattach ad h then
                     (let pid = (if eh_recovery h = RECOVERY_REATTACH then pid_from_identity (eh_identity h) else None) in
                      if (case pid of None \<Rightarrow> False | Some p \<Rightarrow> rv_alive env p = Some False)
                      then collect_branch env i a ad h ''failed''
                        (Some ''pid confirmed gone after reattach refused: settled failed with unknown exit code'') l holds_lease now s
                      else orphan ''adapter cannot confirm the same external run: state unknown'')
                   else (case ad_observe ad i of
                       Inl exc \<Rightarrow> orphan ''observe failed after reattach (treated as unknown)''
                     | Inr observation \<Rightarrow>
                         (let state = py_str (rv_repr env) (dict_get_or observation ''state'' (JStr [])) in
                          if state = ''unknown'' then orphan ''external run identity unverifiable: state unknown''
                          else if state = ''running'' then reattach_branch env i a h l holds_lease now s
                          else collect_branch env i a ad h state None l holds_lease now s))))))"

definition recovery_grace :: "store \<Rightarrow> attempt \<Rightarrow> int \<Rightarrow> int" where
  "recovery_grace s a default_grace = (case get_contract s (text_or (sa_contract a) (sa_goal a)) of
     None \<Rightarrow> default_grace | Some v \<Rightarrow> co_recovery_grace_minutes (cd_continuity (cv_draft v)) * MINUTE)"

text \<open>The attempts are read once, before the first branch; \<open>locally_tracked\<close> ones are passed over.\<close>

fun reconcile_each :: "recon_env \<Rightarrow> (string \<Rightarrow> bool) \<Rightarrow> int \<Rightarrow> int \<Rightarrow> (string \<times> attempt) list \<Rightarrow> store \<Rightarrow> reconcile_outcome list \<times> store" where
  "reconcile_each env tracked now default_grace [] s = ([], s)"
| "reconcile_each env tracked now default_grace ((i, a) # rest) s =
     (if tracked i then reconcile_each env tracked now default_grace rest s
      else
        (let (outcome, s1) = reconcile_one env i a now (recovery_grace s a default_grace) s;
             (outcomes, s2) = reconcile_each env tracked now default_grace rest s1 in
         (outcome # outcomes, s2)))"

definition reconcile_attempts :: "recon_env \<Rightarrow> (string \<Rightarrow> bool) \<Rightarrow> int \<Rightarrow> int \<Rightarrow> store \<Rightarrow> reconcile_outcome list \<times> store" where
  "reconcile_attempts env tracked now default_grace s =
     reconcile_each env tracked now default_grace (list_reconcilable_attempts s) s"

section \<open>Facts\<close>

lemma grace_call_simps [simp]:
  "lc_contract (grace_lease_call cid i g now t r) = cid" "lc_partition (grace_lease_call cid i g now t r) = None"
  "lc_holder (grace_lease_call cid i g now t r) = Some i" "lc_generation (grace_lease_call cid i g now t r) = g"
  "lc_now (grace_lease_call cid i g now t r) = now" "lc_timeout (grace_lease_call cid i g now t r) = t"
  "lc_request (grace_lease_call cid i g now t r) = None" "lease_key (grace_lease_call cid i g now t r) = (cid, [])"
  by (simp_all add: grace_lease_call_def lease_key_def partition_key_def)

text \<open>The lease of a holder is renewed, and nothing but that lease and the log changes.\<close>

lemma recon_renew_held:
  assumes "get_lease s cid None = Some l" and "le_holder l = i"
  obtains s' n where "recon_renew cid i (le_generation l) now s = (True, s')"
    and "s' = s\<lparr>st_leases := put (cid, []) (l\<lparr>le_heartbeat := now, le_timeout := renew_timeout s cid, le_updated := now\<rparr>) (st_leases s),
          st_log := snd (append_event n (st_log s))\<rparr>"
  using assms
  by (simp add: recon_renew_def renew_lease_def replayed_lease_def get_lease_plain finish_lease_def Let_def log_event_pair)

lemma recon_release_held:
  assumes "get_lease s cid None = Some l" and "le_holder l = i"
  obtains n where "recon_release cid i (le_generation l) now s =
    s\<lparr>st_leases := del (cid, []) (st_leases s), st_log := snd (append_event n (st_log s))\<rparr>"
  using assms
  by (simp add: recon_release_def release_lease_def get_lease_plain Let_def log_event_pair)

lemma recon_frame [simp]:
  "st_attempts (snd (recon_renew cid i g now s)) = st_attempts s" "st_contracts (snd (recon_renew cid i g now s)) = st_contracts s"
  "st_attempts (recon_release cid i g now s) = st_attempts s" "st_contracts (recon_release cid i g now s) = st_contracts s"
  "st_attempts (terminate_if_identity_confirmed env i a now s) = st_attempts s"
  "st_leases (terminate_if_identity_confirmed env i a now s) = st_leases s"
  by (auto simp: recon_renew_def renew_lease_def finish_lease_def recon_release_def release_lease_def replayed_lease_def Let_def
      log_event_pair terminate_if_identity_confirmed_def split: option.split sum.split if_splits json.split)

lemma get_attempt_cong: "st_attempts s' = st_attempts s \<Longrightarrow> get_attempt s' i = get_attempt s i"
  by (simp add: get_attempt_def)

text \<open>What a branch does to the attempt table: one update of its own row, by a write that keeps the orphan clock once it runs.\<close>

definition keeps_clock :: "(attempt \<Rightarrow> attempt) \<Rightarrow> bool" where
  "keeps_clock f \<longleftrightarrow> (\<forall>a t. sa_orphaned a = Some t \<longrightarrow> sa_orphaned (f a) = Some t)"

lemma keeps_clock_writes [simp]:
  "keeps_clock (with_state state now err rc False)"
  "keeps_clock (\<lambda>a. a\<lparr>sa_state := st, sa_orphaned := coalesce (sa_orphaned a) (Some now), sa_updated := u\<rparr>)"
  by (simp_all add: keeps_clock_def with_state_def coalesce_def)

definition one_attempt_write :: "string \<Rightarrow> store \<Rightarrow> store \<Rightarrow> bool" where
  "one_attempt_write i s s' \<longleftrightarrow> st_attempts s' = st_attempts s \<or>
     (\<exists>f s0. keeps_clock f \<and> st_attempts s0 = st_attempts s \<and> st_attempts s' = st_attempts (update_attempt i f s0))"

lemma one_attempt_write_refl [simp]: "st_attempts s' = st_attempts s \<Longrightarrow> one_attempt_write i s s'"
  by (simp add: one_attempt_write_def)

lemma one_attempt_write_update:
  "keeps_clock f \<Longrightarrow> st_attempts s0 = st_attempts s \<Longrightarrow> st_attempts s' = st_attempts (update_attempt i f s0) \<Longrightarrow> one_attempt_write i s s'"
  by (auto simp: one_attempt_write_def)

lemma reattach_branch_write: "one_attempt_write i s (snd (reattach_branch env i a h l hl now s))"
  by (rule one_attempt_write_update [of "with_state ''running'' now None None False" s])
    (simp_all add: reattach_branch_def Let_def set_attempt_state_def log_event_pair split_beta)

lemma orphan_branch_write: "one_attempt_write i s (snd (orphan_branch env i a l hl now d s))"
  by (rule one_attempt_write_update [of "\<lambda>a. a\<lparr>sa_state := ''orphaned'', sa_orphaned := coalesce (sa_orphaned a) (Some now), sa_updated := now\<rparr>" s])
    (simp_all add: orphan_branch_def Let_def mark_attempt_orphaned_def log_event_pair split_beta)

lemma update_attempt_log [simp]: "st_attempts (update_attempt i f (s\<lparr>st_log := l\<rparr>)) = st_attempts (update_attempt i f s)"
  by (simp add: update_attempt_def)

lemma collect_branch_attempts:
  "\<exists>t e r. st_attempts (snd (collect_branch env i a ad h st msg l hl now s)) = st_attempts (update_attempt i (with_state t now e r False) s)"
  unfolding collect_branch_def Let_def split_beta snd_conv set_attempt_state_def
  by (cases "hl \<and> l \<noteq> None") (auto simp: log_event_pair)

lemma collect_branch_write: "one_attempt_write i s (snd (collect_branch env i a ad h st msg l hl now s))"
  using collect_branch_attempts [of env i a ad h st msg l hl now s] one_attempt_write_update [OF keeps_clock_writes(1) refl] by blast

lemma sweep_orphan_write: "one_attempt_write i s (snd (sweep_orphan env i a l hl now grace s))"
  by (simp add: sweep_orphan_def Let_def log_event_pair)

text \<open>The branch that one attempt takes, with what was known.\<close>

lemma reconcile_one_cases:
  assumes "reconcile_one env i a now grace s = r"
  obtains (ambiguous) "resolve_contract_id s a = None" and "r = (\<lparr>ro_attempt = i, ro_contract = sa_goal a, ro_branch = Skipped, ro_external = None\<rparr>, s)"
  | (sweep) cid where "resolve_contract_id s a = Some cid" and "sa_state a = ''orphaned''"
      and "r = sweep_orphan env i a (get_lease s cid None) (lease_held_by (get_lease s cid None) i) now grace s"
  | (orphan) cid detail where "resolve_contract_id s a = Some cid" and "sa_state a \<noteq> ''orphaned''"
      and "r = orphan_branch env i a (get_lease s cid None) (lease_held_by (get_lease s cid None) i) now detail s"
  | (gone) cid h ad p msg where "resolve_contract_id s a = Some cid" and "sa_state a \<noteq> ''orphaned''" and "attempt_handle a = Some h"
      and "rv_resolve env (sa_executor a) = Some ad" and "eh_recovery h = RECOVERY_REATTACH" and "\<not> ad_reattach ad h"
      and "pid_from_identity (eh_identity h) = Some p" and "rv_alive env p = Some False"
      and "r = collect_branch env i a ad h ''failed'' (Some msg) (get_lease s cid None) (lease_held_by (get_lease s cid None) i) now s"
  | (alive) cid h ad obs where "resolve_contract_id s a = Some cid" and "sa_state a \<noteq> ''orphaned''" and "attempt_handle a = Some h"
      and "rv_resolve env (sa_executor a) = Some ad" and "is_recoverable h" and "ad_reattach ad h" and "ad_observe ad i = Inr obs"
      and "py_str (rv_repr env) (dict_get_or obs ''state'' (JStr [])) = ''running''"
      and "r = reattach_branch env i a h (get_lease s cid None) (lease_held_by (get_lease s cid None) i) now s"
  | (ended) cid h ad obs state where "resolve_contract_id s a = Some cid" and "sa_state a \<noteq> ''orphaned''" and "attempt_handle a = Some h"
      and "rv_resolve env (sa_executor a) = Some ad" and "is_recoverable h" and "ad_reattach ad h" and "ad_observe ad i = Inr obs"
      and "py_str (rv_repr env) (dict_get_or obs ''state'' (JStr [])) = state" and "state \<notin> {''unknown'', ''running''}"
      and "r = collect_branch env i a ad h state None (get_lease s cid None) (lease_held_by (get_lease s cid None) i) now s"
proof (cases "resolve_contract_id s a")
  case None
  then show ?thesis using assms ambiguous by (simp add: reconcile_one_def)
next
  case cid: (Some cid)
  show ?thesis
  proof (cases "sa_state a = ''orphaned''")
    case True
    then show ?thesis using assms cid sweep by (simp add: reconcile_one_def Let_def)
  next
    case live: False
    show ?thesis
    proof (cases "attempt_handle a")
      case None
      with assms cid live show ?thesis by (intro orphan) (auto simp: reconcile_one_def Let_def)
    next
      case h: (Some h)
      show ?thesis
      proof (cases "rv_resolve env (sa_executor a)")
        case None
        with assms cid live h show ?thesis by (intro orphan) (auto simp: reconcile_one_def Let_def)
      next
        case ad: (Some ad)
        note known = assms [unfolded reconcile_one_def Let_def] cid live h ad
        consider (no) "\<not> is_recoverable h" | (refused) "is_recoverable h" "\<not> ad_reattach ad h" | (ok) "is_recoverable h" "ad_reattach ad h" by blast
        then show ?thesis
        proof cases
          case no
          with known show ?thesis by (intro orphan) auto
        next
          case refused
          show ?thesis
          proof (cases "\<exists>p. eh_recovery h = RECOVERY_REATTACH \<and> pid_from_identity (eh_identity h) = Some p \<and> rv_alive env p = Some False")
            case True
            then obtain p where "eh_recovery h = RECOVERY_REATTACH" "pid_from_identity (eh_identity h) = Some p" "rv_alive env p = Some False"
              by blast
            with known refused show ?thesis by (intro gone [where p = p]) auto
          next
            case False
            with known refused show ?thesis by (intro orphan) (auto split: option.splits if_splits)
          qed
        next
          case ok
          show ?thesis
          proof (cases "ad_observe ad i")
            case (Inl e)
            with known ok show ?thesis by (intro orphan) auto
          next
            case (Inr obs)
            show ?thesis
              using known ok Inr orphan alive ended
              by (cases "py_str (rv_repr env) (dict_get_or obs ''state'' (JStr [])) \<in> {''unknown'', ''running''}") auto
          qed
        qed
      qed
    qed
  qed
qed

lemma reconcile_one_write: "one_attempt_write i s (snd (reconcile_one env i a now grace s))"
  by (rule reconcile_one_cases [of env i a now grace s, OF refl])
    (simp_all add: reattach_branch_write orphan_branch_write collect_branch_write sweep_orphan_write)

lemma one_attempt_write_clock:
  assumes "one_attempt_write i s s'" and "get_attempt s j = Some a" and "sa_orphaned a = Some t"
  shows "\<exists>a'. get_attempt s' j = Some a' \<and> sa_orphaned a' = Some t"
  using assms(1) unfolding one_attempt_write_def
proof (elim disjE exE conjE)
  fix f s0 assume f: "keeps_clock f" "st_attempts s0 = st_attempts s" "st_attempts s' = st_attempts (update_attempt i f s0)"
  then show ?thesis
    using assms(2,3) by (auto simp: get_attempt_cong [OF f(3)] get_attempt_cong [OF f(2)] keeps_clock_def)
qed (use assms(2,3) in \<open>auto simp: get_attempt_def\<close>)

section \<open>Properties\<close>

text \<open>
  The recovery grace runs once. Whatever a reconciliation pass observes, an attempt whose grace has started keeps the
  instant at which it started, so that repeated passes cannot postpone the fencing.
\<close>

theorem grace_clock_never_restarts:
  assumes "get_attempt s j = Some a" and "sa_orphaned a = Some t"
  shows "\<exists>a'. get_attempt (snd (reconcile_attempts env tracked now g s)) j = Some a' \<and> sa_orphaned a' = Some t"
proof -
  have "\<exists>a'. get_attempt (snd (reconcile_each env tracked now g rows s)) j = Some a' \<and> sa_orphaned a' = Some t"
    if "get_attempt s j = Some a" "sa_orphaned a = Some t" for rows s a
    using that
  proof (induction rows arbitrary: s a)
    case (Cons r rows)
    obtain i b where r: "r = (i, b)" by (cases r)
    from one_attempt_write_clock [OF reconcile_one_write Cons.prems] Cons.IH Cons.prems show ?case
      by (simp add: r split_beta Let_def) metis
  qed simp
  then show ?thesis using assms by (simp add: reconcile_attempts_def)
qed

text \<open>
  What a pass does to the lease of an attempt that holds it: confirmed alive or within its grace, the lease is renewed at
  its generation; it is given up only when the run was settled as ended, or when the attempt was already
  orphaned and its grace is over.
\<close>

definition renewed :: "store \<Rightarrow> string \<Rightarrow> int \<Rightarrow> lease \<Rightarrow> lease" where
  "renewed s cid now l = l\<lparr>le_heartbeat := now, le_timeout := renew_timeout s cid, le_updated := now\<rparr>"

lemma recon_renew_result:
  assumes "get_lease s cid None = Some l" and "le_holder l = i"
  shows "get_lease (snd (recon_renew cid i (le_generation l) now s)) cid None = Some (renewed s cid now l)"
proof -
  obtain s' n where "recon_renew cid i (le_generation l) now s = (True, s')"
    "s' = s\<lparr>st_leases := put (cid, []) (l\<lparr>le_heartbeat := now, le_timeout := renew_timeout s cid, le_updated := now\<rparr>) (st_leases s),
       st_log := snd (append_event n (st_log s))\<rparr>"
    using assms by (rule recon_renew_held)
  then show ?thesis by (simp add: get_lease_plain renewed_def)
qed

lemma recon_release_result:
  assumes "get_lease s cid None = Some l" and "le_holder l = i"
  shows "get_lease (recon_release cid i (le_generation l) now s) cid None = None"
proof -
  obtain n where "recon_release cid i (le_generation l) now s =
      s\<lparr>st_leases := del (cid, []) (st_leases s), st_log := snd (append_event n (st_log s))\<rparr>"
    using assms by (rule recon_release_held)
  then show ?thesis by (simp add: get_lease_plain)
qed

lemma renewed_frame [simp]: "renewed (update_attempt i f s) cid now l = renewed s cid now l"
  by (simp add: renewed_def renew_timeout_def get_contract_def)

lemma get_lease_frame [simp]:
  "get_lease (update_attempt i f s) cid p = get_lease s cid p" "get_lease (snd (log_event n s)) cid p = get_lease s cid p"
  "get_lease (terminate_if_identity_confirmed env i a now s) cid p = get_lease s cid p"
  by (simp_all add: get_lease_def)

lemma resolve_contract_nonempty:
  assumes "resolve_contract_id s a = Some cid" and "cid \<noteq> []" shows "settle_contract s a = cid"
  using assms by (simp add: settle_contract_def text_or_def)

text \<open>What the branches do to the lease of their attempt.\<close>

lemma reattach_branch_lease:
  assumes "settle_contract s a = cid" and "get_lease s cid None = Some l" and "le_holder l = i"
  shows "get_lease (snd (reattach_branch env i a h (Some l) True now s)) cid None = Some (renewed s cid now l)"
  using recon_renew_result [of "set_attempt_state i ''running'' now None None False s" cid l i now] assms
  by (simp add: reattach_branch_def Let_def split_beta set_attempt_state_def)

lemma orphan_branch_lease:
  assumes "settle_contract s a = cid" and "get_lease s cid None = Some l" and "le_holder l = i"
  shows "get_lease (snd (orphan_branch env i a (Some l) True now d s)) cid None = Some (renewed s cid now l)"
proof -
  let ?s1 = "mark_attempt_orphaned i now s"
  have "get_lease ?s1 cid None = Some l" "renewed ?s1 cid now l = renewed s cid now l"
    by (simp_all add: mark_attempt_orphaned_def assms(2))
  with recon_renew_result [OF this(1) assms(3), of now] show ?thesis
    unfolding orphan_branch_def Let_def split_beta snd_conv assms(1) by (simp only: get_lease_frame split: if_split) simp
qed

lemma collect_branch_lease:
  assumes "settle_contract s a = cid" and "get_lease s cid None = Some l" and "le_holder l = i"
  shows "get_lease (snd (collect_branch env i a ad h st msg (Some l) True now s)) cid None = None"
proof -
  have "get_lease (recon_release cid i (le_generation l) now (set_attempt_state i st' now e r False (snd (log_event n (snd (log_event m s)))))) cid None = None"
    for st' e r n m using assms(2,3) by (intro recon_release_result) (simp_all only: set_attempt_state_def get_lease_frame)
  then show ?thesis unfolding collect_branch_def Let_def split_beta snd_conv assms(1) by simp
qed

lemma sweep_orphan_lease:
  assumes "settle_contract s a = cid" and "get_lease s cid None = Some l" and "le_holder l = i"
  shows "get_lease (snd (sweep_orphan env i a (Some l) True now grace s)) cid None =
    (if now - (case sa_orphaned a of None \<Rightarrow> now | Some t \<Rightarrow> t) < grace then Some (renewed s cid now l) else None)"
  using assms recon_renew_result [OF assms(2,3), of now]
  by (simp add: sweep_orphan_def Let_def recon_release_result del: log_event_simps)

section \<open>Leases during recovery\<close>

text \<open>
  C18: Reconciliation gives up a lease in three cases only. When an attempt holds the lease of its contract, a pass either renews it
  at the same generation, or gives it up: because the adapter, reattached to the run, reports a state other than running and unknown (whatever the word is: a run
  that reports that it is waiting has not ended, and still loses its lease); because the process of the run is gone; or because the attempt was
  already orphaned and its grace has run out. An observation that fails, or that says unknown, is never a reason.
\<close>

theorem lease_given_up_only_on_evidence:
  assumes "reconcile_one env i a now grace s = (out, s')" and "resolve_contract_id s a = Some cid" and "cid \<noteq> []"
    and "get_lease s cid None = Some l" and "le_holder l = i"
  shows "get_lease s' cid None = (if ro_branch out \<in> {Collected, FencedRedispatched} then None else Some (renewed s cid now l)) \<and>
    (ro_branch out = FencedRedispatched \<longrightarrow>
       sa_state a = ''orphaned'' \<and> grace \<le> now - (case sa_orphaned a of None \<Rightarrow> now | Some t \<Rightarrow> t)) \<and>
    (ro_branch out = Collected \<longrightarrow> sa_state a \<noteq> ''orphaned'' \<and>
       (\<exists>h ad. attempt_handle a = Some h \<and> rv_resolve env (sa_executor a) = Some ad \<and>
          ((\<exists>p. eh_recovery h = RECOVERY_REATTACH \<and> \<not> ad_reattach ad h \<and> pid_from_identity (eh_identity h) = Some p \<and> rv_alive env p = Some False) \<or>
           (\<exists>obs. is_recoverable h \<and> ad_reattach ad h \<and> ad_observe ad i = Inr obs \<and>
              py_str (rv_repr env) (dict_get_or obs ''state'' (JStr [])) \<notin> {''unknown'', ''running''}))))"
proof -
  have settle: "settle_contract s a = cid" using resolve_contract_nonempty [OF assms(2,3)] .
  have held: "lease_held_by (get_lease s cid None) i" by (simp add: lease_held_by_def assms(4,5))
  note lease = reattach_branch_lease [OF settle assms(4,5)] orphan_branch_lease [OF settle assms(4,5)]
    collect_branch_lease [OF settle assms(4,5)] sweep_orphan_lease [OF settle assms(4,5)]
  from assms(1) show ?thesis
  proof (cases rule: reconcile_one_cases)
    case (sweep cid')
    then have "cid' = cid" "(out, s') = sweep_orphan env i a (Some l) True now grace s" using assms(2,4) held by simp_all
    then show ?thesis using lease(4) [of env now grace] sweep(2)
      by (auto simp: sweep_orphan_def Let_def split: if_splits)
  next
    case (orphan cid' detail)
    then have "(out, s') = orphan_branch env i a (Some l) True now detail s" using assms(2,4) held by simp
    then show ?thesis using lease(2) [of env now detail] by (auto simp: orphan_branch_def Let_def split_beta)
  next
    case (gone cid' h ad p msg)
    then have c: "(out, s') = collect_branch env i a ad h ''failed'' (Some msg) (Some l) True now s" using assms(2,4) held by simp
    then have "ro_branch out = Collected" by (simp add: collect_branch_def Let_def split_beta)
    then show ?thesis using c lease(3) gone by (metis (no_types, lifting) insertCI reconcile_branch.distinct(11) snd_conv)
  next
    case (alive cid' h ad obs)
    then have "(out, s') = reattach_branch env i a h (Some l) True now s" using assms(2,4) held by simp
    then show ?thesis using lease(1) [of env h now] by (auto simp: reattach_branch_def Let_def split_beta)
  next
    case (ended cid' h ad obs state)
    then have c: "(out, s') = collect_branch env i a ad h state None (Some l) True now s" using assms(2,4) held by simp
    then have "ro_branch out = Collected" by (simp add: collect_branch_def Let_def split_beta)
    then show ?thesis using c lease(3) ended by (metis (no_types, lifting) insertCI reconcile_branch.distinct(11) snd_conv)
  qed (use assms(2) in simp)
qed

definition sample_adapter :: "string \<Rightarrow> adapter" where
  "sample_adapter state = \<lparr>ad_reattach = (\<lambda>h. True), ad_observe = (\<lambda>i. Inr [(''state'', JStr state)]), ad_collect = (\<lambda>i. Inr [])\<rparr>"

definition sample_env :: "string \<Rightarrow> recon_env" where
  "sample_env state = \<lparr>rv_fmt = (\<lambda>t. []), rv_repr = sample_repr, rv_digest = sample_repr, rv_resolve = (\<lambda>e. Some (sample_adapter state)),
     rv_alive = (\<lambda>p. None), rv_identity = (\<lambda>p t. None), rv_terminate = (\<lambda>p. False)\<rparr>"

definition sample_attempt :: "string \<Rightarrow> int option \<Rightarrow> attempt" where
  "sample_attempt state orphaned = \<lparr>sa_goal = ''g'', sa_contract = Some ''c1'', sa_revision = 1, sa_role = ''executor'', sa_executor = Some ''x'',
     sa_model = None, sa_state = state, sa_generation = None, sa_admitted = 1, sa_started = Some 1, sa_terminal = None,
     sa_return_code = None, sa_error_class = None, sa_payload = [], sa_external_run = Some ''r'', sa_session_locator = Some ''l'',
     sa_recovery = Some ''reattach'', sa_process_identity = [], sa_capability = [], sa_handle_registered = None,
     sa_orphaned = orphaned, sa_usage = [], sa_updated = 1\<rparr>"

lemma sample_attempt_simps [simp]:
  "sa_state (sample_attempt st t) = st" "sa_orphaned (sample_attempt st t) = t" "sa_executor (sample_attempt st t) = Some ''x''"
  "resolve_contract_id s (sample_attempt st t) = Some ''c1''" "settle_contract s (sample_attempt st t) = ''c1''"
  "attempt_handle (sample_attempt st t) = Some \<lparr>eh_run = ''r'', eh_locator = ''l'', eh_recovery = ''reattach'', eh_capability = [], eh_identity = []\<rparr>"
  by (simp_all add: sample_attempt_def resolve_contract_id_def settle_contract_def text_or_def attempt_handle_def)

lemma sample_env_simps [simp]: "rv_resolve (sample_env st) e = Some (sample_adapter st)" "ad_reattach (sample_adapter st) h"
  "ad_observe (sample_adapter st) i = Inr [(''state'', JStr st)]"
  by (simp_all add: sample_env_def sample_adapter_def)

lemma leased_holder: "le_holder (lease_row (sample_call ''a'' 1 ''r1'') ''a'' 2) = ''a''" by simp

lemma sample_orphan_branch:
  assumes "reconcile_one (sample_env st) ''a'' (sample_attempt ''orphaned'' (Some 5)) now grace leased_store = (out, s')"
  shows "ro_branch out = (if now - 5 < grace then OrphanGraced else FencedRedispatched)"
  using assms by (auto simp: reconcile_one_def Let_def leased_lease lease_held_by_def sweep_orphan_def split: if_splits)

theorem lease_given_up_only_on_evidence_witness:
  "(\<exists>out s'. reconcile_one (sample_env ''running'') ''a'' (sample_attempt ''orphaned'' (Some 5)) 10 20 leased_store = (out, s') \<and>
     get_lease s' ''c1'' None \<noteq> None) \<and>
   (\<exists>out s'. reconcile_one (sample_env ''running'') ''a'' (sample_attempt ''orphaned'' (Some 5)) 30 20 leased_store = (out, s') \<and>
     get_lease s' ''c1'' None = None)"
proof -
  have "\<exists>out s'. reconcile_one (sample_env ''running'') ''a'' (sample_attempt ''orphaned'' (Some 5)) now 20 leased_store = (out, s') \<and>
     (get_lease s' ''c1'' None = None \<longleftrightarrow> 25 \<le> now)" for now
  proof (cases "reconcile_one (sample_env ''running'') ''a'' (sample_attempt ''orphaned'' (Some 5)) now 20 leased_store")
    case (Pair out s')
    from lease_given_up_only_on_evidence [OF this _ _ leased_lease leased_holder] sample_orphan_branch [OF this] Pair
    show ?thesis by (auto split: if_splits)
  qed
  from this [of 10] this [of 30] show ?thesis by auto
qed

text \<open>
  No second run is started while the grace lasts. After a pass that leaves the attempt in its grace, its lease is alive for a full
  lease period from the pass, at the same generation, and the escalation ladder with a live lease spends no dispatch.
\<close>

theorem no_respawn_within_grace:
  assumes "reconcile_one env i a now grace s = (out, s')" and "ro_branch out = OrphanGraced" and "resolve_contract_id s a = Some cid" and "cid \<noteq> []"
    and "get_lease s cid None = Some l" and "le_holder l = i" and "t \<le> now + renew_timeout s cid"
  shows "\<exists>l'. get_lease s' cid None = Some l' \<and> le_holder l' = i \<and> le_generation l' = le_generation l \<and> lease_is_alive l' t \<and>
    (li_lease_alive inp = lease_is_alive l' t \<longrightarrow> \<not> ed_consumes_dispatch (decide inp))"
proof -
  have settle: "settle_contract s a = cid" using resolve_contract_nonempty [OF assms(3,4)] .
  have held: "lease_held_by (get_lease s cid None) i" by (simp add: lease_held_by_def assms(5,6))
  from assms(1) have "get_lease s' cid None = Some (renewed s cid now l)"
  proof (cases rule: reconcile_one_cases)
    case (sweep cid')
    then have "(out, s') = sweep_orphan env i a (Some l) True now grace s" using assms(3,5) held by simp
    then show ?thesis using sweep_orphan_lease [OF settle assms(5,6), of env now grace] assms(2)
      by (auto simp: sweep_orphan_def Let_def split: if_splits)
  next
    case (orphan cid' detail)
    then have "(out, s') = orphan_branch env i a (Some l) True now detail s" using assms(3,5) held by simp
    then show ?thesis using orphan_branch_lease [OF settle assms(5,6), of env now detail] by (metis snd_conv)
  qed (use assms(2) in \<open>simp_all add: reattach_branch_def collect_branch_def Let_def split_beta\<close>)
  moreover have "\<not> ed_consumes_dispatch (decide inp)" if "li_lease_alive inp"
    using that by (simp add: decide_def free_decision_def Let_def split: option.split)
  ultimately show ?thesis using assms(6,7) by (simp add: renewed_def lease_is_alive_def)
qed

theorem no_respawn_within_grace_witness:
  "\<exists>out s' l'. reconcile_one (sample_env ''running'') ''a'' (sample_attempt ''orphaned'' (Some 5)) 10 20 leased_store = (out, s') \<and>
     get_lease s' ''c1'' None = Some l' \<and> le_generation l' = 2 \<and> lease_is_alive l' 600000000"
proof (cases "reconcile_one (sample_env ''running'') ''a'' (sample_attempt ''orphaned'' (Some 5)) 10 20 leased_store")
  case (Pair out s')
  have "ro_branch out = OrphanGraced" using sample_orphan_branch [OF Pair] by simp
  moreover have "600000000 \<le> 10 + renew_timeout leased_store ''c1''"
    by (simp add: renew_timeout_def get_contract_def leased_store_def empty_store_def FALLBACK_LEASE_TIMEOUT_def MINUTE_def SECOND_def)
  ultimately show ?thesis
    using no_respawn_within_grace [OF Pair _ _ _ leased_lease leased_holder, of 600000000] Pair by auto
qed

text \<open>
  C29: When the grace is over the old generation is fenced. The first pass at or after the end of the grace releases the lease of an
  orphaned attempt; from then on a write-back of any attempt at any generation is refused until somebody acquires the lease.
\<close>

theorem expired_grace_fences:
  assumes "sa_state a = ''orphaned''" and "sa_orphaned a = Some t0" and "t0 + grace \<le> now"
    and "resolve_contract_id s a = Some cid" and "cid \<noteq> []" and "get_lease s cid None = Some l" and "le_holder l = i"
  shows "\<exists>out s'. reconcile_one env i a now grace s = (out, s') \<and> ro_branch out = FencedRedispatched \<and>
    (wb_contract c = cid \<and> wb_partition c = None \<and> request_events s' (wb_request c) = [] \<longrightarrow>
       (\<exists>m. write_back tz None c s' = Inl (LeaseFencedError m)))"
proof -
  have settle: "settle_contract s a = cid" using resolve_contract_nonempty [OF assms(4,5)] .
  obtain out s' where r: "reconcile_one env i a now grace s = (out, s')" by (cases "reconcile_one env i a now grace s")
  then have sw: "(out, s') = sweep_orphan env i a (Some l) True now grace s"
    using assms(1,4,6,7) by (simp add: reconcile_one_def Let_def lease_held_by_def)
  then have "ro_branch out = FencedRedispatched" using assms(2,3) by (simp add: sweep_orphan_def Let_def)
  moreover have "get_lease s' cid None = None"
    using sweep_orphan_lease [OF settle assms(6,7), of env now grace] sw assms(2,3) by (metis snd_conv option.case(2) add_le_imp_le_diff add.commute not_less)
  ultimately show ?thesis
    using r by (auto simp: write_back_def replayed_events_fresh write_back_fence_def)
qed

theorem expired_grace_fences_witness:
  "\<exists>out s' m. reconcile_one (sample_env ''running'') ''a'' (sample_attempt ''orphaned'' (Some 5)) 25 20 leased_store = (out, s') \<and>
     write_back sample_tz None (sample_write_back ''a'' 2 ''w'') s' = Inl (LeaseFencedError m)"
proof -
  obtain out s' where r: "reconcile_one (sample_env ''running'') ''a'' (sample_attempt ''orphaned'' (Some 5)) 25 20 leased_store = (out, s')"
    by (cases "reconcile_one (sample_env ''running'') ''a'' (sample_attempt ''orphaned'' (Some 5)) 25 20 leased_store")
  have "request_events s' (Some ''w'') = []"
    using r
    by (auto simp: reconcile_one_def Let_def leased_lease lease_held_by_def sweep_orphan_def terminate_if_identity_confirmed_def dict_get_def
        recon_release_def release_lease_def log_event_pair leased_log empty_log_def append_event_def stored_event_def lease_event_def
        event_call_def recon_event_def request_events_def get_events_by_request_id_def)
  then show ?thesis
    using expired_grace_fences [of "sample_attempt ''orphaned'' (Some 5)" 5 20 25 leased_store "''c1''", OF _ _ _ _ _ leased_lease leased_holder,
        of "sample_env ''running''" "sample_write_back ''a'' 2 ''w''" sample_tz] r by auto
qed

text \<open>
  Only an observed \<open>running\<close> counts as alive: a run that reports any other state, a waiting one included, is settled,
  which drops its lease although the state that is stored is not a terminal one.
\<close>

lemma waiting_run_loses_its_lease:
  assumes "reconcile_one (sample_env ''waiting'') ''a'' (sample_attempt ''running'' None) now grace leased_store = (out, s')"
  shows "ro_branch out = Collected" and "ro_external out = Some ''waiting''" and "get_lease s' ''c1'' None = None"
proof -
  have c: "(out, s') = collect_branch (sample_env ''waiting'') ''a'' (sample_attempt ''running'' None) (sample_adapter ''waiting'')
      \<lparr>eh_run = ''r'', eh_locator = ''l'', eh_recovery = ''reattach'', eh_capability = [], eh_identity = []\<rparr> ''waiting'' None
      (Some (lease_row (sample_call ''a'' 1 ''r1'') ''a'' 2)) True now leased_store"
    using assms
    by (simp add: reconcile_one_def Let_def leased_lease lease_held_by_def is_recoverable_def RECOVERY_REATTACH_def dict_get_or_def)
  then show "ro_branch out = Collected" "ro_external out = Some ''waiting''"
    by (simp_all add: collect_branch_def Let_def split_beta collect_result_def sample_adapter_def)
  show "get_lease s' ''c1'' None = None"
    using c collect_branch_lease [OF _ leased_lease leased_holder] by (metis sample_attempt_simps(5) snd_conv)
qed

text \<open>Reconciliation writes its events under the contract id: the timeline of a goal with another id does not see them.\<close>

lemma reconcile_events_miss_the_goal:
  assumes "goal_id \<noteq> settle_contract s a"
  shows "filter (\<lambda>e. ev_goal e = Some goal_id) (el_rows (st_log (snd (reattach_branch env i a h None False now s)))) =
    filter (\<lambda>e. ev_goal e = Some goal_id) (el_rows (st_log s))"
  using assms
  by (simp add: reattach_branch_def Let_def log_event_pair append_event_def stored_event_def recon_event_def event_call_def
      set_attempt_state_def)

theorem grace_clock_never_restarts_witness:
  "\<exists>a'. get_attempt (snd (reconcile_attempts (sample_env ''running'') (\<lambda>i. False) 30 20
     (leased_store\<lparr>st_attempts := [(''a'', sample_attempt ''orphaned'' (Some 5))]\<rparr>))) ''a'' = Some a' \<and> sa_orphaned a' = Some 5"
  by (rule grace_clock_never_restarts [of _ _ "sample_attempt ''orphaned'' (Some 5)"]) (simp_all add: get_attempt_def)

end
