(* ===== verification/Registry.thy ===== *)
theory Registry
  imports Attempts
begin

text \<open>
  The pool of executors: \<open>longtask/adapters/registry.py\<close>, \<open>lhgp/adapters/manifest.py\<close> and the admission rules of
  \<open>lhgp/admission/eligibility.py\<close>, \<open>offer.py\<close> and \<open>refuse.py\<close>. The registry is its table of entries by id, in the order of
  registration. Reading and writing its file is outside; \<open>rp\<close> is \<open>str\<close> of a float, list or dictionary.
\<close>

section \<open>Entries\<close>

datatype cost_hint = LowCost | MediumCost | HighCost

fun cost_priority :: "cost_hint \<Rightarrow> int" where
  "cost_priority LowCost = 1"
| "cost_priority MediumCost = 2"
| "cost_priority HighCost = 3"

fun cost_hint_value :: "cost_hint \<Rightarrow> string" where
  "cost_hint_value LowCost = ''low''"
| "cost_hint_value MediumCost = ''medium''"
| "cost_hint_value HighCost = ''high''"

fun enforcement_value :: "enforcement \<Rightarrow> string" where
  "enforcement_value EnfFull = ''full''"
| "enforcement_value EnfPartial = ''partial''"
| "enforcement_value EnfNone = ''none''"
| "enforcement_value EnfUnsupported = ''unsupported''"

record launch_spec =
  ls_argv :: "string list"
  ls_cwd :: "string option"
  ls_env_allowlist :: "string list"

record sandbox_capability =
  sb_file_effects :: string
  sb_network :: string
  sb_process :: string
  sb_enforcement :: enforcement

record capabilities =
  cp_spawn :: bool
  cp_observe :: bool
  cp_cancel :: bool
  cp_notify :: bool
  cp_followup :: bool
  cp_steer :: bool
  cp_interrupt :: bool
  cp_context :: string
  cp_sandbox :: sandbox_capability
  cp_acceptance_evidence :: bool

record registry_entry =
  rg_id :: string
  rg_kind :: string
  rg_launch :: launch_spec
  rg_capabilities :: capabilities
  rg_limits :: "(string \<times> int) list"
  rg_cost_hint :: cost_hint
  rg_enabled :: bool
  rg_models :: "string list"
  rg_declared_model :: "string option"

record executor_manifest =
  em_executor_id :: string
  em_adapter_version :: string
  em_transport :: string
  em_capabilities :: capabilities
  em_limits :: "(string \<times> int) list"
  em_protocol_version :: int

definition effective_model :: "registry_entry \<Rightarrow> string" where
  "effective_model e = (if text_or (rg_declared_model e) [] \<noteq> [] then the (rg_declared_model e)
     else (case find (\<lambda>m. m \<noteq> ''*'') (rg_models e) of None \<Rightarrow> ''*'' | Some m \<Rightarrow> m))"

definition to_manifest :: "registry_entry \<Rightarrow> string \<Rightarrow> executor_manifest" where
  "to_manifest e adapter_version = \<lparr>em_executor_id = rg_id e, em_adapter_version = adapter_version, em_transport = rg_kind e,
     em_capabilities = rg_capabilities e, em_limits = rg_limits e, em_protocol_version = 1\<rparr>"

section \<open>Parsing the registry\<close>

text \<open>\<open>data.get\<close> on a value that is no dictionary.\<close>

definition as_dict :: "json \<Rightarrow> py_error + dict" where
  "as_dict v = (case v of JObj d \<Rightarrow> Inr d | _ \<Rightarrow> Inl (AttributeError ''get''))"

definition str_items :: "(json \<Rightarrow> string) \<Rightarrow> json \<Rightarrow> py_error + string list" where
  "str_items rp v = sbind (py_iter v) (\<lambda>xs. Inr (map (py_str rp) xs))"

definition launch_spec_from_dict :: "(json \<Rightarrow> string) \<Rightarrow> json \<Rightarrow> py_error + launch_spec" where
  "launch_spec_from_dict rp data =
     (if \<not> truthy data then Inr \<lparr>ls_argv = [], ls_cwd = None, ls_env_allowlist = []\<rparr>
      else
        sbind (as_dict data) (\<lambda>d.
        sbind (str_items rp (dict_get_or d ''argv'' (JList []))) (\<lambda>argv.
        sbind (str_items rp (dict_get_or d ''env_allowlist'' (JList []))) (\<lambda>env.
        Inr \<lparr>ls_argv = argv, ls_cwd = (let c = dict_get d ''cwd'' in if c = JNull then None else Some (py_str rp c)),
             ls_env_allowlist = env\<rparr>))))"

text \<open>A value that cannot be hashed makes the membership test fail.\<close>

definition enforcement_of :: "json \<Rightarrow> py_error + enforcement" where
  "enforcement_of v = (case v of
     JList xs \<Rightarrow> Inl (TypeError ''unhashable type'')
   | JObj d \<Rightarrow> Inl (TypeError ''unhashable type'')
   | JStr t \<Rightarrow> Inr (case find (\<lambda>e. enforcement_value e = t) [EnfFull, EnfPartial, EnfNone, EnfUnsupported] of
        None \<Rightarrow> EnfNone | Some e \<Rightarrow> e)
   | _ \<Rightarrow> Inr EnfNone)"

definition sandbox_capability_from_dict :: "(json \<Rightarrow> string) \<Rightarrow> json \<Rightarrow> py_error + sandbox_capability" where
  "sandbox_capability_from_dict rp data =
     sbind (as_dict data) (\<lambda>d.
     sbind (enforcement_of (dict_get_or d ''enforcement'' (JStr ''none''))) (\<lambda>enf.
     Inr \<lparr>sb_file_effects = py_str rp (dict_get_or d ''file_effects'' (JStr ''unsupported'')),
          sb_network = py_str rp (dict_get_or d ''network'' (JStr ''unsupported'')),
          sb_process = py_str rp (dict_get_or d ''process'' (JStr ''unsupported'')), sb_enforcement = enf\<rparr>))"

definition registry_bool :: "dict \<Rightarrow> string \<Rightarrow> bool \<Rightarrow> py_error + bool" where
  "registry_bool d key v = strict_bool (dict_get_or d key (JBool v)) key"

definition capabilities_from_dict :: "(json \<Rightarrow> string) \<Rightarrow> json \<Rightarrow> py_error + capabilities" where
  "capabilities_from_dict rp data =
     sbind (as_dict data) (\<lambda>d.
     sbind (registry_bool d ''spawn'' True) (\<lambda>spawn.
     sbind (registry_bool d ''observe'' True) (\<lambda>observe.
     sbind (registry_bool d ''cancel'' True) (\<lambda>cancel.
     sbind (registry_bool d ''notify'' False) (\<lambda>notify.
     sbind (registry_bool d ''followup'' False) (\<lambda>followup.
     sbind (registry_bool d ''steer'' False) (\<lambda>steer.
     sbind (registry_bool d ''interrupt'' False) (\<lambda>interrupt.
     sbind (sandbox_capability_from_dict rp (dict_get_or d ''sandbox'' (JObj []))) (\<lambda>sandbox.
     sbind (registry_bool d ''acceptance_evidence'' False) (\<lambda>evidence.
     Inr \<lparr>cp_spawn = spawn, cp_observe = observe, cp_cancel = cancel, cp_notify = notify, cp_followup = followup, cp_steer = steer,
          cp_interrupt = interrupt, cp_context = py_str rp (dict_get_or d ''context'' (JStr ''optional'')), cp_sandbox = sandbox,
          cp_acceptance_evidence = evidence\<rparr>))))))))))"

fun declared_model_from_argv :: "string list \<Rightarrow> string option" where
  "declared_model_from_argv [] = None"
| "declared_model_from_argv (arg # rest) =
     (if arg = ''--model'' then
        (case rest of
           [] \<Rightarrow> declared_model_from_argv rest
         | v # _ \<Rightarrow> if strip v \<noteq> [] then Some (strip v) else declared_model_from_argv rest)
      else if starts_with arg ''--model='' \<and> strip (drop 8 arg) \<noteq> [] then Some (strip (drop 8 arg))
      else declared_model_from_argv rest)"

definition limits_from_dict :: "json \<Rightarrow> py_error + (string \<times> int) list" where
  "limits_from_dict data = (case data of
     JObj d \<Rightarrow> smap (\<lambda>(k, v). sbind (py_int v) (\<lambda>i. Inr (k, i))) d
   | _ \<Rightarrow> Inl (AttributeError ''items''))"

definition cost_hint_of :: "string \<Rightarrow> cost_hint" where
  "cost_hint_of raw = (case find (\<lambda>c. cost_hint_value c = raw) [LowCost, MediumCost, HighCost] of None \<Rightarrow> MediumCost | Some c \<Rightarrow> c)"

definition models_of :: "string list \<Rightarrow> string list" where
  "models_of raw = (let ms = filter (\<lambda>m. m \<noteq> []) (map strip raw) in if ms = [] then [''*''] else ms)"

text \<open>The declared model must be one of the models, and named models need a declared one.\<close>

definition model_error :: "string list \<Rightarrow> string option \<Rightarrow> py_error option" where
  "model_error models declared = (case declared of
     Some m \<Rightarrow> if models \<noteq> [''*''] \<and> m \<notin> set models then Some (ValueError ''declared model is not in models'') else None
   | None \<Rightarrow> if models \<noteq> [''*''] then Some (ValueError ''models require an explicit --model in launch.argv'') else None)"

definition registry_entry_from_dict :: "(json \<Rightarrow> string) \<Rightarrow> dict \<Rightarrow> py_error + registry_entry" where
  "registry_entry_from_dict rp d =
     (let raw_id = strip (py_str rp (dict_get_or d ''id'' (JStr []))) in
      if raw_id = [] then Inl (ValueError ''registry entry requires non-empty id'')
      else
        sbind (launch_spec_from_dict rp (dict_get d ''launch'')) (\<lambda>launch.
        sbind (capabilities_from_dict rp (dict_get_or d ''capabilities'' (JObj []))) (\<lambda>caps.
        sbind (limits_from_dict (dict_get_or d ''limits'' (JObj []))) (\<lambda>limits.
        sbind (registry_bool d ''enabled'' False) (\<lambda>enabled.
        sbind (str_items rp (dict_get_or d ''models'' (JList [JStr ''*'']))) (\<lambda>raw_models.
        let models = models_of raw_models; declared = declared_model_from_argv (ls_argv launch) in
        (case model_error models declared of
           Some e \<Rightarrow> Inl e
         | None \<Rightarrow> Inr \<lparr>rg_id = raw_id, rg_kind = py_str rp (dict_get_or d ''kind'' (JStr ''subprocess'')), rg_launch = launch,
             rg_capabilities = caps, rg_limits = limits,
             rg_cost_hint = cost_hint_of (lower (py_str rp (dict_get_or d ''cost_hint'' (JStr ''medium'')))),
             rg_enabled = enabled, rg_models = models, rg_declared_model = declared\<rparr>)))))))"

section \<open>Serialising\<close>

definition launch_spec_to_dict :: "launch_spec \<Rightarrow> json" where
  "launch_spec_to_dict l = JObj [(''argv'', str_list (ls_argv l)), (''cwd'', jopt JStr (ls_cwd l)),
     (''env_allowlist'', str_list (ls_env_allowlist l))]"

definition capabilities_to_dict :: "capabilities \<Rightarrow> json" where
  "capabilities_to_dict c = JObj [(''spawn'', JBool (cp_spawn c)), (''observe'', JBool (cp_observe c)), (''cancel'', JBool (cp_cancel c)),
     (''notify'', JBool (cp_notify c)), (''followup'', JBool (cp_followup c)), (''steer'', JBool (cp_steer c)),
     (''interrupt'', JBool (cp_interrupt c)), (''context'', JStr (cp_context c)),
     (''sandbox'', JObj [(''file_effects'', JStr (sb_file_effects (cp_sandbox c))), (''network'', JStr (sb_network (cp_sandbox c))),
        (''process'', JStr (sb_process (cp_sandbox c))), (''enforcement'', JStr (enforcement_value (sb_enforcement (cp_sandbox c))))]),
     (''acceptance_evidence'', JBool (cp_acceptance_evidence c))]"

definition registry_entry_to_dict :: "registry_entry \<Rightarrow> dict" where
  "registry_entry_to_dict e = [(''id'', JStr (rg_id e)), (''kind'', JStr (rg_kind e)), (''launch'', launch_spec_to_dict (rg_launch e)),
     (''capabilities'', capabilities_to_dict (rg_capabilities e)), (''limits'', JObj (map (\<lambda>(k, v). (k, JInt v)) (rg_limits e))),
     (''cost_hint'', JStr (cost_hint_value (rg_cost_hint e))), (''enabled'', JBool (rg_enabled e)), (''models'', str_list (rg_models e)),
     (''declared_model'', jopt JStr (rg_declared_model e))]"

section \<open>What a contract asks for\<close>

text \<open>A contract comes as a draft or, from the wire, as a dictionary.\<close>

datatype contract_source = DraftSource contract_draft | DictSource dict

fun source_hard_constraints :: "contract_source \<Rightarrow> json" where
  "source_hard_constraints (DraftSource c) = JObj (cd_hard_constraints c)"
| "source_hard_constraints (DictSource d) = dict_get_or d ''hard_constraints'' (JObj [])"

fun source_execution :: "contract_source \<Rightarrow> json" where
  "source_execution (DraftSource c) = JObj (cd_execution c)"
| "source_execution (DictSource d) = dict_get_or d ''execution'' (JObj [])"

fun source_context :: "contract_source \<Rightarrow> json" where
  "source_context (DraftSource c) = JObj (cd_context c)"
| "source_context (DictSource d) = dict_get_or d ''context'' (JObj [])"

definition source_authority :: "contract_source \<Rightarrow> json" where
  "source_authority src = (case src of
     DraftSource c \<Rightarrow> authority_to_dict (cd_authority c)
   | DictSource d \<Rightarrow>
       (case dict_get d ''authority'' of
          JObj (kv # rest) \<Rightarrow> JObj (kv # rest)
        | _ \<Rightarrow> (case dict_get d ''execution'' of JObj e \<Rightarrow> dict_get e ''authority'' | _ \<Rightarrow> JNull)))"

section \<open>Capabilities\<close>

datatype capability_reason =
    Lacks string | NoContext | UnknownCapability json | ContextRequired | FilesUnsupported json | FilesTooWeak string json
  | NetworkOpen | ProcessOpen json

definition missing_capability :: "capabilities \<Rightarrow> json \<Rightarrow> capability_reason list" where
  "missing_capability caps req =
     (let need = (\<lambda>flag name. if flag then [] else [Lacks name]) in
      if req = JStr ''spawn'' then need (cp_spawn caps) ''spawn''
      else if req = JStr ''observe'' then need (cp_observe caps) ''observe''
      else if req = JStr ''cancel'' then need (cp_cancel caps) ''cancel''
      else if req = JStr ''notify'' then need (cp_notify caps) ''notify''
      else if req = JStr ''followup'' then need (cp_followup caps) ''followup''
      else if req = JStr ''steer'' then need (cp_steer caps) ''steer''
      else if req = JStr ''interrupt'' then need (cp_interrupt caps) ''interrupt''
      else if req = JStr ''acceptance'' \<or> req = JStr ''acceptance_evidence'' then need (cp_acceptance_evidence caps) ''acceptance evidence''
      else if req = JStr ''context'' then (if cp_context caps \<in> {''required'', ''optional''} then [] else [NoContext])
      else [UnknownCapability req])"

text \<open>\<open>x.get("mode") if isinstance(x, dict) else str(x)\<close>.\<close>

definition mode_of :: "(json \<Rightarrow> string) \<Rightarrow> dict \<Rightarrow> string \<Rightarrow> json" where
  "mode_of rp constraints key = (case dict_get_or constraints key (JObj []) of
     JObj d \<Rightarrow> dict_get d ''mode'' | v \<Rightarrow> JStr (py_str rp v))"

definition sandbox_gaps :: "(json \<Rightarrow> string) \<Rightarrow> sandbox_capability \<Rightarrow> dict \<Rightarrow> capability_reason list" where
  "sandbox_gaps rp sb constraints =
     (let files = mode_of rp constraints ''file_effects''; net = mode_of rp constraints ''network'';
          proc = mode_of rp constraints ''process'' in
      (if files \<in> {JStr ''workspace-write'', JStr ''read-only''} then
         (if sb_file_effects sb = ''unsupported'' then [FilesUnsupported files]
          else if files = JStr ''workspace-write'' \<and> sb_file_effects sb \<noteq> ''workspace-write'' then [FilesTooWeak (sb_file_effects sb) files]
          else [])
       else []) @
      (if net = JStr ''deny'' \<and> sb_network sb \<noteq> ''deny'' then [NetworkOpen] else []) @
      (if proc \<in> {JStr ''restricted'', JStr ''deny''} \<and> sb_process sb \<notin> {''restricted'', ''deny''} then [ProcessOpen proc] else []))"

definition check_capability_match :: "(json \<Rightarrow> string) \<Rightarrow> registry_entry \<Rightarrow> contract_source \<Rightarrow> py_error + capability_reason list" where
  "check_capability_match rp e src =
     (let caps = rg_capabilities e in
      sbind (case source_execution src of
          JObj d \<Rightarrow> py_iter (dict_get_or d ''required_capabilities'' (JList [])) | _ \<Rightarrow> Inr []) (\<lambda>reqs.
      Inr (concat (map (missing_capability caps) reqs) @
        (case source_context src of
           JObj d \<Rightarrow> if dict_get d ''required'' = JBool True \<and> cp_context caps \<notin> {''required'', ''optional''} then [ContextRequired] else []
         | _ \<Rightarrow> []) @
        (case source_hard_constraints src of JObj d \<Rightarrow> sandbox_gaps rp (cp_sandbox caps) d | _ \<Rightarrow> []))))"

section \<open>Authority\<close>

record allow_binding =
  al_models :: "string list"
  al_roles :: "string list"

definition allow_of :: "(json \<Rightarrow> string) \<Rightarrow> dict \<Rightarrow> (string \<times> allow_binding) list \<Rightarrow> py_error + (string \<times> allow_binding) list" where
  "allow_of rp b allow =
     (let executor_id = strip (py_str rp (py_or (dict_get b ''executor_id'') (JStr []))) in
      if executor_id = [] then Inr allow
      else
        sbind (str_tuple rp (dict_get b ''models'')) (\<lambda>models.
        sbind (str_tuple rp (dict_get b ''roles'')) (\<lambda>roles.
        Inr (put executor_id \<lparr>al_models = models, al_roles = roles\<rparr> allow))))"

fun allow_all :: "(json \<Rightarrow> string) \<Rightarrow> dict list \<Rightarrow> (string \<times> allow_binding) list \<Rightarrow> py_error + (string \<times> allow_binding) list" where
  "allow_all rp [] allow = Inr allow"
| "allow_all rp (b # bs) allow = sbind (allow_of rp b allow) (allow_all rp bs)"

text \<open>The allow list, and whether it is a boundary. Without a list of bindings the contract sets no boundary at all.\<close>

definition authority_bindings :: "(json \<Rightarrow> string) \<Rightarrow> contract_source \<Rightarrow> py_error + (string \<times> allow_binding) list \<times> bool" where
  "authority_bindings rp src = (case source_authority src of
     JObj raw \<Rightarrow>
       (case dict_get raw ''executors'' of
          JList bindings \<Rightarrow>
            sbind (allow_all rp (dict_items bindings) []) (\<lambda>allow.
            Inr (allow, py_str rp (dict_get_or raw ''executor_policy'' (JStr ''closed'')) = ''explicit_allow'' \<or> allow \<noteq> []))
        | _ \<Rightarrow> Inr ([], False))
   | _ \<Rightarrow> Inr ([], False))"

definition models_overlap :: "string list \<Rightarrow> string list \<Rightarrow> bool" where
  "models_overlap allowed available = (if allowed = [] then False
     else if ''*'' \<in> set allowed \<or> ''*'' \<in> set available then True else set allowed \<inter> set available \<noteq> {})"

section \<open>The registry\<close>

type_synonym registry = "(string \<times> registry_entry) list"

definition new_registry :: "registry_entry list \<Rightarrow> registry" where
  "new_registry entries = fold (\<lambda>e r. put (rg_id e) e r) entries []"

definition register_entry :: "registry_entry \<Rightarrow> registry \<Rightarrow> registry" where
  "register_entry e r = put (rg_id e) e r"

definition unregister_entry :: "string \<Rightarrow> registry \<Rightarrow> bool \<times> registry" where
  "unregister_entry i r = (map_of r i \<noteq> None, del i r)"

definition set_enabled :: "string \<Rightarrow> bool \<Rightarrow> registry \<Rightarrow> bool \<times> registry" where
  "set_enabled i enabled r = (case map_of r i of
     None \<Rightarrow> (False, r)
   | Some e \<Rightarrow> if rg_enabled e = enabled then (True, r) else (True, put i (e\<lparr>rg_enabled := enabled\<rparr>) r))"

definition list_entries :: "bool \<Rightarrow> registry \<Rightarrow> registry_entry list" where
  "list_entries enabled_only r = sort_key rg_id (filter (\<lambda>e. \<not> enabled_only \<or> rg_enabled e) (map snd r))"

definition registry_from_dict :: "(json \<Rightarrow> string) \<Rightarrow> json \<Rightarrow> py_error + registry" where
  "registry_from_dict rp data =
     sbind (as_dict data) (\<lambda>d.
     sbind (py_iter (dict_get_or d ''agents'' (JList []))) (\<lambda>items.
     sbind (smap (\<lambda>v. sbind (as_dict v) (registry_entry_from_dict rp)) items) (\<lambda>entries.
     Inr (new_registry entries))))"

definition max_concurrent :: "registry_entry \<Rightarrow> int" where
  "max_concurrent e = (case map_of (rg_limits e) ''max_concurrent_attempts'' of None \<Rightarrow> 1 | Some n \<Rightarrow> n)"

definition running_of :: "(string \<times> int) list \<Rightarrow> registry_entry \<Rightarrow> int" where
  "running_of running_attempts e = (case map_of running_attempts (rg_id e) of None \<Rightarrow> 0 | Some n \<Rightarrow> n)"

definition authorised :: "(string \<times> allow_binding) list \<times> bool \<Rightarrow> string \<Rightarrow> registry_entry \<Rightarrow> bool" where
  "authorised bounds role e = (\<not> snd bounds \<or> (case map_of (fst bounds) (rg_id e) of
     None \<Rightarrow> False | Some b \<Rightarrow> role \<in> set (al_roles b) \<and> models_overlap (al_models b) (rg_models e)))"

text \<open>One entry: the checks in the order of the loop, the capability check only for an entry that is enabled and authorised.\<close>

definition candidate_ok ::
  "(json \<Rightarrow> string) \<Rightarrow> contract_source \<Rightarrow> (string \<times> int) list \<Rightarrow> string \<Rightarrow> (string \<times> allow_binding) list \<times> bool \<Rightarrow> registry_entry \<Rightarrow> py_error + bool" where
  "candidate_ok rp src running role bounds e =
     (if \<not> rg_enabled e \<or> \<not> authorised bounds role e then Inr False
      else sbind (check_capability_match rp e src) (\<lambda>reasons. Inr (reasons = [] \<and> running_of running e < max_concurrent e)))"

fun filter_candidates :: "(registry_entry \<Rightarrow> py_error + bool) \<Rightarrow> registry_entry list \<Rightarrow> py_error + registry_entry list" where
  "filter_candidates ok [] = Inr []"
| "filter_candidates ok (e # es) =
     sbind (ok e) (\<lambda>b. sbind (filter_candidates ok es) (\<lambda>rest. Inr (if b then e # rest else rest)))"

definition dispatch_key :: "(string \<times> int) list \<Rightarrow> registry_entry \<Rightarrow> int \<times> int \<times> string" where
  "dispatch_key running e = (cost_priority (rg_cost_hint e), running_of running e, rg_id e)"

definition match_candidates ::
  "(json \<Rightarrow> string) \<Rightarrow> registry \<Rightarrow> contract_source \<Rightarrow> (string \<times> int) list \<Rightarrow> string \<Rightarrow> py_error + registry_entry list" where
  "match_candidates rp r src running role =
     sbind (authority_bindings rp src) (\<lambda>bounds.
     sbind (filter_candidates (candidate_ok rp src running role bounds) (map snd r)) (\<lambda>cs.
     Inr (sort_key (dispatch_key running) cs)))"

definition select_candidate :: "(json \<Rightarrow> string) \<Rightarrow> registry \<Rightarrow> contract_source \<Rightarrow> (string \<times> int) list \<Rightarrow> py_error + registry_entry option" where
  "select_candidate rp r src running = sbind (match_candidates rp r src running ''executor'') (\<lambda>cs.
     Inr (case cs of [] \<Rightarrow> None | c # _ \<Rightarrow> Some c))"

section \<open>Admission\<close>

record candidate_facts =
  cf_executor :: string
  cf_enabled :: bool
  cf_concurrency :: bool
  cf_capability :: bool
  cf_constraint :: bool
  cf_budget :: bool
  cf_verifier_independent :: bool

text \<open>The facts of an entry for an offer, with the models and the requested role and model beside them.\<close>

definition admission_facts :: "(json \<Rightarrow> string) \<Rightarrow> contract_source option \<Rightarrow> (string \<times> int) list \<Rightarrow> registry_entry \<Rightarrow> py_error + candidate_facts" where
  "admission_facts rp src running e =
     sbind (case src of None \<Rightarrow> Inr True | Some c \<Rightarrow> sbind (check_capability_match rp e c) (\<lambda>reasons. Inr (reasons = []))) (\<lambda>capable.
     Inr \<lparr>cf_executor = rg_id e, cf_enabled = rg_enabled e, cf_concurrency = running_of running e < max_concurrent e,
          cf_capability = capable, cf_constraint = sb_enforcement (cp_sandbox (rg_capabilities e)) \<noteq> EnfNone,
          cf_budget = True, cf_verifier_independent = True\<rparr>)"

definition snapshot_for_admission ::
  "(json \<Rightarrow> string) \<Rightarrow> registry \<Rightarrow> contract_source option \<Rightarrow> (string \<times> int) list \<Rightarrow> py_error + (candidate_facts \<times> string list) list" where
  "snapshot_for_admission rp r src running =
     smap (\<lambda>e. sbind (admission_facts rp src running e) (\<lambda>f. Inr (f, rg_models e))) (map snd r)"

record eligibility_verdict =
  el_candidate :: string
  el_model :: string
  el_role :: string
  el_conditions :: "(string \<times> bool) list"

definition contract_explicitly_allows :: "authority \<Rightarrow> string \<Rightarrow> string \<Rightarrow> string \<Rightarrow> bool" where
  "contract_explicitly_allows a executor_id model role = (case binding_for_executor a executor_id of
     None \<Rightarrow> au_executor_policy a = ''closed'' \<and> au_executors a = []
   | Some b \<Rightarrow> models_allow a b model \<and> roles_allow a b role)"

definition evaluate_eligibility :: "authority \<Rightarrow> candidate_facts \<Rightarrow> string \<Rightarrow> string \<Rightarrow> eligibility_verdict" where
  "evaluate_eligibility a f model role = \<lparr>el_candidate = cf_executor f, el_model = model, el_role = role,
     el_conditions = [(''globally_enabled'', cf_enabled f),
       (''contract_explicitly_allows'', contract_explicitly_allows a (cf_executor f) model role),
       (''capability_satisfies'', cf_capability f), (''constraint_enforcement_proven'', cf_constraint f),
       (''budget_available'', cf_budget f), (''concurrency_available'', cf_concurrency f),
       (''verifier_independence_satisfies'', if role = ''verifier'' then cf_verifier_independent f else True)]\<rparr>"

definition eligible :: "eligibility_verdict \<Rightarrow> bool" where
  "eligible v = list_all snd (el_conditions v)"

definition failed_conditions :: "eligibility_verdict \<Rightarrow> string list" where
  "failed_conditions v = map fst (filter (\<lambda>(n, ok). \<not> ok) (el_conditions v))"

datatype refuse_code = NoEligibleExecutor | AcceptanceNotExecutable | VerificationReserveInsufficient
  | ForecastExceedsDeadline | BudgetBelowOneVerification | PolicyDeny

record candidate_view =
  cw_executor :: string
  cw_models :: "string list"
  cw_reason :: string

record offer =
  of_eligible :: "candidate_view list"
  of_rejected :: "candidate_view list"
  of_acceptance_executable :: bool
  of_p50 :: "rat option"
  of_p90 :: "rat option"
  of_confidence :: "rat option"
  of_reserve_sufficient :: bool
  of_safe_start_by :: "int option"
  of_risks :: "string list"
  of_guarantees :: "string list"

definition offer_eligible :: "offer \<Rightarrow> bool" where
  "offer_eligible o' = (of_eligible o' \<noteq> [] \<and> of_acceptance_executable o' \<and> of_reserve_sufficient o' \<and>
     (of_p90 o' = None \<or> of_safe_start_by o' \<noteq> None))"

section \<open>Facts\<close>

lemma filter_candidates_Inr:
  "filter_candidates ok es = Inr cs \<Longrightarrow> cs = filter (\<lambda>e. ok e = Inr True) es \<and> (\<forall>e \<in> set es. \<exists>b. ok e = Inr b)"
  by (induction es arbitrary: cs) (auto simp: res_simps)

lemma candidate_ok_True:
  "candidate_ok rp src running role bounds e = Inr True \<longleftrightarrow> rg_enabled e \<and> authorised bounds role e \<and>
     check_capability_match rp e src = Inr [] \<and> running_of running e < max_concurrent e"
  by (auto simp: candidate_ok_def res_simps)

definition draft_bounds :: "authority \<Rightarrow> (string \<times> allow_binding) list \<times> bool" where
  "draft_bounds a = (let allow = fold (\<lambda>b acc. if strip (ab_executor_id b) = [] then acc
       else put (strip (ab_executor_id b)) \<lparr>al_models = ab_models b, al_roles = ab_roles b\<rparr> acc) (au_executors a) [] in
     (allow, au_executor_policy a = ''explicit_allow'' \<or> allow \<noteq> []))"

lemma allow_all_bindings:
  "allow_all rp (dict_items (map binding_to_dict bs)) acc = Inr (fold (\<lambda>b acc. if strip (ab_executor_id b) = [] then acc
     else put (strip (ab_executor_id b)) \<lparr>al_models = ab_models b, al_roles = ab_roles b\<rparr> acc) bs acc)"
  unfolding dict_items_bindings
  by (induction bs arbitrary: acc) (simp_all add: allow_of_def dict_get_def py_or_def Let_def)

lemma authority_bindings_draft: "authority_bindings rp (DraftSource c) = Inr (draft_bounds (cd_authority c))"
  by (simp add: authority_bindings_def source_authority_def authority_to_dict_def dict_get_def dict_get_or_def allow_all_bindings
      draft_bounds_def Let_def)

lemma fold_put_lookup:
  "map_of (fold (\<lambda>b acc. if k b = [] then acc else put (k b) (v b) acc) bs acc) i = Some x \<Longrightarrow>
     map_of acc i = Some x \<or> (\<exists>b \<in> set bs. k b = i \<and> v b = x)"
  by (induction bs arbitrary: acc) (fastforce split: if_splits)+

lemma draft_bounds_lookup:
  assumes "map_of (fst (draft_bounds a)) i = Some x"
  shows "\<exists>b \<in> set (au_executors a). strip (ab_executor_id b) = i \<and> al_models x = ab_models b \<and> al_roles x = ab_roles b"
  using fold_put_lookup [of "\<lambda>b. strip (ab_executor_id b)" "\<lambda>b. \<lparr>al_models = ab_models b, al_roles = ab_roles b\<rparr>" "au_executors a" "[]" i x] assms
  by (auto simp: draft_bounds_def Let_def)

section \<open>Properties\<close>

text \<open>
  The dispatch candidates are exactly the executors that may run the contract. They are the entries that the user has
  enabled, the authority of the contract admits for the role, whose capabilities meet every demand of the contract and
  which run fewer attempts than their limit, each once, ordered by cost, then by load, then by id.
\<close>

theorem candidates_exact:
  assumes "match_candidates rp r src running role = Inr cs" and "authority_bindings rp src = Inr bounds" and "distinct (map snd r)"
  shows "set cs = {e \<in> snd ` set r. rg_enabled e \<and> authorised bounds role e \<and> check_capability_match rp e src = Inr [] \<and>
      running_of running e < max_concurrent e} \<and>
    distinct cs \<and> sorted (map (dispatch_key running) cs)"
proof -
  obtain cs' where "filter_candidates (candidate_ok rp src running role bounds) (map snd r) = Inr cs'"
      "cs = sort_key (dispatch_key running) cs'"
    using assms(1,2) by (auto simp: match_candidates_def res_simps)
  moreover from this(1) have "cs' = filter (\<lambda>e. candidate_ok rp src running role bounds e = Inr True) (map snd r)"
    using filter_candidates_Inr by blast
  ultimately show ?thesis using assms(3) by (force simp: candidate_ok_True)
qed

definition sample_entry :: "string \<Rightarrow> cost_hint \<Rightarrow> string list \<Rightarrow> registry_entry" where
  "sample_entry i cost models = \<lparr>rg_id = i, rg_kind = ''subprocess'', rg_launch = \<lparr>ls_argv = [], ls_cwd = None, ls_env_allowlist = []\<rparr>,
     rg_capabilities = \<lparr>cp_spawn = True, cp_observe = True, cp_cancel = True, cp_notify = False, cp_followup = False, cp_steer = False,
       cp_interrupt = False, cp_context = ''optional'', cp_sandbox = \<lparr>sb_file_effects = ''workspace-write'', sb_network = ''deny'',
       sb_process = ''restricted'', sb_enforcement = EnfFull\<rparr>, cp_acceptance_evidence = False\<rparr>,
     rg_limits = [], rg_cost_hint = cost, rg_enabled = True, rg_models = models, rg_declared_model = None\<rparr>"

definition sample_authority :: authority where
  "sample_authority = default_authority\<lparr>au_executor_policy := ''explicit_allow'',
     au_executors := [\<lparr>ab_executor_id = ''b'', ab_models = [''m''], ab_roles = [''executor'']\<rparr>]\<rparr>"

lemma sample_capable: "check_capability_match rp (sample_entry i c ms) (DraftSource (sample_contract_draft\<lparr>cd_authority := a\<rparr>)) = Inr []"
  by (simp add: check_capability_match_def sample_contract_draft_def dict_get_def dict_get_or_def sandbox_gaps_def mode_of_def Let_def)

lemma sample_bounds: "draft_bounds sample_authority = ([(''b'', \<lparr>al_models = [''m''], al_roles = [''executor'']\<rparr>)], True)"
  by (simp add: draft_bounds_def sample_authority_def default_authority_def Let_def strip_def lstrip_def is_space_def)

lemma sample_match:
  "match_candidates rp [(''a'', sample_entry ''a'' LowCost ms), (''b'', sample_entry ''b'' HighCost ms')]
     (DraftSource (sample_contract_draft\<lparr>cd_authority := sample_authority\<rparr>)) [] ''executor'' =
   Inr (if models_overlap [''m''] ms' then [sample_entry ''b'' HighCost ms'] else [])"
proof -
  have "rg_id (sample_entry i c m) = i" "rg_enabled (sample_entry i c m)" "rg_models (sample_entry i c m) = m"
    "max_concurrent (sample_entry i c m) = 1" for i c m
    by (simp_all add: sample_entry_def max_concurrent_def)
  then show ?thesis
    by (simp add: match_candidates_def authority_bindings_draft sample_bounds candidate_ok_def authorised_def sample_capable running_of_def)
qed

theorem candidates_exact_witness:
  "\<exists>cs. match_candidates sample_repr [(''a'', sample_entry ''a'' LowCost [''m'']), (''b'', sample_entry ''b'' HighCost [''m''])]
     (DraftSource (sample_contract_draft\<lparr>cd_authority := sample_authority\<rparr>)) [] ''executor'' = Inr cs \<and>
     distinct cs \<and> sorted (map (dispatch_key []) cs)"
proof -
  let ?r = "[(''a'', sample_entry ''a'' LowCost [''m'']), (''b'', sample_entry ''b'' HighCost [''m''])]"
  let ?src = "DraftSource (sample_contract_draft\<lparr>cd_authority := sample_authority\<rparr>)"
  have ne: "sample_entry ''a'' LowCost [''m''] \<noteq> sample_entry ''b'' HighCost [''m'']" by (simp add: sample_entry_def)
  have o': "models_overlap [''m''] [''m'']" by (simp add: models_overlap_def)
  have m: "match_candidates sample_repr ?r ?src [] ''executor'' = Inr [sample_entry ''b'' HighCost [''m'']]"
    by (simp add: sample_match o')
  have "authority_bindings sample_repr ?src = Inr (draft_bounds sample_authority)" by (simp add: authority_bindings_draft)
  moreover have "distinct (map snd ?r)" using ne by simp
  ultimately show ?thesis using m conjunct2 [OF candidates_exact [OF m]] by blast
qed

text \<open>
  Default deny. Under an explicit allow list, or as soon as one binding names an executor, every dispatch candidate is covered by a
  binding of the contract: for its id, for the role, and for one of its models.
\<close>

theorem dispatch_default_deny:
  assumes "match_candidates rp r (DraftSource c) running role = Inr cs" and "e \<in> set cs"
    and "au_executor_policy (cd_authority c) = ''explicit_allow'' \<or> (\<exists>b \<in> set (au_executors (cd_authority c)). strip (ab_executor_id b) \<noteq> [])"
  shows "\<exists>b \<in> set (au_executors (cd_authority c)). strip (ab_executor_id b) = rg_id e \<and> role \<in> set (ab_roles b) \<and>
    (''*'' \<in> set (ab_models b) \<or> ''*'' \<in> set (rg_models e) \<or> set (ab_models b) \<inter> set (rg_models e) \<noteq> {})"
proof -
  obtain cs' where f: "filter_candidates (candidate_ok rp (DraftSource c) running role (draft_bounds (cd_authority c))) (map snd r) = Inr cs'"
      "cs = sort_key (dispatch_key running) cs'"
    using assms(1) by (auto simp: match_candidates_def authority_bindings_draft res_simps)
  have auth: "authorised (draft_bounds (cd_authority c)) role e"
    using filter_candidates_Inr [OF f(1)] f(2) assms(2) by (simp add: candidate_ok_True)
  have "fold (\<lambda>b acc. if strip (ab_executor_id b) = [] then acc else put (strip (ab_executor_id b)) \<lparr>al_models = ab_models b, al_roles = ab_roles b\<rparr> acc)
      bs acc \<noteq> []" if "acc \<noteq> [] \<or> (\<exists>b \<in> set bs. strip (ab_executor_id b) \<noteq> [])" for bs acc
    using that by (induction bs arbitrary: acc) (auto simp: AList.update_nonempty)
  then have "snd (draft_bounds (cd_authority c))"
    using assms(3) by (auto simp: draft_bounds_def Let_def)
  with auth obtain x where x: "map_of (fst (draft_bounds (cd_authority c))) (rg_id e) = Some x" "role \<in> set (al_roles x)"
      "models_overlap (al_models x) (rg_models e)"
    by (auto simp: authorised_def split: option.splits)
  obtain b where "b \<in> set (au_executors (cd_authority c))" "strip (ab_executor_id b) = rg_id e" "al_models x = ab_models b"
      "al_roles x = ab_roles b" using draft_bounds_lookup [OF x(1)] by blast
  with x(2,3) show ?thesis by (intro bexI [of _ b]) (auto simp: models_overlap_def split: if_splits)
qed

theorem dispatch_default_deny_witness:
  "\<exists>cs. match_candidates sample_repr [(''a'', sample_entry ''a'' LowCost [''m'']), (''b'', sample_entry ''b'' HighCost [''m''])]
     (DraftSource (sample_contract_draft\<lparr>cd_authority := sample_authority\<rparr>)) [] ''executor'' = Inr cs \<and>
     (\<exists>b :: authority_binding. strip (ab_executor_id b) = ''b'' \<and> ''executor'' \<in> set (ab_roles b))"
proof -
  have o': "models_overlap [''m''] [''m'']" by (simp add: models_overlap_def)
  have m: "match_candidates sample_repr [(''a'', sample_entry ''a'' LowCost [''m'']), (''b'', sample_entry ''b'' HighCost [''m''])]
     (DraftSource (sample_contract_draft\<lparr>cd_authority := sample_authority\<rparr>)) [] ''executor'' = Inr [sample_entry ''b'' HighCost [''m'']]"
    by (simp add: sample_match o')
  have e: "rg_id (sample_entry ''b'' HighCost [''m'']) = ''b''" by (simp add: sample_entry_def)
  have "au_executor_policy (cd_authority (sample_contract_draft\<lparr>cd_authority := sample_authority\<rparr>)) = ''explicit_allow''"
    by (simp add: sample_authority_def)
  then have "\<exists>b :: authority_binding. strip (ab_executor_id b) = rg_id (sample_entry ''b'' HighCost [''m'']) \<and> ''executor'' \<in> set (ab_roles b)"
    using dispatch_default_deny [OF m list.set_intros(1)] by blast
  with m show ?thesis unfolding e by blast
qed

lemma fold_put_distinct:
  assumes "distinct (map k bs)" and "\<forall>b \<in> set bs. k b \<noteq> []"
  shows "map_of (fold (\<lambda>b acc. if k b = [] then acc else put (k b) (v b) acc) bs acc) i =
    (case find (\<lambda>b. k b = i) bs of None \<Rightarrow> map_of acc i | Some b \<Rightarrow> Some (v b))"
  using assms
proof (induction bs arbitrary: acc)
  case (Cons b bs)
  have "find (\<lambda>x. k x = k b) bs = None" using Cons.prems by (auto simp: find_None_all image_iff)
  then show ?case using Cons by (auto split: option.split)
qed simp

text \<open>
  C31: Admission and dispatch agree where the authority is written out. For a registry entry that declares exactly one model, not the wildcard, and a
  contract with a known policy whose bindings name distinct executors by their plain ids, the seven conditions of an offer of that model hold for the entry
  exactly when dispatch would choose it among its candidates and its sandbox enforcement is proven. (For an entry with the default
  model list the two differ, see below.)
\<close>

theorem admission_agrees_with_dispatch:
  assumes "match_candidates rp r (DraftSource c) running role = Inr cs" and "e \<in> snd ` set r"
    and "admission_facts rp (Some (DraftSource c)) running e = Inr f" and "rg_models e = [m]" and "m \<noteq> ''*''"
    and "distinct (map ab_executor_id (au_executors (cd_authority c)))"
    and "\<forall>b \<in> set (au_executors (cd_authority c)). strip (ab_executor_id b) = ab_executor_id b \<and> ab_executor_id b \<noteq> []"
    and "au_executor_policy (cd_authority c) \<in> {''closed'', ''explicit_allow''}"
  shows "eligible (evaluate_eligibility (cd_authority c) f m role) \<longleftrightarrow>
    e \<in> set cs \<and> sb_enforcement (cp_sandbox (rg_capabilities e)) \<noteq> EnfNone"
proof -
  let ?a = "cd_authority c" and ?exec = "au_executors (cd_authority c)"
  let ?allow = "fold (\<lambda>b acc. if ab_executor_id b = [] then acc
       else put (ab_executor_id b) \<lparr>al_models = ab_models b, al_roles = ab_roles b\<rparr> acc) ?exec []"
  obtain cs' where f: "filter_candidates (candidate_ok rp (DraftSource c) running role (draft_bounds ?a)) (map snd r) = Inr cs'"
      "cs = sort_key (dispatch_key running) cs'"
    using assms(1) by (auto simp: match_candidates_def authority_bindings_draft res_simps)
  have mem: "e \<in> set cs \<longleftrightarrow> rg_enabled e \<and> authorised (draft_bounds ?a) role e \<and>
      check_capability_match rp e (DraftSource c) = Inr [] \<and> running_of running e < max_concurrent e"
    using filter_candidates_Inr [OF f(1)] f(2) assms(2) by (auto simp: candidate_ok_True)
  have bounds: "draft_bounds ?a = (?allow, au_executor_policy ?a = ''explicit_allow'' \<or> ?allow \<noteq> [])"
  proof -
    have "fold (\<lambda>b acc. if strip (ab_executor_id b) = [] then acc
        else put (strip (ab_executor_id b)) \<lparr>al_models = ab_models b, al_roles = ab_roles b\<rparr> acc) ?exec [] = ?allow"
      by (rule fold_cong [OF refl refl]) (use assms(7) in auto)
    then show ?thesis by (simp add: draft_bounds_def Let_def)
  qed
  have look: "map_of ?allow (rg_id e) = map_option (\<lambda>b. \<lparr>al_models = ab_models b, al_roles = ab_roles b\<rparr>) (binding_for_executor ?a (rg_id e))"
    using fold_put_distinct [of ab_executor_id ?exec "\<lambda>b. \<lparr>al_models = ab_models b, al_roles = ab_roles b\<rparr>" "[]" "rg_id e"] assms(6,7)
    by (auto simp: binding_for_executor_def split: option.split)
  have empty: "?allow = [] \<longleftrightarrow> ?exec = []"
  proof
    have ne: "fold (\<lambda>b acc. if ab_executor_id b = [] then acc
       else put (ab_executor_id b) \<lparr>al_models = ab_models b, al_roles = ab_roles b\<rparr> acc) bs acc \<noteq> []" if "acc \<noteq> []" for bs acc
      using that by (induction bs arbitrary: acc) (auto simp: AList.update_nonempty)
    assume "?allow = []"
    then show "?exec = []" using ne assms(7) by (cases ?exec) (auto simp: AList.update_nonempty)
  qed simp
  have auth: "authorised (draft_bounds ?a) role e \<longleftrightarrow> contract_explicitly_allows ?a (rg_id e) m role"
  proof (cases "binding_for_executor ?a (rg_id e)")
    case None
    then show ?thesis using assms(8) by (auto simp: authorised_def bounds look contract_explicitly_allows_def empty)
  next
    case (Some b)
    then have "?exec \<noteq> []" by (auto simp: binding_for_executor_def)
    with Some show ?thesis using assms(4,5)
      by (auto simp: authorised_def bounds look contract_explicitly_allows_def empty models_allow_def roles_allow_def models_overlap_def)
  qed
  have facts: "cf_executor f = rg_id e" "cf_enabled f = rg_enabled e" "cf_concurrency f = (running_of running e < max_concurrent e)"
    "cf_capability f = (check_capability_match rp e (DraftSource c) = Inr [])" "cf_budget f" "cf_verifier_independent f"
    "cf_constraint f = (sb_enforcement (cp_sandbox (rg_capabilities e)) \<noteq> EnfNone)"
    using assms(3) by (auto simp: admission_facts_def res_simps)
  show ?thesis by (auto simp: eligible_def evaluate_eligibility_def facts mem auth)
qed

theorem admission_agrees_with_dispatch_witness:
  "\<exists>f. admission_facts sample_repr (Some (DraftSource (sample_contract_draft\<lparr>cd_authority := sample_authority\<rparr>))) []
       (sample_entry ''b'' HighCost [''m'']) = Inr f \<and> eligible (evaluate_eligibility sample_authority f ''m'' ''executor'')"
proof -
  let ?src = "DraftSource (sample_contract_draft\<lparr>cd_authority := sample_authority\<rparr>)" and ?e = "sample_entry ''b'' HighCost [''m'']"
  have o': "models_overlap [''m''] [''m'']" by (simp add: models_overlap_def)
  have m: "match_candidates sample_repr [(''a'', sample_entry ''a'' LowCost [''m'']), (''b'', ?e)] ?src [] ''executor'' = Inr [?e]"
    by (simp add: sample_match o')
  obtain f where f: "admission_facts sample_repr (Some ?src) [] ?e = Inr f" by (simp add: admission_facts_def sample_capable)
  have "eligible (evaluate_eligibility (cd_authority (sample_contract_draft\<lparr>cd_authority := sample_authority\<rparr>)) f ''m'' ''executor'') \<longleftrightarrow>
      ?e \<in> set [?e] \<and> sb_enforcement (cp_sandbox (rg_capabilities ?e)) \<noteq> EnfNone"
    by (rule admission_agrees_with_dispatch [OF m _ f])
      (simp_all add: sample_entry_def sample_authority_def strip_def lstrip_def is_space_def)
  with f show ?thesis by (simp add: sample_entry_def)
qed

text \<open>
  Two ways in which the models of a binding are not a boundary: an entry that declares no model of its own passes every binding,
  although the eligibility rules refuse it; and of two bindings for one executor dispatch takes the last, admission the first.
\<close>

lemma wildcard_entry_ignores_the_binding:
  assumes "rg_models e = [''*'']" and "role \<in> set (ab_roles b)" and "ab_models b = [''m'']" and "strip (ab_executor_id b) = rg_id e"
    and "rg_id e \<noteq> []" and "ab_executor_id b = rg_id e" and "au_executors a = [b]"
  shows "authorised (draft_bounds a) role e \<and> \<not> contract_explicitly_allows a (rg_id e) ''*'' role"
  using assms
  by (simp add: authorised_def draft_bounds_def models_overlap_def contract_explicitly_allows_def binding_for_executor_def models_allow_def)

text \<open>The capabilities that the authority of a draft requires are not looked at.\<close>

lemma authority_capabilities_are_not_checked:
  "check_capability_match rp e (DraftSource (c\<lparr>cd_authority := a\<rparr>)) = check_capability_match rp e (DraftSource c)"
  by (simp add: check_capability_match_def)

section \<open>Well-formed registries\<close>

lemma strip_idem [simp]: "strip (strip s) = strip s"
proof -
  define t where "t = dropWhile is_space s"
  define u where "u = rev (dropWhile is_space (rev t))"
  have "\<exists>v. t = u @ v" unfolding u_def by (metis rev_append rev_rev_ident takeWhile_dropWhile_id)
  moreover have "t = [] \<or> \<not> is_space (hd t)" unfolding t_def using hd_dropWhile [of is_space s] by blast
  ultimately have "dropWhile is_space u = u" by (cases u) auto
  moreover have "strip s = u" by (simp add: strip_def lstrip_def u_def t_def)
  ultimately show ?thesis by (simp add: strip_def lstrip_def u_def dropWhile_idem)
qed

definition entry_ok :: "registry_entry \<Rightarrow> bool" where
  "entry_ok e \<longleftrightarrow> strip (rg_id e) = rg_id e \<and> rg_id e \<noteq> [] \<and> rg_models e \<noteq> [] \<and> list_all (\<lambda>m. m \<noteq> [] \<and> strip m = m) (rg_models e) \<and>
     rg_declared_model e = declared_model_from_argv (ls_argv (rg_launch e)) \<and> model_error (rg_models e) (rg_declared_model e) = None"

definition registry_ok :: "registry \<Rightarrow> bool" where
  "registry_ok r \<longleftrightarrow> distinct (map fst r) \<and> (\<forall>(i, e) \<in> set r. i = rg_id e \<and> entry_ok e)"

lemma models_of_ok: "models_of ms \<noteq> []" "list_all (\<lambda>m. m \<noteq> [] \<and> strip m = m) (models_of ms)"
proof -
  have "strip ''*'' = ''*''" by (simp add: strip_def lstrip_def is_space_def)
  then show "models_of ms \<noteq> []" "list_all (\<lambda>m. m \<noteq> [] \<and> strip m = m) (models_of ms)"
    by (auto simp: models_of_def Let_def list_all_iff)
qed

lemma models_of_id: "ms \<noteq> [] \<Longrightarrow> list_all (\<lambda>m. m \<noteq> [] \<and> strip m = m) ms \<Longrightarrow> models_of ms = ms"
proof -
  assume "ms \<noteq> []" and ok: "list_all (\<lambda>m. m \<noteq> [] \<and> strip m = m) ms"
  moreover have "map strip ms = ms" using ok by (simp add: list_all_iff map_idI)
  ultimately show ?thesis by (auto simp: models_of_def Let_def list_all_iff filter_id_conv filter_empty_conv)
qed

lemma parsed_entry_ok: "registry_entry_from_dict rp d = Inr e \<Longrightarrow> entry_ok e"
  by (auto simp: registry_entry_from_dict_def Let_def res_simps entry_ok_def models_of_ok split: if_splits option.splits)

lemma set_put: "x \<in> set (put k v t) \<Longrightarrow> x = (k, v) \<or> x \<in> set t"
  by (induction t) (auto split: if_splits)

lemma registry_ok_put: "registry_ok r \<Longrightarrow> entry_ok e \<Longrightarrow> registry_ok (put (rg_id e) e r)"
  by (auto simp: registry_ok_def distinct_put dest: set_put)


definition registry_to_dict :: "registry \<Rightarrow> json" where
  "registry_to_dict r = JObj [(''agents'', JList (map (\<lambda>e. JObj (registry_entry_to_dict e)) (list_entries False r)))]"

text \<open>The registries of a process: loaded from a file and then edited by the operations of the class.\<close>

inductive registry_run :: "(json \<Rightarrow> string) \<Rightarrow> registry \<Rightarrow> bool" for rp where
  loaded: "registry_from_dict rp data = Inr r \<Longrightarrow> registry_run rp r"
| registered: "registry_run rp r \<Longrightarrow> registry_entry_from_dict rp d = Inr e \<Longrightarrow> registry_run rp (register_entry e r)"
| unregistered: "registry_run rp r \<Longrightarrow> registry_run rp (snd (unregister_entry i r))"
| switched: "registry_run rp r \<Longrightarrow> registry_run rp (snd (set_enabled i b r))"

lemma set_del: "x \<in> set (del k t) \<Longrightarrow> x \<in> set t"
  by (auto simp: AList.delete_eq)

lemma new_registry_ok: "list_all entry_ok es \<Longrightarrow> registry_ok (new_registry es)"
proof -
  have "list_all entry_ok es \<Longrightarrow> registry_ok r \<Longrightarrow> registry_ok (fold (\<lambda>e r. put (rg_id e) e r) es r)" for r
    by (induction es arbitrary: r) (auto simp: registry_ok_put)
  moreover have "registry_ok []" by (simp add: registry_ok_def)
  ultimately show "list_all entry_ok es \<Longrightarrow> registry_ok (new_registry es)" by (simp add: new_registry_def)
qed

lemma smap_elem: "smap f xs = Inr ys \<Longrightarrow> y \<in> set ys \<Longrightarrow> \<exists>x \<in> set xs. f x = Inr y"
  by (induction xs arbitrary: ys) (auto simp: res_simps)

lemma loaded_registry_ok:
  assumes "registry_from_dict rp data = Inr r"
  shows "registry_ok r"
proof -
  obtain items es where "smap (\<lambda>v. sbind (as_dict v) (registry_entry_from_dict rp)) items = Inr es" "r = new_registry es"
    using assms by (auto simp: registry_from_dict_def res_simps)
  moreover from this have "list_all entry_ok es"
    by (auto simp: list_all_iff res_simps parsed_entry_ok dest!: smap_elem)
  ultimately show ?thesis by (simp add: new_registry_ok)
qed

lemma registry_run_ok: "registry_run rp r \<Longrightarrow> registry_ok r"
proof (induction rule: registry_run.induct)
  case (registered r d e)
  then show ?case by (simp add: register_entry_def registry_ok_put parsed_entry_ok)
next
  case (unregistered r i)
  then show ?case by (auto simp: unregister_entry_def registry_ok_def distinct_del dest: set_del)
next
  case (switched r i b)
  have "entry_ok (e\<lparr>rg_enabled := b\<rparr>) = entry_ok e" for e by (simp add: entry_ok_def)
  moreover have "rg_id e = i \<and> entry_ok e" if "map_of r i = Some e" for e
    using switched.IH map_of_SomeD [OF that] by (auto simp: registry_ok_def)
  ultimately show ?case using switched.IH registry_ok_put [of r "e\<lparr>rg_enabled := b\<rparr>" for e]
    by (auto simp: set_enabled_def split: option.split)
qed (rule loaded_registry_ok)

lemma registry_ok_distinct: "registry_ok r \<Longrightarrow> distinct (map snd r)"
proof -
  assume ok: "registry_ok r"
  then have "map fst r = map rg_id (map snd r)" by (auto simp: registry_ok_def)
  with ok show ?thesis by (metis distinct_map registry_ok_def)
qed

lemma capabilities_reload: "capabilities_from_dict rp (capabilities_to_dict c) = Inr c"
proof -
  have enf: "enforcement_of (JStr (enforcement_value f)) = Inr f" for f by (cases f) (simp_all add: enforcement_of_def)
  show ?thesis
    by (cases c; cases "cp_sandbox c")
      (simp add: capabilities_from_dict_def capabilities_to_dict_def as_dict_def registry_bool_def strict_bool_def
        dict_get_or_def sandbox_capability_from_dict_def enf)
qed

lemma str_items_str_list [simp]: "str_items rp (str_list xs) = Inr xs"
  by (simp add: str_items_def str_list_def comp_def)

lemma launch_reload: "launch_spec_from_dict rp (launch_spec_to_dict l) = Inr l"
  by (cases l; cases "ls_cwd l")
    (simp_all add: jopt_def Let_def launch_spec_from_dict_def launch_spec_to_dict_def as_dict_def dict_get_def dict_get_or_def)

lemma entry_reload: "entry_ok e \<Longrightarrow> registry_entry_from_dict rp (registry_entry_to_dict e) = Inr e"
proof -
  assume ok: "entry_ok e"
  have cost: "cost_hint_of (lower (cost_hint_value h)) = h" for h
    by (cases h) (simp_all add: cost_hint_of_def lower_def lower_char_def)
  have limits: "limits_from_dict (JObj (map (\<lambda>(k, v). (k, JInt v)) ls)) = Inr ls" for ls
    unfolding limits_from_dict_def by (simp add: smap_Inr_id split_beta)
  have get: "dict_get_or (registry_entry_to_dict e) ''id'' x = JStr (rg_id e)"
      "dict_get_or (registry_entry_to_dict e) ''kind'' x = JStr (rg_kind e)"
      "dict_get (registry_entry_to_dict e) ''launch'' = launch_spec_to_dict (rg_launch e)"
      "dict_get_or (registry_entry_to_dict e) ''capabilities'' x = capabilities_to_dict (rg_capabilities e)"
      "dict_get_or (registry_entry_to_dict e) ''limits'' x = JObj (map (\<lambda>(k, v). (k, JInt v)) (rg_limits e))"
      "dict_get_or (registry_entry_to_dict e) ''cost_hint'' x = JStr (cost_hint_value (rg_cost_hint e))"
      "dict_get_or (registry_entry_to_dict e) ''enabled'' x = JBool (rg_enabled e)"
      "dict_get_or (registry_entry_to_dict e) ''models'' x = str_list (rg_models e)" for x
    by (simp_all add: registry_entry_to_dict_def dict_get_def dict_get_or_def)
  have ms: "models_of (rg_models e) = rg_models e" using ok by (simp add: entry_ok_def models_of_id)
  have ids: "strip (rg_id e) = rg_id e" "rg_id e \<noteq> []" "declared_model_from_argv (ls_argv (rg_launch e)) = rg_declared_model e"
      "model_error (rg_models e) (rg_declared_model e) = None" using ok unfolding entry_ok_def by metis+
  show ?thesis unfolding registry_entry_from_dict_def get Let_def
    by (simp add: ids ms launch_reload capabilities_reload limits registry_bool_def get strict_bool_def cost)
qed

lemma fold_put_lookup_entries:
  "distinct (map fst (map (\<lambda>e. (rg_id e, e)) es)) \<Longrightarrow> map_of (fold (\<lambda>e r. put (rg_id e) e r) es r) = map_of r ++ map_of (map (\<lambda>e. (rg_id e, e)) es)"
proof (induction es arbitrary: r)
  case (Cons e es)
  then have "rg_id e \<notin> dom (map_of (map (\<lambda>e. (rg_id e, e)) es))" by (auto simp: dom_map_of_conv_image_fst image_image)
  with Cons show ?case by (auto simp: map_add_def fun_eq_iff split: option.split)
qed simp

lemma registry_reload:
  assumes "registry_ok r"
  shows "\<exists>r'. registry_from_dict rp (registry_to_dict r) = Inr r' \<and> map_of r' = map_of r"
proof -
  let ?es = "list_entries False r"
  have es: "?es = sort_key rg_id (map snd r)" by (simp add: list_entries_def)
  have keys: "map (\<lambda>e. (rg_id e, e)) (map snd r) = r" using assms by (auto simp: registry_ok_def intro!: map_idI)
  have "smap (\<lambda>v. sbind (as_dict v) (registry_entry_from_dict rp)) (map (\<lambda>e. JObj (registry_entry_to_dict e)) ?es) = Inr ?es"
    by (rule smap_Inr_id) (use assms in \<open>auto simp: es as_dict_def entry_reload registry_ok_def\<close>)
  then have load: "registry_from_dict rp (registry_to_dict r) = Inr (new_registry ?es)"
    by (simp add: registry_from_dict_def registry_to_dict_def as_dict_def dict_get_or_def)
  define ps where "ps = map (\<lambda>e. (rg_id e, e)) ?es"
  have "mset ps = mset (map (\<lambda>e. (rg_id e, e)) (map snd r))" by (simp only: ps_def es mset_map mset_sort)
  then have m: "mset ps = mset r" unfolding keys .
  have "mset (map fst ps) = mset (map fst r)" by (simp only: mset_map m)
  moreover have r: "distinct (map fst r)" using assms by (simp add: registry_ok_def)
  ultimately have d: "distinct (map fst ps)" using mset_eq_imp_distinct_iff by blast
  have "map_of ps = map_of r" using mset_eq_setD [OF m] map_of_inject_set [OF d r] by blast
  then show ?thesis using load fold_put_lookup_entries [of ?es "[]"] d by (auto simp: new_registry_def ps_def)
qed

text \<open>
  C34: Every registry is well formed. However it was loaded from JSON and edited since, each entry is stored under its own id, ids and models are
  stripped and not empty, the model that the launch command names is one of the models of the entry, and the model that
  a dispatch records is the one the command names (\<open>*\<close> when it names none).
\<close>

theorem registry_stays_well_formed:
  assumes "registry_run rp r"
  shows "distinct (map fst r) \<and> list_all (\<lambda>(i, e). i = rg_id e \<and> entry_ok e \<and>
    effective_model e = (case declared_model_from_argv (ls_argv (rg_launch e)) of None \<Rightarrow> ''*'' | Some m \<Rightarrow> m)) r"
proof -
  have declared: "declared_model_from_argv argv \<noteq> Some []" for argv
    by (induction argv rule: declared_model_from_argv.induct) (auto split: list.splits if_splits)
  have "effective_model e = (case declared_model_from_argv (ls_argv (rg_launch e)) of None \<Rightarrow> ''*'' | Some m \<Rightarrow> m)" if "entry_ok e" for e
  proof (cases "rg_declared_model e")
    case None
    then have "rg_models e = [''*'']" using that by (simp add: entry_ok_def model_error_def split: if_splits)
    then show ?thesis using None that by (simp add: entry_ok_def effective_model_def text_or_def)
  next
    case (Some m)
    moreover from this have "declared_model_from_argv (ls_argv (rg_launch e)) = Some m" using that by (simp add: entry_ok_def)
    ultimately show ?thesis using declared [of "ls_argv (rg_launch e)"] by (simp add: effective_model_def text_or_def)
  qed
  then show ?thesis using registry_run_ok [OF assms] by (auto simp: registry_ok_def list_all_iff)
qed

text \<open>A registry that is written to its file and loaded again has the same entries.\<close>

theorem registry_reloads:
  assumes "registry_run rp r"
  shows "\<exists>r'. registry_from_dict rp (registry_to_dict r) = Inr r' \<and> map_of r' = map_of r"
  using registry_reload [OF registry_run_ok [OF assms]] .

definition sample_registry :: registry where
  "sample_registry = [(''a'', sample_entry ''a'' LowCost [''*'']), (''b'', sample_entry ''b'' HighCost [''*''])]"

lemma sample_registry_ok: "registry_ok sample_registry"
  by (simp add: sample_registry_def registry_ok_def entry_ok_def sample_entry_def strip_def lstrip_def is_space_def model_error_def)

lemma sample_registry_loads: "\<exists>r. registry_from_dict rp (registry_to_dict sample_registry) = Inr r \<and> map_of r = map_of sample_registry"
  using registry_reload [OF sample_registry_ok] .

theorem registry_stays_well_formed_witness:
  "\<exists>r e. registry_from_dict sample_repr (registry_to_dict sample_registry) = Inr r \<and> snd (set_enabled ''a'' True r) = e \<and> map_of r = map_of sample_registry \<and>
     list_all (\<lambda>(i, e). i = rg_id e) e"
proof -
  obtain r where r: "registry_from_dict sample_repr (registry_to_dict sample_registry) = Inr r" "map_of r = map_of sample_registry"
    using sample_registry_loads by blast
  have "list_all (\<lambda>(i, e). i = rg_id e \<and> entry_ok e \<and>
    effective_model e = (case declared_model_from_argv (ls_argv (rg_launch e)) of None \<Rightarrow> ''*'' | Some m \<Rightarrow> m)) (snd (set_enabled ''a'' True r))"
    using registry_stays_well_formed [OF switched [OF loaded [OF r(1)]]] by (rule conjunct2)
  then have "list_all (\<lambda>(i, e). i = rg_id e) (snd (set_enabled ''a'' True r))" by (auto simp: list_all_iff)
  with r show ?thesis by blast
qed

theorem registry_reloads_witness:
  "\<exists>r r'. registry_from_dict sample_repr (registry_to_dict sample_registry) = Inr r \<and> registry_from_dict sample_repr (registry_to_dict r) = Inr r' \<and>
     map_of r' = map_of r"
proof -
  obtain r where "registry_from_dict sample_repr (registry_to_dict sample_registry) = Inr r" using sample_registry_loads by blast
  then show ?thesis using registry_reloads [OF loaded] by blast
qed
end
