(* ===== verification/Dispatch.thy ===== *)
theory Dispatch
  imports Registry Urgency
begin

text \<open>
  \<open>longtask/cli/dispatch.py\<close>: handing a contract to an executor. The plan gate, the probe of one candidate after
  the other, the lease, and the bookkeeping transitions that block and wake a contract without a new revision.

  The adapters are the parameter \<open>factory\<close>: no adapter can be built for an entry, or its probe of an attempt id
  accepts (\<open>None\<close>) or refuses with a text. \<open>stamp\<close> formats a time for an attempt id. Building the probe's input reads the contract and
  writes nothing; projections and \<open>emit\<close> are not modelled.
\<close>

section \<open>Bookkeeping transitions\<close>

text \<open>\<open>UPDATE contracts ... WHERE contract_id = ? AND state = ? AND revision = ?\<close> on the row that was just read.\<close>

definition rewrite_contract :: "string \<Rightarrow> contract_view \<Rightarrow> event_type \<Rightarrow> dict \<Rightarrow> int \<Rightarrow> contract_view \<Rightarrow> store \<Rightarrow> store" where
  "rewrite_contract contract_id old t payload now new s =
     snd (log_event ((event_call (Some contract_id) t payload now)\<lparr>ne_goal := Some (cv_goal_id old), ne_revision := Some (cv_revision old),
       ne_role := Some ''promoter''\<rparr>) (s\<lparr>st_contracts := put contract_id new (st_contracts s)\<rparr>))"

definition wake_blocked_after_plan_approval :: "string \<Rightarrow> int \<Rightarrow> store \<Rightarrow> bool \<times> store" where
  "wake_blocked_after_plan_approval contract_id now s = (case get_contract s contract_id of
     None \<Rightarrow> (False, s)
   | Some v \<Rightarrow>
       if cv_state v \<noteq> Blocked \<or> cv_blocked_reason v \<noteq> Some NoExecutor then (False, s)
       else (True, rewrite_contract contract_id v ''contract/unblocked''
          [(''reason'', JStr ''plan gate cleared by PLAN_APPROVED''), (''previous_state'', JStr ''blocked''), (''new_state'', JStr ''active'')]
          now (v\<lparr>cv_state := Active, cv_blocked_reason := None, cv_next_decision_at := Some now, cv_updated_at := now\<rparr>) s))"

definition mark_blocked_capacity_full :: "string \<Rightarrow> int \<Rightarrow> store \<Rightarrow> bool \<times> store" where
  "mark_blocked_capacity_full contract_id now s = (case get_contract s contract_id of
     None \<Rightarrow> (False, s)
   | Some v \<Rightarrow>
       if cv_state v \<noteq> Active then (False, s)
       else (True, rewrite_contract contract_id v ''contract/blocked''
          [(''reason'', JStr ''every eligible executor is at max_concurrent_attempts; auto-retry when a lease is released''),
           (''previous_state'', JStr ''active''), (''new_state'', JStr ''blocked''), (''blocked_reason'', JStr ''capacity-full'')]
          now (v\<lparr>cv_state := Blocked, cv_blocked_reason := Some CapacityFull, cv_next_decision_at := None, cv_updated_at := now\<rparr>) s))"

definition wake_blocked_capacity_full :: "(json \<Rightarrow> string) \<Rightarrow> registry option \<Rightarrow> string \<Rightarrow> int \<Rightarrow> store \<Rightarrow> py_error + bool \<times> store" where
  "wake_blocked_capacity_full rp r contract_id now s = (case get_contract s contract_id of
     None \<Rightarrow> Inr (False, s)
   | Some v \<Rightarrow>
       if cv_state v \<noteq> Blocked \<or> cv_blocked_reason v \<noteq> Some CapacityFull then Inr (False, s)
       else
         (let running = count_running_by_executor s in
          sbind (case r of
              Some reg \<Rightarrow> sbind (match_candidates rp reg (DraftSource (cv_draft v)) running ''executor'') (\<lambda>cs. Inr (cs \<noteq> []))
            | None \<Rightarrow> Inr (\<not> list_ex (\<lambda>(e, n). n \<noteq> 0) running)) (\<lambda>free.
          if \<not> free then Inr (False, s)
          else Inr (True, rewrite_contract contract_id v ''contract/unblocked''
            [(''reason'', JStr ''executor capacity available, retrying dispatch''), (''previous_state'', JStr ''blocked''),
             (''new_state'', JStr ''active'')]
            now (v\<lparr>cv_state := Active, cv_blocked_reason := None, cv_next_decision_at := Some now, cv_updated_at := now\<rparr>) s))))"

section \<open>The plan gate\<close>

definition PLAN_GATE_LOOKBACK_SECONDS :: int where "PLAN_GATE_LOOKBACK_SECONDS = 24 * 60 * 60"

definition extract_check_identifiers :: "contract_draft \<Rightarrow> string list" where
  "extract_check_identifiers c = map (\<lambda>k. case k of TypedCheck cs \<Rightarrow> check_kind_value (cs_kind cs) @ '':'' @ cs_target cs | LegacyCheck t \<Rightarrow> t)
     (ac_checks (cd_acceptance c))"

definition gate_verdicts :: "store \<Rightarrow> string \<Rightarrow> int \<Rightarrow> event list" where
  "gate_verdicts s contract_id now = filter (\<lambda>e. ev_contract e = Some contract_id \<and> ev_type e \<in> {PLAN_APPROVED, PLAN_REJECTED} \<and>
     now - PLAN_GATE_LOOKBACK_SECONDS * SECOND \<le> ev_created e) (el_rows (st_log s))"

text \<open>The revision is read from the column of the event; a legacy event without one has it in its payload, where it is asked to be the JSON integer
  (Python would also take an equal float or boolean, which nothing writes).\<close>

definition approval_binds :: "event \<Rightarrow> int \<Rightarrow> string list \<Rightarrow> json \<Rightarrow> bool" where
  "approval_binds e contract_revision check_ids spec_hash =
     ((case ev_revision e of Some r \<Rightarrow> r = contract_revision
         | None \<Rightarrow> dict_get (ev_payload e) ''contract_revision'' = JInt contract_revision) \<and>
      dict_get (ev_payload e) ''accepted_check_ids'' = str_list check_ids \<and>
      dict_get (ev_payload e) ''spec_hash'' = spec_hash)"

definition has_recent_plan_approval ::
  "(event list \<Rightarrow> event) \<Rightarrow> store \<Rightarrow> string \<Rightarrow> int \<Rightarrow> string list \<Rightarrow> json \<Rightarrow> int \<Rightarrow> bool" where
  "has_recent_plan_approval pick s contract_id contract_revision check_ids spec_hash now =
     (case newest pick (gate_verdicts s contract_id now) of
        None \<Rightarrow> False
      | Some e \<Rightarrow> ev_type e = PLAN_APPROVED \<and> approval_binds e contract_revision check_ids spec_hash)"

definition plan_gate_required :: "contract_view \<Rightarrow> bool" where
  "plan_gate_required v = (dict_get (cd_context (cv_draft v)) ''gate'' = JStr ''plan'')"

section \<open>Dispatching\<close>

text \<open>The first free id: the prefix, then \<open>-1\<close>, \<open>-2\<close> and so on.\<close>

fun free_id :: "string list \<Rightarrow> string \<Rightarrow> nat \<Rightarrow> string \<Rightarrow> nat \<Rightarrow> string option" where
  "free_id taken prefix 0 attempt_id n = None"
| "free_id taken prefix (Suc fuel) attempt_id n =
     (if attempt_id \<notin> set taken then Some attempt_id
      else free_id taken prefix fuel (prefix @ ''-'' @ int_str (int n)) (Suc n))"

definition new_attempt_id :: "store \<Rightarrow> string \<Rightarrow> string option" where
  "new_attempt_id s prefix = (let taken = map fst (st_attempts s) in free_id taken prefix (length taken + 2) prefix 1)"

record dispatch_call =
  dp_contract :: contract_view
  dp_candidates :: "registry_entry list"
  dp_now :: int
  dp_tier :: urgency_tier
  dp_seq :: string

record started_attempt =
  sd_contract :: string
  sd_attempt :: string
  sd_executor :: string
  sd_model :: string

definition refusal :: "dispatch_call \<Rightarrow> dict \<Rightarrow> store \<Rightarrow> store" where
  "refusal c payload s = snd (log_event ((event_call (Some (cv_contract_id (dp_contract c))) ''dispatch/refused'' payload (dp_now c))
     \<lparr>ne_goal := Some (cv_goal_id (dp_contract c)), ne_revision := Some (cv_revision (dp_contract c)), ne_role := Some ''promoter''\<rparr>) s)"

definition refuse_executor :: "dispatch_call \<Rightarrow> registry_entry \<Rightarrow> string \<Rightarrow> store \<Rightarrow> store" where
  "refuse_executor c e reason = refusal c [(''executor_id'', JStr (rg_id e)), (''reason'', JStr reason)]"

definition claim_lease :: "dispatch_call \<Rightarrow> registry_entry \<Rightarrow> string \<Rightarrow> lease option \<Rightarrow> store \<Rightarrow> store_error + lease \<times> store" where
  "claim_lease c e attempt_id active_lease s =
     (let v = dp_contract c;
          call = \<lparr>lc_contract = cv_contract_id v, lc_partition = None, lc_holder = Some attempt_id,
            lc_generation = (case active_lease of None \<Rightarrow> 0 | Some l \<Rightarrow> le_generation l), lc_now = dp_now c,
            lc_timeout = bu_max_attempt_minutes (cd_budget (cv_draft v)) * MINUTE, lc_request = None, lc_actor = ''daemon'',
            lc_reason = ''heartbeat timeout before redispatch'',
            lc_payload = [(''executor_id'', JStr (rg_id e)), (''model'', JStr (effective_model e)), (''urgency_tier'', JInt (tier_int (dp_tier c)))],
            lc_schema = 2, lc_role = Some ''promoter'', lc_revision = Some (cv_revision v)\<rparr> in
      if active_lease \<noteq> None then reclaim_lease call s else acquire_lease call s)"

definition start_event :: "dispatch_call \<Rightarrow> registry_entry \<Rightarrow> string \<Rightarrow> new_event" where
  "start_event c e attempt_id = (event_call (Some (cv_contract_id (dp_contract c))) ATTEMPT_STARTED
     [(''executor_id'', JStr (rg_id e)), (''model'', JStr (effective_model e)), (''tier'', JInt (tier_int (dp_tier c))),
      (''role'', JStr ''executor''), (''contract_revision'', JInt (cv_revision (dp_contract c)))] (dp_now c))
     \<lparr>ne_attempt := Some attempt_id, ne_goal := Some (cv_goal_id (dp_contract c)), ne_revision := Some (cv_revision (dp_contract c)),
      ne_role := Some ''executor''\<rparr>"

definition admitted_record :: "dispatch_call \<Rightarrow> registry_entry \<Rightarrow> string \<Rightarrow> attempt_record" where
  "admitted_record c e attempt_id = \<lparr>ra_goal = cv_goal_id (dp_contract c), ra_contract = Some (cv_contract_id (dp_contract c)),
     ra_attempt = attempt_id, ra_revision = cv_revision (dp_contract c), ra_role = ''executor'', ra_executor = Some (rg_id e),
     ra_model = Some (effective_model e), ra_state = ''admitted'', ra_admitted = dp_now c, ra_started = None, ra_terminal = None,
     ra_return_code = None, ra_error_class = None, ra_payload = [], ra_updated = dp_now c\<rparr>"

fun try_candidates ::
  "(registry_entry \<Rightarrow> (string \<Rightarrow> string option) option) \<Rightarrow> dispatch_call \<Rightarrow> string \<Rightarrow> lease option \<Rightarrow> registry_entry list \<Rightarrow> store \<Rightarrow>
     store_error + started_attempt option \<times> store" where
  "try_candidates factory c attempt_id active_lease [] s = Inr (None, s)"
| "try_candidates factory c attempt_id active_lease (e # es) s = (case factory e of
     None \<Rightarrow> try_candidates factory c attempt_id active_lease es (refuse_executor c e ''no adapter for this kind'' s)
   | Some prepare \<Rightarrow>
       (case prepare attempt_id of
          Some reason \<Rightarrow> try_candidates factory c attempt_id active_lease es (refuse_executor c e reason s)
        | None \<Rightarrow>
            sbind (claim_lease c e attempt_id active_lease s) (\<lambda>(l, s1).
            Inr (Some \<lparr>sd_contract = cv_contract_id (dp_contract c), sd_attempt = attempt_id, sd_executor = rg_id e,
                   sd_model = effective_model e\<rparr>,
                 record_attempt (admitted_record c e attempt_id) (snd (log_event (start_event c e attempt_id) s1))))))"

definition dispatch_attempt ::
  "(event list \<Rightarrow> event) \<Rightarrow> (int \<Rightarrow> string) \<Rightarrow> (registry_entry \<Rightarrow> (string \<Rightarrow> string option) option) \<Rightarrow> dispatch_call \<Rightarrow> store \<Rightarrow>
     store_error + started_attempt option \<times> store" where
  "dispatch_attempt pick stamp factory c s =
     (let v = dp_contract c; cid = cv_contract_id v in
      if plan_gate_required v \<and> \<not> has_recent_plan_approval pick s cid (cv_revision v) (extract_check_identifiers (cv_draft v))
           (ac_spec_hash (cd_acceptance (cv_draft v))) (dp_now c)
      then Inr (None, refusal c [(''reason'', JStr ''plan gate: no recent PLAN_APPROVED event''), (''gate'', JStr ''plan'')] s)
      else (case new_attempt_id s (''att-'' @ stamp (dp_now c) @ ''-'' @ dp_seq c) of
          None \<Rightarrow> Inr (None, s)
        | Some attempt_id \<Rightarrow> try_candidates factory c attempt_id (get_lease s cid None) (dp_candidates c) s))"

section \<open>Fresh attempt ids\<close>

lemma digits_of_not_Nil [simp]: "digits_of n \<noteq> []"
  by (subst digits_of.simps) simp

lemma digit_char_inj: "a < 10 \<Longrightarrow> b < 10 \<Longrightarrow> (char_of (48 + a :: nat) :: char) = char_of (48 + b) \<Longrightarrow> a = b"
  by (drule arg_cong [of _ _ "of_char :: char \<Rightarrow> nat"]) simp

lemma digits_of_inj: "digits_of m = digits_of n \<Longrightarrow> m = n"
proof (induction m arbitrary: n rule: digits_of.induct)
  case (1 m)
  have last: "last (digits_of k) = char_of (48 + k mod 10)" and front: "butlast (digits_of k) = (if k < 10 then [] else digits_of (k div 10))" for k
    by (subst digits_of.simps, simp)+
  have "m mod 10 = n mod 10"
    using "1.prems" last [of m] last [of n] digit_char_inj [of "m mod 10" "n mod 10"] by simp
  moreover have "m div 10 = n div 10"
  proof (cases "m < 10")
    case True
    then have "butlast (digits_of n) = []" using "1.prems" front [of m] by simp
    then show ?thesis using front [of n] True by (auto split: if_splits)
  next
    case False
    then have "butlast (digits_of n) = digits_of (m div 10)" using "1.prems" front [of m] by simp
    then have "digits_of (m div 10) = digits_of (n div 10)" using front [of n] digits_of_not_Nil by metis
    then show ?thesis using "1.IH" False by simp
  qed
  ultimately show ?case by (metis div_mult_mod_eq)
qed

definition id_at :: "string \<Rightarrow> nat \<Rightarrow> string" where
  "id_at prefix n = prefix @ ''-'' @ int_str (int n)"

lemma id_at_inj: "id_at prefix m = id_at prefix n \<Longrightarrow> m = n"
  by (simp add: id_at_def int_str_def digits_of_inj)

lemma free_id_fresh: "free_id taken prefix fuel i n = Some j \<Longrightarrow> j \<notin> set taken"
  by (induction fuel arbitrary: i n) (auto split: if_splits)

lemma free_id_finds: "id_at prefix m \<notin> set taken \<Longrightarrow> n \<le> m \<Longrightarrow> m < n + fuel \<Longrightarrow> \<exists>j. free_id taken prefix (Suc fuel) i n = Some j"
proof (induction fuel arbitrary: i n)
  case (Suc fuel)
  show ?case
  proof (cases "i \<in> set taken")
    case True
    have step: "free_id taken prefix (Suc (Suc fuel)) i n = free_id taken prefix (Suc fuel) (id_at prefix n) (Suc n)"
      using True by (simp add: id_at_def)
    show ?thesis
    proof (cases "m = n")
      case True
      then show ?thesis unfolding step using Suc.prems(1) by simp
    next
      case False
      then show ?thesis unfolding step using Suc by simp
    qed
  qed simp
qed simp

lemma some_id_is_free: "\<exists>m. 1 \<le> m \<and> m < length taken + 2 \<and> id_at prefix m \<notin> set taken"
proof (rule ccontr)
  assume "\<nexists>m. 1 \<le> m \<and> m < length taken + 2 \<and> id_at prefix m \<notin> set taken"
  then have "id_at prefix ` {1..<length taken + 2} \<subseteq> set taken" by auto
  then have "card (id_at prefix ` {1..<length taken + 2}) \<le> length taken"
    by (meson card_length card_mono finite_set le_trans)
  moreover have "card (id_at prefix ` {1..<length taken + 2}) = length taken + 1"
    by (simp add: card_image inj_on_def id_at_inj)
  ultimately show False by simp
qed

lemma new_attempt_id_exists: "\<exists>i. new_attempt_id s prefix = Some i \<and> get_attempt s i = None"
proof -
  obtain m where "1 \<le> m" "m < length (map fst (st_attempts s)) + 2" "id_at prefix m \<notin> set (map fst (st_attempts s))"
    using some_id_is_free by blast
  then obtain i where "free_id (map fst (st_attempts s)) prefix (Suc (length (map fst (st_attempts s)) + 1)) prefix 1 = Some i"
    using free_id_finds [of prefix m "map fst (st_attempts s)" 1 "length (map fst (st_attempts s)) + 1" prefix] by auto
  moreover have "length taken + 2 = Suc (length taken + 1)" for taken :: "string list" by simp
  ultimately have i: "new_attempt_id s prefix = Some i" by (simp only: new_attempt_id_def Let_def)
  moreover have "i \<notin> set (map fst (st_attempts s))" using i free_id_fresh unfolding new_attempt_id_def Let_def by blast
  ultimately show ?thesis by (auto simp: get_attempt_def map_of_eq_None_iff)
qed

text \<open>
  C39: The search for an attempt id ends. Some id among the first as many as there are attempts, plus one, is free, so that dispatching
  always has an id for its attempt, and never one that is in use.
\<close>

theorem attempt_id_search_ends: "\<exists>i. new_attempt_id s prefix = Some i \<and> get_attempt s i = None"
  by (rule new_attempt_id_exists)

section \<open>Facts\<close>

definition only_logged :: "store \<Rightarrow> store \<Rightarrow> bool" where
  "only_logged s s' \<longleftrightarrow> (\<exists>l. s' = s\<lparr>st_log := l\<rparr>)"

lemma only_logged_refl [simp]: "only_logged s s"
  by (auto simp: only_logged_def intro!: exI [of _ "st_log s"])

lemma only_logged_trans: "only_logged s t \<Longrightarrow> only_logged t u \<Longrightarrow> only_logged s u"
  by (auto simp: only_logged_def)

lemma refusal_logged [simp]: "only_logged s (refusal c p s)" "only_logged s (refuse_executor c e t s)"
  by (auto simp: only_logged_def refusal_def refuse_executor_def log_event_pair)

lemma only_logged_frame:
  assumes "only_logged s s'"
  shows "st_leases s' = st_leases s" "st_attempts s' = st_attempts s" "st_contracts s' = st_contracts s" "get_attempt s' i = get_attempt s i"
    "get_lease s' cid p = get_lease s cid p"
  using assms by (auto simp: only_logged_def get_attempt_def get_lease_def)

lemma try_candidates_cases:
  assumes "try_candidates factory c i l es s = Inr (r, s')"
  obtains (refused) "r = None" and "only_logged s s'"
  | (started) e prep s0 l' s1 where "e \<in> set es" and "factory e = Some prep" and "prep i = None" and "only_logged s s0"
      and "claim_lease c e i l s0 = Inr (l', s1)"
      and "r = Some \<lparr>sd_contract = cv_contract_id (dp_contract c), sd_attempt = i, sd_executor = rg_id e, sd_model = effective_model e\<rparr>"
      and "s' = record_attempt (admitted_record c e i) (snd (log_event (start_event c e i) s1))"
  using assms
proof (induction es arbitrary: s thesis)
  case (Cons e es)
  have skip: thesis if "try_candidates factory c i l es (refuse_executor c e t s) = Inr (r, s')" for t
  proof (rule Cons.IH [OF _ _ that])
    assume "r = None" "only_logged (refuse_executor c e t s) s'"
    then show thesis using Cons.prems(1) only_logged_trans refusal_logged(2) by blast
  next
    fix e' prep s0 l' s1
    assume "e' \<in> set es" "factory e' = Some prep" "prep i = None" "only_logged (refuse_executor c e t s) s0"
      "claim_lease c e' i l s0 = Inr (l', s1)"
      "r = Some \<lparr>sd_contract = cv_contract_id (dp_contract c), sd_attempt = i, sd_executor = rg_id e', sd_model = effective_model e'\<rparr>"
      "s' = record_attempt (admitted_record c e' i) (snd (log_event (start_event c e' i) s1))"
    then show thesis using Cons.prems(2) [of e' prep s0 l' s1] only_logged_trans [OF refusal_logged(2)] by simp
  qed
  show ?case
  proof (cases "factory e")
    case None
    then show ?thesis using skip Cons.prems(3) by simp
  next
    case (Some prep)
    show ?thesis
    proof (cases "prep i")
      case None
      then show ?thesis using Some Cons.prems(2) [of e prep s] Cons.prems(3) by (auto simp: res_simps)
    next
      case (Some t)
      then show ?thesis using \<open>factory e = Some prep\<close> skip Cons.prems(3) by simp
    qed
  qed
qed auto

text \<open>Taking the lease: of a contract without one at generation one, else from its holder at the next generation.\<close>

lemma claim_lease_Inr:
  assumes "claim_lease c e i (get_lease s (cv_contract_id (dp_contract c)) None) s0 = Inr (l', s1)" and "only_logged s s0"
  shows "le_holder l' = i \<and> le_generation l' = (case get_lease s (cv_contract_id (dp_contract c)) None of None \<Rightarrow> 1 | Some l \<Rightarrow> le_generation l + 1) \<and>
    get_lease s1 (cv_contract_id (dp_contract c)) None = Some l' \<and> st_attempts s1 = st_attempts s \<and> st_contracts s1 = st_contracts s"
proof -
  let ?cid = "cv_contract_id (dp_contract c)"
  define call where "call = \<lparr>lc_contract = ?cid, lc_partition = None, lc_holder = Some i,
     lc_generation = (case get_lease s ?cid None of None \<Rightarrow> 0 | Some l \<Rightarrow> le_generation l), lc_now = dp_now c,
     lc_timeout = bu_max_attempt_minutes (cd_budget (cv_draft (dp_contract c))) * MINUTE, lc_request = None, lc_actor = ''daemon'',
     lc_reason = ''heartbeat timeout before redispatch'',
     lc_payload = [(''executor_id'', JStr (rg_id e)), (''model'', JStr (effective_model e)), (''urgency_tier'', JInt (tier_int (dp_tier c)))],
     lc_schema = 2, lc_role = Some ''promoter'', lc_revision = Some (cv_revision (dp_contract c))\<rparr>"
  have call: "lc_holder call = Some i" "lease_key call = (?cid, [])" "replayed_lease call s0 = None"
    "lc_generation call = (case get_lease s ?cid None of None \<Rightarrow> 0 | Some l \<Rightarrow> le_generation l)"
    by (simp_all add: call_def lease_key_def partition_key_def replayed_lease_def)
  have frame: "map_of (st_leases s0) (?cid, []) = get_lease s ?cid None" "st_attempts s0 = st_attempts s" "st_contracts s0 = st_contracts s"
    using only_logged_frame [OF assms(2)] by (simp_all add: get_lease_def partition_key_def)
  have w: "le_holder l' = i \<and> le_generation l' = lc_generation call + 1 \<and> (\<exists>t. lease_write call (Some l') t s0 s1)"
  proof (cases "get_lease s ?cid None")
    case None
    then have "acquire_lease call s0 = Inr (l', s1)" using assms(1) by (simp add: claim_lease_def Let_def call_def)
    then show ?thesis by (cases rule: acquire_lease_cases) (auto simp: call)
  next
    case (Some l)
    then have "reclaim_lease call s0 = Inr (l', s1)" using assms(1) by (simp add: claim_lease_def Let_def call_def)
    then show ?thesis by (cases rule: reclaim_lease_cases) (auto simp: call)
  qed
  then show ?thesis using frame
    by (auto simp: lease_write_def call get_lease_plain split: option.split)
qed

lemma dispatch_attempt_cases:
  assumes "dispatch_attempt pick stamp factory c s = Inr (r, s')"
  obtains (gated) "r = None" and "only_logged s s'" and "plan_gate_required (dp_contract c)"
  | (tried) i where "get_attempt s i = None"
      and "plan_gate_required (dp_contract c) \<longrightarrow> has_recent_plan_approval pick s (cv_contract_id (dp_contract c)) (cv_revision (dp_contract c))
         (extract_check_identifiers (cv_draft (dp_contract c))) (ac_spec_hash (cd_acceptance (cv_draft (dp_contract c)))) (dp_now c)"
      and "try_candidates factory c i (get_lease s (cv_contract_id (dp_contract c)) None) (dp_candidates c) s = Inr (r, s')"
proof -
  obtain i where "new_attempt_id s (''att-'' @ stamp (dp_now c) @ ''-'' @ dp_seq c) = Some i" "get_attempt s i = None"
    using new_attempt_id_exists by blast
  then show thesis using assms gated tried unfolding dispatch_attempt_def Let_def by (auto split: if_splits)
qed

lemma record_attempt_new:
  assumes "get_attempt s (ra_attempt c) = None"
  shows "st_attempts (record_attempt c s) = st_attempts s @ [(ra_attempt c, new_attempt c)]"
proof -
  have "put k v t = t @ [(k, v)]" if "map_of t k = None" for k v and t :: "(string \<times> attempt) list"
    using that by (induction t) (auto split: if_splits)
  then show ?thesis using assms by (simp add: record_attempt_def get_attempt_def)
qed

section \<open>Properties\<close>

text \<open>
  C5: A dispatch hands the contract over completely. When it starts an attempt, the attempt has an id that was free, runs on one of the candidates
  whose probe accepted, is recorded as admitted at the revision of the contract and holds the lease of the contract one generation above
  the last; no other attempt and no contract is changed.
\<close>

theorem dispatch_hands_over:
  assumes "dispatch_attempt pick stamp factory c s = Inr (Some st, s')"
  shows "get_attempt s (sd_attempt st) = None \<and>
    (\<exists>e \<in> set (dp_candidates c). rg_id e = sd_executor st \<and> (\<exists>prep. factory e = Some prep \<and> prep (sd_attempt st) = None)) \<and>
    (\<exists>a. get_attempt s' (sd_attempt st) = Some a \<and> sa_state a = ''admitted'' \<and> sa_executor a = Some (sd_executor st) \<and>
       sa_contract a = Some (cv_contract_id (dp_contract c)) \<and> sa_revision a = cv_revision (dp_contract c)) \<and>
    (\<exists>l. get_lease s' (cv_contract_id (dp_contract c)) None = Some l \<and> le_holder l = sd_attempt st \<and>
       le_generation l = (case get_lease s (cv_contract_id (dp_contract c)) None of None \<Rightarrow> 1 | Some l0 \<Rightarrow> le_generation l0 + 1)) \<and>
    (\<forall>j. j \<noteq> sd_attempt st \<longrightarrow> get_attempt s' j = get_attempt s j) \<and> st_contracts s' = st_contracts s"
  using assms
proof (cases rule: dispatch_attempt_cases)
  case (tried i)
  from tried(3) show ?thesis
  proof (cases rule: try_candidates_cases)
    case (started e prep s0 l' s1)
    note taken = claim_lease_Inr [OF started(5,4)]
    have new: "get_attempt s1 i = None" using tried(1) taken by (simp add: get_attempt_def)
    have st: "sd_attempt st = i" "sd_executor st = rg_id e" using started(6) by simp_all
    have s': "st_attempts s' = st_attempts s @ [(i, new_attempt (admitted_record c e i))]" "st_contracts s' = st_contracts s"
      "get_lease s' cid p = get_lease s1 cid p" for cid p
      using record_attempt_new [of "snd (log_event (start_event c e i) s1)" "admitted_record c e i"] new taken
      by (simp_all add: started(7) record_attempt_def get_lease_def get_attempt_def admitted_record_def)
    have "get_attempt s' i = Some (new_attempt (admitted_record c e i))" using tried(1) by (simp add: get_attempt_def s' map_add_def)
    moreover have "get_attempt s' j = get_attempt s j" if "j \<noteq> i" for j using that by (simp add: get_attempt_def s' map_add_def split: option.split)
    ultimately show ?thesis using tried(1) started taken s'
      by (auto simp: st new_attempt_def admitted_record_def)
  qed simp
qed simp

text \<open>
  C17: The plan gate cannot be passed by. A contract that asks for the gate is only started when the newest verdict on its plan in the last
  day is an approval bound to the revision, the acceptance checks and the specification the contract has now.
\<close>

theorem plan_gate_holds:
  assumes "dispatch_attempt pick stamp factory c s = Inr (Some st, s')" and "dict_get (cd_context (cv_draft (dp_contract c))) ''gate'' = JStr ''plan''"
  shows "\<exists>e. newest pick (gate_verdicts s (cv_contract_id (dp_contract c)) (dp_now c)) = Some e \<and> ev_type e = PLAN_APPROVED \<and>
    (case ev_revision e of Some r \<Rightarrow> r = cv_revision (dp_contract c)
       | None \<Rightarrow> dict_get (ev_payload e) ''contract_revision'' = JInt (cv_revision (dp_contract c))) \<and>
    dict_get (ev_payload e) ''accepted_check_ids'' = str_list (extract_check_identifiers (cv_draft (dp_contract c))) \<and>
    dict_get (ev_payload e) ''spec_hash'' = ac_spec_hash (cd_acceptance (cv_draft (dp_contract c)))"
  using assms(1)
proof (cases rule: dispatch_attempt_cases)
  case (tried i)
  then show ?thesis using assms(2)
    by (auto simp: plan_gate_required_def has_recent_plan_approval_def approval_binds_def split: option.splits)
qed simp

text \<open>A dispatch that starts nothing leaves everything but the log as it was.\<close>

lemma refused_dispatch_only_logs:
  assumes "dispatch_attempt pick stamp factory c s = Inr (None, s')"
  shows "only_logged s s'"
  using assms
proof (cases rule: dispatch_attempt_cases)
  case (tried i)
  from tried(3) show ?thesis by (cases rule: try_candidates_cases) auto
qed

text \<open>The count by executor is the number of attempts in flight.\<close>

lemma count_running_lookup:
  "(case map_of (count_running_by_executor s) x of None \<Rightarrow> 0 | Some n \<Rightarrow> n) = int (length (in_flight s x))"
proof -
  let ?xs = "remdups (concat (map (\<lambda>a. case sa_executor a of Some e \<Rightarrow>
     if sa_state a \<in> state_texts ATTEMPT_NON_TERMINAL_STATES then [e] else [] | None \<Rightarrow> []) (map snd (st_attempts s))))"
  have "map_of (map (\<lambda>e. (e, int (length (in_flight s e)))) ys) x = (if x \<in> set ys then Some (int (length (in_flight s x))) else None)" for ys
    by (induction ys) auto
  moreover have "in_flight s x = []" if "x \<notin> set ?xs"
    using that by (force simp: in_flight_def filter_empty_conv split: option.splits if_splits)
  ultimately show ?thesis by (auto simp: count_running_by_executor_def)
qed

text \<open>
  No executor is oversubscribed. When the candidates of a dispatch were matched against the attempts in flight, then after the dispatch the
  executor that got the contract runs at most as many attempts as its limit allows.
\<close>

theorem dispatch_respects_limits:
  assumes "dispatch_attempt pick stamp factory c s = Inr (Some st, s')" and "distinct (map snd r)"
    and "match_candidates rp r (DraftSource (cv_draft (dp_contract c))) (count_running_by_executor s) ''executor'' = Inr (dp_candidates c)"
  shows "\<exists>e \<in> snd ` set r. rg_id e = sd_executor st \<and> rg_enabled e \<and> int (length (in_flight s' (rg_id e))) \<le> max_concurrent e"
  using assms(1)
proof (cases rule: dispatch_attempt_cases)
  case (tried i)
  from tried(3) show ?thesis
  proof (cases rule: try_candidates_cases)
    case (started e prep s0 l' s1)
    obtain cs' where f: "filter_candidates (candidate_ok rp (DraftSource (cv_draft (dp_contract c))) (count_running_by_executor s) ''executor''
        (draft_bounds (cd_authority (cv_draft (dp_contract c))))) (map snd r) = Inr cs'"
        "dp_candidates c = sort_key (dispatch_key (count_running_by_executor s)) cs'"
      using assms(3) by (auto simp: match_candidates_def authority_bindings_draft res_simps)
    then have e: "e \<in> snd ` set r" "rg_enabled e" "running_of (count_running_by_executor s) e < max_concurrent e"
      using filter_candidates_Inr [OF f(1)] started(1) by (auto simp: candidate_ok_True)
    note taken = claim_lease_Inr [OF started(5,4)]
    have "get_attempt s1 i = None" using tried(1) taken by (simp add: get_attempt_def)
    then have "st_attempts s' = st_attempts s @ [(i, new_attempt (admitted_record c e i))]"
      using record_attempt_new [of "snd (log_event (start_event c e i) s1)" "admitted_record c e i"] taken
      by (simp add: started(7) get_attempt_def admitted_record_def)
    then have "length (in_flight s' (rg_id e)) \<le> length (in_flight s (rg_id e)) + 1" by (simp add: in_flight_def)
    moreover have "int (length (in_flight s (rg_id e))) < max_concurrent e"
      using e(3) by (simp add: running_of_def count_running_lookup)
    ultimately show ?thesis using e(1,2) started(6) by auto
  qed simp
qed simp

lemma claim_lease_ok:
  assumes "get_lease s (cv_contract_id (dp_contract c)) None = Some l"
  shows "\<exists>l' s1. claim_lease c e i (Some l) s = Inr (l', s1)"
  using assms
  by (simp add: claim_lease_def Let_def reclaim_lease_def replayed_lease_def write_lease_def finish_lease_def lease_key_def get_lease_def
      partition_key_def)

definition sample_dispatch :: dispatch_call where
  "sample_dispatch = \<lparr>dp_contract = sample_view\<lparr>cv_draft := sample_contract_draft\<lparr>cd_authority := sample_authority\<rparr>\<rparr>,
     dp_candidates = [sample_entry ''b'' HighCost [''m'']], dp_now = 30, dp_tier = Respawn, dp_seq = ''0001''\<rparr>"

lemma sample_dispatch_runs:
  "\<exists>st s'. dispatch_attempt hd (\<lambda>t. ''T'') (\<lambda>e. Some (\<lambda>i. None)) sample_dispatch leased_store = Inr (Some st, s') \<and> sd_executor st = ''b''"
proof -
  have "\<not> plan_gate_required (dp_contract sample_dispatch)"
    by (simp add: plan_gate_required_def sample_dispatch_def sample_contract_draft_def dict_get_def)
  moreover have "new_attempt_id leased_store p = Some p" for p
    by (simp add: new_attempt_id_def leased_store_def empty_store_def Let_def numeral_2_eq_2)
  moreover have f: "cv_contract_id (dp_contract sample_dispatch) = ''c1''" "dp_candidates sample_dispatch = [sample_entry ''b'' HighCost [''m'']]"
    by (simp_all add: sample_dispatch_def sample_view_def)
  moreover obtain l s1 where "claim_lease sample_dispatch (sample_entry ''b'' HighCost [''m'']) (''att-'' @ ''T'' @ ''-'' @ dp_seq sample_dispatch)
      (Some (lease_row (sample_call ''a'' 1 ''r1'') ''a'' 2)) leased_store = Inr (l, s1)"
    using claim_lease_ok [of leased_store sample_dispatch] by (fastforce simp: f leased_lease)
  moreover have "rg_id (sample_entry ''b'' HighCost [''m'']) = ''b''" by (simp add: sample_entry_def)
  ultimately show ?thesis by (simp add: dispatch_attempt_def Let_def leased_lease)
qed

theorem dispatch_hands_over_witness:
  "\<exists>st s' l. dispatch_attempt hd (\<lambda>t. ''T'') (\<lambda>e. Some (\<lambda>i. None)) sample_dispatch leased_store = Inr (Some st, s') \<and>
     get_lease s' ''c1'' None = Some l \<and> le_generation l = 3 \<and> le_holder l = sd_attempt st"
proof -
  obtain st s' where d: "dispatch_attempt hd (\<lambda>t. ''T'') (\<lambda>e. Some (\<lambda>i. None)) sample_dispatch leased_store = Inr (Some st, s')"
    using sample_dispatch_runs by blast
  from dispatch_hands_over [OF d] d show ?thesis by (auto simp: sample_dispatch_def sample_view_def leased_lease)
qed

theorem dispatch_respects_limits_witness:
  "\<exists>st s'. dispatch_attempt hd (\<lambda>t. ''T'') (\<lambda>e. Some (\<lambda>i. None)) sample_dispatch leased_store = Inr (Some st, s') \<and>
     length (in_flight s' ''b'') \<le> 1"
proof -
  obtain st s' where d: "dispatch_attempt hd (\<lambda>t. ''T'') (\<lambda>e. Some (\<lambda>i. None)) sample_dispatch leased_store = Inr (Some st, s')" "sd_executor st = ''b''"
    using sample_dispatch_runs by blast
  have o': "models_overlap [''m''] [''m'']" by (simp add: models_overlap_def)
  have "count_running_by_executor leased_store = []" by (simp add: count_running_by_executor_def leased_store_def empty_store_def)
  then have m: "match_candidates sample_repr [(''a'', sample_entry ''a'' LowCost [''m'']), (''b'', sample_entry ''b'' HighCost [''m''])]
     (DraftSource (cv_draft (dp_contract sample_dispatch))) (count_running_by_executor leased_store) ''executor'' = Inr (dp_candidates sample_dispatch)"
    by (simp add: sample_dispatch_def sample_match o')
  have l: "max_concurrent (sample_entry i k ms) = 1" "rg_id (sample_entry i k ms) = i" for i k ms
    by (simp_all add: sample_entry_def max_concurrent_def)
  have "sample_entry ''a'' LowCost [''m''] \<noteq> sample_entry ''b'' HighCost [''m'']" by (simp add: sample_entry_def)
  then show ?thesis using dispatch_respects_limits [OF d(1) _ m] d by (auto simp: l)
qed

definition gated_dispatch :: dispatch_call where
  "gated_dispatch = sample_dispatch\<lparr>dp_contract := (dp_contract sample_dispatch)\<lparr>cv_draft :=
     cv_draft (dp_contract sample_dispatch)\<lparr>cd_context := [(''gate'', JStr ''plan'')]\<rparr>\<rparr>\<rparr>"

definition approved_store :: store where
  "approved_store = snd (log_event ((event_call (Some ''c1'') PLAN_APPROVED
     [(''accepted_check_ids'', str_list (extract_check_identifiers (cv_draft (dp_contract gated_dispatch)))),
      (''spec_hash'', ac_spec_hash (cd_acceptance (cv_draft (dp_contract gated_dispatch))))] 20)
     \<lparr>ne_revision := Some (cv_revision sample_view)\<rparr>) leased_store)"

theorem plan_gate_holds_witness:
  "\<exists>st s' e. dispatch_attempt hd (\<lambda>t. ''T'') (\<lambda>e. Some (\<lambda>i. None)) gated_dispatch approved_store = Inr (Some st, s') \<and>
     newest hd (gate_verdicts approved_store ''c1'' 30) = Some e \<and> ev_type e = PLAN_APPROVED"
proof -
  have f: "cv_contract_id (dp_contract gated_dispatch) = ''c1''" "dp_candidates gated_dispatch = [sample_entry ''b'' HighCost [''m'']]"
      "dp_now gated_dispatch = 30" "cv_revision (dp_contract gated_dispatch) = cv_revision sample_view"
      and gate: "dict_get (cd_context (cv_draft (dp_contract gated_dispatch))) ''gate'' = JStr ''plan''"
    by (simp_all add: gated_dispatch_def sample_dispatch_def sample_view_def dict_get_def)
  have rows: "el_rows (st_log leased_store) = []" by (simp add: leased_store_def empty_store_def empty_log_def)
  have lease: "get_lease approved_store c p = get_lease leased_store c p" and att: "st_attempts approved_store = st_attempts leased_store" for c p
    by (simp_all add: approved_store_def log_event_def get_lease_def split_beta)
  have appr: "has_recent_plan_approval hd approved_store ''c1'' (cv_revision sample_view) (extract_check_identifiers (cv_draft (dp_contract gated_dispatch)))
      (ac_spec_hash (cd_acceptance (cv_draft (dp_contract gated_dispatch)))) 30"
    by (simp add: has_recent_plan_approval_def gate_verdicts_def newest_def approved_store_def log_event_def append_event_def rows stored_event_def
        event_call_def approval_binds_def dict_get_def PLAN_GATE_LOOKBACK_SECONDS_def SECOND_def Let_def)
  have "new_attempt_id approved_store p = Some p" for p
    by (simp add: new_attempt_id_def att leased_store_def empty_store_def Let_def numeral_2_eq_2)
  moreover obtain l s1 where "claim_lease gated_dispatch (sample_entry ''b'' HighCost [''m'']) (''att-'' @ ''T'' @ ''-'' @ dp_seq gated_dispatch)
      (Some (lease_row (sample_call ''a'' 1 ''r1'') ''a'' 2)) approved_store = Inr (l, s1)"
    using claim_lease_ok [of approved_store gated_dispatch] by (fastforce simp: f lease leased_lease)
  ultimately have "\<exists>st s'. dispatch_attempt hd (\<lambda>t. ''T'') (\<lambda>e. Some (\<lambda>i. None)) gated_dispatch approved_store = Inr (Some st, s')"
    by (simp add: dispatch_attempt_def Let_def f lease leased_lease appr [simplified])
  then show ?thesis using plan_gate_holds [OF _ gate] by (fastforce simp: f)
qed
end
