(* ===== verification/Scheduling.thy ===== *)
theory Scheduling
  imports Dispatch
begin

text \<open>
  The clocks and books of the scheduler: \<open>lhgp/scheduler/ticker.py\<close> (the scan of the contract clocks),
  \<open>lhgp/persistence/decisions.py\<close> (the next decision time of a contract), \<open>lhgp/persistence/usage.py\<close> (the cost ledger),
  \<open>lhgp/forecast/model.py\<close> (the deadline snapshot) and the pure timing functions of \<open>longtask/cli/tick.py\<close>: the dispatch
  window and the next decision time. The zone of the machine is the parameter \<open>off\<close>: the offset of the wall clock at an instant.
\<close>

section \<open>The ticker\<close>

record contract_clock =
  ck_deadline :: int
  ck_next_wakeup :: int
  ck_arbitrated :: "int option"

datatype tick_signal = Promote string | ClockExpired string

definition is_overdue :: "contract_clock \<Rightarrow> int \<Rightarrow> bool" where
  "is_overdue c now = (ck_deadline c < now)"

definition next_wakeup :: "contract_clock \<Rightarrow> int" where
  "next_wakeup c = ck_next_wakeup c"

text \<open>One pass: the signals in order, and the entries.\<close>

fun run_tick :: "int \<Rightarrow> (string \<times> contract_clock) list \<Rightarrow> tick_signal list \<times> (string \<times> contract_clock) list" where
  "run_tick now [] = ([], [])"
| "run_tick now ((i, c) # es) =
     (let (signals, rest) = run_tick now es in
      if \<not> is_overdue c now then ((if ck_next_wakeup c \<le> now then [Promote i] else []) @ signals, (i, c) # rest)
      else if ck_arbitrated c = None then (ClockExpired i # signals, (i, c\<lparr>ck_arbitrated := Some now\<rparr>) # rest)
      else (signals, (i, c) # rest))"

section \<open>Next decisions\<close>

record decision_call =
  dc_contract :: string
  dc_when :: int
  dc_now :: int
  dc_reason :: string
  dc_goal :: "string option"
  dc_revision :: "int option"

definition set_next_decision_at :: "(int \<Rightarrow> string) \<Rightarrow> decision_call \<Rightarrow> store \<Rightarrow> bool \<times> store" where
  "set_next_decision_at fmt c s = (case get_contract s (dc_contract c) of
     None \<Rightarrow> (False, s)
   | Some v \<Rightarrow>
       if cv_next_decision_at v = Some (dc_when c) then (False, s)
       else (True, snd (log_event ((event_call (Some (dc_contract c)) NEXT_DECISION_AT_SET
           [(''at'', JStr (fmt (dc_when c))), (''reason'', JStr (dc_reason c))] (dc_now c))
           \<lparr>ne_goal := dc_goal c, ne_revision := dc_revision c, ne_role := Some ''promoter''\<rparr>)
         (s\<lparr>st_contracts := put (dc_contract c) (v\<lparr>cv_next_decision_at := Some (dc_when c), cv_updated_at := dc_now c\<rparr>) (st_contracts s)\<rparr>))))"

definition earliest_next_decision_at :: "contract_state list \<Rightarrow> store \<Rightarrow> int option" where
  "earliest_next_decision_at states s =
     (let times = concat (map (\<lambda>v. case cv_next_decision_at v of None \<Rightarrow> [] | Some t \<Rightarrow> if cv_state v \<in> set states then [t] else [])
        (map snd (st_contracts s))) in
      if times = [] then None else Some (Min (set times)))"

text \<open>A decision with its id, the position of its row; the rows only grow.\<close>

definition list_decisions :: "string \<Rightarrow> int \<Rightarrow> store \<Rightarrow> (nat \<times> decision_row) list" where
  "list_decisions contract_id limit s = sql_limit (max 1 (min limit 200))
     (rev (sort_key (\<lambda>(i, d). (de_recorded_at d, i))
       (filter (\<lambda>(i, d). de_contract d = Some contract_id) (enumerate_from 1 (st_decisions s)))))"

section \<open>The usage ledger\<close>

definition USAGE_INT_FIELDS :: "string list" where
  "USAGE_INT_FIELDS = [''input_tokens'', ''output_tokens'', ''cache_read_tokens'', ''cache_write_tokens'']"

definition USAGE_FIELDS :: "string list" where
  "USAGE_FIELDS = USAGE_INT_FIELDS @ [''cost_estimate'']"

definition usage_int :: "dict \<Rightarrow> string \<Rightarrow> string + json" where
  "usage_int raw field = (case dict_get raw field of
     JNull \<Rightarrow> Inl (''null: '' @ field)
   | JInt i \<Rightarrow> if i < 0 then Inl (''negative: '' @ field) else Inr (JInt i)
   | _ \<Rightarrow> Inl (''not an integer: '' @ field))"

definition usage_float :: "dict \<Rightarrow> string \<Rightarrow> string + json" where
  "usage_float raw field = (case dict_get raw field of
     JInt i \<Rightarrow> if i < 0 then Inl (''negative: '' @ field) else Inr (JFloat (Fin (of_int i)))
   | JFloat x \<Rightarrow> if float_lt x (Fin 0) then Inl (''negative: '' @ field) else Inr (JFloat x)
   | _ \<Rightarrow> Inl (''not a number: '' @ field))"

definition usage_field :: "dict \<Rightarrow> bool \<times> string \<Rightarrow> string + dict" where
  "usage_field raw = (\<lambda>(required, field).
     if required \<or> map_of raw field \<noteq> None
     then sbind (if field = ''cost_estimate'' then usage_float raw field else usage_int raw field) (\<lambda>v. Inr [(field, v)])
     else Inr [])"

text \<open>The fields in the order in which they are checked; \<open>None\<close> means that the write-back carries no usage.\<close>

definition normalize_usage :: "json \<Rightarrow> string + dict" where
  "normalize_usage raw = (case raw of
     JNull \<Rightarrow> Inr []
   | JObj d \<Rightarrow>
       if \<exists>k \<in> set (map fst d). k \<notin> set USAGE_FIELDS then Inl ''unknown fields''
       else sbind (smap (usage_field d) [(True, ''input_tokens''), (True, ''output_tokens''), (False, ''cache_read_tokens''),
              (False, ''cache_write_tokens''), (False, ''cost_estimate'')]) (\<lambda>fs. Inr (concat fs))
   | _ \<Rightarrow> Inl ''usage must be an object'')"

definition cost_of :: "dict \<Rightarrow> pyfloat option" where
  "cost_of usage = (case dict_get usage ''cost_estimate'' of
     JInt i \<Rightarrow> if i < 0 then None else Some (Fin (of_int i))
   | JFloat x \<Rightarrow> if float_lt x (Fin 0) then None else Some x
   | _ \<Rightarrow> None)"

text \<open>The rows as the objects that they hold; a row that holds no object counts as an empty one.\<close>

definition total_cost :: "dict list \<Rightarrow> pyfloat" where
  "total_cost rows = fold (\<lambda>u total. case cost_of u of None \<Rightarrow> total | Some c \<Rightarrow> float_add total c) rows (Fin 0)"

section \<open>Forecasts\<close>

record forecast =
  fo_queue :: "pyfloat option"
  fo_startup :: "pyfloat option"
  fo_remaining :: "pyfloat option"
  fo_verification :: "pyfloat option"
  fo_retry_reserve :: "pyfloat option"
  fo_safety_margin :: "pyfloat option"
  fo_p50 :: "pyfloat option"
  fo_p90 :: "pyfloat option"
  fo_p_finish :: "pyfloat option"

definition forecast_to_dict :: "forecast \<Rightarrow> dict" where
  "forecast_to_dict f = [(''queue_minutes'', jopt JFloat (fo_queue f)), (''startup_minutes'', jopt JFloat (fo_startup f)),
     (''remaining_minutes'', jopt JFloat (fo_remaining f)), (''verification_minutes'', jopt JFloat (fo_verification f)),
     (''retry_reserve_minutes'', jopt JFloat (fo_retry_reserve f)), (''safety_margin_minutes'', jopt JFloat (fo_safety_margin f)),
     (''forecast_p50_minutes'', jopt JFloat (fo_p50 f)), (''forecast_p90_minutes'', jopt JFloat (fo_p90 f)),
     (''p_finish'', jopt JFloat (fo_p_finish f))]"

text \<open>A value that is no finite number is dropped. \<open>float(True)\<close> is excluded first.\<close>

definition opt_float :: "pyhost \<Rightarrow> json \<Rightarrow> pyfloat option" where
  "opt_float h v = (case (case v of JInt i \<Rightarrow> Some (Fin (of_int i)) | JFloat x \<Rightarrow> Some x | JStr t \<Rightarrow> h_float_of h t | _ \<Rightarrow> None) of
     None \<Rightarrow> None | Some x \<Rightarrow> if float_finite x then Some x else None)"

definition forecast_from_dict :: "pyhost \<Rightarrow> dict \<Rightarrow> forecast" where
  "forecast_from_dict h d = (let g = (\<lambda>k. opt_float h (dict_get d k)) in
     \<lparr>fo_queue = g ''queue_minutes'', fo_startup = g ''startup_minutes'', fo_remaining = g ''remaining_minutes'',
      fo_verification = g ''verification_minutes'', fo_retry_reserve = g ''retry_reserve_minutes'',
      fo_safety_margin = g ''safety_margin_minutes'', fo_p50 = g ''forecast_p50_minutes'', fo_p90 = g ''forecast_p90_minutes'',
      fo_p_finish = g ''p_finish''\<rparr>)"

record deadline_snapshot =
  ds_computed_at :: int
  ds_due_at :: int
  ds_forecast :: forecast
  ds_slack_p50 :: "pyfloat option"
  ds_slack_p90 :: "pyfloat option"
  ds_confidence :: string
  ds_level :: string
  ds_risk :: string
  ds_reason :: string
  ds_next_decision :: "int option"
  ds_sample_count :: int
  ds_basis :: string

definition minutes_between :: "int \<Rightarrow> int \<Rightarrow> pyfloat" where
  "minutes_between a b = Fin (of_int (b - a) / of_int MINUTE)"

text \<open>\<open>sum(value or 0.0 for value in ...)\<close>.\<close>

definition fixed_overhead :: "forecast \<Rightarrow> pyfloat" where
  "fixed_overhead f = fold (\<lambda>v acc. float_add acc (case v of None \<Rightarrow> Fin 0 | Some x \<Rightarrow> x))
     [fo_queue f, fo_startup f, fo_verification f, fo_safety_margin f] (Fin 0)"

text \<open>The share of the observed runs that would have fitted, or the estimate that came with the forecast.\<close>

definition finish_probability :: "pyfloat list \<Rightarrow> pyfloat \<Rightarrow> pyfloat option \<Rightarrow> pyfloat option" where
  "finish_probability observed available estimate = (if observed = [] then estimate
     else Some (Fin (of_nat (length (filter (\<lambda>d. float_le d available) observed)) / of_nat (length observed))))"

definition clamp_probability :: "pyfloat \<Rightarrow> pyfloat" where
  "clamp_probability p = float_max (Fin 0) (float_min (Fin 1) p)"

text \<open>The risk and its reason, from the slack at the ninetieth percentile, the clamped probability and the minutes that remain.\<close>

definition risk_of :: "bool \<Rightarrow> pyfloat option \<Rightarrow> pyfloat option \<Rightarrow> pyfloat \<Rightarrow> string \<times> string" where
  "risk_of past slack p_finish remaining =
     (let below = (\<lambda>v t. case v of None \<Rightarrow> False | Some x \<Rightarrow> float_lt x t) in
      if past then (''missed'', ''deadline passed before acceptance'')
      else if below slack (Fin 0) then (''red'', ''p90 forecast exceeds remaining time'')
      else if below p_finish (Fin (2/5)) then (''red'', ''finish probability below 0.40'')
      else if below slack (float_scale (1/4) (float_max remaining (Fin 1))) then (''orange'', ''p90 safety slack is narrow'')
      else if below p_finish (Fin (13/20)) then (''yellow'', ''finish probability below 0.65'')
      else if (case p_finish of None \<Rightarrow> False | Some p \<Rightarrow> float_le (Fin (17/20)) p) \<and>
              (case slack of None \<Rightarrow> True | Some x \<Rightarrow> float_le (Fin 0) x)
        then (''green'', ''p90 slack and finish probability are healthy'')
      else (''unknown'', ''insufficient forecast evidence''))"

definition build_deadline_snapshot ::
  "forecast \<Rightarrow> int \<Rightarrow> int \<Rightarrow> int option \<Rightarrow> int \<Rightarrow> int \<Rightarrow> int option \<Rightarrow> pyfloat list \<Rightarrow> deadline_snapshot" where
  "build_deadline_snapshot f computed_at due_at next_decision_at sample_count stale_after forecast_updated_at durations =
     (let remaining = minutes_between computed_at due_at;
          slack_p50 = map_option (float_sub remaining) (fo_p50 f);
          slack_p90 = map_option (float_sub remaining) (fo_p90 f);
          observed = filter (float_le (Fin 0)) durations;
          available = float_max (float_sub remaining (fixed_overhead f)) (Fin 0);
          p = finish_probability observed available (fo_p_finish f);
          stale = (case forecast_updated_at of None \<Rightarrow> False | Some t \<Rightarrow> stale_after < computed_at - t);
          complete = None \<notin> set [fo_queue f, fo_startup f, fo_remaining f, fo_verification f, fo_retry_reserve f, fo_safety_margin f,
            fo_p50 f, fo_p90 f, p];
          low = sample_count < 3 \<or> \<not> complete \<or> stale;
          p_finish = map_option clamp_probability p;
          (risk, reason) = risk_of (due_at < computed_at) slack_p90 p_finish remaining in
      \<lparr>ds_computed_at = computed_at, ds_due_at = due_at, ds_forecast = f\<lparr>fo_p_finish := p_finish\<rparr>, ds_slack_p50 = slack_p50,
       ds_slack_p90 = slack_p90, ds_confidence = (if low then ''low'' else ''high''),
       ds_level = (if low then ''coarse'' else ''historical''), ds_risk = risk, ds_reason = reason,
       ds_next_decision = next_decision_at,
       ds_sample_count = (if observed \<noteq> [] then int (length observed) else max sample_count 0),
       ds_basis = (if observed \<noteq> [] then ''empirical-success-cdf'' else if fo_p_finish f \<noteq> None then ''coarse-heuristic'' else ''unavailable'')\<rparr>)"

definition snapshot_to_dict :: "(int \<Rightarrow> string) \<Rightarrow> deadline_snapshot \<Rightarrow> dict" where
  "snapshot_to_dict fmt d = [(''computed_at'', JStr (fmt (ds_computed_at d))), (''due_at'', JStr (fmt (ds_due_at d)))] @
     forecast_to_dict (ds_forecast d) @
     [(''slack_p50_minutes'', jopt JFloat (ds_slack_p50 d)), (''slack_p90_minutes'', jopt JFloat (ds_slack_p90 d)),
      (''confidence'', JStr (ds_confidence d)), (''forecast_level'', JStr (ds_level d)), (''risk'', JStr (ds_risk d)),
      (''reason'', JStr (ds_reason d)), (''next_decision_at'', jopt (\<lambda>t. JStr (fmt t)) (ds_next_decision d)),
      (''sample_count'', JInt (ds_sample_count d)), (''p_finish_basis'', JStr (ds_basis d))]"

definition RISK_TIER_THRESHOLDS :: "rat list" where
  "RISK_TIER_THRESHOLDS = [1/4, 1/2, 1, 3/2, 2, 3]"

fun first_above :: "rat \<Rightarrow> nat \<Rightarrow> rat list \<Rightarrow> nat" where
  "first_above u i [] = i"
| "first_above u i (t # ts) = (if u < t then i else first_above u (Suc i) ts)"

definition risk_tier :: "rat option \<Rightarrow> nat option" where
  "risk_tier u = map_option (\<lambda>u. first_above u 0 RISK_TIER_THRESHOLDS) u"

section \<open>The dispatch window\<close>

text \<open>A clock time in minutes; anything that is not two integers in range is no time.\<close>

definition parse_hhmm :: "json \<Rightarrow> int option" where
  "parse_hhmm v = (case v of
     JStr t \<Rightarrow> (case map parse_int (split_on CHR '':'' (strip t)) of
        [Some h, Some m] \<Rightarrow> if 0 \<le> h \<and> h \<le> 23 \<and> 0 \<le> m \<and> m \<le> 59 then Some (60 * h + m) else None
      | _ \<Rightarrow> None)
   | _ \<Rightarrow> None)"

definition dispatch_window :: "contract_draft \<Rightarrow> (int \<times> int) option" where
  "dispatch_window d = (case dict_get (cd_execution d) ''dispatch_window'' of
     JObj raw \<Rightarrow> (case (parse_hhmm (dict_get raw ''start''), parse_hhmm (dict_get raw ''end'')) of
        (Some a, Some b) \<Rightarrow> if a = b then None else Some (a, b)
      | _ \<Rightarrow> None)
   | _ \<Rightarrow> None)"

definition lease_alive :: "lease option \<Rightarrow> int \<Rightarrow> bool" where
  "lease_alive l now = (case l of None \<Rightarrow> False | Some l \<Rightarrow> now < le_heartbeat l + le_timeout l)"

text \<open>The wall clock runs at the offset of \<open>now\<close>, also for the next start.\<close>

definition window_state :: "(int \<Rightarrow> int) \<Rightarrow> int \<Rightarrow> int \<times> int \<Rightarrow> bool \<times> int option" where
  "window_state off now w =
     (let start = fst w * MINUTE; stop = snd w * MINUTE; wall = now + off now; t = wall mod DAY;
          inside = (if start < stop then start \<le> t \<and> t < stop else start \<le> t \<or> t < stop) in
      if inside then (True, None)
      else (False, Some ((wall div DAY) * DAY + start + (if start \<le> t then DAY else 0) - off now)))"

fun recheck_minutes :: "urgency_tier \<Rightarrow> int" where
  "recheck_minutes Queued = 60"
| "recheck_minutes Remind = 15"
| "recheck_minutes Steer = 10"
| "recheck_minutes Respawn = 5"
| "recheck_minutes Parallel = 5"
| "recheck_minutes HandToUser = 30"

definition deadline_of :: "contract_draft \<Rightarrow> int" where
  "deadline_of d = (case cd_deadline_at d of NaiveTime t \<Rightarrow> t | AwareTime t zone \<Rightarrow> t)"

definition decision_times :: "int \<Rightarrow> int \<Rightarrow> lease option \<Rightarrow> urgency_tier option \<Rightarrow> int list" where
  "decision_times deadline now l tier =
     (case l of None \<Rightarrow> [] | Some l \<Rightarrow> if now < le_heartbeat l + le_timeout l then [le_heartbeat l + le_timeout l] else []) @
     (case tier of None \<Rightarrow> [] | Some t \<Rightarrow> [now + recheck_minutes t * MINUTE]) @
     (if now < deadline then [max now (deadline - SECOND)] else [])"

definition compute_next_decision_at ::
  "(int \<Rightarrow> int) \<Rightarrow> contract_draft \<Rightarrow> int \<Rightarrow> lease option \<Rightarrow> urgency_tier option \<Rightarrow> int option" where
  "compute_next_decision_at off d now l tier =
     (case decision_times (deadline_of d) now l tier of
        [] \<Rightarrow> None
      | t # ts \<Rightarrow>
          (let result = Min (set (t # ts)) in
           Some (case dispatch_window d of
               None \<Rightarrow> result
             | Some w \<Rightarrow>
                 if lease_alive l now then result
                 else (case snd (window_state off now w) of None \<Rightarrow> result | Some next_start \<Rightarrow> max result next_start))))"

definition next_decision_reason :: "urgency_tier option \<Rightarrow> bool \<Rightarrow> int \<Rightarrow> string" where
  "next_decision_reason tier alive budget_dispatches_left =
     (if budget_dispatches_left < 1 then ''dispatch budget exhausted: only user action can move this contract''
      else if alive then ''lease healthy: re-check at lease expiry or tier recheck, whichever first''
      else (case tier of None \<Rightarrow> ''past deadline: arbitration owns this contract''
        | Some t \<Rightarrow> ''u-tier '' @ int_str (tier_int t) @ '': re-check at tier cadence''))"

section \<open>The ticker arbitrates once\<close>

lemma run_tick_map: "run_tick now es =
   (concat (map (\<lambda>(i, c). if \<not> is_overdue c now then (if ck_next_wakeup c \<le> now then [Promote i] else [])
      else if ck_arbitrated c = None then [ClockExpired i] else []) es),
    map (\<lambda>(i, c). (i, if is_overdue c now \<and> ck_arbitrated c = None then c\<lparr>ck_arbitrated := Some now\<rparr> else c)) es)"
  by (induction now es rule: run_tick.induct) (auto simp: Let_def)

text \<open>The signals of the passes at successive times.\<close>

fun run_ticks :: "int list \<Rightarrow> (string \<times> contract_clock) list \<Rightarrow> tick_signal list" where
  "run_ticks [] es = []"
| "run_ticks (t # ts) es = (let (signals, es') = run_tick t es in signals @ run_ticks ts es')"

definition expiries :: "string \<Rightarrow> tick_signal list \<Rightarrow> nat" where
  "expiries i signals = length (filter (\<lambda>x. x = ClockExpired i) signals)"

lemma expiries_simps [simp]: "expiries i [] = 0" "expiries i (x # xs) = (if x = ClockExpired i then 1 else 0) + expiries i xs"
  by (simp_all add: expiries_def)

lemma expiries_append [simp]: "expiries i (xs @ ys) = expiries i xs + expiries i ys"
  by (simp add: expiries_def)

lemma expiries_other: "i \<notin> fst ` set es \<Longrightarrow> expiries i (run_ticks ts es) = 0"
proof (induction ts arbitrary: es)
  case (Cons t ts)
  have "fst ` set (snd (run_tick t es)) = fst ` set es" by (force simp: run_tick_map image_iff)
  moreover have "expiries i (fst (run_tick t es)) = 0"
    using Cons.prems by (force simp: run_tick_map expiries_def filter_empty_conv split: if_splits)
  ultimately show ?case using Cons by (simp add: split_beta)
qed (simp add: expiries_def)

lemma run_tick_append: "run_tick t (xs @ ys) = (fst (run_tick t xs) @ fst (run_tick t ys), snd (run_tick t xs) @ snd (run_tick t ys))"
  by (simp add: run_tick_map)

lemma expiries_split: "expiries i (run_ticks ts (xs @ ys)) = expiries i (run_ticks ts xs) + expiries i (run_ticks ts ys)"
  by (induction ts arbitrary: xs ys) (simp_all add: run_tick_append split_beta)

lemma expiries_single: "expiries i (run_ticks ts [(i, c)]) =
   (if ck_arbitrated c = None \<and> list_ex (is_overdue c) ts then 1 else 0)"
proof (induction ts arbitrary: c)
  case (Cons t ts)
  have "is_overdue (c\<lparr>ck_arbitrated := a\<rparr>) = is_overdue c" for a by (simp add: fun_eq_iff is_overdue_def)
  then show ?case using Cons.IH by (auto simp: Let_def)
qed simp

text \<open>
  A deadline is arbitrated exactly once. However often the ticker runs, it signals the expiry of a contract once when one of its passes is
  after the deadline and never otherwise; a clock that was arbitrated before is not signalled again.
\<close>

theorem clock_expires_once:
  assumes "(i, c) \<in> set es" and "distinct (map fst es)"
  shows "expiries i (run_ticks ts es) = (if ck_arbitrated c = None \<and> list_ex (\<lambda>t. ck_deadline c < t) ts then 1 else 0)"
proof -
  obtain xs ys where es: "es = xs @ (i, c) # ys" using assms(1) by (meson split_list)
  then have n: "i \<notin> fst ` set xs" "i \<notin> fst ` set ys" using assms(2) by auto
  have "es = xs @ [(i, c)] @ ys" using es by simp
  moreover have "is_overdue c = (\<lambda>t. ck_deadline c < t)" by (simp add: fun_eq_iff is_overdue_def)
  ultimately show ?thesis using n by (simp add: expiries_split expiries_other expiries_single del: append_Cons append.simps(2))
qed

theorem clock_expires_once_witness:
  "expiries ''a'' (run_ticks [1, 5, 9] [(''a'', \<lparr>ck_deadline = 3, ck_next_wakeup = 0, ck_arbitrated = None\<rparr>)]) = 1"
  by (subst clock_expires_once [of "''a''" "\<lparr>ck_deadline = 3, ck_next_wakeup = 0, ck_arbitrated = None\<rparr>"]) simp_all

section \<open>The dispatch window\<close>

lemma parse_hhmm_range: "parse_hhmm v = Some m \<Longrightarrow> 0 \<le> m \<and> m < 24 * 60"
  by (auto simp: parse_hhmm_def split: json.splits list.splits option.splits if_splits)

lemma DAY_pos: "0 < DAY" "m * MINUTE < DAY \<longleftrightarrow> m < 24 * 60" "0 \<le> m * MINUTE \<longleftrightarrow> 0 \<le> m" "a * MINUTE = b * MINUTE \<longleftrightarrow> a = b"
    "a * MINUTE < b * MINUTE \<longleftrightarrow> a < b"
  by (simp_all add: DAY_def MINUTE_def SECOND_def)

lemma MINUTE_pos [simp]: "MINUTE \<noteq> 0" "0 < MINUTE" "\<not> MINUTE < 0"
  by (simp_all add: MINUTE_def SECOND_def)

lemma dispatch_window_range:
  assumes "dispatch_window d = Some (a, b)"
  shows "0 \<le> a" "a < 24 * 60" "0 \<le> b" "b < 24 * 60" "a \<noteq> b"
proof -
  obtain raw where "parse_hhmm (dict_get raw ''start'') = Some a" "parse_hhmm (dict_get raw ''end'') = Some b" "a \<noteq> b"
    using assms by (auto simp: dispatch_window_def split: json.splits option.splits if_splits)
  then show "0 \<le> a" "a < 24 * 60" "0 \<le> b" "b < 24 * 60" "a \<noteq> b" using parse_hhmm_range by blast+
qed

definition in_window :: "int \<Rightarrow> int \<Rightarrow> int \<Rightarrow> bool" where
  "in_window start stop t = (if start < stop then start \<le> t \<and> t < stop else start \<le> t \<or> t < stop)"

lemma window_state_inside: "fst (window_state off now w) = in_window (fst w * MINUTE) (snd w * MINUTE) ((now + off now) mod DAY)"
  by (simp add: window_state_def in_window_def Let_def)

lemma next_start_first:
  fixes a b x :: int
  assumes "0 \<le> a" "a < DAY" "0 \<le> b" "b < DAY" "a \<noteq> b" and out: "\<not> in_window a b (x mod DAY)"
  defines "y \<equiv> x div DAY * DAY + a + (if a \<le> x mod DAY then DAY else 0)"
  shows "x < y" "y \<le> x + DAY" "in_window a b (y mod DAY)" "x \<le> u \<Longrightarrow> u < y \<Longrightarrow> \<not> in_window a b (u mod DAY)"
proof -
  define D t where "D = x div DAY" and "t = x mod DAY"
  have x: "x = D * DAY + t" "0 \<le> t" "t < DAY" by (simp_all add: D_def t_def DAY_pos(1))
  have y: "y = D * DAY + a + (if a \<le> t then DAY else 0)" by (simp add: y_def D_def t_def)
  show "x < y" "y \<le> x + DAY" using x assms(1,2) by (auto simp: y)
  have "y mod DAY = a" using assms(1,2) by (simp add: y)
  then show "in_window a b (y mod DAY)" using assms(5) by (auto simp: in_window_def)
  assume u: "x \<le> u" "u < y"
  define q r where "q = u div DAY" and "r = u mod DAY"
  have u': "u = q * DAY + r" "0 \<le> r" "r < DAY" by (simp_all add: q_def r_def DAY_pos(1))
  have "\<not> in_window a b t" using out by (simp add: t_def)
  moreover have "q = D \<and> t \<le> r \<and> (a \<le> t \<or> r < a) \<or> q = D + 1 \<and> a \<le> t \<and> r < a"
  proof -
    have le: "D * DAY + t \<le> q * DAY + r" "q * DAY + r < D * DAY + a + (if a \<le> t then DAY else 0)" using u u' x y by simp_all
    then have "D \<le> q \<and> q \<le> D + 1"
      using x(2,3) u'(2,3) assms(1,2) unfolding DAY_def MINUTE_def SECOND_def by (simp split: if_splits)
    then consider "q = D" | "q = D + 1" by linarith
    then show ?thesis using le x(2,3) u'(2,3) assms(1,2) by cases (auto simp: algebra_simps split: if_splits)
  qed
  ultimately show "\<not> in_window a b (u mod DAY)" unfolding r_def [symmetric] by (auto simp: in_window_def split: if_splits)
qed

text \<open>
  A deferred dispatch waits for the right moment. Outside its window a contract is put off to the first instant at which the window is open:
  later than now, at most a day ahead, inside the window, and at no instant in between is the window open, as long as the offset of the wall clock does
  not change on the way.
\<close>

theorem window_start_is_next:
  assumes "dispatch_window d = Some w" and "window_state off now w = (False, Some t)" and "\<And>u. now \<le> u \<Longrightarrow> u \<le> t \<Longrightarrow> off u = off now"
  shows "now < t \<and> t \<le> now + DAY \<and> fst (window_state off t w) \<and> \<not> (\<exists>u. now \<le> u \<and> u < t \<and> fst (window_state off u w))"
proof -
  obtain a b where w: "w = (a, b)" by (cases w)
  let ?x = "now + off now"
  note r = dispatch_window_range [OF assms(1) [unfolded w]]
  have out: "\<not> in_window (a * MINUTE) (b * MINUTE) (?x mod DAY)"
    using assms(2) window_state_inside [of off now w] by (simp add: w)
  have t: "t + off now = ?x div DAY * DAY + a * MINUTE + (if a * MINUTE \<le> ?x mod DAY then DAY else 0)"
    using assms(2) by (auto simp: window_state_def w Let_def split: if_splits)
  have "0 \<le> a * MINUTE" "a * MINUTE < DAY" "0 \<le> b * MINUTE" "b * MINUTE < DAY" "a * MINUTE \<noteq> b * MINUTE"
    using r by (simp_all add: DAY_pos)
  note first = next_start_first [OF this out, folded t]
  have off: "off t = off now" using assms(3) [of t] first(1) by simp
  have "\<not> fst (window_state off u w)" if "now \<le> u" "u < t" for u
    using first(4) [of "u + off now"] that assms(3) [of u] by (simp add: window_state_inside w)
  then show ?thesis using first(1-3) by (auto simp: window_state_inside w off)
qed

definition night_draft :: contract_draft where
  "night_draft = sample_contract_draft\<lparr>cd_execution := [(''dispatch_window'', JObj [(''start'', JStr ''9:0''), (''end'', JStr ''8:0'')])]\<rparr>"

lemma night_window: "dispatch_window night_draft = Some (540, 480)"
  by (simp add: dispatch_window_def night_draft_def dict_get_def parse_hhmm_def strip_def lstrip_def is_space_def split_on_def parse_int_def
      digit_val_def)

theorem window_start_is_next_witness:
  "window_state (\<lambda>u. 0) (485 * MINUTE) (540, 480) = (False, Some (540 * MINUTE)) \<and> fst (window_state (\<lambda>u. 0) (540 * MINUTE) (540, 480))"
proof -
  have "window_state (\<lambda>u. 0) (485 * MINUTE) (540, 480) = (False, Some (540 * MINUTE))"
    by (simp add: window_state_def Let_def DAY_def MINUTE_def SECOND_def)
  then show ?thesis using window_start_is_next [OF night_window, of "\<lambda>u. 0" "485 * MINUTE" "540 * MINUTE"] by simp
qed

section \<open>The risk of a deadline\<close>

definition risk_rank :: "string \<Rightarrow> nat" where
  "risk_rank r = (if r = ''missed'' then 5 else if r = ''red'' then 4 else if r = ''orange'' then 3 else if r = ''yellow'' then 2
     else if r = ''unknown'' then 1 else 0)"

lemma risk_of_finite:
  "fst (risk_of past (map_option Fin slack) (map_option Fin p) (Fin r)) =
     (if past then ''missed''
      else if (case slack of None \<Rightarrow> False | Some x \<Rightarrow> x < 0) \<or> (case p of None \<Rightarrow> False | Some q \<Rightarrow> q < 2/5) then ''red''
      else if (case slack of None \<Rightarrow> False | Some x \<Rightarrow> x < max r 1 / 4) then ''orange''
      else if (case p of None \<Rightarrow> False | Some q \<Rightarrow> q < 13/20) then ''yellow''
      else if (case p of None \<Rightarrow> False | Some q \<Rightarrow> 17/20 \<le> q) then ''green'' else ''unknown'')"
  by (cases slack; cases p) (simp_all add: risk_of_def Let_def float_max_def max_def)

lemma risk_of_mono:
  fixes r1 r2 :: rat
  assumes "past1 \<longrightarrow> past2" and "r2 \<le> r1" and "rel_option (\<le>) p2 p1"
  shows "risk_rank (fst (risk_of past1 (map_option Fin (map_option ((-) r1) q)) (map_option Fin p1) (Fin r1))) \<le>
    risk_rank (fst (risk_of past2 (map_option Fin (map_option ((-) r2) q)) (map_option Fin p2) (Fin r2)))"
proof -
  have "r2 - x < max r2 1 / 4" if "r1 - x < max r1 1 / 4" for x using that assms(2) by (auto simp: max_def split: if_splits)
  moreover have "r2 - x < 0" if "r1 - x < 0" for x using that assms(2) by linarith
  ultimately show ?thesis unfolding risk_of_finite using assms(1,3)
    by (cases q; cases p1; cases p2) (auto simp: risk_rank_def split: if_splits)
qed

definition rat_of :: "pyfloat \<Rightarrow> rat" where
  "rat_of x = (case x of Fin q \<Rightarrow> q | _ \<Rightarrow> 0)"

lemma rat_of_Fin [simp]: "rat_of (Fin q) = q"
  by (simp add: rat_of_def)

lemma finite_float: "float_finite x \<longleftrightarrow> (\<exists>q. x = Fin q)"
  by (cases x) simp_all

definition overhead_of :: "forecast \<Rightarrow> rat" where
  "overhead_of f = sum_list (map (\<lambda>v. case v of None \<Rightarrow> 0 | Some x \<Rightarrow> rat_of x) [fo_queue f, fo_startup f, fo_verification f, fo_safety_margin f])"

definition forecast_finite :: "forecast \<Rightarrow> bool" where
  "forecast_finite f \<longleftrightarrow> list_all (pred_option float_finite) [fo_queue f, fo_startup f, fo_verification f, fo_safety_margin f, fo_p90 f, fo_p_finish f]"

lemma fixed_overhead_finite: "forecast_finite f \<Longrightarrow> fixed_overhead f = Fin (overhead_of f)"
  by (cases "fo_queue f"; cases "fo_startup f"; cases "fo_verification f"; cases "fo_safety_margin f")
    (auto simp: forecast_finite_def fixed_overhead_def overhead_of_def finite_float)

lemma clamp_Fin: "clamp_probability (Fin p) = Fin (max 0 (min 1 p))"
  by (simp add: clamp_probability_def float_max_def float_min_def max_def min_def)

definition snapshot_p :: "forecast \<Rightarrow> pyfloat list \<Rightarrow> rat \<Rightarrow> rat option" where
  "snapshot_p f durations remaining = (let observed = filter (float_le (Fin 0)) durations in
     if observed = [] then map_option (\<lambda>p. max 0 (min 1 (rat_of p))) (fo_p_finish f)
     else Some (of_nat (length (filter (\<lambda>d. rat_of d \<le> max (remaining - overhead_of f) 0) observed)) / of_nat (length observed)))"

lemma count_share: "(0::rat) \<le> of_nat (length (filter P xs)) / of_nat (length xs)" "(of_nat (length (filter P xs)) :: rat) / of_nat (length xs) \<le> 1"
  by (simp_all add: divide_le_eq_1)

lemma snapshot_risk:
  assumes "forecast_finite f" and "list_all float_finite durations"
  shows "ds_risk (build_deadline_snapshot f t due next n stale upd durations) =
    fst (risk_of (due < t) (map_option Fin (map_option ((-) (of_int (due - t) / of_int MINUTE)) (map_option rat_of (fo_p90 f))))
      (map_option Fin (snapshot_p f durations (of_int (due - t) / of_int MINUTE))) (Fin (of_int (due - t) / of_int MINUTE)))"
proof -
  define r :: rat where "r = of_int (due - t) / of_int MINUTE"
  have slack: "map_option (float_sub (Fin r)) (fo_p90 f) = map_option Fin (map_option ((-) r) (map_option rat_of (fo_p90 f)))"
    using assms(1) by (cases "fo_p90 f") (auto simp: forecast_finite_def finite_float)
  have avail: "float_max (float_sub (Fin r) (fixed_overhead f)) (Fin 0) = Fin (max (r - overhead_of f) 0)"
    by (simp add: fixed_overhead_finite [OF assms(1)] float_max_def max_def)
  have fits: "filter (\<lambda>d. float_le d (Fin a)) ds = filter (\<lambda>d. rat_of d \<le> a) ds" if "list_all float_finite ds" for a ds
    using that by (intro filter_cong refl) (auto simp: list_all_iff finite_float dest!: bspec)
  let ?obs = "filter (float_le (Fin 0)) durations"
  have obs: "list_all float_finite ?obs" using assms(2) by (simp add: list_all_iff)
  have p: "map_option clamp_probability (finish_probability ?obs (Fin a) (fo_p_finish f)) = map_option Fin (if ?obs = []
      then map_option (\<lambda>p. max 0 (min 1 (rat_of p))) (fo_p_finish f)
      else Some (of_nat (length (filter (\<lambda>d. rat_of d \<le> a) ?obs)) / of_nat (length ?obs)))" for a
  proof (cases "?obs = []")
    case True
    then show ?thesis using assms(1)
      by (cases "fo_p_finish f") (auto simp: finish_probability_def forecast_finite_def finite_float clamp_Fin)
  next
    case False
    moreover have "max 0 (min 1 q) = q" if "0 \<le> q" "q \<le> 1" for q :: rat using that by simp
    ultimately show ?thesis using count_share [of _ ?obs] by (simp add: finish_probability_def fits [OF obs] clamp_Fin del: filter_filter)
  qed
  show ?thesis
    unfolding build_deadline_snapshot_def minutes_between_def r_def [symmetric] snapshot_p_def Let_def split_beta slack avail p by simp
qed

text \<open>
  Waiting never makes a deadline safer. For the same finite forecast and the same observed runs, a snapshot computed later carries at least the risk
  of one computed earlier, in the order green, unknown, yellow, orange, red, missed. A late snapshot says missed, and only a late one.
\<close>

theorem risk_grows_with_time:
  assumes "forecast_finite f" and "list_all float_finite durations" and "t \<le> t'"
  shows "risk_rank (ds_risk (build_deadline_snapshot f t due next n stale upd durations)) \<le>
      risk_rank (ds_risk (build_deadline_snapshot f t' due next' n' stale' upd' durations)) \<and>
    (ds_risk (build_deadline_snapshot f t due next n stale upd durations) = ''missed'' \<longleftrightarrow> due < t)"
proof
  let ?r = "of_int (due - t) / of_int MINUTE :: rat" and ?r' = "of_int (due - t') / of_int MINUTE :: rat"
  have le: "?r' \<le> ?r" using assms(3) by (simp add: divide_right_mono less_imp_le)
  have "length (filter (\<lambda>d. rat_of d \<le> a') xs) \<le> length (filter (\<lambda>d. rat_of d \<le> a) xs)" if "a' \<le> a" for a' a :: rat and xs
    using that by (induction xs) auto
  moreover have "max (?r' - overhead_of f) 0 \<le> max (?r - overhead_of f) 0" using le by (simp add: max.mono)
  ultimately have "rel_option (\<le>) (snapshot_p f durations ?r') (snapshot_p f durations ?r)"
    by (auto simp: snapshot_p_def Let_def option.rel_refl simp del: filter_filter intro!: divide_right_mono)
  then show "risk_rank (ds_risk (build_deadline_snapshot f t due next n stale upd durations)) \<le>
      risk_rank (ds_risk (build_deadline_snapshot f t' due next' n' stale' upd' durations))"
    unfolding snapshot_risk [OF assms(1,2)] using assms(3) le by (intro risk_of_mono) auto
  show "ds_risk (build_deadline_snapshot f t due next n stale upd durations) = ''missed'' \<longleftrightarrow> due < t"
    unfolding snapshot_risk [OF assms(1,2)] risk_of_finite by simp
qed

definition sample_forecast :: forecast where
  "sample_forecast = \<lparr>fo_queue = Some (Fin 0), fo_startup = Some (Fin 5), fo_remaining = Some (Fin 60), fo_verification = Some (Fin 5),
     fo_retry_reserve = Some (Fin 9), fo_safety_margin = Some (Fin 1), fo_p50 = Some (Fin 70), fo_p90 = Some (Fin 105), fo_p_finish = Some (Fin (9/10))\<rparr>"

theorem risk_grows_with_time_witness:
  "ds_risk (build_deadline_snapshot sample_forecast 0 (200 * MINUTE) None 0 0 None []) = ''green'' \<and>
   risk_rank ''green'' \<le> risk_rank (ds_risk (build_deadline_snapshot sample_forecast (100 * MINUTE) (200 * MINUTE) None 0 0 None []))"
proof -
  have f: "forecast_finite sample_forecast" "list_all float_finite []" by (simp_all add: forecast_finite_def sample_forecast_def)
  have le: "0 \<le> 100 * MINUTE" by (simp add: MINUTE_def SECOND_def)
  have "ds_risk (build_deadline_snapshot sample_forecast 0 (200 * MINUTE) None 0 0 None []) = ''green''"
    unfolding snapshot_risk [OF f] risk_of_finite by (simp add: sample_forecast_def snapshot_p_def)
  with risk_grows_with_time [OF f le, of "200 * MINUTE" None 0 0 None None 0 0 None] show ?thesis by simp
qed

text \<open>Two gaps of the ladder of risks: a probability between 0.65 and 0.85 is reported as missing evidence, and a forecast without p90 can be green.\<close>

lemma risk_gap: "risk_of False (Some (Fin 50)) (Some (Fin (3/4))) (Fin 100) = (''unknown'', ''insufficient forecast evidence'')"
  by (simp add: risk_of_def Let_def float_max_def)

lemma green_without_p90: "risk_of False None (Some (Fin 1)) (Fin 100) = (''green'', ''p90 slack and finish probability are healthy'')"
  by (simp add: risk_of_def Let_def)

text \<open>The tiers of the forecast go up to 6, not to 5.\<close>

lemma risk_tier_six: "risk_tier (Some 3) = Some 6"
  by (simp add: risk_tier_def RISK_TIER_THRESHOLDS_def)

section \<open>The next decision\<close>

text \<open>
  The time of the next decision is never in the past. Without a window, or with a live lease, it is no later than the
  expiry of the lease, the recheck of the tier and the deadline; outside its window a contract without a live lease is put off to the opening of the
  window at the earliest.
\<close>

theorem next_decision_bounds:
  assumes "compute_next_decision_at off d now l tier = Some t"
  shows "now \<le> t \<and>
    (lease_alive l now \<or> dispatch_window d = None \<longrightarrow>
       (\<forall>k. tier = Some k \<longrightarrow> t \<le> now + recheck_minutes k * MINUTE) \<and> (now < deadline_of d \<longrightarrow> t \<le> deadline_of d) \<and>
       (\<forall>x. l = Some x \<and> lease_alive l now \<longrightarrow> t \<le> le_heartbeat x + le_timeout x)) \<and>
    (\<forall>w. \<not> lease_alive l now \<and> dispatch_window d = Some w \<longrightarrow> (case snd (window_state off now w) of None \<Rightarrow> True | Some u \<Rightarrow> u \<le> t))"
proof -
  define ts where "ts = decision_times (deadline_of d) now l tier"
  have pos: "0 < recheck_minutes k" for k by (cases k) simp_all
  have later: "now \<le> x" if "x \<in> set ts" for x
    using that pos by (auto simp: ts_def decision_times_def MINUTE_def SECOND_def less_imp_le split: option.splits if_splits)
  have mem: "tier = Some k \<Longrightarrow> now + recheck_minutes k * MINUTE \<in> set ts" "now < deadline_of d \<Longrightarrow> max now (deadline_of d - SECOND) \<in> set ts"
      "l = Some x \<Longrightarrow> lease_alive l now \<Longrightarrow> le_heartbeat x + le_timeout x \<in> set ts" for k x
    by (auto simp: ts_def decision_times_def lease_alive_def)
  define m where "m = Min (set ts)"
  have ne: "ts \<noteq> []" using assms by (auto simp: compute_next_decision_at_def ts_def split: list.splits)
  then have m: "m \<in> set ts" "\<And>x. x \<in> set ts \<Longrightarrow> m \<le> x" by (simp_all add: m_def)
  have t: "t = (case dispatch_window d of None \<Rightarrow> m | Some w \<Rightarrow> if lease_alive l now then m
      else (case snd (window_state off now w) of None \<Rightarrow> m | Some u \<Rightarrow> max m u))"
  proof -
    obtain x xs where "ts = x # xs" using ne by (cases ts) auto
    then show ?thesis using assms unfolding m_def compute_next_decision_at_def ts_def [symmetric] by (auto simp: Let_def split: option.split)
  qed
  have "max now (deadline_of d - SECOND) \<le> deadline_of d" if "now < deadline_of d" using that by (simp add: SECOND_def)
  with mem(2) m(2) have "m \<le> deadline_of d" if "now < deadline_of d" using that by fastforce
  moreover have "now \<le> m" using m(1) later by blast
  ultimately show ?thesis using m(2) mem(1,3) by (auto simp: t split: option.splits)
qed

theorem next_decision_bounds_witness:
  "\<exists>t. compute_next_decision_at (\<lambda>u. 0) night_draft (485 * MINUTE) None (Some Remind) = Some t \<and> 540 * MINUTE \<le> t"
proof -
  obtain t where t: "compute_next_decision_at (\<lambda>u. 0) night_draft (485 * MINUTE) None (Some Remind) = Some t"
    by (simp add: compute_next_decision_at_def decision_times_def Let_def)
  have w: "window_state (\<lambda>u. 0) (485 * MINUTE) (540, 480) = (False, Some (540 * MINUTE))"
    by (simp add: window_state_def Let_def DAY_def MINUTE_def SECOND_def)
  show ?thesis using t next_decision_bounds [OF t] by (simp add: lease_alive_def night_window w)
qed

text \<open>A window can push the decision past the deadline, and at the instant a lease expires the two liveness tests disagree.\<close>

lemma window_outlasts_deadline:
  assumes "cd_deadline_at d = AwareTime (500 * MINUTE) 0" and "dispatch_window d = Some (540, 480)"
  shows "compute_next_decision_at (\<lambda>u. 0) d (485 * MINUTE) None None = Some (540 * MINUTE)"
proof -
  have w: "window_state (\<lambda>u. 0) (485 * MINUTE) (540, 480) = (False, Some (540 * MINUTE))"
    by (simp add: window_state_def Let_def DAY_def MINUTE_def SECOND_def)
  have "max (max (485 * MINUTE) (500 * MINUTE - SECOND)) (540 * MINUTE) = 540 * MINUTE" by (simp add: MINUTE_def SECOND_def)
  then show ?thesis using assms
    by (simp add: compute_next_decision_at_def decision_times_def deadline_of_def w lease_alive_def)
qed

lemma liveness_disagrees_at_expiry:
  "le_heartbeat l + le_timeout l = now \<Longrightarrow> lease_is_alive l now \<and> \<not> lease_alive (Some l) now"
  by (simp add: lease_is_alive_def lease_alive_def)

section \<open>The cost ledger\<close>

text \<open>A cost that is not a number passes the ledger's check, and from then on the cost budget of the contract never binds.\<close>

lemma nan_cost_is_accepted:
  "normalize_usage (JObj [(''input_tokens'', JInt 0), (''output_tokens'', JInt 0), (''cost_estimate'', JFloat NaN)]) =
     Inr [(''input_tokens'', JInt 0), (''output_tokens'', JInt 0), (''cost_estimate'', JFloat NaN)]"
  by (simp add: normalize_usage_def USAGE_FIELDS_def USAGE_INT_FIELDS_def usage_field_def usage_int_def usage_float_def dict_get_def)

lemma nan_cost_disables_the_budget:
  assumes "u \<in> set rows" and "cost_of u = Some NaN"
  shows "total_cost rows = NaN \<and> \<not> float_nonpos (float_sub max_cost (total_cost rows))"
proof -
  have add: "float_add x NaN = NaN" for x by (cases x) simp_all
  have stay: "fold (\<lambda>u total. case cost_of u of None \<Rightarrow> total | Some c \<Rightarrow> float_add total c) rs NaN = NaN" for rs
    by (induction rs) (auto split: option.split)
  have "fold (\<lambda>u total. case cost_of u of None \<Rightarrow> total | Some c \<Rightarrow> float_add total c) rows x = NaN" for x
    using assms(1)
  proof (induction rows arbitrary: x)
    case (Cons r rs)
    then show ?case using stay add assms(2) by auto
  qed simp
  then show ?thesis using add by (simp add: total_cost_def float_sub_def)
qed

text \<open>Setting a decision again to the time that it has writes nothing, no event either.\<close>

lemma next_decision_settles:
  assumes "set_next_decision_at fmt c s = (b, s')"
  shows "set_next_decision_at fmt' (c\<lparr>dc_now := t, dc_reason := r\<rparr>) s' = (False, s')"
  using assms by (auto simp: set_next_decision_at_def get_contract_def split: option.splits if_splits)

end
