(* ===== verification/Rpc_Common.thy ===== *)
theory Rpc_Common
  imports Scheduling
begin

text \<open>
  What the JSON-RPC handlers share: \<open>lhgp/rpc/errors.py\<close> (the codes), \<open>lhgp/rpc/server.py\<close> (the envelope and the last mapping
  of errors) and \<open>longtask/rpc/handlers/_common.py\<close> (trusted actors, the Principal gate, the parser of a contract draft, idempotent replay).

  A handler is a function on the store that returns a failure or a value with the store it leaves: unlike a single transaction, a
  handler that fails may leave what it committed before. The text of a message is abbreviated, and the details of an error are not
  modelled. \<open>Raised\<close> is an exception that is no \<open>RpcError\<close>.
\<close>

section \<open>Errors\<close>

datatype rpc_code =
    VALIDATION_FAILED | UNKNOWN_CONTRACT | UNKNOWN_ATTEMPT | UNKNOWN_EXECUTOR | REVISION_CONFLICT | LEASE_FENCED | LEASE_HELD
  | PARTITION_CONFLICT | CONSTRAINT_UNTRANSLATABLE | CAPABILITY_MISSING | CONTEXT_CAPACITY_REFUSED | CONTEXT_STALE
  | BUDGET_EXHAUSTED | STATE_FORBIDDEN | STORE_TAMPERED | IDEMPOTENCY_REPLAY_MISMATCH | AUTH_FAILED | AUTH_REQUIRED
  | RATE_LIMITED | INTERNAL

definition RETRYABLE :: "rpc_code list" where
  "RETRYABLE = [REVISION_CONFLICT, LEASE_HELD, CONTEXT_STALE, RATE_LIMITED, INTERNAL]"

definition retryable :: "rpc_code \<Rightarrow> bool" where
  "retryable c = (c \<in> set RETRYABLE)"

datatype rpc_failure = Rpc rpc_code string | Raised store_error

section \<open>Handlers as state passing\<close>

type_synonym 'a rpc = "store \<Rightarrow> (rpc_failure + 'a) \<times> store"

definition rbind :: "'a rpc \<Rightarrow> ('a \<Rightarrow> 'b rpc) \<Rightarrow> 'b rpc" where
  "rbind m f = (\<lambda>s. case m s of (Inl e, s') \<Rightarrow> (Inl e, s') | (Inr x, s') \<Rightarrow> f x s')"

definition rpure :: "'a \<Rightarrow> 'a rpc" where
  "rpure x = (\<lambda>s. (Inr x, s))"

definition rlift :: "rpc_failure + 'a \<Rightarrow> 'a rpc" where
  "rlift r = (\<lambda>s. (r, s))"

definition rread :: "(store \<Rightarrow> 'a) \<Rightarrow> 'a rpc" where
  "rread f = (\<lambda>s. (Inr (f s), s))"

definition rwrite :: "(store \<Rightarrow> store) \<Rightarrow> unit rpc" where
  "rwrite f = (\<lambda>s. (Inr (), f s))"

text \<open>One transaction, with the translation of its errors: it commits, or leaves the store as it was.\<close>

definition rcommit :: "(store_error \<Rightarrow> rpc_failure) \<Rightarrow> (store \<Rightarrow> store_error + 'a \<times> store) \<Rightarrow> 'a rpc" where
  "rcommit h op = (\<lambda>s. case op s of Inl e \<Rightarrow> (Inl (h e), s) | Inr (x, s') \<Rightarrow> (Inr x, s'))"

text \<open>\<open>raise RpcError(code, message)\<close> unless the condition holds.\<close>

definition rcheck :: "bool \<Rightarrow> rpc_code \<Rightarrow> string \<Rightarrow> unit rpc" where
  "rcheck b c m = rlift (require b (Rpc c m))"

lemma rpc_simps [simp]:
  "rbind (rpure x) f = f x" "rbind (rlift (Inr x)) f = f x" "rbind (rlift (Inl e)) f = (\<lambda>s. (Inl e, s))"
  "rbind (rread r) k = (\<lambda>s. k (r s) s)" "rbind (rwrite w) j = (\<lambda>s. j () (w s))" "rpure x s = (Inr x, s)" "rlift v s = (v, s)"
  "rbind (rcheck True c m) j = j ()" "rbind (rcheck False c m) j = (\<lambda>s. (Inl (Rpc c m), s))"
  by (simp_all add: rbind_def rpure_def rlift_def rread_def rwrite_def rcheck_def fun_eq_iff)

lemma rbind_lift: "rbind (rlift r) f s = (case r of Inl e \<Rightarrow> (Inl e, s) | Inr x \<Rightarrow> f x s)"
  by (simp add: rbind_def rlift_def)

lemma rbind_check: "rbind (rcheck b c m) f s = (if b then f () s else (Inl (Rpc c m), s))"
  by (simp add: rbind_def rcheck_def rlift_def)

lemma rbind_commit: "rbind (rcommit h op) f s = (case op s of Inl e \<Rightarrow> (Inl (h e), s) | Inr (x, s') \<Rightarrow> f x s')"
  by (simp add: rbind_def rcommit_def split: sum.split prod.split)

section \<open>Requests\<close>

record envelope =
  rq_method :: string
  rq_request :: string
  rq_client :: string
  rq_params :: dict

definition PROTOCOL_VERSION :: int where "PROTOCOL_VERSION = 1"

definition METHODS :: "string list" where
  "METHODS = [''protocol/hello'', ''protocol/events'', ''contract/prepare'', ''contract/approve'', ''contract/get'', ''contract/list'',
     ''contract/patch'', ''contract/pause'', ''contract/resume'', ''contract/cancel'', ''contract/arbitrate'',
     ''contract/request-verification'', ''contract/user-confirm'', ''contract/auto-approve'', ''attempt/status'', ''attempt/logs'',
     ''attempt/write-back'', ''context/refresh'', ''context/promote'', ''executor/list'', ''executor/enable'', ''executor/disable'',
     ''executor/health'', ''control/notify'', ''control/followup'', ''control/steer'', ''control/interrupt'', ''control/spawn'',
     ''daemon/wake'', ''lease/renew'', ''lease/release'', ''goal/prepare'', ''goal/admission-check'', ''goal/get'', ''goal/list'',
     ''goal/update'', ''goal/advance'', ''goal/next'', ''goal/contract-draft'']"

definition malformed :: "py_error + 'a \<Rightarrow> rpc_failure + 'a" where
  "malformed r = (case r of Inr x \<Rightarrow> Inr x
     | Inl e \<Rightarrow> Inl (if caught e then Rpc VALIDATION_FAILED ''malformed'' else Raised (CallError e)))"

definition as_text :: "json \<Rightarrow> py_error + string" where
  "as_text v = (case v of JStr t \<Rightarrow> Inr t | _ \<Rightarrow> Inl (TypeError ''request_id and client_id must be strings''))"

text \<open>The version: \<open>int\<close> of anything but a Boolean; an infinite float raises an \<open>OverflowError\<close> that nothing catches.\<close>

definition protocol_version :: "json \<Rightarrow> py_error + int" where
  "protocol_version v = (case v of JBool b \<Rightarrow> Inl (ValueError ''protocol_version must be an integer'') | _ \<Rightarrow> py_int v)"

definition envelope_fields :: "(json \<Rightarrow> string) \<Rightarrow> dict \<Rightarrow> py_error + string \<times> string \<times> string \<times> int" where
  "envelope_fields rp raw =
     sbind (dict_item raw ''method'') (\<lambda>m.
     sbind (require (py_str rp m \<in> set METHODS) (ValueError ''not a valid Method'')) (\<lambda>_.
     sbind (dict_item raw ''request_id'') (\<lambda>raw_request.
     sbind (dict_item raw ''client_id'') (\<lambda>raw_client.
     sbind (as_text raw_request) (\<lambda>r.
     sbind (as_text raw_client) (\<lambda>c.
     sbind (dict_item raw ''protocol_version'') (\<lambda>raw_version.
     sbind (protocol_version raw_version) (\<lambda>v. Inr (py_str rp m, r, c, v)))))))))"

definition parse_envelope :: "(json \<Rightarrow> string) \<Rightarrow> dict \<Rightarrow> rpc_failure + envelope" where
  "parse_envelope rp raw = sbind (malformed (envelope_fields rp raw)) (\<lambda>(m, r, c, v).
     sbind (require (v = PROTOCOL_VERSION) (Rpc VALIDATION_FAILED ''protocol_version unsupported'')) (\<lambda>_.
     sbind (require (r \<noteq> [] \<and> c \<noteq> []) (Rpc VALIDATION_FAILED ''request_id and client_id must be non-empty'')) (\<lambda>_.
     case dict_get_or raw ''params'' (JObj []) of
       JObj params \<Rightarrow> Inr \<lparr>rq_method = m, rq_request = r, rq_client = c, rq_params = params\<rparr>
     | _ \<Rightarrow> Inl (Rpc VALIDATION_FAILED ''params must be an object''))))"

text \<open>
  What the handlers take from outside: the runtime, the zones, the format of a time, the digest, the row SQLite picks, the id that a
  contract gets from the clock, the random part of an id, the health probe of an executor, \<open>json.dumps\<close>, the hash of the session token
  that the runner issued to an attempt (a column that no modelled operation writes) and the hash function.
\<close>

record rpc_env =
  rx_host :: pyhost
  rx_zone :: tzdb
  rx_fmt :: "int \<Rightarrow> string"
  rx_digest :: "json \<Rightarrow> string"
  rx_pick :: "event list \<Rightarrow> event"
  rx_auto_id :: "int \<Rightarrow> string"
  rx_day :: "int \<Rightarrow> string"
  rx_random :: string
  rx_health :: "registry_entry \<Rightarrow> bool \<times> string"
  rx_dumps :: "dict \<Rightarrow> string"
  rx_token :: "string \<Rightarrow> string option"
  rx_sha :: "string \<Rightarrow> string"

definition TRUSTED_CLIENT_ACTORS :: "(string \<times> string) list" where
  "TRUSTED_CLIENT_ACTORS = [(''longtask-cli'', ''user''), (''cli'', ''user''), (''cli-test'', ''user''), (''mcp'', ''model''),
     (''executor'', ''executor''), (''verifier'', ''verifier''), (''daemon'', ''daemon''), (''daemon-wakeup'', ''daemon''),
     (''system'', ''system'')]"

definition resolve_actor :: "envelope \<Rightarrow> rpc_failure + string" where
  "resolve_actor e = of_option (Rpc AUTH_FAILED ''unknown client_id'') (map_of TRUSTED_CLIENT_ACTORS (rq_client e))"

definition require_principal :: "envelope \<Rightarrow> rpc_failure + string" where
  "require_principal e = sbind (resolve_actor e) (\<lambda>actor.
     if actor \<noteq> ''user'' then Inl (Rpc AUTH_FAILED ''requires the user (Principal)'') else Inr actor)"

definition require_contract_id :: "dict \<Rightarrow> rpc_failure + string" where
  "require_contract_id params =
     sbind (case dict_get params ''contract_id'' of JNull \<Rightarrow> Inr [] | JStr t \<Rightarrow> Inr (strip t)
         | _ \<Rightarrow> Inl (Rpc VALIDATION_FAILED ''contract_id must be a string'')) (\<lambda>contract_id.
     if contract_id = [] then Inl (Rpc VALIDATION_FAILED ''contract_id is required'')
     else if \<not> is_safe_contract_id (JStr contract_id) then Inl (Rpc VALIDATION_FAILED ''contract_id must be a path-free slug'')
     else Inr contract_id)"

definition coerce_int :: "json \<Rightarrow> rpc_failure + int option" where
  "coerce_int raw = (case raw of
     JNull \<Rightarrow> Inr None
   | JBool b \<Rightarrow> Inl (Rpc VALIDATION_FAILED ''must be an integer'')
   | JFloat x \<Rightarrow> Inl (Rpc VALIDATION_FAILED ''must be an integer'')
   | _ \<Rightarrow> (case py_int raw of Inr i \<Rightarrow> Inr (Some i) | Inl e \<Rightarrow> Inl (Rpc VALIDATION_FAILED ''must be an integer'')))"

text \<open>\<open>{"ok": True, "result": ...}\<close>, and the view of a contract as a result.\<close>

definition ok_result :: "json \<Rightarrow> dict" where
  "ok_result v = [(''ok'', JBool True), (''result'', v)]"

definition view_result :: "rpc_env \<Rightarrow> contract_view \<Rightarrow> dict" where
  "view_result x v = ok_result (JObj (contract_view_to_dict (rx_host x) (rx_fmt x) v))"

definition idempotent_replay :: "rpc_env \<Rightarrow> envelope \<Rightarrow> string \<Rightarrow> store \<Rightarrow> rpc_failure + dict option" where
  "idempotent_replay x e contract_id s =
     (let existing = request_events s (Some (rq_request e));
          owners = filter (\<lambda>c. c \<noteq> []) (map (\<lambda>v. text_or (ev_contract v) []) existing) in
      if existing = [] then Inr None
      else if owners \<noteq> [] \<and> contract_id \<notin> set owners
      then Inl (Rpc VALIDATION_FAILED ''request_id belongs to another contract'')
      else Inr (map_option (view_result x) (get_contract s contract_id)))"

text \<open>\<open>if (replay := idempotent_replay(...)) is not None: return replay\<close>.\<close>

definition replay_or :: "rpc_env \<Rightarrow> envelope \<Rightarrow> string \<Rightarrow> dict rpc \<Rightarrow> dict rpc" where
  "replay_or x e contract_id rest = (\<lambda>s. case idempotent_replay x e contract_id s of
     Inl f \<Rightarrow> (Inl f, s) | Inr (Some r) \<Rightarrow> (Inr r, s) | Inr None \<Rightarrow> rest s)"

definition current_contract :: "string \<Rightarrow> contract_view rpc" where
  "current_contract contract_id = (\<lambda>s. (of_option (Rpc UNKNOWN_CONTRACT ''contract not found'') (get_contract s contract_id), s))"

text \<open>\<open>except RevisionConflictError\<close> and \<open>except StoreError\<close>, as most handlers have them, and the last mapping in \<open>route\<close>.\<close>

definition update_failure :: "store_error \<Rightarrow> rpc_failure" where
  "update_failure err = (case err of RevisionConflictError a b \<Rightarrow> Rpc REVISION_CONFLICT ''revision conflict''
     | _ \<Rightarrow> if is_store_error err then Rpc INTERNAL ''store error'' else Raised err)"

definition route_failure :: "rpc_failure \<Rightarrow> rpc_failure" where
  "route_failure f = (case f of
     Rpc c m \<Rightarrow> Rpc c m
   | Raised (StoreTamperedError m) \<Rightarrow> Rpc STORE_TAMPERED m
   | Raised (IllegalStateTransitionError a b) \<Rightarrow> Rpc STATE_FORBIDDEN ''illegal state transition''
   | Raised err \<Rightarrow> if is_store_error err then Rpc INTERNAL ''store error'' else Raised err)"

section \<open>The draft in a request\<close>

text \<open>\<open>dict(v)\<close>.\<close>

definition dict_of :: "json \<Rightarrow> py_error + dict" where
  "dict_of v = (case v of
     JObj d \<Rightarrow> Inr d
   | JList xs \<Rightarrow> sbind (smap pair_of xs) (\<lambda>ps. Inr (fold (\<lambda>(k, w) d. put k w d) ps []))
   | JStr t \<Rightarrow> if t = [] then Inr [] else Inl (ValueError ''dictionary update sequence'')
   | _ \<Rightarrow> Inl (TypeError ''object is not iterable''))"

definition acceptance_of_request :: "(json \<Rightarrow> string) \<Rightarrow> json \<Rightarrow> py_error + acceptance" where
  "acceptance_of_request rp raw = (case raw of
     JObj a \<Rightarrow>
       sbind (dict_item a ''standard'') (\<lambda>standard.
       sbind (dict_item a ''checks'') (\<lambda>checks.
       sbind (py_iter checks) (\<lambda>items.
       sbind (smap (parse_check rp) items) (\<lambda>checks.
       Inr \<lparr>ac_standard = py_str rp standard, ac_checks = checks,
            ac_verifier = py_str rp (dict_get_or a ''verifier'' (JStr ''cross_check'')),
            ac_spec = (if is_obj (dict_get a ''spec'') then dict_get a ''spec'' else JNull),
            ac_spec_hash = (if is_str (dict_get a ''spec_hash'') \<and> dict_get a ''spec_hash'' \<noteq> JStr [] then dict_get a ''spec_hash'' else JNull)\<rparr>))))
   | _ \<Rightarrow> Inl (AttributeError ''get''))"

definition workload_of_request :: "pyhost \<Rightarrow> dict \<Rightarrow> py_error + pyfloat" where
  "workload_of_request h d = (let field = ''workload_estimate.initial_hours'' in
     case dict_get d ''workload_estimate'' of
       JObj w \<Rightarrow> sbind (dict_item w ''initial_hours'') (\<lambda>v. strict_float h v field)
     | _ \<Rightarrow> (case map_of d ''workload_initial_hours'' of
          Some v \<Rightarrow> strict_float h v field | None \<Rightarrow> Inl (KeyError field)))"

text \<open>The budget of a request: \<open>max_cost\<close> is not read.\<close>

definition budget_of_request :: "json \<Rightarrow> py_error + budget" where
  "budget_of_request raw =
     sbind (budget_item raw ''max_dispatches'') (\<lambda>dispatches.
     sbind (budget_item raw ''max_escalations'') (\<lambda>escalations.
     sbind (budget_item raw ''max_concurrent_attempts'') (\<lambda>concurrent.
     sbind (budget_item raw ''max_attempt_minutes'') (\<lambda>minutes.
     sbind (budget_item raw ''max_output_bytes'') (\<lambda>bytes.
     sbind (budget_int (dict_get_or (dict_or_empty raw) ''verification_attempts_reserved'' (JInt DEFAULT_VERIFICATION_RESERVED))
              ''verification_attempts_reserved'') (\<lambda>reserved.
     Inr \<lparr>bu_max_dispatches = dispatches, bu_max_escalations = escalations, bu_max_concurrent_attempts = concurrent,
          bu_max_attempt_minutes = minutes, bu_max_output_bytes = bytes, bu_verification_attempts_reserved = reserved,
          bu_max_cost = None\<rparr>))))))"

definition draft_of_request :: "pyhost \<Rightarrow> bool \<Rightarrow> json \<Rightarrow> py_error + contract_draft" where
  "draft_of_request h model raw = (let rp = h_repr h in
     sbind (py_item raw ''title'') (\<lambda>title.
     let d = dict_or_empty raw in
     sbind (dict_item d ''objective'') (\<lambda>objective.
     sbind (dict_item d ''deadline_at'') (\<lambda>raw_deadline.
     sbind (of_option (ValueError ''Invalid isoformat string'') (h_iso_parse h (py_str rp raw_deadline))) (\<lambda>deadline.
     sbind (sbind (dict_item d ''hard_constraints'') dict_of) (\<lambda>hard.
     sbind (sbind (dict_item d ''acceptance'') (acceptance_of_request rp)) (\<lambda>acc.
     sbind (workload_of_request h d) (\<lambda>workload.
     sbind (sbind (dict_item d ''budget'') budget_of_request) (\<lambda>bud.
     sbind (dict_of (dict_get_or d ''soft_guidance'' (JObj []))) (\<lambda>soft.
     sbind (dict_of (dict_get_or d ''context'' (JObj []))) (\<lambda>ctxt.
     sbind (dict_of (dict_get_or d ''execution'' (JObj []))) (\<lambda>exec.
     sbind (dict_of (dict_get_or d ''client_meta'' (JObj []))) (\<lambda>meta.
     sbind (authority_from_dict rp (dict_get d ''authority'')) (\<lambda>auth.
     sbind (attention_from_dict rp (dict_get d ''attention'')) (\<lambda>att.
     sbind (continuity_from_dict (dict_get d ''continuity'')) (\<lambda>cont.
     sbind (if model then Inr default_auto_approve else auto_approve_from_dict rp (dict_get d ''auto_approve'')) (\<lambda>auto.
     Inr \<lparr>cd_title = py_str rp title, cd_objective = py_str rp objective, cd_deadline_at = deadline,
          cd_hard_constraints = hard, cd_acceptance = acc, cd_workload_initial_hours = workload,
          cd_budget = bud, cd_authority = auth, cd_attention = att, cd_continuity = cont,
          cd_auto_approve = auto, cd_soft_guidance = soft, cd_context = ctxt, cd_execution = exec,
          cd_client_meta = meta\<rparr>)))))))))))))))))"

definition parse_contract_draft :: "pyhost \<Rightarrow> envelope \<Rightarrow> rpc_failure + contract_draft" where
  "parse_contract_draft h e =
     sbind (malformed (draft_of_request h (rq_client e = ''mcp'') (dict_get_or (rq_params e) ''draft'' (JObj (rq_params e))))) (\<lambda>d.
     if draft_validate d \<noteq> [] then Inl (Rpc VALIDATION_FAILED ''invalid draft'') else Inr d)"

end
