(* ===== verification/Stage_Synth.thy ===== *)
theory Stage_Synth
  imports Rpc_Common
begin

text \<open>
  \<open>longtask/persistence/stage_synth.py\<close>: the contract draft that is built from the structured specification of a stage, with the
  execution settings and the pre-authorisation that the goal's plan pins.
\<close>

section \<open>Machine checks of a specification\<close>

definition machine_check :: "dict \<Rightarrow> json list" where
  "machine_check node = (if dict_get node ''judge'' \<noteq> JStr ''machine'' then []
     else (case (dict_get node ''kind'', dict_get node ''target'') of
         (JStr kind, JStr target) \<Rightarrow> if is_blank kind \<or> is_blank target then []
           else [JObj [(''kind'', JStr kind), (''target'', JStr target), (''mandatory'', JBool True)]]
       | _ \<Rightarrow> []))"

function collect_machine_checks :: "json \<Rightarrow> json list" where
  "collect_machine_checks (JObj node) = (case first_comb node of
       Some (comb, cs) \<Rightarrow> concat (map collect_machine_checks cs)
     | None \<Rightarrow> machine_check node)"
| "collect_machine_checks JNull = []"
| "collect_machine_checks (JBool b) = []"
| "collect_machine_checks (JInt i) = []"
| "collect_machine_checks (JFloat f) = []"
| "collect_machine_checks (JStr s) = []"
| "collect_machine_checks (JList l) = []"
  by pat_completeness auto
termination
  by (relation "measure size") (auto dest: size_first_comb_child simp del: json.size)

declare collect_machine_checks.simps(1) [simp del]

section \<open>The envelope of a specification\<close>

definition ENVELOPE_KEYS :: "string list" where
  "ENVELOPE_KEYS = [''goal'', ''scope'', ''acceptance'', ''dependencies'', ''artifacts'', ''time_budget'', ''budget'', ''permissions'']"

definition stage_label :: "(json \<Rightarrow> string) \<Rightarrow> dict \<Rightarrow> string" where
  "stage_label rp stage = py_str rp (py_or (dict_get stage ''title'') (py_or (dict_get stage ''id'') (JStr ''stage'')))"

text \<open>A structured specification as it is, with a goal; an old one, the bare tree, with what the stage says beside it.\<close>

definition spec_envelope :: "(json \<Rightarrow> string) \<Rightarrow> dict \<Rightarrow> dict" where
  "spec_envelope rp stage = (let raw = dict_or_empty (dict_get stage ''spec'') in
     if list_ex (\<lambda>k. k \<in> set ENVELOPE_KEYS) (map fst raw)
     then (if (case map_of raw ''goal'' of None \<Rightarrow> True | Some g \<Rightarrow> is_blank (py_str rp g))
           then put ''goal'' (JStr (stage_label rp stage)) raw else raw)
     else [(''goal'', JStr (stage_label rp stage)), (''acceptance'', JObj raw)] @
       concat (map (\<lambda>k. if dict_get stage k = JNull then [] else [(k, dict_get stage k)])
         [''scope'', ''dependencies'', ''artifacts'', ''time_budget'', ''budget'', ''permissions'']))"

section \<open>What the plan of the goal pins\<close>

definition clean_grant :: "(json \<Rightarrow> string) \<Rightarrow> json \<Rightarrow> py_error + json list" where
  "clean_grant rp item = (case item of
     JObj d \<Rightarrow>
       (let executor_id = strip (py_str rp (py_or (dict_get d ''executor_id'') (JStr []))) in
        if executor_id = [] then Inr []
        else
          sbind (py_iter (py_or (dict_get d ''models'') (str_list [''*'']))) (\<lambda>models.
          sbind (py_iter (py_or (dict_get d ''roles'') (str_list [''executor'']))) (\<lambda>roles.
          Inr [JObj [(''executor_id'', JStr executor_id), (''models'', str_list (map (py_str rp) models)),
                 (''roles'', str_list (map (py_str rp) roles))]])))
   | _ \<Rightarrow> Inr [])"

text \<open>The authority that a non-empty grant list gives, if one item is usable.\<close>

definition granted_authority :: "(json \<Rightarrow> string) \<Rightarrow> json \<Rightarrow> py_error + json option" where
  "granted_authority rp grants = (case grants of
     JList items \<Rightarrow> sbind (smap (clean_grant rp) items) (\<lambda>cs. Inr (if concat cs = [] then None
       else Some (JObj [(''executor_policy'', JStr ''explicit_allow''), (''executors'', JList (concat cs))])))
   | _ \<Rightarrow> Inr None)"

definition pinned_workspace :: "dict \<Rightarrow> string option" where
  "pinned_workspace cfg = (case dict_get cfg ''workspace_root'' of JStr w \<Rightarrow> if is_blank w then None else Some w | _ \<Rightarrow> None)"

definition with_workspace :: "string \<Rightarrow> dict \<Rightarrow> dict" where
  "with_workspace w file_effects =
     (let fe = (if truthy (dict_get file_effects ''workspace_root'') then file_effects else put ''workspace_root'' (JStr w) file_effects) in
      if truthy (dict_get fe ''mode'') then fe else put ''mode'' (JStr ''workspace-write'') fe)"

definition find_index :: "('a \<Rightarrow> bool) \<Rightarrow> 'a list \<Rightarrow> nat option" where
  "find_index P xs = map_option fst (find (\<lambda>(i, x). P x) (enumerate_from 0 xs))"

definition resolve_previous_auto_approve :: "(json \<Rightarrow> string) \<Rightarrow> dict \<Rightarrow> dict \<Rightarrow> store \<Rightarrow> auto_approve option" where
  "resolve_previous_auto_approve rp plan stage s = (case dict_get plan ''stages'' of
     JList stages \<Rightarrow>
       if dict_get stage ''id'' = JNull then None
       else (case find_index (\<lambda>x. case x of JObj d \<Rightarrow> py_eq (dict_get d ''id'') (dict_get stage ''id'') | _ \<Rightarrow> False) stages of
           Some (Suc i) \<Rightarrow>
             (case stages ! i of
                JObj prev \<Rightarrow> if \<not> truthy (dict_get prev ''contract_id'') then None
                  else map_option (\<lambda>v. cd_auto_approve (cv_draft v)) (get_contract s (py_str rp (dict_get prev ''contract_id'')))
              | _ \<Rightarrow> None)
         | _ \<Rightarrow> None)
   | _ \<Rightarrow> None)"

text \<open>The pre-authorisation of a synthesised draft: the goal's, or the one of the stage before.\<close>

definition inherited_auto_approve :: "(json \<Rightarrow> string) \<Rightarrow> dict \<Rightarrow> dict \<Rightarrow> store \<Rightarrow> py_error + auto_approve option" where
  "inherited_auto_approve rp plan stage s =
     (let g = dict_or_empty (dict_get plan ''pre_authorized'') in
      if truthy (dict_get g ''enabled'') then
        (case py_or (dict_get g ''actions'') (JList []) of
           JList granted \<Rightarrow>
             (let actions = map (py_str rp) (filter truthy granted) in
              if actions = [] then Inr None
              else
                sbind (py_int (py_or (dict_get_or g ''max_budget_increment'' (JInt 0)) (JInt 0))) (\<lambda>inc.
                sbind (py_int (py_or (dict_get_or g ''max_spec_changes'' (JInt 0)) (JInt 0))) (\<lambda>chg.
                Inr (Some \<lparr>aa_enabled = True, aa_actions = actions, aa_max_budget_increment = inc, aa_max_spec_changes = chg\<rparr>))))
         | _ \<Rightarrow> Inr None)
      else Inr (map_option (inherit_from default_auto_approve) (resolve_previous_auto_approve rp plan stage s)))"

section \<open>The draft\<close>

definition stage_context :: "stage_spec \<Rightarrow> json \<Rightarrow> json \<Rightarrow> dict \<Rightarrow> dict" where
  "stage_context spec body stage_id previous_evidence =
     (let nonempty = (\<lambda>k xs. if xs = [] then [] else [(k, str_list xs)]) in
      [(''stage_spec'', body), (''stage_id'', stage_id)] @
      (if previous_evidence = [] then [] else [(''previous_evidence'', JObj previous_evidence)]) @
      nonempty ''dependencies'' (sg_dependencies spec) @ nonempty ''expected_artifacts'' (sg_artifacts spec) @
      nonempty ''modifiable_scope'' (sg_modifiable_scope spec) @
      (if sg_functional spec = [] \<and> sg_interfaces spec = [] \<and> sg_constraints spec = [] \<and> sg_out_of_scope spec = [] then []
       else [(''scope'', JObj [(''functional'', str_list (sg_functional spec)), (''interfaces'', str_list (sg_interfaces spec)),
         (''constraints'', str_list (sg_constraints spec)), (''out_of_scope'', str_list (sg_out_of_scope spec))])]))"

definition stage_checks :: "(json \<Rightarrow> string) \<Rightarrow> dict \<Rightarrow> json \<Rightarrow> json list" where
  "stage_checks rp stage body = (let checks = collect_machine_checks body in
     if checks \<noteq> [] then checks
     else [JObj [(''kind'', JStr ''observable''), (''target'', JStr (''stage:'' @ py_str rp (dict_get_or stage ''id'' (JStr ''unknown'')))),
       (''mandatory'', JBool False), (''note'', JStr ''placeholder: stage acceptance is verifier/user-judged'')]])"

definition synthesize_stage_draft :: "rpc_env \<Rightarrow> goal_view \<Rightarrow> dict \<Rightarrow> dict \<Rightarrow> int \<Rightarrow> store \<Rightarrow> py_error + dict" where
  "synthesize_stage_draft x goal stage previous_evidence now s =
     (let rp = h_repr (rx_host x); plan = go_plan (gw_row goal); raw = dict_or_empty (dict_get stage ''spec'');
          env = spec_envelope rp stage; body = dict_get_or env ''acceptance'' (JObj raw) in
      sbind (stage_spec_from_dict rp (JObj env)) (\<lambda>spec.
      let title = py_str rp (py_or (dict_get stage ''title'') (py_or (JStr (sg_goal spec))
            (JStr (py_str rp (dict_get_or stage ''id'' (JStr ''stage''))))));
          objective = (if sg_goal spec \<noteq> [] then sg_goal spec
            else if go_objective (gw_row goal) \<noteq> [] then go_objective (gw_row goal) else title);
          deadline = (case sg_deadline_at spec of Some t \<Rightarrow> if t = [] then rx_fmt x (now + DAY) else t | None \<Rightarrow> rx_fmt x (now + DAY));
          cfg = dict_or_empty (dict_get plan ''execution_config'');
          hard = (if sg_modifiable_scope spec = [] then [] else [(''modifiable_scope'', str_list (sg_modifiable_scope spec))]) @
            (case pinned_workspace cfg of None \<Rightarrow> [] | Some w \<Rightarrow> [(''file_effects'', JObj (with_workspace w []))]) in
      sbind (granted_authority rp (dict_get cfg ''executor_grant'')) (\<lambda>authority.
      sbind (inherited_auto_approve rp plan stage s) (\<lambda>auto.
      Inr ([(''title'', JStr title), (''objective'', JStr objective), (''deadline_at'', JStr deadline),
          (''hard_constraints'', JObj hard),
          (''acceptance'', JObj [(''standard'', JStr objective), (''checks'', JList (stage_checks rp stage body)),
             (''verifier'', JStr ''cross_check''), (''spec'', body),
             (''spec_hash'', py_or (JStr (stage_spec_hash (rx_digest x) spec)) JNull)]),
          (''workload_estimate'', JObj [(''initial_hours'', JFloat (Fin 1))]),
          (''budget'', JObj [(''max_dispatches'', JInt (max 1 (sg_max_dispatches spec))), (''max_escalations'', JInt 2),
             (''max_concurrent_attempts'', JInt (max 1 (sg_max_concurrent_attempts spec))),
             (''max_attempt_minutes'', JInt (max 1 (sg_max_attempt_minutes spec))), (''max_output_bytes'', JInt 1048576)]),
          (''context'', JObj (stage_context spec body (dict_get stage ''id'') previous_evidence))] @
        (case authority of None \<Rightarrow> [] | Some a \<Rightarrow> [(''authority'', a)]) @
        (case auto of None \<Rightarrow> [] | Some a \<Rightarrow> [(''auto_approve'', auto_approve_to_dict a)]))))))"

end
