(* ===== verification/Goal_Rpc.thy ===== *)
theory Goal_Rpc
  imports Stage_Synth
begin

text \<open>
  \<open>longtask/rpc/handlers/goal.py\<close> and \<open>_lifecycle.py\<close>: the admission offer, the handlers of the \<open>goal/*\<close> methods, and the automatic
  creation of the contract of the next stage. \<open>contract_view\<close>s and goals become JSON as on the wire.

  An index that is out of range (\<open>IndexError\<close>) is reported as a \<open>KeyError\<close>. A transaction that fails inside an outer one leaves nothing
  behind (the one exception, an id that collides in its random part, is not modelled).
\<close>

section \<open>The admission offer\<close>

definition candidate_row :: "candidate_facts \<times> string list \<Rightarrow> dict" where
  "candidate_row c = (let f = fst c in
     [(''executor_id'', JStr (cf_executor f)), (''enabled'', JBool (cf_enabled f)), (''concurrency_available'', JBool (cf_concurrency f)),
      (''capability_satisfied'', JBool (cf_capability f)), (''constraint_enforcement_proven'', JBool (cf_constraint f)),
      (''budget_available'', JBool (cf_budget f)), (''verifier_independent'', JBool (cf_verifier_independent f)),
      (''requested_model'', JStr ''*''), (''models'', str_list (snd c)), (''requested_role'', JStr ''executor'')])"

definition strict_candidate_bool :: "dict \<Rightarrow> string \<Rightarrow> bool \<Rightarrow> rpc_failure + bool" where
  "strict_candidate_bool candidate k dflt = (case dict_get_or candidate k (JBool dflt) of
     JBool b \<Rightarrow> Inr b | _ \<Rightarrow> Inl (Rpc VALIDATION_FAILED ''admission candidate field must be a boolean''))"

definition raised :: "py_error + 'a \<Rightarrow> rpc_failure + 'a" where
  "raised r = (case r of Inl e \<Rightarrow> Inl (Raised (CallError e)) | Inr x \<Rightarrow> Inr x)"

definition facts_of_candidate :: "(json \<Rightarrow> string) \<Rightarrow> dict \<Rightarrow> rpc_failure + candidate_facts" where
  "facts_of_candidate rp cand =
     sbind (strict_candidate_bool cand ''enabled'' False) (\<lambda>enabled.
     sbind (strict_candidate_bool cand ''concurrency_available'' True) (\<lambda>concurrency.
     sbind (strict_candidate_bool cand ''capability_satisfied'' True) (\<lambda>capability.
     sbind (strict_candidate_bool cand ''constraint_enforcement_proven'' True) (\<lambda>constraint.
     sbind (strict_candidate_bool cand ''budget_available'' True) (\<lambda>budget.
     sbind (strict_candidate_bool cand ''verifier_independent'' True) (\<lambda>independent.
     Inr \<lparr>cf_executor = py_str rp (py_or (dict_get cand ''executor_id'') (JStr [])), cf_enabled = enabled, cf_concurrency = concurrency,
          cf_capability = capability, cf_constraint = constraint, cf_budget = budget, cf_verifier_independent = independent\<rparr>))))))"

text \<open>The models an offer tries: those of the candidate, or those the contract binds when the candidate takes any.\<close>

definition offer_models :: "(json \<Rightarrow> string) \<Rightarrow> authority \<Rightarrow> string \<Rightarrow> dict \<Rightarrow> py_error + string list" where
  "offer_models rp a executor_id cand =
     sbind (py_iter (py_or (dict_get cand ''models'') (JList [dict_get_or cand ''requested_model'' (JStr ''*'')]))) (\<lambda>raw.
     let named = filter (\<lambda>m. \<not> is_blank m) (map (py_str rp) raw);
         models = (if named = [] then [''*''] else named) in
     Inr (if ''*'' \<notin> set models then models
          else (case binding_for_executor a executor_id of
              None \<Rightarrow> models | Some b \<Rightarrow> if ab_models b = [''*''] then models else ab_models b)))"

definition offer_candidate :: "(json \<Rightarrow> string) \<Rightarrow> authority \<Rightarrow> dict \<Rightarrow> rpc_failure + bool \<times> candidate_view" where
  "offer_candidate rp a cand =
     sbind (facts_of_candidate rp cand) (\<lambda>f.
     sbind (raised (offer_models rp a (cf_executor f) cand)) (\<lambda>models.
     let role = py_str rp (dict_get_or cand ''requested_role'' (JStr ''executor'')) in
     case models of
       [] \<Rightarrow> Inl (Raised (CallError (KeyError ''tuple index out of range'')))
     | first # rest \<Rightarrow>
         (case find (\<lambda>m. eligible (evaluate_eligibility a f m role)) models of
            Some m \<Rightarrow> Inr (True, \<lparr>cw_executor = cf_executor f, cw_models = [m], cw_reason = ''all 7 conditions satisfied''\<rparr>)
          | None \<Rightarrow> Inr (False, \<lparr>cw_executor = cf_executor f, cw_models = [first],
              cw_reason = ''failed: '' @ join '','' (failed_conditions (evaluate_eligibility a f (last models) role))\<rparr>))))"

definition build_admission_offer :: "pyhost \<Rightarrow> dict \<Rightarrow> dict list \<Rightarrow> rpc_failure + offer" where
  "build_admission_offer h draft_dict registry_view =
     sbind (raised (draft_from_dict h draft_dict)) (\<lambda>draft.
     sbind (smap (offer_candidate (h_repr h) (cd_authority draft)) registry_view) (\<lambda>cs.
     Inr \<lparr>of_eligible = map snd (filter fst cs), of_rejected = map snd (filter (\<lambda>c. \<not> fst c) cs),
          of_acceptance_executable = (ac_checks (cd_acceptance draft) \<noteq> []), of_p50 = None, of_p90 = None, of_confidence = None,
          of_reserve_sufficient = True, of_safe_start_by = None, of_risks = [], of_guarantees = []\<rparr>))"

definition candidate_view_to_dict :: "candidate_view \<Rightarrow> json" where
  "candidate_view_to_dict c = JObj [(''executor_id'', JStr (cw_executor c)), (''models'', str_list (cw_models c)), (''reason'', JStr (cw_reason c))]"

definition offer_to_dict :: "(int \<Rightarrow> string) \<Rightarrow> offer \<Rightarrow> json" where
  "offer_to_dict fmt o' = JObj
     [(''eligible_executors'', JList (map candidate_view_to_dict (of_eligible o'))),
      (''rejected_executors'', JList (map candidate_view_to_dict (of_rejected o'))),
      (''acceptance_executable'', JBool (of_acceptance_executable o')), (''forecast_p50_minutes'', jopt (\<lambda>q. JFloat (Fin q)) (of_p50 o')),
      (''forecast_p90_minutes'', jopt (\<lambda>q. JFloat (Fin q)) (of_p90 o')), (''forecast_confidence'', jopt (\<lambda>q. JFloat (Fin q)) (of_confidence o')),
      (''verification_reserve_sufficient'', JBool (of_reserve_sufficient o')), (''safe_start_by'', jopt (\<lambda>t. JStr (fmt t)) (of_safe_start_by o')),
      (''uncontrolled_risks'', str_list (of_risks o')), (''declared_guarantees'', str_list (of_guarantees o'))]"

text \<open>The candidates of the registry as they stand, for a draft; no registry offers nobody.\<close>

definition registry_candidates :: "pyhost \<Rightarrow> registry option \<Rightarrow> contract_draft \<Rightarrow> store \<Rightarrow> rpc_failure + dict list" where
  "registry_candidates h registry draft s = (case registry of
     None \<Rightarrow> Inr []
   | Some r \<Rightarrow> sbind (raised (snapshot_for_admission (h_repr h) r (Some (DraftSource draft)) (count_running_by_executor s)))
       (\<lambda>cs. Inr (map candidate_row cs)))"

section \<open>goal/prepare\<close>

text \<open>The first stage of a submitted plan whose specification is malformed.\<close>

fun check_stages :: "(json \<Rightarrow> string) \<Rightarrow> json list \<Rightarrow> rpc_failure + unit" where
  "check_stages rp [] = Inr ()"
| "check_stages rp (stage # stages) = sbind (raised (validate_stage_entry rp stage)) (\<lambda>errors.
     if errors \<noteq> [] then Inl (Rpc VALIDATION_FAILED ''stage has invalid spec'') else check_stages rp stages)"

definition check_submitted_plan :: "(json \<Rightarrow> string) \<Rightarrow> dict \<Rightarrow> dict \<Rightarrow> rpc_failure + unit" where
  "check_submitted_plan rp params draft = (case py_or (dict_get params ''plan'') (py_or (dict_get draft ''plan'') (dict_get draft ''goal_plan'')) of
     JObj plan \<Rightarrow> sbind (raised (py_iter (py_or (dict_get plan ''stages'') (JList [])))) (check_stages rp)
   | _ \<Rightarrow> Inr ())"

definition checked_draft :: "pyhost \<Rightarrow> json \<Rightarrow> rpc_failure + dict" where
  "checked_draft h draft_data = (case draft_data of
     JObj d \<Rightarrow> sbind (raised (validate_draft h d)) (\<lambda>errors. if errors \<noteq> [] then Inl (Rpc VALIDATION_FAILED ''invalid draft'') else Inr d)
   | _ \<Rightarrow> Inl (Raised (CallError (AttributeError ''validate''))))"

definition text_param :: "(json \<Rightarrow> string) \<Rightarrow> dict \<Rightarrow> string \<Rightarrow> string" where
  "text_param rp params k = strip (py_str rp (dict_get_or params k (JStr [])))"

text \<open>A replay: the contract that was named, or the first one that an event of this request names.\<close>

definition replayed_prepare :: "(json \<Rightarrow> string) \<Rightarrow> envelope \<Rightarrow> store \<Rightarrow> contract_view option" where
  "replayed_prepare rp e s =
     (let named = text_param rp (rq_params e) ''contract_id'' in
      case (if named = [] then None else get_contract s named) of
        Some v \<Rightarrow> Some v
      | None \<Rightarrow> (case filter (\<lambda>v. v \<noteq> None) (map (\<lambda>ev. get_contract s (text_or (ev_contract ev) []))
            (filter (\<lambda>ev. text_or (ev_contract ev) [] \<noteq> []) (get_events_by_request_id (rq_request e) (st_log s)))) of
          [] \<Rightarrow> None | v # _ \<Rightarrow> v))"

definition find_stage :: "(json \<Rightarrow> string) \<Rightarrow> string \<Rightarrow> json list \<Rightarrow> dict option" where
  "find_stage rp stage_id items = find (\<lambda>d. py_str rp (dict_get d ''id'') = stage_id) (dict_items items)"

definition check_stage_binding ::
  "(json \<Rightarrow> string) \<Rightarrow> goal_view option \<Rightarrow> string \<Rightarrow> string \<Rightarrow> contract_draft \<Rightarrow> rpc_failure + unit" where
  "check_stage_binding rp goal stage_id contract_id draft =
     sbind (of_option (Rpc UNKNOWN_CONTRACT ''goal_id not found'') goal) (\<lambda>g.
     sbind (raised (py_iter (dict_get_or (go_plan (gw_row g)) ''stages'' (JList [])))) (\<lambda>stages.
     sbind (of_option (Rpc VALIDATION_FAILED ''stage_id is not in Goal plan'') (find_stage rp stage_id stages)) (\<lambda>stage.
     sbind (let bound = dict_get stage ''contract_id'' in
            require (\<not> (truthy bound \<and> bound \<noteq> JStr contract_id)) (Rpc VALIDATION_FAILED ''stage already has a contract'')) (\<lambda>_.
     case dict_get_or stage ''acceptance_checks'' (JList []) of
       JList required \<Rightarrow>
         require (set (map (\<lambda>v. strip (py_str rp v)) required) \<subseteq> set (map check_identity (ac_checks (cd_acceptance draft))))
           (Rpc VALIDATION_FAILED ''contract acceptance checks do not cover stage requirements'')
     | _ \<Rightarrow> Inr ()))))"

text \<open>The plan with the contract bound to its stage.\<close>

definition bind_stage :: "(json \<Rightarrow> string) \<Rightarrow> string \<Rightarrow> string \<Rightarrow> dict \<Rightarrow> py_error + dict" where
  "bind_stage rp stage_id contract_id plan =
     sbind (py_iter (dict_get_or plan ''stages'' (JList []))) (\<lambda>items.
     sbind (smap dict_of items) (\<lambda>stages.
     Inr (put ''stages'' (JList (map (\<lambda>d. JObj (if py_str rp (dict_get d ''id'') = stage_id
       then put ''contract_id'' (JStr contract_id) d else d)) stages)) plan)))"

definition prepare_call :: "contract_draft \<Rightarrow> string \<Rightarrow> string option \<Rightarrow> int \<Rightarrow> envelope \<Rightarrow> string \<Rightarrow> save_call" where
  "prepare_call draft contract_id goal_id now e actor = \<lparr>sv_draft = draft, sv_contract = contract_id, sv_now = now, sv_goal = goal_id,
     sv_state = Drafted, sv_revision = 1, sv_next_wakeup = None, sv_blocked = None, sv_deadline = NotDue, sv_acceptance = Pending,
     sv_next_decision = None, sv_request = Some (rq_request e), sv_actor = actor, sv_schema = STORE_SCHEMA_VERSION\<rparr>"

definition prepare_result :: "rpc_env \<Rightarrow> contract_view \<Rightarrow> offer \<Rightarrow> dict" where
  "prepare_result x v o' = ok_result (JObj [(''contract'', JObj (contract_view_to_dict (rx_host x) (rx_fmt x) v)),
     (''admission'', offer_to_dict (rx_fmt x) o')])"

definition offer_for :: "rpc_env \<Rightarrow> contract_view \<Rightarrow> dict list \<Rightarrow> rpc_failure + offer" where
  "offer_for x v candidates = build_admission_offer (rx_host x) (draft_to_dict (rx_host x) (cv_draft v)) candidates"

text \<open>The id: the given one if it is safe, or one that the clock gives.\<close>

definition prepare_contract_id :: "rpc_env \<Rightarrow> envelope \<Rightarrow> int \<Rightarrow> rpc_failure + string" where
  "prepare_contract_id x e now = (let given = text_param (h_repr (rx_host x)) (rq_params e) ''contract_id'' in
     if given = [] then Inr (rx_auto_id x now)
     else if is_safe_contract_id (JStr given) then Inr given
     else Inl (Rpc VALIDATION_FAILED ''contract_id must be a path-free slug''))"

definition prepare_guards ::
  "rpc_env \<Rightarrow> envelope \<Rightarrow> int \<Rightarrow> contract_draft \<Rightarrow> store \<Rightarrow> rpc_failure + string \<times> string \<times> string \<times> goal_view option" where
  "prepare_guards x e now draft s =
     (let rp = h_repr (rx_host x); goal_id = text_param rp (rq_params e) ''goal_id''; stage_id = text_param rp (rq_params e) ''stage_id'';
          goal = (if goal_id = [] then None else get_goal s goal_id) in
      sbind (prepare_contract_id x e now) (\<lambda>contract_id.
      sbind (resolve_actor e) (\<lambda>actor.
      sbind (if stage_id = [] then Inr () else check_stage_binding rp goal stage_id contract_id draft) (\<lambda>_.
      Inr (contract_id, actor, stage_id, goal)))))"

text \<open>After the contract is stored: the offer, the binding of the stage, and one more prepared event.\<close>

definition finish_prepare ::
  "rpc_env \<Rightarrow> registry option \<Rightarrow> envelope \<Rightarrow> int \<Rightarrow> string \<Rightarrow> string \<Rightarrow> string \<Rightarrow> goal_view option \<Rightarrow> contract_draft \<Rightarrow> contract_view \<Rightarrow> dict rpc" where
  "finish_prepare x registry e now contract_id actor stage_id goal draft v = (let rp = h_repr (rx_host x) in
     rbind (rread (registry_candidates (rx_host x) registry draft)) (\<lambda>candidates.
     rbind (rlift candidates) (\<lambda>candidates.
     rbind (rlift (offer_for x v candidates)) (\<lambda>offer.
     rbind (if stage_id = [] then rpure ()
       else case goal of
         None \<Rightarrow> rpure ()
       | Some g \<Rightarrow>
           rbind (rlift (raised (bind_stage rp stage_id contract_id (go_plan (gw_row g))))) (\<lambda>plan.
           rbind (rcommit Raised (patch_goal rp \<lparr>gp_goal = text_param rp (rq_params e) ''goal_id'', gp_now = now, gp_plan = Some plan,
             gp_progress = None, gp_expected = Some (go_revision (gw_row g)), gp_actor = actor\<rparr>)) (\<lambda>_. rpure ()))) (\<lambda>_.
     rbind (rwrite (\<lambda>s. snd (log_event ((event_call (Some contract_id) CONTRACT_PREPARED
         [(''goal_prepare'', JBool True), (''eligible_executors'', str_list (map cw_executor (of_eligible offer))),
          (''rejected_executors'', str_list (map cw_executor (of_rejected offer)))] now)
         \<lparr>ne_goal := Some (cv_goal_id v), ne_actor := actor\<rparr>) s))) (\<lambda>_.
     rpure (prepare_result x v offer)))))))"

definition goal_param :: "(json \<Rightarrow> string) \<Rightarrow> dict \<Rightarrow> string option" where
  "goal_param rp params = (if truthy (dict_get params ''goal_id'') then Some (strip (py_str rp (dict_get params ''goal_id''))) else None)"

definition handle_goal_prepare :: "rpc_env \<Rightarrow> registry option \<Rightarrow> envelope \<Rightarrow> int \<Rightarrow> dict rpc" where
  "handle_goal_prepare x registry e now = (let rp = h_repr (rx_host x); params = rq_params e in
     rbind (rlift (checked_draft (rx_host x) (dict_get_or params ''draft'' (JObj params)))) (\<lambda>draft_data.
     rbind (rlift (check_submitted_plan rp params draft_data)) (\<lambda>_.
     rbind (rread (\<lambda>s. request_events s (Some (rq_request e)))) (\<lambda>existing.
     if existing \<noteq> [] then
       rbind (rread (replayed_prepare rp e)) (\<lambda>v.
       rbind (rlift (of_option (Rpc UNKNOWN_CONTRACT ''idempotent replay: original contract not found'') v)) (\<lambda>v.
       rbind (rlift (offer_for x v [])) (\<lambda>offer. rpure (prepare_result x v offer))))
     else
       rbind (rlift (raised (draft_from_dict (rx_host x) draft_data))) (\<lambda>draft.
       rbind (rread (prepare_guards x e now draft)) (\<lambda>guards.
       rbind (rlift guards) (\<lambda>(contract_id, actor, stage_id, goal).
       rbind (rcommit Raised (save_contract (rx_host x) (prepare_call draft contract_id (goal_param rp params) now e actor))) (\<lambda>v.
       finish_prepare x registry e now contract_id actor stage_id goal draft v))))))))"

section \<open>The other goal methods\<close>

definition timeline_to_dict :: "(int \<Rightarrow> string) \<Rightarrow> event \<Rightarrow> json" where
  "timeline_to_dict fmt e = JObj [(''contract_id'', opt_str (ev_contract e)), (''attempt_id'', opt_str (ev_attempt e)),
     (''event_type'', JStr (ev_type e)), (''created_at'', JStr (fmt (ev_created e))), (''actor'', JStr (ev_actor e)),
     (''payload'', JObj (ev_payload e))]"

definition goal_view_to_dict :: "rpc_env \<Rightarrow> goal_view \<Rightarrow> json" where
  "goal_view_to_dict x g = (let row = gw_row g in JObj
     [(''goal_id'', JStr (gw_goal_id g)), (''revision'', JInt (go_revision row)), (''title'', JStr (go_title row)),
      (''objective'', JStr (go_objective row)), (''plan'', JObj (go_plan row)), (''progress'', JObj (go_progress row)),
      (''created_at'', JStr (rx_fmt x (go_created_at row))), (''updated_at'', JStr (rx_fmt x (go_updated_at row))),
      (''schema_version'', JInt STORE_SCHEMA_VERSION), (''contract_ids'', str_list (gw_contract_ids g)),
      (''contract_count'', JInt (int (length (gw_contract_ids g)))),
      (''state_counts'', JObj (map (\<lambda>(k, n). (k, JInt n)) (gw_state_counts g))),
      (''current_contract'', jopt (\<lambda>v. JObj (contract_view_to_dict (rx_host x) (rx_fmt x) v)) (gw_current_contract g)),
      (''deadline_snapshot'', jopt JObj (gw_deadline_snapshot g)), (''active_attempt_count'', JInt (gw_active_attempts g)),
      (''timeline'', JList (map (timeline_to_dict (rx_fmt x)) (gw_timeline g)))])"

definition next_action_to_dict :: "(int \<Rightarrow> string) \<Rightarrow> next_action \<Rightarrow> json" where
  "next_action_to_dict fmt a = (case a of
     SatisfiedAction g \<Rightarrow> JObj [(''goal_id'', JStr g), (''action'', JStr ''satisfied''), (''reason'', JStr ''all planned stages completed'')]
   | ResumeContract g current stage c status t \<Rightarrow> JObj [(''goal_id'', JStr g), (''stage_id'', current), (''stage'', jopt JObj stage),
       (''action'', JStr ''resume_contract''), (''contract_id'', JStr c), (''deadline_status'', JStr (deadline_status_value status)),
       (''next_decision_at'', jopt (\<lambda>t. JStr (fmt t)) t)]
   | CreateContract g current stage \<Rightarrow> JObj [(''goal_id'', JStr g), (''stage_id'', current), (''stage'', jopt JObj stage),
       (''action'', JStr ''create_contract''), (''reason'', JStr ''current stage has no non-terminal contract'')])"

text \<open>\<open>except RevisionConflictError\<close> and \<open>except StoreError\<close> of the goal methods; \<open>except ValueError\<close> before them in two.\<close>

definition goal_failure :: "store_error \<Rightarrow> rpc_failure" where
  "goal_failure err = (case err of RevisionConflictError a b \<Rightarrow> Rpc REVISION_CONFLICT ''revision conflict''
     | _ \<Rightarrow> if is_store_error err then Rpc UNKNOWN_CONTRACT ''store error'' else Raised err)"

definition goal_value_failure :: "store_error \<Rightarrow> rpc_failure" where
  "goal_value_failure err = (case err of CallError (ValueError m) \<Rightarrow> Rpc VALIDATION_FAILED m | _ \<Rightarrow> goal_failure err)"

definition require_goal_id :: "(json \<Rightarrow> string) \<Rightarrow> dict \<Rightarrow> rpc_failure + string" where
  "require_goal_id rp params = (let goal_id = text_param rp params ''goal_id'' in
     if goal_id = [] then Inl (Rpc VALIDATION_FAILED ''goal_id is required'') else Inr goal_id)"

definition handle_goal_admission_check :: "rpc_env \<Rightarrow> registry option \<Rightarrow> envelope \<Rightarrow> int \<Rightarrow> dict rpc" where
  "handle_goal_admission_check x registry e now = (let contract_id = text_param (h_repr (rx_host x)) (rq_params e) ''contract_id'' in
     rbind (rcheck (contract_id \<noteq> []) VALIDATION_FAILED ''contract_id is required'') (\<lambda>_.
     rbind (current_contract contract_id) (\<lambda>v.
     rbind (rread (registry_candidates (rx_host x) registry (cv_draft v))) (\<lambda>candidates.
     rbind (rlift candidates) (\<lambda>candidates.
     rbind (rlift (offer_for x v candidates)) (\<lambda>offer.
     rpure (ok_result (JObj [(''contract_id'', JStr contract_id), (''admission'', offer_to_dict (rx_fmt x) offer)]))))))))"

definition handle_goal_get :: "rpc_env \<Rightarrow> envelope \<Rightarrow> dict rpc" where
  "handle_goal_get x e =
     rbind (rlift (require_goal_id (h_repr (rx_host x)) (rq_params e))) (\<lambda>goal_id.
     rbind (rread (\<lambda>s. get_goal s goal_id)) (\<lambda>g.
     rbind (rlift (of_option (Rpc UNKNOWN_CONTRACT ''goal not found'') g)) (\<lambda>g.
     rpure (ok_result (JObj [(''goal'', goal_view_to_dict x g)])))))"

definition handle_goal_list :: "rpc_env \<Rightarrow> envelope \<Rightarrow> dict rpc" where
  "handle_goal_list x e =
     rbind (rlift (case dict_get_or (rq_params e) ''limit'' (JInt 20) of
         JNull \<Rightarrow> Inl (Rpc VALIDATION_FAILED ''limit must be an integer'') | raw \<Rightarrow> coerce_int raw)) (\<lambda>limit.
     rbind (rread (\<lambda>s. list_goals s (max 1 (min 1000 (the limit))))) (\<lambda>goals.
     rpure (ok_result (JObj [(''goals'', JList (map (goal_view_to_dict x) goals))]))))"

definition dict_param :: "dict \<Rightarrow> string \<Rightarrow> rpc_failure + dict option" where
  "dict_param params k = (case map_of params k of
     None \<Rightarrow> Inr None | Some (JObj d) \<Rightarrow> Inr (Some d) | Some _ \<Rightarrow> Inl (Rpc VALIDATION_FAILED ''must be an object''))"

definition handle_goal_update :: "rpc_env \<Rightarrow> envelope \<Rightarrow> int \<Rightarrow> dict rpc" where
  "handle_goal_update x e now = (let rp = h_repr (rx_host x); params = rq_params e in
     rbind (rlift (require_principal e)) (\<lambda>_.
     rbind (rlift (require_goal_id rp params)) (\<lambda>goal_id.
     rbind (rlift (dict_param params ''plan'')) (\<lambda>plan.
     rbind (rlift (dict_param params ''progress'')) (\<lambda>progress.
     rbind (rlift (case dict_get params ''revision'' of JNull \<Rightarrow> Inr None | JInt i \<Rightarrow> Inr (Some i)
         | _ \<Rightarrow> Inl (Rpc VALIDATION_FAILED ''revision must be an integer''))) (\<lambda>expected.
     rbind (rlift (resolve_actor e)) (\<lambda>actor.
     rbind (rcommit goal_failure (patch_goal rp \<lparr>gp_goal = goal_id, gp_now = now, gp_plan = plan, gp_progress = progress,
       gp_expected = expected, gp_actor = actor\<rparr>)) (\<lambda>g.
     rpure (ok_result (JObj [(''goal'', goal_view_to_dict x g)]))))))))))"

definition handle_goal_advance :: "rpc_env \<Rightarrow> envelope \<Rightarrow> int \<Rightarrow> dict rpc" where
  "handle_goal_advance x e now = (let rp = h_repr (rx_host x); goal_id = text_param rp (rq_params e) ''goal_id'';
       stage_id = text_param rp (rq_params e) ''stage_id'' in
     rbind (rlift (case dict_get (rq_params e) ''revision'' of
         JInt i \<Rightarrow> if goal_id = [] \<or> stage_id = [] then Inl (Rpc VALIDATION_FAILED ''goal_id, stage_id and integer revision are required'') else Inr i
       | _ \<Rightarrow> Inl (Rpc VALIDATION_FAILED ''goal_id, stage_id and integer revision are required''))) (\<lambda>revision.
     rbind (rlift (resolve_actor e)) (\<lambda>actor.
     rbind (rcommit goal_value_failure (advance_goal rp goal_id stage_id now revision actor)) (\<lambda>g.
     rpure (ok_result (JObj [(''goal'', goal_view_to_dict x g)]))))))"

definition handle_goal_next :: "rpc_env \<Rightarrow> envelope \<Rightarrow> dict rpc" where
  "handle_goal_next x e = (let rp = h_repr (rx_host x) in
     rbind (rlift (require_goal_id rp (rq_params e))) (\<lambda>goal_id.
     rbind (rread (\<lambda>s. goal_next_action rp s goal_id)) (\<lambda>r.
     rbind (rlift (case r of Inr a \<Rightarrow> Inr a
         | Inl err \<Rightarrow> Inl (if is_store_error err then Rpc UNKNOWN_CONTRACT ''store error'' else Raised err))) (\<lambda>a.
     rpure (ok_result (JObj [(''next'', next_action_to_dict (rx_fmt x) a)]))))))"

definition handle_goal_contract_draft :: "rpc_env \<Rightarrow> envelope \<Rightarrow> dict rpc" where
  "handle_goal_contract_draft x e = (let rp = h_repr (rx_host x); stage_id = dict_get (rq_params e) ''stage_id'' in
     rbind (rlift (require_goal_id rp (rq_params e))) (\<lambda>goal_id.
     rbind (rread (\<lambda>s. goal_contract_draft rp s goal_id (if stage_id = JNull then None else Some (strip (py_str rp stage_id))))) (\<lambda>r.
     rbind (rlift (case r of Inr a \<Rightarrow> Inr a
         | Inl (CallError (ValueError m)) \<Rightarrow> Inl (Rpc VALIDATION_FAILED m)
         | Inl err \<Rightarrow> Inl (if is_store_error err then Rpc UNKNOWN_CONTRACT ''store error'' else Raised err))) (\<lambda>(stage, draft).
     rpure (ok_result (JObj [(''goal_id'', JStr goal_id), (''stage'', JObj stage), (''draft'', JObj draft)]))))))"

section \<open>The contract of the next stage\<close>

definition open_next_stage :: "(json \<Rightarrow> string) \<Rightarrow> goal_view \<Rightarrow> (json \<times> dict) option" where
  "open_next_stage rp g = (let current = dict_get (go_progress (gw_row g)) ''current'' in
     if \<not> truthy current then None
     else (case dict_get (go_plan (gw_row g)) ''stages'' of
         JList stages \<Rightarrow>
           (case find (\<lambda>d. py_str rp (dict_get_or d ''id'' (JStr [])) = py_str rp current) (dict_items stages) of
              None \<Rightarrow> None
            | Some stage \<Rightarrow> if truthy (dict_get stage ''contract_id'') then None else Some (current, stage))
       | _ \<Rightarrow> None))"

definition with_evidence :: "dict \<Rightarrow> dict \<Rightarrow> py_error + dict" where
  "with_evidence previous_evidence draft = (if previous_evidence = [] then Inr draft
     else (case dict_get draft ''context'' of
         JObj c \<Rightarrow> Inr (put ''context'' (JObj (put ''previous_evidence'' (JObj previous_evidence) c)) draft)
       | _ \<Rightarrow> Inl (TypeError ''object does not support item assignment'')))"

definition with_pinned_workspace :: "dict \<Rightarrow> dict \<Rightarrow> py_error + dict" where
  "with_pinned_workspace cfg draft = (case pinned_workspace cfg of
     None \<Rightarrow> Inr draft
   | Some w \<Rightarrow>
       sbind (py_dict (dict_get draft ''hard_constraints'')) (\<lambda>hard.
       sbind (py_dict (dict_get hard ''file_effects'')) (\<lambda>fe.
       Inr (put ''hard_constraints'' (JObj (put ''file_effects'' (JObj (with_workspace w fe)) hard)) draft))))"

definition with_pinned_authority :: "(json \<Rightarrow> string) \<Rightarrow> dict \<Rightarrow> dict \<Rightarrow> py_error + dict" where
  "with_pinned_authority rp cfg draft = (case dict_get cfg ''executor_grant'' of
     JList (item # items) \<Rightarrow>
       (case py_or (dict_get draft ''authority'') (JObj []) of
          JObj a \<Rightarrow>
            if truthy (dict_get a ''executors'') then Inr draft
            else sbind (granted_authority rp (JList (item # items))) (\<lambda>g. Inr (case g of None \<Rightarrow> draft | Some v \<Rightarrow> put ''authority'' v draft))
        | _ \<Rightarrow> Inl (AttributeError ''get''))
   | _ \<Rightarrow> Inr draft)"

definition inline_stage_draft :: "(json \<Rightarrow> string) \<Rightarrow> dict \<Rightarrow> dict \<Rightarrow> dict \<Rightarrow> py_error + dict" where
  "inline_stage_draft rp plan previous_evidence inline = (let cfg = dict_or_empty (dict_get plan ''execution_config'') in
     sbind (with_evidence previous_evidence (set_default ''context'' (JObj []) inline)) (\<lambda>draft.
     sbind (with_pinned_workspace cfg draft) (with_pinned_authority rp cfg)))"

definition next_stage_draft :: "rpc_env \<Rightarrow> goal_view \<Rightarrow> dict \<Rightarrow> dict \<Rightarrow> int \<Rightarrow> store \<Rightarrow> py_error + dict option" where
  "next_stage_draft x g stage previous_evidence now s = (case dict_get stage ''draft'' of
     JObj inline \<Rightarrow> sbind (inline_stage_draft (h_repr (rx_host x)) (go_plan (gw_row g)) previous_evidence inline) (\<lambda>d. Inr (Some d))
   | _ \<Rightarrow> (case dict_get stage ''spec'' of
        JObj spec \<Rightarrow> sbind (synthesize_stage_draft x g stage previous_evidence now s) (\<lambda>d. Inr (Some d))
      | _ \<Rightarrow> Inr None))"

text \<open>
  What fails while the draft is built is raised; what fails from then on is logged and leaves what was done by then.
\<close>

definition auto_create_next_stage_contract :: "rpc_env \<Rightarrow> contract_view \<Rightarrow> int \<Rightarrow> dict \<Rightarrow> store \<Rightarrow> py_error + store" where
  "auto_create_next_stage_contract x contract now previous_evidence s = (let rp = h_repr (rx_host x) in
     case get_goal s (cv_goal_id contract) of
       None \<Rightarrow> Inr s
     | Some g \<Rightarrow>
         (case open_next_stage rp g of
            None \<Rightarrow> Inr s
          | Some (stage_id, stage) \<Rightarrow>
              sbind (next_stage_draft x g stage previous_evidence now s) (\<lambda>draft. case draft of
                None \<Rightarrow> Inr s
              | Some draft \<Rightarrow>
                  (let new_cid = ''lt-'' @ rx_day x now @ ''-'' @ py_str rp stage_id @ ''-'' @ rx_random x;
                       e = \<lparr>rq_method = ''goal/prepare'', rq_request = ''req-auto-'' @ py_str rp stage_id @ ''-'' @ new_cid,
                            rq_client = ''daemon'', rq_params = [(''contract_id'', JStr new_cid), (''goal_id'', JStr (cv_goal_id contract)),
                              (''stage_id'', JStr (py_str rp stage_id)), (''draft'', JObj draft)]\<rparr> in
                   case handle_goal_prepare x None e now s of
                     (Inl f, s1) \<Rightarrow> Inr s1
                   | (Inr r, s1) \<Rightarrow>
                       (case get_contract s1 new_cid of
                          None \<Rightarrow> Inr s1
                        | Some v \<Rightarrow> (case auto_approve_drafted_contract rp (rx_pick x) (rx_zone x) v now s1 of
                            Inl err \<Rightarrow> Inr s1 | Inr (b, s2) \<Rightarrow> Inr s2))))))"

end
