(* ===== verification/Contract_Rpc.thy ===== *)
theory Contract_Rpc
  imports Goal_Rpc
begin

text \<open>
  \<open>longtask/rpc/handlers/contract.py\<close>: the handlers of the \<open>contract/*\<close> methods. Who may call what is decided here: the life of a
  contract is the Principal's, except for the automatic approval (the daemon) and the request of a verification.
\<close>

definition CONTRACT_RESUMED :: event_type where "CONTRACT_RESUMED = ''contract/resumed''"
definition VERIFICATION_REQUESTED :: event_type where "VERIFICATION_REQUESTED = ''verification/requested''"
definition VERIFICATION_CONSUMED :: event_type where "VERIFICATION_CONSUMED = ''verification/consumed''"
definition VERIFICATION_STARTED :: event_type where "VERIFICATION_STARTED = ''verification/started''"
definition ACCEPTANCE_STATUS_CHANGED :: event_type where "ACCEPTANCE_STATUS_CHANGED = ''acceptance/status-changed''"
definition ATTEMPT_SUCCEEDED :: event_type where "ATTEMPT_SUCCEEDED = ''attempt/succeeded''"

section \<open>Drafting\<close>

definition handle_contract_prepare :: "rpc_env \<Rightarrow> envelope \<Rightarrow> int \<Rightarrow> dict rpc" where
  "handle_contract_prepare x e now = (let rp = h_repr (rx_host x); params = rq_params e; given = text_param rp params ''contract_id'';
       goal_id = strip (py_str rp (py_or (dict_get params ''goal_id'') (JStr []))) in
     rbind (rlift (parse_contract_draft (rx_host x) e)) (\<lambda>draft.
     rbind (rcheck (given = [] \<or> matches_contract_id given) VALIDATION_FAILED ''contract_id violates format'') (\<lambda>_.
     rbind (rlift (resolve_actor e)) (\<lambda>actor.
     rbind (rcommit (\<lambda>err. case err of
           StoreTamperedError m \<Rightarrow> Rpc STORE_TAMPERED m
         | IdempotencyMismatchError m \<Rightarrow> Rpc IDEMPOTENCY_REPLAY_MISMATCH m
         | _ \<Rightarrow> if is_store_error err then Rpc INTERNAL ''store error'' else Raised err)
       (save_contract (rx_host x) (prepare_call draft (if given = [] then rx_auto_id x now else given)
          (if goal_id = [] then None else Some goal_id) now e actor))) (\<lambda>v.
     rpure (view_result x v))))))"

section \<open>The life of a contract\<close>

definition state_change :: "envelope \<Rightarrow> string \<Rightarrow> contract_state \<Rightarrow> int \<Rightarrow> int option \<Rightarrow> event_type option \<Rightarrow> dict \<Rightarrow> string \<Rightarrow> update_call" where
  "state_change e contract_id st now expected ev payload actor = \<lparr>uc_contract = contract_id, uc_state = st, uc_now = now,
     uc_expected = expected, uc_blocked = None, uc_next_wakeup = None, uc_deadline = None, uc_acceptance = None, uc_next_decision = None,
     uc_event = ev, uc_payload = payload, uc_request = Some (rq_request e), uc_actor = actor, uc_schema = STORE_SCHEMA_VERSION\<rparr>"

text \<open>What the five changes of state share: read the contract, check its state, change it.\<close>

definition change_contract ::
  "rpc_env \<Rightarrow> envelope \<Rightarrow> int \<Rightarrow> string \<Rightarrow> (contract_state \<Rightarrow> bool) \<Rightarrow> (string \<Rightarrow> update_call) \<Rightarrow> dict rpc" where
  "change_contract x e now contract_id allowed call =
     rbind (current_contract contract_id) (\<lambda>current.
     rbind (rcheck (allowed (cv_state current)) STATE_FORBIDDEN ''not in this state'') (\<lambda>_.
     rbind (rlift (resolve_actor e)) (\<lambda>actor.
     rbind (rcommit update_failure (update_contract_state (rx_zone x) (call actor))) (\<lambda>v.
     rpure (view_result x v)))))"

text \<open>The order in which the Principal's methods check: the id, the caller, the replay.\<close>

definition principal_only :: "rpc_env \<Rightarrow> envelope \<Rightarrow> (string \<Rightarrow> dict rpc) \<Rightarrow> dict rpc" where
  "principal_only x e rest =
     rbind (rlift (require_contract_id (rq_params e))) (\<lambda>contract_id.
     rbind (rlift (require_principal e)) (\<lambda>_. replay_or x e contract_id (rest contract_id)))"

definition expected_revision_param :: "envelope \<Rightarrow> rpc_failure + int option" where
  "expected_revision_param e = coerce_int (dict_get (rq_params e) ''expected_revision'')"

definition reason_payload :: "(json \<Rightarrow> string) \<Rightarrow> dict \<Rightarrow> dict" where
  "reason_payload rp params = (let reason = dict_get params ''reason'' in
     if truthy reason then [(''reason'', JStr (py_str rp reason))] else [])"

definition handle_contract_approve :: "rpc_env \<Rightarrow> envelope \<Rightarrow> int \<Rightarrow> dict rpc" where
  "handle_contract_approve x e now = principal_only x e (\<lambda>contract_id.
     rbind (rlift (expected_revision_param e)) (\<lambda>expected.
     change_contract x e now contract_id (\<lambda>st. is_valid_transition st Active \<and> st = Drafted)
       (state_change e contract_id Active now expected None [])))"

definition handle_contract_pause :: "rpc_env \<Rightarrow> envelope \<Rightarrow> int \<Rightarrow> dict rpc" where
  "handle_contract_pause x e now = principal_only x e (\<lambda>contract_id.
     rbind (rlift (expected_revision_param e)) (\<lambda>expected.
     change_contract x e now contract_id (\<lambda>st. is_valid_transition st Paused)
       (state_change e contract_id Paused now expected (Some CONTRACT_PAUSED) (reason_payload (h_repr (rx_host x)) (rq_params e)))))"

definition handle_contract_resume :: "rpc_env \<Rightarrow> envelope \<Rightarrow> int \<Rightarrow> dict rpc" where
  "handle_contract_resume x e now = principal_only x e (\<lambda>contract_id.
     rbind (rlift (expected_revision_param e)) (\<lambda>expected.
     change_contract x e now contract_id (\<lambda>st. st \<in> {Paused, Blocked} \<and> is_valid_transition st Active)
       (state_change e contract_id Active now expected (Some CONTRACT_RESUMED) [])))"

definition handle_contract_cancel :: "rpc_env \<Rightarrow> envelope \<Rightarrow> int \<Rightarrow> dict rpc" where
  "handle_contract_cancel x e now = principal_only x e (\<lambda>contract_id.
     rbind (rlift (expected_revision_param e)) (\<lambda>expected.
     change_contract x e now contract_id (\<lambda>st. \<not> (is_terminal_state st \<or> \<not> is_valid_transition st Cancelled))
       (state_change e contract_id Cancelled now expected (Some CONTRACT_CANCELLED) (reason_payload (h_repr (rx_host x)) (rq_params e)))))"

definition ARBITRATION_DECISIONS :: "(string \<times> contract_state) list" where
  "ARBITRATION_DECISIONS = [(''complete'', Complete), (''accepted'', Complete), (''archived'', Archived), (''discard'', Archived),
     (''active'', Active), (''extend'', Active), (''resume'', Active)]"

definition handle_contract_arbitrate :: "rpc_env \<Rightarrow> envelope \<Rightarrow> int \<Rightarrow> dict rpc" where
  "handle_contract_arbitrate x e now = principal_only x e (\<lambda>contract_id.
     (let rp = h_repr (rx_host x); params = rq_params e;
          decision = lower (strip (py_str rp (dict_get_or params ''decision'' (dict_get_or params ''target_state'' (JStr [])))));
          note' = dict_get_or params ''note'' (dict_get params ''reason'') in
      rbind (rlift (of_option (Rpc VALIDATION_FAILED ''invalid arbitration decision'') (map_of ARBITRATION_DECISIONS decision))) (\<lambda>target.
      rbind (rlift (expected_revision_param e)) (\<lambda>expected.
      change_contract x e now contract_id (\<lambda>st. st \<in> {Expired, Blocked} \<and> is_valid_transition st target)
        (state_change e contract_id target now expected (Some CONTRACT_ARBITRATED)
          ([(''decision'', JStr decision), (''target_state'', JStr (contract_state_value target))] @
           (if truthy note' then [(''note'', JStr (py_str rp note'))] else [])))))))"

text \<open>The daemon promotes what the contract itself declares as pre-authorised.\<close>

definition AUTO_APPROVE_CLIENTS :: "string list" where
  "AUTO_APPROVE_CLIENTS = [''daemon'', ''daemon-wakeup'', ''system'']"

definition skipped_result :: "string \<Rightarrow> string \<Rightarrow> dict" where
  "skipped_result contract_id reason = ok_result (JObj [(''contract_id'', JStr contract_id), (''skipped'', JBool True), (''reason'', JStr reason)])"

definition handle_contract_auto_approve :: "rpc_env \<Rightarrow> envelope \<Rightarrow> int \<Rightarrow> dict rpc" where
  "handle_contract_auto_approve x e now =
     rbind (rlift (require_contract_id (rq_params e))) (\<lambda>contract_id.
     rbind (rcheck (rq_client e \<in> set AUTO_APPROVE_CLIENTS) AUTH_FAILED ''requires a daemon-class client'') (\<lambda>_.
     replay_or x e contract_id (
     rbind (current_contract contract_id) (\<lambda>current.
     if cv_state current \<noteq> Drafted then rpure (skipped_result contract_id ''state is not drafted'')
     else
       rbind (rcheck (aa_enabled (cd_auto_approve (cv_draft current))) VALIDATION_FAILED ''auto_approve.enabled=False'') (\<lambda>_.
       rbind (rlift (resolve_actor e)) (\<lambda>actor. (\<lambda>s.
       case update_contract_state (rx_zone x) (state_change e contract_id Active now (Some (cv_revision current)) None [] actor) s of
         Inl (RevisionConflictError a b) \<Rightarrow> (Inr (skipped_result contract_id ''lost CAS race''), s)
       | Inl err \<Rightarrow> (Inl (if is_store_error err then Rpc INTERNAL ''store error'' else Raised err), s)
       | Inr (v, s') \<Rightarrow> (Inr (view_result x v), s'))))))))"

section \<open>Reading\<close>

definition limit_param :: "dict \<Rightarrow> string \<Rightarrow> int \<Rightarrow> int \<Rightarrow> rpc_failure + int" where
  "limit_param params k dflt upper = (case dict_get_or params k (JInt dflt) of
     JInt i \<Rightarrow> if 1 \<le> i \<and> i \<le> upper then Inr i else Inl (Rpc VALIDATION_FAILED ''limit out of range'')
   | _ \<Rightarrow> Inl (Rpc VALIDATION_FAILED ''limit must be an integer''))"

definition decision_to_dict :: "(int \<Rightarrow> string) \<Rightarrow> nat \<times> decision_row \<Rightarrow> json" where
  "decision_to_dict fmt p = (let d = snd p in JObj [(''decision_id'', JInt (int (fst p))), (''contract_id'', opt_str (de_contract d)),
     (''goal_id'', JStr (de_goal d)), (''contract_revision'', JInt (de_revision d)), (''tier'', jopt JInt (de_tier d)),
     (''decision_type'', JStr (de_type d)), (''reason'', JStr (de_reason d)), (''budget_dispatches_left'', JInt (de_dispatches_left d)),
     (''budget_escalations_left'', JInt (de_escalations_left d)), (''payload'', JObj []), (''recorded_at'', JStr (fmt (de_recorded_at d))),
     (''actor'', JStr (de_actor d))])"

definition attempt_to_dict :: "(int \<Rightarrow> string) \<Rightarrow> string \<times> attempt \<Rightarrow> json" where
  "attempt_to_dict fmt p = (let a = snd p in JObj [(''attempt_id'', JStr (fst p)), (''contract_id'', opt_str (sa_contract a)),
     (''contract_revision'', JInt (sa_revision a)), (''role'', JStr (sa_role a)), (''executor_id'', opt_str (sa_executor a)),
     (''model_id'', opt_str (sa_model a)), (''state'', JStr (sa_state a)), (''admitted_at'', JStr (fmt (sa_admitted a))),
     (''started_at'', jopt (\<lambda>t. JStr (fmt t)) (sa_started a)), (''terminal_at'', jopt (\<lambda>t. JStr (fmt t)) (sa_terminal a)),
     (''return_code'', jopt JInt (sa_return_code a)), (''error_class'', opt_str (sa_error_class a)),
     (''external_run_id'', opt_str (sa_external_run a)), (''recovery_strategy'', opt_str (sa_recovery a))])"

definition verification_to_dict :: "(int \<Rightarrow> string) \<Rightarrow> event \<Rightarrow> json" where
  "verification_to_dict fmt e = JObj [(''event_id'', JInt (ev_id e)), (''event_type'', JStr (ev_type e)),
     (''attempt_id'', opt_str (ev_attempt e)), (''contract_revision'', jopt JInt (ev_revision e)), (''actor'', JStr (ev_actor e)),
     (''created_at'', JStr (fmt (ev_created e))), (''payload'', JObj (ev_payload e))]"

definition verification_history :: "string \<Rightarrow> store \<Rightarrow> event list" where
  "verification_history contract_id s = (case get_recent_events contract_id [] 20 (st_log s) of
     Inl err \<Rightarrow> []
   | Inr es \<Rightarrow> filter (\<lambda>e. ev_type e \<in> {VERIFICATION_REQUESTED, VERIFICATION_CONSUMED, VERIFICATION_STARTED}) (rev es))"

definition contract_details :: "rpc_env \<Rightarrow> string \<Rightarrow> contract_view \<Rightarrow> int \<Rightarrow> int \<Rightarrow> store \<Rightarrow> dict" where
  "contract_details x i v decision_limit attempt_limit s = (let fmt = rx_fmt x in
     contract_view_to_dict (rx_host x) fmt v @
     [(''decision_history'', JList (map (decision_to_dict fmt) (list_decisions i decision_limit s))),
      (''deadline_snapshot'', jopt JObj (get_latest_forecast_snapshot i (st_log s))),
      (''attempt_history'', JList (map (attempt_to_dict fmt) (list_contract_attempts s i attempt_limit))),
      (''verification_history'', JList (map (verification_to_dict fmt) (verification_history i s)))])"

definition handle_contract_get :: "rpc_env \<Rightarrow> envelope \<Rightarrow> dict rpc" where
  "handle_contract_get x e =
     rbind (rlift (require_contract_id (rq_params e))) (\<lambda>contract_id.
     rbind (current_contract contract_id) (\<lambda>v.
     rbind (rlift (limit_param (rq_params e) ''decision_limit'' 50 200)) (\<lambda>decision_limit.
     rbind (rlift (limit_param (rq_params e) ''attempt_limit'' 20 100)) (\<lambda>attempt_limit.
     rbind (rread (contract_details x contract_id v decision_limit attempt_limit)) (\<lambda>result. rpure (ok_result (JObj result)))))))"

text \<open>A value bound to the cursor of the query: numbers compare as texts, a list or an object cannot be bound.\<close>

definition cursor_param :: "(json \<Rightarrow> string) \<Rightarrow> json \<Rightarrow> rpc_failure + string option" where
  "cursor_param rp v = (case v of
     JNull \<Rightarrow> Inr None
   | JStr t \<Rightarrow> Inr (Some t)
   | JInt i \<Rightarrow> Inr (Some (int_str i))
   | JBool b \<Rightarrow> Inr (Some (if b then ''1'' else ''0''))
   | JFloat x \<Rightarrow> Inr (Some (rp (JFloat x)))
   | _ \<Rightarrow> Inl (Raised (CallError (TypeError ''parameter cannot be bound''))))"

definition state_param :: "(json \<Rightarrow> string) \<Rightarrow> json \<Rightarrow> rpc_failure + contract_state option" where
  "state_param rp v = (if v = JNull then Inr None
     else (case from_state_dict (py_str rp v) of
         Inl err \<Rightarrow> Inl (Rpc VALIDATION_FAILED ''unknown contract state'') | Inr st \<Rightarrow> Inr (Some st)))"

definition handle_contract_list :: "rpc_env \<Rightarrow> envelope \<Rightarrow> dict rpc" where
  "handle_contract_list x e = (let rp = h_repr (rx_host x); params = rq_params e;
       raw_cursor = dict_get_or params ''cursor'' (dict_get params ''after_contract_id'') in
     rbind (rlift (state_param rp (dict_get params ''state''))) (\<lambda>state.
     rbind (rlift (coerce_int (dict_get_or params ''limit'' (JInt 20)))) (\<lambda>limit.
     rbind (rcheck (case limit of None \<Rightarrow> False | Some n \<Rightarrow> 1 \<le> n \<and> n \<le> 200) VALIDATION_FAILED ''limit must be between 1 and 200'') (\<lambda>_.
     rbind (rlift (cursor_param rp raw_cursor)) (\<lambda>after.
     rbind (rread (\<lambda>s. let vs = list_contracts state after (the limit) s in
       (vs, map (\<lambda>v. JObj (contract_view_to_dict (rx_host x) (rx_fmt x) v @
              [(''deadline_snapshot'', jopt JObj (get_latest_forecast_snapshot (cv_contract_id v) (st_log s)))])) vs))) (\<lambda>(vs, rows).
     rpure (ok_result (JObj [(''contracts'', JList rows),
       (''next_cursor'', if vs = [] then raw_cursor else JStr (cv_contract_id (last vs))),
       (''has_more'', JBool (int (length vs) = the limit))]))))))))"

section \<open>Amendments\<close>

definition float_of :: "pyhost \<Rightarrow> json \<Rightarrow> py_error + pyfloat" where
  "float_of h v = (case v of
     JBool b \<Rightarrow> Inr (Fin (if b then 1 else 0)) | JInt i \<Rightarrow> Inr (Fin (of_int i)) | JFloat f \<Rightarrow> Inr f
   | JStr t \<Rightarrow> of_option (ValueError ''could not convert string to float'') (h_float_of h t)
   | _ \<Rightarrow> Inl (TypeError ''float() argument''))"

text \<open>What \<open>except (KeyError, TypeError)\<close> does not catch is raised.\<close>

definition patched_acceptance :: "pyhost \<Rightarrow> dict \<Rightarrow> rpc_failure + acceptance option" where
  "patched_acceptance h patch = (case map_of patch ''acceptance'' of
     None \<Rightarrow> Inr None
   | Some raw \<Rightarrow> (case acceptance_of_request (h_repr h) raw of
        Inl (KeyError k) \<Rightarrow> Inl (Rpc VALIDATION_FAILED ''malformed acceptance patch'')
      | Inl (TypeError k) \<Rightarrow> Inl (Rpc VALIDATION_FAILED ''malformed acceptance patch'')
      | Inl err \<Rightarrow> Inl (Raised (CallError err))
      | Inr a \<Rightarrow> if acceptance_validate a \<noteq> [] then Inl (Rpc VALIDATION_FAILED ''invalid acceptance'') else Inr (Some a)))"

definition patched_guidance :: "dict \<Rightarrow> rpc_failure + dict option" where
  "patched_guidance patch = (case map_of patch ''soft_guidance'' of
     None \<Rightarrow> Inr None | Some v \<Rightarrow> sbind (raised (dict_of v)) (\<lambda>d. Inr (Some d)))"

definition patched_workload :: "pyhost \<Rightarrow> dict \<Rightarrow> rpc_failure + pyfloat option" where
  "patched_workload h patch =
     sbind (raised (case map_of patch ''workload_estimate'' of
         Some (JObj w) \<Rightarrow> sbind (dict_item w ''initial_hours'') (\<lambda>v. sbind (float_of h v) (\<lambda>f. Inr (Some f)))
       | _ \<Rightarrow> (case map_of patch ''workload_initial_hours'' of
            None \<Rightarrow> Inr None | Some v \<Rightarrow> sbind (float_of h v) (\<lambda>f. Inr (Some f))))) (\<lambda>w.
     case w of Some f \<Rightarrow> if float_nonpos f then Inl (Rpc VALIDATION_FAILED ''workload_initial_hours must be positive'') else Inr w
     | None \<Rightarrow> Inr None)"

definition patch_data :: "dict \<Rightarrow> rpc_failure + dict" where
  "patch_data params = (let p = dict_get_or params ''patch'' (JObj []) in
     if \<not> truthy p then Inr (filter (\<lambda>(k, v). k \<notin> {''contract_id'', ''expected_revision'', ''actor''}) params)
     else (case p of JObj d \<Rightarrow> Inr d | _ \<Rightarrow> Inl (Raised (CallError (AttributeError ''keys'')))))"

definition handle_contract_patch :: "rpc_env \<Rightarrow> envelope \<Rightarrow> int \<Rightarrow> dict rpc" where
  "handle_contract_patch x e now = principal_only x e (\<lambda>contract_id. (let h = rx_host x in
     rbind (rlift (expected_revision_param e)) (\<lambda>expected.
     rbind (rlift (of_option (Rpc VALIDATION_FAILED ''expected_revision is required'') expected)) (\<lambda>expected.
     rbind (rlift (patch_data (rq_params e))) (\<lambda>patch.
     rbind (rcheck (\<not> list_ex (\<lambda>k. k \<in> set FROZEN_FIELDS) (map fst patch)) VALIDATION_FAILED ''cannot modify frozen fields'') (\<lambda>_.
     rbind (current_contract contract_id) (\<lambda>current.
     rbind (rcheck (\<not> is_terminal_state (cv_state current)) STATE_FORBIDDEN ''cannot patch contract in terminal state'') (\<lambda>_.
     rbind (rlift (patched_guidance patch)) (\<lambda>guidance.
     rbind (rlift (patched_acceptance h patch)) (\<lambda>acc.
     rbind (rlift (patched_workload h patch)) (\<lambda>workload.
     rbind (rlift (resolve_actor e)) (\<lambda>actor.
     rbind (rcommit update_failure (patch_contract \<lparr>pc_contract = contract_id, pc_expected = expected, pc_now = now,
       pc_guidance = guidance, pc_acceptance = acc, pc_workload = workload, pc_request = Some (rq_request e), pc_actor = actor,
       pc_schema = STORE_SCHEMA_VERSION\<rparr>)) (\<lambda>v. rpure (view_result x v))))))))))))))"

section \<open>Asking for a verification\<close>

definition consumed_requests :: "event list \<Rightarrow> int set" where
  "consumed_requests es = set (concat (map (\<lambda>e. if ev_type e \<noteq> VERIFICATION_CONSUMED then []
     else (case sbind (dict_item (ev_payload e) ''request_event_id'') py_int of Inr i \<Rightarrow> [i] | Inl err \<Rightarrow> [])) es))"

definition pending_request :: "string \<Rightarrow> store \<Rightarrow> event option" where
  "pending_request contract_id s = (let es = get_events (Some contract_id) None [] None (st_log s) in
     find (\<lambda>e. ev_type e = VERIFICATION_REQUESTED \<and> ev_id e \<notin> consumed_requests es) es)"

definition running_verifier :: "string \<Rightarrow> store \<Rightarrow> (string \<times> attempt) option" where
  "running_verifier goal_id s = find (\<lambda>(i, a). sa_goal a = goal_id \<and> sa_role a = ''verifier'' \<and>
     sa_state a \<notin> {''succeeded'', ''failed'', ''cancelled'', ''stale'', ''orphaned''}) (st_attempts s)"

text \<open>A blocked contract is resumed first; the event is bound to the revision it has then. Neither write carries the request id.\<close>

definition resume_for_verification :: "rpc_env \<Rightarrow> string \<Rightarrow> contract_view \<Rightarrow> int \<Rightarrow> string \<Rightarrow> contract_view rpc" where
  "resume_for_verification x contract_id current now actor = (if cv_state current \<noteq> Blocked then rpure current
     else
       rbind (rcommit (\<lambda>err. if is_store_error err then Rpc INTERNAL ''store error'' else Raised err)
         (update_contract_state (rx_zone x) \<lparr>uc_contract = contract_id, uc_state = Active, uc_now = now, uc_expected = None,
            uc_blocked = None, uc_next_wakeup = None, uc_deadline = None, uc_acceptance = None, uc_next_decision = None,
            uc_event = Some CONTRACT_RESUMED, uc_payload = [(''reason'', JStr ''user requested verification'')], uc_request = None,
            uc_actor = actor, uc_schema = STORE_SCHEMA_VERSION\<rparr>)) (\<lambda>_.
       rbind (rread (\<lambda>s. get_contract s contract_id)) (\<lambda>v.
       rlift (of_option (Rpc INTERNAL ''contract disappeared after resume'') v))))"

definition handle_contract_request_verification :: "rpc_env \<Rightarrow> envelope \<Rightarrow> int \<Rightarrow> dict rpc" where
  "handle_contract_request_verification x e now =
     rbind (rlift (require_contract_id (rq_params e))) (\<lambda>contract_id.
     replay_or x e contract_id (
     rbind (current_contract contract_id) (\<lambda>current.
     rbind (rcheck (\<not> is_terminal_state (cv_state current)) STATE_FORBIDDEN ''contract is terminal'') (\<lambda>_.
     rbind (rread (pending_request contract_id)) (\<lambda>pending.
     rbind (rcheck (pending = None) STATE_FORBIDDEN ''verification request already pending'') (\<lambda>_.
     rbind (rread (running_verifier (cv_goal_id current))) (\<lambda>running.
     rbind (rcheck (running = None) STATE_FORBIDDEN ''verifier attempt already in progress'') (\<lambda>_.
     rbind (rread (\<lambda>s. count_verifier_attempts s contract_id)) (\<lambda>used.
     let reserved = bu_verification_attempts_reserved (cd_budget (cv_draft current)) in
     rbind (rcheck (used < reserved) STATE_FORBIDDEN ''verification budget exhausted'') (\<lambda>_.
     rbind (rlift (resolve_actor e)) (\<lambda>actor.
     rbind (resume_for_verification x contract_id current now actor) (\<lambda>v.
     let reason = py_str (h_repr (rx_host x)) (py_or (dict_get (rq_params e) ''reason'') (JStr (actor @ '' requested verification''))) in
     rbind (rwrite (\<lambda>s. snd (log_event ((event_call (Some contract_id) VERIFICATION_REQUESTED
         [(''requested_by'', JStr actor), (''reason'', JStr reason), (''budget_used'', JInt used), (''budget_reserved'', JInt reserved)] now)
         \<lparr>ne_goal := Some (cv_goal_id v), ne_actor := actor, ne_revision := Some (cv_revision v), ne_role := Some actor,
          ne_payload_schema := Some STORE_SCHEMA_VERSION\<rparr>) s))) (\<lambda>_.
     rpure (ok_result (JObj [(''contract_id'', JStr contract_id), (''verification_requested'', JBool True),
       (''note'', JStr ''daemon will dispatch an independent verifier on its next tick'')])))))))))))))))"

section \<open>The user's confirmation\<close>

datatype verifier_evidence = NoEvidence | StaleEvidence string | MatchedEvidence "string option" dict

text \<open>A success of a verifier. An event without a role is one by its payload, which then starts with that role.\<close>

definition verifier_success :: "event \<Rightarrow> bool" where
  "verifier_success e = ((ev_role e = Some ''verifier'' \<or>
     ev_role e = None \<and> (case ev_payload e of (''role'', JStr r) # _ \<Rightarrow> r = ''verifier'' | _ \<Rightarrow> False)) \<and> ev_type e = ATTEMPT_SUCCEEDED)"

text \<open>What speaks against an event as evidence for the acceptance as it stands; nothing, if it counts.\<close>

definition evidence_objection :: "(json \<Rightarrow> string) \<Rightarrow> acceptance \<Rightarrow> event \<Rightarrow> string option" where
  "evidence_objection digest a e = (let fingerprint = dict_get (ev_payload e) ''acceptance_fingerprint'';
       spec_hash = dict_get (ev_payload e) ''spec_hash'' in
     if fingerprint = JNull then Some ''unbound''
     else if fingerprint \<noteq> JStr (content_fingerprint digest a) then Some ''edited''
     else if ac_spec_hash a \<noteq> JNull \<and> spec_hash \<noteq> JNull \<and> \<not> py_eq spec_hash (ac_spec_hash a) then Some ''spec_hash''
     else None)"

definition latest_verifier_evidence :: "(json \<Rightarrow> string) \<Rightarrow> string \<Rightarrow> store \<Rightarrow> verifier_evidence" where
  "latest_verifier_evidence digest contract_id s = (case get_contract s contract_id of
     None \<Rightarrow> NoEvidence
   | Some v \<Rightarrow>
       (let es = filter verifier_success (get_events (Some contract_id) None [] None (st_log s));
            objection = evidence_objection digest (cd_acceptance (cv_draft v)) in
        case find (\<lambda>e. objection e = None) es of
          Some e \<Rightarrow> MatchedEvidence (ev_attempt e) (ev_payload e)
        | None \<Rightarrow> if es = [] then NoEvidence
            else StaleEvidence (if list_ex (\<lambda>e. objection e = Some ''edited'') es then ''edited''
              else if list_ex (\<lambda>e. objection e = Some ''spec_hash'') es then ''spec_hash'' else ''unbound'')))"

definition deadline_verdict :: "int \<Rightarrow> contract_draft \<Rightarrow> py_error + deadline_status" where
  "deadline_verdict now d = (case cd_deadline_at d of
     NaiveTime t \<Rightarrow> Inl (TypeError ''cannot compare naive and aware datetimes'')
   | AwareTime t zone \<Rightarrow> Inr (if now \<le> t then Met else Missed))"

text \<open>
  The transaction: the status event, the completion at the revision that was read before, the advance of the goal and the contract of
  the next stage. Whatever is raised inside leaves the store as it was.
\<close>

definition confirm_transaction ::
  "rpc_env \<Rightarrow> string \<Rightarrow> contract_view \<Rightarrow> int \<Rightarrow> string \<Rightarrow> json \<Rightarrow> json \<Rightarrow> dict \<Rightarrow> store \<Rightarrow> store_error + unit \<times> store" where
  "confirm_transaction x i current now actor note' verifier evidence s = (let rp = h_repr (rx_host x);
       s1 = snd (log_event ((event_call (Some i) ACCEPTANCE_STATUS_CHANGED [(''reason'', JStr ''user-confirmed''),
         (''from_status'', JStr (acceptance_status_value (cv_acceptance_status current))), (''to_status'', JStr ''passed''),
         (''note'', note')] now)\<lparr>ne_actor := actor\<rparr>) s) in
     sbind (lift_py (deadline_verdict now (cv_draft current))) (\<lambda>verdict.
     sbind (update_contract_state (rx_zone x) \<lparr>uc_contract = i, uc_state = Complete, uc_now = now, uc_expected = Some (cv_revision current),
       uc_blocked = None, uc_next_wakeup = None, uc_deadline = Some verdict, uc_acceptance = Some Passed, uc_next_decision = None,
       uc_event = None, uc_payload = [(''verifier'', verifier), (''evidence'', JObj evidence), (''user_confirmed'', JBool True)],
       uc_request = None, uc_actor = actor, uc_schema = STORE_SCHEMA_VERSION\<rparr> s1) (\<lambda>(v, s2).
     sbind (lift_py (auto_create_next_stage_contract x v now
       [(''source'', JStr ''user-confirm''), (''contract_id'', JStr i), (''resolved_principal'', JStr actor), (''note'', note'),
        (''completed_at'', JStr (rx_fmt x now)), (''from_status'', JStr (acceptance_status_value (cv_acceptance_status current))),
        (''to_status'', JStr ''passed'')]
       (advance_goal_after_verified_contract rp v now s2))) (\<lambda>s3. Inr ((), s3)))))"

definition handle_contract_user_confirm :: "rpc_env \<Rightarrow> envelope \<Rightarrow> int \<Rightarrow> dict rpc" where
  "handle_contract_user_confirm x e now = principal_only x e (\<lambda>contract_id. (let rp = h_repr (rx_host x);
       text = strip (py_str rp (py_or (dict_get (rq_params e) ''note'') (JStr []))); note' = (if text = [] then JNull else JStr text) in
     rbind (current_contract contract_id) (\<lambda>current.
     rbind (rcheck (cv_acceptance_status current = Candidate) VALIDATION_FAILED ''user-confirm is only valid for CANDIDATE'') (\<lambda>_.
     rbind (rlift (require_principal e)) (\<lambda>actor.
     rbind (rread (latest_verifier_evidence (rx_digest x) contract_id)) (\<lambda>found.
     rbind (case found of
         StaleEvidence reason \<Rightarrow> rlift (Inl (Rpc STATE_FORBIDDEN reason))
       | MatchedEvidence attempt payload \<Rightarrow> rpure (opt_str attempt, payload)
       | NoEvidence \<Rightarrow> rpure (JStr (''user-confirm:'' @ actor), [(''source'', JStr ''user-confirm''), (''resolved_principal'', JStr actor),
           (''from_status'', JStr (acceptance_status_value (cv_acceptance_status current))), (''to_status'', JStr ''passed''),
           (''note'', note'), (''confirmed_at'', JStr (rx_fmt x now))])) (\<lambda>(verifier, evidence).
     rbind (rcommit update_failure (confirm_transaction x contract_id current now actor note' verifier evidence)) (\<lambda>_.
     rpure [(''contract_id'', JStr contract_id), (''user_confirmed'', JBool True), (''acceptance_status'', JStr ''passed''),
       (''contract_state'', JStr ''complete''), (''note'', note')]))))))))"

end
