(* ===== verification/Rpc_Server.thy ===== *)
theory Rpc_Server
  imports Contract_Rpc
begin

text \<open>
  The rest of the control plane: \<open>longtask/rpc/executor_api.py\<close> (the methods of a running attempt), \<open>lhgp/rpc/handlers/protocol.py\<close>,
  \<open>lhgp/rpc/handlers/executor.py\<close> (the registry), and the routing of a request in \<open>lhgp/rpc/server.py\<close>. The retry of a transient
  error of the database is not modelled: no modelled operation raises one.
\<close>

definition CONTEXT_SCRATCH_UPDATED :: event_type where "CONTEXT_SCRATCH_UPDATED = ''context/scratch-updated''"
definition ATTEMPT_FAILED :: event_type where "ATTEMPT_FAILED = ''attempt/failed''"
definition ATTEMPT_CANCELLED :: event_type where "ATTEMPT_CANCELLED = ''attempt/cancelled''"
definition WAKEUP_RTC_FIRED :: event_type where "WAKEUP_RTC_FIRED = ''wakeup/rtc-fired''"

section \<open>The methods of an attempt\<close>

definition require_text :: "(json \<Rightarrow> string) \<Rightarrow> dict \<Rightarrow> string \<Rightarrow> rpc_failure + string" where
  "require_text rp params k = (let v = text_param rp params k in
     if v = [] then Inl (Rpc VALIDATION_FAILED (k @ '' is required'')) else Inr v)"

definition strict_int_param :: "json \<Rightarrow> rpc_failure + int" where
  "strict_int_param v = (case v of JInt i \<Rightarrow> Inr i | _ \<Rightarrow> Inl (Rpc VALIDATION_FAILED ''must be an integer''))"

text \<open>The contract and the attempt that a method is about; the contract must exist.\<close>

definition attempt_params :: "rpc_env \<Rightarrow> envelope \<Rightarrow> (string \<times> string) rpc" where
  "attempt_params x e = (let rp = h_repr (rx_host x) in
     rbind (rlift (require_text rp (rq_params e) ''contract_id'')) (\<lambda>contract_id.
     rbind (rlift (require_text rp (rq_params e) ''attempt_id'')) (\<lambda>attempt_id.
     rbind (current_contract contract_id) (\<lambda>_. rpure (contract_id, attempt_id)))))"

definition held_lease :: "string \<Rightarrow> string \<Rightarrow> lease rpc" where
  "held_lease contract_id attempt_id = (\<lambda>s. (case get_lease s contract_id None of
     Some l \<Rightarrow> if le_holder l = attempt_id then Inr l else Inl (Rpc LEASE_FENCED ''no live lease held by attempt'')
   | None \<Rightarrow> Inl (Rpc LEASE_FENCED ''no live lease held by attempt''), s))"

definition handle_attempt_status :: "rpc_env \<Rightarrow> envelope \<Rightarrow> int \<Rightarrow> dict rpc" where
  "handle_attempt_status x e now =
     rbind (attempt_params x e) (\<lambda>(contract_id, attempt_id).
     rbind (rread (\<lambda>s. get_attempt s attempt_id)) (\<lambda>a.
     rbind (rcheck (a \<noteq> None) UNKNOWN_ATTEMPT ''attempt does not exist'') (\<lambda>_.
     rbind (rread (\<lambda>s. (filter (\<lambda>v. ev_attempt v = Some attempt_id) (get_events (Some contract_id) None [] None (st_log s)),
       get_lease s contract_id None))) (\<lambda>(events, l).
     rpure (ok_result (JObj [(''contract_id'', JStr contract_id), (''attempt_id'', JStr attempt_id),
       (''events'', JList (map (\<lambda>v. JObj [(''event_id'', JInt (ev_id v)), (''event_type'', JStr (ev_type v)),
          (''payload'', JStr (rx_dumps x (ev_payload v))), (''created_at'', JStr (rx_fmt x (ev_created v)))]) events)),
       (''lease'', JObj [(''generation'', jopt (\<lambda>l. JInt (le_generation l)) l), (''holder_attempt_id'', jopt (\<lambda>l. JStr (le_holder l)) l),
          (''is_alive'', JBool (case l of None \<Rightarrow> False | Some l \<Rightarrow> lease_is_alive l now))])]))))))"

definition request_or_none :: "envelope \<Rightarrow> string option" where
  "request_or_none e = (if rq_request e = [] then None else Some (rq_request e))"

text \<open>\<open>except LeaseFencedError\<close>: the rest is raised.\<close>

definition fenced_failure :: "store_error \<Rightarrow> rpc_failure" where
  "fenced_failure err = (case err of LeaseFencedError m \<Rightarrow> Rpc LEASE_FENCED m | _ \<Rightarrow> Raised err)"

definition MAX_TIMEDELTA_SECONDS :: int where "MAX_TIMEDELTA_SECONDS = 86399999999999"

definition handle_lease_renew :: "rpc_env \<Rightarrow> envelope \<Rightarrow> int \<Rightarrow> dict rpc" where
  "handle_lease_renew x e now =
     rbind (attempt_params x e) (\<lambda>(contract_id, attempt_id).
     rbind (held_lease contract_id attempt_id) (\<lambda>l.
     rbind (rlift (strict_int_param (dict_get_or (rq_params e) ''timeout_seconds'' (JInt 1800)))) (\<lambda>seconds.
     rbind (rcheck (0 < seconds) VALIDATION_FAILED ''timeout_seconds must be a positive integer'') (\<lambda>_.
     rbind (rlift (require (seconds \<le> MAX_TIMEDELTA_SECONDS) (Raised (CallError (OverflowError ''timedelta''))))) (\<lambda>_.
     rbind (rcommit fenced_failure (renew_lease \<lparr>lc_contract = contract_id, lc_partition = None, lc_holder = Some attempt_id,
       lc_generation = le_generation l, lc_now = now, lc_timeout = seconds * SECOND, lc_request = request_or_none e, lc_actor = ''model'',
       lc_reason = [], lc_payload = [], lc_schema = STORE_SCHEMA_VERSION, lc_role = None, lc_revision = None\<rparr>)) (\<lambda>r.
     rpure (ok_result (JObj [(''contract_id'', JStr contract_id), (''attempt_id'', JStr attempt_id), (''generation'', JInt (le_generation r)),
       (''heartbeat_at'', JStr (rx_fmt x (le_heartbeat r))),
       (''timeout_seconds'', JFloat (Fin (of_int (le_timeout r) / of_int SECOND)))]))))))))"

definition handle_control_interrupt :: "rpc_env \<Rightarrow> envelope \<Rightarrow> int \<Rightarrow> dict rpc" where
  "handle_control_interrupt x e now =
     rbind (attempt_params x e) (\<lambda>(contract_id, attempt_id).
     let reason = py_str (h_repr (rx_host x)) (dict_get_or (rq_params e) ''reason'' (JStr ''interrupt requested'')) in
     rbind (rlift (resolve_actor e)) (\<lambda>actor.
     rbind (rwrite (\<lambda>s. snd (log_event ((event_call (Some contract_id) ATTEMPT_CANCELLED [(''reason'', JStr reason),
       (''via'', JStr ''control/interrupt''), (''requested_by'', JStr actor)] now)
       \<lparr>ne_attempt := Some attempt_id, ne_actor := actor, ne_request := request_or_none e\<rparr>) s))) (\<lambda>_.
     rpure (ok_result (JObj [(''contract_id'', JStr contract_id), (''attempt_id'', JStr attempt_id), (''queued_for_daemon'', JBool True),
       (''reason'', JStr reason)])))))"

subsection \<open>Write-back\<close>

text \<open>The session token: asked of everybody but the daemon, if the attempt was issued one.\<close>

definition check_session_token :: "rpc_env \<Rightarrow> envelope \<Rightarrow> string \<Rightarrow> store \<Rightarrow> rpc_failure + unit" where
  "check_session_token x e attempt_id s = (if rq_client e = ''daemon'' then Inr ()
     else (case get_attempt s attempt_id of
         None \<Rightarrow> Inl (Rpc VALIDATION_FAILED ''attempt not found for token check'')
       | Some a \<Rightarrow> (case rx_token x attempt_id of
           None \<Rightarrow> Inr ()
         | Some stored \<Rightarrow> (case dict_get (rq_params e) ''session_token'' of
              JStr token \<Rightarrow>
                if token = [] then Inl (Rpc VALIDATION_FAILED ''session_token is required'')
                else if sa_state a \<in> {''succeeded'', ''failed'', ''cancelled'', ''stale''}
                then Inl (Rpc VALIDATION_FAILED ''attempt is terminal; session token revoked'')
                else if rx_sha x token \<noteq> stored then Inl (Rpc VALIDATION_FAILED ''session_token mismatch'')
                else Inr ()
            | _ \<Rightarrow> Inl (Rpc VALIDATION_FAILED ''session_token is required'')))))"

definition role_of_attempt :: "attempt option \<Rightarrow> string" where
  "role_of_attempt a = (case a of None \<Rightarrow> ''executor'' | Some a \<Rightarrow> sa_role a)"

text \<open>The state asked for: a completion only from a verifier.\<close>

definition wanted_state :: "(json \<Rightarrow> string) \<Rightarrow> json \<Rightarrow> attempt option \<Rightarrow> rpc_failure + contract_state option" where
  "wanted_state rp raw a = (if raw = JNull then Inr None
     else (case from_state_dict (py_str rp raw) of
         Inl err \<Rightarrow> Inl (Rpc VALIDATION_FAILED ''unknown contract_state'')
       | Inr st \<Rightarrow> if st \<in> {Complete, Satisfied} \<and> role_of_attempt a \<noteq> ''verifier''
           then Inl (Rpc STATE_FORBIDDEN ''attempt/write-back cannot set a contract to a completion state'') else Inr (Some st)))"

definition reported_usage :: "json \<Rightarrow> rpc_failure + dict" where
  "reported_usage raw = (case normalize_usage raw of Inl m \<Rightarrow> Inl (Rpc VALIDATION_FAILED m) | Inr u \<Rightarrow> Inr u)"

text \<open>The model that an attempt reports, against the binding of its executor.\<close>

definition check_reported_model :: "contract_view option \<Rightarrow> attempt option \<Rightarrow> string \<Rightarrow> rpc_failure + unit" where
  "check_reported_model v a model = (case (v, a) of
     (Some v, Some a) \<Rightarrow> (case sa_executor a of
         None \<Rightarrow> Inr ()
       | Some i \<Rightarrow> if i = [] then Inr () else (let auth = cd_authority (cv_draft v) in case binding_for_executor auth i of
            None \<Rightarrow> Inr ()
          | Some b \<Rightarrow>
              if model = [] \<and> ''*'' \<notin> set (ab_models b) then Inl (Rpc VALIDATION_FAILED ''model_id is required'')
              else if model \<noteq> [] \<and> \<not> models_allow auth b model then Inl (Rpc CAPABILITY_MISSING ''model_id is not allowed'')
              else Inr ()))
   | _ \<Rightarrow> Inr ())"

text \<open>An item of evidence. An outcome that cannot be hashed raises a \<open>TypeError\<close>.\<close>

definition evidence_item_ok :: "(json \<Rightarrow> string) \<Rightarrow> json \<Rightarrow> py_error + bool" where
  "evidence_item_ok rp item = (case item of
     JObj d \<Rightarrow>
       if is_blank (py_str rp (dict_get_or d ''check_id'' (JStr []))) then Inr False
       else (case dict_get d ''outcome'' of
           JList xs \<Rightarrow> Inl (TypeError ''unhashable type'')
         | JObj xs \<Rightarrow> Inl (TypeError ''unhashable type'')
         | v \<Rightarrow> Inr (v \<in> {JStr ''pass'', JStr ''fail'', JStr ''undetermined''} \<and> \<not> is_blank (py_str rp (dict_get_or d ''source'' (JStr [])))))
   | _ \<Rightarrow> Inr False)"

definition check_evidence :: "(json \<Rightarrow> string) \<Rightarrow> string \<Rightarrow> string \<Rightarrow> json \<Rightarrow> rpc_failure + unit" where
  "check_evidence rp role state_text evidence = (if \<not> (role = ''verifier'' \<and> state_text \<in> {''succeeded'', ''failed''}) then Inr ()
     else (case evidence of
         JList (v # vs) \<Rightarrow> sbind (raised (smap (evidence_item_ok rp) (v # vs))) (\<lambda>oks.
           require (list_all id oks) (Rpc VALIDATION_FAILED ''each verifier evidence item requires check_id, outcome and source''))
       | _ \<Rightarrow> Inl (Rpc VALIDATION_FAILED ''verifier terminal write-back requires a non-empty evidence list'')))"

definition input_of :: "event_type \<Rightarrow> dict \<Rightarrow> string \<Rightarrow> string \<Rightarrow> event_input" where
  "input_of typ payload attempt_id role = \<lparr>ei_type = typ, ei_payload = payload, ei_attempt = Some attempt_id, ei_generation = None,
     ei_request = None, ei_actor = None, ei_revision = None, ei_role = Some role, ei_payload_schema = None, ei_goal = None\<rparr>"

definition note_inputs :: "(json \<Rightarrow> string) \<Rightarrow> dict \<Rightarrow> string \<Rightarrow> string \<Rightarrow> event_input list" where
  "note_inputs rp params attempt_id role = (let v = dict_get params ''progress_note'' in
     if v = JNull \<or> is_blank (py_str rp v) then []
     else [input_of CONTEXT_SCRATCH_UPDATED [(''attempt_id'', JStr attempt_id), (''note'', JStr (py_str rp v))] attempt_id role])"

text \<open>
  The terminal event that an attempt reports. The success of a verifier carries the binding to the acceptance of the revision that the
  attempt was admitted at, written here and not by the model.
\<close>

definition terminal_inputs ::
  "rpc_env \<Rightarrow> dict \<Rightarrow> string \<Rightarrow> string \<Rightarrow> attempt option \<Rightarrow> dict \<Rightarrow> string \<Rightarrow> store \<Rightarrow> rpc_failure + event_input list" where
  "terminal_inputs x params contract_id attempt_id a usage model s = (let rp = h_repr (rx_host x); raw = dict_get params ''attempt_state'';
       role = role_of_attempt a; evidence = dict_get params ''evidence''; state_text = py_str rp raw;
       used = (if usage = [] then [] else [(''usage'', JObj usage)]); with_model = (if model = [] then [] else [(''model_id'', JStr model)]) in
     if raw = JNull then Inr []
     else
       sbind (check_reported_model (get_contract s contract_id) a model) (\<lambda>_.
       sbind (check_evidence rp role state_text evidence) (\<lambda>_.
       if state_text = ''succeeded'' then Inr [input_of ATTEMPT_SUCCEEDED
         (dict_merge (dict_merge ([(''reported_by'', JStr ''model''), (''role'', JStr role), (''evidence'', evidence)] @ used)
           (case a of Some a \<Rightarrow> if role = ''verifier'' then attempt_evidence_binding (rx_digest x) s (Some contract_id) (Some (sa_revision a)) else []
            | None \<Rightarrow> [])) with_model) attempt_id role]
       else if state_text = ''failed'' then Inr [input_of ATTEMPT_FAILED
         ([(''reported_by'', JStr ''model''), (''role'', JStr role),
           (''reason'', JStr (py_str rp (py_or (dict_get params ''progress_note'') (JStr [])))), (''evidence'', evidence)] @ used @ with_model)
         attempt_id role]
       else Inl (Rpc VALIDATION_FAILED ''attempt_state must be succeeded|failed''))))"

definition handle_attempt_write_back :: "rpc_env \<Rightarrow> envelope \<Rightarrow> int \<Rightarrow> dict rpc" where
  "handle_attempt_write_back x e now = (let rp = h_repr (rx_host x); params = rq_params e in
     rbind (attempt_params x e) (\<lambda>(contract_id, attempt_id).
     rbind (rlift (strict_int_param (dict_get_or params ''write_generation'' (JInt (-1))))) (\<lambda>generation.
     rbind (rcheck (0 \<le> generation) VALIDATION_FAILED ''write_generation is required'') (\<lambda>_.
     rbind (rread (check_session_token x e attempt_id)) (\<lambda>token.
     rbind (rlift token) (\<lambda>_.
     rbind (rread (\<lambda>s. get_attempt s attempt_id)) (\<lambda>a.
     rbind (rlift (wanted_state rp (dict_get params ''contract_state'') a)) (\<lambda>st.
     let model = text_param rp params ''model_id'' in
     rbind (rlift (reported_usage (dict_get params ''usage''))) (\<lambda>usage.
     rbind (rread (terminal_inputs x params contract_id attempt_id a usage model)) (\<lambda>terminal.
     rbind (rlift terminal) (\<lambda>terminal.
     rbind (rcommit fenced_failure (write_back (rx_zone x) None \<lparr>wb_contract = contract_id, wb_attempt = attempt_id, wb_generation = generation,
       wb_now = now, wb_partition = None, wb_events = note_inputs rp params attempt_id (role_of_attempt a) @ terminal, wb_state = st,
       wb_expected = None, wb_blocked = None, wb_next_wakeup = None, wb_request = request_or_none e, wb_actor = ''model'',
       wb_schema = STORE_SCHEMA_VERSION, wb_role = None, wb_revision = None, wb_goal = None,
       wb_model = (if model = [] then None else Some model), wb_usage = usage\<rparr>)) (\<lambda>r.
     rpure (ok_result (JObj [(''contract_id'', JStr (wr_contract r)), (''attempt_id'', JStr attempt_id),
       (''lease_generation'', JInt (wr_generation r)), (''event_ids'', JList (map JInt (wr_event_ids r))),
       (''revision'', jopt JInt (wr_revision r))]))))))))))))))"

section \<open>protocol/* and daemon/wake\<close>

definition SERVER_VERSION :: string where "SERVER_VERSION = ''0.1.0a14''"

definition handle_protocol_hello :: "dict rpc" where
  "handle_protocol_hello = rpure (ok_result (JObj [(''protocol_version'', JInt PROTOCOL_VERSION), (''server_version'', JStr SERVER_VERSION),
     (''methods'', str_list METHODS)]))"

definition event_to_dict :: "rpc_env \<Rightarrow> event \<Rightarrow> json" where
  "event_to_dict x v = JObj [(''event_id'', JInt (ev_id v)), (''contract_id'', opt_str (ev_contract v)), (''attempt_id'', opt_str (ev_attempt v)),
     (''lease_generation'', jopt JInt (ev_generation v)), (''event_type'', JStr (ev_type v)), (''payload_json'', JStr (rx_dumps x (ev_payload v))),
     (''payload'', JObj (ev_payload v)), (''request_id'', opt_str (ev_request v)), (''created_at'', JStr (rx_fmt x (ev_created v))),
     (''actor'', JStr (ev_actor v)), (''schema_version'', JInt (ev_schema v))]"

definition handle_protocol_events :: "rpc_env \<Rightarrow> envelope \<Rightarrow> dict rpc" where
  "handle_protocol_events x e = (let params = rq_params e in
     rbind (rlift (coerce_int (dict_get_or params ''cursor'' (dict_get params ''after_event_id'')))) (\<lambda>cursor.
     rbind (rlift (coerce_int (dict_get_or params ''limit'' (JInt 50)))) (\<lambda>limit.
     rbind (rcheck (case limit of None \<Rightarrow> False | Some n \<Rightarrow> 0 < n) VALIDATION_FAILED ''limit must be positive'') (\<lambda>_.
     rbind (rlift (cursor_param (h_repr (rx_host x)) (dict_get params ''contract_id''))) (\<lambda>contract_id.
     rbind (rread (\<lambda>s. get_events contract_id cursor [] limit (st_log s))) (\<lambda>events.
     rpure (ok_result (JObj [(''events'', JList (map (event_to_dict x) events)),
       (''next_cursor'', if events = [] then jopt JInt cursor else JInt (ev_id (last events))),
       (''has_more'', JBool (Some (int (length events)) = limit))]))))))))"

definition WAKEUP_PREFIX :: string where "WAKEUP_PREFIX = ''longtask-wakeup-''"

definition handle_daemon_wake :: "rpc_env \<Rightarrow> envelope \<Rightarrow> int \<Rightarrow> dict rpc" where
  "handle_daemon_wake x e now =
     rbind (rlift (resolve_actor e)) (\<lambda>actor.
     rbind (rcheck (actor = ''daemon'') AUTH_FAILED ''daemon/wake requires a daemon client'') (\<lambda>_.
     let raw = dict_get (rq_params e) ''task_id''; task_id = (if raw = JNull then [] else strip (py_str (h_repr (rx_host x)) raw));
         contract_id = drop (length WAKEUP_PREFIX) task_id in
     rbind (rcheck (starts_with task_id WAKEUP_PREFIX \<and> length task_id \<noteq> length WAKEUP_PREFIX) VALIDATION_FAILED
       ''task_id must use the longtask-wakeup-<contract_id> format'') (\<lambda>_.
     rbind (current_contract contract_id) (\<lambda>v.
     rbind (rwrite (\<lambda>s. snd (log_event ((event_call (Some contract_id) WAKEUP_RTC_FIRED [(''task_id'', JStr task_id)] now)
       \<lparr>ne_goal := Some (cv_goal_id v), ne_actor := actor, ne_request := request_or_none e, ne_revision := Some (cv_revision v),
        ne_role := Some ''daemon''\<rparr>) s))) (\<lambda>_.
     rpure (ok_result (JObj [(''task_id'', JStr task_id), (''contract_id'', JStr contract_id), (''queued_for_daemon'', JBool True)])))))))"

section \<open>executor/*\<close>

text \<open>These read and change the registry, not the store.\<close>

type_synonym registry_handler = "registry \<Rightarrow> (rpc_failure + dict) \<times> registry"

definition handle_executor_list :: "envelope \<Rightarrow> registry_handler" where
  "handle_executor_list e r = (case dict_get_or (rq_params e) ''enabled_only'' (JBool False) of
     JBool b \<Rightarrow> (Inr (ok_result (JObj [(''executors'', JList (map (\<lambda>n. JObj (registry_entry_to_dict n)) (list_entries b r))),
       (''total'', JInt (int (length (list_entries b r))))])), r)
   | _ \<Rightarrow> (Inl (Rpc VALIDATION_FAILED ''enabled_only must be a boolean''), r))"

definition executor_param :: "(json \<Rightarrow> string) \<Rightarrow> envelope \<Rightarrow> registry \<Rightarrow> rpc_failure + string \<times> registry_entry" where
  "executor_param rp e r = sbind (require_text rp (rq_params e) ''executor_id'') (\<lambda>i.
     sbind (of_option (Rpc UNKNOWN_EXECUTOR ''executor not found'') (map_of r i)) (\<lambda>n. Inr (i, n)))"

definition switch_executor :: "bool \<Rightarrow> rpc_env \<Rightarrow> envelope \<Rightarrow> registry_handler" where
  "switch_executor b x e r = (case sbind (require_principal e) (\<lambda>_. executor_param (h_repr (rx_host x)) e r) of
     Inl f \<Rightarrow> (Inl f, r)
   | Inr (i, n) \<Rightarrow> (let r' = snd (set_enabled i b r) in
       (Inr (ok_result (JObj [(''executor'', jopt (\<lambda>n. JObj (registry_entry_to_dict n)) (map_of r' i)), (''enabled'', JBool b)])), r')))"

definition handle_executor_enable :: "rpc_env \<Rightarrow> envelope \<Rightarrow> registry_handler" where
  "handle_executor_enable = switch_executor True"

definition handle_executor_disable :: "rpc_env \<Rightarrow> envelope \<Rightarrow> registry_handler" where
  "handle_executor_disable = switch_executor False"

definition handle_executor_health :: "rpc_env \<Rightarrow> envelope \<Rightarrow> registry_handler" where
  "handle_executor_health x e r = (case executor_param (h_repr (rx_host x)) e r of
     Inl f \<Rightarrow> (Inl f, r)
   | Inr (i, n) \<Rightarrow> (Inr (ok_result (JObj [(''executor_id'', JStr (rg_id n)), (''healthy'', JBool (fst (rx_health x n))),
       (''health_reason'', JStr (snd (rx_health x n))), (''enabled'', JBool (rg_enabled n)), (''kind'', JStr (rg_kind n)),
       (''cost_hint'', JStr (cost_hint_value (rg_cost_hint n))), (''capabilities'', capabilities_to_dict (rg_capabilities n))])), r))"

section \<open>Routing\<close>

definition STORE_HANDLERS :: "rpc_env \<Rightarrow> registry option \<Rightarrow> envelope \<Rightarrow> int \<Rightarrow> (string \<times> dict rpc) list" where
  "STORE_HANDLERS x registry e now =
     [(''protocol/hello'', handle_protocol_hello), (''protocol/events'', handle_protocol_events x e), (''daemon/wake'', handle_daemon_wake x e now),
      (''contract/prepare'', handle_contract_prepare x e now), (''contract/approve'', handle_contract_approve x e now),
      (''contract/get'', handle_contract_get x e), (''contract/list'', handle_contract_list x e),
      (''contract/patch'', handle_contract_patch x e now), (''contract/pause'', handle_contract_pause x e now),
      (''contract/resume'', handle_contract_resume x e now), (''contract/cancel'', handle_contract_cancel x e now),
      (''contract/arbitrate'', handle_contract_arbitrate x e now),
      (''contract/request-verification'', handle_contract_request_verification x e now),
      (''contract/user-confirm'', handle_contract_user_confirm x e now), (''contract/auto-approve'', handle_contract_auto_approve x e now),
      (''goal/prepare'', handle_goal_prepare x registry e now), (''goal/admission-check'', handle_goal_admission_check x registry e now),
      (''goal/get'', handle_goal_get x e), (''goal/list'', handle_goal_list x e), (''goal/update'', handle_goal_update x e now),
      (''goal/advance'', handle_goal_advance x e now), (''goal/next'', handle_goal_next x e),
      (''goal/contract-draft'', handle_goal_contract_draft x e), (''attempt/status'', handle_attempt_status x e now),
      (''attempt/logs'', handle_attempt_status x e now), (''attempt/write-back'', handle_attempt_write_back x e now),
      (''lease/renew'', handle_lease_renew x e now), (''control/interrupt'', handle_control_interrupt x e now)]"

definition REGISTRY_HANDLERS :: "rpc_env \<Rightarrow> envelope \<Rightarrow> (string \<times> registry_handler) list" where
  "REGISTRY_HANDLERS x e = [(''executor/list'', handle_executor_list e), (''executor/enable'', handle_executor_enable x e),
     (''executor/disable'', handle_executor_disable x e), (''executor/health'', handle_executor_health x e)]"

definition routed :: "rpc_failure + dict \<Rightarrow> rpc_failure + dict" where
  "routed r = (case r of Inl f \<Rightarrow> Inl (route_failure f) | Inr v \<Rightarrow> Inr v)"

text \<open>A request on the store and the registry; without a registry an executor method sees an empty one.\<close>

definition route :: "rpc_env \<Rightarrow> envelope \<Rightarrow> int \<Rightarrow> store \<times> registry option \<Rightarrow> (rpc_failure + dict) \<times> store \<times> registry option" where
  "route x e now w = (case map_of (STORE_HANDLERS x (snd w) e now) (rq_method e) of
     Some h \<Rightarrow> (let (r, s') = h (fst w) in (routed r, s', snd w))
   | None \<Rightarrow> (case map_of (REGISTRY_HANDLERS x e) (rq_method e) of
       Some h \<Rightarrow> (case snd w of
           None \<Rightarrow> (routed (fst (h [])), fst w, None)
         | Some reg \<Rightarrow> (let (r, reg') = h reg in (routed r, fst w, Some reg')))
     | None \<Rightarrow> (Inl (Rpc STATE_FORBIDDEN ''method not implemented''), w)))"

end
