(* ===== verification/Rpc_Properties.thy ===== *)
theory Rpc_Properties
  imports Rpc_Server
begin

text \<open>
  What the requests can do to the contracts: who may change one, what a repeated request does, and what a confirmation rests on.
\<close>

section \<open>What a handler does to the store\<close>

text \<open>A relation between the store before and after that holds of a sequence when it holds of its parts.\<close>

definition keeps :: "(store \<Rightarrow> store \<Rightarrow> bool) \<Rightarrow> 'a rpc \<Rightarrow> bool" where
  "keeps R m = (\<forall>s. R s (snd (m s)))"

named_theorems keeps_intros \<open>handlers respect a relation on stores\<close>

locale store_frame =
  fixes R :: "store \<Rightarrow> store \<Rightarrow> bool"
  assumes refl: "R s s" and trans: "R s t \<Longrightarrow> R t u \<Longrightarrow> R s u"
begin

lemma keeps_pure: "keeps R (rpure a)" and keeps_lift: "keeps R (rlift r)" and keeps_read: "keeps R (rread f)"
  by (simp_all add: keeps_def refl rread_def)

lemma keeps_check: "keeps R (rcheck b c m)"
  by (simp add: rcheck_def keeps_lift)

lemma keeps_current: "keeps R (current_contract i)"
  by (simp add: keeps_def current_contract_def refl)

lemma keeps_bind: "keeps R m \<Longrightarrow> (\<And>a. keeps R (f a)) \<Longrightarrow> keeps R (rbind m f)"
  unfolding keeps_def rbind_def by (auto split: prod.split sum.split intro: trans) (metis snd_conv trans)

lemma keeps_write: "(\<And>s. R s (f s)) \<Longrightarrow> keeps R (rwrite f)"
  by (simp add: keeps_def rwrite_def)

lemma keeps_commit: "(\<And>s a s'. op s = Inr (a, s') \<Longrightarrow> R s s') \<Longrightarrow> keeps R (rcommit h op)"
  by (auto simp: keeps_def rcommit_def refl split: sum.split prod.split)

lemma keeps_replay: "keeps R m \<Longrightarrow> keeps R (replay_or x e i m)"
  by (auto simp: keeps_def replay_or_def refl split: sum.split option.split)

lemmas intros = keeps_pure keeps_lift keeps_read keeps_check keeps_current keeps_bind keeps_replay

end

text \<open>No contract is lost or changed; new ones may appear, as drafts.\<close>

definition contracts_kept :: "store \<Rightarrow> store \<Rightarrow> bool" where
  "contracts_kept s s' = (\<forall>c v. (get_contract s c = Some v \<longrightarrow> get_contract s' c = Some v) \<and>
     (get_contract s c = None \<longrightarrow> get_contract s' c = Some v \<longrightarrow> cv_state v = Drafted))"

interpretation kept: store_frame contracts_kept
  by unfold_locales (simp_all add: contracts_kept_def, metis not_Some_eq option.inject)

interpretation nothing_written: store_frame "(=)"
  by unfold_locales auto

declare kept.intros [keeps_intros] nothing_written.intros [keeps_intros]

lemma kept_same_contracts: "st_contracts s' = st_contracts s \<Longrightarrow> contracts_kept s s'"
  by (simp add: contracts_kept_def get_contract_def)

lemma kept_log [simp]: "contracts_kept s (snd (log_event n s))"
  by (rule kept_same_contracts) simp

lemma kept_save: "save_contract h c s = Inr (v, s') \<Longrightarrow> sv_state c = Drafted \<Longrightarrow> contracts_kept s s'"
  by (erule save_cases) (auto simp: contracts_kept_def wrote_contract_def get_contract_def)

lemma kept_patch_goal: "patch_goal rp c s = Inr (g, s') \<Longrightarrow> contracts_kept s s'"
  by (rule kept_same_contracts) (auto dest: patch_goal_Inr)

lemma kept_advance_goal: "advance_goal rp g st now r a s = Inr (w, s') \<Longrightarrow> contracts_kept s s'"
  by (auto simp: advance_goal_def res_simps split: option.splits dest: kept_patch_goal)

lemma kept_renew: "renew_lease c s = Inr (l, s') \<Longrightarrow> contracts_kept s s'"
  by (erule renew_lease_cases) (auto simp: lease_write_def intro: kept_same_contracts)

text \<open>Reading changes nothing.\<close>

lemma reads_nothing_written [keeps_intros]:
  "keeps (=) handle_protocol_hello" "keeps (=) (handle_protocol_events x e)" "keeps (=) (handle_contract_get x e)"
  "keeps (=) (handle_contract_list x e)" "keeps (=) (handle_goal_admission_check x reg e now)" "keeps (=) (handle_goal_get x e)"
  "keeps (=) (handle_goal_list x e)" "keeps (=) (handle_goal_next x e)" "keeps (=) (handle_goal_contract_draft x e)"
  "keeps (=) (handle_attempt_status x e now)"
  unfolding handle_protocol_hello_def handle_protocol_events_def handle_contract_get_def handle_contract_list_def
    handle_goal_admission_check_def handle_goal_get_def handle_goal_list_def handle_goal_next_def handle_goal_contract_draft_def
    handle_attempt_status_def attempt_params_def Let_def split_beta
  by (intro keeps_intros)+

lemma keeps_same: "keeps (=) m \<Longrightarrow> keeps contracts_kept m"
  unfolding keeps_def by (metis kept.refl)

lemma keeps_if [keeps_intros]: "keeps R m \<Longrightarrow> keeps R m' \<Longrightarrow> keeps R (if b then m else m')"
  by simp

lemma keeps_option [keeps_intros]: "keeps R m \<Longrightarrow> (\<And>a. keeps R (f a)) \<Longrightarrow> keeps R (case v of None \<Rightarrow> m | Some a \<Rightarrow> f a)"
  by (cases v) simp_all

lemma held_lease_keeps [keeps_intros]: "keeps contracts_kept (held_lease c a)"
  by (simp add: keeps_def held_lease_def kept.refl)

lemma kept_commits [keeps_intros]:
  "keeps contracts_kept (rcommit h (save_contract p (prepare_call d k og t e b)))" "keeps contracts_kept (rcommit h (patch_goal rp gc))"
  "keeps contracts_kept (rcommit h (advance_goal rp g st now r a))" "keeps contracts_kept (rcommit h (renew_lease lc))"
  "keeps contracts_kept (rwrite (\<lambda>s. snd (log_event n s)))"
  by (rule kept.keeps_commit, erule kept_save, simp add: prepare_call_def | rule kept.keeps_commit, erule kept_patch_goal kept_advance_goal kept_renew | rule kept.keeps_write, rule kept_log)+

lemma finish_prepare_keeps [keeps_intros]: "keeps contracts_kept (finish_prepare x reg e now a b c d f g)"
  unfolding finish_prepare_def Let_def by (intro keeps_intros)+

lemma writes_keep_contracts [keeps_intros]:
  "keeps contracts_kept (handle_daemon_wake x e now)" "keeps contracts_kept (handle_contract_prepare x e now)"
  "keeps contracts_kept (handle_goal_prepare x reg e now)" "keeps contracts_kept (handle_goal_update x e now)"
  "keeps contracts_kept (handle_goal_advance x e now)" "keeps contracts_kept (handle_lease_renew x e now)"
  "keeps contracts_kept (handle_control_interrupt x e now)"
  unfolding handle_daemon_wake_def handle_contract_prepare_def handle_goal_prepare_def handle_goal_update_def
    handle_goal_advance_def handle_lease_renew_def handle_control_interrupt_def attempt_params_def Let_def split_beta
  by (intro keeps_intros)+

section \<open>Who may do what\<close>

lemma replay_or_cases: "replay_or x e i m s = (r, s') \<Longrightarrow> s' = s \<or> m s = (r, s')"
  by (auto simp: replay_or_def split: sum.splits option.splits)

lemma rbind_quiet:
  assumes "rbind m f s = (r, s')" and "keeps (=) m"
  shows "s' = s \<and> (\<exists>err. r = Inl err) \<or> (\<exists>a. m s = (Inr a, s) \<and> f a s = (r, s'))"
  using assms unfolding keeps_def rbind_def by (auto split: prod.splits sum.splits) (metis snd_conv)+

lemma principal_denied:
  assumes "map_of TRUSTED_CLIENT_ACTORS (rq_client e) \<noteq> Some ''user''"
  shows "\<exists>c m. principal_only x e f s = (Inl (Rpc c m), s) \<and> c \<in> {AUTH_FAILED, VALIDATION_FAILED}"
proof -
  have "\<exists>m. require_principal e = Inl (Rpc AUTH_FAILED m)"
    using assms by (auto simp: require_principal_def resolve_actor_def of_option_def split: option.splits)
  moreover have "(\<exists>m. require_contract_id (rq_params e) = Inl (Rpc VALIDATION_FAILED m)) \<or> (\<exists>i. require_contract_id (rq_params e) = Inr i)"
    by (auto simp: require_contract_id_def sbind_def split: json.splits)
  ultimately show ?thesis by (auto simp: principal_only_def)
qed

lemmas principal_handlers = handle_contract_approve_def handle_contract_pause_def handle_contract_resume_def handle_contract_cancel_def
  handle_contract_arbitrate_def handle_contract_patch_def handle_contract_user_confirm_def

lemma denied_keeps:
  assumes "map_of TRUSTED_CLIENT_ACTORS (rq_client e) \<noteq> Some ''user''"
  shows "keeps R (principal_only x e f) \<longleftrightarrow> (\<forall>s. R s s)"
  unfolding keeps_def using principal_denied [OF assms, of x f] by (metis snd_conv)

lemma update_change:
  assumes "update_contract_state tz c s = Inr (w, s')" and "get_contract s i = Some v"
  shows "get_contract s' i = Some v \<or>
    i = uc_contract c \<and> (\<exists>v'. get_contract s' i = Some v' \<and> v' = updated_view c v \<and> (cv_state v = uc_state c \<or> is_valid_transition (cv_state v) (uc_state c)))"
  using assms(1)
proof (cases rule: update_cases)
  case (written current)
  then show ?thesis using assms(2) by (cases "i = uc_contract c") (auto simp: wrote_contract_def get_contract_def)
qed (use assms(2) in auto)

text \<open>A request of a verification resumes a blocked contract, and touches nothing else.\<close>

lemma verification_change:
  assumes "handle_contract_request_verification x e now s = (r, s')" and "get_contract s i = Some v"
  shows "\<exists>v'. get_contract s' i = Some v' \<and> (v' = v \<or> cv_draft v' = cv_draft v \<and> cv_state v = Blocked \<and> cv_state v' = Active)"
proof -
  let ?goal = "\<lambda>s'. \<exists>v'. get_contract s' i = Some v' \<and> (v' = v \<or> cv_draft v' = cv_draft v \<and> cv_state v = Blocked \<and> cv_state v' = Active)"
  have logged: "?goal t \<Longrightarrow> ?goal (snd (log_event n t))" for t n by (simp add: get_contract_def)
  have resume: "?goal s1" if "resume_for_verification x contract_id current now actor s = (a, s1)" "get_contract s contract_id = Some current"
    for contract_id current actor a s1
  proof (cases "cv_state current = Blocked")
    case True
    then show ?thesis using that assms(2)
      by (auto simp: resume_for_verification_def rbind_commit split: sum.splits dest!: update_change [OF _ assms(2)])
  qed (use that assms(2) in \<open>simp add: resume_for_verification_def\<close>)
  show ?thesis using assms
    by (auto simp: handle_contract_request_verification_def rbind_lift rbind_check Let_def replay_or_def current_contract_def rbind_def rwrite_def rpure_def rread_def rlift_def rcheck_def
        of_option_def dest!: resume logged split: sum.splits option.splits prod.splits if_splits)
qed

lemma same_contracts: "untouched s s' \<Longrightarrow> get_contract s' i = get_contract s i"
  by (simp add: untouched_def get_contract_def)

lemma write_back_change:
  assumes "write_back tz None c s = Inr (r, s')" and "get_contract s i = Some v"
  shows "\<exists>v'. get_contract s' i = Some v' \<and> (v' = v \<or> cv_draft v' = cv_draft v \<and> i = wb_contract c \<and> wb_state c = Some (cv_state v') \<and>
    (\<exists>l. get_lease s i (wb_partition c) = Some l \<and> le_generation l = wb_generation c \<and> le_holder l = wb_attempt c))"
proof (cases "request_events s (wb_request c) = []")
  case True
  from assms(1) obtain nr s1 where f: "write_back_fence None c s = Inr ()" "write_back_state tz c s = Inr (nr, s1)"
    "write_back_events c nr s1 = (r, s')" by (auto simp: write_back_def replayed_events_fresh [OF True] res_simps)
  have s': "get_contract s' i = get_contract s1 i" using write_back_events_frame [OF f(3)] by (simp add: same_contracts)
  show ?thesis
  proof (cases "wb_state c")
    case None
    then have "untouched s s1" using write_back_state_cases [OF f(2)] by simp
    then show ?thesis using assms(2) s' by (simp add: same_contracts)
  next
    case (Some t)
    then obtain w where u: "update_contract_state tz (write_back_update c t) (write_back_report c s) = Inr (w, s1)"
      using f(2) by (auto simp: write_back_state_def res_simps)
    obtain as where "write_back_report c s = s\<lparr>st_attempts := as\<rparr>" using write_back_report_frame by blast
    then have "get_contract (write_back_report c s) i = Some v" using assms(2) by (simp add: get_contract_def)
    from update_change [OF u this] Some f(1) s' show ?thesis
      by (auto simp: write_back_update_def updated_view_def write_back_fence_def or_else_def check_write_fence_def split: option.splits if_splits)
  qed
qed (use assms write_back_replay in blast)

text \<open>What a client that is not the user can do to a contract: resume a blocked one by asking for a verification, or report under a held lease.\<close>

definition allowed_change :: "envelope \<Rightarrow> store \<Rightarrow> string \<Rightarrow> contract_view \<Rightarrow> contract_view \<Rightarrow> bool" where
  "allowed_change e s i v v' \<longleftrightarrow> cv_draft v' = cv_draft v \<and>
     (rq_method e = ''contract/request-verification'' \<and> cv_state v = Blocked \<and> cv_state v' = Active \<or>
      rq_method e = ''attempt/write-back'' \<and> (\<exists>l. get_lease s i None = Some l \<and>
        dict_get (rq_params e) ''write_generation'' = JInt (le_generation l) \<and>
        (cv_state v' \<in> {Complete, Satisfied} \<longrightarrow> role_of_attempt (get_attempt s (le_holder l)) = ''verifier'')))"

lemma quiet_step:
  assumes "rbind m f s = (r, s')" and "keeps (=) m" and "s' \<noteq> s"
  obtains a where "m s = (Inr a, s)" and "f a s = (r, s')"
  using rbind_quiet [OF assms(1,2)] assms(3) by blast

lemma wanted_completion: "wanted_state rp raw a = Inr (Some st) \<Longrightarrow> st \<in> {Complete, Satisfied} \<Longrightarrow> role_of_attempt a = ''verifier''"
  by (auto simp: wanted_state_def split: if_splits sum.splits)

lemma given_generation: "strict_int_param (dict_get_or d k (JInt (-1))) = Inr n \<Longrightarrow> 0 \<le> n \<Longrightarrow> dict_get d k = JInt n"
  by (auto simp: dict_get_or_def dict_get_def strict_int_param_def split: option.splits json.splits)

lemma attempt_params_keeps [keeps_intros]: "keeps (=) (attempt_params x e)"
  unfolding attempt_params_def Let_def by (intro keeps_intros)

text \<open>A write-back that changes the store: the checks it passed and the call it made.\<close>

lemma write_back_rpc_cases:
  assumes "handle_attempt_write_back x e now s = (r, s')" and "s' \<noteq> s"
  obtains c w where "write_back (rx_zone x) None c s = Inr (w, s')" and "wb_partition c = None"
    and "dict_get (rq_params e) ''write_generation'' = JInt (wb_generation c)"
    and "\<And>st. wb_state c = Some st \<Longrightarrow> st \<in> {Complete, Satisfied} \<Longrightarrow> role_of_attempt (get_attempt s (wb_attempt c)) = ''verifier''"
proof -
  note step = quiet_step [OF _ _ assms(2)]
  show thesis
    using assms(1) unfolding handle_attempt_write_back_def Let_def
    apply -
    apply (erule step, rule keeps_intros)
    apply (clarsimp split: prod.splits)
    apply ((erule step, rule keeps_intros)+)
    apply (clarsimp simp: rbind_commit rread_def split: sum.splits prod.splits)
    subgoal using assms(2) by simp
    subgoal by (rule that, assumption) (auto simp: rcheck_def require_def intro: given_generation dest: wanted_completion split: if_splits)
    done
qed

lemma write_back_rpc_change:
  assumes "handle_attempt_write_back x e now s = (r, s')" and "get_contract s i = Some v" and "rq_method e = ''attempt/write-back''"
  shows "\<exists>v'. get_contract s' i = Some v' \<and> (v' = v \<or> allowed_change e s i v v')"
proof (cases "s' = s")
  case False
  from write_back_rpc_cases [OF assms(1) this] show ?thesis
  proof cases
    case (1 c w)
    from write_back_change [OF 1(1) assms(2)] 1(2-4) assms(3) show ?thesis by (fastforce simp: allowed_change_def)
  qed
qed (use assms(2) in auto)

definition outsider :: "envelope \<Rightarrow> bool" where
  "outsider e = (map_of TRUSTED_CLIENT_ACTORS (rq_client e) \<noteq> Some ''user'' \<and> rq_client e \<notin> set AUTO_APPROVE_CLIENTS)"

lemma auto_approve_denied: "rq_client e \<notin> set AUTO_APPROVE_CLIENTS \<Longrightarrow> keeps (=) (handle_contract_auto_approve x e now)"
  by (auto simp: keeps_def handle_contract_auto_approve_def rbind_lift rbind_check split: sum.split)

lemma principal_handlers_quiet:
  assumes "outsider e"
  shows "keeps (=) (handle_contract_approve x e now)" "keeps (=) (handle_contract_pause x e now)" "keeps (=) (handle_contract_resume x e now)"
    "keeps (=) (handle_contract_cancel x e now)" "keeps (=) (handle_contract_arbitrate x e now)" "keeps (=) (handle_contract_patch x e now)"
    "keeps (=) (handle_contract_user_confirm x e now)"
  using assms by (simp_all add: principal_handlers denied_keeps outsider_def)

lemma outsider_handlers:
  assumes "outsider e"
  shows "list_all (\<lambda>(m, h). m = ''contract/request-verification'' \<or> m = ''attempt/write-back'' \<or> keeps contracts_kept h)
    (STORE_HANDLERS x registry e now)"
proof -
  have "rq_client e \<notin> set AUTO_APPROVE_CLIENTS" using assms by (simp add: outsider_def)
  note quiet = reads_nothing_written [THEN keeps_same] principal_handlers_quiet [OF assms, THEN keeps_same]
    auto_approve_denied [OF this, THEN keeps_same] writes_keep_contracts
  show ?thesis unfolding STORE_HANDLERS_def list.pred_inject(2) prod.case
    by (simp only: quiet simp_thms list.pred_inject)
qed

lemma outsider_store_change:
  assumes "outsider e" and "map_of (STORE_HANDLERS x registry e now) (rq_method e) = Some h" and "h s = (r, s')" and "get_contract s i = Some v"
  shows "\<exists>v'. get_contract s' i = Some v' \<and> (v' = v \<or> allowed_change e s i v v')"
proof -
  consider "rq_method e = ''contract/request-verification''" | "rq_method e = ''attempt/write-back''" | "keeps contracts_kept h"
    using outsider_handlers [OF assms(1), of x registry now] map_of_SomeD [OF assms(2)] unfolding list_all_iff by blast
  then show ?thesis
  proof cases
    case 1
    then have "h = handle_contract_request_verification x e now" using assms(2) by (simp add: STORE_HANDLERS_def)
    then show ?thesis using verification_change [of x e now s r s', OF _ assms(4)] assms(3) 1 by (auto simp: allowed_change_def)
  next
    case 2
    then have "h = handle_attempt_write_back x e now" using assms(2) by (simp add: STORE_HANDLERS_def)
    then show ?thesis using write_back_rpc_change [of x e now s r s', OF _ assms(4) 2] assms(3) by simp
  next
    case 3
    then have "contracts_kept s s'" using assms(3) by (metis keeps_def snd_conv)
    then show ?thesis using assms(4) by (auto simp: contracts_kept_def)
  qed
qed

text \<open>A request of a verification and a write-back create nothing.\<close>

definition same_ids :: "store \<Rightarrow> store \<Rightarrow> bool" where
  "same_ids s s' \<longleftrightarrow> (\<forall>c. get_contract s' c = None \<longleftrightarrow> get_contract s c = None)"

interpretation ids: store_frame same_ids
  by unfold_locales (simp_all add: same_ids_def)

declare ids.intros [keeps_intros]

lemma untouched_ids: "untouched s s' \<Longrightarrow> same_ids s s'"
  by (simp add: same_ids_def same_contracts)

lemma wrote_ids: "wrote_contract i v s s' \<Longrightarrow> get_contract s i \<noteq> None \<Longrightarrow> same_ids s s'"
  by (auto simp: same_ids_def wrote_contract_def get_contract_def)

lemma update_ids: "update_contract_state tz c s = Inr (v, s') \<Longrightarrow> same_ids s s'"
  by (erule update_cases) (auto simp: ids.refl intro: wrote_ids)

lemma write_back_ids:
  assumes "write_back tz None c s = Inr (r, s')"
  shows "same_ids s s'"
proof (cases "request_events s (wb_request c) = []")
  case True
  from assms obtain nr s1 where f: "write_back_state tz c s = Inr (nr, s1)" "write_back_events c nr s1 = (r, s')"
    by (auto simp: write_back_def replayed_events_fresh [OF True] res_simps)
  have "same_ids s s1" using write_back_state_cases [OF f(1)] by (auto simp: advances_def intro: untouched_ids wrote_ids)
  moreover have "same_ids s1 s'" using write_back_events_frame [OF f(2)] by (simp add: untouched_ids)
  ultimately show ?thesis by (rule ids.trans)
qed (use assms write_back_replay ids.refl in blast)

lemma ids_commits [keeps_intros]:
  "keeps same_ids (rcommit h (update_contract_state tz uc))" "keeps same_ids (rcommit h (write_back tz None wc))"
  "keeps same_ids (rwrite (\<lambda>s. snd (log_event n s)))"
  by (rule ids.keeps_commit, erule update_ids write_back_ids | rule ids.keeps_write, simp add: same_ids_def get_contract_def)+

lemma creates_nothing:
  "keeps same_ids (handle_contract_request_verification x e now)" "keeps same_ids (handle_attempt_write_back x e now)"
  unfolding handle_contract_request_verification_def handle_attempt_write_back_def attempt_params_def resume_for_verification_def Let_def split_beta
  by (intro keeps_intros)+

lemma outsider_store_new:
  assumes "outsider e" and "map_of (STORE_HANDLERS x registry e now) (rq_method e) = Some h" and "h s = (r, s')"
    and "get_contract s i = None" and "get_contract s' i = Some v"
  shows "cv_state v = Drafted"
proof -
  consider "rq_method e = ''contract/request-verification''" | "rq_method e = ''attempt/write-back''" | "keeps contracts_kept h"
    using outsider_handlers [OF assms(1), of x registry now] map_of_SomeD [OF assms(2)] unfolding list_all_iff by blast
  then show ?thesis
  proof cases
    case 3
    then have "contracts_kept s s'" using assms(3) by (metis keeps_def snd_conv)
    then show ?thesis using assms(4,5) by (simp add: contracts_kept_def)
  qed (use assms creates_nothing [of x e now] in \<open>auto simp: STORE_HANDLERS_def keeps_def same_ids_def, (metis not_None_eq snd_conv)+\<close>)
qed

lemma outsider_registry_change:
  assumes "outsider e" and "map_of (REGISTRY_HANDLERS x e) (rq_method e) = Some h"
  shows "snd (h reg) = reg"
proof -
  have "\<exists>f. require_principal e = Inl f"
    using assms(1) by (auto simp: outsider_def require_principal_def resolve_actor_def of_option_def split: option.splits)
  then show ?thesis using assms(2)
    by (auto simp: REGISTRY_HANDLERS_def handle_executor_enable_def handle_executor_disable_def switch_executor_def handle_executor_list_def
        handle_executor_health_def split: if_splits sum.splits json.splits prod.splits)
qed

section \<open>Repeated requests\<close>

text \<open>The log holds an event of the request on the contract.\<close>

definition recorded_request :: "string \<Rightarrow> string \<Rightarrow> store \<Rightarrow> bool" where
  "recorded_request i q s \<longleftrightarrow> (\<exists>v \<in> set (el_rows (st_log s)). ev_request v = Some q \<and> ev_contract v = Some i)"

lemma recorded_later: "recorded_request i q s \<Longrightarrow> set (el_rows (st_log s)) \<subseteq> set (el_rows (st_log t)) \<Longrightarrow> recorded_request i q t"
  by (auto simp: recorded_request_def)

lemma restamped_log [simp]: "recorded_request i q (restamp_plan_approvals c n s) \<longleftrightarrow> recorded_request i q s"
proof -
  have "recorded_request i q t \<longleftrightarrow> (Some q, Some i) \<in> set (map (\<lambda>v. (ev_request v, ev_contract v)) (el_rows (st_log t)))" for t
    by (force simp: recorded_request_def)
  moreover have "map (\<lambda>v. (ev_request v, ev_contract v)) (el_rows (st_log (restamp_plan_approvals c n s))) =
    map (\<lambda>v. (ev_request v, ev_contract v)) (el_rows (st_log s))" by (simp add: restamp_plan_approvals_def)
  ultimately show ?thesis by (simp only:)
qed

lemma update_recorded:
  assumes "update_contract_state tz c s = Inr (v, s')" and "s' \<noteq> s" and "uc_request c = Some q"
  shows "recorded_request (uc_contract c) q s'"
proof -
  have fresh: "request_events s (uc_request c) = []" using update_replay [OF _ assms(1)] assms(2) by blast
  then obtain current where "apply_update tz c current s = Inr (v, s')"
    using assms(1) by (auto simp: update_fresh [OF fresh] split: option.splits if_splits)
  from apply_update_log [OF this] assms(3) show ?thesis by (auto simp: recorded_request_def)
qed

lemma patch_recorded:
  assumes "patch_contract c s = Inr (v, s')" and "s' \<noteq> s" and "pc_request c = Some q"
  shows "recorded_request (pc_contract c) q s'"
proof -
  have fresh: "request_events s (pc_request c) = []" using patch_replay [OF _ assms(1)] assms(2) by blast
  have "\<exists>n s1 e. s' = restamp_plan_approvals (pc_contract c) n (s1\<lparr>st_log := snd (append_event e (st_log s1))\<rparr>) \<and>
    ne_request e = pc_request c \<and> ne_contract e = Some (pc_contract c)"
    using assms(1) unfolding patch_contract_def replayed_events_fresh [OF fresh] Let_def log_event_simps
    by (cases "get_contract s (pc_contract c)") (auto simp: res_simps event_call_def split: if_splits, fastforce)
  then obtain n s1 e where "s' = restamp_plan_approvals (pc_contract c) n (s1\<lparr>st_log := snd (append_event e (st_log s1))\<rparr>)"
    "ne_request e = pc_request c" "ne_contract e = Some (pc_contract c)" by blast
  then show ?thesis using assms(3) by (simp add: recorded_request_def [of _ _ "_\<lparr>st_log := _\<rparr>"] stored_event_def)
qed

text \<open>A handler body that records its request on the contract whenever it succeeds with a change.\<close>

definition records :: "envelope \<Rightarrow> (string \<Rightarrow> dict rpc) \<Rightarrow> bool" where
  "records e f \<longleftrightarrow> (\<forall>i r s s'. f i s = (Inr r, s') \<longrightarrow> s' \<noteq> s \<longrightarrow> recorded_request i (rq_request e) s')"

lemma records_bind [intro]:
  assumes "keeps (=) m" and "\<And>a. records e (\<lambda>i. f i a)"
  shows "records e (\<lambda>i. rbind m (f i))"
  unfolding records_def using rbind_quiet [OF _ assms(1)] assms(2)[unfolded records_def] by (metis Inl_Inr_False)

lemma records_current [intro]:
  assumes "\<And>a. records e (\<lambda>i. f i a)"
  shows "records e (\<lambda>i. rbind (current_contract i) (f i))"
  unfolding records_def using rbind_quiet [OF _ nothing_written.keeps_current] assms[unfolded records_def] by (metis Inl_Inr_False)

lemma records_commit:
  assumes "\<And>i a s s'. op i s = Inr (a, s') \<Longrightarrow> s' \<noteq> s \<Longrightarrow> recorded_request i (rq_request e) s'"
  shows "records e (\<lambda>i. rbind (rcommit h (op i)) (\<lambda>v. rpure (g v)))"
  using assms by (auto simp: records_def rbind_commit split: sum.splits)

lemma records_change_contract [intro]:
  assumes "\<And>i a. uc_contract (call i a) = i \<and> uc_request (call i a) = Some (rq_request e)"
  shows "records e (\<lambda>i. change_contract x e now i allowed (call i))"
  unfolding change_contract_def
  by (intro records_current records_bind keeps_intros records_commit) (metis update_recorded assms)

lemma principal_handlers_record:
  "records e (\<lambda>i. rbind (rlift (expected_revision_param e)) (\<lambda>expected.
     change_contract x e now i allowed (state_change e i st now expected ev payload)))"
  by (intro records_bind records_change_contract keeps_intros) (simp add: state_change_def)

lemma principal_only_effect:
  assumes "principal_only x e f s = (Inr res, s')" and "s' \<noteq> s" and "records e f"
  shows "\<exists>i a. require_contract_id (rq_params e) = Inr i \<and> require_principal e = Inr a \<and> recorded_request i (rq_request e) s'"
  using assms by (fastforce simp: principal_only_def rbind_lift records_def split: sum.splits dest: replay_or_cases)

lemma contract_id_given: "require_contract_id params = Inr i \<Longrightarrow> i \<noteq> []"
  by (auto simp: require_contract_id_def sbind_def split: sum.splits if_splits)

lemma recorded_replay:
  assumes "recorded_request i (rq_request e) t" and "get_contract t i = Some v" and "rq_request e \<noteq> []" and "i \<noteq> []"
  shows "idempotent_replay x e i t = Inr (Some (view_result x v))"
proof -
  have "request_events t (Some (rq_request e)) = filter (\<lambda>v. ev_request v = Some (rq_request e)) (el_rows (st_log t))"
    using assms(3) by (simp add: request_events_text text_or_def)
  moreover obtain w where "w \<in> set (el_rows (st_log t))" "ev_request w = Some (rq_request e)" "ev_contract w = Some i"
    using assms(1) by (auto simp: recorded_request_def)
  ultimately have w: "w \<in> set (request_events t (Some (rq_request e)))" "text_or (ev_contract w) [] = i"
    using assms(4) by (simp_all add: text_or_def)
  then have "i \<in> set (filter (\<lambda>c. c \<noteq> []) (map (\<lambda>v. text_or (ev_contract v) []) (request_events t (Some (rq_request e)))))"
    using assms(4) by force
  moreover have "request_events t (Some (rq_request e)) \<noteq> []" using w(1) by auto
  ultimately show ?thesis using assms(2) by (auto simp: idempotent_replay_def Let_def)
qed

lemma principal_only_replay:
  assumes "require_contract_id (rq_params e) = Inr i" and "require_principal e = Inr a" and "rq_request e \<noteq> []"
    and "recorded_request i (rq_request e) t" and "get_contract t i = Some v"
  shows "principal_only x e f t = (Inr (view_result x v), t)"
  using assms(1,2) recorded_replay [OF assms(4,5,3) contract_id_given [OF assms(1)], of x]
  by (simp add: principal_only_def replay_or_def)

definition PRINCIPAL_CHANGES :: "string list" where
  "PRINCIPAL_CHANGES = [''contract/approve'', ''contract/pause'', ''contract/resume'', ''contract/cancel'', ''contract/arbitrate'', ''contract/patch'']"

lemma approve_records: "\<exists>f. handle_contract_approve x e now = principal_only x e f \<and> records e f"
  unfolding handle_contract_approve_def using principal_handlers_record by blast

lemma pause_records: "\<exists>f. handle_contract_pause x e now = principal_only x e f \<and> records e f"
  unfolding handle_contract_pause_def using principal_handlers_record by blast

lemma resume_records: "\<exists>f. handle_contract_resume x e now = principal_only x e f \<and> records e f"
  unfolding handle_contract_resume_def using principal_handlers_record by blast

lemma cancel_records: "\<exists>f. handle_contract_cancel x e now = principal_only x e f \<and> records e f"
  unfolding handle_contract_cancel_def using principal_handlers_record by blast

lemma arbitrate_records: "\<exists>f. handle_contract_arbitrate x e now = principal_only x e f \<and> records e f"
  unfolding handle_contract_arbitrate_def Let_def
  by (rule exI, rule conjI [OF refl], intro records_bind records_change_contract keeps_intros) (simp add: state_change_def)

lemma patch_records: "\<exists>f. handle_contract_patch x e now = principal_only x e f \<and> records e f"
  unfolding handle_contract_patch_def Let_def
  by (rule exI, rule conjI [OF refl], intro records_bind records_current records_commit keeps_intros) (auto dest: patch_recorded)

lemmas method_records = approve_records pause_records resume_records cancel_records arbitrate_records patch_records

lemma principal_changes_record:
  assumes "map_of (STORE_HANDLERS x registry e now) m = Some h" and "m \<in> set PRINCIPAL_CHANGES"
  shows "\<exists>f. h = principal_only x e f \<and> records e f"
  using assms(2) assms(1) unfolding PRINCIPAL_CHANGES_def
  by (auto simp: STORE_HANDLERS_def intro: method_records)

lemma principal_changes_handled: "m \<in> set PRINCIPAL_CHANGES \<Longrightarrow> \<exists>h. map_of (STORE_HANDLERS x registry e now) m = Some h"
  unfolding PRINCIPAL_CHANGES_def by (auto simp: STORE_HANDLERS_def)

section \<open>A concrete runtime\<close>

definition sample_rpc_env :: rpc_env where
  "sample_rpc_env = \<lparr>rx_host = unary_host, rx_zone = sample_tz, rx_fmt = (\<lambda>t. int_str t), rx_digest = sample_repr, rx_pick = hd,
     rx_auto_id = (\<lambda>t. ''auto''), rx_day = (\<lambda>t. ''day''), rx_random = ''r'', rx_health = (\<lambda>n. (True, [])), rx_dumps = (\<lambda>d. []),
     rx_token = (\<lambda>a. None), rx_sha = id\<rparr>"

definition sample_request :: "string \<Rightarrow> string \<Rightarrow> envelope" where
  "sample_request m client = \<lparr>rq_method = m, rq_request = ''r1'', rq_client = client, rq_params = [(''contract_id'', JStr ''c1'')]\<rparr>"

lemma sample_request_simps [simp]:
  "rq_method (sample_request m client) = m" "rq_request (sample_request m client) = ''r1''" "rq_client (sample_request m client) = client"
  "rq_params (sample_request m client) = [(''contract_id'', JStr ''c1'')]"
  by (simp_all add: sample_request_def)

lemma sample_outsider: "outsider (sample_request m ''mcp'')"
  by (simp add: outsider_def TRUSTED_CLIENT_ACTORS_def AUTO_APPROVE_CLIENTS_def)

lemma sample_contract_id: "require_contract_id [(''contract_id'', JStr ''c1'')] = Inr ''c1''"
  by code_simp

lemma sample_user: "require_principal (sample_request m ''cli'') = Inr ''user''" "resolve_actor (sample_request m ''cli'') = Inr ''user''"
  by (simp_all add: require_principal_def resolve_actor_def TRUSTED_CLIENT_ACTORS_def)

lemma sample_fresh: "request_events sample_store (Some ''r1'') = []"
  by (simp add: sample_store_def save_eval get_events_by_request_id_def empty_log_def)

lemma sample_approval:
  "\<exists>v s'. update_contract_state tz (state_change (sample_request m ''cli'') ''c1'' Active 5 None None [] ''user'') sample_store = Inr (v, s') \<and>
     get_contract s' ''c1'' = Some v \<and> cv_revision v = 2"
proof -
  let ?c = "state_change (sample_request m ''cli'') ''c1'' Active 5 None None [] ''user''"
  have c: "uc_contract ?c = ''c1''" "uc_request ?c = Some ''r1''" "uc_expected ?c = None" "uc_state ?c = Active"
    by (simp_all add: state_change_def)
  obtain s' where s': "apply_update tz ?c sample_view sample_store = Inr (updated_view ?c sample_view, s')"
    using apply_update_total [OF sample_history, of ?c sample_view tz] sample_contract c by auto
  have "get_contract s' ''c1'' = Some (updated_view ?c sample_view)"
    using apply_update_Inr [OF s'] c by (simp add: wrote_contract_def get_contract_def)
  moreover have "update_contract_state tz ?c sample_store = apply_update tz ?c sample_view sample_store"
    using update_fresh [of sample_store ?c] sample_contract c sample_fresh by (simp add: contract_table)
  ultimately show ?thesis using s' by simp
qed

lemma rbind_current: "rbind (current_contract i) f s = (case get_contract s i of None \<Rightarrow> (Inl (Rpc UNKNOWN_CONTRACT ''contract not found''), s)
  | Some v \<Rightarrow> f v s)"
  by (simp add: current_contract_def rbind_def of_option_def split: option.split)

section \<open>What the requests promise\<close>

text \<open>
  C13: Only the user moves a contract. A client that is neither the user nor the daemon can send any method: the registry
  stays as it was, and a contract stays as it was, except that a request of a verification resumes a blocked one, and that a write-back
  reports a state under the lease that is held and of its generation, a completion only if the holder is a verifier.
  The draft never changes, no contract disappears, and one that appears is a draft.
\<close>

theorem only_the_user_moves_contracts:
  assumes "map_of TRUSTED_CLIENT_ACTORS (rq_client e) \<noteq> Some ''user''" and "rq_client e \<notin> set AUTO_APPROVE_CLIENTS"
    and "route x e now w = (r, w')" and "get_contract (fst w) i = Some v"
  shows "snd w' = snd w \<and> (\<exists>v'. get_contract (fst w') i = Some v' \<and> (v' = v \<or> allowed_change e (fst w) i v v')) \<and>
    (\<forall>c u. get_contract (fst w) c = None \<longrightarrow> get_contract (fst w') c = Some u \<longrightarrow> cv_state u = Drafted)"
proof -
  have e: "outsider e" using assms(1,2) by (simp add: outsider_def)
  show ?thesis
  proof (cases "map_of (STORE_HANDLERS x (snd w) e now) (rq_method e)")
    case None
    then show ?thesis using assms(3,4)
      by (auto simp: route_def split: option.splits prod.splits dest: outsider_registry_change [OF e])
        (metis outsider_registry_change [OF e] snd_conv)
  next
    case (Some h)
    then show ?thesis using assms(3,4)
      by (auto simp: route_def split: prod.splits dest: outsider_store_change [OF e] outsider_store_new [OF e])
  qed
qed

theorem only_the_user_moves_contracts_witness:
  "get_contract (fst (snd (route sample_rpc_env (sample_request ''contract/cancel'' ''mcp'') 5 (sample_store, None)))) ''c1'' = Some sample_view"
  using only_the_user_moves_contracts [of "sample_request ''contract/cancel'' ''mcp''" sample_rpc_env 5 "(sample_store, None)",
      OF _ _ prod.collapse [symmetric], of "''c1''" sample_view] sample_contract
  by (auto simp: TRUSTED_CLIENT_ACTORS_def AUTO_APPROVE_CLIENTS_def allowed_change_def)

text \<open>
  C16: A repeated request is safe. Once a request of the Principal has changed a contract, sending it again, however much
  later and whatever was written in between, changes nothing and answers with the contract as it stands.
\<close>

theorem repeated_request_changes_nothing:
  assumes "rq_method e \<in> set PRINCIPAL_CHANGES" and "rq_request e \<noteq> []"
    and "route x e now w = (Inr res, w')" and "fst w' \<noteq> fst w"
    and "(\<lambda>v. (ev_request v, ev_contract v)) ` set (el_rows (st_log (fst w'))) \<subseteq>
      (\<lambda>v. (ev_request v, ev_contract v)) ` set (el_rows (st_log (fst w'')))"
    and "require_contract_id (rq_params e) = Inr i" and "get_contract (fst w'') i = Some v"
  shows "route x e later w'' = (Inr (view_result x v), w'')"
proof -
  obtain h where h: "map_of (STORE_HANDLERS x (snd w) e now) (rq_method e) = Some h" using principal_changes_handled [OF assms(1)] by blast
  obtain h' where h': "map_of (STORE_HANDLERS x (snd w'') e later) (rq_method e) = Some h'" using principal_changes_handled [OF assms(1)] by blast
  obtain f where f: "h = principal_only x e f" "records e f" using principal_changes_record [OF h assms(1)] by blast
  obtain f' where f': "h' = principal_only x e f'" using principal_changes_record [OF h' assms(1)] by blast
  obtain res' where "h (fst w) = (Inr res', fst w')"
    using assms(3) h by (auto simp: route_def routed_def split: prod.splits sum.splits)
  from principal_only_effect [OF this [unfolded f(1)] assms(4) f(2)] assms(6) obtain a
    where a: "require_principal e = Inr a" and rec: "recorded_request i (rq_request e) (fst w')" by auto
  have "recorded_request i (rq_request e) (fst w'')"
    using rec subsetD [OF assms(5), of "(Some (rq_request e), Some i)"] by (force simp: recorded_request_def)
  from principal_only_replay [OF assms(6) a assms(2) this assms(7), of x f'] h' f'
  show ?thesis by (simp add: route_def routed_def)
qed

theorem repeated_request_changes_nothing_witness:
  "\<exists>res w' v. route sample_rpc_env (sample_request ''contract/approve'' ''cli'') 5 (sample_store, None) = (Inr res, w') \<and>
     fst w' \<noteq> sample_store \<and> route sample_rpc_env (sample_request ''contract/approve'' ''cli'') 9 w' = (Inr (view_result sample_rpc_env v), w')"
proof -
  let ?e = "sample_request ''contract/approve'' ''cli''"
  obtain v s' where u: "update_contract_state (rx_zone sample_rpc_env) (state_change ?e ''c1'' Active 5 None None [] ''user'') sample_store = Inr (v, s')"
    and v: "get_contract s' ''c1'' = Some v" "cv_revision v = 2" using sample_approval by blast
  have "s' \<noteq> sample_store" using v sample_contract by auto
  have "handle_contract_approve sample_rpc_env ?e 5 sample_store = (Inr (view_result sample_rpc_env v), s')"
    using u sample_contract
    by (simp add: handle_contract_approve_def principal_only_def sample_contract_id sample_user replay_or_def idempotent_replay_def sample_fresh Let_def
        expected_revision_param_def coerce_int_def dict_get_def change_contract_def rbind_current rbind_check
        rbind_commit contract_table)
  then have r: "route sample_rpc_env ?e 5 (sample_store, None) = (Inr (view_result sample_rpc_env v), (s', None))"
    by (simp add: route_def STORE_HANDLERS_def routed_def)
  then have "route sample_rpc_env ?e 9 (s', None) = (Inr (view_result sample_rpc_env v), (s', None))"
    using repeated_request_changes_nothing [of ?e, OF _ _ r _ order_refl _ ] \<open>s' \<noteq> sample_store\<close> v(1) sample_contract_id
    by (simp add: PRINCIPAL_CHANGES_def)
  with r \<open>s' \<noteq> sample_store\<close> show ?thesis by auto
qed

section \<open>The confirmation of the user\<close>

text \<open>A complete contract stays as it is while the goal advances and the next contract is made.\<close>

definition complete_kept :: "store \<Rightarrow> store \<Rightarrow> bool" where
  "complete_kept s s' \<longleftrightarrow> (\<forall>c v. get_contract s c = Some v \<longrightarrow> cv_state v = Complete \<longrightarrow> get_contract s' c = Some v)"

interpretation complete: store_frame complete_kept
  by unfold_locales (auto simp: complete_kept_def)

lemma contracts_kept_complete: "contracts_kept s s' \<Longrightarrow> complete_kept s s'"
  by (simp add: contracts_kept_def complete_kept_def)

lemma complete_auto_approve: "auto_approve_drafted_contract rp pick tz v now s = Inr (b, s') \<Longrightarrow> complete_kept s s'"
  by (auto simp: auto_approve_drafted_contract_def complete_kept_def promote_call_def contract_table split: if_splits sum.splits
      dest: update_change)

lemma auto_create_cases:
  assumes "auto_create_next_stage_contract x v now ev s = Inr s'"
  obtains "s' = s" | e r where "handle_goal_prepare x None e now s = (r, s')"
  | e r s1 w b where "handle_goal_prepare x None e now s = (r, s1)"
      and "auto_approve_drafted_contract (h_repr (rx_host x)) (rx_pick x) (rx_zone x) w now s1 = Inr (b, s')"
proof -
  have prepared: "thesis" if "(case handle_goal_prepare x None e now s of (Inl f, s1) \<Rightarrow> Inr s1
      | (Inr r, s1) \<Rightarrow> (case get_contract s1 i of None \<Rightarrow> Inr s1
         | Some v \<Rightarrow> (case auto_approve_drafted_contract (h_repr (rx_host x)) (rx_pick x) (rx_zone x) v now s1 of
             Inl err \<Rightarrow> Inr s1 | Inr (b, s2) \<Rightarrow> Inr s2))) = Inr s'" for e i
    using that \<open>\<And>e r. handle_goal_prepare x None e now s = (r, s') \<Longrightarrow> thesis\<close>
      \<open>\<And>e r s1 w b. handle_goal_prepare x None e now s = (r, s1) \<Longrightarrow>
        auto_approve_drafted_contract (h_repr (rx_host x)) (rx_pick x) (rx_zone x) w now s1 = Inr (b, s') \<Longrightarrow> thesis\<close>
    by (cases "handle_goal_prepare x None e now s") (auto split: sum.splits option.splits prod.splits)
  show thesis
  proof (cases "get_goal s (cv_goal_id v)")
    case (Some g)
    show thesis
    proof (cases "open_next_stage (h_repr (rx_host x)) g")
      case None
      with Some assms have "s' = s" by (simp add: auto_create_next_stage_contract_def)
      then show thesis by (rule that(1))
    next
      case (Some p)
      obtain stage_id stage where p: "p = (stage_id, stage)" by (cases p)
      note body = assms [unfolded auto_create_next_stage_contract_def Let_def \<open>get_goal s (cv_goal_id v) = Some g\<close> Some p option.case prod.case]
      from body obtain d where d: "next_stage_draft x g stage ev now s = Inr d" by (cases "next_stage_draft x g stage ev now s") simp_all
      show thesis
      proof (cases d)
        case None
        with body d have "s' = s" by simp
        then show thesis by (rule that(1))
      next
        case (Some draft)
        show thesis using body [unfolded d Some sbind_Inr option.case] by (rule prepared)
      qed
    qed
  qed (use assms that(1) in \<open>simp add: auto_create_next_stage_contract_def\<close>)
qed

lemma complete_auto_create:
  assumes "auto_create_next_stage_contract x v now ev s = Inr s'"
  shows "complete_kept s s'"
proof -
  have prepared: "complete_kept s s1" if "handle_goal_prepare x None e now s = (r, s1)" for e r s1
    using writes_keep_contracts(3) [of x None e now] that by (metis contracts_kept_complete keeps_def snd_conv)
  from assms show ?thesis
    by (cases rule: auto_create_cases) (auto simp: complete.refl intro: prepared complete.trans complete_auto_approve)
qed

lemma kept_advance_after: "contracts_kept s (advance_goal_after_verified_contract rp v now s)"
  by (auto simp: advance_goal_after_verified_contract_def Let_def kept.refl split: option.splits json.splits sum.splits dest: kept_advance_goal)

lemma confirm_transaction_outcome:
  assumes "confirm_transaction x i current now actor nt verifier evidence s = Inr ((), s')" and "get_contract s i = Some current"
  shows "\<exists>v' d. deadline_verdict now (cv_draft current) = Inr d \<and> get_contract s' i = Some v' \<and> cv_draft v' = cv_draft current \<and>
    cv_revision v' = cv_revision current + 1 \<and> cv_state v' = Complete \<and> cv_acceptance_status v' = Passed \<and> cv_deadline_status v' = d \<and>
    (cv_state current = Complete \<or> is_valid_transition (cv_state current) Complete)"
proof -
  from assms(1) obtain d c v s1 s2 where d: "deadline_verdict now (cv_draft current) = Inr d"
    and u: "update_contract_state (rx_zone x) c s1 = Inr (v, s2)"
    and c: "uc_contract c = i" "uc_state c = Complete" "uc_acceptance c = Some Passed" "uc_deadline c = Some d" "uc_request c = None"
    and s1: "get_contract s1 i = get_contract s i"
    and rest: "complete_kept (advance_goal_after_verified_contract (h_repr (rx_host x)) v now s2) s'"
    by (force simp: confirm_transaction_def Let_def res_simps lift_py_Inr get_contract_def dest: complete_auto_create)
  from u have "get_contract s2 i = Some v \<and> v = updated_view c current \<and> (cv_state current = Complete \<or> is_valid_transition (cv_state current) Complete)"
    by (cases rule: update_cases) (use c s1 assms(2) in \<open>auto simp: wrote_contract_def get_contract_def\<close>)
  moreover from this c have "complete_kept s2 s'"
    using complete.trans [OF contracts_kept_complete [OF kept_advance_after] rest] by blast
  ultimately show ?thesis using d c by (auto simp: complete_kept_def updated_view_def or_else_def)
qed

lemma matched_evidence_fresh:
  assumes "latest_verifier_evidence digest i s = MatchedEvidence a payload" and "get_contract s i = Some v"
  shows "\<exists>w \<in> set (get_events (Some i) None [] None (st_log s)). verifier_success w \<and>
    dict_get (ev_payload w) ''acceptance_fingerprint'' = JStr (content_fingerprint digest (cd_acceptance (cv_draft v)))"
  using assms
  by (auto simp: latest_verifier_evidence_def Let_def evidence_objection_def split: option.splits if_splits dest!: find_Some_in)

lemma no_evidence:
  "latest_verifier_evidence digest i s = NoEvidence \<Longrightarrow> get_contract s i = Some v \<Longrightarrow>
    filter verifier_success (get_events (Some i) None [] None (st_log s)) = []"
  by (auto simp: latest_verifier_evidence_def Let_def split: option.splits if_splits)

text \<open>
  C15: A confirmation completes a candidate, and rests on fresh evidence. When it takes effect the caller is the user, the contract
  awaited a confirmation and may complete; a verifier that reported a success did so for the acceptance as it stands;
  the contract is then complete and passed, one revision later, with the draft that it had and met exactly by its deadline, whatever
  the goal and the next stage did in the same transaction.
\<close>

theorem confirmation_rests_on_fresh_evidence:
  assumes "handle_contract_user_confirm x e now s = (Inr res, s')" and "require_contract_id (rq_params e) = Inr i"
    and "request_events s (Some (rq_request e)) = []"
  shows "require_principal e = Inr ''user'' \<and>
    (\<exists>v v'. get_contract s i = Some v \<and> cv_acceptance_status v = Candidate \<and> (cv_state v = Complete \<or> is_valid_transition (cv_state v) Complete) \<and>
      (filter verifier_success (get_events (Some i) None [] None (st_log s)) = [] \<or>
       (\<exists>w \<in> set (get_events (Some i) None [] None (st_log s)). verifier_success w \<and>
          dict_get (ev_payload w) ''acceptance_fingerprint'' = JStr (content_fingerprint (rx_digest x) (cd_acceptance (cv_draft v))))) \<and>
      get_contract s' i = Some v' \<and> cv_state v' = Complete \<and> cv_acceptance_status v' = Passed \<and> cv_draft v' = cv_draft v \<and>
      cv_revision v' = cv_revision v + 1 \<and> deadline_verdict now (cv_draft v) = Inr (cv_deadline_status v'))"
proof -
  obtain actor where actor: "require_principal e = Inr actor" using assms(1,2)
    by (auto simp: handle_contract_user_confirm_def principal_only_def split: sum.splits)
      (cases "require_principal e"; simp)
  then have "actor = ''user''" by (auto simp: require_principal_def sbind_eq_Inr split: if_splits)
  moreover have "idempotent_replay x e i s = Inr None" using assms(3) by (simp add: idempotent_replay_def)
  note run = assms(1) [unfolded handle_contract_user_confirm_def principal_only_def assms(2) actor rpc_simps Let_def replay_or_def this
      sum.case option.case rbind_current rbind_check]
  from run obtain v where v: "get_contract s i = Some v" "cv_acceptance_status v = Candidate"
    by (auto split: option.splits if_splits)
  note run = run [unfolded v option.case simp_thms if_True rpc_simps]
  let ?found = "latest_verifier_evidence (rx_digest x) i s"
  from run have "\<nexists>reason. ?found = StaleEvidence reason" by (auto simp: rbind_def)
  then have fresh: "filter verifier_success (get_events (Some i) None [] None (st_log s)) = [] \<or>
       (\<exists>w \<in> set (get_events (Some i) None [] None (st_log s)). verifier_success w \<and>
          dict_get (ev_payload w) ''acceptance_fingerprint'' = JStr (content_fingerprint (rx_digest x) (cd_acceptance (cv_draft v))))"
    using no_evidence [OF _ v(1)] matched_evidence_fresh [OF _ v(1)] by (cases ?found) blast+
  obtain nt verifier evidence where "confirm_transaction x i v now actor nt verifier evidence s = Inr ((), s')"
    using run by (cases ?found) (auto simp: rbind_def rcommit_def split: sum.splits prod.splits)
  from confirm_transaction_outcome [OF this v(1)] v fresh actor \<open>actor = ''user''\<close> show ?thesis by blast
qed

definition candidate_update :: update_call where
  "candidate_update = \<lparr>uc_contract = ''c1'', uc_state = Active, uc_now = 3, uc_expected = None, uc_blocked = None, uc_next_wakeup = None,
     uc_deadline = None, uc_acceptance = Some Candidate, uc_next_decision = None, uc_event = None, uc_payload = [], uc_request = None,
     uc_actor = ''daemon'', uc_schema = 6\<rparr>"

definition candidate_view :: contract_view where
  "candidate_view = updated_view candidate_update sample_view"

definition candidate_store :: store where
  "candidate_store = snd (projr (update_contract_state sample_tz candidate_update sample_store))"

lemma candidate_simps [simp]:
  "uc_contract candidate_update = ''c1''" "uc_state candidate_update = Active" "uc_expected candidate_update = None"
  "uc_request candidate_update = None" "cv_state candidate_view = Active" "cv_acceptance_status candidate_view = Candidate"
  "cv_draft candidate_view = sample_contract_draft" "cv_goal_id candidate_view = ''c1''" "cv_revision candidate_view = 2"
  by (simp_all add: candidate_view_def updated_view_def candidate_update_def or_else_def sample_view_def)

lemma candidate_saved: "update_contract_state sample_tz candidate_update sample_store = Inr (candidate_view, candidate_store)"
proof -
  obtain s' where "apply_update sample_tz candidate_update sample_view sample_store = Inr (candidate_view, s')"
    using apply_update_total [OF sample_history, of candidate_update sample_view sample_tz] sample_contract by (auto simp: candidate_view_def)
  then have "update_contract_state sample_tz candidate_update sample_store = Inr (candidate_view, s')"
    using sample_contract by (simp add: update_fresh contract_table)
  then show ?thesis by (simp add: candidate_store_def)
qed


text \<open>A verifier succeeded on the acceptance as it stands.\<close>

definition confirm_store :: store where
  "confirm_store = snd (log_event ((event_call (Some ''c1'') ATTEMPT_SUCCEEDED
     [(''acceptance_fingerprint'', JStr (content_fingerprint sample_repr (cd_acceptance sample_contract_draft)))] 4)\<lparr>ne_role := Some ''verifier''\<rparr>)
     candidate_store)"

lemma history_ok_log: "history_ok s \<Longrightarrow> history_ok (snd (log_event n s))"
  by (simp add: history_ok_def history_at_def revisions_of_def get_contract_def cong: option.case_cong)

lemma candidate_written: "wrote_contract ''c1'' candidate_view sample_store candidate_store" "st_goals candidate_store = st_goals sample_store"
  using candidate_saved by (auto elim!: update_cases)

lemma confirm_facts: "get_contract confirm_store ''c1'' = Some candidate_view" "history_ok confirm_store"
  "st_goals confirm_store = st_goals sample_store"
  using candidate_written history_ok_log [OF history_ok_step [OF step_update [OF candidate_saved] sample_history]]
  unfolding confirm_store_def by (auto simp: wrote_contract_def get_contract_def)

lemma confirm_evidence: "\<exists>a p. latest_verifier_evidence sample_repr ''c1'' confirm_store = MatchedEvidence a p"
proof -
  let ?es = "filter verifier_success (get_events (Some ''c1'') None [] None (st_log confirm_store))"
  have "find (\<lambda>w. evidence_objection sample_repr (cd_acceptance sample_contract_draft) w = None) ?es \<noteq> None"
    by (simp add: find_None_all confirm_store_def get_events_def stored_event_def event_call_def verifier_success_def evidence_objection_def
        dict_get_def sample_contract_draft_def)
  then show ?thesis using confirm_facts(1) by (auto simp: latest_verifier_evidence_def Let_def split: option.split)
qed

lemma sample_goal_row: "map_of (st_goals sample_store) ''c1'' = Some \<lparr>go_revision = 1, go_title = ''T'', go_objective = ''O'', go_plan = [],
  go_progress = [], go_created_at = 10, go_updated_at = 10\<rparr>"
  by (simp add: sample_store_def save_eval sample_contract_draft_def)

lemma planless_goal:
  assumes "st_goals s = st_goals sample_store" and "cv_goal_id v = ''c1''"
  shows "advance_goal_after_verified_contract rp v now s = s" "auto_create_next_stage_contract x v now ev s = Inr s"
proof -
  obtain g where "get_goal s ''c1'' = Some g" "go_plan (gw_row g) = []" "go_progress (gw_row g) = []"
    using assms(1) sample_goal_row by (simp add: get_goal_def Let_def)
  then show "advance_goal_after_verified_contract rp v now s = s" "auto_create_next_stage_contract x v now ev s = Inr s"
    using assms(2) by (simp_all add: advance_goal_after_verified_contract_def auto_create_next_stage_contract_def open_next_stage_def dict_get_def)
qed

lemma confirmed: "\<exists>s'. confirm_transaction sample_rpc_env ''c1'' candidate_view 5 ''user'' nt verifier evidence confirm_store = Inr ((), s')"
proof -
  let ?c = "\<lparr>uc_contract = ''c1'', uc_state = Complete, uc_now = 5, uc_expected = Some (cv_revision candidate_view),
       uc_blocked = None, uc_next_wakeup = None, uc_deadline = Some Missed, uc_acceptance = Some Passed, uc_next_decision = None,
       uc_event = None, uc_payload = [(''verifier'', verifier), (''evidence'', JObj evidence), (''user_confirmed'', JBool True)],
       uc_request = None, uc_actor = ''user'', uc_schema = STORE_SCHEMA_VERSION\<rparr>"
  have "\<exists>s2. update_contract_state (rx_zone sample_rpc_env) ?c (snd (log_event n confirm_store)) = Inr (updated_view ?c candidate_view, s2) \<and>
    st_goals s2 = st_goals sample_store" for n
  proof -
    have c: "get_contract (snd (log_event n confirm_store)) (uc_contract ?c) = Some candidate_view"
      using confirm_facts(1) by (simp add: get_contract_def)
    obtain s2 where s2: "apply_update (rx_zone sample_rpc_env) ?c candidate_view (snd (log_event n confirm_store)) = Inr (updated_view ?c candidate_view, s2)"
      using apply_update_total [OF history_ok_log [OF confirm_facts(2)] c] by blast
    moreover have "update_contract_state (rx_zone sample_rpc_env) ?c (snd (log_event n confirm_store)) =
      apply_update (rx_zone sample_rpc_env) ?c candidate_view (snd (log_event n confirm_store))"
      using c by (simp add: update_fresh contract_table)
    moreover have "st_goals s2 = st_goals sample_store" using apply_update_Inr [OF s2] confirm_facts(3) by simp
    ultimately show ?thesis by simp
  qed
  moreover have "deadline_verdict 5 (cd candidate_view) = Inr Missed" if "cd = cv_draft" for cd
    using that by (simp add: deadline_verdict_def sample_contract_draft_def)
  ultimately show ?thesis by (auto simp: confirm_transaction_def Let_def res_simps lift_py_Inr planless_goal simp del: log_event_simps)
      (metis (no_types, lifting) candidate_simps(8) planless_goal updated_view_simps(4))
qed

lemma confirm_fresh: "request_events confirm_store (Some ''r1'') = []"
proof -
  have "apply_update sample_tz candidate_update sample_view sample_store = Inr (candidate_view, candidate_store)"
    using candidate_saved sample_contract by (simp add: update_fresh contract_table)
  from apply_update_log [OF this] obtain e where "ev_request e = None"
    "el_rows (st_log candidate_store) = el_rows (st_log (restamp_plan_approvals ''c1'' (cv_revision candidate_view) sample_store)) @ [e]" by auto
  moreover have "filter (\<lambda>e. ev_request e = Some ''r1'') (el_rows (st_log sample_store)) = []"
    using sample_fresh by (simp add: request_events_text text_or_def)
  ultimately show ?thesis
    by (simp add: request_events_text text_or_def confirm_store_def stored_event_def event_call_def restamp_request_filter)
qed

theorem confirmation_rests_on_fresh_evidence_witness:
  "\<exists>res s' v'. handle_contract_user_confirm sample_rpc_env (sample_request ''contract/user-confirm'' ''cli'') 5 confirm_store = (Inr res, s') \<and>
     get_contract s' ''c1'' = Some v' \<and> cv_state v' = Complete \<and> cv_acceptance_status v' = Passed"
proof -
  let ?e = "sample_request ''contract/user-confirm'' ''cli''"
  obtain a p where ev: "latest_verifier_evidence (rx_digest sample_rpc_env) ''c1'' confirm_store = MatchedEvidence a p"
    using confirm_evidence by (auto simp: sample_rpc_env_def)
  obtain s' where s': "confirm_transaction sample_rpc_env ''c1'' candidate_view 5 ''user'' JNull (opt_str a) p confirm_store = Inr ((), s')"
    using confirmed by blast
  have "\<exists>res. handle_contract_user_confirm sample_rpc_env ?e 5 confirm_store = (Inr res, s')"
    using s' by (simp add: handle_contract_user_confirm_def principal_only_def sample_contract_id sample_user replay_or_def idempotent_replay_def confirm_fresh
        Let_def rbind_current confirm_facts(1) ev rbind_commit dict_get_def py_or_def strip_def lstrip_def)
  then obtain res where r: "handle_contract_user_confirm sample_rpc_env ?e 5 confirm_store = (Inr res, s')" by blast
  from confirmation_rests_on_fresh_evidence [OF r, of "''c1''"] confirm_fresh sample_contract_id r show ?thesis by auto
qed

text \<open>
  Before it retries a transient error, \<open>route\<close> logs an event that carries the request and no contract. The retried method then takes
  that event for its own: it answers with the contract as it stands and does nothing.
\<close>

lemma retry_audit_swallows_the_request:
  assumes "require_contract_id (rq_params e) = Inr i" and "require_principal e = Inr a" and "get_contract s i = Some v"
    and "request_events s (Some (rq_request e)) = [w]" and "ev_contract w = None"
  shows "principal_only x e f s = (Inr (view_result x v), s)"
  using assms by (simp add: principal_only_def replay_or_def idempotent_replay_def text_or_def)

text \<open>The daemon promotes a draft on what the draft says of itself; the grant of the goal is not asked.\<close>

lemma automatic_approval_reads_the_contract_only:
  assumes "rq_client e = ''daemon''" and "require_contract_id (rq_params e) = Inr i" and "request_events s (Some (rq_request e)) = []"
    and "get_contract s i = Some v" and "cv_state v = Drafted" and "aa_enabled (cd_auto_approve (cv_draft v))"
    and "update_contract_state (rx_zone x) (state_change e i Active now (Some (cv_revision v)) None [] ''daemon'') s = Inr (v', s')"
  shows "handle_contract_auto_approve x e now s = (Inr (view_result x v'), s')"
  using assms
  by (simp add: handle_contract_auto_approve_def AUTO_APPROVE_CLIENTS_def replay_or_def idempotent_replay_def rbind_current resolve_actor_def
      TRUSTED_CLIENT_ACTORS_def)

end
