(* ===== verification/Retry.thy ===== *)
theory Retry
  imports Lhgp_Prelude
begin

text \<open>
  \<open>longtask/rpc/dispatch.py\<close>: which exceptions are transient, the delay before a retry, and the loop that retries a call. A call and the
  callback are state passing; the source of jitter is a function of the retry, with values from 0 to 1. An exception is what the detection
  looks at: its class, whether it is a \<open>ConnectionError\<close> or a \<open>TimeoutError\<close>, and the status codes that it or its response expose.
\<close>

record retry_config =
  rc_max_retries :: nat
  rc_base_delay :: rat
  rc_max_delay :: rat

definition default_retry :: retry_config where
  "default_retry = \<lparr>rc_max_retries = 3, rc_base_delay = 1 / 2, rc_max_delay = 8\<rparr>"

record exn =
  xn_class :: string
  xn_connection_or_timeout :: bool
  xn_status :: "int option"
  xn_response_status :: "int option"

definition RETRYABLE_STATUS_CODES :: "int list" where
  "RETRYABLE_STATUS_CODES = [429, 502, 503, 504]"

definition http_status_code :: "exn \<Rightarrow> int option" where
  "http_status_code x = (case xn_status x of Some c \<Rightarrow> Some c | None \<Rightarrow> xn_response_status x)"

definition ends_with :: "string \<Rightarrow> string \<Rightarrow> bool" where
  "ends_with s suffix = (length suffix \<le> length s \<and> drop (length s - length suffix) s = suffix)"

definition is_transient_error :: "exn \<Rightarrow> bool" where
  "is_transient_error x = (if xn_connection_or_timeout x then True
     else (case http_status_code x of
         Some c \<Rightarrow> c \<in> set RETRYABLE_STATUS_CODES
       | None \<Rightarrow> list_ex (ends_with (xn_class x)) [''ConnectError'', ''ReadTimeout'', ''ReadTimeoutError'', ''RemoteProtocolError'']))"

definition backoff_delay :: "retry_config \<Rightarrow> nat \<Rightarrow> rat \<Rightarrow> rat" where
  "backoff_delay cfg i jitter = min (rc_base_delay cfg * 2 ^ i) (rc_max_delay cfg) + jitter * (rc_base_delay cfg / 2)"

text \<open>The loop from retry \<open>i\<close> on, with \<open>left\<close> retries left: the outcome, the state, and the delays that were slept.\<close>

fun retry_from :: "retry_config \<Rightarrow> (nat \<Rightarrow> rat) \<Rightarrow> (nat \<Rightarrow> exn \<Rightarrow> rat \<Rightarrow> 's \<Rightarrow> 's) \<Rightarrow> ('s \<Rightarrow> (exn + 'a) \<times> 's) \<Rightarrow>
    nat \<Rightarrow> nat \<Rightarrow> 's \<Rightarrow> (exn + 'a) \<times> 's \<times> rat list" where
  "retry_from cfg jitter on_retry call i left s = (case call s of
     (Inr a, s') \<Rightarrow> (Inr a, s', [])
   | (Inl x, s') \<Rightarrow> (case left of
        0 \<Rightarrow> (Inl x, s', [])
      | Suc left' \<Rightarrow>
          if \<not> is_transient_error x then (Inl x, s', [])
          else (let delay = backoff_delay cfg i (jitter i);
                    (r, t, delays) = retry_from cfg jitter on_retry call (Suc i) left' (on_retry (Suc i) x delay s') in
                (r, t, delay # delays))))"

definition with_transient_retry ::
  "retry_config \<Rightarrow> (nat \<Rightarrow> rat) \<Rightarrow> (nat \<Rightarrow> exn \<Rightarrow> rat \<Rightarrow> 's \<Rightarrow> 's) \<Rightarrow> ('s \<Rightarrow> (exn + 'a) \<times> 's) \<Rightarrow> 's \<Rightarrow> (exn + 'a) \<times> 's \<times> rat list" where
  "with_transient_retry cfg jitter on_retry call = retry_from cfg jitter on_retry call 0 (rc_max_retries cfg)"

declare retry_from.simps [simp del]

text \<open>What the loop has to do: the state in which the \<open>k\<close>-th call is made, if the ones before it failed.\<close>

primrec call_state :: "retry_config \<Rightarrow> (nat \<Rightarrow> rat) \<Rightarrow> (nat \<Rightarrow> exn \<Rightarrow> rat \<Rightarrow> 's \<Rightarrow> 's) \<Rightarrow> ('s \<Rightarrow> (exn + 'a) \<times> 's) \<Rightarrow> 's \<Rightarrow> nat \<Rightarrow> 's" where
  "call_state cfg jitter on_retry call s 0 = s"
| "call_state cfg jitter on_retry call s (Suc k) = (let t = call_state cfg jitter on_retry call s k in
     on_retry (Suc k) (projl (fst (call t))) (backoff_delay cfg k (jitter k)) (snd (call t)))"

definition transient_outcome :: "exn + 'a \<Rightarrow> bool" where
  "transient_outcome r = (case r of Inl x \<Rightarrow> is_transient_error x | Inr a \<Rightarrow> False)"

lemma retry_from_spec:
  assumes "t = call_state cfg jitter on_retry call s i"
  shows "\<exists>k \<le> left. (\<forall>j \<in> {i..<i + k}. transient_outcome (fst (call (call_state cfg jitter on_retry call s j)))) \<and>
    (k < left \<longrightarrow> \<not> transient_outcome (fst (call (call_state cfg jitter on_retry call s (i + k))))) \<and>
    retry_from cfg jitter on_retry call i left t =
      (fst (call (call_state cfg jitter on_retry call s (i + k))), snd (call (call_state cfg jitter on_retry call s (i + k))),
       map (\<lambda>j. backoff_delay cfg j (jitter j)) [i..<i + k])"
  using assms
proof (induction left arbitrary: i t)
  case 0
  then show ?case by (auto simp: retry_from.simps split: prod.split sum.split)
next
  case (Suc left)
  show ?case
  proof (cases "transient_outcome (fst (call t))")
    case False
    then have "retry_from cfg jitter on_retry call i (Suc left) t = (fst (call t), snd (call t), [])"
      by (auto simp: retry_from.simps transient_outcome_def split: prod.split sum.split)
    with False Suc.prems show ?thesis by (intro exI [of _ 0]) simp
  next
    case True
    then obtain x t' where c: "call t = (Inl x, t')" "is_transient_error x"
      by (cases "call t") (auto simp: transient_outcome_def split: sum.splits)
    let ?d = "backoff_delay cfg i (jitter i)"
    have next_state: "on_retry (Suc i) x ?d t' = call_state cfg jitter on_retry call s (Suc i)"
      using c Suc.prems by (simp add: Let_def)
    from Suc.IH [OF next_state] obtain k where k: "k \<le> left"
      "\<forall>j \<in> {Suc i..<Suc i + k}. transient_outcome (fst (call (call_state cfg jitter on_retry call s j)))"
      "k < left \<longrightarrow> \<not> transient_outcome (fst (call (call_state cfg jitter on_retry call s (Suc i + k))))"
      "retry_from cfg jitter on_retry call (Suc i) left (on_retry (Suc i) x ?d t') =
        (fst (call (call_state cfg jitter on_retry call s (Suc i + k))), snd (call (call_state cfg jitter on_retry call s (Suc i + k))),
         map (\<lambda>j. backoff_delay cfg j (jitter j)) [Suc i..<Suc i + k])" by blast
    have "\<forall>j \<in> {i..<i + Suc k}. transient_outcome (fst (call (call_state cfg jitter on_retry call s j)))"
      using True Suc.prems k(2) by (auto simp: less_Suc_eq_le Suc_le_eq le_eq_less_or_eq)
    moreover have "retry_from cfg jitter on_retry call i (Suc left) t =
      (fst (call (call_state cfg jitter on_retry call s (i + Suc k))), snd (call (call_state cfg jitter on_retry call s (i + Suc k))),
       map (\<lambda>j. backoff_delay cfg j (jitter j)) [i..<i + Suc k])"
      using c k(4) by (simp add: retry_from.simps [of _ _ _ _ i "Suc left"] upt_conv_Cons del: upt_Suc)
    ultimately show ?thesis using k(1,3) by (intro exI [of _ "Suc k"]) simp
  qed
qed

text \<open>
  A call is retried boundedly. The loop makes one call and at most \<open>max_retries\<close> more, each after a transient failure only;
  its outcome and state are those of the last call, which was no transient failure unless the retries were used up; before each
  retry it slept the backed-off delay, which never exceeds the upper delay and half the base delay.
\<close>

theorem retries_are_bounded:
  assumes "with_transient_retry cfg jitter on_retry call s = (r, t, delays)" and "0 \<le> rc_base_delay cfg" and "\<And>i. jitter i \<le> 1"
  shows "(\<exists>k \<le> rc_max_retries cfg. call (call_state cfg jitter on_retry call s k) = (r, t) \<and>
      (\<forall>j < k. transient_outcome (fst (call (call_state cfg jitter on_retry call s j)))) \<and>
      (k < rc_max_retries cfg \<longrightarrow> \<not> transient_outcome r) \<and> length delays = k) \<and>
    (\<forall>d \<in> set delays. d \<le> rc_max_delay cfg + rc_base_delay cfg / 2)"
proof -
  from retry_from_spec [of s cfg jitter on_retry call s 0 "rc_max_retries cfg"] assms(1)
  obtain k where k: "k \<le> rc_max_retries cfg" "\<forall>j \<in> {0..<k}. transient_outcome (fst (call (call_state cfg jitter on_retry call s j)))"
    "k < rc_max_retries cfg \<longrightarrow> \<not> transient_outcome (fst (call (call_state cfg jitter on_retry call s k)))"
    "r = fst (call (call_state cfg jitter on_retry call s k))" "t = snd (call (call_state cfg jitter on_retry call s k))"
    "delays = map (\<lambda>j. backoff_delay cfg j (jitter j)) [0..<k]"
    by (auto simp: with_transient_retry_def)
  have "backoff_delay cfg j (jitter j) \<le> rc_max_delay cfg + rc_base_delay cfg / 2" for j
    using mult_right_mono [OF assms(3) [of j], of "rc_base_delay cfg / 2"] assms(2) by (simp add: backoff_delay_def add_mono)
  with k show ?thesis by auto
qed

text \<open>A call that fails with a status of 503 until the third time, on a counter of the calls.\<close>

definition flaky_call :: "nat \<Rightarrow> (exn + nat) \<times> nat" where
  "flaky_call n = (if n < 2 then Inl \<lparr>xn_class = ''HTTPStatusError'', xn_connection_or_timeout = False, xn_status = Some 503,
     xn_response_status = None\<rparr> else Inr n, Suc n)"

lemma flaky_run: "with_transient_retry default_retry (\<lambda>i. 0) (\<lambda>i x d n. n) flaky_call 0 = (Inr 2, 3, [1 / 2, 1])"
  by (simp add: with_transient_retry_def default_retry_def retry_from.simps flaky_call_def is_transient_error_def http_status_code_def
      RETRYABLE_STATUS_CODES_def backoff_delay_def numeral_eq_Suc)

theorem retries_are_bounded_witness:
  "\<exists>k \<le> 3. flaky_call (call_state default_retry (\<lambda>i. 0) (\<lambda>i x d n. n) flaky_call 0 k) = (Inr 2, 3) \<and> k = 2"
proof -
  have "0 \<le> rc_base_delay default_retry" "rc_max_retries default_retry = 3" by (simp_all add: default_retry_def)
  from retries_are_bounded [OF flaky_run this(1)] this(2) show ?thesis by (auto simp: numeral_2_eq_2)
qed

end
