(* ===== verification/Projections.thy ===== *)
theory Projections
  imports Scheduling Contract_Properties
begin

text \<open>
  \<open>longtask/persistence/projections.py\<close>: the text of \<open>handover.md\<close> and its parser, and the files that are rebuilt from the store.
  A file is a text under the contract and its name; the directory is not modelled, and writing does not fail. The JSON texts come from
  \<open>json.dumps\<close> (plain and indented) and \<open>json.loads\<close>, and the Chinese texts of the source are parameters, since their characters
  lie outside the code points of \<open>string\<close>.
\<close>

section \<open>Lines\<close>

text \<open>\<open>str.splitlines()\<close> on code points below 256.\<close>

definition is_break :: "char \<Rightarrow> bool" where
  "is_break c = (let n = (of_char c :: nat) in (10 \<le> n \<and> n \<le> 13) \<or> (28 \<le> n \<and> n \<le> 30) \<or> n = 133)"

definition LF :: char where "LF = char_of (10::nat)"
definition CR :: char where "CR = char_of (13::nat)"

definition after_break :: "string \<Rightarrow> string" where
  "after_break s = (case s of [] \<Rightarrow> [] | c # r \<Rightarrow> if c = CR \<and> starts_with r [LF] then tl r else r)"

lemma after_break_length: "length (after_break s) \<le> length s - 1"
  by (cases s) (auto simp: after_break_def)

function splitlines :: "string \<Rightarrow> string list" where
  "splitlines s = (if s = [] then []
     else takeWhile (\<lambda>c. \<not> is_break c) s # splitlines (after_break (dropWhile (\<lambda>c. \<not> is_break c) s)))"
  by pat_completeness auto

termination splitlines
proof (relation "measure length", simp)
  fix s :: string
  assume "s \<noteq> []"
  have "length (after_break (dropWhile (\<lambda>c. \<not> is_break c) s)) \<le> length (dropWhile (\<lambda>c. \<not> is_break c) s) - 1"
    by (rule after_break_length)
  also have "\<dots> < length s" using length_dropWhile_le [of "\<lambda>c. \<not> is_break c" s] \<open>s \<noteq> []\<close> by (cases s) auto
  finally show "(after_break (dropWhile (\<lambda>c. \<not> is_break c) s), s) \<in> measure length" by simp
qed

declare splitlines.simps [simp del]

lemma splitlines_Nil [simp]: "splitlines [] = []"
  by (simp add: splitlines.simps)

lemma is_break_codes [simp]: "is_break LF" "LF \<noteq> CR" "is_space LF"
  by (simp_all add: is_break_def LF_def CR_def is_space_def)

text \<open>A line and the line feed after it.\<close>

definition plain :: "string \<Rightarrow> bool" where
  "plain s = (\<forall>c \<in> set s. is_break c \<longrightarrow> c = LF)"

lemma splitlines_line: "list_all (\<lambda>c. \<not> is_break c) l \<Longrightarrow> splitlines (l @ LF # rest) = l # splitlines rest"
  by (subst splitlines.simps) (simp add: list_all_iff takeWhile_append2 dropWhile_append2 after_break_def)

lemma splitlines_last: "list_all (\<lambda>c. \<not> is_break c) l \<Longrightarrow> l \<noteq> [] \<Longrightarrow> splitlines l = [l]"
proof -
  assume "list_all (\<lambda>c. \<not> is_break c) l" and "l \<noteq> []"
  then have "dropWhile (\<lambda>c. \<not> is_break c) l = []" "takeWhile (\<lambda>c. \<not> is_break c) l = l"
    by (simp_all add: list_all_iff dropWhile_eq_Nil_conv takeWhile_eq_all_conv)
  with \<open>l \<noteq> []\<close> show ?thesis
    by (simp only: splitlines.simps [of l] after_break_def list.case splitlines_Nil if_False)
qed

section \<open>handover.md\<close>

record handover =
  ho_stage :: string
  ho_completed :: "string list"
  ho_remaining :: "string list"
  ho_hours :: pyfloat
  ho_next_action :: string
  ho_digest :: string
  ho_source :: string
  ho_risks :: "string list"

definition format_markdown_list :: "string list \<Rightarrow> string" where
  "format_markdown_list items = (if items = [] then ''- (none)'' else join [LF] (map (\<lambda>i. ''- '' @ i) items))"

definition section_text :: "string \<Rightarrow> string \<Rightarrow> string" where
  "section_text name body = ''## '' @ name @ [LF] @ body @ [LF]"

definition format_markdown :: "(json \<Rightarrow> string) \<Rightarrow> handover \<Rightarrow> string" where
  "format_markdown rp d = ''# Handover State'' @ [LF, LF] @
     section_text ''current_stage'' (strip (ho_stage d)) @ [LF] @
     section_text ''source_attempt_id'' (strip (ho_source d)) @ [LF] @
     section_text ''estimate_remaining_hours'' (rp (JFloat (ho_hours d))) @ [LF] @
     section_text ''next_action'' (strip (ho_next_action d)) @ [LF] @
     section_text ''constraints_digest'' (strip (ho_digest d)) @ [LF] @
     section_text ''completed_evidence'' (format_markdown_list (ho_completed d)) @ [LF] @
     section_text ''remaining'' (format_markdown_list (ho_remaining d)) @ [LF] @
     section_text ''open_risks'' (format_markdown_list (ho_risks d))"

text \<open>\<open>re.match(r"^##\s+([a-zA-Z0-9_]+)", line.strip())\<close>.\<close>

definition is_word :: "char \<Rightarrow> bool" where
  "is_word c = (let n = (of_char c :: nat) in (48 \<le> n \<and> n \<le> 57) \<or> (65 \<le> n \<and> n \<le> 90) \<or> n = 95 \<or> (97 \<le> n \<and> n \<le> 122))"

definition section_header :: "string \<Rightarrow> string option" where
  "section_header line = (let t = strip line; r = drop 2 t; name = takeWhile is_word (dropWhile is_space r) in
     if starts_with t ''##'' \<and> r \<noteq> [] \<and> is_space (hd r) \<and> name \<noteq> [] then Some name else None)"

definition store_section :: "(string \<times> string list) option \<Rightarrow> (string \<times> string) list \<Rightarrow> (string \<times> string) list" where
  "store_section cur sections = (case cur of None \<Rightarrow> sections | Some (name, body) \<Rightarrow> put name (strip (join [LF] body)) sections)"

fun scan_sections :: "string list \<Rightarrow> (string \<times> string list) option \<Rightarrow> (string \<times> string) list \<Rightarrow> (string \<times> string) list" where
  "scan_sections [] cur sections = store_section cur sections"
| "scan_sections (line # rest) cur sections = (case section_header line of
     Some name \<Rightarrow> scan_sections rest (Some (name, [])) (store_section cur sections)
   | None \<Rightarrow> scan_sections rest (map_option (\<lambda>(name, body). (name, body @ [line])) cur) sections)"

definition REQUIRED_SECTIONS :: "string list" where
  "REQUIRED_SECTIONS = [''current_stage'', ''completed_evidence'', ''remaining'', ''estimate_remaining_hours'', ''next_action'',
     ''constraints_digest'', ''source_attempt_id'']"

definition list_item :: "string \<Rightarrow> string list" where
  "list_item line = (let s = strip line in
     if starts_with s ''- '' \<or> starts_with s ''* '' then
       (let item = strip (drop 2 s) in if item \<noteq> [] \<and> item \<noteq> ''(none)'' then [item] else [])
     else if s \<noteq> [] \<and> s \<noteq> ''(none)'' then [s] else [])"

definition parse_list :: "string \<Rightarrow> string list" where
  "parse_list raw = concat (map list_item (splitlines raw))"

definition float_negative :: "pyfloat \<Rightarrow> bool" where
  "float_negative f = (case f of Fin q \<Rightarrow> q < 0 | NegInf \<Rightarrow> True | _ \<Rightarrow> False)"

definition parse_handover_markdown :: "pyhost \<Rightarrow> string \<Rightarrow> handover option \<times> string list" where
  "parse_handover_markdown h content =
     (let sections = scan_sections (splitlines content) None [];
          text = (\<lambda>k. case map_of sections k of None \<Rightarrow> [] | Some t \<Rightarrow> t);
          missing = map (\<lambda>k. ''missing required section: '' @ k) (filter (\<lambda>k. text k = []) REQUIRED_SECTIONS);
          raw_hours = text ''estimate_remaining_hours'';
          bad_hours = (case h_float_of h raw_hours of
             None \<Rightarrow> [''invalid estimate_remaining_hours: '' @ [CHR 0x27] @ raw_hours @ [CHR 0x27]]
           | Some f \<Rightarrow> if float_negative f then [''estimate_remaining_hours must be non-negative, got '' @ h_repr h (JFloat f)] else []);
          errors = missing @ bad_hours in
      if errors \<noteq> [] then (None, errors)
      else (Some \<lparr>ho_stage = text ''current_stage'', ho_completed = parse_list (text ''completed_evidence''),
              ho_remaining = parse_list (text ''remaining''), ho_hours = the (h_float_of h raw_hours),
              ho_next_action = text ''next_action'', ho_digest = text ''constraints_digest'',
              ho_source = text ''source_attempt_id'', ho_risks = parse_list (text ''open_risks'')\<rparr>, []))"

section \<open>A handover is read back as it was written\<close>

lemma strip_id:
  assumes "s \<noteq> []" and "\<not> is_space (hd s)" and "\<not> is_space (last s)"
  shows "strip s = s"
proof -
  have "lstrip t = t" if "t \<noteq> []" "\<not> is_space (hd t)" for t using that by (cases t) (simp_all add: lstrip_def)
  from this [of s] this [of "rev s"] assms show ?thesis by (simp add: strip_def hd_rev)
qed

lemma stripped_ends:
  assumes "strip s = s" and "s \<noteq> []"
  shows "\<not> is_space (hd s)" "\<not> is_space (last s)"
proof -
  have "hd (lstrip t) = hd t \<and> \<not> is_space (hd t)" if "lstrip t = t" "t \<noteq> []" for t
    using that hd_dropWhile [of is_space t] by (simp add: lstrip_def)
  have len: "length (lstrip t) \<le> length t" for t by (simp add: lstrip_def length_dropWhile_le)
  have whole: "lstrip t = t" if "length (lstrip t) = length t" for t
  proof (cases t)
    case (Cons c r)
    then show ?thesis using that length_dropWhile_le [of is_space r] by (cases "is_space c") (simp_all add: lstrip_def)
  qed (simp add: lstrip_def)
  have "length s \<le> length (lstrip s)" using assms(1) len [of "rev (lstrip s)"] by (metis length_rev strip_def)
  then have s: "lstrip s = s" by (intro whole le_antisym len)
  then show "\<not> is_space (hd s)" using assms(2) hd_dropWhile [of is_space s] by (simp add: lstrip_def)
  have "lstrip (rev s) = rev s" using assms(1) s by (metis rev_rev_ident strip_def)
  then show "\<not> is_space (last s)" using assms(2) hd_dropWhile [of is_space "rev s"] by (simp add: lstrip_def hd_rev)
qed

lemma break_is_space: "is_break c \<Longrightarrow> is_space c"
  by (auto simp: is_break_def is_space_def Let_def)

lemma join_Cons: "xs \<noteq> [] \<Longrightarrow> join sep (x # xs) = x @ sep @ join sep xs"
  by (cases xs) (simp_all add: join_def)

lemma join_single [simp]: "join sep [x] = x"
  by (simp add: join_def)

lemma plain_split:
  assumes "plain t" and "\<not> list_all (\<lambda>c. \<not> is_break c) t"
  obtains l t' where "t = l @ LF # t'" "list_all (\<lambda>c. \<not> is_break c) l" "plain t'"
proof -
  from assms(2) obtain c where c: "c \<in> set t" "is_break c" by (auto simp: list_all_iff)
  then obtain l b t' where "t = l @ b # t'" "is_break b" "\<forall>x \<in> set l. \<not> is_break x" using split_list_first_prop [of t is_break] by blast
  with assms(1) show thesis by (intro that [of l t']) (auto simp: plain_def list_all_iff)
qed

lemma splitlines_text:
  assumes "plain t" and "t \<noteq> []" and "last t \<noteq> LF"
  shows "splitlines (t @ LF # rest) = splitlines t @ splitlines rest \<and> join [LF] (splitlines t) = t \<and> splitlines t \<noteq> []"
  using assms
proof (induction t rule: length_induct)
  case (1 t)
  show ?case
  proof (cases "list_all (\<lambda>c. \<not> is_break c) t")
    case True
    then show ?thesis using 1(3) splitlines_line [OF True, of rest] splitlines_last [OF True] by simp
  next
    case False
    with 1(2) obtain l t' where t: "t = l @ LF # t'" "list_all (\<lambda>c. \<not> is_break c) l" "plain t'" by (rule plain_split)
    with 1(4) have "t' \<noteq> []" "last t' \<noteq> LF" by (auto split: if_splits)
    with 1(1) t have "splitlines (t' @ LF # rest) = splitlines t' @ splitlines rest" "join [LF] (splitlines t') = t'" "splitlines t' \<noteq> []"
      by simp_all
    then show ?thesis using t splitlines_line [OF t(2)] by (simp add: join_Cons)
  qed
qed

text \<open>A text that stands in a section: no blank ends, line feeds only, and no line that reads as a header.\<close>

definition body_ok :: "string \<Rightarrow> bool" where
  "body_ok t \<longleftrightarrow> t \<noteq> [] \<and> strip t = t \<and> plain t \<and> list_all (\<lambda>l. section_header l = None) (splitlines t)"

lemma body_lines:
  assumes "body_ok t"
  shows "splitlines (t @ LF # rest) = splitlines t @ splitlines rest" "join [LF] (splitlines t) = t" "splitlines t \<noteq> []"
proof -
  have "last t \<noteq> LF" using assms stripped_ends(2) [of t] by (auto simp: body_ok_def)
  then show "splitlines (t @ LF # rest) = splitlines t @ splitlines rest" "join [LF] (splitlines t) = t" "splitlines t \<noteq> []"
    using assms splitlines_text [of t rest] by (auto simp: body_ok_def)
qed

lemma scan_body:
  "list_all (\<lambda>l. section_header l = None) ls \<Longrightarrow> scan_sections (ls @ rest) (Some (n, b)) acc = scan_sections rest (Some (n, b @ ls)) acc"
  by (induction ls arbitrary: b) auto

lemma word_codes: "is_word c \<Longrightarrow> \<not> is_space c \<and> \<not> is_break c"
  by (auto simp: is_word_def is_space_def is_break_def Let_def)

lemma header_line:
  assumes "list_all is_word n" and "n \<noteq> []"
  shows "section_header (''## '' @ n) = Some n" "list_all (\<lambda>c. \<not> is_break c) (''## '' @ n)"
proof -
  have sp: "\<not> is_space c" if "c \<in> set n" for c using assms(1) that word_codes by (auto simp: list_all_iff)
  have "strip (''## '' @ n) = ''## '' @ n"
    using sp assms(2) by (intro strip_id) (simp_all add: is_space_def [of "CHR ''#''"])
  moreover have "dropWhile is_space (CHR '' '' # n) = n" using sp assms(2) by (cases n) (simp_all add: is_space_def [of "CHR '' ''"])
  moreover have "takeWhile is_word n = n" using assms(1) by (simp add: list_all_iff takeWhile_eq_all_conv)
  moreover have "is_space (CHR '' '')" by (simp add: is_space_def)
  ultimately show "section_header (''## '' @ n) = Some n"
    using assms(2) unfolding section_header_def Let_def by (simp del: takeWhile_eq_all_conv dropWhile.simps)
  show "list_all (\<lambda>c. \<not> is_break c) (''## '' @ n)"
    using assms(1) word_codes by (auto simp: list_all_iff is_break_def)
qed

lemma empty_line_header: "section_header [] = None"
  by (simp add: section_header_def)

lemma strip_line_feed:
  assumes "strip t = t" and "t \<noteq> []"
  shows "strip (t @ [LF]) = t"
proof -
  have "lstrip (t @ [LF]) = t @ [LF]" using stripped_ends(1) [OF assms] assms(2) by (cases t) (simp_all add: lstrip_def)
  moreover have "lstrip (LF # rev t) = rev t"
    using stripped_ends(2) [OF assms] assms(2) by (cases "rev t") (auto simp: lstrip_def hd_rev [symmetric])
  ultimately show ?thesis by (simp add: strip_def)
qed

lemma stored_body:
  assumes "body_ok t"
  shows "store_section (Some (n, splitlines t @ [[]])) acc = put n t acc" "store_section (Some (n, splitlines t)) acc = put n t acc"
proof -
  have "join [LF] (ls @ [[]]) = join [LF] ls @ [LF]" if "ls \<noteq> []" for ls
    using that by (induction ls) (auto simp: join_def)
  with body_lines(2,3) [OF assms] strip_line_feed [of t] assms
  show "store_section (Some (n, splitlines t @ [[]])) acc = put n t acc" "store_section (Some (n, splitlines t)) acc = put n t acc"
    by (simp_all add: store_section_def body_ok_def)
qed

text \<open>A section that is followed by an empty line, and the last one.\<close>

lemma scan_section:
  assumes "list_all is_word n" and "n \<noteq> []" and "body_ok t"
  shows "splitlines (section_text n t @ [LF] @ rest) = (''## '' @ n) # splitlines t @ [] # splitlines rest"
    "splitlines (section_text n t) = (''## '' @ n) # splitlines t"
  using splitlines_line [OF header_line(2) [OF assms(1,2)]] body_lines(1) [OF assms(3)] splitlines_line [of "[]" rest]
  by (simp_all add: section_text_def)

lemma scan_next:
  assumes "list_all is_word n \<and> n \<noteq> []" and "body_ok t"
  shows "scan_sections (splitlines (section_text n t @ [LF] @ rest)) cur acc
     = scan_sections (splitlines rest) (Some (n, splitlines t @ [[]])) (store_section cur acc)"
    "scan_sections (splitlines (section_text n t)) cur acc = put n t (store_section cur acc)"
proof -
  have t: "list_all (\<lambda>l. section_header l = None) (splitlines t @ [[]])" "list_all (\<lambda>l. section_header l = None) (splitlines t)"
    using assms(2) empty_line_header by (simp_all add: body_ok_def)
  have n: "section_header (''## '' @ n) = Some n" using assms(1) header_line(1) by blast
  show "scan_sections (splitlines (section_text n t @ [LF] @ rest)) cur acc
     = scan_sections (splitlines rest) (Some (n, splitlines t @ [[]])) (store_section cur acc)"
    using scan_section(1) [of n t rest] assms scan_body [OF t(1), of "splitlines rest" n "[]" "store_section cur acc"] n by simp
  show "scan_sections (splitlines (section_text n t)) cur acc = put n t (store_section cur acc)"
    using scan_section(2) [of n t] assms scan_body [OF t(2), of "[]" n "[]" "store_section cur acc"] n stored_body(2) [OF assms(2)] by simp
qed

text \<open>An item of a list stands on a line of its own.\<close>

definition item_ok :: "string \<Rightarrow> bool" where
  "item_ok i \<longleftrightarrow> i \<noteq> [] \<and> strip i = i \<and> list_all (\<lambda>c. \<not> is_break c) i \<and> i \<noteq> ''(none)''"

lemma item_line:
  assumes "i \<noteq> []" and "strip i = i"
  shows "strip (''- '' @ i) = ''- '' @ i"
  using assms stripped_ends(2) [of i] by (intro strip_id) (simp_all add: is_space_def [of "CHR ''-''"])

lemma list_item_line: "item_ok i \<Longrightarrow> list_item (''- '' @ i) = [i]"
  using item_line [of i] by (simp add: item_ok_def list_item_def Let_def del: append.append_Cons)

lemma splitlines_join:
  assumes "list_all (\<lambda>l. l \<noteq> [] \<and> list_all (\<lambda>c. \<not> is_break c) l) ls" and "ls \<noteq> []"
  shows "splitlines (join [LF] ls) = ls"
  using assms
proof (induction ls)
  case (Cons l ls)
  then show ?case
    using splitlines_line [of l "join [LF] ls"] splitlines_last [of l] by (cases "ls = []") (simp_all add: join_Cons)
qed simp

lemma list_lines:
  assumes "list_all item_ok items" and "items \<noteq> []"
  shows "splitlines (format_markdown_list items) = map (\<lambda>i. ''- '' @ i) items"
proof -
  have "list_all (\<lambda>l. l \<noteq> [] \<and> list_all (\<lambda>c. \<not> is_break c) l) (map (\<lambda>i. ''- '' @ i) items)"
    using assms(1) by (simp add: list_all_iff item_ok_def is_break_def [of "CHR ''-''"] is_break_def [of "CHR '' ''"])
  from splitlines_join [OF this] assms(2) show ?thesis unfolding format_markdown_list_def by (simp only: if_False map_is_Nil_conv not_False_eq_True)
qed

lemma no_items: "splitlines (format_markdown_list []) = [''- (none)'']"
  by (simp add: format_markdown_list_def splitlines_last is_break_def)

lemma parse_formatted_list:
  assumes "list_all item_ok items"
  shows "parse_list (format_markdown_list items) = items"
proof (cases "items = []")
  case True
  then show ?thesis by (simp add: parse_list_def no_items list_item_def strip_id is_space_def Let_def)
next
  case False
  have "concat (map (\<lambda>i. list_item (''- '' @ i)) items) = items" using assms
    by (induction items) (simp_all add: list_item_line del: append.append_Cons)
  then show ?thesis using list_lines [OF assms False] by (simp add: parse_list_def comp_def)
qed

lemma list_body_ok:
  assumes "list_all item_ok items"
  shows "body_ok (format_markdown_list items)"
proof -
  have dash: "section_header (CHR ''-'' # CHR '' '' # i) = None" if "i \<noteq> [] \<and> strip i = i" for i
    using item_line [of i] that by (simp add: section_header_def Let_def)
  show ?thesis
  proof (cases "items = []")
    case True
    have "strip ''- (none)'' = ''- (none)''" by (simp add: strip_id is_space_def)
    then have "section_header ''- (none)'' = None" by (simp add: section_header_def Let_def)
    with True \<open>strip _ = _\<close> no_items show ?thesis
      by (simp add: body_ok_def format_markdown_list_def plain_def is_break_def)
  next
    case False
    let ?t = "format_markdown_list items"
    have t: "?t = join [LF] (map (\<lambda>i. ''- '' @ i) items)" using False unfolding format_markdown_list_def by (simp only: if_False)
    have ends: "join [LF] (map (\<lambda>i. ''- '' @ i) xs) \<noteq> [] \<and> hd (join [LF] (map (\<lambda>i. ''- '' @ i) xs)) = CHR ''-'' \<and>
        \<not> is_space (last (join [LF] (map (\<lambda>i. ''- '' @ i) xs))) \<and> plain (join [LF] (map (\<lambda>i. ''- '' @ i) xs))"
      if "list_all item_ok xs" "xs \<noteq> []" for xs using that
    proof (induction xs)
      case (Cons x xs)
      then have x: "x \<noteq> []" "\<not> is_space (last x)" "list_all (\<lambda>c. \<not> is_break c) x"
        using stripped_ends(2) [of x] by (simp_all add: item_ok_def)
      then show ?case using Cons by (cases "xs = []") (simp_all add: join_Cons plain_def list_all_iff ball_Un is_break_def [of "CHR ''-''"] is_break_def [of "CHR '' ''"])
    qed simp
    have e: "?t \<noteq> [] \<and> hd ?t = CHR ''-'' \<and> \<not> is_space (last ?t) \<and> plain ?t" unfolding t by (rule ends [OF assms False])
    moreover have "strip ?t = ?t" using e by (intro strip_id) (simp_all add: is_space_def [of "CHR ''-''"])
    moreover have "list_all (\<lambda>l. section_header l = None) (splitlines ?t)"
      using assms dash by (simp add: list_lines [OF assms False] list_all_iff item_ok_def)
    ultimately show ?thesis by (simp only: body_ok_def simp_thms)
  qed
qed

lemma title_lines: "splitlines (''# Handover State'' @ [LF, LF] @ rest) = ''# Handover State'' # [] # splitlines rest"
  using splitlines_line [of "''# Handover State''" "LF # rest"] splitlines_line [of "[]" rest] by (simp add: is_break_def)

lemma title_no_header: "section_header ''# Handover State'' = None"
proof -
  have "strip ''# Handover State'' = ''# Handover State''" by (simp add: strip_id is_space_def)
  then show ?thesis by (simp add: section_header_def Let_def)
qed

text \<open>What \<open>format_markdown\<close> can carry.\<close>

definition handover_writable :: "pyhost \<Rightarrow> handover \<Rightarrow> bool" where
  "handover_writable h d = (body_ok (strip (ho_stage d)) \<and> body_ok (strip (ho_source d)) \<and> body_ok (strip (ho_next_action d)) \<and>
     body_ok (strip (ho_digest d)) \<and> body_ok (h_repr h (JFloat (ho_hours d))) \<and>
     list_all item_ok (ho_completed d) \<and> list_all item_ok (ho_remaining d) \<and> list_all item_ok (ho_risks d))"

lemma handover_sections:
  assumes "handover_writable h d"
  shows "map_of (scan_sections (splitlines (format_markdown (h_repr h) d)) None []) =
    [''current_stage'' \<mapsto> strip (ho_stage d), ''source_attempt_id'' \<mapsto> strip (ho_source d),
     ''estimate_remaining_hours'' \<mapsto> h_repr h (JFloat (ho_hours d)), ''next_action'' \<mapsto> strip (ho_next_action d),
     ''constraints_digest'' \<mapsto> strip (ho_digest d), ''completed_evidence'' \<mapsto> format_markdown_list (ho_completed d),
     ''remaining'' \<mapsto> format_markdown_list (ho_remaining d), ''open_risks'' \<mapsto> format_markdown_list (ho_risks d)]"
proof -
  note b = assms [unfolded handover_writable_def]
  have l: "body_ok (format_markdown_list (ho_completed d))" "body_ok (format_markdown_list (ho_remaining d))"
    "body_ok (format_markdown_list (ho_risks d))" using b list_body_ok by simp_all
  have w: "list_all is_word ''current_stage'' \<and> ''current_stage'' \<noteq> []" "list_all is_word ''source_attempt_id'' \<and> ''source_attempt_id'' \<noteq> []"
    "list_all is_word ''estimate_remaining_hours'' \<and> ''estimate_remaining_hours'' \<noteq> []"
    "list_all is_word ''next_action'' \<and> ''next_action'' \<noteq> []" "list_all is_word ''constraints_digest'' \<and> ''constraints_digest'' \<noteq> []"
    "list_all is_word ''completed_evidence'' \<and> ''completed_evidence'' \<noteq> []" "list_all is_word ''remaining'' \<and> ''remaining'' \<noteq> []"
    "list_all is_word ''open_risks'' \<and> ''open_risks'' \<noteq> []" by (simp_all add: is_word_def)
  note nx = w [THEN scan_next(1)] w(8) [THEN scan_next(2)]
  show ?thesis
    unfolding format_markdown_def
    by (simp only: title_lines scan_sections.simps title_no_header empty_line_header option.case option.map
        nx b l stored_body store_section_def [of None] map_of_put map_of.simps)
qed
text \<open>C38: A handover is read back from its own markdown, under three conditions: its texts have the shape of sections (no line of a text opens a section,
no item of a list is empty, broken into lines or taken for the placeholder), its hours are printed so that they can be read again, and the hours are not negative
(those the parser refuses). The lists and the hours come back as they were written, the four single texts without the blanks around them.\<close>

theorem handover_roundtrip:
  assumes "handover_writable h d" and "h_float_of h (h_repr h (JFloat (ho_hours d))) = Some (ho_hours d)" and "\<not> float_negative (ho_hours d)"
  shows "parse_handover_markdown h (format_markdown (h_repr h) d) =
    (Some (d\<lparr>ho_stage := strip (ho_stage d), ho_next_action := strip (ho_next_action d), ho_digest := strip (ho_digest d),
       ho_source := strip (ho_source d)\<rparr>), [])"
proof -
  note b = assms(1) [unfolded handover_writable_def]
  have ne: "t \<noteq> []" if "body_ok t" for t using that by (simp add: body_ok_def)
  have l: "format_markdown_list (ho_completed d) \<noteq> []" "format_markdown_list (ho_remaining d) \<noteq> []"
    using b list_body_ok ne by blast+
  show ?thesis
    using b ne l assms(2,3)
    by (simp add: parse_handover_markdown_def handover_sections [OF assms(1)] REQUIRED_SECTIONS_def parse_formatted_list)
qed

definition sample_float_host :: pyhost where
  "sample_float_host = \<lparr>h_repr = (\<lambda>v. if v = JFloat (Fin 2) then ''2.0'' else ''?''),
     h_float_of = (\<lambda>s. if s = ''2.0'' then Some (Fin 2) else None),
     h_iso_parse = (\<lambda>s. None), h_iso_format = (\<lambda>t. [])\<rparr>"

definition sample_handover :: handover where
  "sample_handover = \<lparr>ho_stage = '' stage 1'', ho_completed = [''build''], ho_remaining = [''tests'', ''docs''], ho_hours = Fin 2,
     ho_next_action = ''write tests'', ho_digest = ''[]'', ho_source = ''att-1'', ho_risks = []\<rparr>"


theorem handover_roundtrip_witness:
  "parse_handover_markdown sample_float_host (format_markdown (h_repr sample_float_host) sample_handover) =
    (Some (sample_handover\<lparr>ho_stage := ''stage 1''\<rparr>), [])"
proof -
  have s: "strip '' stage 1'' = ''stage 1''" "strip ''write tests'' = ''write tests''" "strip ''[]'' = ''[]''" "strip ''att-1'' = ''att-1''"
    "strip ''stage 1'' = ''stage 1''" "strip ''2.0'' = ''2.0''" "strip ''build'' = ''build''" "strip ''tests'' = ''tests''" "strip ''docs'' = ''docs''"
    by code_simp+
  have nb: "list_all (\<lambda>c. \<not> is_break c) ''stage 1''" "list_all (\<lambda>c. \<not> is_break c) ''write tests''" "list_all (\<lambda>c. \<not> is_break c) ''[]''"
    "list_all (\<lambda>c. \<not> is_break c) ''att-1''" "list_all (\<lambda>c. \<not> is_break c) ''2.0''" "list_all (\<lambda>c. \<not> is_break c) ''build''"
    "list_all (\<lambda>c. \<not> is_break c) ''tests''" "list_all (\<lambda>c. \<not> is_break c) ''docs''" by code_simp+
  have line: "body_ok t" if "list_all (\<lambda>c. \<not> is_break c) t" "t \<noteq> []" "strip t = t" "\<not> starts_with t ''##''" for t
    using that by (simp add: body_ok_def splitlines_last section_header_def plain_def list_all_iff)
  have bd: "body_ok ''stage 1''" "body_ok ''write tests''" "body_ok ''[]''" "body_ok ''att-1''" "body_ok ''2.0''"
    using s nb by (simp_all add: line del: list.pred_inject)
  have it: "item_ok ''build''" "item_ok ''tests''" "item_ok ''docs''" using s nb by (simp_all add: item_ok_def del: list.pred_inject)
  have "handover_writable sample_float_host sample_handover"
    using s bd it by (simp add: handover_writable_def sample_handover_def sample_float_host_def)
  then show ?thesis
    using handover_roundtrip [of sample_float_host sample_handover] s
    by (simp add: sample_handover_def sample_float_host_def float_negative_def)
qed
section \<open>The files of a contract\<close>

text \<open>The code outside the model and the text \<open>next_action\<close> of a fresh handover. \<open>fe_loads\<close> is \<open>None\<close> for a \<open>JSONDecodeError\<close>.\<close>

record file_env =
  fe_host :: pyhost
  fe_fmt :: "int \<Rightarrow> string"
  fe_dumps :: "json \<Rightarrow> string"
  fe_indent :: "json \<Rightarrow> string"
  fe_loads :: "string \<Rightarrow> json option"
  fe_first_action :: string

type_synonym files = "((string \<times> string) \<times> string) list"

definition format_contract_yaml :: "file_env \<Rightarrow> contract_view \<Rightarrow> string" where
  "format_contract_yaml x v = fe_indent x (JObj (contract_view_to_dict (fe_host x) (fe_fmt x) v)) @ [LF]"

definition format_lease_json :: "file_env \<Rightarrow> lease option \<Rightarrow> string" where
  "format_lease_json x l = fe_indent x (JObj (case l of
       None \<Rightarrow> [(''active_lease'', JNull)]
     | Some l \<Rightarrow> [(''contract_id'', JStr (le_contract l)), (''holder_attempt_id'', JStr (le_holder l)),
         (''generation'', JInt (le_generation l)), (''heartbeat_at'', JStr (fe_fmt x (le_heartbeat l))),
         (''timeout_seconds'', JFloat (Fin (of_int (le_timeout l) / 1000000))),
         (''partition_id'', jopt JStr (le_partition l))])) @ [LF]"

definition check_projection_dirty :: "file_env \<Rightarrow> string \<Rightarrow> contract_view \<Rightarrow> files \<Rightarrow> bool" where
  "check_projection_dirty x contract_id current_view files =
     (case map_of files (contract_id, ''contract.yaml'') of
        None \<Rightarrow> False
      | Some content \<Rightarrow> (case (fe_loads x content, fe_loads x (format_contract_yaml x current_view)) of
            (Some parsed, Some authoritative) \<Rightarrow> \<not> py_eq parsed authoritative
          | _ \<Rightarrow> True))"

definition log_line :: "file_env \<Rightarrow> event \<Rightarrow> string" where
  "log_line x e = fe_dumps x (JObj [(''event_id'', JInt (ev_id e)), (''contract_id'', jopt JStr (ev_contract e)),
     (''attempt_id'', jopt JStr (ev_attempt e)), (''lease_generation'', jopt JInt (ev_generation e)),
     (''event_type'', JStr (ev_type e)), (''payload'', JObj (ev_payload e)), (''request_id'', jopt JStr (ev_request e)),
     (''created_at'', JStr (fe_fmt x (ev_created e))), (''actor'', JStr (ev_actor e)), (''schema_version'', JInt (ev_schema e))])"

definition format_log :: "file_env \<Rightarrow> event list \<Rightarrow> string" where
  "format_log x events = join [LF] (map (log_line x) events) @ (if events \<noteq> [] then [LF] else [])"

definition default_handover :: "file_env \<Rightarrow> contract_view \<Rightarrow> handover" where
  "default_handover x v = \<lparr>ho_stage = ''initial'', ho_completed = [], ho_remaining = [strip (cd_objective (cv_draft v))],
     ho_hours = cd_workload_initial_hours (cv_draft v), ho_next_action = fe_first_action x,
     ho_digest = fe_dumps x (JObj (cd_hard_constraints (cv_draft v))), ho_source = ''init'', ho_risks = []\<rparr>"

text \<open>The files that every rebuild writes, and the ones that it only creates.\<close>

definition generated_files :: "file_env \<Rightarrow> store \<Rightarrow> string \<Rightarrow> contract_view \<Rightarrow> (string \<times> string) list" where
  "generated_files x s contract_id v =
     [(''contract.yaml'', format_contract_yaml x v),
      (''lease.json'', format_lease_json x (get_lease s contract_id None)),
      (''log.jsonl'', format_log x (get_events (Some contract_id) None [] None (st_log s)))]"

definition initial_files :: "file_env \<Rightarrow> string \<Rightarrow> contract_view \<Rightarrow> (string \<times> string) list" where
  "initial_files x contract_id v =
     [(''handover.md'', format_markdown (h_repr (fe_host x)) (default_handover x v)),
      (''task_plan.md'', ''# Task Plan: '' @ cd_title (cv_draft v) @ [LF, LF] @ ''- Stage 1: Initial Implementation'' @ [LF]),
      (''progress.md'', ''# Progress Log: '' @ contract_id @ [LF, LF] @ ''- ['' @ fe_fmt x (cv_created_at v) @
         ''] Contract initialized in state '' @ [CHR 0x27] @ contract_state_value (cv_state v) @ [CHR 0x27] @ ''.'' @ [LF]),
      (''findings.md'', ''# Findings: '' @ contract_id @ [LF, LF] @ ''(No findings recorded yet.)'' @ [LF])]"

definition write_file :: "string \<Rightarrow> string \<times> string \<Rightarrow> files \<Rightarrow> files" where
  "write_file contract_id = (\<lambda>(name, content) files. put (contract_id, name) content files)"

definition create_file :: "string \<Rightarrow> string \<times> string \<Rightarrow> files \<Rightarrow> files" where
  "create_file contract_id f files = (if map_of files (contract_id, fst f) = None then write_file contract_id f files else files)"

definition rebuild_projection :: "file_env \<Rightarrow> string \<Rightarrow> store \<Rightarrow> files \<Rightarrow> py_error + string list \<times> files" where
  "rebuild_projection x contract_id s files = (case get_contract s contract_id of
     None \<Rightarrow> Inl (ValueError ''cannot rebuild projection'')
   | Some v \<Rightarrow>
       (let written = fold (write_file contract_id) (generated_files x s contract_id v) files;
            complete = fold (create_file contract_id) (initial_files x contract_id v) written in
        Inr (map fst (generated_files x s contract_id v @ initial_files x contract_id v), complete)))"

definition revert_projection :: "file_env \<Rightarrow> string \<Rightarrow> store \<Rightarrow> files \<Rightarrow> py_error + string list \<times> files" where
  "revert_projection x contract_id s files = rebuild_projection x contract_id s files"

section \<open>What a rebuild leaves behind\<close>

lemma write_files_lookup:
  "distinct (map fst fs) \<Longrightarrow> map_of (fold (write_file c) fs files) (d, n) =
    (if d = c then (case map_of fs n of Some t \<Rightarrow> Some t | None \<Rightarrow> map_of files (c, n)) else map_of files (d, n))"
proof (induction fs arbitrary: files)
  case (Cons f fs)
  then have "map_of fs (fst f) = None" by (simp add: map_of_eq_None_iff)
  with Cons show ?case by (cases f) (auto simp: write_file_def split: option.splits)
qed simp

lemma create_files_lookup:
  "distinct (map fst fs) \<Longrightarrow> map_of (fold (create_file c) fs files) (d, n) =
    (if d = c then (case map_of files (c, n) of Some t \<Rightarrow> Some t | None \<Rightarrow> map_of fs n) else map_of files (d, n))"
proof (induction fs arbitrary: files)
  case (Cons f fs)
  then have "map_of fs (fst f) = None" by (simp add: map_of_eq_None_iff)
  with Cons show ?case by (cases f) (auto simp: create_file_def write_file_def split: option.splits)
qed (simp split: option.splits)

lemma file_names:
  "map fst (generated_files x s c v) = [''contract.yaml'', ''lease.json'', ''log.jsonl'']"
  "map fst (initial_files x c v) = [''handover.md'', ''task_plan.md'', ''progress.md'', ''findings.md'']"
  by (simp_all add: generated_files_def initial_files_def)

lemma rebuilt_files:
  assumes "rebuild_projection x c s files = Inr (names, files')"
  obtains v where "get_contract s c = Some v"
    "\<And>d n. map_of files' (d, n) = (if d \<noteq> c then map_of files (d, n)
       else case map_of (generated_files x s c v) n of Some t \<Rightarrow> Some t
         | None \<Rightarrow> case map_of files (c, n) of Some t \<Rightarrow> Some t | None \<Rightarrow> map_of (initial_files x c v) n)"
proof -
  from assms obtain v where v: "get_contract s c = Some v" by (auto simp: rebuild_projection_def split: option.splits)
  with assms have f: "files' = fold (create_file c) (initial_files x c v) (fold (write_file c) (generated_files x s c v) files)"
    by (simp add: rebuild_projection_def Let_def)
  have "distinct (map fst (generated_files x s c v))" "distinct (map fst (initial_files x c v))" by (simp_all add: file_names)
  then show thesis by (intro that [OF v]) (simp add: f create_files_lookup write_files_lookup split: option.splits)
qed
text \<open>A value that equals itself: no \<open>NaN\<close>, and the keys of every object are distinct.\<close>

function (sequential) json_plain :: "json \<Rightarrow> bool" where
  "json_plain (JFloat x) = (x \<noteq> NaN)"
| "json_plain (JList xs) = (\<forall>v \<in> set xs. json_plain v)"
| "json_plain (JObj kvs) = (distinct (map fst kvs) \<and> (\<forall>kv \<in> set kvs. json_plain (snd kv)))"
| "json_plain _ = True"
  by pat_completeness auto

termination json_plain
  by (relation "measure size") (auto dest: size_pair_member simp: size_list_estimation less_Suc_eq_le size_list_estimation')

lemma py_eq_refl: "json_plain v \<Longrightarrow> py_eq v v"
proof (induction v rule: json_plain.induct)
  case (2 xs)
  then show ?case by (auto simp: zip_same_conv_map)
qed (auto simp: map_of_eq_Some_iff)

lemma put_same: "map_of t k = Some v \<Longrightarrow> put k v t = t"
  by (induction t) (auto split: if_splits)

lemma rewrite_files: "list_all (\<lambda>f. map_of files (c, fst f) = Some (snd f)) fs \<Longrightarrow> fold (write_file c) fs files = files"
  by (induction fs) (auto simp: write_file_def put_same)

lemma recreate_files: "list_all (\<lambda>f. map_of files (c, fst f) \<noteq> None) fs \<Longrightarrow> fold (create_file c) fs files = files"
  by (induction fs) (auto simp: create_file_def)

text \<open>what \<open>rebuild_projection\<close> leaves behind: the contract file is not dirty, provided that \<open>json.loads\<close> reads back what
\<open>json.dumps\<close> wrote and the contract holds no NaN; and a second rebuild, or a revert, of the same state changes no file.\<close>

theorem rebuild_settles:
  assumes "rebuild_projection x c s files = Inr (names, files')" and "get_contract s c = Some v"
    and "fe_loads x (format_contract_yaml x v) = Some (JObj (contract_view_to_dict (fe_host x) (fe_fmt x) v))"
    and "json_plain (JObj (contract_view_to_dict (fe_host x) (fe_fmt x) v))"
  shows "\<not> check_projection_dirty x c v files' \<and> revert_projection x c s files' = Inr (names, files')"
proof
  have m: "map_of files' (c, n) = (case map_of (generated_files x s c v) n of Some t \<Rightarrow> Some t
         | None \<Rightarrow> case map_of files (c, n) of Some t \<Rightarrow> Some t | None \<Rightarrow> map_of (initial_files x c v) n)" for n
    using rebuilt_files [OF assms(1)] assms(2) by (metis option.inject)
  have "map_of files' (c, ''contract.yaml'') = Some (format_contract_yaml x v)" using m by (simp add: generated_files_def)
  then show "\<not> check_projection_dirty x c v files'"
    using assms(3) py_eq_refl [OF assms(4)] by (simp add: check_projection_dirty_def)
  have g: "fold (write_file c) (generated_files x s c v) files' = files'"
    by (rule rewrite_files) (simp add: m generated_files_def)
  have i: "fold (create_file c) (initial_files x c v) files' = files'"
    by (rule recreate_files) (simp add: m generated_files_def initial_files_def split: option.splits)
  have "names = map fst (generated_files x s c v @ initial_files x c v)"
    using assms(1,2) by (simp add: rebuild_projection_def Let_def)
  then show "revert_projection x c s files' = Inr (names, files')"
    using assms(2) g i by (simp add: revert_projection_def rebuild_projection_def Let_def)
qed

lemma hand_written_kept:
  assumes "rebuild_projection x c s files = Inr (names, files')" and "map_of files (d, n) = Some t"
    and "d \<noteq> c \<or> n \<notin> {''contract.yaml'', ''lease.json'', ''log.jsonl''}"
  shows "map_of files' (d, n) = Some t"
proof -
  from assms(1) obtain v where m: "map_of files' (d, n) = (if d \<noteq> c then map_of files (d, n)
       else case map_of (generated_files x s c v) n of Some t \<Rightarrow> Some t
         | None \<Rightarrow> case map_of files (c, n) of Some t \<Rightarrow> Some t | None \<Rightarrow> map_of (initial_files x c v) n)"
    using rebuilt_files [of x c s files names files'] by metis
  have "d = c \<Longrightarrow> map_of (generated_files x s c v) n = None" using assms(3) by (simp add: map_of_eq_None_iff flip: image_set) (simp add: generated_files_def)
  with m assms(2) show ?thesis by (cases "d = c") simp_all
qed

text \<open>C37: a rebuild keeps a hand-written \<open>handover.md\<close>, \<open>task_plan.md\<close>, \<open>progress.md\<close> or \<open>findings.md\<close>, every other file that it does
not generate, and all files of other contracts; for an unknown contract it fails.\<close>

theorem rebuild_keeps_hand_written_files:
  assumes "d \<noteq> c \<or> n \<notin> {''contract.yaml'', ''lease.json'', ''log.jsonl''}" and "map_of files (d, n) = Some t"
  shows "case rebuild_projection x c s files of Inl e \<Rightarrow> get_contract s c = None | Inr (names, files') \<Rightarrow> map_of files' (d, n) = Some t"
proof (cases "rebuild_projection x c s files")
  case (Inl e)
  then show ?thesis by (simp add: rebuild_projection_def Let_def split: option.splits)
next
  case (Inr r)
  then show ?thesis using hand_written_kept [of x c s files "fst r" "snd r" d n t] assms by (simp add: case_prod_beta)
qed
definition sample_file_env :: file_env where
  "sample_file_env = \<lparr>fe_host = unary_host, fe_fmt = (\<lambda>t. ''t''), fe_dumps = (\<lambda>v. ''{}''), fe_indent = (\<lambda>v. case v of JObj d \<Rightarrow> map fst d ! 0 | _ \<Rightarrow> []),
     fe_loads = (\<lambda>t. if t = ''schema_version'' @ [LF] then Some (JObj (contract_view_to_dict unary_host (\<lambda>t. ''t'') sample_view)) else None),
     fe_first_action = ''start''\<rparr>"

theorem rebuild_keeps_hand_written_files_witness:
  "case rebuild_projection sample_file_env ''c1'' sample_store [((''c1'', ''handover.md''), ''mine'')] of
     Inl e \<Rightarrow> get_contract sample_store ''c1'' = None
   | Inr (names, files') \<Rightarrow> map_of files' (''c1'', ''handover.md'') = Some ''mine''"
  using rebuild_keeps_hand_written_files [of "''c1''" "''c1''" "''handover.md''" "[((''c1'', ''handover.md''), ''mine'')]" "''mine''"]
  by simp

lemma sample_dict_plain: "json_plain (JObj (contract_view_to_dict unary_host (\<lambda>t. ''t'') sample_view))"
  by (simp add: contract_view_to_dict_def sample_view_def draft_to_dict_def sample_contract_draft_def dict_merge_def
     acceptance_to_dict_def budget_to_dict_def authority_to_dict_def attention_to_dict_def continuity_to_dict_def auto_approve_to_dict_def jopt_def str_list_def check_json_def
     default_authority_def default_attention_def default_auto_approve_def)

theorem rebuild_settles_witness:
  "\<exists>names files'. rebuild_projection sample_file_env ''c1'' sample_store [((''c1'', ''contract.yaml''), ''edited'')] = Inr (names, files') \<and>
     \<not> check_projection_dirty sample_file_env ''c1'' sample_view files' \<and> revert_projection sample_file_env ''c1'' sample_store files' = Inr (names, files')"
proof -
  obtain names files' where r: "rebuild_projection sample_file_env ''c1'' sample_store [((''c1'', ''contract.yaml''), ''edited'')] = Inr (names, files')"
    by (simp add: rebuild_projection_def sample_contract Let_def)
  have "map fst (contract_view_to_dict unary_host (\<lambda>t. ''t'') sample_view) ! 0 = ''schema_version''"
    by (simp add: contract_view_to_dict_def dict_merge_def draft_to_dict_def)
  then have "fe_loads sample_file_env (format_contract_yaml sample_file_env sample_view) =
      Some (JObj (contract_view_to_dict unary_host (\<lambda>t. ''t'') sample_view))"
    by (simp add: format_contract_yaml_def sample_file_env_def)
  then show ?thesis
    using r rebuild_settles [OF r sample_contract] sample_dict_plain by (simp add: sample_file_env_def)
qed
end
