(* ===== verification/Steps.thy ===== *)
theory Steps
  imports Goal_Store
begin

text \<open>
  Steps over a state: a failure or a value, and the state that is left behind also after a failure. The locale \<open>step_frame\<close> says when a
  relation between the states before and after holds of a step because it holds of its parts.
\<close>

type_synonym ('w, 'a) io = "'w \<Rightarrow> (store_error + 'a) \<times> 'w"

definition apure :: "'a \<Rightarrow> ('w, 'a) io" where
  "apure x = (\<lambda>w. (Inr x, w))"

definition abind :: "('w, 'a) io \<Rightarrow> ('a \<Rightarrow> ('w, 'b) io) \<Rightarrow> ('w, 'b) io" where
  "abind m f = (\<lambda>w. case m w of (Inl e, w') \<Rightarrow> (Inl e, w') | (Inr x, w') \<Rightarrow> f x w')"

definition alift :: "store_error + 'a \<Rightarrow> ('w, 'a) io" where
  "alift r = (\<lambda>w. (r, w))"

definition aread :: "('w \<Rightarrow> 'a) \<Rightarrow> ('w, 'a) io" where
  "aread f = (\<lambda>w. (Inr (f w), w))"

definition amodify :: "('w \<Rightarrow> 'w) \<Rightarrow> ('w, unit) io" where
  "amodify f = (\<lambda>w. (Inr (), f w))"

primrec aeach :: "('a \<Rightarrow> ('w, unit) io) \<Rightarrow> 'a list \<Rightarrow> ('w, unit) io" where
  "aeach f [] = apure ()"
| "aeach f (x # xs) = abind (f x) (\<lambda>_. aeach f xs)"

text \<open>\<open>contextlib.suppress(StoreError)\<close>.\<close>

definition suppress_store_error :: "('w, 'a) io \<Rightarrow> ('w, unit) io" where
  "suppress_store_error m = (\<lambda>w. case m w of
     (Inl e, w') \<Rightarrow> if is_store_error e then (Inr (), w') else (Inl e, w') | (Inr a, w') \<Rightarrow> (Inr (), w'))"

text \<open>A relation between the states before and after holds of a step, also of one that fails halfway.\<close>

definition akeeps :: "('w \<Rightarrow> 'w \<Rightarrow> bool) \<Rightarrow> ('w, 'a) io \<Rightarrow> bool" where
  "akeeps R m \<longleftrightarrow> (\<forall>w. R w (snd (m w)))"

lemma io_simps [simp]:
  "apure x w = (Inr x, w)" "alift r w = (r, w)" "aread f w = (Inr (f w), w)" "amodify h w = (Inr (), h w)"
  "abind (apure x) g = g x" "abind (aread f) g = (\<lambda>w. g (f w) w)"
  by (simp_all add: apure_def alift_def aread_def amodify_def abind_def fun_eq_iff)

lemma abind_eq: "abind m f w = (case m w of (Inl e, w') \<Rightarrow> (Inl e, w') | (Inr x, w') \<Rightarrow> f x w')"
  by (simp add: abind_def)

lemma abind_Inr: "abind m f w = (Inr y, w') \<longleftrightarrow> (\<exists>x w1. m w = (Inr x, w1) \<and> f x w1 = (Inr y, w'))"
  by (auto simp: abind_def split: prod.splits sum.splits)

lemma aread_Inr: "aread f w = (Inr y, w') \<longleftrightarrow> y = f w \<and> w' = w"
  by auto

lemma alift_Inr: "alift m w = (Inr y, w') \<longleftrightarrow> m = Inr y \<and> w' = w"
  by auto

lemma apure_Inr: "apure a w = (Inr y, w') \<longleftrightarrow> y = a \<and> w' = w"
  by auto

lemma amodify_Inr: "amodify h w = (Inr y, w') \<longleftrightarrow> w' = h w"
  by auto

locale step_frame =
  fixes R :: "'w \<Rightarrow> 'w \<Rightarrow> bool"
  assumes refl: "R w w" and trans: "R w w' \<Longrightarrow> R w' w'' \<Longrightarrow> R w w''"
begin

lemma keeps_pure: "akeeps R (apure a)" and keeps_lift: "akeeps R (alift r)" and keeps_read: "akeeps R (aread f)"
  by (simp_all add: akeeps_def refl)

lemma keeps_modify: "(\<And>w. R w (f w)) \<Longrightarrow> akeeps R (amodify f)"
  by (simp add: akeeps_def)

lemma keeps_bind:
  assumes "akeeps R m" and "\<And>a. akeeps R (f a)"
  shows "akeeps R (abind m f)"
  unfolding akeeps_def
proof
  fix w
  obtain r w1 where m: "m w = (r, w1)" by (cases "m w")
  have "R w w1" using assms(1) m by (metis akeeps_def snd_conv)
  moreover have "R w1 (snd (f a w1))" for a using assms(2) by (simp add: akeeps_def)
  ultimately show "R w (snd (abind m f w))" using m by (cases r) (auto simp: abind_def intro: trans)
qed

lemma keeps_suppress: "akeeps R m \<Longrightarrow> akeeps R (suppress_store_error m)"
  by (auto simp: akeeps_def suppress_store_error_def split: sum.split prod.split) (metis snd_conv)+

lemma keeps_each: "(\<And>a. a \<in> set xs \<Longrightarrow> akeeps R (f a)) \<Longrightarrow> akeeps R (aeach f xs)"
  by (induction xs) (simp_all add: keeps_pure keeps_bind)

lemmas intros = keeps_pure keeps_lift keeps_read keeps_bind keeps_suppress

end

lemma akeeps_if: "akeeps R m \<Longrightarrow> akeeps R m' \<Longrightarrow> akeeps R (if b then m else m')"
  by simp

lemma akeeps_option: "akeeps R m \<Longrightarrow> (\<And>a. akeeps R (f a)) \<Longrightarrow> akeeps R (case v of None \<Rightarrow> m | Some a \<Rightarrow> f a)"
  by (cases v) simp_all

lemma akeeps_prod: "(\<And>a b. akeeps R (f a b)) \<Longrightarrow> akeeps R (case p of (a, b) \<Rightarrow> f a b)"
  by (cases p) simp

lemma akeeps_run: "akeeps R m \<Longrightarrow> m w = (r, w') \<Longrightarrow> R w w'"
  unfolding akeeps_def by (metis snd_conv)

end
