(* ===== verification/Judge.thy ===== *)
theory Judge
  imports Rpc_Server Projections Steps
begin

text \<open>
  The judge of the tick (\<open>longtask/cli/tick.py\<close>, from \<open>_judge_verifier_outcomes\<close> on): what a verifier reported becomes the state of
  its contract. Every write is a transaction of its own, so a step keeps what it wrote before it failed; the files follow the store.
\<close>

section \<open>Steps over the store and the files\<close>

record world =
  wo_store :: store
  wo_files :: files

type_synonym 'a act = "(world, 'a) io"

definition awrite :: "(store \<Rightarrow> store) \<Rightarrow> unit act" where
  "awrite f = (\<lambda>w. (Inr (), w\<lparr>wo_store := f (wo_store w)\<rparr>))"

definition acommit :: "(store \<Rightarrow> store_error + 'a \<times> store) \<Rightarrow> 'a act" where
  "acommit op = (\<lambda>w. case op (wo_store w) of Inl e \<Rightarrow> (Inl e, w) | Inr (x, s) \<Rightarrow> (Inr x, w\<lparr>wo_store := s\<rparr>))"

definition asave :: "(files \<Rightarrow> files) \<Rightarrow> unit act" where
  "asave f = (\<lambda>w. (Inr (), w\<lparr>wo_files := f (wo_files w)\<rparr>))"

text \<open>What the tick takes from outside: the environments of the control plane and of the files, and the Chinese texts of a repair brief.\<close>

record judge_env =
  jg_rpc :: rpc_env
  jg_files :: file_env
  jg_failed_check :: string
  jg_failed_default :: string
  jg_note :: string
  jg_repair_action :: string

abbreviation jg_repr :: "judge_env \<Rightarrow> json \<Rightarrow> string" where
  "jg_repr x \<equiv> h_repr (rx_host (jg_rpc x))"

definition project :: "judge_env \<Rightarrow> string \<Rightarrow> unit act" where
  "project x contract_id = (\<lambda>w. case rebuild_projection (jg_files x) contract_id (wo_store w) (wo_files w) of
     Inl e \<Rightarrow> (Inl (CallError e), w) | Inr (names, files) \<Rightarrow> (Inr (), w\<lparr>wo_files := files\<rparr>))"

section \<open>The newest verdict\<close>

definition verifier_event :: "event \<Rightarrow> bool" where
  "verifier_event e = (ev_role e = Some ''verifier'' \<or>
     (ev_role e = None \<and> dict_get (ev_payload e) ''role'' = JStr ''verifier'' \<and> ev_actor e \<in> {''model'', ''verifier''}))"

definition verdict_event :: "contract_view \<Rightarrow> event \<Rightarrow> bool" where
  "verdict_event v e = (verifier_event e \<and> (case ev_revision e of None \<Rightarrow> True | Some r \<Rightarrow> r = cv_revision v) \<and>
     ev_type e \<in> {ATTEMPT_SUCCEEDED, ATTEMPT_FAILED})"

definition last_verdict :: "contract_view \<Rightarrow> store \<Rightarrow> event option" where
  "last_verdict v s = find (verdict_event v) (rev (get_events (Some (cv_contract_id v)) None [] None (st_log s)))"

definition set_default :: "'k \<Rightarrow> 'v \<Rightarrow> ('k \<times> 'v) list \<Rightarrow> ('k \<times> 'v) list" where
  "set_default k v d = (if map_of d k = None then put k v d else d)"

definition check_entry :: "json \<Rightarrow> (string \<times> string) option" where
  "check_entry v = (case v of
     JObj d \<Rightarrow> (case (dict_get d ''check_id'', dict_get d ''outcome'') of (JStr i, JStr out) \<Rightarrow> Some (i, out) | _ \<Rightarrow> None)
   | _ \<Rightarrow> None)"

definition check_entries :: "json \<Rightarrow> (string \<times> string) list" where
  "check_entries v = (case v of JList xs \<Rightarrow> List.map_filter check_entry xs | _ \<Rightarrow> [])"

text \<open>The three shapes of a report: the dictionary of checks, the evidence list, the checks of the model's verdict; the first one wins.\<close>

definition extract_verifier_check_results :: "dict \<Rightarrow> (string \<times> string) list" where
  "extract_verifier_check_results payload =
     (let direct = fold (\<lambda>(k, v) out. case v of JStr t \<Rightarrow> put k t out | _ \<Rightarrow> out) (case dict_get payload ''checks'' of JObj d \<Rightarrow> d | _ \<Rightarrow> []) [];
          listed = fold (\<lambda>(k, v) out. set_default k v out) (check_entries (dict_get payload ''evidence'')) direct in
      fold (\<lambda>(k, v) out. set_default k v out)
        (case dict_get payload ''model_verdict'' of JObj mv \<Rightarrow> check_entries (dict_get mv ''checks'') | _ \<Rightarrow> []) listed)"

definition evaluate_contract_spec :: "(json \<Rightarrow> string) \<Rightarrow> contract_view \<Rightarrow> dict \<Rightarrow> py_error + spec_verdict option" where
  "evaluate_contract_spec rp v payload = (let spec = ac_spec (cd_acceptance (cv_draft v)) in
     if \<not> truthy spec then Inr None
     else sbind (evaluate_stage_acceptance rp spec (extract_verifier_check_results payload)) (\<lambda>r. Inr (Some r)))"

section \<open>The repair brief\<close>

definition repair_brief_from :: "(json \<Rightarrow> string) \<Rightarrow> dict \<Rightarrow> repair_brief" where
  "repair_brief_from rp evidence =
     (let texts = (\<lambda>k. case dict_get evidence k of JList xs \<Rightarrow> map (py_str rp) xs | _ \<Rightarrow> []);
          failed = texts ''failed_checks'';
          note_of = (\<lambda>k. if truthy (dict_get evidence k) then [py_str rp (dict_get evidence k)] else []) in
      \<lparr>rb_failed_checks = (if failed = [] then texts ''fail_reasons'' else failed),
       rb_context_pointer = py_str rp (py_or (dict_get evidence ''context_pointer'') (JStr [])),
       rb_retry_strategy = ''respawn'', rb_notes = take 3 (note_of ''reason'' @ note_of ''stderr'')\<rparr>)"

definition repair_handover :: "judge_env \<Rightarrow> contract_view \<Rightarrow> string \<Rightarrow> repair_brief \<Rightarrow> files \<Rightarrow> handover" where
  "repair_handover x v verifier_attempt_id brief files =
     (let previous = (case map_of files (cv_contract_id v, ''handover.md'') of None \<Rightarrow> None
            | Some t \<Rightarrow> fst (parse_handover_markdown (fe_host (jg_files x)) t)) in
      \<lparr>ho_stage = ''repair'', ho_completed = (case previous of None \<Rightarrow> [] | Some d \<Rightarrow> ho_completed d),
       ho_remaining = (if rb_failed_checks brief = [] then [jg_failed_default x] else map (\<lambda>c. jg_failed_check x @ c) (rb_failed_checks brief)),
       ho_hours = (case previous of None \<Rightarrow> cd_workload_initial_hours (cv_draft v) | Some d \<Rightarrow> float_max (Fin (1/4)) (ho_hours d)),
       ho_next_action = (if rb_context_pointer brief = [] then jg_repair_action x else rb_context_pointer brief),
       ho_digest = fe_dumps (jg_files x) (JObj (cd_hard_constraints (cv_draft v))), ho_source = verifier_attempt_id,
       ho_risks = map (\<lambda>n. jg_note x @ n) (rb_notes brief)\<rparr>)"

definition write_repair_brief :: "judge_env \<Rightarrow> contract_view \<Rightarrow> string \<Rightarrow> repair_brief \<Rightarrow> unit act" where
  "write_repair_brief x v verifier_attempt_id brief = asave (\<lambda>files. write_file (cv_contract_id v)
     (''handover.md'', format_markdown (h_repr (fe_host (jg_files x))) (repair_handover x v verifier_attempt_id brief files)) files)"

section \<open>The outcomes\<close>

definition judged_update :: "contract_view \<Rightarrow> contract_state \<Rightarrow> acceptance_status \<Rightarrow> deadline_status option \<Rightarrow> int \<Rightarrow> update_call" where
  "judged_update v st acc dl now = \<lparr>uc_contract = cv_contract_id v, uc_state = st, uc_now = now, uc_expected = None, uc_blocked = None,
     uc_next_wakeup = None, uc_deadline = dl, uc_acceptance = Some acc, uc_next_decision = None, uc_event = None, uc_payload = [],
     uc_request = None, uc_actor = ''daemon'', uc_schema = STORE_SCHEMA_VERSION\<rparr>"

definition judge_event :: "contract_view \<Rightarrow> event_type \<Rightarrow> dict \<Rightarrow> int \<Rightarrow> unit act" where
  "judge_event v t payload now = awrite (\<lambda>s. snd (log_event ((event_call (Some (cv_contract_id v)) t payload now)\<lparr>ne_actor := ''verifier''\<rparr>) s))"

definition report_payload :: "string \<Rightarrow> dict \<Rightarrow> dict" where
  "report_payload verifier_attempt_id payload = [(''verifier'', JStr verifier_attempt_id), (''evidence'', JObj payload)]"

definition reject :: "judge_env \<Rightarrow> contract_view \<Rightarrow> string \<Rightarrow> dict \<Rightarrow> string \<Rightarrow> dict \<Rightarrow> int \<Rightarrow> unit act" where
  "reject x v verifier_attempt_id payload reason extra now =
     (let brief = repair_brief_from (jg_repr x) payload in
      abind (write_repair_brief x v verifier_attempt_id brief) (\<lambda>_.
      abind (judge_event v CONTRACT_BLOCKED (report_payload verifier_attempt_id payload @
        [(''reason'', JStr reason), (''repair_brief'', repair_brief_to_dict brief)] @ extra) now) (\<lambda>_.
      abind (acommit (update_contract_state (rx_zone (jg_rpc x)) (judged_update v Active AcceptanceFailed None now))) (\<lambda>_.
      project x (cv_contract_id v)))))"

definition record_spec_failure :: "judge_env \<Rightarrow> contract_view \<Rightarrow> string \<Rightarrow> dict \<Rightarrow> spec_verdict \<Rightarrow> int \<Rightarrow> unit act" where
  "record_spec_failure x v verifier_attempt_id payload verdict now =
     reject x v verifier_attempt_id payload ''stage spec rejected by acceptance/spec.py verdict''
       [(''spec_verdict'', verdict_to_event_payload verdict)] now"

definition record_spec_pending :: "judge_env \<Rightarrow> contract_view \<Rightarrow> string \<Rightarrow> dict \<Rightarrow> spec_verdict \<Rightarrow> int \<Rightarrow> unit act" where
  "record_spec_pending x v verifier_attempt_id payload verdict now =
     abind (suppress_store_error (acommit (update_contract_state (rx_zone (jg_rpc x)) (judged_update v Active Candidate None now)))) (\<lambda>_.
     abind (judge_event v ACCEPTANCE_STATUS_CHANGED (report_payload verifier_attempt_id payload @
       [(''spec_verdict'', verdict_to_event_payload verdict), (''reason'', JStr ''stage spec verdict pending user confirmation'')]) now) (\<lambda>_.
     project x (cv_contract_id v)))"

text \<open>The payload of the report, with the verdict on the specification if there is one.\<close>

definition with_verdict :: "spec_verdict option \<Rightarrow> dict \<Rightarrow> dict" where
  "with_verdict verdict d = (case verdict of None \<Rightarrow> d | Some r \<Rightarrow> put ''spec_verdict'' (verdict_to_event_payload r) d)"

definition complete_contract :: "judge_env \<Rightarrow> contract_view \<Rightarrow> string \<Rightarrow> dict \<Rightarrow> spec_verdict option \<Rightarrow> int \<Rightarrow> unit act" where
  "complete_contract x v verifier_attempt_id payload verdict now =
     abind (judge_event v CONTRACT_COMPLETED (with_verdict verdict (report_payload verifier_attempt_id payload)) now) (\<lambda>_.
     abind (alift (lift_py (deadline_verdict now (cv_draft v)))) (\<lambda>met.
     abind (acommit (update_contract_state (rx_zone (jg_rpc x)) (judged_update v Complete Passed (Some met) now))) (\<lambda>_.
     abind (project x (cv_contract_id v)) (\<lambda>_.
     abind (awrite (advance_goal_after_verified_contract (jg_repr x) v now)) (\<lambda>_.
     acommit (\<lambda>s. sbind (lift_py (auto_create_next_stage_contract (jg_rpc x) v now (with_verdict verdict payload) s)) (\<lambda>s'. Inr ((), s'))))))))"

definition judge_contract :: "judge_env \<Rightarrow> int \<Rightarrow> contract_view \<Rightarrow> unit act" where
  "judge_contract x now v = abind (aread (\<lambda>w. last_verdict v (wo_store w))) (\<lambda>found.
     case found of
       None \<Rightarrow> apure ()
     | Some e \<Rightarrow>
         (case ev_attempt e of
            None \<Rightarrow> apure ()
          | Some attempt_id \<Rightarrow>
              if ev_type e = ATTEMPT_SUCCEEDED then
                (if cv_acceptance_status v = Passed then apure ()
                 else abind (alift (lift_py (evaluate_contract_spec (jg_repr x) v (ev_payload e)))) (\<lambda>verdict.
                   if verdict \<noteq> None \<and> sv_outcome (the verdict) = ''fail'' then record_spec_failure x v attempt_id (ev_payload e) (the verdict) now
                   else if verdict \<noteq> None \<and> sv_outcome (the verdict) = ''pending'' then record_spec_pending x v attempt_id (ev_payload e) (the verdict) now
                   else complete_contract x v attempt_id (ev_payload e) verdict now))
              else reject x v attempt_id (ev_payload e) (''verifier rejected ('' @ [char_of (167::nat)] @ ''5.2): repair brief written to handover'') [] now))"

definition judge_verifier_outcomes :: "judge_env \<Rightarrow> int \<Rightarrow> unit act" where
  "judge_verifier_outcomes x now = abind (aread (\<lambda>w. filter (\<lambda>v. cv_state v = Active) (list_contracts None None 1000 (wo_store w))))
     (aeach (judge_contract x now))"

section \<open>Frames\<close>

lemma act_simps [simp]:
  "awrite h w = (Inr (), w\<lparr>wo_store := h (wo_store w)\<rparr>)" "asave k w = (Inr (), w\<lparr>wo_files := k (wo_files w)\<rparr>)"
  by (simp_all add: awrite_def asave_def)

lemma acommit_Inr: "acommit op w = (Inr y, w') \<longleftrightarrow> (\<exists>s. op (wo_store w) = Inr (y, s) \<and> w' = w\<lparr>wo_store := s\<rparr>)"
  by (auto simp: acommit_def split: sum.split prod.split)

lemmas act_Inr = abind_Inr aread_Inr alift_Inr apure_Inr acommit_Inr

locale world_frame = step_frame R for R :: "world \<Rightarrow> world \<Rightarrow> bool"
begin

lemma keeps_write: "(\<And>w. R w (w\<lparr>wo_store := f (wo_store w)\<rparr>)) \<Longrightarrow> akeeps R (awrite f)"
  by (simp add: akeeps_def)

lemma keeps_save: "(\<And>w. R w (w\<lparr>wo_files := f (wo_files w)\<rparr>)) \<Longrightarrow> akeeps R (asave f)"
  by (simp add: akeeps_def)

lemma keeps_commit: "(\<And>w a s. op (wo_store w) = Inr (a, s) \<Longrightarrow> R w (w\<lparr>wo_store := s\<rparr>)) \<Longrightarrow> akeeps R (acommit op)"
  by (auto simp: akeeps_def acommit_def refl split: sum.split prod.split)

end

text \<open>The writing of files leaves the store alone.\<close>

lemma project_store: "wo_store (snd (project x c w)) = wo_store w"
  by (simp add: project_def split: sum.split prod.split)

lemma brief_store: "wo_store (snd (write_repair_brief x v a brief w)) = wo_store w"
  by (simp add: write_repair_brief_def)

end
