(* ===== verification/Tick.thy ===== *)
theory Tick
  imports Judge Fairness
begin

text \<open>
  One pass of the scheduler: \<open>run_daemon_tick\<close> of \<open>longtask/cli/tick.py\<close>, over the store and the files. The judge runs first, the clocks
  are scanned, contracts that wait for capacity are woken, and each contract is expired, skipped, or taken through the escalation ladder.
  The log lines that the tick returns for printing are not modelled.
\<close>

text \<open>
  What comes from outside: the order of attempts admitted at one instant, the offset of the wall clock, the time in an attempt id, the
  adapters, \<open>os.path.realpath\<close> (\<open>None\<close> for an \<open>OSError\<close>), \<open>str.casefold\<close> and the format of a cost.
\<close>

record tick_env =
  tk_judge :: judge_env
  tk_tie :: "string \<Rightarrow> int"
  tk_off :: "int \<Rightarrow> int"
  tk_stamp :: "int \<Rightarrow> string"
  tk_factory :: "registry_entry \<Rightarrow> (string \<Rightarrow> string option) option"
  tk_realpath :: "string \<Rightarrow> string option"
  tk_casefold :: "string \<Rightarrow> string"
  tk_money :: "pyfloat \<Rightarrow> string"
  tk_fairness :: fairness_config

abbreviation tk_repr :: "tick_env \<Rightarrow> json \<Rightarrow> string" where
  "tk_repr x \<equiv> jg_repr (tk_judge x)"

abbreviation tk_zone :: "tick_env \<Rightarrow> tzdb" where
  "tk_zone x \<equiv> rx_zone (jg_rpc (tk_judge x))"

abbreviation tk_fmt :: "tick_env \<Rightarrow> int \<Rightarrow> string" where
  "tk_fmt x \<equiv> rx_fmt (jg_rpc (tk_judge x))"

section \<open>Workload and urgency\<close>

text \<open>The hours of the last handover that an attempt wrote, or the estimate of the draft.\<close>

definition remaining_workload_hours :: "file_env \<Rightarrow> contract_view \<Rightarrow> files \<Rightarrow> pyfloat" where
  "remaining_workload_hours x v files =
     (let initial = cd_workload_initial_hours (cv_draft v) in
      case map_of files (cv_contract_id v, ''handover.md'') of
        None \<Rightarrow> initial
      | Some t \<Rightarrow>
          (case parse_handover_markdown (fe_host x) t of
             (Some d, []) \<Rightarrow> if strip (ho_source d) = [] \<or> lower (strip (ho_source d)) = ''init'' then initial
               else float_max (Fin 0) (ho_hours d)
           | _ \<Rightarrow> initial))"

definition hours_left :: "contract_view \<Rightarrow> int \<Rightarrow> rat" where
  "hours_left v now = max 0 (of_int (deadline_of (cv_draft v) - now) / of_int (60 * MINUTE))"

text \<open>\<open>urgency\<close> and \<open>classify\<close> on floats: a division by a positive number, and comparisons, which NaN fails.\<close>

definition float_urgency :: "pyfloat \<Rightarrow> rat \<Rightarrow> py_error + pyfloat option" where
  "float_urgency remaining left = (case remaining of
     Fin q \<Rightarrow> sbind (urgency q left) (\<lambda>u. Inr (map_option Fin u))
   | _ \<Rightarrow> if left \<le> 0 then Inr None else if remaining = NegInf then Inl (ValueError ''remaining_hours'') else Inr (Some remaining))"

definition float_tier :: "pyfloat option \<Rightarrow> urgency_tier option" where
  "float_tier u = (case u of
     None \<Rightarrow> None
   | Some (Fin q) \<Rightarrow> classify DEFAULT_THRESHOLDS (Some q)
   | Some NegInf \<Rightarrow> Some Queued
   | Some _ \<Rightarrow> Some Respawn)"

text \<open>The workload, the hours that are left, the urgency and its tier.\<close>

definition measure :: "tick_env \<Rightarrow> int \<Rightarrow> contract_view \<Rightarrow> (pyfloat \<times> rat \<times> pyfloat option \<times> urgency_tier option) act" where
  "measure x now v = abind (aread (\<lambda>w. remaining_workload_hours (jg_files (tk_judge x)) v (wo_files w))) (\<lambda>remaining.
     abind (alift (lift_py (float_urgency remaining (hours_left v now)))) (\<lambda>u.
     apure (remaining, hours_left v now, u, float_tier u)))"

section \<open>Workspaces\<close>

definition contract_workspace :: "contract_view \<Rightarrow> string" where
  "contract_workspace v = (case dict_get (cd_hard_constraints (cv_draft v)) ''file_effects'' of
     JObj effects \<Rightarrow> (case dict_get effects ''workspace_root'' of JStr path \<Rightarrow> if is_blank path then [] else path | _ \<Rightarrow> [])
   | _ \<Rightarrow> [])"

definition slashes :: "string \<Rightarrow> string" where
  "slashes t = rev (dropWhile (\<lambda>c. c = CHR ''/'') (rev (map (\<lambda>c. if c = char_of (92::nat) then CHR ''/'' else c) t)))"

definition norm_workspace :: "tick_env \<Rightarrow> string \<Rightarrow> string" where
  "norm_workspace x workspace = (let text = slashes (strip workspace) in
     tk_casefold x (case tk_realpath x text of None \<Rightarrow> text | Some resolved \<Rightarrow> slashes resolved))"

definition workspace_holder_other_than :: "tick_env \<Rightarrow> contract_view \<Rightarrow> int \<Rightarrow> store \<Rightarrow> (string \<times> string) option" where
  "workspace_holder_other_than x v now s =
     (let workspace = contract_workspace v in
      if workspace = [] then None
      else map_option (\<lambda>other. (cv_contract_id other, workspace)) (find (\<lambda>other.
          cv_contract_id other \<noteq> cv_contract_id v \<and> cv_state other \<in> {Active, Blocked} \<and>
          norm_workspace x (contract_workspace other) = norm_workspace x workspace \<and>
          (case get_lease s (cv_contract_id other) None of None \<Rightarrow> False | Some l \<Rightarrow> lease_is_alive l now))
        (list_contracts None None 1000 s)))"

section \<open>Durations and forecasts\<close>

definition attempt_minutes :: "attempt \<Rightarrow> pyfloat list" where
  "attempt_minutes a = (case (sa_started a, sa_terminal a) of
     (Some t, Some u) \<Rightarrow> if t \<le> u then [Fin (of_int (u - t) / of_int MINUTE)] else []
   | _ \<Rightarrow> [])"

definition completed_attempt_durations :: "store \<Rightarrow> string \<Rightarrow> bool \<Rightarrow> pyfloat list" where
  "completed_attempt_durations s goal_id successful_only = concat (map (\<lambda>(i, a).
     if sa_goal a = goal_id \<and> sa_role a = ''executor'' \<and>
        sa_state a \<in> (if successful_only then {''succeeded''} else {''succeeded'', ''failed'', ''cancelled'', ''stale'', ''orphaned''})
     then attempt_minutes a else []) (st_attempts s))"

text \<open>The samples of a contract by executor, in the order in which the executors first appear.\<close>

definition successful_durations_by_executor :: "store \<Rightarrow> string \<Rightarrow> (string \<times> pyfloat list) list" where
  "successful_durations_by_executor s contract_id = fold (\<lambda>(i, a) grouped.
     if sa_contract a = Some contract_id \<and> sa_role a = ''executor'' \<and> sa_state a = ''succeeded'' then
       (let name = text_or (sa_executor a) ''unknown'' in
        fold (\<lambda>m g. put name ((case map_of g name of None \<Rightarrow> [] | Some ms \<Rightarrow> ms) @ [m]) g) (attempt_minutes a) grouped)
     else grouped) (st_attempts s) []"

text \<open>\<open>max(..., key=len)\<close>: the first of the longest.\<close>

fun dominant_samples :: "(string \<times> pyfloat list) list \<Rightarrow> pyfloat list" where
  "dominant_samples [] = []"
| "dominant_samples ((e, ms) # gs) = (if length (dominant_samples gs) \<le> length ms then ms else dominant_samples gs)"

definition duration_samples :: "store \<Rightarrow> contract_view \<Rightarrow> pyfloat list" where
  "duration_samples s v = (let best = dominant_samples (successful_durations_by_executor s (cv_contract_id v)) in
     if 2 \<le> length best then best else completed_attempt_durations s (cv_goal_id v) True)"

text \<open>\<open>sorted\<close> on floats of which none is NaN, and the nearest rank.\<close>

fun insert_float :: "pyfloat \<Rightarrow> pyfloat list \<Rightarrow> pyfloat list" where
  "insert_float x [] = [x]"
| "insert_float x (y # ys) = (if float_lt y x then y # insert_float x ys else x # y # ys)"

definition nearest_rank :: "rat \<Rightarrow> pyfloat list \<Rightarrow> pyfloat" where
  "nearest_rank q samples = (let ordered = foldr insert_float samples [] in
     ordered ! nat (max 0 (\<lceil>of_nat (length ordered) * q\<rceil> - 1)))"

definition build_forecast :: "pyfloat \<Rightarrow> rat \<Rightarrow> pyfloat list \<Rightarrow> forecast" where
  "build_forecast remaining_hours left samples =
     (let remaining = float_scale 60 remaining_hours;
          p50 = (if samples = [] then float_add remaining (Fin 10) else float_add (nearest_rank (1/2) samples) (Fin 10));
          p90 = (if samples = [] then float_scale (3/2) p50 else float_add (nearest_rank (9/10) samples) (Fin 15)) in
      \<lparr>fo_queue = Some (Fin 0), fo_startup = Some (Fin 5), fo_remaining = Some remaining, fo_verification = Some (Fin 5),
       fo_retry_reserve = Some (float_max (Fin 5) (float_scale (3/20) remaining)), fo_safety_margin = Some (Fin 1),
       fo_p50 = Some p50, fo_p90 = Some p90, fo_p_finish = Some (if float_le p90 (Fin (left * 60)) then Fin (9/10) else Fin (3/10))\<rparr>)"

text \<open>\<open>round(v, 1)\<close>, halves to even.\<close>

definition round_half_even :: "rat \<Rightarrow> int" where
  "round_half_even q = (let f = \<lfloor>q\<rfloor>; r = q - of_int f in
     if r < 1/2 then f else if 1/2 < r then f + 1 else if even f then f else f + 1)"

definition float_tenths :: "pyfloat \<Rightarrow> pyfloat" where
  "float_tenths v = (case v of Fin q \<Rightarrow> Fin (of_int (round_half_even (10 * q)) / 10) | _ \<Rightarrow> v)"

definition forecast_semantic_payload :: "dict \<Rightarrow> dict" where
  "forecast_semantic_payload payload = map (\<lambda>(k, v). (k, case v of JFloat f \<Rightarrow> JFloat (float_tenths f) | _ \<Rightarrow> v))
     (filter (\<lambda>(k, v). k \<noteq> ''computed_at'') payload)"

definition STALE_AFTER :: int where "STALE_AFTER = 60 * MINUTE"

text \<open>The events of the promoter on a contract.\<close>

definition promoter_event :: "contract_view \<Rightarrow> event_type \<Rightarrow> dict \<Rightarrow> int \<Rightarrow> string \<Rightarrow> unit act" where
  "promoter_event v t payload now actor = awrite (\<lambda>s. snd (log_event ((event_call (Some (cv_contract_id v)) t payload now)
     \<lparr>ne_actor := actor, ne_goal := Some (cv_goal_id v), ne_revision := Some (cv_revision v), ne_role := Some ''promoter''\<rparr>) s))"

definition record_forecast :: "tick_env \<Rightarrow> int \<Rightarrow> contract_view \<Rightarrow> pyfloat \<Rightarrow> rat \<Rightarrow> int option \<Rightarrow> unit act" where
  "record_forecast x now v remaining left next_at = abind (aread (\<lambda>w. duration_samples (wo_store w) v)) (\<lambda>samples.
     let payload = snapshot_to_dict (tk_fmt x) (build_deadline_snapshot (build_forecast remaining left samples) now
           (deadline_of (cv_draft v)) next_at (int (length samples)) STALE_AFTER None samples) in
     abind (aread (\<lambda>w. get_latest_forecast_snapshot (cv_contract_id v) (st_log (wo_store w)))) (\<lambda>previous.
     if (case previous of None \<Rightarrow> False
         | Some p \<Rightarrow> py_eq (JObj (forecast_semantic_payload p)) (JObj (forecast_semantic_payload payload)))
     then apure () else promoter_event v FORECAST_UPDATED payload now ''promoter''))"

section \<open>One contract\<close>

text \<open>The reason of a decision as the ladder words it.\<close>

definition paragraph_sign :: string where "paragraph_sign = [char_of (167::nat)]"

fun reason_text :: "(pyfloat \<Rightarrow> string) \<Rightarrow> escalation_reason \<Rightarrow> string" where
  "reason_text money PastDeadline = ''past deadline: contract goes to arbitration, not the ladder ('' @ paragraph_sign @ ''6.2)''"
| "reason_text money (LeaseAliveCap tier capped) = ''lease alive: cap at remind ('' @ paragraph_sign @ ''7), u-tier '' @
     int_str (tier_int tier) @ '' -> '' @ int_str (tier_int capped)"
| "reason_text money (CostExhausted c) = ''cost budget exhausted ('' @ money c @ '' left): hand to user ('' @ paragraph_sign @ ''6.3)''"
| "reason_text money SteerBudgetExhausted = ''steer with no live lease but dispatch budget exhausted: hand to user ('' @ paragraph_sign @
     ''6.2/'' @ paragraph_sign @ ''6.3)''"
| "reason_text money SteerRespawn = ''steer tier with no live lease: nothing to steer, respawn now ('' @ paragraph_sign @ ''6.2)''"
| "reason_text money (FreeAction tier) = ''u-tier '' @ int_str (tier_int tier) @ '': free action, no budget consumed''"
| "reason_text money DispatchExhausted = ''dispatch budget exhausted: hand to user ('' @ paragraph_sign @ ''6.3)''"
| "reason_text money (StalledRespawn requested left) = ''estimate stalled: serial respawn (partitioned parallel dispatch is not implemented; '' @
     ''partitions_requested='' @ (if requested then ''True'' else ''False'') @ '', escalations_left='' @ int_str left @ '')''"
| "reason_text money ThresholdRespawn = ''u >= respawn threshold and no live lease: dispatch new attempt ('' @ paragraph_sign @ ''6.2)''"

definition notify_risk :: "tick_env \<Rightarrow> int \<Rightarrow> contract_view \<Rightarrow> pyfloat \<Rightarrow> rat \<Rightarrow> pyfloat option \<Rightarrow> urgency_tier option \<Rightarrow> unit act" where
  "notify_risk x now v remaining left u tier = (let attention = cd_attention (cv_draft v) in
     if (case tier of None \<Rightarrow> False | Some t \<Rightarrow> Respawn \<le> t) \<and> ''risk_red'' \<in> set (at_notify_on attention) then
       acommit (\<lambda>s. sbind (lift_py (enqueue_notification (cv_contract_id v @ '':risk-red:revision-'' @ int_str (cv_revision v)) ''risk_red'' ''local''
           [(''contract_id'', JStr (cv_contract_id v)), (''revision'', JInt (cv_revision v)), (''urgency'', jopt JFloat u),
            (''remaining_hours'', JFloat remaining), (''time_left_hours'', JFloat (Fin left))] now (Some (cv_goal_id v))
           (Some (notification_available_at (tk_zone x) attention ''risk_red'' now)) (st_outbox s))) (\<lambda>ob. Inr ((), s\<lparr>st_outbox := ob\<rparr>)))
     else apure ())"

definition COUNTED_STATES :: "string list" where
  "COUNTED_STATES = [''admitted'', ''running'', ''succeeded'', ''failed'', ''cancelled'', ''stale'', ''orphaned'']"

definition count_attempts_by_role :: "store \<Rightarrow> string \<Rightarrow> string \<Rightarrow> string list \<Rightarrow> int" where
  "count_attempts_by_role s contract_id role states = int (length (filter (\<lambda>(i, a). sa_contract a = Some contract_id \<and> sa_role a = role \<and>
     sa_state a \<in> set states) (st_attempts s)))"

definition dispatches_left :: "store \<Rightarrow> contract_view \<Rightarrow> int" where
  "dispatches_left s v = max 0 (bu_max_dispatches (cd_budget (cv_draft v)) - count_attempts_by_role s (cv_contract_id v) ''executor'' COUNTED_STATES)"

definition escalations_left :: "contract_view \<Rightarrow> int \<Rightarrow> int" where
  "escalations_left v used = max 0 (bu_max_escalations (cd_budget (cv_draft v)) - used)"

definition cost_left :: "store \<Rightarrow> contract_view \<Rightarrow> pyfloat option" where
  "cost_left s v = map_option (\<lambda>limit. float_sub limit (total_cost (map (\<lambda>(i, a). sa_usage a)
     (filter (\<lambda>(i, a). sa_contract a = Some (cv_contract_id v)) (st_attempts s))))) (bu_max_cost (cd_budget (cv_draft v)))"

text \<open>The lease is the one of the contract, without a partition.\<close>

definition ladder_of :: "urgency_tier option \<Rightarrow> int \<Rightarrow> bool \<Rightarrow> int \<Rightarrow> contract_view \<Rightarrow> store \<Rightarrow> ladder_input" where
  "ladder_of tier used stalled now v s = \<lparr>li_tier = tier,
     li_lease_alive = (case get_lease s (cv_contract_id v) None of None \<Rightarrow> False | Some l \<Rightarrow> lease_is_alive l now),
     li_dispatches_left = dispatches_left s v, li_escalations_left = escalations_left v used, li_estimate_stalled = stalled,
     li_partitions_allowed = truthy (dict_get_or (cd_execution (cv_draft v)) ''allow_parallel'' (JBool False)), li_cost_left = cost_left s v\<rparr>"

text \<open>A scheduled decision that lies ahead is only moved forward.\<close>

definition next_decision_of :: "tick_env \<Rightarrow> int \<Rightarrow> contract_view \<Rightarrow> store \<Rightarrow> urgency_tier option \<Rightarrow> int option" where
  "next_decision_of x now v s tier =
     (let next_at = compute_next_decision_at (tk_off x) (cv_draft v) now (get_lease s (cv_contract_id v) None) tier in
      case cv_next_decision_at v of
        Some p \<Rightarrow> if now < p then Some (case next_at of None \<Rightarrow> p | Some t \<Rightarrow> min p t) else next_at
      | None \<Rightarrow> next_at)"

definition schedule_decision :: "tick_env \<Rightarrow> int \<Rightarrow> contract_view \<Rightarrow> int option \<Rightarrow> string \<Rightarrow> unit act" where
  "schedule_decision x now v next_at reason = (case next_at of
     None \<Rightarrow> apure ()
   | Some t \<Rightarrow> awrite (\<lambda>s. snd (set_next_decision_at (tk_fmt x) \<lparr>dc_contract = cv_contract_id v, dc_when = t, dc_now = now, dc_reason = reason,
       dc_goal = Some (cv_goal_id v), dc_revision = Some (cv_revision v)\<rparr> s)))"

subsection \<open>Dispatch\<close>

definition two_digits :: "int \<Rightarrow> string" where
  "two_digits n = (if n < 10 then ''0'' else []) @ int_str n"

definition hhmm_text :: "int \<Rightarrow> string" where
  "hhmm_text t = two_digits (t div 60) @ '':'' @ two_digits (t mod 60)"

definition DISPATCH_DEFERRED :: event_type where "DISPATCH_DEFERRED = ''dispatch/deferred''"
definition ESCALATION_REMINDED :: event_type where "ESCALATION_REMINDED = ''escalation/reminded''"
definition ESCALATION_STEERED :: event_type where "ESCALATION_STEERED = ''escalation/steered''"

definition defer_for_window :: "tick_env \<Rightarrow> int \<Rightarrow> contract_view \<Rightarrow> int \<times> int \<Rightarrow> int \<Rightarrow> unit act" where
  "defer_for_window x now v window next_start =
     abind (aread (\<lambda>w. find (\<lambda>e. ev_type e = DISPATCH_DEFERRED) (rev (get_events (Some (cv_contract_id v)) None [] None (st_log (wo_store w)))))) (\<lambda>newest.
     if (case newest of None \<Rightarrow> False | Some e \<Rightarrow> dict_get (ev_payload e) ''window_start'' = JStr (tk_fmt x next_start)) then apure ()
     else promoter_event v DISPATCH_DEFERRED [(''reason'', JStr ''outside execution window''),
       (''dispatch_window'', JStr (hhmm_text (fst window) @ ''-'' @ hhmm_text (snd window))), (''window_start'', JStr (tk_fmt x next_start)),
       (''note'', JStr ''no dispatch until window opens (execution.dispatch_window)'')] now ''daemon'')"

definition daemon_update :: "contract_view \<Rightarrow> contract_state \<Rightarrow> block_reason option \<Rightarrow> deadline_status option \<Rightarrow> event_type \<Rightarrow> dict \<Rightarrow> int \<Rightarrow>
    update_call" where
  "daemon_update v st reason dl t payload now = \<lparr>uc_contract = cv_contract_id v, uc_state = st, uc_now = now, uc_expected = None,
     uc_blocked = reason, uc_next_wakeup = None, uc_deadline = dl, uc_acceptance = None, uc_next_decision = None, uc_event = Some t,
     uc_payload = payload, uc_request = None, uc_actor = ''daemon'', uc_schema = STORE_SCHEMA_VERSION\<rparr>"

definition block_contract :: "tick_env \<Rightarrow> int \<Rightarrow> contract_view \<Rightarrow> block_reason \<Rightarrow> string \<Rightarrow> unit act" where
  "block_contract x now v reason why = abind (acommit (update_contract_state (tk_zone x)
     (daemon_update v Blocked (Some reason) None CONTRACT_BLOCKED [(''reason'', JStr why)] now))) (\<lambda>_. apure ())"

definition project_contract :: "tick_env \<Rightarrow> contract_view \<Rightarrow> unit act" where
  "project_contract x v = project (tk_judge x) (cv_contract_id v)"

text \<open>No attempt was started: every executor is busy, or there is none.\<close>

definition block_undispatched :: "tick_env \<Rightarrow> int \<Rightarrow> contract_view \<Rightarrow> bool \<Rightarrow> unit act" where
  "block_undispatched x now v saturated_only =
     (if saturated_only then
        abind (acommit (\<lambda>s. Inr (mark_blocked_capacity_full (cv_contract_id v) now s))) (\<lambda>marked.
        if marked then project_contract x v else apure ())
      else
        abind (block_contract x now v NoExecutor ''no dispatchable executor: none eligible or all refused'') (\<lambda>_.
        project_contract x v))"

definition last_chars :: "nat \<Rightarrow> string \<Rightarrow> string" where
  "last_chars n t = drop (length t - n) t"

definition dispatch_contract :: "tick_env \<Rightarrow> registry \<Rightarrow> int \<Rightarrow> contract_view \<Rightarrow> urgency_tier \<Rightarrow> started_attempt option act" where
  "dispatch_contract x reg now v tier = (let source = DraftSource (cv_draft v) in
     abind (aread (\<lambda>w. count_running_by_executor (wo_store w))) (\<lambda>running.
     abind (alift (lift_py (match_candidates (tk_repr x) reg source running ''executor''))) (\<lambda>candidates.
     abind (if candidates \<noteq> [] then apure False
            else abind (alift (lift_py (match_candidates (tk_repr x) reg source [] ''executor''))) (\<lambda>cap_free. apure (cap_free \<noteq> []))) (\<lambda>saturated_only.
     abind (acommit (dispatch_attempt (rx_pick (jg_rpc (tk_judge x))) (tk_stamp x) (tk_factory x)
       \<lparr>dp_contract = v, dp_candidates = candidates, dp_now = now, dp_tier = tier, dp_seq = last_chars 4 (cv_contract_id v)\<rparr>)) (\<lambda>started.
     case started of
       Some st \<Rightarrow> apure (Some st)
     | None \<Rightarrow> abind (block_undispatched x now v saturated_only) (\<lambda>_. apure None))))))"

text \<open>The gates before a dispatch: the window of the contract, its workspace, and the capacity of the tick.\<close>

definition try_dispatch :: "tick_env \<Rightarrow> registry \<Rightarrow> int \<Rightarrow> capacity_ledger \<Rightarrow> contract_view \<Rightarrow> bool \<Rightarrow> urgency_tier \<Rightarrow> started_attempt option act" where
  "try_dispatch x reg now ledger v alive tier =
     (case (case dispatch_window (cv_draft v) of
          Some window \<Rightarrow> if alive then None else map_option (Pair window) (snd (window_state (tk_off x) now window))
        | None \<Rightarrow> None) of
        Some (window, next_start) \<Rightarrow> abind (defer_for_window x now v window next_start) (\<lambda>_. apure None)
      | None \<Rightarrow>
          abind (aread (\<lambda>w. workspace_holder_other_than x v now (wo_store w))) (\<lambda>holder.
          case holder of
            Some (other, path) \<Rightarrow>
              abind (promoter_event v DISPATCH_DEFERRED [(''reason'', JStr ''workspace occupied by another live contract''),
                (''workspace_root'', JStr path), (''holder_contract_id'', JStr other),
                (''note'', JStr ''serialised per workspace; retry next tick'')] now ''daemon'') (\<lambda>_. apure None)
          | None \<Rightarrow>
              if \<not> can_dispatch ledger (cv_contract_id v) then apure None
              else dispatch_contract x reg now v tier))"

subsection \<open>The other tiers\<close>

definition hand_to_user :: "tick_env \<Rightarrow> int \<Rightarrow> contract_view \<Rightarrow> urgency_tier option \<Rightarrow> ladder_input \<Rightarrow> string \<Rightarrow> unit act" where
  "hand_to_user x now v tier li why =
     abind (block_contract x now v NeedUser why) (\<lambda>_.
     abind (awrite (record_decision \<lparr>de_goal = cv_goal_id v, de_contract = Some (cv_contract_id v), de_revision = cv_revision v,
       de_tier = map_option tier_int tier, de_type = ''hand-to-user'', de_reason = why, de_dispatches_left = li_dispatches_left li,
       de_escalations_left = li_escalations_left li, de_recorded_at = now, de_actor = ''promoter''\<rparr>)) (\<lambda>_.
     project_contract x v))"

text \<open>No steering since the last attempt started.\<close>

definition steer_allowed :: "store \<Rightarrow> string \<Rightarrow> bool" where
  "steer_allowed s contract_id = (case (last_event_at s contract_id ESCALATION_STEERED, last_attempt_started_at s contract_id) of
     (Some steer, Some attempt) \<Rightarrow> steer < attempt | _ \<Rightarrow> True)"

definition remind_allowed :: "int \<Rightarrow> store \<Rightarrow> string \<Rightarrow> bool" where
  "remind_allowed now s contract_id = ((case last_event_at s contract_id ESCALATION_REMINDED of
       None \<Rightarrow> True | Some t \<Rightarrow> 5 * MINUTE \<le> now - t) \<and> steer_allowed s contract_id)"

definition escalate_freely :: "tick_env \<Rightarrow> int \<Rightarrow> contract_view \<Rightarrow> (store \<Rightarrow> string \<Rightarrow> bool) \<Rightarrow> event_type \<Rightarrow> string \<Rightarrow> unit act" where
  "escalate_freely x now v allowed t why = abind (aread (\<lambda>w. allowed (wo_store w) (cv_contract_id v))) (\<lambda>ok.
     if \<not> ok then apure ()
     else abind (promoter_event v t [(''reason'', JStr why)] now ''daemon'') (\<lambda>_. project_contract x v))"

definition act_on :: "tick_env \<Rightarrow> registry \<Rightarrow> int \<Rightarrow> capacity_ledger \<Rightarrow> contract_view \<Rightarrow> urgency_tier option \<Rightarrow> ladder_input \<Rightarrow> escalation_decision \<Rightarrow>
    started_attempt option act" where
  "act_on x reg now ledger v u_tier li d = (let why = reason_text (tk_money x) (ed_reason d); quietly = (\<lambda>m. abind m (\<lambda>_. apure None)) in
     case ed_tier d of
       Some Respawn \<Rightarrow> try_dispatch x reg now ledger v (li_lease_alive li) Respawn
     | Some Parallel \<Rightarrow> try_dispatch x reg now ledger v (li_lease_alive li) Parallel
     | Some HandToUser \<Rightarrow> quietly (hand_to_user x now v u_tier li why)
     | Some Remind \<Rightarrow> quietly (escalate_freely x now v (remind_allowed now) ESCALATION_REMINDED why)
     | Some Steer \<Rightarrow> quietly (escalate_freely x now v steer_allowed ESCALATION_STEERED why)
     | _ \<Rightarrow> apure None)"

definition promote_contract :: "tick_env \<Rightarrow> registry \<Rightarrow> int \<Rightarrow> int \<times> bool \<Rightarrow> capacity_ledger \<Rightarrow> contract_view \<Rightarrow> started_attempt option act" where
  "promote_contract x reg now counts ledger v =
     abind (measure x now v) (\<lambda>(remaining, left, u, tier).
     abind (notify_risk x now v remaining left u tier) (\<lambda>_.
     abind (aread (\<lambda>w. ladder_of tier (fst counts) (snd counts) now v (wo_store w))) (\<lambda>li.
     let d = decide li in
     abind (aread (\<lambda>w. next_decision_of x now v (wo_store w) (ed_tier d))) (\<lambda>next_at.
     abind (schedule_decision x now v next_at (next_decision_reason (ed_tier d) (li_lease_alive li) (li_dispatches_left li))) (\<lambda>_.
     abind (record_forecast x now v remaining left next_at) (\<lambda>_.
     act_on x reg now ledger v tier li d))))))"

text \<open>Whatever is raised while a contract is expired is caught; what was written stays.\<close>

definition expire_contract :: "tick_env \<Rightarrow> int \<Rightarrow> contract_view \<Rightarrow> bool act" where
  "expire_contract x now v = (\<lambda>w. case abind (acommit (update_contract_state (tk_zone x)
         (daemon_update v Expired None (Some Missed) CONTRACT_EXPIRED [(''arbitrated_at'', JStr (tk_fmt x now))] now)))
       (\<lambda>_. project_contract x v) w of
     (Inl e, w') \<Rightarrow> (Inr False, w') | (Inr _, w') \<Rightarrow> (Inr True, w'))"

section \<open>The pass\<close>

text \<open>What the loop carries: the ledger, the number of expired contracts and the attempts that were started, newest first.\<close>

record tick_loop =
  tl_ledger :: capacity_ledger
  tl_expired :: nat
  tl_started :: "started_attempt list"

definition visit_contract :: "tick_env \<Rightarrow> registry \<Rightarrow> int \<Rightarrow> (string \<times> contract_clock) list \<Rightarrow> (string \<times> int \<times> bool) list \<Rightarrow>
    contract_view \<Rightarrow> tick_loop \<Rightarrow> tick_loop act" where
  "visit_contract x reg now clocks counts v l = (case map_of clocks (cv_contract_id v) of
     None \<Rightarrow> apure l
   | Some clock \<Rightarrow>
       if is_overdue clock now \<and> cv_state v \<noteq> Expired then
         abind (expire_contract x now v) (\<lambda>done. apure (if done then l\<lparr>tl_expired := Suc (tl_expired l)\<rparr> else l))
       else if cv_state v \<noteq> Active then apure l
       else if cv_acceptance_status v = Candidate then apure l
       else
         abind (promote_contract x reg now (case map_of counts (cv_contract_id v) of None \<Rightarrow> (0, False) | Some c \<Rightarrow> c) (tl_ledger l) v) (\<lambda>started.
         apure (case started of
             None \<Rightarrow> l
           | Some st \<Rightarrow> l\<lparr>tl_ledger := record_dispatch (tl_ledger l) (cv_contract_id v), tl_started := st # tl_started l\<rparr>)))"

primrec visit_all :: "(contract_view \<Rightarrow> tick_loop \<Rightarrow> tick_loop act) \<Rightarrow> contract_view list \<Rightarrow> tick_loop \<Rightarrow> tick_loop act" where
  "visit_all f [] l = apure l"
| "visit_all f (v # vs) l = abind (f v l) (visit_all f vs)"

definition clock_of :: "int \<Rightarrow> contract_view \<Rightarrow> string \<times> contract_clock" where
  "clock_of now v = (cv_contract_id v, \<lparr>ck_deadline = deadline_of (cv_draft v),
     ck_next_wakeup = or_else (cv_next_wakeup_at v) (now + 60 * SECOND), ck_arbitrated = (if cv_state v = Expired then Some now else None)\<rparr>)"

text \<open>The tiers of the active contracts, and what each contract has used of its escalations so far.\<close>

primrec prescan_tiers :: "tick_env \<Rightarrow> int \<Rightarrow> contract_view list \<Rightarrow> (string \<times> int) list act" where
  "prescan_tiers x now [] = apure []"
| "prescan_tiers x now (v # vs) =
     (if cv_state v \<noteq> Active then prescan_tiers x now vs
      else abind (measure x now v) (\<lambda>(remaining, left, u, tier). abind (prescan_tiers x now vs) (\<lambda>rest.
        apure (case tier of None \<Rightarrow> rest | Some t \<Rightarrow> (cv_contract_id v, tier_int t) # rest))))"

definition prescan_counts :: "tick_env \<Rightarrow> contract_view list \<Rightarrow> store \<Rightarrow> (string \<times> int \<times> bool) list" where
  "prescan_counts x vs s = map (\<lambda>v. (cv_contract_id v,
       count_verifier_attempts s (cv_contract_id v) + count_events (cv_contract_id v) ESCALATION_STEERED (st_log s),
       estimate_stalled_from_attempts (tk_tie x) s (cv_contract_id v)))
     (filter (\<lambda>v. cv_state v \<notin> TERMINAL_STATES) vs)"

primrec wake_contracts :: "tick_env \<Rightarrow> registry \<Rightarrow> int \<Rightarrow> contract_view list \<Rightarrow> bool act" where
  "wake_contracts x reg now [] = apure False"
| "wake_contracts x reg now (v # vs) =
     (if cv_state v = Blocked \<and> cv_blocked_reason v = Some CapacityFull then
        abind (acommit (\<lambda>s. lift_py (wake_blocked_capacity_full (tk_repr x) (Some reg) (cv_contract_id v) now s))) (\<lambda>woken.
        abind (wake_contracts x reg now vs) (\<lambda>rest. apure (woken \<or> rest)))
      else wake_contracts x reg now vs)"

definition order_contracts :: "(string \<times> int) list \<Rightarrow> contract_view list \<Rightarrow> contract_view list" where
  "order_contracts tiers vs =
     (let ordered = sort_key cv_contract_id (filter (\<lambda>v. cv_state v \<noteq> Active) vs) @
            sort_key (\<lambda>v. (- (case map_of tiers (cv_contract_id v) of None \<Rightarrow> -1 | Some t \<Rightarrow> t), cv_contract_id v))
              (filter (\<lambda>v. cv_state v = Active) vs) in
      List.map_filter (map_of (map (\<lambda>v. (cv_contract_id v, v)) ordered))
        (apply_fairness_order (map cv_contract_id ordered) (map_of tiers) (\<lambda>_. None)))"

record tick_result =
  tr_halted :: bool
  tr_expired :: nat
  tr_started :: "started_attempt list"

text \<open>The contracts that the loop visits, in its order, with their clocks and counts.\<close>

definition prepare_pass :: "tick_env \<Rightarrow> registry \<Rightarrow> int \<Rightarrow> ((string \<times> contract_clock) list \<times> (string \<times> int \<times> bool) list \<times> contract_view list) act" where
  "prepare_pass x reg now =
     abind (aread (\<lambda>w. list_contracts None None 1000 (wo_store w))) (\<lambda>vs.
     let clocks = snd (run_tick now (map (clock_of now) (filter (\<lambda>v. cv_state v \<notin> TERMINAL_STATES) vs))) in
     abind (prescan_tiers x now vs) (\<lambda>tiers.
     abind (aread (\<lambda>w. prescan_counts x vs (wo_store w))) (\<lambda>counts.
     abind (wake_contracts x reg now vs) (\<lambda>woken.
     abind (aread (\<lambda>w. if woken then map (\<lambda>v. or_else (get_contract (wo_store w) (cv_contract_id v)) v) vs else vs)) (\<lambda>vs'.
     apure (clocks, counts, order_contracts tiers vs'))))))"

definition run_daemon_tick :: "tick_env \<Rightarrow> bool \<Rightarrow> registry \<Rightarrow> int \<Rightarrow> tick_result act" where
  "run_daemon_tick x kill_switch reg now =
     (if kill_switch then apure \<lparr>tr_halted = True, tr_expired = 0, tr_started = []\<rparr>
      else
        abind (judge_verifier_outcomes (tk_judge x) now) (\<lambda>_.
        abind (prepare_pass x reg now) (\<lambda>(clocks, counts, vs).
        abind (visit_all (visit_contract x reg now clocks counts) vs
          \<lparr>tl_ledger = \<lparr>cl_config = tk_fairness x, cl_dispatched = []\<rparr>, tl_expired = 0, tl_started = []\<rparr>) (\<lambda>l.
        apure \<lparr>tr_halted = False, tr_expired = tl_expired l, tr_started = rev (tl_started l)\<rparr>))))"

end
