(* ===== verification/Judging.thy ===== *)
theory Judging
  imports Rpc_Properties Judge
begin

text \<open>
  What the judge guarantees: a contract that it completes has a verifier's success as its newest verdict and an acceptance
  specification that the reported checks fulfil; nothing else is completed on the way.
\<close>

section \<open>Nothing else is completed\<close>

definition no_new_complete :: "store \<Rightarrow> store \<Rightarrow> bool" where
  "no_new_complete s s' \<longleftrightarrow> (\<forall>c v. get_contract s' c = Some v \<longrightarrow> cv_state v = Complete \<longrightarrow> get_contract s c = Some v)"

definition on_store :: "(store \<Rightarrow> store \<Rightarrow> bool) \<Rightarrow> world \<Rightarrow> world \<Rightarrow> bool" where
  "on_store S w w' = S (wo_store w) (wo_store w')"

interpretation uncompleted: world_frame "on_store no_new_complete"
  by unfold_locales (auto simp: on_store_def no_new_complete_def)

lemma no_new_same: "st_contracts s' = st_contracts s \<Longrightarrow> no_new_complete s s'"
  by (simp add: no_new_complete_def get_contract_def)

lemma no_new_trans: "no_new_complete s t \<Longrightarrow> no_new_complete t u \<Longrightarrow> no_new_complete s u"
  by (auto simp: no_new_complete_def)

lemma no_new_kept: "contracts_kept s s' \<Longrightarrow> no_new_complete s s'"
  unfolding no_new_complete_def contracts_kept_def by (metis contract_state.distinct(7) not_Some_eq option.inject)

lemma no_new_update:
  assumes "update_contract_state tz c s = Inr (v, s')" and "uc_state c \<noteq> Complete"
  shows "no_new_complete s s'"
  using assms(1)
proof (cases rule: update_cases)
  case (written current)
  then show ?thesis using assms(2)
    by (auto simp: no_new_complete_def wrote_contract_def get_contract_def updated_view_def)
qed (simp add: no_new_complete_def)

lemma no_new_auto_approve:
  "auto_approve_drafted_contract rp pick tz v now s = Inr (b, s') \<Longrightarrow> no_new_complete s s'"
  by (auto simp: auto_approve_drafted_contract_def promote_call_def split: if_splits sum.splits
      intro: no_new_same dest!: no_new_update)

lemma no_new_auto_create:
  assumes "auto_create_next_stage_contract x v now ev s = Inr s'"
  shows "no_new_complete s s'"
proof -
  have prepared: "no_new_complete s s1" if "handle_goal_prepare x None e now s = (r, s1)" for e r s1
    using writes_keep_contracts(3) [of x None e now] that by (metis no_new_kept keeps_def snd_conv)
  from assms show ?thesis
    by (cases rule: auto_create_cases) (auto simp: no_new_same intro: prepared no_new_trans no_new_auto_approve)
qed

lemma uncompleted_steps:
  "akeeps (on_store no_new_complete) (project x c)" "akeeps (on_store no_new_complete) (write_repair_brief x v a brief)"
  "akeeps (on_store no_new_complete) (judge_event v t payload now)"
  "st \<noteq> Complete \<Longrightarrow> akeeps (on_store no_new_complete) (acommit (update_contract_state tz (judged_update v st acc dl now)))"
  "akeeps (on_store no_new_complete) (awrite (advance_goal_after_verified_contract rp v now))"
  "akeeps (on_store no_new_complete)
     (acommit (\<lambda>s. sbind (lift_py (auto_create_next_stage_contract y v now ev s)) (\<lambda>s'. Inr ((), s'))))"
  by (simp_all add: akeeps_def on_store_def project_store brief_store judge_event_def no_new_same no_new_kept kept_advance_after)
    (auto simp: acommit_def judged_update_def lift_py_Inr sbind_eq_Inr no_new_same split: sum.split prod.split
      dest: no_new_update intro: no_new_auto_create)

lemma uncompleted_reject: "akeeps (on_store no_new_complete) (reject x v a payload reason extra now)"
  unfolding reject_def Let_def by (intro uncompleted.intros uncompleted_steps) simp_all

lemma uncompleted_pending: "akeeps (on_store no_new_complete) (record_spec_pending x v a payload verdict now)"
  unfolding record_spec_pending_def by (intro uncompleted.intros uncompleted_steps) simp_all

text \<open>What a completion rests on: the newest verdict is a success, and the specification, if there is one, is neither failed nor pending.\<close>

definition accepts :: "(json \<Rightarrow> string) \<Rightarrow> contract_view \<Rightarrow> event \<Rightarrow> bool" where
  "accepts rp v e \<longleftrightarrow> ev_type e = ATTEMPT_SUCCEEDED \<and> ev_attempt e \<noteq> None \<and>
     (case evaluate_contract_spec rp v (ev_payload e) of
        Inl err \<Rightarrow> False | Inr None \<Rightarrow> True | Inr (Some r) \<Rightarrow> sv_outcome r \<notin> {''fail'', ''pending''})"

definition first_change :: "string \<Rightarrow> store \<Rightarrow> store \<Rightarrow> bool" where
  "first_change c s s' \<longleftrightarrow> (\<forall>d v. d \<noteq> c \<longrightarrow> get_contract s' d = Some v \<longrightarrow> cv_state v = Complete \<longrightarrow> get_contract s d = Some v)"

interpretation first_change: world_frame "on_store (first_change c)" for c
proof
  show "on_store (first_change c) w w" for w by (simp add: on_store_def first_change_def)
  show "on_store (first_change c) w w''" if "on_store (first_change c) w w'" "on_store (first_change c) w' w''" for w w' w''
    using that unfolding on_store_def first_change_def by meson
qed

lemma uncompleted_first: "akeeps (on_store no_new_complete) m \<Longrightarrow> akeeps (on_store (first_change c)) m"
  unfolding akeeps_def on_store_def no_new_complete_def first_change_def by blast

lemma completes_one: "akeeps (on_store (first_change (cv_contract_id v))) (complete_contract x v a payload verdict now)"
proof -
  have "akeeps (on_store (first_change (cv_contract_id v))) (acommit (update_contract_state tz (judged_update v Complete Passed dl now)))" for tz dl
  proof (intro first_change.keeps_commit)
    fix w :: world and a s
    assume "update_contract_state tz (judged_update v Complete Passed dl now) (wo_store w) = Inr (a, s)"
    then show "on_store (first_change (cv_contract_id v)) w (w\<lparr>wo_store := s\<rparr>)"
      by (cases rule: update_cases) (auto simp: on_store_def first_change_def wrote_contract_def get_contract_def judged_update_def)
  qed
  then show ?thesis unfolding complete_contract_def
    by (intro first_change.intros uncompleted_steps(1-3,5,6) [THEN uncompleted_first])
qed

lemma judge_contract_unfold: "judge_contract x now v w = (case last_verdict v (wo_store w) of
     None \<Rightarrow> (Inr (), w)
   | Some e \<Rightarrow>
       (case ev_attempt e of
          None \<Rightarrow> (Inr (), w)
        | Some a \<Rightarrow>
            if ev_type e = ATTEMPT_SUCCEEDED then
              (if cv_acceptance_status v = Passed then (Inr (), w)
               else (case evaluate_contract_spec (jg_repr x) v (ev_payload e) of
                   Inl err \<Rightarrow> (Inl (CallError err), w)
                 | Inr None \<Rightarrow> complete_contract x v a (ev_payload e) None now w
                 | Inr (Some r) \<Rightarrow>
                     if sv_outcome r = ''fail'' then record_spec_failure x v a (ev_payload e) r now w
                     else if sv_outcome r = ''pending'' then record_spec_pending x v a (ev_payload e) r now w
                     else complete_contract x v a (ev_payload e) (Some r) now w))
            else reject x v a (ev_payload e) (''verifier rejected ('' @ [char_of (167::nat)] @ ''5.2): repair brief written to handover'') [] now w))"
  by (simp add: judge_contract_def abind_eq lift_py_def split: option.splits sum.splits)

lemma judge_contract_completes:
  assumes "judge_contract x now v w = (r, w')" and "get_contract (wo_store w') c = Some u" and "cv_state u = Complete"
    and "get_contract (wo_store w) c \<noteq> Some u"
  shows "c = cv_contract_id v \<and> (\<exists>e. last_verdict v (wo_store w) = Some e \<and> accepts (jg_repr x) v e)"
proof -
  have quiet: False if "m w = (r, w')" "akeeps (on_store no_new_complete) m" for m :: "unit act"
  proof -
    have "no_new_complete (wo_store w) (wo_store w')" using that by (metis akeeps_def on_store_def snd_conv)
    then show False using assms(2-4) by (simp add: no_new_complete_def)
  qed
  have only: "c = cv_contract_id v" if "complete_contract x v a payload verdict now w = (r, w')" for a payload verdict
  proof -
    have "first_change (cv_contract_id v) (wo_store w) (wo_store w')"
      using that completes_one [of v x a payload verdict now] by (metis akeeps_def on_store_def snd_conv)
    then show ?thesis using assms(2-4) by (auto simp: first_change_def)
  qed
  have idle: False if "w' = w" using that assms(2,4) by simp
  show ?thesis
    using assms(1) quiet [OF _ uncompleted_reject] quiet [OF _ uncompleted_pending] only idle
    by (auto simp: judge_contract_unfold accepts_def record_spec_failure_def split: option.splits if_splits sum.splits)
qed

section \<open>Completion rests on a verdict\<close>

text \<open>The step of a loop that turns a property of the world on.\<close>

lemma aeach_first:
  assumes "aeach f xs w = (r, w')" and "\<not> P w" and "P w'"
  obtains pre a post w1 r2 w2 where "xs = pre @ a # post" "aeach f pre w = (Inr (), w1)" "f a w1 = (r2, w2)" "\<not> P w1" "P w2"
  using assms
proof (induction xs arbitrary: w thesis)
  case (Cons a xs)
  obtain r1 w1 where f: "f a w = (r1, w1)" by (cases "f a w")
  show ?case
  proof (cases "P w1")
    case True
    show thesis by (rule Cons.prems(1) [of "[]" a xs w]) (use f True Cons.prems(3) in simp_all)
  next
    case False
    with Cons.prems(2,4) f have r1: "r1 = Inr ()" and rest: "aeach f xs w1 = (r, w')" by (cases r1; simp add: abind_eq)+
    obtain pre b post w2 r3 w3 where split: "xs = pre @ b # post" "aeach f pre w1 = (Inr (), w2)" "f b w2 = (r3, w3)" "\<not> P w2" "P w3"
      using Cons.IH [OF _ rest False Cons.prems(4)] by blast
    show thesis
      by (rule Cons.prems(1) [of "a # pre" b post w2 r3 w3]) (use split f r1 in \<open>simp_all add: abind_eq\<close>)
  qed
qed simp

text \<open>
  The reported checks, as a truth assignment must respect them: every check that came back with a word other than fail and pending holds. So an
  undetermined check counts as passed, as the composition of the verdict counts it.
\<close>

definition reports :: "(string \<times> string) list \<Rightarrow> (string \<Rightarrow> bool) \<Rightarrow> bool" where
  "reports res M \<longleftrightarrow> (\<forall>i t. map_of res i = Some t \<longrightarrow> t \<notin> {''fail'', ''pending''} \<longrightarrow> M i)"

definition spec_met :: "(json \<Rightarrow> string) \<Rightarrow> contract_view \<Rightarrow> event \<Rightarrow> bool" where
  "spec_met rp v e \<longleftrightarrow> (truthy (ac_spec (cd_acceptance (cv_draft v))) \<longrightarrow>
     (\<forall>M U. reports (extract_verifier_check_results (ev_payload e)) M \<longrightarrow> spec_holds rp M U (ac_spec (cd_acceptance (cv_draft v)))))"

lemma accepted_spec_met:
  assumes "accepts rp v e"
  shows "spec_met rp v e"
  unfolding spec_met_def
proof (intro impI allI)
  fix M U
  let ?spec = "ac_spec (cd_acceptance (cv_draft v))" and ?res = "extract_verifier_check_results (ev_payload e)"
  assume t: "truthy ?spec" and m: "reports ?res M"
  from assms t obtain r where r: "evaluate_stage_acceptance rp ?spec ?res = Inr r" "sv_outcome r \<notin> {''fail'', ''pending''}"
    by (cases "evaluate_stage_acceptance rp ?spec ?res") (simp_all add: accepts_def evaluate_contract_spec_def)
  then have out: "stage_outcome rp ?spec ?res \<notin> {''fail'', ''pending''}"
    by (auto simp: evaluate_stage_acceptance_def stage_outcome_def split: if_splits)
  have "lenient (stage_outcome rp ?spec ?res) (spec_holds rp M U ?spec)"
    by (rule lenient_outcome) (use m in \<open>simp add: reports_def\<close>)
  with out show "spec_holds rp M U ?spec" by (simp add: lenient_def)
qed

text \<open>C14: whatever the judge completes was active when it started, and has a success of a verifier, for its revision or for none,
as its newest verdict; and if it has an acceptance specification, the specification holds once every check that the verifier reported with a word
other than fail and pending is taken to hold, whatever the failed and pending checks and the user would still turn out to be. A check that came back
undetermined thereby counts as passed: the judge does not ask for more.\<close>

theorem judge_completes_on_verdict:
  assumes "judge_verifier_outcomes x now w = (r, w')" and "get_contract (wo_store w') c = Some u" and "cv_state u = Complete"
    and "get_contract (wo_store w) c \<noteq> Some u"
  shows "\<exists>pre v post w1 e. filter (\<lambda>v. cv_state v = Active) (list_contracts None None 1000 (wo_store w)) = pre @ v # post \<and>
    aeach (judge_contract x now) pre w = (Inr (), w1) \<and> cv_contract_id v = c \<and> last_verdict v (wo_store w1) = Some e \<and>
    ev_type e = ATTEMPT_SUCCEEDED \<and> spec_met (jg_repr x) v e"
proof -
  let ?vs = "filter (\<lambda>v. cv_state v = Active) (list_contracts None None 1000 (wo_store w))"
  have "aeach (judge_contract x now) ?vs w = (r, w')" using assms(1) by (simp add: judge_verifier_outcomes_def)
  then obtain pre v post w1 r2 w2 where split: "?vs = pre @ v # post" "aeach (judge_contract x now) pre w = (Inr (), w1)"
    and step: "judge_contract x now v w1 = (r2, w2)" "get_contract (wo_store w1) c \<noteq> Some u" "get_contract (wo_store w2) c = Some u"
    by (rule aeach_first [where P = "\<lambda>w. get_contract (wo_store w) c = Some u"]) (use assms(2,4) in auto)
  from judge_contract_completes [OF step(1) step(3) assms(3) step(2)]
  obtain e where e: "cv_contract_id v = c" "last_verdict v (wo_store w1) = Some e" "accepts (jg_repr x) v e" by blast
  then have "ev_type e = ATTEMPT_SUCCEEDED" by (simp add: accepts_def)
  with split e accepted_spec_met [OF e(3)] show ?thesis by blast
qed

text \<open>A change of state that is legal goes through.\<close>

lemma update_runs:
  assumes "history_ok s" and "get_contract s (uc_contract c) = Some v" and "uc_expected c = None" and "uc_request c = None"
    and "cv_state v = uc_state c \<or> is_valid_transition (cv_state v) (uc_state c)"
  obtains s' where "update_contract_state tz c s = Inr (updated_view c v, s')" "st_goals s' = st_goals s"
    "get_contract s' (uc_contract c) = Some (updated_view c v)" "history_ok s'"
proof -
  obtain s' where s': "apply_update tz c v s = Inr (updated_view c v, s')" using apply_update_total [OF assms(1,2)] by blast
  moreover have u: "update_contract_state tz c s = apply_update tz c v s"
    using assms by (auto simp: update_fresh assert_legal_contract_transition_def)
  ultimately show thesis
    using apply_update_Inr [OF s'] history_ok_step [OF step_update [of tz c s] assms(1)]
    by (intro that [of s']) (auto simp: wrote_contract_def get_contract_def)
qed

definition sample_judge_env :: judge_env where
  "sample_judge_env = \<lparr>jg_rpc = sample_rpc_env, jg_files = sample_file_env, jg_failed_check = ''fix: '', jg_failed_default = ''fix'',
     jg_note = ''note: '', jg_repair_action = ''repair''\<rparr>"

text \<open>An active contract whose verifier has reported.\<close>

definition verdict_event_call :: "event_type \<Rightarrow> new_event" where
  "verdict_event_call t = (event_call (Some ''c1'') t [] 4)\<lparr>ne_role := Some ''verifier'', ne_attempt := Some ''v1''\<rparr>"

definition judged_store :: "event_type \<Rightarrow> store" where
  "judged_store t = snd (log_event (verdict_event_call t) candidate_store)"

lemma judged_facts:
  "get_contract (judged_store t) ''c1'' = Some candidate_view" "history_ok (judged_store t)" "st_goals (judged_store t) = st_goals sample_store"
  "list_contracts None None 1000 (judged_store t) = [candidate_view]"
proof -
  have c: "st_contracts candidate_store = [(''c1'', candidate_view)]"
    using candidate_written(1) by (simp add: wrote_contract_def sample_store_def save_eval)
  then show "get_contract (judged_store t) ''c1'' = Some candidate_view" "list_contracts None None 1000 (judged_store t) = [candidate_view]"
    by (simp_all add: judged_store_def get_contract_def list_contracts_def sql_limit_def)
  show "history_ok (judged_store t)" "st_goals (judged_store t) = st_goals sample_store"
    using history_ok_log [OF history_ok_step [OF step_update [OF candidate_saved] sample_history]] candidate_written(2)
    unfolding judged_store_def by simp_all
qed

lemma judged_verdict:
  assumes "t \<in> {ATTEMPT_SUCCEEDED, ATTEMPT_FAILED}"
  shows "last_verdict candidate_view (judged_store t) = Some (stored_event (el_next (st_log candidate_store)) (verdict_event_call t))"
proof -
  have "cv_contract_id candidate_view = ''c1''" by (simp add: candidate_view_def updated_view_def sample_view_def)
  then show ?thesis using assms
    by (simp add: last_verdict_def judged_store_def get_events_def verdict_event_def verifier_event_def stored_event_def verdict_event_call_def event_call_def)
qed
text \<open>The judge on that contract.\<close>

lemma sample_project:
  assumes "get_contract (wo_store w) c = Some v"
  shows "\<exists>fs. project sample_judge_env c w = (Inr (), w\<lparr>wo_files := fs\<rparr>)"
  using assms by (simp add: project_def rebuild_projection_def Let_def) blast

lemma judge_completes:
  assumes list: "list_contracts None None 1000 s = [v]" "cv_state v = Active" "get_contract s ''c1'' = Some v" "cv_contract_id v = ''c1''"
    and sound: "history_ok s" "st_goals s = st_goals sample_store" "cv_goal_id v = ''c1''"
    and verdict: "last_verdict v s = Some e" "ev_attempt e = Some a" "ev_type e = ATTEMPT_SUCCEEDED" "cv_acceptance_status v \<noteq> Passed"
    and accepted: "evaluate_contract_spec (jg_repr sample_judge_env) v (ev_payload e) = Inr r" "r = None \<or> sv_outcome (the r) \<notin> {''fail'', ''pending''}"
    and met: "deadline_verdict 5 (cv_draft v) = Inr d"
  shows "\<exists>w' u. judge_verifier_outcomes sample_judge_env 5 \<lparr>wo_store = s, wo_files = []\<rparr> = (Inr (), w') \<and>
     get_contract (wo_store w') ''c1'' = Some u \<and> cv_state u = Complete"
proof -
  let ?n = "(event_call (Some ''c1'') CONTRACT_COMPLETED (with_verdict r (report_payload a (ev_payload e))) 5)\<lparr>ne_actor := ''verifier''\<rparr>"
  let ?c = "judged_update v Complete Passed (Some d) 5"
  have g: "get_contract (snd (log_event ?n s)) (uc_contract ?c) = Some v" "st_goals (snd (log_event ?n s)) = st_goals sample_store"
    using list(3) sound(2) by (simp_all add: get_contract_def judged_update_def list(4))
  obtain s2 where s2: "update_contract_state (rx_zone sample_rpc_env) ?c (snd (log_event ?n s)) = Inr (updated_view ?c v, s2)"
    "st_goals s2 = st_goals (snd (log_event ?n s))" "get_contract s2 (uc_contract ?c) = Some (updated_view ?c v)"
    by (rule update_runs [OF history_ok_log [OF sound(1)] g(1)])
      (simp_all add: judged_update_def contract_table list(2))
  have s2c: "get_contract s2 ''c1'' = Some (updated_view ?c v)" using s2(3) by (simp add: judged_update_def list(4))
  then obtain fs where fs: "project sample_judge_env ''c1'' \<lparr>wo_store = s2, wo_files = []\<rparr> = (Inr (), \<lparr>wo_store = s2, wo_files = fs\<rparr>)"
    using sample_project [of "\<lparr>wo_store = s2, wo_files = []\<rparr>" "''c1''"] by auto
  have goal: "advance_goal_after_verified_contract rp v 5 s2 = s2" "auto_create_next_stage_contract y v 5 ev s2 = Inr s2" for rp y ev
    using planless_goal [of s2 v] s2(2) g(2) sound(3) by simp_all
  have "complete_contract sample_judge_env v a (ev_payload e) r 5 \<lparr>wo_store = s, wo_files = []\<rparr> =
      (Inr (), \<lparr>wo_store = s2, wo_files = fs\<rparr>)"
    using s2(1) fs goal met list(4)
    by (simp add: complete_contract_def abind_eq judge_event_def acommit_def sample_judge_env_def lift_py_def del: log_event_simps)
  then have "judge_verifier_outcomes sample_judge_env 5 \<lparr>wo_store = s, wo_files = []\<rparr> = (Inr (), \<lparr>wo_store = s2, wo_files = fs\<rparr>)"
    using accepted by (auto simp: judge_verifier_outcomes_def list judge_contract_unfold verdict abind_eq split: option.splits)
  then show ?thesis using s2c by (auto simp: updated_view_def judged_update_def)
qed

text \<open>An active contract with an acceptance specification of one file, whose verifier reported the file present.\<close>

definition spec_draft :: contract_draft where
  "spec_draft = sample_contract_draft\<lparr>cd_acceptance := (cd_acceptance sample_contract_draft)
     \<lparr>ac_spec := JObj [(''all'', JList [sample_leaf ''file-exists'' ''a''])]\<rparr>\<rparr>"

definition spec_view :: contract_view where
  "spec_view = sample_view\<lparr>cv_draft := spec_draft, cv_state := Active\<rparr>"

definition spec_store :: store where
  "spec_store = snd (projr (save_contract unary_host (sample_save\<lparr>sv_draft := spec_draft, sv_state := Active\<rparr>) empty_store))"

definition spec_report :: new_event where
  "spec_report = (event_call (Some ''c1'') ATTEMPT_SUCCEEDED [(''checks'', JObj [(''file-exists:a'', JStr ''pass'')])] 4)
     \<lparr>ne_role := Some ''verifier'', ne_attempt := Some ''v1''\<rparr>"

definition spec_world :: world where
  "spec_world = \<lparr>wo_store = snd (log_event spec_report spec_store), wo_files = []\<rparr>"

lemma spec_saved: "save_contract unary_host (sample_save\<lparr>sv_draft := spec_draft, sv_state := Active\<rparr>) empty_store = Inr (spec_view, spec_store)"
  by (simp add: spec_store_def save_eval spec_view_def sample_view_def)

lemma spec_facts:
  "get_contract (wo_store spec_world) ''c1'' = Some spec_view" "history_ok (wo_store spec_world)"
  "st_goals (wo_store spec_world) = st_goals sample_store" "list_contracts None None 1000 (wo_store spec_world) = [spec_view]"
  "last_verdict spec_view (wo_store spec_world) = Some (stored_event (el_next (st_log spec_store)) spec_report)"
proof -
  have c: "st_contracts spec_store = [(''c1'', spec_view)]" "st_goals spec_store = st_goals sample_store"
    by (simp_all add: spec_store_def sample_store_def save_eval spec_view_def sample_view_def spec_draft_def)
  then show "get_contract (wo_store spec_world) ''c1'' = Some spec_view" "list_contracts None None 1000 (wo_store spec_world) = [spec_view]"
    "st_goals (wo_store spec_world) = st_goals sample_store"
    by (simp_all add: spec_world_def get_contract_def list_contracts_def sql_limit_def)
  have "history_ok spec_store" by (rule history_ok_step [OF step_save [OF spec_saved] history_ok_empty])
  then show "history_ok (wo_store spec_world)" unfolding spec_world_def by (simp add: history_ok_log del: log_event_simps)
  have "cv_contract_id spec_view = ''c1''" by (simp add: spec_view_def sample_view_def)
  then show "last_verdict spec_view (wo_store spec_world) = Some (stored_event (el_next (st_log spec_store)) spec_report)"
    by (simp add: last_verdict_def spec_world_def get_events_def verdict_event_def verifier_event_def stored_event_def spec_report_def event_call_def)
qed

lemma spec_accepted:
  "\<exists>r. evaluate_contract_spec (jg_repr sample_judge_env) spec_view (ev_payload (stored_event k spec_report)) = Inr (Some r) \<and> sv_outcome r = ''pass''"
proof -
  let ?spec = "JObj [(''all'', JList [sample_leaf ''file-exists'' ''a''])]"
  have p: "extract_verifier_check_results (ev_payload (stored_event k spec_report)) = [(''file-exists'' @ '':'' @ ''a'', ''pass'')]"
    by (simp add: extract_verifier_check_results_def stored_event_def spec_report_def event_call_def dict_get_def check_entries_def)
  have "stage_outcome (jg_repr sample_judge_env) ?spec [(''file-exists'' @ '':'' @ ''a'', ''pass'')] = ''pass''"
    using unknown_outcome_passes [of "''pass''" "''file-exists''" "''a''" "jg_repr sample_judge_env"] by (simp add: is_blank_iff is_space_def)
  then have "sv_outcome (compose_verdict (jg_repr sample_judge_env) ?spec (evaluate_machine_checks (jg_repr sample_judge_env) ?spec
      [(''file-exists'' @ '':'' @ ''a'', ''pass'')])) = ''pass''" by (simp only: stage_outcome_def)
  moreover have "evaluate_stage_acceptance (jg_repr sample_judge_env) ?spec res = Inr (compose_verdict (jg_repr sample_judge_env) ?spec
      (evaluate_machine_checks (jg_repr sample_judge_env) ?spec res))" for res by (simp add: evaluate_stage_acceptance_def)
  moreover have "ac_spec (cd_acceptance (cv_draft spec_view)) = ?spec" by (simp add: spec_view_def spec_draft_def)
  ultimately show ?thesis unfolding evaluate_contract_spec_def p Let_def by simp
qed

lemma spec_completed:
  "\<exists>w' u. judge_verifier_outcomes sample_judge_env 5 spec_world = (Inr (), w') \<and> get_contract (wo_store w') ''c1'' = Some u \<and> cv_state u = Complete"
proof -
  obtain r where r: "evaluate_contract_spec (jg_repr sample_judge_env) spec_view (ev_payload (stored_event (el_next (st_log spec_store)) spec_report)) = Inr (Some r)"
    "sv_outcome r = ''pass''" using spec_accepted by blast
  have v: "cv_state spec_view = Active" "cv_contract_id spec_view = ''c1''" "cv_goal_id spec_view = ''c1''" "cv_acceptance_status spec_view \<noteq> Passed"
    by (simp_all add: spec_view_def sample_view_def)
  have e: "ev_attempt (stored_event k spec_report) = Some ''v1''" "ev_type (stored_event k spec_report) = ATTEMPT_SUCCEEDED" for k
    by (simp_all add: stored_event_def spec_report_def event_call_def)
  have d: "deadline_verdict 5 (cv_draft spec_view) = Inr Missed" by (simp add: deadline_verdict_def spec_view_def spec_draft_def sample_contract_draft_def)
  have "spec_world = \<lparr>wo_store = wo_store spec_world, wo_files = []\<rparr>" by (simp add: spec_world_def)
  then show ?thesis
    using judge_completes [OF spec_facts(4) v(1) spec_facts(1) v(2) spec_facts(2,3) v(3) spec_facts(5) e(1,2) v(4) r(1) _ d] r(2) by simp
qed

theorem judge_completes_on_verdict_witness:
  "\<exists>w' u. judge_verifier_outcomes sample_judge_env 5 spec_world = (Inr (), w') \<and> get_contract (wo_store w') ''c1'' = Some u \<and> cv_state u = Complete \<and>
     truthy (ac_spec (cd_acceptance (cv_draft spec_view))) \<and> spec_met (jg_repr sample_judge_env) spec_view (stored_event (el_next (st_log spec_store)) spec_report)"
proof -
  obtain w' u where run: "judge_verifier_outcomes sample_judge_env 5 spec_world = (Inr (), w')"
    "get_contract (wo_store w') ''c1'' = Some u" "cv_state u = Complete" using spec_completed by blast
  have "cv_state spec_view = Active" by (simp add: spec_view_def)
  then have n: "get_contract (wo_store spec_world) ''c1'' \<noteq> Some u" using run(3) spec_facts(1) by auto
  have l: "filter (\<lambda>v. cv_state v = Active) (list_contracts None None 1000 (wo_store spec_world)) = [spec_view]"
    using \<open>cv_state spec_view = Active\<close> by (simp add: spec_facts(4))
  from judge_completes_on_verdict [OF run n] obtain pre v post w1 e where j: "[spec_view] = pre @ v # post"
    "aeach (judge_contract sample_judge_env 5) pre spec_world = (Inr (), w1)" "last_verdict v (wo_store w1) = Some e"
    "spec_met (jg_repr sample_judge_env) v e" unfolding l by blast
  then have "v = spec_view" "w1 = spec_world" by (auto simp: Cons_eq_append_conv apure_def)
  then have "spec_met (jg_repr sample_judge_env) spec_view (stored_event (el_next (st_log spec_store)) spec_report)"
    using j(3,4) by (simp add: spec_facts(5))
  then show ?thesis using run by (auto simp: spec_view_def spec_draft_def)
qed

section \<open>A rejection\<close>

lemma reject_parts:
  assumes "reject x v a payload reason extra now w = (Inr (), w')"
  obtains u n s2 names where
    "update_contract_state (rx_zone (jg_rpc x)) (judged_update v Active AcceptanceFailed None now) (snd (log_event n (wo_store w))) = Inr (u, s2)"
    "ne_type n = CONTRACT_BLOCKED" "wo_store w' = s2"
    "rebuild_projection (jg_files x) (cv_contract_id v) s2 (write_file (cv_contract_id v) (''handover.md'',
        format_markdown (h_repr (fe_host (jg_files x))) (repair_handover x v a (repair_brief_from (jg_repr x) payload) (wo_files w))) (wo_files w))
      = Inr (names, wo_files w')"
proof -
  let ?p = "report_payload a payload @
      [(''reason'', JStr reason), (''repair_brief'', repair_brief_to_dict (repair_brief_from (jg_repr x) payload))] @ extra"
  define n where "n = (event_call (Some (cv_contract_id v)) CONTRACT_BLOCKED ?p now)\<lparr>ne_actor := ''verifier''\<rparr>"
  then have n: "judge_event v CONTRACT_BLOCKED ?p now = awrite (\<lambda>s. snd (log_event n s))" "ne_type n = CONTRACT_BLOCKED"
    by (simp_all only: judge_event_def) (simp add: event_call_def)
  show thesis
    using assms n(2)
    unfolding reject_def Let_def n(1)
    by (auto simp: abind_eq write_repair_brief_def acommit_def project_def simp del: log_event_simps
        split: sum.splits prod.splits intro!: that [of n])
qed

text \<open>An item on a line of its own in a file of markdown.\<close>

definition item_line :: "string \<Rightarrow> string \<Rightarrow> bool" where
  "item_line doc i \<longleftrightarrow> (\<exists>p q. doc = p @ [LF] @ ''- '' @ i @ [LF] @ q)"

lemma item_line_intro: "doc = p @ f @ q \<Longrightarrow> item_line f i \<Longrightarrow> item_line doc i"
  unfolding item_line_def by (metis append_assoc)

lemma join_cons: "join sep (x # xs) = x @ concat (map (\<lambda>q. sep @ q) xs)"
  by (simp add: join_def)

lemma concat_item: "i \<in> set xs \<Longrightarrow> item_line (concat (map (\<lambda>q. [LF] @ ''- '' @ q) xs) @ [LF]) i"
proof (induction xs)
  case (Cons x xs)
  show ?case
  proof (cases "i = x")
    case True
    have "\<exists>r. concat (map (\<lambda>q. [LF] @ ''- '' @ q) xs) @ [LF] = [LF] @ r" by (cases xs) auto
    then obtain r where r: "concat (map (\<lambda>q. [LF] @ ''- '' @ q) xs) @ [LF] = [LF] @ r" by blast
    have "concat (map (\<lambda>q. [LF] @ ''- '' @ q) (x # xs)) @ [LF] = [] @ [LF] @ ''- '' @ x @ (concat (map (\<lambda>q. [LF] @ ''- '' @ q) xs) @ [LF])"
      by simp
    with r True show ?thesis unfolding item_line_def by metis
  next
    case False
    then have "item_line (concat (map (\<lambda>q. [LF] @ ''- '' @ q) xs) @ [LF]) i" using Cons by simp
    then show ?thesis by (rule item_line_intro [rotated, of _ _ _ "[LF] @ ''- '' @ x" "[]"]) simp
  qed
qed simp

lemma section_item:
  assumes "i \<in> set items"
  shows "item_line (section_text name (format_markdown_list items)) i"
proof -
  from assms obtain x xs where x: "items = x # xs" by (cases items) auto
  have "section_text name (format_markdown_list items) = (''## '' @ name) @ (concat (map (\<lambda>q. [LF] @ ''- '' @ q) items) @ [LF]) @ []"
    by (simp add: section_text_def format_markdown_list_def x join_cons map_map comp_def)
  then show ?thesis by (rule item_line_intro) (rule concat_item [OF assms])
qed

lemma handover_items:
  "i \<in> set (ho_completed d) \<Longrightarrow> item_line (format_markdown rp d) i"
  "i \<in> set (ho_remaining d) \<Longrightarrow> item_line (format_markdown rp d) i"
  "i \<in> set (ho_risks d) \<Longrightarrow> item_line (format_markdown rp d) i"
proof -
  let ?single = "''# Handover State'' @ [LF, LF] @ section_text ''current_stage'' (strip (ho_stage d)) @ [LF] @
     section_text ''source_attempt_id'' (strip (ho_source d)) @ [LF] @
     section_text ''estimate_remaining_hours'' (rp (JFloat (ho_hours d))) @ [LF] @
     section_text ''next_action'' (strip (ho_next_action d)) @ [LF] @ section_text ''constraints_digest'' (strip (ho_digest d)) @ [LF]"
  let ?c = "section_text ''completed_evidence'' (format_markdown_list (ho_completed d))"
  let ?r = "section_text ''remaining'' (format_markdown_list (ho_remaining d))"
  let ?k = "section_text ''open_risks'' (format_markdown_list (ho_risks d))"
  have f: "format_markdown rp d = ?single @ ?c @ ([LF] @ ?r @ [LF] @ ?k)" "format_markdown rp d = (?single @ ?c @ [LF]) @ ?r @ ([LF] @ ?k)"
    "format_markdown rp d = (?single @ ?c @ [LF] @ ?r @ [LF]) @ ?k @ []" by (simp_all add: format_markdown_def)
  show "i \<in> set (ho_completed d) \<Longrightarrow> item_line (format_markdown rp d) i"
    by (rule item_line_intro [OF f(1)]) (rule section_item)
  show "i \<in> set (ho_remaining d) \<Longrightarrow> item_line (format_markdown rp d) i"
    by (rule item_line_intro [OF f(2)]) (rule section_item)
  show "i \<in> set (ho_risks d) \<Longrightarrow> item_line (format_markdown rp d) i"
    by (rule item_line_intro [OF f(3)]) (rule section_item)
qed

lemma remaining_reported:
  assumes "d = repair_handover x v a (repair_brief_from (jg_repr x) payload) files"
  shows "(\<forall>cs y. dict_get payload ''failed_checks'' = JList cs \<longrightarrow> y \<in> set cs \<longrightarrow> (jg_failed_check x @ py_str (jg_repr x) y) \<in> set (ho_remaining d)) \<and>
    ((\<forall>cs. dict_get payload ''failed_checks'' = JList cs \<longrightarrow> cs = []) \<longrightarrow>
      (\<forall>ds y. dict_get payload ''fail_reasons'' = JList ds \<longrightarrow> y \<in> set ds \<longrightarrow> (jg_failed_check x @ py_str (jg_repr x) y) \<in> set (ho_remaining d)) \<and>
      ((\<forall>ds. dict_get payload ''fail_reasons'' = JList ds \<longrightarrow> ds = []) \<longrightarrow> (jg_failed_default x) \<in> set (ho_remaining d)))"
  unfolding assms by (auto simp: repair_handover_def repair_brief_from_def Let_def split: json.splits)

text \<open>C26: a rejection by the verifier leaves the contract active, one revision later, with its acceptance failed; and the handover of the next attempt,
which the rebuild of the files does not overwrite, has a line for every entry of the report's failed checks (of its reasons of failure if it lists no
check), lines for the reason and the error output of the report, and still every completed item of the handover before; where the report lists neither
checks nor reasons, one general line stands for them (as long as nothing under \<open>src\<close> writes these two keys, that is the line which is read).\<close>

theorem rejection_reaches_the_next_attempt:
  assumes "reject x v a payload reason extra now w = (Inr (), w')" and "get_contract (wo_store w) (cv_contract_id v) = Some current"
  shows "\<exists>u doc. get_contract (wo_store w') (cv_contract_id v) = Some u \<and> cv_state u = Active \<and> cv_acceptance_status u = AcceptanceFailed \<and>
      cv_revision u = cv_revision current + 1 \<and> cv_draft u = cv_draft current \<and>
      (cv_state current = Active \<or> is_valid_transition (cv_state current) Active) \<and>
    map_of (wo_files w') (cv_contract_id v, ''handover.md'') = Some doc \<and>
    (\<forall>cs y. dict_get payload ''failed_checks'' = JList cs \<longrightarrow> y \<in> set cs \<longrightarrow> item_line doc (jg_failed_check x @ py_str (jg_repr x) y)) \<and>
    ((\<forall>cs. dict_get payload ''failed_checks'' = JList cs \<longrightarrow> cs = []) \<longrightarrow>
      (\<forall>ds y. dict_get payload ''fail_reasons'' = JList ds \<longrightarrow> y \<in> set ds \<longrightarrow> item_line doc (jg_failed_check x @ py_str (jg_repr x) y)) \<and>
      ((\<forall>ds. dict_get payload ''fail_reasons'' = JList ds \<longrightarrow> ds = []) \<longrightarrow> item_line doc (jg_failed_default x))) \<and>
    (\<forall>k \<in> {''reason'', ''stderr''}. truthy (dict_get payload k) \<longrightarrow> item_line doc (jg_note x @ py_str (jg_repr x) (dict_get payload k))) \<and>
    (\<forall>t d i. map_of (wo_files w) (cv_contract_id v, ''handover.md'') = Some t \<longrightarrow>
       fst (parse_handover_markdown (fe_host (jg_files x)) t) = Some d \<longrightarrow> i \<in> set (ho_completed d) \<longrightarrow> item_line doc i)"
proof -
  let ?d = "repair_handover x v a (repair_brief_from (jg_repr x) payload) (wo_files w)"
  define doc where "doc = format_markdown (h_repr (fe_host (jg_files x))) ?d"
  obtain u n s2 names where up: "update_contract_state (rx_zone (jg_rpc x)) (judged_update v Active AcceptanceFailed None now)
      (snd (log_event n (wo_store w))) = Inr (u, s2)" and s2: "wo_store w' = s2"
    and files: "rebuild_projection (jg_files x) (cv_contract_id v) s2 (write_file (cv_contract_id v) (''handover.md'', doc) (wo_files w))
      = Inr (names, wo_files w')"
    using assms(1) unfolding doc_def by (rule reject_parts)
  have s1: "get_contract (snd (log_event n (wo_store w))) (cv_contract_id v) = Some current" using assms(2) by (simp add: get_contract_def)
  from up have "get_contract s2 (cv_contract_id v) = Some u \<and> u = updated_view (judged_update v Active AcceptanceFailed None now) current \<and>
      (cv_state current = Active \<or> is_valid_transition (cv_state current) Active)"
    by (cases rule: update_cases) (use s1 in \<open>auto simp: judged_update_def wrote_contract_def get_contract_def\<close>)
  then have "get_contract (wo_store w') (cv_contract_id v) = Some u \<and> cv_state u = Active \<and> cv_acceptance_status u = AcceptanceFailed \<and>
      cv_revision u = cv_revision current + 1 \<and> cv_draft u = cv_draft current \<and>
      (cv_state current = Active \<or> is_valid_transition (cv_state current) Active)"
    using s2 by (auto simp: updated_view_def judged_update_def or_else_def)
  moreover have "map_of (wo_files w') (cv_contract_id v, ''handover.md'') = Some doc"
    using hand_written_kept [OF files, of "cv_contract_id v" "''handover.md''"] by (simp add: write_file_def)
  moreover have "(\<forall>cs y. dict_get payload ''failed_checks'' = JList cs \<longrightarrow> y \<in> set cs \<longrightarrow> item_line doc (jg_failed_check x @ py_str (jg_repr x) y)) \<and>
    ((\<forall>cs. dict_get payload ''failed_checks'' = JList cs \<longrightarrow> cs = []) \<longrightarrow>
      (\<forall>ds y. dict_get payload ''fail_reasons'' = JList ds \<longrightarrow> y \<in> set ds \<longrightarrow> item_line doc (jg_failed_check x @ py_str (jg_repr x) y)) \<and>
      ((\<forall>ds. dict_get payload ''fail_reasons'' = JList ds \<longrightarrow> ds = []) \<longrightarrow> item_line doc (jg_failed_default x)))"
    using remaining_reported [of ?d x v a payload "wo_files w", OF refl] handover_items(2) [of _ ?d] unfolding doc_def by blast
  moreover have "\<forall>k \<in> {''reason'', ''stderr''}. truthy (dict_get payload k) \<longrightarrow> item_line doc (jg_note x @ py_str (jg_repr x) (dict_get payload k))"
    unfolding doc_def by (auto intro!: handover_items(3) simp: repair_handover_def repair_brief_from_def Let_def)
  moreover have "item_line doc i" if "map_of (wo_files w) (cv_contract_id v, ''handover.md'') = Some t"
    "fst (parse_handover_markdown (fe_host (jg_files x)) t) = Some d" "i \<in> set (ho_completed d)" for t d i
    unfolding doc_def by (rule handover_items(1)) (use that in \<open>simp add: repair_handover_def Let_def\<close>)
  ultimately show ?thesis by blast
qed

lemma sample_reject_runs:
  "\<exists>w'. reject sample_judge_env candidate_view ''v1'' payload reason extra 5 \<lparr>wo_store = judged_store t, wo_files = fs\<rparr> = (Inr (), w')"
proof -
  let ?c = "judged_update candidate_view Active AcceptanceFailed None 5"
  have i: "cv_contract_id candidate_view = ''c1''" by (simp add: candidate_view_def updated_view_def sample_view_def)
  have g: "get_contract (snd (log_event n (judged_store t))) (uc_contract ?c) = Some candidate_view" for n
    using judged_facts(1) by (simp add: get_contract_def judged_update_def i)
  have "\<exists>s2. update_contract_state (rx_zone sample_rpc_env) ?c (snd (log_event n (judged_store t))) = Inr (updated_view ?c candidate_view, s2) \<and>
      get_contract s2 ''c1'' = Some (updated_view ?c candidate_view)" for n
  proof (rule update_runs [OF history_ok_log [OF judged_facts(2)] g])
    fix s2 assume "update_contract_state (rx_zone sample_rpc_env) ?c (snd (log_event n (judged_store t))) = Inr (updated_view ?c candidate_view, s2)"
      "get_contract s2 (uc_contract ?c) = Some (updated_view ?c candidate_view)"
    then show ?thesis by (auto simp: judged_update_def i)
  qed (simp_all add: judged_update_def)
  then obtain s2 where s2: "\<And>n. update_contract_state (rx_zone sample_rpc_env) ?c (snd (log_event n (judged_store t))) =
      Inr (updated_view ?c candidate_view, s2 n)" "\<And>n. get_contract (s2 n) ''c1'' = Some (updated_view ?c candidate_view)" by metis
  have "\<exists>gs. project sample_judge_env ''c1'' \<lparr>wo_store = s2 n, wo_files = hs\<rparr> = (Inr (), \<lparr>wo_store = s2 n, wo_files = gs\<rparr>)" for n hs
    using sample_project [of "\<lparr>wo_store = s2 n, wo_files = hs\<rparr>" "''c1''"] s2(2) by auto
  then obtain gs where "\<And>n hs. project sample_judge_env ''c1'' \<lparr>wo_store = s2 n, wo_files = hs\<rparr> = (Inr (), \<lparr>wo_store = s2 n, wo_files = gs n hs\<rparr>)"
    by metis
  moreover have "jg_rpc sample_judge_env = sample_rpc_env" by (simp add: sample_judge_env_def)
  ultimately show ?thesis
    using s2(1) i
    by (simp add: reject_def Let_def abind_eq write_repair_brief_def judge_event_def acommit_def del: log_event_simps)
qed

theorem rejection_reaches_the_next_attempt_witness:
  "\<exists>w' u doc. reject sample_judge_env candidate_view ''v1'' [(''failed_checks'', JList [JStr ''t'']), (''reason'', JStr ''late'')] ''r'' [] 5
       \<lparr>wo_store = judged_store ATTEMPT_FAILED, wo_files = []\<rparr> = (Inr (), w') \<and>
     get_contract (wo_store w') ''c1'' = Some u \<and> cv_state u = Active \<and> cv_acceptance_status u = AcceptanceFailed \<and> cv_revision u = 3 \<and>
     map_of (wo_files w') (''c1'', ''handover.md'') = Some doc \<and> item_line doc ''fix: t'' \<and> item_line doc ''note: late''"
proof -
  have i: "cv_contract_id candidate_view = ''c1''" by (simp add: candidate_view_def updated_view_def sample_view_def)
  obtain w' where w': "reject sample_judge_env candidate_view ''v1'' [(''failed_checks'', JList [JStr ''t'']), (''reason'', JStr ''late'')] ''r'' [] 5
      \<lparr>wo_store = judged_store ATTEMPT_FAILED, wo_files = []\<rparr> = (Inr (), w')" using sample_reject_runs by blast
  have e: "jg_failed_check sample_judge_env = ''fix: ''" "jg_note sample_judge_env = ''note: ''" by (simp_all add: sample_judge_env_def)
  from rejection_reaches_the_next_attempt [OF w', of candidate_view] judged_facts(1) i w' show ?thesis
    by (auto simp: dict_get_def e)
qed

text \<open>
  A verdict that names no revision (the write-back of a verifier leaves the column empty) is the newest verdict of every later
  revision too: each pass of the judge rejects the contract again, one revision further.
\<close>

lemma find_append: "find P (xs @ ys) = (case find P xs of None \<Rightarrow> find P ys | Some e \<Rightarrow> Some e)"
  by (induction xs) auto

lemma restamp_verdicts:
  "find (verdict_event v) (rev (get_events (Some i) None [] None (st_log (restamp_plan_approvals c r s)))) =
   find (verdict_event v) (rev (get_events (Some i) None [] None (st_log s)))"
proof -
  define f where "f = (\<lambda>e :: event. if ev_contract e = Some c \<and> ev_type e = PLAN_APPROVED \<and> (case ev_revision e of None \<Rightarrow> False | Some q \<Rightarrow> q < r)
     then e\<lparr>ev_revision := Some r\<rparr> else e)"
  have same: "ev_contract (f e) = ev_contract e" "ev_type e = PLAN_APPROVED \<Longrightarrow> \<not> verdict_event v (f e) \<and> \<not> verdict_event v e"
    "ev_type e \<noteq> PLAN_APPROVED \<Longrightarrow> f e = e" for e
    by (auto simp: f_def verdict_event_def PLAN_APPROVED_def ATTEMPT_SUCCEEDED_def ATTEMPT_FAILED_def)
  have "find (verdict_event v) (rev (filter (\<lambda>e. ev_contract e = Some i) (map f es))) =
    find (verdict_event v) (rev (filter (\<lambda>e. ev_contract e = Some i) es))" for es
  proof (induction es)
    case (Cons e es)
    then show ?case using same [of e] by (cases "ev_type e = PLAN_APPROVED") (simp_all add: find_append split: option.split)
  qed simp
  then show ?thesis by (simp add: get_events_def restamp_plan_approvals_def f_def)
qed

lemma unbound_verdict_is_judged_again:
  assumes "reject x v a payload reason extra now w = (Inr (), w')" and "get_contract (wo_store w) (cv_contract_id v) = Some v"
    and "find verifier_event (rev (get_events (Some (cv_contract_id v)) None [] None (st_log (wo_store w)))) = Some e"
    and "ev_revision e = None" and "ev_type e = ATTEMPT_FAILED"
  shows "\<exists>u. get_contract (wo_store w') (cv_contract_id v) = Some u \<and> cv_revision u = cv_revision v + 1 \<and> last_verdict u (wo_store w') = Some e"
proof -
  let ?i = "cv_contract_id v" and ?c = "judged_update v Active AcceptanceFailed None now"
  obtain u n s2 names where up: "update_contract_state (rx_zone (jg_rpc x)) ?c (snd (log_event n (wo_store w))) = Inr (u, s2)"
    and n: "ne_type n = CONTRACT_BLOCKED" and s2: "wo_store w' = s2"
    using assms(1) by (rule reject_parts)
  have c: "get_contract (snd (log_event n (wo_store w))) ?i = Some v" using assms(2) by (simp add: get_contract_def)
  have ap: "apply_update (rx_zone (jg_rpc x)) ?c v (snd (log_event n (wo_store w))) = Inr (u, s2)"
    using up c by (auto simp: update_contract_state_def replayed_events_def judged_update_def res_simps split: if_splits)
  from apply_update_Inr [OF this] have u: "get_contract s2 ?i = Some u" "cv_revision u = cv_revision v + 1" "cv_contract_id u = ?i"
    using assms(2) by (auto simp: wrote_contract_def get_contract_def updated_view_def judged_update_def)
  from apply_update_log [OF ap] obtain l where l: "el_rows (st_log s2) =
      el_rows (st_log (restamp_plan_approvals ?i (cv_revision u) (snd (log_event n (wo_store w))))) @ [l]" "ev_type l = CONTRACT_APPROVED"
    by (auto simp: judged_update_def chosen_event_def given_event_def or_else_def)
  have quiet: "\<not> verdict_event u l" "\<not> verdict_event u (stored_event k n)" for k
    using l(2) n by (auto simp: verdict_event_def stored_event_def CONTRACT_APPROVED_def CONTRACT_BLOCKED_def ATTEMPT_SUCCEEDED_def ATTEMPT_FAILED_def)
  have newest: "find (verdict_event u) xs = Some e" if "find verifier_event xs = Some e" for xs
    using that by (induction xs) (auto simp: verdict_event_def assms(4,5) split: if_splits)
  have "last_verdict u s2 = find (verdict_event u) (rev (get_events (Some ?i) None [] None
      (st_log (restamp_plan_approvals ?i (cv_revision u) (snd (log_event n (wo_store w)))))))"
    using l(1) quiet(1) by (simp add: last_verdict_def get_events_def u(3))
  also have "\<dots> = find (verdict_event u) (rev (get_events (Some ?i) None [] None (st_log (wo_store w))))"
    unfolding restamp_verdicts using quiet(2) by (simp add: get_events_def append_event_def Let_def)
  also have "\<dots> = Some e" by (rule newest [OF assms(3)])
  finally show ?thesis using u s2 by blast
qed
end
