(* ===== verification/History.thy ===== *)
theory History
  imports Scheduling Contract_Properties
begin

text \<open>
  The revision history of a contract under every operation of the runtime that writes a contract: the writes of the
  store (\<open>contract_step\<close>), which record a revision, and the writers that keep the revision: the three bookkeeping transitions of
  \<open>longtask/cli/dispatch.py\<close> between active and blocked, and the next decision time of
  \<open>lhgp/persistence/decisions.py\<close>.
\<close>

section \<open>The steps of the runtime\<close>

inductive runtime_step :: "pyhost \<Rightarrow> tzdb \<Rightarrow> store \<Rightarrow> store \<Rightarrow> bool" for h tz where
  run_contract: "contract_step h tz s s' \<Longrightarrow> runtime_step h tz s s'"
| run_plan_wake: "wake_blocked_after_plan_approval c now s = (b, s') \<Longrightarrow> runtime_step h tz s s'"
| run_full: "mark_blocked_capacity_full c now s = (b, s') \<Longrightarrow> runtime_step h tz s s'"
| run_wake: "wake_blocked_capacity_full rp r c now s = Inr (b, s') \<Longrightarrow> runtime_step h tz s s'"
| run_decision: "set_next_decision_at fmt d s = (b, s') \<Longrightarrow> runtime_step h tz s s'"
| run_elsewhere: "st_contracts s' = st_contracts s \<Longrightarrow> st_revisions s' = st_revisions s \<Longrightarrow> runtime_step h tz s s'"

inductive runtime_steps :: "pyhost \<Rightarrow> tzdb \<Rightarrow> store \<Rightarrow> store \<Rightarrow> bool" for h tz where
  no_steps: "runtime_steps h tz s s"
| more_steps: "runtime_steps h tz s t \<Longrightarrow> runtime_step h tz t u \<Longrightarrow> runtime_steps h tz s u"

section \<open>Bookkeeping\<close>

text \<open>A contract rewritten under its revision: state and reason of block move between active and blocked at most.\<close>

definition kept :: "contract_view \<Rightarrow> contract_view \<Rightarrow> bool" where
  "kept v w \<longleftrightarrow> cv_revision w = cv_revision v \<and> cv_draft w = cv_draft v \<and> cv_deadline_status w = cv_deadline_status v \<and>
     cv_acceptance_status w = cv_acceptance_status v \<and>
     (cv_state w = cv_state v \<and> cv_blocked_reason w = cv_blocked_reason v \<or> {cv_state v, cv_state w} = {Active, Blocked})"

definition bookkeeps :: "string \<Rightarrow> store \<Rightarrow> store \<Rightarrow> bool" where
  "bookkeeps c s s' \<longleftrightarrow> (\<exists>v w. get_contract s c = Some v \<and> kept v w \<and> st_contracts s' = put c w (st_contracts s) \<and>
     st_revisions s' = st_revisions s)"

lemma bookkeepsI:
  "get_contract s c = Some v \<Longrightarrow> kept v w \<Longrightarrow> st_contracts s' = put c w (st_contracts s) \<Longrightarrow> st_revisions s' = st_revisions s \<Longrightarrow>
   bookkeeps c s s'"
  by (auto simp: bookkeeps_def)

lemma rewrite_contract_frame:
  "st_contracts (rewrite_contract c v t p now w s) = put c w (st_contracts s)"
  "st_revisions (rewrite_contract c v t p now w s) = st_revisions s"
  by (simp_all add: rewrite_contract_def log_event_pair)

lemma rewrite_bookkeeps:
  "get_contract s c = Some v \<Longrightarrow> kept v w \<Longrightarrow> bookkeeps c s (rewrite_contract c v t p now w s)"
  by (rule bookkeepsI) (simp_all add: rewrite_contract_frame)

lemma bookkeeps_cases:
  "wake_blocked_after_plan_approval c now s = (b, s') \<Longrightarrow> s' = s \<or> bookkeeps c s s'"
  "mark_blocked_capacity_full c now s = (b, s') \<Longrightarrow> s' = s \<or> bookkeeps c s s'"
  "wake_blocked_capacity_full rp r c now s = Inr (b, s') \<Longrightarrow> s' = s \<or> bookkeeps c s s'"
  by (auto simp: wake_blocked_after_plan_approval_def mark_blocked_capacity_full_def wake_blocked_capacity_full_def
      kept_def res_simps Let_def split: option.splits if_splits intro!: rewrite_bookkeeps)

lemma decision_bookkeeps:
  assumes "set_next_decision_at fmt d s = (b, s')"
  shows "s' = s \<or> bookkeeps (dc_contract d) s s'"
proof (cases "get_contract s (dc_contract d)")
  case (Some v)
  let ?w = "v\<lparr>cv_next_decision_at := Some (dc_when d), cv_updated_at := dc_now d\<rparr>"
  from assms Some have "s' = s \<or> st_contracts s' = put (dc_contract d) ?w (st_contracts s) \<and> st_revisions s' = st_revisions s"
    by (auto simp: set_next_decision_at_def log_event_pair split: if_splits)
  moreover have "kept v ?w" by (simp add: kept_def)
  ultimately show ?thesis using Some by (auto intro: bookkeepsI)
qed (use assms in \<open>simp add: set_next_decision_at_def\<close>)

lemma revisions_of_cong: "st_revisions s' = st_revisions s \<Longrightarrow> revisions_of s' c = revisions_of s c"
  by (simp add: revisions_of_def)

text \<open>The transitions that a recorded history may show: those of the table, and the two that a contract
  takes from the state it was moved to without a revision.\<close>

definition recorded_transition :: "contract_state \<Rightarrow> contract_state \<Rightarrow> bool" where
  "recorded_transition s t \<longleftrightarrow> is_valid_transition s t \<or> (s, t) \<in> {(Active, Archived), (Blocked, Paused)}"

interpretation recorded_lc: lifecycle recorded_transition is_terminal_state
proof
  fix s t :: contract_state
  show "is_terminal_state s \<Longrightarrow> \<not> recorded_transition s t"
    using contract_lc.terminal_final by (auto simp: recorded_transition_def contract_table)
  show "\<not> is_terminal_state s \<Longrightarrow> \<exists>t. recorded_transition s t"
    using contract_lc.nonterminal_exit by (auto simp: recorded_transition_def)
qed

text \<open>What the newest snapshot says of the contract: all of it, but for a block or an unblock since.\<close>

definition resembles :: "revision_row \<Rightarrow> contract_view \<Rightarrow> bool" where
  "resembles row v \<longleftrightarrow> rr_draft row = cv_draft v \<and> rr_deadline_status row = cv_deadline_status v \<and>
     rr_acceptance_status row = cv_acceptance_status v \<and>
     (rr_state row = cv_state v \<and> rr_blocked_reason row = cv_blocked_reason v \<or>
      {rr_state row, cv_state v} \<subseteq> {Active, Blocked})"

lemma mirrors_resembles: "mirrors row v \<Longrightarrow> resembles row v"
  by (simp add: mirrors_def resembles_def)

lemma kept_resembles: "resembles row v \<Longrightarrow> kept v w \<Longrightarrow> resembles row w"
  by (auto simp: resembles_def kept_def doubleton_eq_iff)

lemma resembling_transition:
  assumes "resembles row v" and "cv_state v = t \<or> is_valid_transition (cv_state v) t"
  shows "rr_state row = t \<or> recorded_transition (rr_state row) t"
  using assms by (auto simp: resembles_def recorded_transition_def is_valid_transition_def)

section \<open>The invariant\<close>

definition chronicled :: "contract_view \<Rightarrow> (int \<times> revision_row) list \<Rightarrow> bool" where
  "chronicled v rs \<longleftrightarrow> rs \<noteq> [] \<and> (\<exists>first \<le> cv_revision v. map fst rs = [first..cv_revision v]) \<and> resembles (snd (last rs)) v \<and>
     recorded_lc.history (map (\<lambda>r. rr_state (snd r)) rs)"

definition chronicle_at :: "store \<Rightarrow> string \<Rightarrow> bool" where
  "chronicle_at s c \<longleftrightarrow> (case get_contract s c of None \<Rightarrow> revisions_of s c = [] | Some v \<Rightarrow> chronicled v (revisions_of s c))"

lemma chronicle_at_cong:
  "revisions_of s' c = revisions_of s c \<Longrightarrow> get_contract s' c = get_contract s c \<Longrightarrow> chronicle_at s' c = chronicle_at s c"
  by (simp add: chronicle_at_def split: option.split)

lemma chronicle_empty: "chronicle_at empty_store c"
  by (simp add: chronicle_at_def empty_store_def get_contract_def revisions_of_def)

lemma chronicled_extend:
  assumes "chronicled current rs" and "cv_revision v = cv_revision current + 1" and "mirrors row v"
    and "cv_state current = cv_state v \<or> is_valid_transition (cv_state current) (cv_state v)"
  shows "chronicled v (rs @ [(cv_revision v, row)])"
proof -
  from assms(1) obtain first where f: "first \<le> cv_revision current" "map fst rs = [first..cv_revision current]"
    by (auto simp: chronicled_def)
  then have "map fst (rs @ [(cv_revision v, row)]) = [first..cv_revision v]"
    using assms(2) upto_rec2 [of first "cv_revision v"] by simp
  moreover from assms(1) obtain init lst where rs: "rs = init @ [lst]" by (cases rs rule: rev_cases) (auto simp: chronicled_def)
  moreover have "recorded_lc.history (map (\<lambda>r. rr_state (snd r)) init @ [rr_state (snd lst), rr_state row])"
    using assms rs resembling_transition [of "snd lst" current "cv_state v"]
    by (intro recorded_lc.history_snoc) (auto simp: chronicled_def mirrors_def)
  ultimately show ?thesis
    using assms(2) f mirrors_resembles [OF assms(3)] by (auto simp: chronicled_def intro!: exI [of _ first])
qed

lemma chronicle_wrote:
  assumes "chronicle_at s d" and "wrote_contract c v s s'"
    and "\<And>row. mirrors row v \<Longrightarrow> chronicled v (revisions_of s c @ [(cv_revision v, row)])"
  shows "chronicle_at s' d"
proof -
  from wrote_contract_revisions [OF assms(2)] obtain row where
    row: "mirrors row v" "revisions_of s' c = revisions_of s c @ [(cv_revision v, row)]"
    "\<And>d. d \<noteq> c \<Longrightarrow> revisions_of s' d = revisions_of s d" "\<And>d. get_contract s' d = (if d = c then Some v else get_contract s d)"
    by blast
  show ?thesis
  proof (cases "d = c")
    case True
    then show ?thesis using assms(3) row by (simp add: chronicle_at_def)
  next
    case False
    then have "chronicle_at s' d = chronicle_at s d" by (intro chronicle_at_cong) (simp_all add: row)
    then show ?thesis using assms(1) by simp
  qed
qed

lemma chronicle_bookkeeps:
  assumes "bookkeeps c s s'" and "\<And>d. chronicle_at s d"
  shows "chronicle_at s' d"
proof -
  from assms(1) obtain v w where b: "get_contract s c = Some v" "kept v w" "st_contracts s' = put c w (st_contracts s)"
    "st_revisions s' = st_revisions s" by (auto simp: bookkeeps_def)
  have "chronicled v (revisions_of s c)" using assms(2) [of c] b(1) by (simp add: chronicle_at_def)
  then have "chronicled w (revisions_of s c)"
    using b(2) kept_resembles by (auto simp: chronicled_def kept_def)
  then show ?thesis
    using assms(2) [of d] b revisions_of_cong [OF b(4)]
    by (cases "d = c") (auto simp: chronicle_at_def get_contract_def split: option.splits)
qed

lemma chronicle_step:
  assumes "runtime_step h tz s s'" and "\<And>d. chronicle_at s d"
  shows "chronicle_at s' d"
proof -
  have same: "chronicle_at s' d" if "st_contracts s' = st_contracts s" "st_revisions s' = st_revisions s"
    using assms(2) [of d] that chronicle_at_cong [of s' d s] revisions_of_cong [OF that(2)] by (simp add: get_contract_def)
  have contract: "chronicle_at s' d" if "contract_step h tz s s'"
    using that
  proof (cases rule: contract_step_change)
    case (advance c current v)
    then have "chronicled current (revisions_of s c)" using assms(2) [of c] by (simp add: chronicle_at_def advances_def)
    with advance have "chronicled v (revisions_of s c @ [(cv_revision v, row)])" if "mirrors row v" for row
      using that unfolding advances_def by (blast intro: chronicled_extend)
    moreover have "wrote_contract c v s s'" using advance by (simp add: advances_def)
    ultimately show ?thesis by (intro chronicle_wrote [OF assms(2)])
  next
    case (create c v)
    then have "revisions_of s c = []" using assms(2) [of c] by (simp add: chronicle_at_def creates_def)
    then have "chronicled v (revisions_of s c @ [(cv_revision v, row)])" if "mirrors row v" for row
      using that by (auto simp: chronicled_def intro!: exI [of _ "cv_revision v"] mirrors_resembles)
    moreover have "wrote_contract c v s s'" using create by (simp add: creates_def)
    ultimately show ?thesis by (intro chronicle_wrote [OF assms(2)])
  qed (use same in blast)
  have bookkept: "chronicle_at s' d" if "s' = s \<or> bookkeeps c s s'" for c
    using that chronicle_bookkeeps [OF _ assms(2)] assms(2) by auto
  from assms(1) show ?thesis
  proof cases
    case run_contract
    then show ?thesis by (rule contract)
  next
    case (run_plan_wake c now b)
    from bookkeeps_cases(1) [OF this] show ?thesis by (rule bookkept)
  next
    case (run_full c now b)
    from bookkeeps_cases(2) [OF this] show ?thesis by (rule bookkept)
  next
    case (run_wake rp r c now b)
    from bookkeeps_cases(3) [OF this] show ?thesis by (rule bookkept)
  next
    case (run_decision fmt e b)
    from decision_bookkeeps [OF this] show ?thesis by (rule bookkept)
  next
    case run_elsewhere
    then show ?thesis by (rule same)
  qed
qed

lemma chronicle_steps:
  assumes "runtime_steps h tz s s'" and "\<And>d. chronicle_at s d"
  shows "chronicle_at s' d"
  using assms by (induction arbitrary: d rule: runtime_steps.induct) (blast intro: chronicle_step)+

text \<open>In every reachable store the next revision of a contract is free, so that a legal update of it takes effect.\<close>

lemma reachable_update:
  assumes "runtime_steps h tz empty_store s" and "get_contract s (uc_contract c) = Some v" and "uc_request c = None"
    and "uc_expected c \<in> {None, Some (cv_revision v)}" and "is_valid_transition (cv_state v) (uc_state c)"
  shows "\<exists>s'. update_contract_state tz' c s = Inr (updated_view c v, s') \<and> get_contract s' (uc_contract c) = Some (updated_view c v)"
proof -
  have "chronicled v (revisions_of s (uc_contract c))"
    using chronicle_steps [OF assms(1) chronicle_empty, of "uc_contract c"] assms(2) by (simp add: chronicle_at_def)
  then have "cv_revision v + 1 \<notin> set (map fst (revisions_of s (uc_contract c)))" by (auto simp: chronicled_def simp del: set_map)
  then have free: "map_of (st_revisions s) (uc_contract c, cv_revision v + 1) = None"
    by (force simp: revisions_of_def map_of_eq_None_iff)
  have "\<exists>s'. notify_state tz' c v e p t = Inr s'" for e p t by (rule notify_state_ok)
  then obtain s' where up: "apply_update tz' c v s = Inr (updated_view c v, s')"
    using free by (simp add: apply_update_def Let_def write_revision_snapshot_def log_event_pair) (metis sbind_Inr)
  then have "get_contract s' (uc_contract c) = Some (updated_view c v)"
    using apply_update_Inr [OF up] by (simp add: wrote_contract_def get_contract_def)
  moreover have "update_contract_state tz' c s = Inr (updated_view c v, s')"
    using up assms(2-5) by (auto simp: update_fresh)
  ultimately show ?thesis by blast
qed

lemma active_sample:
  "\<exists>s. runtime_steps unary_host sample_tz empty_store s \<and>
     get_contract s ''c1'' = Some (updated_view (sample_update Active (Some 1)) sample_view)"
proof -
  have r: "runtime_steps unary_host sample_tz empty_store sample_store"
    by (rule more_steps [OF no_steps run_contract [OF step_save [OF sample_saved]]])
  from reachable_update [OF this, of "sample_update Active (Some 1)" sample_view sample_tz] obtain s where
    "update_contract_state sample_tz (sample_update Active (Some 1)) sample_store = Inr (updated_view (sample_update Active (Some 1)) sample_view, s)"
    "get_contract s ''c1'' = Some (updated_view (sample_update Active (Some 1)) sample_view)"
    by (auto simp: sample_contract contract_table)
  with more_steps [OF r run_contract [OF step_update]] show ?thesis by blast
qed

section \<open>Properties\<close>

text \<open>
  C25: The revision history is an audit trail. From an empty store, whatever creations, updates, amendments, write-backs,
  lease operations, blocks and unblocks for capacity or for the plan gate and new decision times follow, and
  whatever happens outside the tables of contracts and revisions: the recorded revisions of a contract are numbered without a gap up
  to its current revision; consecutive states are equal or legal transitions, but for active to archived and blocked to
  paused, which pass through a block or an unblock that records no revision; the newest entry is the contract as it stands, draft
  and verdicts included, where state and reason of block may differ only between active and blocked; and once a
  terminal state was recorded the contract is still in it.
\<close>

theorem revision_history_sound:
  assumes "runtime_steps h tz empty_store s" and "get_contract s c = Some v"
  shows "(\<exists>first \<le> cv_revision v. map fst (revisions_of s c) = [first..cv_revision v]) \<and>
    resembles (snd (last (revisions_of s c))) v \<and>
    recorded_lc.history (map (\<lambda>r. rr_state (snd r)) (revisions_of s c)) \<and>
    (\<forall>r \<in> set (revisions_of s c). is_terminal_state (rr_state (snd r)) \<longrightarrow> cv_state v = rr_state (snd r))"
proof -
  have rec: "chronicled v (revisions_of s c)"
    using chronicle_steps [OF assms(1) chronicle_empty, of c] assms(2) by (simp add: chronicle_at_def)
  obtain init lst where l: "revisions_of s c = init @ [lst]" using rec by (cases "revisions_of s c" rule: rev_cases) (auto simp: chronicled_def)
  have h: "recorded_lc.history (map (\<lambda>r. rr_state (snd r)) init @ [rr_state (snd lst)])"
    using rec by (auto simp: chronicled_def l)
  have "cv_state v = rr_state (snd r)" if r: "r \<in> set (revisions_of s c)" "is_terminal_state (rr_state (snd r))" for r
  proof -
    have "rr_state (snd lst) = rr_state (snd r)"
      using recorded_lc.history_last_terminal [OF h, of "rr_state (snd r)"] r by (auto simp: l)
    then show ?thesis using rec r(2) by (auto simp: l chronicled_def resembles_def contract_table)
  qed
  then show ?thesis using rec unfolding chronicled_def by blast
qed

text \<open>A contract that was activated and then blocked for want of an executor.\<close>

theorem revision_history_sound_witness:
  "\<exists>s v. get_contract s ''c1'' = Some v \<and> cv_state v = Blocked \<and> cv_revision v = 2 \<and> map fst (revisions_of s ''c1'') = [1, 2] \<and>
     resembles (snd (last (revisions_of s ''c1''))) v \<and> rr_state (snd (last (revisions_of s ''c1''))) = Active"
proof -
  let ?u = "sample_update Active (Some 1)"
  from apply_update_total [OF sample_history, of ?u sample_view] obtain s1 where
    up: "apply_update sample_tz ?u sample_view sample_store = Inr (updated_view ?u sample_view, s1)"
    by (auto simp: sample_contract)
  then have st: "update_contract_state sample_tz ?u sample_store = Inr (updated_view ?u sample_view, s1)"
    by (simp add: update_fresh sample_contract contract_table)
  from apply_update_Inr [OF up] have w: "wrote_contract ''c1'' (updated_view ?u sample_view) sample_store s1" by simp
  from wrote_contract_revisions [OF w] obtain row where row: "mirrors row (updated_view ?u sample_view)"
    "revisions_of s1 ''c1'' = revisions_of sample_store ''c1'' @ [(cv_revision (updated_view ?u sample_view), row)]" "get_contract s1 ''c1'' = Some (updated_view ?u sample_view)"
    by metis
  obtain s where m: "mark_blocked_capacity_full ''c1'' 30 s1 = (True, s)"
    and s: "st_contracts s = put ''c1'' ((updated_view ?u sample_view)\<lparr>cv_state := Blocked, cv_blocked_reason := Some CapacityFull,
        cv_next_decision_at := None, cv_updated_at := 30\<rparr>) (st_contracts s1)" "st_revisions s = st_revisions s1"
    using row(3) by (auto simp: mark_blocked_capacity_full_def rewrite_contract_frame)
  have "runtime_steps unary_host sample_tz empty_store sample_store"
    by (rule more_steps [OF no_steps run_contract [OF step_save [OF sample_saved]]])
  then have r: "runtime_steps unary_host sample_tz empty_store s"
    by (rule more_steps [OF more_steps [OF _ run_contract [OF step_update [OF st]]] run_full [OF m]])
  have v: "get_contract s ''c1'' = Some ((updated_view ?u sample_view)\<lparr>cv_state := Blocked, cv_blocked_reason := Some CapacityFull,
        cv_next_decision_at := None, cv_updated_at := 30\<rparr>)" by (simp add: get_contract_def s(1))
  from revision_history_sound [OF r v] have "resembles (snd (last (revisions_of s ''c1''))) (the (get_contract s ''c1''))" by (simp add: v)
  moreover have "map fst (revisions_of sample_store ''c1'') = [1]"
    by (simp add: sample_store_def save_eval revisions_of_def)
  ultimately show ?thesis
    using v row revisions_of_cong [OF s(2)]
    by (intro exI [of _ s] exI [of _ "the (get_contract s ''c1'')"]) (auto simp: mirrors_def)
qed

end
