(* ===== verification/Ticking.thy ===== *)
theory Ticking
  imports Tick Judging History
begin

text \<open>
  What a pass of the scheduler guarantees: an attempt is only started under the documented conditions and holds the lease of its contract
  when the pass is over, the limits of the pass bind, and a contract that is done is left alone.
\<close>

lemma visit_all_append_keeps:
  assumes "step_frame R" and "\<And>v l. v \<in> set vs \<Longrightarrow> akeeps R (f v l)"
  shows "akeeps R (visit_all f vs l)"
  using assms(2)
proof (induction vs arbitrary: l)
  case Nil
  show ?case unfolding visit_all.simps by (rule step_frame.keeps_pure [OF assms(1)])
next
  case (Cons v vs)
  then show ?case by (simp add: step_frame.keeps_bind [OF assms(1)])
qed

section \<open>What a dispatch touches\<close>

lemma dispatch_frame:
  assumes "dispatch_attempt pick stamp factory c s = Inr (r, s')"
  shows "st_contracts s' = st_contracts s" "d \<noteq> cv_contract_id (dp_contract c) \<Longrightarrow> get_lease s' d None = get_lease s d None"
    "r = Some st \<Longrightarrow> sd_contract st = cv_contract_id (dp_contract c) \<and>
      (\<exists>l. get_lease s' (cv_contract_id (dp_contract c)) None = Some l \<and> le_holder l = sd_attempt st)"
    "r = None \<Longrightarrow> only_logged s s'"
proof -
  have other: "get_lease s1 d None = get_lease s0 d None" if "claim_lease c e i l s0 = Inr (l', s1)" "d \<noteq> cv_contract_id (dp_contract c)" for e i l s0 l' s1
    using that unfolding claim_lease_def Let_def
    by (cases l) (auto elim!: acquire_lease_cases reclaim_lease_cases simp: lease_write_def get_lease_plain lease_key_def partition_key_def)
  from assms have "st_contracts s' = st_contracts s \<and> (d \<noteq> cv_contract_id (dp_contract c) \<longrightarrow> get_lease s' d None = get_lease s d None) \<and>
    (r = Some st \<longrightarrow> sd_contract st = cv_contract_id (dp_contract c) \<and>
      (\<exists>l. get_lease s' (cv_contract_id (dp_contract c)) None = Some l \<and> le_holder l = sd_attempt st)) \<and> (r = None \<longrightarrow> only_logged s s')"
  proof (cases rule: dispatch_attempt_cases)
    case gated
    then show ?thesis using only_logged_frame [of s s'] by simp
  next
    case (tried i)
    from tried(3) show ?thesis
    proof (cases rule: try_candidates_cases)
      case refused
      then show ?thesis using only_logged_frame [of s s'] by simp
    next
      case (started e prep s0 l' s1)
      note taken = claim_lease_Inr [OF started(5,4)] other [OF started(5)] only_logged_frame [OF started(4)]
      have s': "get_lease s' cid p = get_lease s1 cid p" "st_contracts s' = st_contracts s1" for cid p
        by (simp_all add: started(7) record_attempt_def get_lease_def)
      show ?thesis using taken started(6) by (auto simp: s')
    qed
  qed
  then show "st_contracts s' = st_contracts s" "d \<noteq> cv_contract_id (dp_contract c) \<Longrightarrow> get_lease s' d None = get_lease s d None"
    "r = Some st \<Longrightarrow> sd_contract st = cv_contract_id (dp_contract c) \<and>
      (\<exists>l. get_lease s' (cv_contract_id (dp_contract c)) None = Some l \<and> le_holder l = sd_attempt st)"
    "r = None \<Longrightarrow> only_logged s s'" by blast+
qed

section \<open>A contract that is done\<close>

definition finished_kept :: "store \<Rightarrow> store \<Rightarrow> bool" where
  "finished_kept s s' \<longleftrightarrow> (\<forall>c v. get_contract s c = Some v \<longrightarrow> cv_state v \<in> TERMINAL_STATES \<longrightarrow>
     (\<exists>v'. get_contract s' c = Some v' \<and> cv_state v' = cv_state v \<and> cv_draft v' = cv_draft v))"

lemma finished_same: "st_contracts s' = st_contracts s \<Longrightarrow> finished_kept s s'"
  by (auto simp: finished_kept_def get_contract_def)

lemma finished_trans: "finished_kept s t \<Longrightarrow> finished_kept t u \<Longrightarrow> finished_kept s u"
  unfolding finished_kept_def by metis

interpretation finished: world_frame "on_store finished_kept"
  by unfold_locales (auto simp: on_store_def finished_same intro: finished_trans)

lemma finished_contracts: "contracts_kept s s' \<Longrightarrow> finished_kept s s'"
  unfolding finished_kept_def contracts_kept_def by blast

lemma finished_stays: "cv_state v \<in> TERMINAL_STATES \<Longrightarrow> \<not> is_valid_transition (cv_state v) t"
  by (cases "cv_state v") (simp_all add: contract_table)

lemma finished_update:
  assumes "update_contract_state tz c s = Inr (v, s')"
  shows "finished_kept s s'"
  unfolding finished_kept_def
proof (intro allI impI)
  fix i w
  assume w: "get_contract s i = Some w" "cv_state w \<in> TERMINAL_STATES"
  from update_change [OF assms w(1)] show "\<exists>v'. get_contract s' i = Some v' \<and> cv_state v' = cv_state w \<and> cv_draft v' = cv_draft w"
    using finished_stays [OF w(2)] w(1) by (auto simp: updated_view_def)
qed

lemma finished_auto_create:
  assumes "auto_create_next_stage_contract x v now ev s = Inr s'"
  shows "finished_kept s s'"
proof -
  have prepared: "finished_kept s s1" if "handle_goal_prepare x None e now s = (r, s1)" for e r s1
    using writes_keep_contracts(3) [of x None e now] that by (metis finished_contracts keeps_def snd_conv)
  have approved: "finished_kept s s1" if "auto_approve_drafted_contract rp pick tz w now s = Inr (b, s1)" for rp pick tz w s b s1
    using that by (auto simp: auto_approve_drafted_contract_def finished_same split: if_splits sum.splits dest: finished_update)
  from assms show ?thesis
    by (cases rule: auto_create_cases) (auto simp: finished_same intro: prepared finished_trans approved)
qed

lemma finished_steps:
  "akeeps (on_store finished_kept) (project y c)" "akeeps (on_store finished_kept) (write_repair_brief y v a brief)"
  "akeeps (on_store finished_kept) (judge_event v t payload now)"
  "akeeps (on_store finished_kept) (promoter_event v t payload now actor)"
  "akeeps (on_store finished_kept) (acommit (update_contract_state tz call))"
  "akeeps (on_store finished_kept) (awrite (advance_goal_after_verified_contract rp v now))"
  "akeeps (on_store finished_kept)
     (acommit (\<lambda>s. sbind (lift_py (auto_create_next_stage_contract z v now ev s)) (\<lambda>s'. Inr ((), s'))))"
  "akeeps (on_store finished_kept) (awrite (record_decision d))"
  by (simp_all add: akeeps_def on_store_def project_store brief_store judge_event_def promoter_event_def finished_same finished_contracts
      kept_advance_after record_decision_def)
    (auto simp: acommit_def lift_py_Inr sbind_eq_Inr finished_same split: sum.split prod.split dest: finished_update intro: finished_auto_create)

lemma akeeps_tier:
  "akeeps R m0 \<Longrightarrow> akeeps R m1 \<Longrightarrow> akeeps R m2 \<Longrightarrow> akeeps R m3 \<Longrightarrow> akeeps R m4 \<Longrightarrow> akeeps R m5 \<Longrightarrow>
    akeeps R (case t of Queued \<Rightarrow> m0 | Remind \<Rightarrow> m1 | Steer \<Rightarrow> m2 | Respawn \<Rightarrow> m3 | Parallel \<Rightarrow> m4 | HandToUser \<Rightarrow> m5)"
  by (cases t) simp_all

lemma finished_judge: "akeeps (on_store finished_kept) (judge_verifier_outcomes y now)"
  unfolding judge_verifier_outcomes_def judge_contract_def reject_def record_spec_failure_def record_spec_pending_def complete_contract_def Let_def
  by (intro finished.intros finished.keeps_each finished_steps akeeps_if akeeps_option)

lemma finished_rewrite:
  assumes "get_contract s c = Some v" and "cv_state v \<notin> TERMINAL_STATES"
  shows "finished_kept s (rewrite_contract c v t payload now new s)"
  using assms by (auto simp: finished_kept_def rewrite_contract_def get_contract_def)

lemma finished_books:
  "akeeps (on_store finished_kept) (schedule_decision x now v next_at reason)"
  "akeeps (on_store finished_kept) (notify_risk x now v remaining left u tier)"
  "akeeps (on_store finished_kept) (acommit (\<lambda>s. Inr (mark_blocked_capacity_full c now s)))"
  "akeeps (on_store finished_kept) (acommit (\<lambda>s. lift_py (wake_blocked_capacity_full rp r c now s)))"
  "akeeps (on_store finished_kept) (acommit (dispatch_attempt pick stamp factory call))"
proof -
  have "finished_kept s (snd (set_next_decision_at fmt d s))" for fmt d s
    by (auto simp: set_next_decision_at_def finished_kept_def get_contract_def split: option.split)
  then show "akeeps (on_store finished_kept) (schedule_decision x now v next_at reason)"
    by (simp add: akeeps_def schedule_decision_def on_store_def finished_same split: option.split)
  show "akeeps (on_store finished_kept) (notify_risk x now v remaining left u tier)"
    by (auto simp: akeeps_def notify_risk_def Let_def acommit_def on_store_def finished_same sbind_eq_Inr split: sum.split prod.split)
  show "akeeps (on_store finished_kept) (acommit (\<lambda>s. Inr (mark_blocked_capacity_full c now s)))"
    by (auto simp: akeeps_def acommit_def on_store_def mark_blocked_capacity_full_def finished_same contract_table
        split: option.split sum.split prod.split intro!: finished_rewrite)
  show "akeeps (on_store finished_kept) (acommit (\<lambda>s. lift_py (wake_blocked_capacity_full rp r c now s)))"
    by (auto simp: akeeps_def acommit_def on_store_def wake_blocked_capacity_full_def finished_same contract_table Let_def lift_py_Inr sbind_eq_Inr
        split: option.splits sum.split prod.split if_splits intro!: finished_rewrite)
  have "st_contracts s' = st_contracts s" if "dispatch_attempt pick stamp factory call s = Inr (r, s')" for s r s'
    using dispatch_frame [OF that] by simp
  then show "akeeps (on_store finished_kept) (acommit (dispatch_attempt pick stamp factory call))"
    by (auto simp: akeeps_def acommit_def on_store_def finished_same split: sum.split prod.split)
qed

lemma finished_visit: "akeeps (on_store finished_kept) (visit_contract x reg now clocks counts v l)"
proof -
  have "akeeps (on_store finished_kept) (expire_contract x now v)"
  proof -
    have "akeeps (on_store finished_kept) (abind (acommit (update_contract_state tz call)) (\<lambda>_. project_contract x v))" for tz call
      unfolding project_contract_def by (intro finished.intros finished_steps)
    then show ?thesis unfolding expire_contract_def akeeps_def by (auto split: prod.split sum.split) (metis snd_conv)+
  qed
  moreover have "akeeps (on_store finished_kept) (promote_contract x reg now c ledger v)" for c ledger
    unfolding promote_contract_def measure_def act_on_def try_dispatch_def dispatch_contract_def block_undispatched_def block_contract_def
      hand_to_user_def escalate_freely_def defer_for_window_def record_forecast_def project_contract_def Let_def
    by (intro finished.intros finished_steps finished_books akeeps_if akeeps_option akeeps_prod akeeps_tier)
  ultimately show ?thesis unfolding visit_contract_def
    by (intro finished.intros akeeps_if akeeps_option)
qed

lemma finished_pass: "akeeps (on_store finished_kept) (run_daemon_tick x kill reg now)"
proof -
  have tiers: "akeeps (on_store finished_kept) (prescan_tiers x now vs)" for vs
  proof (induction vs)
    case (Cons v vs)
    show ?case unfolding prescan_tiers.simps measure_def
      by (intro finished.intros akeeps_if akeeps_prod Cons.IH)
  qed (simp only: prescan_tiers.simps finished.keeps_pure)
  have wake: "akeeps (on_store finished_kept) (wake_contracts x reg now vs)" for vs
  proof (induction vs)
    case (Cons v vs)
    show ?case unfolding wake_contracts.simps by (intro finished.intros akeeps_if finished_books Cons.IH)
  qed (simp only: wake_contracts.simps finished.keeps_pure)
  have visit: "akeeps (on_store finished_kept) (visit_all (visit_contract x reg now clocks counts) vs l)" for clocks counts vs l
    by (rule visit_all_append_keeps [OF finished.step_frame_axioms finished_visit])
  show ?thesis unfolding run_daemon_tick_def prepare_pass_def Let_def
    by (intro finished.intros akeeps_if akeeps_prod tiers wake visit finished_judge)
qed

text \<open>C11: a pass of the scheduler, whether it ends or raises, leaves every contract that is done in its state and with its draft.\<close>

theorem tick_leaves_finished_contracts:
  assumes "run_daemon_tick x kill reg now w = (r, w')" and "get_contract (wo_store w) c = Some v" and "cv_state v \<in> TERMINAL_STATES"
  shows "\<exists>v'. get_contract (wo_store w') c = Some v' \<and> cv_state v' = cv_state v \<and> cv_draft v' = cv_draft v"
proof -
  have "finished_kept (wo_store w) (wo_store w')"
    using finished_pass [of x kill reg now] assms(1) by (metis akeeps_def on_store_def snd_conv)
  then show ?thesis using assms(2,3) by (simp add: finished_kept_def)
qed

definition sample_tick_env :: tick_env where
  "sample_tick_env = \<lparr>tk_judge = sample_judge_env, tk_tie = (\<lambda>i. 0), tk_off = (\<lambda>t. 0), tk_stamp = (\<lambda>t. ''T''),
     tk_factory = (\<lambda>e. Some (\<lambda>i. None)), tk_realpath = Some, tk_casefold = lower, tk_money = (\<lambda>c. ''0.00''), tk_fairness = DEFAULT_FAIRNESS\<rparr>"

definition finished_store :: store where
  "finished_store = set_contract ''c1'' (candidate_view\<lparr>cv_state := Complete\<rparr>) sample_store"

theorem tick_leaves_finished_contracts_witness:
  "\<exists>v'. get_contract (wo_store (snd (run_daemon_tick sample_tick_env False [] 5 \<lparr>wo_store = finished_store, wo_files = []\<rparr>))) ''c1'' = Some v' \<and>
     cv_state v' = Complete"
proof -
  obtain r w' where run: "run_daemon_tick sample_tick_env False [] 5 \<lparr>wo_store = finished_store, wo_files = []\<rparr> = (r, w')"
    by (cases "run_daemon_tick sample_tick_env False [] 5 \<lparr>wo_store = finished_store, wo_files = []\<rparr>")
  have "get_contract (wo_store \<lparr>wo_store = finished_store, wo_files = []\<rparr>) ''c1'' = Some (candidate_view\<lparr>cv_state := Complete\<rparr>)"
    by (simp add: finished_store_def set_contract_def get_contract_def)
  from tick_leaves_finished_contracts [OF run this] run show ?thesis by (auto simp: contract_table)
qed

section \<open>What a pass starts\<close>

text \<open>The conditions under which the ladder starts an attempt, in the store at that moment.\<close>

definition window_open :: "tick_env \<Rightarrow> int \<Rightarrow> contract_view \<Rightarrow> bool" where
  "window_open x now v \<longleftrightarrow> (case dispatch_window (cv_draft v) of None \<Rightarrow> True | Some window \<Rightarrow> snd (window_state (tk_off x) now window) = None)"

definition dispatch_allowed :: "tick_env \<Rightarrow> int \<Rightarrow> contract_view \<Rightarrow> store \<Rightarrow> bool" where
  "dispatch_allowed x now v s \<longleftrightarrow> cv_state v = Active \<and> cv_acceptance_status v \<noteq> Candidate \<and> now < deadline_of (cv_draft v) \<and>
     (case get_lease s (cv_contract_id v) None of None \<Rightarrow> True | Some l \<Rightarrow> \<not> lease_is_alive l now) \<and>
     count_attempts_by_role s (cv_contract_id v) ''executor'' COUNTED_STATES < bu_max_dispatches (cd_budget (cv_draft v)) \<and>
     (case cost_left s v of None \<Rightarrow> True | Some c \<Rightarrow> \<not> float_nonpos c) \<and> window_open x now v \<and>
     workspace_holder_other_than x v now s = None"

definition bookkept :: "store \<Rightarrow> store \<Rightarrow> bool" where
  "bookkept s s' \<longleftrightarrow> st_leases s' = st_leases s \<and> st_attempts s' = st_attempts s"

interpretation books: world_frame "on_store bookkept"
  by unfold_locales (auto simp: on_store_def bookkept_def)

lemma books_kept:
  "akeeps (on_store bookkept) (promoter_event v t payload now actor)" "akeeps (on_store bookkept) (schedule_decision x now v next_at reason)"
  "akeeps (on_store bookkept) (notify_risk x now v remaining left u tier)" "akeeps (on_store bookkept) (record_forecast x now v remaining left next_at)"
proof -
  have "bookkept s (snd (set_next_decision_at fmt d s))" for fmt d s
    by (auto simp: set_next_decision_at_def bookkept_def split: option.split)
  then show "akeeps (on_store bookkept) (schedule_decision x now v next_at reason)"
    by (simp add: akeeps_def schedule_decision_def on_store_def bookkept_def split: option.split)
  show e: "akeeps (on_store bookkept) (promoter_event v t payload now actor)" for t payload actor
    by (simp add: akeeps_def promoter_event_def on_store_def bookkept_def)
  show "akeeps (on_store bookkept) (notify_risk x now v remaining left u tier)"
    by (auto simp: akeeps_def notify_risk_def Let_def acommit_def on_store_def bookkept_def sbind_eq_Inr split: sum.split prod.split)
  show "akeeps (on_store bookkept) (record_forecast x now v remaining left next_at)"
    unfolding record_forecast_def Let_def by (intro books.intros akeeps_if e)
qed

lemma decide_respawn:
  assumes "ed_tier (decide li) \<in> {Some Respawn, Some Parallel}"
  shows "li_tier li \<noteq> None" "\<not> li_lease_alive li" "1 \<le> li_dispatches_left li"
    "case li_cost_left li of None \<Rightarrow> True | Some c \<Rightarrow> \<not> float_nonpos c"
  using assms
  by (auto simp: decide_def free_decision_def Let_def tier_order min_def split: option.splits if_splits)

lemma tier_before_deadline: "float_urgency remaining (hours_left v now) = Inr u \<Longrightarrow> float_tier u \<noteq> None \<Longrightarrow> now < deadline_of (cv_draft v)"
  by (auto simp: float_urgency_def urgency_def float_tier_def hours_left_def MINUTE_def SECOND_def max_def sbind_eq_Inr
      split: pyfloat.splits if_splits)

lemma bookkept_update:
  assumes "update_contract_state tz c s = Inr (v, s')"
  shows "bookkept s s'"
  using assms
proof (cases rule: update_cases)
  case (written current)
  then have "apply_update tz c current s = Inr (v, s')" using assms by (auto simp: update_fresh split: if_splits)
  then have "st_attempts s' = st_attempts s"
    by (auto simp: apply_update_def Let_def res_simps write_revision_snapshot_Inr log_event_pair dest!: notify_state_frame)
  with written show ?thesis by (simp add: bookkept_def wrote_contract_def)
qed (simp add: bookkept_def)

lemma books_steps:
  "akeeps (on_store bookkept) (project_contract x v)" "akeeps (on_store bookkept) (block_contract x now v reason why)"
  "akeeps (on_store bookkept) (block_undispatched x now v b)" "akeeps (on_store bookkept) (defer_for_window x now v window next_start)"
  "akeeps (on_store bookkept) (hand_to_user x now v tier li why)" "akeeps (on_store bookkept) (escalate_freely x now v allowed t why)"
  "akeeps (on_store bookkept) (measure x now v)" "akeeps (on_store bookkept) (expire_contract x now v)"
proof -
  have update: "akeeps (on_store bookkept) (acommit (update_contract_state tz call))" for tz call
    by (auto simp: akeeps_def acommit_def on_store_def bookkept_def [of s s for s] split: sum.split prod.split dest: bookkept_update)
  have mark: "akeeps (on_store bookkept) (acommit (\<lambda>s. Inr (mark_blocked_capacity_full c now s)))" for c
    by (auto simp: akeeps_def acommit_def on_store_def mark_blocked_capacity_full_def rewrite_contract_def bookkept_def split: option.split sum.split prod.split)
  have decision: "akeeps (on_store bookkept) (awrite (record_decision d))" for d
    by (simp add: akeeps_def on_store_def record_decision_def bookkept_def)
  show project: "akeeps (on_store bookkept) (project_contract x v)"
    by (simp add: akeeps_def on_store_def project_contract_def project_store bookkept_def)
  show block: "akeeps (on_store bookkept) (block_contract x now v reason why)" for reason why
    unfolding block_contract_def by (intro books.intros update)
  show "akeeps (on_store bookkept) (block_undispatched x now v b)"
    unfolding block_undispatched_def by (intro books.intros akeeps_if mark block project)
  show "akeeps (on_store bookkept) (defer_for_window x now v window next_start)"
    unfolding defer_for_window_def by (intro books.intros akeeps_if books_kept)
  show "akeeps (on_store bookkept) (hand_to_user x now v tier li why)"
    unfolding hand_to_user_def by (intro books.intros block project decision)
  show "akeeps (on_store bookkept) (escalate_freely x now v allowed t why)"
    unfolding escalate_freely_def by (intro books.intros akeeps_if books_kept project)
  show "akeeps (on_store bookkept) (measure x now v)"
    unfolding measure_def by (intro books.intros)
  have "akeeps (on_store bookkept) (abind (acommit (update_contract_state tz call)) (\<lambda>_. project_contract x v))" for tz call
    by (intro books.intros update project)
  then show "akeeps (on_store bookkept) (expire_contract x now v)"
    unfolding expire_contract_def akeeps_def by (auto split: prod.split sum.split) (metis snd_conv)+
qed

text \<open>An attempt that the ladder starts: in a store in which it may, by a dispatch over the executors that match the contract there.\<close>

definition starts :: "tick_env \<Rightarrow> registry \<Rightarrow> int \<Rightarrow> contract_view \<Rightarrow> store \<Rightarrow> started_attempt \<Rightarrow> store \<Rightarrow> bool" where
  "starts x reg now v s st s' \<longleftrightarrow> (\<exists>tier candidates.
     match_candidates (tk_repr x) reg (DraftSource (cv_draft v)) (count_running_by_executor s) ''executor'' = Inr candidates \<and>
     dispatch_attempt (rx_pick (jg_rpc (tk_judge x))) (tk_stamp x) (tk_factory x)
       \<lparr>dp_contract = v, dp_candidates = candidates, dp_now = now, dp_tier = tier, dp_seq = last_chars 4 (cv_contract_id v)\<rparr> s = Inr (Some st, s'))"

lemma books_run: "akeeps (on_store bookkept) m \<Longrightarrow> m w = (r, w') \<Longrightarrow> bookkept (wo_store w) (wo_store w')"
  unfolding akeeps_def on_store_def by (metis snd_conv)

lemma bookkept_trans: "bookkept s t \<Longrightarrow> bookkept t u \<Longrightarrow> bookkept s u"
  by (simp add: bookkept_def)

lemma bookkept_only_logged: "only_logged s s' \<Longrightarrow> bookkept s s'"
  using only_logged_frame [of s s'] by (simp add: bookkept_def)

lemma dispatch_contract_starts:
  assumes "dispatch_contract x reg now v tier w = (Inr r, w')"
  shows "case r of None \<Rightarrow> bookkept (wo_store w) (wo_store w') | Some st \<Rightarrow> starts x reg now v (wo_store w) st (wo_store w')"
proof -
  from assms obtain candidates saturated started s where
    c: "match_candidates (tk_repr x) reg (DraftSource (cv_draft v)) (count_running_by_executor (wo_store w)) ''executor'' = Inr candidates"
    and d: "dispatch_attempt (rx_pick (jg_rpc (tk_judge x))) (tk_stamp x) (tk_factory x)
       \<lparr>dp_contract = v, dp_candidates = candidates, dp_now = now, dp_tier = tier, dp_seq = last_chars 4 (cv_contract_id v)\<rparr> (wo_store w) = Inr (started, s)"
    and rest: "(case started of Some st \<Rightarrow> apure (Some st) | None \<Rightarrow> abind (block_undispatched x now v saturated) (\<lambda>_. apure None))
       (w\<lparr>wo_store := s\<rparr>) = (Inr r, w')"
    by (auto simp: dispatch_contract_def Let_def act_Inr lift_py_Inr split: if_splits)
  show ?thesis
  proof (cases started)
    case None
    with rest obtain u where u: "block_undispatched x now v saturated (w\<lparr>wo_store := s\<rparr>) = (Inr u, w')" "r = None"
      by (auto simp: act_Inr)
    have "bookkept s (wo_store w')" using books_run [OF books_steps(3) u(1)] by simp
    then show ?thesis
      using bookkept_trans [OF bookkept_only_logged [OF dispatch_frame(4) [OF d None]]] u(2) by simp
  next
    case (Some st)
    with rest have "r = Some st" "w' = w\<lparr>wo_store := s\<rparr>" by (auto simp: act_Inr)
    then show ?thesis using c d Some by (auto simp: starts_def)
  qed
qed

lemma try_dispatch_starts:
  assumes "try_dispatch x reg now ledger v alive tier w = (Inr r, w')"
  shows "case r of None \<Rightarrow> bookkept (wo_store w) (wo_store w')
    | Some st \<Rightarrow> can_dispatch ledger (cv_contract_id v) \<and> workspace_holder_other_than x v now (wo_store w) = None \<and>
        (\<not> alive \<longrightarrow> window_open x now v) \<and> starts x reg now v (wo_store w) st (wo_store w')"
  using assms
  by (auto simp: try_dispatch_def act_Inr window_open_def bookkept_def [of s s for s] split: option.splits if_splits
      dest!: dispatch_contract_starts books_run [OF books_steps(4)] books_run [OF books_kept(1)])

lemma act_on_starts:
  assumes "act_on x reg now ledger v u_tier li d w = (Inr r, w')"
  shows "case r of None \<Rightarrow> bookkept (wo_store w) (wo_store w')
    | Some st \<Rightarrow> ed_tier d \<in> {Some Respawn, Some Parallel} \<and> can_dispatch ledger (cv_contract_id v) \<and>
        workspace_holder_other_than x v now (wo_store w) = None \<and> (\<not> li_lease_alive li \<longrightarrow> window_open x now v) \<and>
        starts x reg now v (wo_store w) st (wo_store w')"
proof -
  have quiet: "bookkept (wo_store w) (wo_store w') \<and> r = None"
    if "abind m (\<lambda>_. apure None) w = (Inr r, w')" "akeeps (on_store bookkept) m" for m :: "unit act"
    using that books_run [OF that(2)] by (auto simp: act_Inr)
  have idle: "bookkept (wo_store w) (wo_store w') \<and> r = None" if "apure None w = (Inr r, w')"
    using that by (auto simp: act_Inr bookkept_def)
  show ?thesis
  proof (cases "ed_tier d")
    case (Some t)
    then show ?thesis using assms quiet [OF _ books_steps(5)] quiet [OF _ books_steps(6)] idle try_dispatch_starts
      by (cases t) (fastforce simp: act_on_def Let_def split: option.split)+
  qed (use assms idle in \<open>auto simp: act_on_def Let_def\<close>)
qed

lemma promote_starts:
  assumes "promote_contract x reg now counts ledger v w = (Inr r, w')" and "cv_state v = Active" and "cv_acceptance_status v \<noteq> Candidate"
  shows "case r of None \<Rightarrow> bookkept (wo_store w) (wo_store w')
    | Some st \<Rightarrow> can_dispatch ledger (cv_contract_id v) \<and>
        (\<exists>s. bookkept (wo_store w) s \<and> dispatch_allowed x now v s \<and> starts x reg now v s st (wo_store w'))"
proof -
  let ?left = "hours_left v now" and ?remaining = "remaining_workload_hours (jg_files (tk_judge x)) v (wo_files w)"
  from assms(1) obtain u w1 w2 w3 li d where
    u: "float_urgency ?remaining ?left = Inr u"
    and risk: "notify_risk x now v ?remaining ?left u (float_tier u) w = (Inr (), w1)"
    and li: "li = ladder_of (float_tier u) (fst counts) (snd counts) now v (wo_store w1)" and d: "d = decide li"
    and sched: "schedule_decision x now v (next_decision_of x now v (wo_store w1) (ed_tier d))
       (next_decision_reason (ed_tier d) (li_lease_alive li) (li_dispatches_left li)) w1 = (Inr (), w2)"
    and forecast: "record_forecast x now v ?remaining ?left (next_decision_of x now v (wo_store w1) (ed_tier d)) w2 = (Inr (), w3)"
    and act: "act_on x reg now ledger v (float_tier u) li d w3 = (Inr r, w')"
    by (auto simp: promote_contract_def measure_def Let_def act_Inr lift_py_Inr)
  note runs = books_run [OF books_kept(3) risk] books_run [OF books_kept(2) sched] books_run [OF books_kept(4) forecast]
  have b: "bookkept (wo_store w) (wo_store w3)" "bookkept (wo_store w1) (wo_store w3)" using runs by (auto simp: bookkept_def)
  show ?thesis
  proof (cases r)
    case None
    then show ?thesis using act_on_starts [OF act] b(1) by (auto intro: bookkept_trans)
  next
    case (Some st)
    note a = act_on_starts [OF act, unfolded Some option.simps]
    have "dispatch_allowed x now v (wo_store w3)"
      using a b(2) decide_respawn [of li] tier_before_deadline [OF u] assms(2,3)
      by (auto simp: dispatch_allowed_def d li ladder_of_def dispatches_left_def bookkept_def get_lease_def cost_left_def count_attempts_by_role_def
          split: option.splits)
    with a b(1) Some show ?thesis by auto
  qed
qed

lemma dispatch_records:
  assumes "dispatch_attempt pick stamp factory c s = Inr (Some st, s')"
  shows "get_attempt s (sd_attempt st) = None \<and> (\<exists>a. st_attempts s' = st_attempts s @ [(sd_attempt st, a)] \<and>
    sa_contract a = Some (cv_contract_id (dp_contract c)) \<and> sa_role a = ''executor'' \<and> sa_state a = ''admitted'')"
  using assms
proof (cases rule: dispatch_attempt_cases)
  case (tried i)
  from tried(3) show ?thesis
  proof (cases rule: try_candidates_cases)
    case (started e prep s0 l' s1)
    note taken = claim_lease_Inr [OF started(5,4)]
    have "get_attempt s1 i = None" using tried(1) taken by (simp add: get_attempt_def)
    then have "st_attempts s' = st_attempts s @ [(i, new_attempt (admitted_record c e i))]"
      using record_attempt_new [of "snd (log_event (start_event c e i) s1)" "admitted_record c e i"] taken
      by (simp add: started(7) get_attempt_def admitted_record_def)
    then show ?thesis using tried(1) started(6) by (simp add: new_attempt_def admitted_record_def)
  qed simp
qed simp

text \<open>What a start leaves behind: the attempt, which counts against the budget, and the lease of the contract in its hands.\<close>

definition handed_over :: "store \<Rightarrow> started_attempt \<Rightarrow> bool" where
  "handed_over s st \<longleftrightarrow> (\<exists>l. get_lease s (sd_contract st) None = Some l \<and> le_holder l = sd_attempt st) \<and>
     (\<exists>a. get_attempt s (sd_attempt st) = Some a \<and> sa_contract a = Some (sd_contract st) \<and> sa_state a = ''admitted'')"

lemma starts_effect:
  assumes "starts x reg now v s st s'"
  shows "sd_contract st = cv_contract_id v" "handed_over s' st"
    "count_attempts_by_role s' (cv_contract_id v) ''executor'' COUNTED_STATES = count_attempts_by_role s (cv_contract_id v) ''executor'' COUNTED_STATES + 1"
    "handed_over s st0 \<Longrightarrow> sd_contract st0 \<noteq> cv_contract_id v \<Longrightarrow> handed_over s' st0"
proof -
  from assms obtain call where call: "dp_contract call = v"
    and d: "dispatch_attempt (rx_pick (jg_rpc (tk_judge x))) (tk_stamp x) (tk_factory x) call s = Inr (Some st, s')"
    unfolding starts_def by (metis dispatch_call.select_convs(1))
  from dispatch_records [OF d] obtain a where new: "get_attempt s (sd_attempt st) = None"
    and a: "st_attempts s' = st_attempts s @ [(sd_attempt st, a)]" "sa_contract a = Some (cv_contract_id v)" "sa_role a = ''executor''" "sa_state a = ''admitted''"
    unfolding call by blast
  have get: "get_attempt s' j = (if j = sd_attempt st then Some a else get_attempt s j)" for j
    using new by (simp add: get_attempt_def a(1) map_add_def split: option.split)
  show c: "sd_contract st = cv_contract_id v" using dispatch_frame(3) [OF d refl] call by simp
  show "handed_over s' st" using dispatch_frame(3) [OF d refl] c a by (simp add: handed_over_def call get)
  show "count_attempts_by_role s' (cv_contract_id v) ''executor'' COUNTED_STATES = count_attempts_by_role s (cv_contract_id v) ''executor'' COUNTED_STATES + 1"
    using a by (simp add: count_attempts_by_role_def COUNTED_STATES_def)
  show "handed_over s' st0" if "handed_over s st0" "sd_contract st0 \<noteq> cv_contract_id v"
    using that new dispatch_frame(2) [OF d] call by (auto simp: handed_over_def get)
qed

lemma handed_over_books: "bookkept s s' \<Longrightarrow> handed_over s' st = handed_over s st"
  by (simp add: bookkept_def handed_over_def get_lease_def get_attempt_def)

lemma visit_cases:
  assumes "visit_contract x reg now clocks counts v l w = (Inr l', w')"
  obtains (idle) "tl_started l' = tl_started l" and "tl_ledger l' = tl_ledger l" and "bookkept (wo_store w) (wo_store w')"
  | (starts) st s where "tl_started l' = st # tl_started l" and "tl_ledger l' = record_dispatch (tl_ledger l) (cv_contract_id v)"
      and "can_dispatch (tl_ledger l) (cv_contract_id v)" and "bookkept (wo_store w) s" and "dispatch_allowed x now v s"
      and "starts x reg now v s st (wo_store w')"
proof (cases "map_of clocks (cv_contract_id v)")
  case None
  then show thesis using assms idle by (auto simp: visit_contract_def act_Inr bookkept_def)
next
  case (Some clock)
  show thesis
  proof (cases "is_overdue clock now \<and> cv_state v \<noteq> Expired")
    case True
    then obtain b where "expire_contract x now v w = (Inr b, w')" "l' = (if b then l\<lparr>tl_expired := Suc (tl_expired l)\<rparr> else l)"
      using assms Some by (auto simp: visit_contract_def act_Inr)
    then show thesis using idle books_run [OF books_steps(8)] by simp
  next
    case False
    show thesis
    proof (cases "cv_state v = Active \<and> cv_acceptance_status v \<noteq> Candidate")
      case True
      with assms Some False obtain r where p: "promote_contract x reg now (case map_of counts (cv_contract_id v) of None \<Rightarrow> (0, False) | Some c \<Rightarrow> c)
          (tl_ledger l) v w = (Inr r, w')"
        and l': "l' = (case r of None \<Rightarrow> l
             | Some st \<Rightarrow> l\<lparr>tl_ledger := record_dispatch (tl_ledger l) (cv_contract_id v), tl_started := st # tl_started l\<rparr>)"
        by (auto simp: visit_contract_def act_Inr)
      from promote_starts [OF p] True l' show thesis by (cases r) (auto intro: idle starts)
    next
      case quiet: False
      with assms Some False have "l' = l \<and> w' = w" by (cases "cv_state v = Active") (auto simp: visit_contract_def act_Inr)
      then show thesis using idle by (simp add: bookkept_def)
    qed
  qed
qed

lemma visit_all_invariant:
  assumes "\<And>v l w l' w'. P l w \<Longrightarrow> f v l w = (Inr l', w') \<Longrightarrow> P l' w'"
  shows "P l w \<Longrightarrow> visit_all f vs l w = (Inr l', w') \<Longrightarrow> P l' w'"
proof (induction vs arbitrary: l w)
  case (Cons v vs)
  from Cons.prems(2) obtain l1 w1 where "f v l w = (Inr l1, w1)" "visit_all f vs l1 w1 = (Inr l', w')" by (auto simp: act_Inr)
  then show ?case using Cons.IH assms [OF Cons.prems(1)] by blast
qed (simp add: act_Inr)

text \<open>The ledger names the contracts of the attempts that were started, and each of them still has its contract.\<close>

definition pass_ok :: "fairness_config \<Rightarrow> tick_loop \<Rightarrow> world \<Rightarrow> bool" where
  "pass_ok cfg l w \<longleftrightarrow> ledger_ok (tl_ledger l) \<and> cl_config (tl_ledger l) = cfg \<and> cl_dispatched (tl_ledger l) = map sd_contract (tl_started l) \<and>
     (\<forall>st \<in> set (tl_started l). handed_over (wo_store w) st)"

lemma visit_keeps_pass_ok:
  assumes "pass_ok cfg l w" and "visit_contract x reg now clocks counts v l w = (Inr l', w')"
  shows "pass_ok cfg l' w'"
  using assms(2)
proof (cases rule: visit_cases)
  case idle
  then show ?thesis using assms(1) handed_over_books by (auto simp: pass_ok_def)
next
  case (starts st s)
  note e = starts_effect [OF starts(6)]
  have others: "sd_contract st0 \<noteq> cv_contract_id v" if "st0 \<in> set (tl_started l)" for st0
  proof
    assume "sd_contract st0 = cv_contract_id v"
    then have "cv_contract_id v \<in> set (cl_dispatched (tl_ledger l))" using that assms(1) by (force simp: pass_ok_def)
    then show False using starts(3) by (simp add: can_dispatch_def)
  qed
  have "handed_over (wo_store w') st0" if "st0 \<in> set (tl_started l)" for st0
    using that e(4) others assms(1) handed_over_books [OF starts(4)] by (auto simp: pass_ok_def)
  moreover have "cl_dispatched (tl_ledger l') = cv_contract_id v # cl_dispatched (tl_ledger l)"
    using starts(2,3) by (auto simp: record_dispatch_def can_dispatch_def split: if_splits)
  ultimately show ?thesis using assms(1) starts(1-3) e(1,2)
    by (simp add: pass_ok_def record_dispatch_ok record_dispatch_config)
qed

lemma pass_ok_run:
  assumes "run_daemon_tick x False reg now w = (Inr r, w')"
  obtains l where "pass_ok (tk_fairness x) l w'" and "tr_started r = rev (tl_started l)"
proof -
  let ?l0 = "\<lparr>tl_ledger = \<lparr>cl_config = tk_fairness x, cl_dispatched = []\<rparr>, tl_expired = 0, tl_started = []\<rparr>"
  from assms obtain clocks counts vs l w1 where v: "visit_all (visit_contract x reg now clocks counts) vs ?l0 w1 = (Inr l, w')"
    and r: "tr_started r = rev (tl_started l)"
    by (auto simp: run_daemon_tick_def act_Inr)
  have "pass_ok (tk_fairness x) ?l0 w1" by (simp add: pass_ok_def ledger_ok_def)
  then have "pass_ok (tk_fairness x) l w'"
    using visit_all_invariant [of "pass_ok (tk_fairness x)" "visit_contract x reg now clocks counts", OF _ _ v] visit_keeps_pass_ok by blast
  then show thesis using that r by blast
qed

section \<open>Properties\<close>

text \<open>
  C9: The scheduler starts an attempt only when it may. A visit of a contract that starts an attempt visits an active contract, not a candidate,
  before its deadline, with no live lease, in an open dispatch window, with dispatches and cost left, whose workspace no other live contract
  holds and which this pass has not dispatched yet; it starts one attempt, on an executor that matches, and charges it to the budget.
\<close>

theorem visit_starts_only_allowed:
  assumes "visit_contract x reg now clocks counts v l w = (Inr l', w')" and "tl_started l' \<noteq> tl_started l"
  shows "\<exists>st s. tl_started l' = st # tl_started l \<and> can_dispatch (tl_ledger l) (cv_contract_id v) \<and>
    st_leases s = st_leases (wo_store w) \<and> st_attempts s = st_attempts (wo_store w) \<and>
    dispatch_allowed x now v s \<and> starts x reg now v s st (wo_store w') \<and> handed_over (wo_store w') st \<and>
    count_attempts_by_role (wo_store w') (cv_contract_id v) ''executor'' COUNTED_STATES \<le> bu_max_dispatches (cd_budget (cv_draft v))"
  using assms(1)
proof (cases rule: visit_cases)
  case (starts st s)
  note e = starts_effect [OF starts(6)]
  have "count_attempts_by_role (wo_store w') (cv_contract_id v) ''executor'' COUNTED_STATES \<le> bu_max_dispatches (cd_budget (cv_draft v))"
    using e(3) starts(5) by (simp add: dispatch_allowed_def)
  with starts e(2) show ?thesis by (auto simp: bookkept_def)
qed (use assms(2) in simp)

text \<open>
  C10: A pass of the scheduler keeps within its capacity: it starts at most one attempt for a contract and, when the number of dispatches is limited,
  at most that many; and when it is over every attempt it started is recorded for its contract and holds its lease.
\<close>

theorem tick_within_capacity:
  assumes "run_daemon_tick x False reg now w = (Inr r, w')"
  shows "distinct (map sd_contract (tr_started r)) \<and> (\<forall>st \<in> set (tr_started r). handed_over (wo_store w') st) \<and>
    (0 < fc_max_dispatches_per_tick (tk_fairness x) \<longrightarrow> int (length (tr_started r)) \<le> fc_max_dispatches_per_tick (tk_fairness x))"
  using assms
proof (rule pass_ok_run)
  fix l
  assume p: "pass_ok (tk_fairness x) l w'" and r: "tr_started r = rev (tl_started l)"
  from p have "distinct (map sd_contract (tl_started l))" by (auto simp: pass_ok_def ledger_ok_def)
  moreover have "int (length (tl_started l)) \<le> fc_max_dispatches_per_tick (tk_fairness x)" if "0 < fc_max_dispatches_per_tick (tk_fairness x)"
    using p that by (auto simp: pass_ok_def ledger_ok_def)
  ultimately show ?thesis using p by (simp add: r pass_ok_def rev_map [symmetric])
qed

text \<open>
  C12: A contract past its deadline is arbitrated. In a reachable store, a visit of an overdue contract that is active or blocked does
  expire it: afterwards the stored contract is expired with its deadline missed, at the next revision, and nothing was started; the count of expired
  contracts grows exactly when the projection of the contract was also written. A visit of an overdue contract that may not become expired (a draft, or
  one that is paused) leaves everything as it was. In no case does the visit stop the pass.
\<close>

theorem overdue_contract_expires:
  assumes "runtime_steps h tz empty_store (wo_store w)" and "get_contract (wo_store w) (cv_contract_id v) = Some v"
    and "map_of clocks (cv_contract_id v) = Some clock" and "is_overdue clock now" and "cv_state v \<noteq> Expired"
  shows "\<exists>l' w'. visit_contract x reg now clocks counts v l w = (Inr l', w') \<and>
    (if cv_state v \<in> {Active, Blocked} then
       \<exists>v' s. get_contract (wo_store w') (cv_contract_id v) = Some v' \<and> cv_state v' = Expired \<and> cv_deadline_status v' = Missed \<and>
         cv_revision v' = cv_revision v + 1 \<and> wo_store w' = s \<and>
         l' = (if isl (fst (project_contract x v (w\<lparr>wo_store := s\<rparr>))) then l else l\<lparr>tl_expired := Suc (tl_expired l)\<rparr>)
     else l' = l \<and> w' = w)"
proof -
  let ?call = "daemon_update v Expired None (Some Missed) CONTRACT_EXPIRED [(''arbitrated_at'', JStr (tk_fmt x now))] now"
  have call: "uc_contract ?call = cv_contract_id v" "uc_request ?call = None" "uc_expected ?call = None" "uc_state ?call = Expired"
    "uc_deadline ?call = Some Missed" by (simp_all add: daemon_update_def)
  show ?thesis
  proof (cases "cv_state v \<in> {Active, Blocked}")
    case True
    then have "is_valid_transition (cv_state v) Expired" by (auto simp: contract_table)
    with reachable_update [OF assms(1), of ?call v "tk_zone x"] assms(2) obtain s where
      u: "update_contract_state (tk_zone x) ?call (wo_store w) = Inr (updated_view ?call v, s)"
      and g: "get_contract s (cv_contract_id v) = Some (updated_view ?call v)" by (auto simp: call)
    obtain r w' where p: "project_contract x v (w\<lparr>wo_store := s\<rparr>) = (r, w')" by fastforce
    have "wo_store w' = s"
      using project_store [of "tk_judge x" "cv_contract_id v" "w\<lparr>wo_store := s\<rparr>"] p by (simp add: project_contract_def)
    moreover have "expire_contract x now v w = (Inr (\<not> isl r), w')"
      using u p by (cases r) (simp_all add: expire_contract_def abind_eq acommit_def)
    moreover have "cv_state (updated_view ?call v) = Expired \<and> cv_deadline_status (updated_view ?call v) = Missed"
      using call by (simp add: updated_view_def or_else_def)
    ultimately show ?thesis
      using True assms(3-5) g p by (auto simp: visit_contract_def abind_eq apure_def)
  next
    case False
    then have "\<not> is_valid_transition (cv_state v) Expired" using assms(5) by (cases "cv_state v") (auto simp: contract_table)
    then have "update_contract_state (tk_zone x) ?call (wo_store w) = Inl (IllegalStateTransitionError (cv_state v) Expired)"
      using assms(2,5) by (simp add: update_fresh call)
    then have "expire_contract x now v w = (Inr False, w)"
      by (simp add: expire_contract_def abind_eq acommit_def)
    then show ?thesis using False assms(3-5) by (auto simp: visit_contract_def abind_eq apure_def)
  qed
qed

text \<open>An overdue contract that is paused fails to expire in every pass.\<close>

lemma overdue_paused_contract_stays:
  assumes "get_contract (wo_store w) (cv_contract_id v) = Some v" and "cv_state v \<in> {Drafted, Paused}"
  shows "expire_contract x now v w = (Inr False, w)"
  using assms by (auto simp: expire_contract_def abind_eq acommit_def update_fresh daemon_update_def contract_table)

text \<open>An active contract whose deadline is near, before an executor that it authorises.\<close>

definition urgent_view :: contract_view where
  "urgent_view = sample_view\<lparr>cv_state := Active, cv_draft := sample_contract_draft\<lparr>cd_authority := sample_authority\<rparr>\<rparr>"

definition urgent_world :: world where
  "urgent_world = \<lparr>wo_store = set_contract ''c1'' urgent_view empty_store, wo_files = []\<rparr>"

definition urgent_registry :: registry where
  "urgent_registry = [(''a'', sample_entry ''a'' LowCost [''m'']), (''b'', sample_entry ''b'' HighCost [''m''])]"

lemma urgent_simps [simp]:
  "cv_state urgent_view = Active" "cv_acceptance_status urgent_view = Pending" "cv_contract_id urgent_view = ''c1''"
  "cv_draft urgent_view = sample_contract_draft\<lparr>cd_authority := sample_authority\<rparr>" "cv_goal_id urgent_view = ''c1''"
  "cv_next_decision_at urgent_view = None" "cv_next_wakeup_at urgent_view = None"
  by (simp_all add: urgent_view_def sample_view_def)

lemma urgent_dispatch:
  assumes "st_leases (wo_store w) = []" and "st_attempts (wo_store w) = []"
  shows "\<exists>st w'. dispatch_contract sample_tick_env urgent_registry 0 urgent_view Respawn w = (Inr (Some st), w')"
proof -
  let ?e = "sample_entry ''b'' HighCost [''m'']"
  let ?call = "\<lparr>dp_contract = urgent_view, dp_candidates = [?e], dp_now = 0, dp_tier = Respawn, dp_seq = last_chars 4 ''c1''\<rparr>"
  have running: "count_running_by_executor (wo_store w) = []" using assms by (simp add: count_running_by_executor_def)
  have "models_overlap [''m''] [''m'']" by (simp add: models_overlap_def)
  then have m: "match_candidates rp urgent_registry (DraftSource (cv_draft urgent_view)) [] ''executor'' = Inr [?e]" for rp
    by (simp add: urgent_registry_def sample_match)
  have "\<not> plan_gate_required urgent_view" by (simp add: plan_gate_required_def sample_contract_draft_def dict_get_def)
  moreover have "new_attempt_id (wo_store w) p = Some p" for p using assms by (simp add: new_attempt_id_def Let_def numeral_2_eq_2)
  moreover have "get_lease (wo_store w) ''c1'' None = None" using assms by (simp add: get_lease_def)
  moreover obtain l s1 where "claim_lease ?call ?e (''att-'' @ ''T'' @ ''-'' @ last_chars 4 ''c1'') None (wo_store w) = Inr (l, s1)"
    using assms by (simp add: claim_lease_def Let_def acquire_lease_def replayed_lease_def write_lease_def finish_lease_def lease_key_def get_lease_def
        partition_key_def)
  ultimately obtain st s' where "dispatch_attempt hd (\<lambda>t. ''T'') (\<lambda>e. Some (\<lambda>i. None)) ?call (wo_store w) = Inr (Some st, s')"
    by (simp add: dispatch_attempt_def Let_def)
  then show ?thesis using running m
    by (simp add: dispatch_contract_def Let_def abind_eq lift_py_def sample_tick_env_def sample_judge_env_def sample_rpc_env_def acommit_def)
qed

lemma urgent_measure: "measure sample_tick_env 0 urgent_view urgent_world = (Inr (Fin 3, 1 / 3600000000, Some (Fin 10800000000), Some Respawn), urgent_world)"
  by (simp add: measure_def remaining_workload_hours_def urgent_world_def sample_contract_draft_def hours_left_def deadline_of_def MINUTE_def SECOND_def
      float_urgency_def urgency_def float_tier_def classify_def DEFAULT_THRESHOLDS_def lift_py_def abind_eq)

lemma urgent_ladder: "ed_tier (decide (ladder_of (Some Respawn) n b 0 urgent_view (wo_store urgent_world))) = Some Respawn"
  by (simp add: decide_def ladder_of_def urgent_world_def get_lease_def empty_store_def dispatches_left_def count_attempts_by_role_def
      sample_contract_draft_def cost_left_def free_decision_def Let_def)

lemma urgent_promote:
  "\<exists>st w'. promote_contract sample_tick_env urgent_registry 0 counts \<lparr>cl_config = DEFAULT_FAIRNESS, cl_dispatched = []\<rparr> urgent_view urgent_world = (Inr (Some st), w')"
proof -
  let ?x = sample_tick_env and ?v = urgent_view
  let ?li = "ladder_of (Some Respawn) (fst counts) (snd counts) 0 ?v (wo_store urgent_world)"
  have risk: "notify_risk ?x 0 ?v remaining left u tier w = (Inr (), w)" for remaining left u tier w
    by (simp add: notify_risk_def Let_def sample_contract_draft_def default_attention_def)
  have schedule: "\<exists>w2. schedule_decision ?x 0 ?v t y w = (Inr (), w2)" for t y w
    by (simp add: schedule_decision_def split: option.split)
  have forecast: "\<exists>w2. record_forecast ?x 0 ?v remaining left t w = (Inr (), w2)" for remaining left t w
    by (simp add: record_forecast_def Let_def promoter_event_def)
  obtain w2 where w2: "schedule_decision ?x 0 ?v (next_decision_of ?x 0 ?v (wo_store urgent_world) (Some Respawn))
      (next_decision_reason (Some Respawn) (li_lease_alive ?li) (li_dispatches_left ?li)) urgent_world = (Inr (), w2)"
    using schedule by blast
  obtain w3 where w3: "record_forecast ?x 0 ?v (Fin 3) (1 / 3600000000) (next_decision_of ?x 0 ?v (wo_store urgent_world) (Some Respawn)) w2 = (Inr (), w3)"
    using forecast by blast
  have "bookkept (wo_store urgent_world) (wo_store w3)"
    using bookkept_trans [OF books_run [OF books_kept(2) w2] books_run [OF books_kept(4) w3]] .
  then have "st_leases (wo_store w3) = []" "st_attempts (wo_store w3) = []" by (simp_all add: bookkept_def urgent_world_def empty_store_def)
  then obtain st w' where d: "dispatch_contract ?x urgent_registry 0 ?v Respawn w3 = (Inr (Some st), w')" using urgent_dispatch by blast
  have "workspace_holder_other_than ?x ?v 0 s = None" for s
    by (simp add: workspace_holder_other_than_def contract_workspace_def sample_contract_draft_def dict_get_def)
  moreover have "dispatch_window (cv_draft ?v) = None" by (simp add: dispatch_window_def sample_contract_draft_def dict_get_def)
  ultimately have "try_dispatch ?x urgent_registry 0 \<lparr>cl_config = DEFAULT_FAIRNESS, cl_dispatched = []\<rparr> ?v alive Respawn w3 = (Inr (Some st), w')" for alive
    using d by (simp add: try_dispatch_def can_dispatch_def DEFAULT_FAIRNESS_def)
  then show ?thesis using urgent_measure urgent_ladder risk w2 w3
    by (simp add: promote_contract_def abind_eq Let_def act_on_def)
qed

lemma urgent_visit:
  assumes "map_of clocks ''c1'' = Some clock" and "\<not> is_overdue clock 0" and "tl_ledger l = \<lparr>cl_config = DEFAULT_FAIRNESS, cl_dispatched = []\<rparr>"
  shows "\<exists>st l' w'. visit_contract sample_tick_env urgent_registry 0 clocks counts urgent_view l urgent_world = (Inr l', w') \<and> tl_started l' = st # tl_started l"
proof -
  obtain st w' where "promote_contract sample_tick_env urgent_registry 0 (case map_of counts ''c1'' of None \<Rightarrow> (0, False) | Some c \<Rightarrow> c) (tl_ledger l)
      urgent_view urgent_world = (Inr (Some st), w')"
    using urgent_promote assms(3) by fastforce
  then show ?thesis using assms(1,2) by (simp add: visit_contract_def abind_eq)
qed

theorem visit_starts_only_allowed_witness:
  "\<exists>st l' w'. visit_contract sample_tick_env urgent_registry 0 [(''c1'', \<lparr>ck_deadline = 1, ck_next_wakeup = 0, ck_arbitrated = None\<rparr>)] [] urgent_view
     \<lparr>tl_ledger = \<lparr>cl_config = DEFAULT_FAIRNESS, cl_dispatched = []\<rparr>, tl_expired = 0, tl_started = []\<rparr> urgent_world = (Inr l', w') \<and>
     tl_started l' = [st] \<and> handed_over (wo_store w') st \<and> sd_contract st = ''c1''"
proof -
  let ?l = "\<lparr>tl_ledger = \<lparr>cl_config = DEFAULT_FAIRNESS, cl_dispatched = []\<rparr>, tl_expired = 0, tl_started = []\<rparr>"
    and ?clocks = "[(''c1'', \<lparr>ck_deadline = 1, ck_next_wakeup = 0, ck_arbitrated = None\<rparr>)]"
  obtain st l' w' where r: "visit_contract sample_tick_env urgent_registry 0 ?clocks [] urgent_view ?l urgent_world = (Inr l', w')" "tl_started l' = [st]"
    using urgent_visit [of ?clocks _ ?l "[]"] by (auto simp: is_overdue_def)
  from visit_starts_only_allowed [OF r(1)] r(2) obtain s where
    "starts sample_tick_env urgent_registry 0 urgent_view s st (wo_store w')" "handed_over (wo_store w') st" by auto
  with r starts_effect(1) show ?thesis by fastforce
qed

lemma urgent_run:
  "\<exists>st r w'. run_daemon_tick sample_tick_env False urgent_registry 0 urgent_world = (Inr r, w') \<and> tr_started r = [st]"
proof -
  let ?clocks = "[(''c1'', \<lparr>ck_deadline = 1, ck_next_wakeup = 60000000, ck_arbitrated = None\<rparr>)]"
    and ?l = "\<lparr>tl_ledger = \<lparr>cl_config = DEFAULT_FAIRNESS, cl_dispatched = []\<rparr>, tl_expired = 0, tl_started = []\<rparr>"
  have all: "list_contracts None None 1000 (wo_store urgent_world) = [urgent_view]"
    by (simp add: list_contracts_def urgent_world_def empty_store_def sql_limit_def)
  have judge: "judge_verifier_outcomes (tk_judge sample_tick_env) 0 urgent_world = (Inr (), urgent_world)"
  proof -
    have "last_verdict urgent_view (wo_store urgent_world) = None"
      by (simp add: last_verdict_def get_events_def urgent_world_def empty_store_def empty_log_def sql_limit_def)
    then show ?thesis by (simp add: judge_verifier_outcomes_def all judge_contract_def abind_eq)
  qed
  have deadline: "deadline_of (cv_draft urgent_view) = 1" by (simp add: sample_contract_draft_def deadline_of_def)
  have order: "order_contracts tiers [urgent_view] = [urgent_view]" for tiers
    by (simp add: order_contracts_def apply_fairness_order_alt starved_id_def map_filter_simps)
  obtain counts where prepare: "prepare_pass sample_tick_env urgent_registry 0 urgent_world = (Inr (?clocks, counts, [urgent_view]), urgent_world)"
    using urgent_measure deadline
    by (simp add: prepare_pass_def all abind_eq clock_of_def is_overdue_def SECOND_def contract_table order or_else_def)
  obtain st l' w' where "visit_contract sample_tick_env urgent_registry 0 ?clocks counts urgent_view ?l urgent_world = (Inr l', w')" "tl_started l' = [st]"
    using urgent_visit [of ?clocks _ ?l counts] by (auto simp: is_overdue_def)
  then show ?thesis using judge prepare by (simp add: run_daemon_tick_def abind_eq) (simp add: sample_tick_env_def)
qed

theorem tick_within_capacity_witness:
  "\<exists>st r w'. run_daemon_tick sample_tick_env False urgent_registry 0 urgent_world = (Inr r, w') \<and> tr_started r = [st] \<and> handed_over (wo_store w') st"
proof -
  obtain st r w' where r: "run_daemon_tick sample_tick_env False urgent_registry 0 urgent_world = (Inr r, w')" "tr_started r = [st]"
    using urgent_run by blast
  from tick_within_capacity [OF r(1)] r show ?thesis by auto
qed

text \<open>An active contract, four seconds late.\<close>

theorem overdue_contract_expires_witness:
  "\<exists>s l' w' v'. runtime_steps unary_host sample_tz empty_store s \<and>
     visit_contract sample_tick_env [] 5 [(''c1'', \<lparr>ck_deadline = 1, ck_next_wakeup = 0, ck_arbitrated = None\<rparr>)] []
       (updated_view (sample_update Active (Some 1)) sample_view)
       \<lparr>tl_ledger = \<lparr>cl_config = DEFAULT_FAIRNESS, cl_dispatched = []\<rparr>, tl_expired = 0, tl_started = []\<rparr>
       \<lparr>wo_store = s, wo_files = []\<rparr> = (Inr l', w') \<and> tl_started l' = [] \<and>
     get_contract (wo_store w') ''c1'' = Some v' \<and> cv_state v' = Expired \<and> cv_deadline_status v' = Missed"
proof -
  let ?v = "updated_view (sample_update Active (Some 1)) sample_view"
  let ?clocks = "[(''c1'', \<lparr>ck_deadline = 1, ck_next_wakeup = 0, ck_arbitrated = None\<rparr>)]"
  let ?l = "\<lparr>tl_ledger = \<lparr>cl_config = DEFAULT_FAIRNESS, cl_dispatched = []\<rparr>, tl_expired = 0, tl_started = []\<rparr>"
  have i: "cv_contract_id ?v = ''c1''" "cv_state ?v = Active" "cv_contract_id sample_view = ''c1''" by (simp_all add: sample_view_def)
  from active_sample obtain s where s: "runtime_steps unary_host sample_tz empty_store s" "get_contract s ''c1'' = Some ?v" by blast
  then have r: "runtime_steps unary_host sample_tz empty_store (wo_store \<lparr>wo_store = s, wo_files = []\<rparr>)"
    "get_contract (wo_store \<lparr>wo_store = s, wo_files = []\<rparr>) (cv_contract_id ?v) = Some ?v" by (simp_all add: i)
  have c: "map_of ?clocks (cv_contract_id ?v) = Some \<lparr>ck_deadline = 1, ck_next_wakeup = 0, ck_arbitrated = None\<rparr>" by (simp add: i)
  have o': "is_overdue \<lparr>ck_deadline = 1, ck_next_wakeup = 0, ck_arbitrated = None\<rparr> 5" by (simp add: is_overdue_def)
  have n: "cv_state ?v \<noteq> Expired" by simp
  from overdue_contract_expires [OF r c o' n, of sample_tick_env "[]" "[]" ?l] obtain l' w' v' where
    "visit_contract sample_tick_env [] 5 ?clocks [] ?v ?l \<lparr>wo_store = s, wo_files = []\<rparr> = (Inr l', w')"
    "get_contract (wo_store w') ''c1'' = Some v'" "cv_state v' = Expired" "cv_deadline_status v' = Missed" "tl_started l' = []"
    by (auto simp: i split: if_splits)
  with s show ?thesis by blast
qed

end
