(* ===== verification/Inbox.thy ===== *)
theory Inbox
  imports Goal_Store
begin

text \<open>
  Messages to the working agents: \<open>lhgp/persistence/messages.py\<close>, and the delivery of directives of \<open>longtask/persistence/context.py\<close>: the
  cursor of an agent, the directives that it has acknowledged, the choice for a snapshot, and what is recorded once the executor runs.
  The section on delivery shows that a directive reaches an agent exactly once and that none is lost.
\<close>

section \<open>Messages\<close>

definition AGENT_MESSAGE :: event_type where "AGENT_MESSAGE = ''agent/message''"
definition DIRECTIVE_ACKNOWLEDGED :: event_type where "DIRECTIVE_ACKNOWLEDGED = ''directive/acknowledged''"

definition VALID_KINDS :: "string list" where
  "VALID_KINDS = [''directive'', ''context'', ''question'', ''handover'']"

record message_call =
  mc_contract :: string
  mc_from :: string
  mc_kind :: string
  mc_text :: string
  mc_now :: int
  mc_goal :: "string option"
  mc_to :: "string option"

definition message_event :: "message_call \<Rightarrow> new_event" where
  "message_event m = (event_call (Some (mc_contract m)) AGENT_MESSAGE [(''from'', JStr (mc_from m)), (''kind'', JStr (mc_kind m)),
     (''text'', JStr (mc_text m)), (''to_agent'', jopt JStr (mc_to m))] (mc_now m))
     \<lparr>ne_goal := Some (text_or (mc_goal m) (mc_contract m)), ne_actor := mc_from m\<rparr>"

definition send_message :: "message_call \<Rightarrow> store \<Rightarrow> py_error + int \<times> store" where
  "send_message m s =
     (if mc_kind m \<notin> set VALID_KINDS then Inl (ValueError ''invalid message kind'')
      else (let (e, s') = log_event (message_event m) s in Inr (ev_id e, s')))"

record message =
  ms_id :: int
  ms_at :: int
  ms_from :: json
  ms_kind :: json
  ms_text :: json
  ms_to :: json

definition message_of :: "event \<Rightarrow> message" where
  "message_of e = \<lparr>ms_id = ev_id e, ms_at = ev_created e, ms_from = dict_get_or (ev_payload e) ''from'' (JStr ''unknown''),
     ms_kind = dict_get_or (ev_payload e) ''kind'' (JStr ''unknown''), ms_text = dict_get_or (ev_payload e) ''text'' (JStr []),
     ms_to = dict_get (ev_payload e) ''to_agent''\<rparr>"

definition get_messages :: "string \<Rightarrow> string option \<Rightarrow> int \<Rightarrow> event_log \<Rightarrow> message list" where
  "get_messages contract_id kind after l = map message_of (filter (\<lambda>e. ev_type e = AGENT_MESSAGE \<and>
     (text_or kind [] = [] \<or> dict_get (ev_payload e) ''kind'' = JStr (text_or kind []))) (get_events (Some contract_id) (Some after) [] None l))"

text \<open>A message is skipped when both it and the reader name an agent and the names differ.\<close>

definition wanted_message :: "string option \<Rightarrow> int option \<Rightarrow> int option \<Rightarrow> int list \<Rightarrow> message \<Rightarrow> bool" where
  "wanted_message to_agent now max_age seen m \<longleftrightarrow>
     (ms_to m = JNull \<or> (case to_agent of None \<Rightarrow> True | Some a \<Rightarrow> ms_to m = JStr a)) \<and>
     (case (max_age, now) of (Some age, Some t) \<Rightarrow> t - ms_at m \<le> age * SECOND | _ \<Rightarrow> True) \<and>
     ms_id m \<notin> set seen"

definition pending_directives :: "string \<Rightarrow> int \<Rightarrow> string option \<Rightarrow> int option \<Rightarrow> int option \<Rightarrow> int list \<Rightarrow> event_log \<Rightarrow> message list" where
  "pending_directives contract_id after to_agent now max_age seen l =
     filter (wanted_message to_agent now max_age seen) (get_messages contract_id (Some ''directive'') after l)"

section \<open>The cursors\<close>

text \<open>
  The column \<open>continuity_json\<close> of a contract, as far as it differs from the draft: the delivery keeps its cursors there, beside the
  continuity of the draft, which ignores them.
\<close>

type_synonym sidecar = "(string \<times> dict) list"

definition continuity_column :: "sidecar \<Rightarrow> store \<Rightarrow> string \<Rightarrow> dict option" where
  "continuity_column side s contract_id = (case get_contract s contract_id of
     None \<Rightarrow> None
   | Some v \<Rightarrow> Some (case map_of side contract_id of
       Some d \<Rightarrow> d
     | None \<Rightarrow> (case continuity_to_dict (cd_continuity (cv_draft v)) of JObj d \<Rightarrow> d | _ \<Rightarrow> [])))"

definition cursor_key :: "string option \<Rightarrow> string" where
  "cursor_key to_agent = ''_directive_cursor'' @ (case to_agent of None \<Rightarrow> [] | Some a \<Rightarrow> ''::'' @ a)"

definition ack_key :: "string option \<Rightarrow> string" where
  "ack_key to_agent = cursor_key to_agent @ (case to_agent of None \<Rightarrow> ''_ack'' | Some a \<Rightarrow> ''::_ack'')"

definition read_directive_cursor :: "sidecar \<Rightarrow> store \<Rightarrow> string \<Rightarrow> string option \<Rightarrow> py_error + int" where
  "read_directive_cursor side s contract_id to_agent = (case continuity_column side s contract_id of
     None \<Rightarrow> Inr 0
   | Some d \<Rightarrow> (case py_int (dict_get_or d (cursor_key to_agent) (JInt 0)) of
       Inl (TypeError t) \<Rightarrow> Inr 0 | Inl (ValueError t) \<Rightarrow> Inr 0 | r \<Rightarrow> r))"

fun int_item :: "json \<Rightarrow> int option" where
  "int_item (JInt i) = Some i"
| "int_item (JBool b) = Some (if b then 1 else 0)"
| "int_item _ = None"

definition ack_items :: "dict \<Rightarrow> string option \<Rightarrow> json list" where
  "ack_items d to_agent = (case dict_get_or d (ack_key to_agent) (JList []) of JList xs \<Rightarrow> xs | _ \<Rightarrow> [])"

definition read_acknowledged_directives :: "sidecar \<Rightarrow> store \<Rightarrow> string \<Rightarrow> string option \<Rightarrow> int list" where
  "read_acknowledged_directives side s contract_id to_agent = (case continuity_column side s contract_id of
     None \<Rightarrow> [] | Some d \<Rightarrow> List.map_filter int_item (ack_items d to_agent))"

text \<open>
  SQLite on a JSON object: \<open>COALESCE(CAST(json_extract(..) AS INTEGER), 0)\<close> and \<open>json_set\<close> at a path that is \<open>$.\<close> and a key.
\<close>

record sql_json =
  sq_int :: "dict \<Rightarrow> string \<Rightarrow> int"
  sq_set :: "dict \<Rightarrow> string \<Rightarrow> int \<Rightarrow> dict"

definition bump_directive_cursor_atomic :: "sql_json \<Rightarrow> store \<Rightarrow> string \<Rightarrow> string \<Rightarrow> int \<Rightarrow> sidecar \<Rightarrow> bool \<times> sidecar" where
  "bump_directive_cursor_atomic q s contract_id key new_id side = (case continuity_column side s contract_id of
     None \<Rightarrow> (False, side)
   | Some d \<Rightarrow> if sq_int q d key < max (sq_int q d key) new_id
       then (True, put contract_id (sq_set q d key (max (sq_int q d key) new_id)) side) else (False, side))"

text \<open>The write of a cursor that reads the column first, which no one calls.\<close>

definition bump_directive_cursor :: "string \<Rightarrow> int \<Rightarrow> string option \<Rightarrow> store \<Rightarrow> sidecar \<Rightarrow> py_error + sidecar" where
  "bump_directive_cursor contract_id new_id to_agent s side = (case continuity_column side s contract_id of
     None \<Rightarrow> Inr side
   | Some d \<Rightarrow> sbind (read_directive_cursor side s contract_id to_agent) (\<lambda>current.
       Inr (if new_id \<le> current then side else put contract_id (put (cursor_key to_agent) (JInt new_id) d) side)))"

text \<open>The ids that were not seen before, each once; the last thousand; and Python's \<open>max\<close> of a list of JSON values.\<close>

fun fresh_ids :: "int list \<Rightarrow> int list \<Rightarrow> int list" where
  "fresh_ids seen [] = []"
| "fresh_ids seen (i # is) = (if i \<in> set seen then fresh_ids seen is else i # fresh_ids (i # seen) is)"

definition last_items :: "nat \<Rightarrow> 'a list \<Rightarrow> 'a list" where
  "last_items n xs = drop (length xs - n) xs"

fun number_of :: "json \<Rightarrow> pyfloat option" where
  "number_of (JInt i) = Some (Fin (of_int i))"
| "number_of (JBool b) = Some (Fin (if b then 1 else 0))"
| "number_of (JFloat f) = Some f"
| "number_of _ = None"

fun py_max :: "json \<Rightarrow> json list \<Rightarrow> py_error + json" where
  "py_max m [] = Inr m"
| "py_max m (x # xs) = (case (number_of m, number_of x) of
     (Some a, Some b) \<Rightarrow> py_max (if float_lt a b then x else m) xs
   | _ \<Rightarrow> Inl (TypeError ''not supported between instances''))"

definition ack_event :: "string \<Rightarrow> string option \<Rightarrow> json \<Rightarrow> int \<Rightarrow> int \<Rightarrow> new_event" where
  "ack_event contract_id to_agent position now did = (event_call (Some contract_id) DIRECTIVE_ACKNOWLEDGED
     [(''directive_event_id'', JInt did), (''to_agent'', jopt JStr to_agent), (''cursor_position'', position)] now)
     \<lparr>ne_actor := ''agent:'' @ text_or to_agent ''broadcast''\<rparr>"

definition record_directive_acks :: "string \<Rightarrow> string option \<Rightarrow> int list \<Rightarrow> int \<Rightarrow> sidecar \<times> store \<Rightarrow> py_error + sidecar \<times> store" where
  "record_directive_acks contract_id to_agent consumed now = (\<lambda>(side, s). case continuity_column side s contract_id of
     None \<Rightarrow> Inr (side, s)
   | Some d \<Rightarrow>
       (let existing = ack_items d to_agent; new_acks = fresh_ids (List.map_filter int_item existing) consumed in
        if new_acks = [] then Inr (side, s)
        else (let merged = last_items 1000 (existing @ map JInt new_acks) in
          sbind (py_max (hd merged) (tl merged)) (\<lambda>position.
          Inr (put contract_id (put (ack_key to_agent) (JList merged) d) side,
            fold (\<lambda>i s. snd (log_event (ack_event contract_id to_agent position now i) s)) new_acks s)))))"

definition mark_directives_consumed ::
  "sql_json \<Rightarrow> string \<Rightarrow> int \<Rightarrow> string option \<Rightarrow> int list \<Rightarrow> int option \<Rightarrow> sidecar \<times> store \<Rightarrow> py_error + bool \<times> sidecar \<times> store" where
  "mark_directives_consumed q contract_id new_id to_agent consumed now = (\<lambda>(side, s).
     let (moved, side') = bump_directive_cursor_atomic q s contract_id (cursor_key to_agent) new_id side in
     case now of
       Some t \<Rightarrow> if consumed = [] then Inr (moved, side', s)
         else sbind (record_directive_acks contract_id to_agent consumed t (side', s)) (\<lambda>(side'', s'). Inr (moved, side'', s'))
     | None \<Rightarrow> Inr (moved, side', s))"

text \<open>The directives that a snapshot takes, the number of those that wait, the ids it takes and the cursor behind them.\<close>

record directive_choice =
  ch_directives :: "message list"
  ch_waiting :: nat
  ch_ids :: "int list"
  ch_cursor :: int

definition choose_directives :: "string \<Rightarrow> string option \<Rightarrow> int \<Rightarrow> int option \<Rightarrow> sidecar \<Rightarrow> store \<Rightarrow> py_error + directive_choice" where
  "choose_directives contract_id to_agent now max_age side s = sbind (read_directive_cursor side s contract_id to_agent) (\<lambda>cursor.
     let raw = pending_directives contract_id cursor to_agent (Some now) max_age
           (read_acknowledged_directives side s contract_id to_agent) (st_log s);
         taken = take 20 raw; ids = map ms_id taken in
     Inr \<lparr>ch_directives = taken, ch_waiting = length raw, ch_ids = ids, ch_cursor = (if ids = [] then cursor else Max (set ids))\<rparr>)"


section \<open>Delivery\<close>

text \<open>What the runner does around the start of an executor: choose, and record once it runs.\<close>

definition deliver :: "sql_json \<Rightarrow> string \<Rightarrow> string option \<Rightarrow> int \<Rightarrow> int option \<Rightarrow> sidecar \<times> store \<Rightarrow>
    py_error + directive_choice \<times> sidecar \<times> store" where
  "deliver q contract_id to_agent now max_age = (\<lambda>(side, s). sbind (choose_directives contract_id to_agent now max_age side s) (\<lambda>ch.
     sbind (mark_directives_consumed q contract_id (ch_cursor ch) to_agent (ch_ids ch) (Some now) (side, s)) (\<lambda>(moved, st). Inr (ch, st))))"

text \<open>SQLite reads and writes a member whose name has no character that is special in a path.\<close>

definition plain_key :: "string \<Rightarrow> bool" where
  "plain_key k \<longleftrightarrow> set k \<inter> {CHR ''.'', CHR ''['', CHR 0x22} = {}"

definition sql_ok :: "sql_json \<Rightarrow> bool" where
  "sql_ok q \<longleftrightarrow> (\<forall>d k. plain_key k \<longrightarrow> (map_of d k = None \<longrightarrow> sq_int q d k = 0) \<and> (\<forall>i. map_of d k = Some (JInt i) \<longrightarrow> sq_int q d k = i) \<and>
     (\<forall>n. map_of (sq_set q d k n) = (map_of d)(k \<mapsto> JInt n)))"

definition plain_agent :: "string option \<Rightarrow> bool" where
  "plain_agent a \<longleftrightarrow> (case a of None \<Rightarrow> True | Some t \<Rightarrow> set t \<inter> {CHR ''.'', CHR ''['', CHR 0x22, CHR '':''} = {})"

lemma cursor_key_plain: "plain_agent a \<Longrightarrow> plain_key (cursor_key a)"
  by (auto simp: plain_key_def cursor_key_def plain_agent_def split: option.splits)

lemma cursor_key_inject: "cursor_key a = cursor_key b \<longleftrightarrow> a = b"
  by (auto simp: cursor_key_def split: option.splits)

lemma ack_key_inject: "ack_key a = ack_key b \<longleftrightarrow> a = b"
  by (auto simp: ack_key_def cursor_key_def split: option.splits)

lemma cursor_not_ack: "plain_agent a \<Longrightarrow> cursor_key a \<noteq> ack_key b"
proof
  assume a: "plain_agent a" and e: "cursor_key a = ack_key b"
  show False
  proof (cases a)
    case None
    then show False using e by (cases b) (auto simp: ack_key_def cursor_key_def)
  next
    case (Some t)
    with e have "\<exists>u. b = Some u \<and> t = u @ ''::_ack''" by (cases b) (auto simp: ack_key_def cursor_key_def)
    then show False using a Some by (auto simp: plain_agent_def)
  qed
qed

text \<open>The cursor and the acknowledgements of an agent as numbers.\<close>

definition cursor_at :: "dict \<Rightarrow> string option \<Rightarrow> int" where
  "cursor_at d a = (case map_of d (cursor_key a) of Some (JInt i) \<Rightarrow> i | _ \<Rightarrow> 0)"

definition book_ok :: "dict \<Rightarrow> string option \<Rightarrow> bool" where
  "book_ok d a \<longleftrightarrow> (map_of d (cursor_key a) = None \<or> (\<exists>i. map_of d (cursor_key a) = Some (JInt i))) \<and>
     (map_of d (ack_key a) = None \<or> (\<exists>ks. map_of d (ack_key a) = Some (JList (map JInt ks)) \<and> (\<forall>k \<in> set ks. k \<le> cursor_at d a)))"

definition inbox_ok :: "string \<Rightarrow> sidecar \<times> store \<Rightarrow> bool" where
  "inbox_ok c st \<longleftrightarrow> log_ok (st_log (snd st)) \<and>
     (\<exists>d. continuity_column (fst st) (snd st) c = Some d \<and> (\<forall>a. plain_agent a \<longrightarrow> book_ok d a))"

definition waiting :: "string \<Rightarrow> string option \<Rightarrow> int \<Rightarrow> int option \<Rightarrow> sidecar \<times> store \<Rightarrow> message list" where
  "waiting c a now age st = (case read_directive_cursor (fst st) (snd st) c a of
     Inl e \<Rightarrow> []
   | Inr n \<Rightarrow> pending_directives c n a (Some now) age (read_acknowledged_directives (fst st) (snd st) c a) (st_log (snd st)))"

definition directive_row :: "string \<Rightarrow> string option \<Rightarrow> int \<Rightarrow> int option \<Rightarrow> event \<Rightarrow> bool" where
  "directive_row c a now age e \<longleftrightarrow> ev_contract e = Some c \<and> ev_type e = AGENT_MESSAGE \<and> dict_get (ev_payload e) ''kind'' = JStr ''directive'' \<and>
     wanted_message a (Some now) age [] (message_of e)"

lemma map_filter_JInt: "List.map_filter int_item (map JInt ks) = ks"
  by (induction ks) (simp_all add: map_filter_simps)

lemma cursor_read:
  assumes "continuity_column side s c = Some d" and "book_ok d a"
  shows "read_directive_cursor side s c a = Inr (cursor_at d a)" "\<forall>k \<in> set (read_acknowledged_directives side s c a). k \<le> cursor_at d a"
  using assms by (auto simp: read_directive_cursor_def cursor_at_def book_ok_def dict_get_or_def read_acknowledged_directives_def ack_items_def map_filter_JInt
      split: option.splits)

lemma pending_rows:
  assumes "\<forall>k \<in> set ks. k \<le> n"
  shows "pending_directives c n a (Some now) age ks l = map message_of (filter (\<lambda>e. n < ev_id e \<and> directive_row c a now age e) (el_rows l))"
proof -
  have "wanted_message a (Some now) age ks (message_of e) = wanted_message a (Some now) age [] (message_of e)" if "n < ev_id e" for e
    using that assms by (auto simp: wanted_message_def message_of_def)
  then show ?thesis
    by (auto simp: pending_directives_def get_messages_def get_events_def directive_row_def filter_map comp_def text_or_def
        intro!: arg_cong [of _ _ "map message_of"] filter_cong)
qed

lemma waiting_rows:
  assumes "continuity_column side s c = Some d" and "book_ok d a"
  shows "waiting c a now age (side, s) = map message_of (filter (\<lambda>e. cursor_at d a < ev_id e \<and> directive_row c a now age e) (el_rows (st_log s)))"
  using cursor_read [OF assms] pending_rows by (simp add: waiting_def)

text \<open>In a list that is sorted by id, what lies behind the first few is what has a larger id than all of them.\<close>

lemma behind_taken:
  assumes "sorted_wrt (<) (map f xs)" and "take k xs \<noteq> []"
  shows "filter (\<lambda>x. Max (f ` set (take k xs)) < (f x :: int)) xs = drop k xs"
proof -
  let ?t = "take k xs"
  have s: "sorted_wrt (<) (map f ?t @ map f (drop k xs))" using assms(1) by (simp flip: map_append)
  have "\<not> Max (f ` set ?t) < f x" if "x \<in> set ?t" for x
    using that by (meson List.finite_set Max_ge finite_imageI imageI leD)
  moreover have "Max (f ` set ?t) < f x" if "x \<in> set (drop k xs)" for x
  proof -
    have "f y < f x" if "y \<in> set ?t" for y using s that \<open>x \<in> set (drop k xs)\<close> by (auto simp: sorted_wrt_append)
    then show ?thesis using assms(2) by (subst Max_less_iff) auto
  qed
  ultimately have "filter (\<lambda>x. Max (f ` set ?t) < f x) (?t @ drop k xs) = drop k xs"
    by (simp add: filter_empty_conv filter_id_conv del: append_take_drop_id)
  then show ?thesis by simp
qed

lemma fresh_ids_subset: "set (fresh_ids seen is) \<subseteq> set is"
  by (induction seen "is" rule: fresh_ids.induct) auto

lemma py_max_ints: "\<exists>j. py_max (JInt i) (map JInt is) = Inr (JInt j)"
  by (induction "is" arbitrary: i) auto

lemma last_items_map: "last_items n (map f xs) = map f (last_items n xs)"
  by (simp add: last_items_def drop_map)

lemma last_items_set: "set (last_items n xs) \<subseteq> set xs"
  by (simp add: last_items_def set_drop_subset)

lemma last_items_Nil: "last_items n xs = [] \<longleftrightarrow> n = 0 \<or> xs = []"
  by (cases xs; cases n) (auto simp: last_items_def)

text \<open>Acknowledging writes the book of one agent, and events that are no messages.\<close>

definition acked :: "store \<Rightarrow> store \<Rightarrow> bool" where
  "acked s s' \<longleftrightarrow> st_contracts s' = st_contracts s \<and> (log_ok (st_log s) \<longrightarrow> log_ok (st_log s')) \<and>
     (\<exists>es. el_rows (st_log s') = el_rows (st_log s) @ es \<and> (\<forall>e \<in> set es. ev_type e = DIRECTIVE_ACKNOWLEDGED))"

lemma acks_logged: "acked s (fold (\<lambda>i s. snd (log_event (ack_event c a p now i) s)) is s)"
proof (induction "is" arbitrary: s)
  case (Cons i "is")
  let ?s = "snd (log_event (ack_event c a p now i) s)"
  have "acked s ?s" by (auto simp: acked_def log_ok_append ack_event_def event_call_def)
  moreover have "acked s u" if "acked s t" "acked t u" for s t u using that by (fastforce simp: acked_def)
  ultimately show ?case using Cons by fastforce
qed (simp add: acked_def)

lemma column_put:
  "continuity_column side s c = Some d \<Longrightarrow> get_contract s' c = get_contract s c \<Longrightarrow> continuity_column (put c d' side) s' c = Some d'"
  by (auto simp: continuity_column_def map_of_put split: option.splits)

lemma record_acks:
  assumes "continuity_column side s c = Some d" and "map_of d (ack_key a) = None \<or> map_of d (ack_key a) = Some (JList (map JInt ks))"
  obtains side' d' s' where "record_directive_acks c a ids now (side, s) = Inr (side', s')" and "acked s s'" and "continuity_column side' s' c = Some d'"
    and "d' = d \<or> (\<exists>js. map_of d' = (map_of d)(ack_key a \<mapsto> JList (map JInt js)) \<and> set js \<subseteq> set ids \<union> (if map_of d (ack_key a) = None then {} else set ks))"
proof -
  define ks' where "ks' = (if map_of d (ack_key a) = None then [] else ks)"
  have items: "ack_items d a = map JInt ks'" using assms(2) by (auto simp: ack_items_def dict_get_or_def ks'_def)
  let ?new = "fresh_ids ks' ids"
  show thesis
  proof (cases "?new = []")
    case True
    then show thesis using that [of side s d] assms(1) by (simp add: record_directive_acks_def items map_filter_JInt acked_def)
  next
    case False
    let ?js = "last_items 1000 (ks' @ ?new)"
    have ne: "?js \<noteq> []" using False by (simp add: last_items_Nil)
    then obtain j js where js: "?js = j # js" by (cases ?js) auto
    obtain m where m: "py_max (JInt j) (map JInt js) = Inr (JInt m)" using py_max_ints by blast
    have merged: "last_items 1000 (map JInt ks' @ map JInt ?new) = JInt j # map JInt js"
      using js last_items_map [of 1000 JInt "ks' @ ?new"] by simp
    define D where "D = put (ack_key a) (JList (map JInt (j # js))) d"
    define s' where "s' = fold (\<lambda>i s. snd (log_event (ack_event c a (JInt m) now i) s)) ?new s"
    have acked: "acked s s'" unfolding s'_def by (rule acks_logged)
    then have "get_contract s' c = get_contract s c" by (simp add: acked_def get_contract_def)
    note col = column_put [OF assms(1) this, of D]
    have rec: "record_directive_acks c a ids now (side, s) = Inr (put c D side, s')"
      using assms(1) False m merged by (simp add: record_directive_acks_def items map_filter_JInt s'_def D_def del: log_event_simps)
    have D: "map_of D = (map_of d)(ack_key a \<mapsto> JList (map JInt (j # js)))" by (simp add: D_def fun_eq_iff map_of_put)
    have sub: "set (j # js) \<subseteq> set ids \<union> (if map_of d (ack_key a) = None then {} else set ks)"
      using js last_items_set [of 1000 "ks' @ ?new"] fresh_ids_subset [of ks' ids] by (auto simp: ks'_def)
    show thesis by (rule that [OF rec acked col]) (use D sub in blast)
  qed
qed

lemma deliver_effect:
  assumes "sql_ok q" and "continuity_column side s c = Some d" and "\<forall>b. plain_agent b \<longrightarrow> book_ok d b" and "plain_agent a"
  obtains ch side' s' d' where "deliver q c a now age (side, s) = Inr (ch, side', s')" and "acked s s'"
    and "continuity_column side' s' c = Some d'" and "\<forall>b. plain_agent b \<longrightarrow> book_ok d' b"
    and "ch_directives ch = take 20 (waiting c a now age (side, s))" and "ch_ids ch = map ms_id (ch_directives ch)"
    and "\<forall>b. plain_agent b \<longrightarrow> cursor_at d' b = (if b = a \<and> ch_ids ch \<noteq> [] then Max (set (ch_ids ch)) else cursor_at d b)"
proof -
  define taken where "taken = take 20 (waiting c a now age (side, s))"
  define ids where "ids = map ms_id taken"
  define n where "n = (if ids = [] then cursor_at d a else Max (set ids))"
  define ch where "ch = \<lparr>ch_directives = taken, ch_waiting = length (waiting c a now age (side, s)), ch_ids = ids, ch_cursor = n\<rparr>"
  note book = assms(3) [rule_format, OF assms(4)]
  note read = cursor_read [OF assms(2) book]
  have choice: "choose_directives c a now age side s = Inr ch"
    by (simp add: choose_directives_def read(1) waiting_def ch_def taken_def ids_def n_def Let_def)
  have above: "cursor_at d a < i" if "i \<in> set ids" for i
    using that waiting_rows [OF assms(2) book, of now age] by (auto simp: ids_def taken_def message_of_def dest!: in_set_takeD)
  have key: "sq_int q d (cursor_key a) = cursor_at d a" "map_of (sq_set q d (cursor_key a) m) = (map_of d)(cursor_key a \<mapsto> JInt m)" for m
    using assms(1) book cursor_key_plain [OF assms(4)] by (auto simp: sql_ok_def book_ok_def cursor_at_def)
  show thesis
  proof (cases "ids = []")
    case True
    then have "deliver q c a now age (side, s) = Inr (ch, side, s)"
      using assms(2) by (simp add: deliver_def choice mark_directives_consumed_def bump_directive_cursor_atomic_def key ch_def n_def)
    then show thesis using that [of ch side s d] assms(2,3) True by (simp add: acked_def ch_def taken_def ids_def)
  next
    case False
    have moved: "cursor_at d a < n" using above False by (simp add: n_def)
    define d1 where "d1 = sq_set q d (cursor_key a) n"
    have d1: "map_of d1 = (map_of d)(cursor_key a \<mapsto> JInt n)" by (simp add: d1_def key)
    have col: "continuity_column (put c d1 side) s c = Some d1" by (rule column_put [OF assms(2) refl])
    have bump: "bump_directive_cursor_atomic q s c (cursor_key a) n side = (True, put c d1 side)"
      using assms(2) moved by (simp add: bump_directive_cursor_atomic_def key d1_def max_def)
    have ack1: "map_of d1 (ack_key a) = map_of d (ack_key a)" using d1 cursor_not_ack [OF assms(4), of a] by simp
    obtain ks where ks: "map_of d (ack_key a) = None \<or> map_of d (ack_key a) = Some (JList (map JInt ks)) \<and> (\<forall>k \<in> set ks. k \<le> cursor_at d a)"
      using book by (auto simp: book_ok_def)
    then have none_or: "map_of d1 (ack_key a) = None \<or> map_of d1 (ack_key a) = Some (JList (map JInt ks))" by (auto simp: ack1)
    obtain side' d' s' where
      rec: "record_directive_acks c a ids now (put c d1 side, s) = Inr (side', s')" "acked s s'" "continuity_column side' s' c = Some d'"
      and d': "d' = d1 \<or> (\<exists>js. map_of d' = (map_of d1)(ack_key a \<mapsto> JList (map JInt js)) \<and>
          set js \<subseteq> set ids \<union> (if map_of d1 (ack_key a) = None then {} else set ks))"
      by (rule record_acks [OF col none_or, of ids now]) (rule that)
    have cursor: "cursor_at d' b = (if b = a then n else cursor_at d b)" if "plain_agent b" for b
      using d' d1 cursor_not_ack [OF that, of a] by (auto simp: cursor_at_def cursor_key_inject)
    have "book_ok d' b" if b: "plain_agent b" for b
    proof (cases "b = a")
      case True
      have "k \<le> n" if "k \<in> set ids" for k using that False by (simp add: n_def)
      moreover have "k \<le> n" if "k \<in> set ks" "map_of d (ack_key a) \<noteq> None" for k using that ks moved by fastforce
      ultimately show ?thesis
        using True d' d1 ack1 ks cursor [OF b] cursor_not_ack [OF assms(4), of a] unfolding book_ok_def by (fastforce split: if_splits)
    next
      case other: False
      have "map_of d' (cursor_key b) = map_of d (cursor_key b)" "map_of d' (ack_key b) = map_of d (ack_key b)"
        using d' d1 other cursor_not_ack [OF b, of a] cursor_not_ack [OF assms(4), of b] by (auto simp: cursor_key_inject ack_key_inject)
      then show ?thesis using assms(3) b other cursor [OF b] by (simp add: book_ok_def)
    qed
    moreover have "deliver q c a now age (side, s) = Inr (ch, side', s')"
      using False rec(1) by (simp add: deliver_def choice mark_directives_consumed_def ch_def bump)
    ultimately show thesis using that [of ch side' s' d'] rec(2,3) cursor False by (simp add: ch_def taken_def ids_def n_def)
  qed
qed

text \<open>The life of the inbox of a contract: its log grows, its row is rewritten with the same continuity, and directives are delivered.\<close>

inductive inbox_step :: "sql_json \<Rightarrow> string \<Rightarrow> sidecar \<times> store \<Rightarrow> sidecar \<times> store \<Rightarrow> bool" for q c where
  logged: "inbox_step q c (side, s) (side, snd (log_event n s))"
| rewritten: "get_contract s c = Some v \<Longrightarrow> cd_continuity (cv_draft v') = cd_continuity (cv_draft v) \<Longrightarrow>
    inbox_step q c (side, s) (side, set_contract c v' s)"
| delivered: "plain_agent a \<Longrightarrow> deliver q c a now age st = Inr (ch, st') \<Longrightarrow> inbox_step q c st st'"

definition new_inbox :: "string \<Rightarrow> sidecar \<times> store \<Rightarrow> bool" where
  "new_inbox c st \<longleftrightarrow> map_of (fst st) c = None \<and> get_contract (snd st) c \<noteq> None \<and> log_ok (st_log (snd st))"

definition cursor_of :: "string \<Rightarrow> string option \<Rightarrow> sidecar \<times> store \<Rightarrow> int" where
  "cursor_of c a st = (case continuity_column (fst st) (snd st) c of None \<Rightarrow> 0 | Some d \<Rightarrow> cursor_at d a)"

lemma new_inbox_ok: "new_inbox c st \<Longrightarrow> inbox_ok c st"
  by (auto simp: new_inbox_def inbox_ok_def continuity_column_def continuity_to_dict_def book_ok_def cursor_key_def ack_key_def)

lemma inbox_deliver:
  assumes "sql_ok q" and "inbox_ok c st" and "plain_agent a"
  obtains ch st' where "deliver q c a now age st = Inr (ch, st')" and "inbox_ok c st'" and "acked (snd st) (snd st')"
    and "ch_directives ch = take 20 (waiting c a now age st)" and "ch_ids ch = map ms_id (ch_directives ch)"
    and "\<forall>b. plain_agent b \<longrightarrow> cursor_of c b st' = (if b = a \<and> ch_ids ch \<noteq> [] then Max (set (ch_ids ch)) else cursor_of c b st)"
proof -
  obtain side s where st: "st = (side, s)" by (cases st)
  with assms(2) obtain d where d: "continuity_column side s c = Some d" "\<forall>b. plain_agent b \<longrightarrow> book_ok d b" and l: "log_ok (st_log s)"
    by (auto simp: inbox_ok_def)
  show thesis
  proof (rule deliver_effect [OF assms(1) d assms(3), of now age])
    fix ch side' s' d'
    assume e: "deliver q c a now age (side, s) = Inr (ch, side', s')" "acked s s'" "continuity_column side' s' c = Some d'"
      "\<forall>b. plain_agent b \<longrightarrow> book_ok d' b" "ch_directives ch = take 20 (waiting c a now age (side, s))" "ch_ids ch = map ms_id (ch_directives ch)"
      "\<forall>b. plain_agent b \<longrightarrow> cursor_at d' b = (if b = a \<and> ch_ids ch \<noteq> [] then Max (set (ch_ids ch)) else cursor_at d b)"
    then show thesis using that [of ch "(side', s')"] st d(1) l by (auto simp: inbox_ok_def acked_def cursor_of_def)
  qed
qed

lemma inbox_waiting:
  assumes "inbox_ok c st" and "plain_agent a"
  shows "waiting c a now age st = map message_of (filter (\<lambda>e. cursor_of c a st < ev_id e \<and> directive_row c a now age e) (el_rows (st_log (snd st))))"
  using assms waiting_rows [of "fst st" "snd st" c _ a now age] by (auto simp: inbox_ok_def cursor_of_def)

lemma waiting_above: "inbox_ok c st \<Longrightarrow> plain_agent a \<Longrightarrow> m \<in> set (waiting c a now age st) \<Longrightarrow> cursor_of c a st < ms_id m"
  by (auto simp: inbox_waiting message_of_def)

lemma taken_above:
  assumes "inbox_ok c st" and "plain_agent a" and "ids = map ms_id (take k (waiting c a now age st))" and "ids \<noteq> []"
  shows "cursor_of c a st < Max (set ids)"
proof -
  have "Max (set ids) \<in> set ids" using assms(4) by simp
  then show ?thesis using waiting_above [OF assms(1,2)] unfolding assms(3) by (auto dest: in_set_takeD)
qed

lemma inbox_step_ok:
  assumes "sql_ok q" and "inbox_step q c st st'" and "inbox_ok c st"
  shows "inbox_ok c st' \<and> (\<forall>a. plain_agent a \<longrightarrow> cursor_of c a st \<le> cursor_of c a st')"
  using assms(2,3)
proof cases
  case (logged side s n)
  then show ?thesis using assms(3) by (auto simp: inbox_ok_def cursor_of_def continuity_column_def get_contract_def log_ok_append)
next
  case (rewritten s v v' side)
  then have "continuity_column side (set_contract c v' s) c = continuity_column side s c"
    by (simp add: continuity_column_def get_contract_def split: option.split)
  then show ?thesis using rewritten assms(3) by (auto simp: inbox_ok_def cursor_of_def)
next
  case (delivered a now age ch)
  from assms(1,3) delivered(1) show ?thesis
  proof (rule inbox_deliver [of q c st a now age])
    fix ch1 st1
    assume e: "deliver q c a now age st = Inr (ch1, st1)" "inbox_ok c st1" "ch_directives ch1 = take 20 (waiting c a now age st)"
      "ch_ids ch1 = map ms_id (ch_directives ch1)"
      "\<forall>b. plain_agent b \<longrightarrow> cursor_of c b st1 = (if b = a \<and> ch_ids ch1 \<noteq> [] then Max (set (ch_ids ch1)) else cursor_of c b st)"
    have "cursor_of c a st < Max (set (ch_ids ch1))" if "ch_ids ch1 \<noteq> []"
      using taken_above [OF assms(3) delivered(1), of "ch_ids ch1" 20 now age] e(3,4) that by simp
    then show ?thesis using e delivered(2) by (auto simp: less_imp_le)
  qed
qed

lemma inbox_steps_ok:
  assumes "sql_ok q" and "(inbox_step q c)\<^sup>*\<^sup>* st st'" and "inbox_ok c st"
  shows "inbox_ok c st' \<and> (\<forall>a. plain_agent a \<longrightarrow> cursor_of c a st \<le> cursor_of c a st')"
  using assms(2,3) by (induction rule: rtranclp_induct) (use inbox_step_ok [OF assms(1)] in \<open>fastforce intro: order_trans\<close>)+

lemma acked_waiting:
  assumes "acked s s'" and "inbox_ok c (side, s)" and "inbox_ok c (side', s')" and "plain_agent b" and "cursor_of c b (side', s') = cursor_of c b (side, s)"
  shows "waiting c b now age (side', s') = waiting c b now age (side, s)"
proof -
  from assms(1) obtain es where "el_rows (st_log s') = el_rows (st_log s) @ es" "\<forall>e \<in> set es. ev_type e = DIRECTIVE_ACKNOWLEDGED"
    by (auto simp: acked_def)
  then show ?thesis using assms
    by (auto simp: inbox_waiting filter_empty_conv directive_row_def AGENT_MESSAGE_def DIRECTIVE_ACKNOWLEDGED_def)
qed

lemma waiting_sorted:
  assumes "inbox_ok c st" and "plain_agent a"
  shows "sorted_wrt (<) (map ms_id (waiting c a now age st))"
proof -
  have "sorted_wrt (<) (map ev_id (el_rows (st_log (snd st))))" using assms(1) by (simp add: inbox_ok_def log_ok_def)
  then have "sorted_wrt (<) (map ev_id (filter P (el_rows (st_log (snd st)))))" for P by (simp add: sorted_wrt_map sorted_wrt_filter)
  moreover have "map ms_id (map message_of es) = map ev_id es" for es by (simp add: message_of_def)
  ultimately show ?thesis by (simp only: inbox_waiting [OF assms])
qed

section \<open>Properties\<close>



definition flat_sql :: sql_json where
  "flat_sql = \<lparr>sq_int = (\<lambda>d k. case map_of d k of Some (JInt i) \<Rightarrow> i | _ \<Rightarrow> 0), sq_set = (\<lambda>d k n. put k (JInt n) d)\<rparr>"

lemma flat_sql_ok: "sql_ok flat_sql"
  by (simp add: sql_ok_def flat_sql_def fun_eq_iff map_of_put)

definition sample_message :: message_call where
  "sample_message = \<lparr>mc_contract = ''c1'', mc_from = ''user'', mc_kind = ''directive'', mc_text = ''stop'', mc_now = 20, mc_goal = None, mc_to = Some ''b''\<rparr>"

definition messaged :: "sidecar \<times> store" where
  "messaged = ([], snd (log_event (message_event sample_message) (set_contract ''c1'' sample_view empty_store)))"

lemma messaged_inbox: "new_inbox ''c1'' messaged"
  by (simp add: new_inbox_def messaged_def get_contract_def log_ok_append log_ok_def empty_store_def empty_log_def)

lemma messaged_waiting: "waiting ''c1'' (Some ''b'') 30 None messaged = [message_of (stored_event 1 (message_event sample_message))]"
proof -
  have ok: "inbox_ok ''c1'' messaged" by (rule new_inbox_ok [OF messaged_inbox])
  have "cursor_of ''c1'' (Some ''b'') messaged = 0"
    by (simp add: cursor_of_def continuity_column_def messaged_def get_contract_def cursor_at_def continuity_to_dict_def cursor_key_def)
  moreover have "plain_agent (Some ''b'')" by (simp add: plain_agent_def)
  moreover have "directive_row ''c1'' (Some ''b'') 30 None (stored_event 1 (message_event sample_message))"
    by (simp add: directive_row_def message_event_def event_call_def sample_message_def wanted_message_def message_of_def dict_get_def jopt_def)
  ultimately show ?thesis using ok by (simp add: inbox_waiting) (simp add: messaged_def empty_store_def empty_log_def)
qed



section \<open>What the code does not mean\<close>

text \<open>The name of an agent with a dot makes a path into a nested object: the cursor that is read stays where it was.\<close>

lemma dotted_agent_keeps_its_cursor:
  assumes "\<And>d n. map_of (sq_set q d (cursor_key a) n) (cursor_key a) = map_of d (cursor_key a)"
  shows "read_directive_cursor (snd (bump_directive_cursor_atomic q s c (cursor_key a) n side)) s c a = read_directive_cursor side s c a"
  by (auto simp: read_directive_cursor_def bump_directive_cursor_atomic_def continuity_column_def dict_get_or_def assms map_of_put split: option.splits)

text \<open>A reader without a name also gets what is addressed to an agent.\<close>

lemma nameless_reader_gets_addressed_directives: "wanted_message None now age seen (m\<lparr>ms_to := to\<rparr>) = wanted_message None now age seen m"
  by (simp add: wanted_message_def split: option.split)
end
