(* ===== verification/Context.thy ===== *)
theory Context
  imports Tick Inbox Untrusted
begin

text \<open>
  \<open>longtask/persistence/context.py\<close>: the snapshot of the working context that an attempt gets before it starts, its capacity contract, the
  expiry of old snapshots, the summary of the handover for the prompt, and the detector of a snapshot that outgrows its limit.
  Texts are code points; a file holds the bytes of their encoding. The Chinese texts of the source are named by \<open>context_word\<close>.
\<close>

section \<open>The environment\<close>

datatype context_word =
    BreachPrefix | BreachMinutes | DirectiveTitle | DirectiveFooter | DirectiveMark | AnchorTitle | RiskTitle | RiskNote
  | HandoverTitle | DigestTitle | ScratchTitle | ScratchFocus | ScratchHypotheses | ScratchNext | ScratchRisks | ScratchQuestions | ScratchNotes
  | HandoverMark | PromptNextAction | PromptRemaining | PromptRisks

record context_env =
  cx_judge :: judge_env
  cx_sql :: sql_json
  cx_boundary :: boundary_env
  cx_word :: "context_word \<Rightarrow> ustring"
  cx_encode :: "ustring \<Rightarrow> string"
  cx_decode :: "string \<Rightarrow> ustring option"
  cx_glob :: "string list \<Rightarrow> string list"
  cx_path :: "string \<Rightarrow> string \<Rightarrow> string"
  cx_iso :: "ustring \<Rightarrow> int option"
  cx_checks :: "check list \<Rightarrow> string"
  cx_dumps :: "dict \<Rightarrow> string"
  cx_memory :: "dict \<Rightarrow> int \<Rightarrow> ustring"

abbreviation cx_fmt :: "context_env \<Rightarrow> int \<Rightarrow> string" where
  "cx_fmt x \<equiv> rx_fmt (jg_rpc (cx_judge x))"

abbreviation cx_host :: "context_env \<Rightarrow> pyhost" where
  "cx_host x \<equiv> rx_host (jg_rpc (cx_judge x))"

text \<open>The store and the files with the column that keeps the cursors of the directives.\<close>

record desk =
  dk_world :: world
  dk_side :: sidecar

abbreviation dk_store :: "desk \<Rightarrow> store" where
  "dk_store d \<equiv> wo_store (dk_world d)"

abbreviation dk_files :: "desk \<Rightarrow> files" where
  "dk_files d \<equiv> wo_files (dk_world d)"

definition on_world :: "'a act \<Rightarrow> (desk, 'a) io" where
  "on_world m = (\<lambda>d. case m (dk_world d) of (r, w) \<Rightarrow> (r, d\<lparr>dk_world := w\<rparr>))"

definition dlog :: "new_event \<Rightarrow> (desk, unit) io" where
  "dlog n = on_world (awrite (\<lambda>s. snd (log_event n s)))"

definition ujoin :: "ustring \<Rightarrow> ustring list \<Rightarrow> ustring" where
  "ujoin sep parts = (case parts of [] \<Rightarrow> [] | p # ps \<Rightarrow> p @ concat (map (\<lambda>q. sep @ q) ps))"

section \<open>The policy\<close>

record context_policy =
  cp_required :: bool
  cp_max_bytes :: int
  cp_expires_after_minutes :: int

definition DEFAULT_MAX_BYTES :: int where "DEFAULT_MAX_BYTES = 24000"
definition DEFAULT_EXPIRES_MINUTES :: int where "DEFAULT_EXPIRES_MINUTES = 240"

definition EDITABLE_SECTIONS :: "string list" where
  "EDITABLE_SECTIONS = [''current_focus'', ''working_hypotheses'', ''next_actions'', ''risks'', ''open_questions'', ''handoff_notes'']"

fun is_bool :: "json \<Rightarrow> bool" where
  "is_bool (JBool b) = True"
| "is_bool _ = False"

text \<open>Both numbers fall back to their defaults when one of them is no number.\<close>

definition policy_from_contract :: "contract_draft \<Rightarrow> py_error + context_policy" where
  "policy_from_contract draft =
     (let raw = cd_context draft; limits = (case dict_get raw ''limits'' of JObj l \<Rightarrow> l | _ \<Rightarrow> []) in
      if is_bool (dict_get limits ''max_bytes'') then Inl (TypeError ''context.limits.max_bytes must be an integer'')
      else if is_bool (dict_get limits ''expires_after_minutes'') then Inl (TypeError ''context.limits.expires_after_minutes must be an integer'')
      else sbind (case sbind (py_int (dict_get_or limits ''max_bytes'' (JInt DEFAULT_MAX_BYTES))) (\<lambda>m.
             sbind (py_int (dict_get_or limits ''expires_after_minutes'' (JInt DEFAULT_EXPIRES_MINUTES))) (\<lambda>e. Inr (m, e))) of
           Inl (TypeError t) \<Rightarrow> Inr (DEFAULT_MAX_BYTES, DEFAULT_EXPIRES_MINUTES)
         | Inl (ValueError t) \<Rightarrow> Inr (DEFAULT_MAX_BYTES, DEFAULT_EXPIRES_MINUTES)
         | r \<Rightarrow> r) (\<lambda>(max_bytes, expires).
        case dict_get_or raw ''required'' (JBool False) of
          JBool b \<Rightarrow> Inr \<lparr>cp_required = b, cp_max_bytes = max 1 max_bytes, cp_expires_after_minutes = max 1 expires\<rparr>
        | _ \<Rightarrow> Inl (TypeError ''context.required must be a boolean'')))"

section \<open>The handover\<close>

record handover_fields =
  hf_stage :: string
  hf_remaining :: string
  hf_next_action :: string
  hf_hours :: string
  hf_source :: string
  hf_risks :: string

definition HANDOVER_INCOMPLETE :: event_type where "HANDOVER_INCOMPLETE = ''handover/incomplete''"

definition bullet_lines :: "string list \<Rightarrow> string" where
  "bullet_lines items = join [LF] (map (\<lambda>i. ''- '' @ i) items)"

definition handover_fields_of :: "context_env \<Rightarrow> handover \<Rightarrow> handover_fields" where
  "handover_fields_of x d = \<lparr>hf_stage = ho_stage d, hf_remaining = bullet_lines (ho_remaining d), hf_next_action = ho_next_action d,
     hf_hours = h_repr (cx_host x) (JFloat (ho_hours d)), hf_source = ho_source d, hf_risks = bullet_lines (ho_risks d)\<rparr>"

text \<open>The fields of the handover, or the reason why there are none; no handover at all is no reason.\<close>

definition read_handover :: "context_env \<Rightarrow> files \<Rightarrow> string \<Rightarrow> string + handover_fields option" where
  "read_handover x files contract_id = (case map_of files (contract_id, ''handover.md'') of
     None \<Rightarrow> Inr None
   | Some t \<Rightarrow> (case parse_handover_markdown (cx_host x) t of
       (Some d, violations) \<Rightarrow> Inr (Some (handover_fields_of x d))
     | (None, violations) \<Rightarrow> Inl (text_or (Some (join ''; '' violations)) ''no parse result'')))"

definition incomplete_event :: "string \<Rightarrow> string \<Rightarrow> int \<Rightarrow> new_event" where
  "incomplete_event contract_id detail now = (event_call (Some contract_id) HANDOVER_INCOMPLETE
     [(''reason'', JStr ''parse_failed''), (''detail'', JStr (take 512 detail))] now)\<lparr>ne_actor := ''context'', ne_role := Some ''system''\<rparr>"

definition handover_data :: "context_env \<Rightarrow> string \<Rightarrow> int \<Rightarrow> (desk, handover_fields option) io" where
  "handover_data x contract_id now = abind (aread (\<lambda>d. read_handover x (dk_files d) contract_id)) (\<lambda>found.
     case found of
       Inr h \<Rightarrow> apure h
     | Inl detail \<Rightarrow> abind (dlog (incomplete_event contract_id detail now)) (\<lambda>_. apure None))"

section \<open>Truncation\<close>

definition take_lines :: "ustring \<Rightarrow> ustring" where
  "take_lines t = (if 10 \<in> set t then rev (tl (dropWhile (\<lambda>c. c \<noteq> 10) (rev t))) else t)"

definition truncate_at_line_boundary :: "ustring \<Rightarrow> int \<Rightarrow> ustring \<Rightarrow> py_error + ustring" where
  "truncate_at_line_boundary t max_chars mark =
     (if max_chars \<le> 0 then Inl (ValueError ''max_chars must be positive'')
      else if int (length t) \<le> max_chars then Inr t
      else if max_chars - int (length mark) \<le> 0 then Inl (ValueError ''max_chars cannot even hold the truncation marker'')
      else Inr (take_lines (take (nat (max_chars - int (length mark))) t) @ mark))"

definition HANDOVER_IN_PROMPT_CHARS :: int where "HANDOVER_IN_PROMPT_CHARS = 1200"
definition DIRECTIVE_TEXT_CHARS :: int where "DIRECTIVE_TEXT_CHARS = 240"

text \<open>The summary of the handover in a prompt; a handover that cannot be read is not reported here.\<close>

definition handover_prompt_addendum :: "context_env \<Rightarrow> files \<Rightarrow> string \<Rightarrow> py_error + ustring" where
  "handover_prompt_addendum x files contract_id = (case read_handover x files contract_id of
     Inr (Some h) \<Rightarrow>
       (let part = (\<lambda>w t. if t = [] then [] else [cx_word x w @ codes t]);
            parts = part PromptNextAction (hf_next_action h) @ part PromptRemaining (hf_remaining h) @ part PromptRisks (hf_risks h) in
        if parts = [] then Inr [] else truncate_at_line_boundary (ujoin [32] parts) HANDOVER_IN_PROMPT_CHARS (cx_word x HandoverMark))
   | _ \<Rightarrow> Inr [])"

section \<open>The digest of the last attempts\<close>

definition ATTEMPT_STALE :: event_type where "ATTEMPT_STALE = ''attempt/stale''"

definition ATTEMPT_DIGEST_EVENT_TYPES :: "event_type list" where
  "ATTEMPT_DIGEST_EVENT_TYPES = [ATTEMPT_SUCCEEDED, ATTEMPT_FAILED, ATTEMPT_STALE, CONTEXT_SCRATCH_UPDATED]"

definition after_slash :: "string \<Rightarrow> string" where
  "after_slash t = rev (takeWhile (\<lambda>c. c \<noteq> CHR ''/'') (rev t))"

text \<open>The newest event of each type, in the order of their ids.\<close>

definition newest_per_type :: "event list \<Rightarrow> event list" where
  "newest_per_type es = filter (\<lambda>e. list_all (\<lambda>f. ev_type f = ev_type e \<longrightarrow> ev_id f \<le> ev_id e) es) es"

definition digest_line :: "context_env \<Rightarrow> event \<Rightarrow> ustring list" where
  "digest_line x e = (case ev_attempt e of
     None \<Rightarrow> []
   | Some i \<Rightarrow> if i = [] then []
       else [codes (''- '' @ i @ '': '' @ after_slash (ev_type e)) @
         (let note = dict_get (ev_payload e) ''note'' in
          if ev_type e = CONTEXT_SCRATCH_UPDATED \<and> truthy note
          then [32, 8212] @ codes ('' progress data (untrusted): '' @ py_str (h_repr (cx_host x)) note) else [])])"

definition recent_attempt_digest :: "context_env \<Rightarrow> store \<Rightarrow> string \<Rightarrow> ustring" where
  "recent_attempt_digest x s contract_id = (case get_recent_events contract_id ATTEMPT_DIGEST_EVENT_TYPES 20 (st_log s) of
     Inl e \<Rightarrow> [] | Inr es \<Rightarrow> ujoin [10] (concat (map (digest_line x) (last_items 3 (newest_per_type es)))))"


section \<open>Old snapshots\<close>

definition active_file :: "string \<Rightarrow> string" where
  "active_file attempt_id = ''context/attempts/'' @ attempt_id @ ''/active.md''"

definition scratch_file :: "string \<Rightarrow> string" where
  "scratch_file attempt_id = ''context/attempts/'' @ attempt_id @ ''/scratch.md''"

text \<open>The attempt whose snapshot a file is.\<close>

definition snapshot_attempt :: "string \<Rightarrow> string option" where
  "snapshot_attempt name = (let a = take (length name - 27) (drop 17 name) in
     if name = active_file a \<and> CHR ''/'' \<notin> set a then Some a else None)"

definition is_line_break :: "nat \<Rightarrow> bool" where
  "is_line_break c \<longleftrightarrow> between 10 13 c \<or> between 28 30 c \<or> c = 133 \<or> c = 0x2028 \<or> c = 0x2029"

text \<open>The first lines, as \<open>splitlines\<close> cuts them.\<close>

fun first_lines :: "nat \<Rightarrow> ustring \<Rightarrow> ustring list" where
  "first_lines 0 t = []"
| "first_lines (Suc n) t = (if t = [] then []
     else (let r = dropWhile (\<lambda>c. \<not> is_line_break c) t in
       takeWhile (\<lambda>c. \<not> is_line_break c) t #
       first_lines n (case r of [] \<Rightarrow> [] | c # cs \<Rightarrow> if c = 13 \<and> starts_with cs [10] then tl cs else cs)))"

definition EXPIRES_AT_PREFIX :: ustring where
  "EXPIRES_AT_PREFIX = codes ''- expires_at: ''"

definition parse_expires_at :: "context_env \<Rightarrow> ustring \<Rightarrow> int option" where
  "parse_expires_at x t = (case find (\<lambda>l. starts_with l EXPIRES_AT_PREFIX) (first_lines 8 t) of
     None \<Rightarrow> None | Some l \<Rightarrow> cx_iso x (drop (length EXPIRES_AT_PREFIX) l))"

definition CONTEXT_SNAPSHOT_EXPIRED :: event_type where "CONTEXT_SNAPSHOT_EXPIRED = ''context/snapshot-expired''"
definition CONTEXT_CAPACITY_REFUSED_EVENT :: event_type where "CONTEXT_CAPACITY_REFUSED_EVENT = ''context/capacity-refused''"
definition CONTEXT_SNAPSHOT_BUILT :: event_type where "CONTEXT_SNAPSHOT_BUILT = ''context/snapshot-built''"
definition HANDOVER_DUE :: event_type where "HANDOVER_DUE = ''handover/due''"

definition expire_snapshot :: "context_env \<Rightarrow> string \<Rightarrow> int \<Rightarrow> string \<Rightarrow> (desk, unit) io" where
  "expire_snapshot x contract_id now a = abind (aread (\<lambda>d. map_of (dk_files d) (contract_id, active_file a))) (\<lambda>content.
     case content of
       None \<Rightarrow> apure ()
     | Some bytes \<Rightarrow> (case cx_decode x bytes of
         None \<Rightarrow> alift (Inl (CallError (ValueError ''utf-8'')))
       | Some t \<Rightarrow> (case parse_expires_at x t of
           None \<Rightarrow> apure ()
         | Some expires_at \<Rightarrow>
             if now \<le> expires_at then apure ()
             else abind (on_world (asave (del (contract_id, active_file a)))) (\<lambda>_.
               dlog ((event_call (Some contract_id) CONTEXT_SNAPSHOT_EXPIRED
                 [(''active_path'', JStr (cx_path x contract_id (active_file a))), (''expired_at'', JStr (cx_fmt x expires_at))] now)
                 \<lparr>ne_attempt := Some a, ne_role := Some ''system''\<rparr>)))))"

definition expire_old_snapshots :: "context_env \<Rightarrow> string \<Rightarrow> int \<Rightarrow> (desk, unit) io" where
  "expire_old_snapshots x contract_id now =
     abind (aread (\<lambda>d. cx_glob x (List.map_filter (\<lambda>((c, n), t). if c = contract_id then snapshot_attempt n else None) (dk_files d))))
       (aeach (expire_snapshot x contract_id now))"

section \<open>The snapshot\<close>

definition directive_line :: "context_env \<Rightarrow> message \<Rightarrow> py_error + ustring" where
  "directive_line x m = (let text = py_str (h_repr (cx_host x)) in
     sbind (truncate_at_line_boundary (codes (text (ms_text m))) DIRECTIVE_TEXT_CHARS (cx_word x DirectiveMark)) (\<lambda>t.
     Inr (codes ''- **'' @ t @ codes ''**'' @ [32, 32, 8212, 32, 32] @ codes (''from `'' @ text (ms_from m) @ ''`'') @
       (if ms_to m = JNull then [] else codes ('', to `'' @ text (ms_to m) @ ''`'')))))"

definition directive_sections :: "context_env \<Rightarrow> directive_choice \<Rightarrow> py_error + ustring list" where
  "directive_sections x ch = (if ch_directives ch = [] then Inr []
     else sbind (smap (directive_line x) (ch_directives ch)) (\<lambda>lines.
       Inr ([cx_word x DirectiveTitle, []] @ lines @
         (if 20 < ch_waiting ch then [codes ''- '' @ [8230] @ codes ('' ('' @ int_str (int (ch_waiting ch) - 20) @ '' more directives truncated)'')] else []) @
         [[], cx_word x DirectiveFooter, []])))"

definition strip_line_feeds :: "ustring \<Rightarrow> ustring" where
  "strip_line_feeds t = rev (dropWhile (\<lambda>c. c = 10) (rev t))"

definition previous_sections :: "context_env \<Rightarrow> handover_fields option \<Rightarrow> py_error + ustring list" where
  "previous_sections x h = (case h of
     None \<Rightarrow> Inr []
   | Some f \<Rightarrow> sbind (make_untrusted_block (cx_boundary x) (codes ''handover'') (cx_word x HandoverTitle)
       (ujoin [10] [codes (''- current_stage: '' @ hf_stage f), codes ''- remaining:'' @ [10] @ codes (hf_remaining f),
         codes (''- next_action: '' @ hf_next_action f), codes (''- estimate_remaining_hours: '' @ hf_hours f),
         codes (''- source_attempt_id: '' @ hf_source f)]) True) (\<lambda>block. Inr [strip_line_feeds block, []]))"

definition breach_sections :: "context_env \<Rightarrow> contract_draft \<Rightarrow> int \<Rightarrow> ustring list" where
  "breach_sections x draft now = (if deadline_of draft < now
     then [cx_word x BreachPrefix @ codes (int_str ((now - deadline_of draft) div MINUTE)) @ cx_word x BreachMinutes @
         codes (''(deadline_at='' @ h_iso_format (cx_host x) (cd_deadline_at draft) @ '', now='' @ cx_fmt x now @ '')''), []]
     else [])"

definition anchor_sections :: "context_env \<Rightarrow> contract_draft \<Rightarrow> ustring list" where
  "anchor_sections x draft = [cx_word x AnchorTitle, codes (''- objective: '' @ cd_objective draft),
     codes (''- deadline_at: '' @ h_iso_format (cx_host x) (cd_deadline_at draft)),
     codes (''- hard_constraints: '' @ h_repr (cx_host x) (JObj (cd_hard_constraints draft))),
     codes (''- acceptance.standard: '' @ ac_standard (cd_acceptance draft)),
     codes (''- acceptance.checks: '' @ cx_checks x (ac_checks (cd_acceptance draft))), []]"

definition snapshot_body :: "context_env \<Rightarrow> contract_view \<Rightarrow> string \<Rightarrow> int \<Rightarrow> context_policy \<Rightarrow> handover_fields option \<Rightarrow> ustring \<Rightarrow> dict option \<Rightarrow>
    ustring \<Rightarrow> directive_choice \<Rightarrow> py_error + ustring" where
  "snapshot_body x v attempt_id now policy handover digest risk memory ch =
     sbind (directive_sections x ch) (\<lambda>directives.
     sbind (previous_sections x handover) (\<lambda>previous.
     Inr (ujoin [10] (breach_sections x (cv_draft v) now @
       [codes (''# Active Context: '' @ cv_contract_id v @ '' / '' @ attempt_id), [], codes (''- compiled_at: '' @ cx_fmt x now),
        codes (''- expires_at: '' @ cx_fmt x (now + cp_expires_after_minutes policy * MINUTE)),
        codes (''- contract_revision: '' @ int_str (cv_revision v)), []] @
       directives @ anchor_sections x (cv_draft v) @
       (case risk of None \<Rightarrow> [] | Some r \<Rightarrow> [cx_word x RiskTitle, cx_word x RiskNote, codes ''```json'', codes (cx_dumps x r), codes ''```'', []]) @
       (if memory = [] then [] else [memory, []]) @ previous @
       (if digest = [] then [] else [cx_word x DigestTitle, digest, []]) @
       [cx_word x ScratchTitle, codes (''allowed sections: '' @ join '', '' EDITABLE_SECTIONS), []]))))"

definition scratch_skeleton :: "context_env \<Rightarrow> string \<Rightarrow> ustring" where
  "scratch_skeleton x attempt_id = codes (''# Scratch: '' @ attempt_id) @ [10, 10] @
     concat (map (\<lambda>(name, w). codes (''## '' @ name) @ [10, 10] @ cx_word x w @ [10, 10])
       [(''current_focus'', ScratchFocus), (''working_hypotheses'', ScratchHypotheses), (''next_actions'', ScratchNext), (''risks'', ScratchRisks),
        (''open_questions'', ScratchQuestions)]) @
     codes ''## handoff_notes'' @ [10, 10] @ cx_word x ScratchNotes @ [10]"

text \<open>The share of the memory: two fifths, at most 4000 and at least 1500 bytes, within the capacity.\<close>

definition memory_budget :: "int \<Rightarrow> int" where
  "memory_budget max_bytes = min (max (min (2 * max_bytes div 5) 4000) 1500) max_bytes"

datatype compiled = Refused int int | Compiled string "int" "int list"

definition write_snapshot :: "context_env \<Rightarrow> contract_view \<Rightarrow> string \<Rightarrow> int \<Rightarrow> context_policy \<Rightarrow> directive_choice \<Rightarrow> ustring \<Rightarrow> (desk, compiled) io" where
  "write_snapshot x v attempt_id now policy ch body = (let encoded = cx_encode x body; size = int (length encoded);
       path = cx_path x (cv_contract_id v) (active_file attempt_id) in
     if cp_max_bytes policy < size then
       abind (dlog ((event_call (Some (cv_contract_id v)) CONTEXT_CAPACITY_REFUSED_EVENT
         [(''bytes'', JInt size), (''max_bytes'', JInt (cp_max_bytes policy)),
          (''reason'', JStr (''compiled context exceeds policy capacity ('' @ paragraph_sign @ ''4.1)''))] now)\<lparr>ne_attempt := Some attempt_id\<rparr>)) (\<lambda>_.
       apure (Refused size (cp_max_bytes policy)))
     else
       abind (on_world (asave (\<lambda>f. put (cv_contract_id v, scratch_file attempt_id) (cx_encode x (scratch_skeleton x attempt_id))
         (put (cv_contract_id v, active_file attempt_id) encoded f)))) (\<lambda>_.
       abind (dlog ((event_call (Some (cv_contract_id v)) CONTEXT_SNAPSHOT_BUILT
         [(''active_path'', JStr path), (''bytes'', JInt size), (''expires_after_minutes'', JInt (cp_expires_after_minutes policy))] now)
         \<lparr>ne_attempt := Some attempt_id\<rparr>)) (\<lambda>_.
       apure (Compiled path (ch_cursor ch) (ch_ids ch)))))"

definition compile_context_snapshot :: "context_env \<Rightarrow> contract_view \<Rightarrow> string \<Rightarrow> int \<Rightarrow> string option \<Rightarrow> int option \<Rightarrow> (desk, compiled) io" where
  "compile_context_snapshot x v attempt_id now to_agent max_age =
     abind (alift (lift_py (policy_from_contract (cv_draft v)))) (\<lambda>policy.
     abind (expire_old_snapshots x (cv_contract_id v) now) (\<lambda>_.
     abind (handover_data x (cv_contract_id v) now) (\<lambda>handover.
     abind (aread (\<lambda>d. (recent_attempt_digest x (dk_store d) (cv_contract_id v),
       get_latest_forecast_snapshot (cv_contract_id v) (st_log (dk_store d))))) (\<lambda>(digest, risk).
     let memory = cx_memory x (cd_context (cv_draft v)) (memory_budget (cp_max_bytes policy)) in
     abind (\<lambda>d. (lift_py (choose_directives (cv_contract_id v) to_agent now max_age (dk_side d) (dk_store d)), d)) (\<lambda>ch.
     abind (alift (lift_py (snapshot_body x v attempt_id now policy handover digest risk memory ch))) (\<lambda>body.
     write_snapshot x v attempt_id now policy ch body))))))"

section \<open>A snapshot that outgrows its limit\<close>

definition HANDOVER_DUE_DEBOUNCE :: int where "HANDOVER_DUE_DEBOUNCE = 60 * SECOND"

definition due_recently :: "string \<Rightarrow> string \<Rightarrow> int \<Rightarrow> store \<Rightarrow> bool" where
  "due_recently contract_id attempt_id now s \<longleftrightarrow> list_ex (\<lambda>e. ev_contract e = Some contract_id \<and> ev_attempt e = Some attempt_id \<and>
     ev_type e = HANDOVER_DUE \<and> now - HANDOVER_DUE_DEBOUNCE \<le> ev_created e) (el_rows (st_log s))"

definition check_handover_due :: "context_env \<Rightarrow> string \<Rightarrow> string \<Rightarrow> rat \<Rightarrow> rat \<Rightarrow> int \<Rightarrow> (desk, bool) io" where
  "check_handover_due x contract_id attempt_id low_water high_water now =
     abind (aread (\<lambda>d. get_contract (dk_store d) contract_id)) (\<lambda>view. case view of
       None \<Rightarrow> apure False
     | Some v \<Rightarrow>
         abind (alift (lift_py (policy_from_contract (cv_draft v)))) (\<lambda>policy.
         abind (aread (\<lambda>d. map_of (dk_files d) (contract_id, active_file attempt_id))) (\<lambda>content. case content of
           None \<Rightarrow> apure False
         | Some bytes \<Rightarrow>
             (let size = int (length bytes); ratio = of_int size / of_int (cp_max_bytes policy) in
              if high_water \<le> ratio then apure True
              else if low_water \<le> ratio then
                abind (aread (\<lambda>d. due_recently contract_id attempt_id now (dk_store d))) (\<lambda>recent.
                if recent then apure False
                else abind (dlog ((event_call (Some contract_id) HANDOVER_DUE
                    [(''size'', JInt size), (''max_bytes'', JInt (cp_max_bytes policy)),
                     (''ratio'', JFloat (Fin (of_int (round_half_even (10000 * ratio)) / 10000))), (''reason'', JStr ''auto_handover_warm'')] now)
                    \<lparr>ne_attempt := Some attempt_id, ne_role := Some ''system''\<rparr>)) (\<lambda>_. apure True))
              else apure False))))"

section \<open>What a compilation changes\<close>

lemma on_world_Inr: "on_world m d = (r, d') \<longleftrightarrow> (\<exists>w. m (dk_world d) = (r, w) \<and> d' = d\<lparr>dk_world := w\<rparr>)"
  by (auto simp: on_world_def split: prod.splits)

lemma dlog_eq: "dlog n d = (Inr (), d\<lparr>dk_world := (dk_world d)\<lparr>wo_store := snd (log_event n (dk_store d))\<rparr>\<rparr>)"
  by (simp add: dlog_def on_world_def awrite_def)

lemma on_world_save: "on_world (asave f) d = (Inr (), d\<lparr>dk_world := (dk_world d)\<lparr>wo_files := f (dk_files d)\<rparr>\<rparr>)"
  by (simp add: on_world_def asave_def)

text \<open>The cursors stay as they are, and files may go but none is written.\<close>

definition only_expires :: "desk \<Rightarrow> desk \<Rightarrow> bool" where
  "only_expires d d' \<longleftrightarrow> dk_side d' = dk_side d \<and> map_of (dk_files d') \<subseteq>\<^sub>m map_of (dk_files d)"

interpretation expiry: step_frame only_expires
  by unfold_locales (auto simp: only_expires_def intro: map_le_trans)

lemma only_expires_dlog [simp]: "akeeps only_expires (dlog n)"
  by (simp add: akeeps_def dlog_eq only_expires_def)

lemma only_expires_del: "akeeps only_expires (on_world (asave (del k)))"
  by (auto simp: akeeps_def on_world_save only_expires_def map_le_def)

lemma expire_only: "akeeps only_expires (expire_old_snapshots x contract_id now)"
  unfolding expire_old_snapshots_def expire_snapshot_def
  by (intro expiry.intros expiry.keeps_each akeeps_option akeeps_if only_expires_del only_expires_dlog)

lemma handover_only: "akeeps only_expires (handover_data x contract_id now)"
  unfolding handover_data_def by (intro expiry.intros) (auto split: sum.split intro!: expiry.intros)

text \<open>What a compiled snapshot promises.\<close>

definition within_capacity :: "contract_view \<Rightarrow> string \<Rightarrow> desk \<Rightarrow> (store_error + compiled) \<times> desk \<Rightarrow> bool" where
  "within_capacity v attempt_id d r \<longleftrightarrow> dk_side (snd r) = dk_side d \<and> (case fst r of
     Inr (Compiled path cursor ids) \<Rightarrow> (case policy_from_contract (cv_draft v) of Inl e \<Rightarrow> False | Inr policy \<Rightarrow>
       (case map_of (dk_files (snd r)) (cv_contract_id v, active_file attempt_id) of
          None \<Rightarrow> False | Some content \<Rightarrow> int (length content) \<le> cp_max_bytes policy))
   | Inr (Refused n m) \<Rightarrow> m < n \<and> only_expires d (snd r)
   | Inl e \<Rightarrow> only_expires d (snd r))"

lemma active_not_scratch: "active_file a \<noteq> scratch_file b"
proof -
  have "last (butlast (butlast (butlast (active_file a)))) \<noteq> last (butlast (butlast (butlast (scratch_file b))))"
    by (simp add: active_file_def scratch_file_def butlast_append)
  then show ?thesis by metis
qed

lemma write_within_capacity:
  assumes "policy_from_contract (cv_draft v) = Inr policy" and "only_expires d0 d"
  shows "within_capacity v a d0 (write_snapshot x v a now policy ch body d)"
  using assms active_not_scratch [of a a]
  by (auto simp: within_capacity_def write_snapshot_def Let_def abind_def dlog_eq on_world_save only_expires_def)

text \<open>C24: A compilation never moves a read cursor, whatever it returns. A snapshot that is handed out is stored for that attempt and is at most as
  long as the capacity of the contract's policy; a refusal reports a size above its limit and, as an error does, writes no file (it may only have
  removed expired snapshots).\<close>

theorem snapshot_within_capacity:
  "within_capacity v attempt_id d (compile_context_snapshot x v attempt_id now to_agent max_age d)"
proof (cases "policy_from_contract (cv_draft v)")
  case (Inl e)
  then show ?thesis
    by (simp add: compile_context_snapshot_def within_capacity_def only_expires_def lift_py_def abind_def)
next
  case (Inr policy)
  have fails: "within_capacity v attempt_id d (Inl e, d1)" if "only_expires d d1" for e d1
    using that by (simp add: within_capacity_def only_expires_def)
  obtain r1 d1 where e1: "expire_old_snapshots x (cv_contract_id v) now d = (r1, d1)" by (cases "expire_old_snapshots x (cv_contract_id v) now d")
  have o1: "only_expires d d1" by (rule akeeps_run [OF expire_only e1])
  obtain r2 d2 where e2: "handover_data x (cv_contract_id v) now d1 = (r2, d2)" by (cases "handover_data x (cv_contract_id v) now d1")
  have o2: "only_expires d d2" using expiry.trans [OF o1 akeeps_run [OF handover_only e2]] .
  note final = fails [OF o1] fails [OF o2] write_within_capacity [OF Inr o2]
  show ?thesis
    using final by (cases r1; cases r2) (simp_all add: compile_context_snapshot_def Inr lift_py_def abind_eq e1 e2 Let_def split: sum.split)
qed
end
