(* ===== verification/Evaluator.thy ===== *)
theory Evaluator
  imports Projections
begin

text \<open>
  \<open>lhgp/acceptance/evaluator.py\<close>: the deterministic evaluation of one typed check in a workspace. The file system, the processes, the
  digest, the regular expressions and \<open>json.loads\<close> are the parameter \<open>check_env\<close>; each may fail, and only the failures that the source
  catches become an outcome. \<open>ke_hint\<close> is the advice that ends the text for a missing command, which has a dash above the code points here.
  A file is the text that decodes it, over code points below 256; paths are POSIX paths.
\<close>

section \<open>The world of a check\<close>

text \<open>
  What the operations on files, processes, patterns and JSON texts raise. \<open>UnicodeDecodeError\<close> and the other errors of values are
  \<open>RaisedError\<close>; \<open>FileNotFound\<close> is an error of the operating system too.
\<close>

datatype check_failure =
    FileNotFound string | OsError string | BadJson string | BadRegex string | ProcessError string
  | IndexError string | RaisedError py_error

record check_env =
  ke_host :: pyhost
  ke_resolve :: "string \<Rightarrow> check_failure + string list"
  ke_show :: "string list \<Rightarrow> string"
  ke_is_file :: "string list \<Rightarrow> bool"
  ke_text :: "string list \<Rightarrow> check_failure + string"
  ke_digest :: "string list \<Rightarrow> check_failure + string"
  ke_search :: "string \<Rightarrow> string \<Rightarrow> check_failure + bool"
  ke_run :: "string list \<Rightarrow> string \<Rightarrow> pyfloat \<Rightarrow> check_failure + int \<times> string"
  ke_loads :: "string \<Rightarrow> check_failure + json"
  ke_hint :: string

record check_outcome =
  co_id :: string
  co_outcome :: string
  co_source :: string
  co_details :: string

definition to_evidence :: "check_outcome \<Rightarrow> (string \<times> string) list" where
  "to_evidence r = [(''check_id'', co_id r), (''outcome'', co_outcome r), (''source'', co_source r), (''details'', co_details r)]"

definition path_join :: "string \<Rightarrow> string \<Rightarrow> string" where
  "path_join base target = (if starts_with target ''/'' then target else base @ ''/'' @ target)"

text \<open>The resolved target, if it lies under the resolved workspace; only an error of a value is caught, and only for the workspace.\<close>

definition safe_target :: "check_env \<Rightarrow> string \<Rightarrow> string \<Rightarrow> check_failure + string list option" where
  "safe_target x base target = sbind (ke_resolve x (path_join base target)) (\<lambda>candidate.
     case ke_resolve x base of
       Inl (RaisedError (ValueError t)) \<Rightarrow> Inr None
     | Inl f \<Rightarrow> Inl f
     | Inr b \<Rightarrow> Inr (if starts_with candidate b then Some candidate else None))"

text \<open>The seconds a command may run: the smaller of the request of the check and the budget, between a tenth and sixty.\<close>

definition command_timeout_seconds :: "pyhost \<Rightarrow> dict \<Rightarrow> pyfloat option \<Rightarrow> pyfloat" where
  "command_timeout_seconds h args budget =
     (let requested = (case dict_get args ''timeout_seconds'' of
            JNull \<Rightarrow> Some (Fin 60) | JInt i \<Rightarrow> Some (Fin (of_int i)) | JFloat q \<Rightarrow> Some q | JStr t \<Rightarrow> h_float_of h t | _ \<Rightarrow> None);
          timeout = (case requested of Some (Fin q) \<Rightarrow> Fin q | _ \<Rightarrow> Fin 60);
          bounded = (case budget of Some (Fin b) \<Rightarrow> float_min timeout (Fin b) | _ \<Rightarrow> timeout) in
      float_min (Fin 60) (float_max (Fin (1/10)) bounded))"

section \<open>The kinds of checks\<close>

definition verdict_of :: "bool \<Rightarrow> string" where
  "verdict_of b = (if b then ''pass'' else ''fail'')"

definition check_id_of :: "check_spec \<Rightarrow> string" where
  "check_id_of spec = check_kind_value (cs_kind spec) @ '':'' @ cs_target spec"

definition outcome_row :: "check_spec \<Rightarrow> string \<Rightarrow> string \<Rightarrow> string \<Rightarrow> check_outcome" where
  "outcome_row spec outcome source details = \<lparr>co_id = check_id_of spec, co_outcome = outcome, co_source = source, co_details = details\<rparr>"

definition lift_value :: "py_error + 'a \<Rightarrow> check_failure + 'a" where
  "lift_value r = (case r of Inl e \<Rightarrow> Inl (RaisedError e) | Inr v \<Rightarrow> Inr v)"

definition content_check :: "check_env \<Rightarrow> check_spec \<Rightarrow> string list \<Rightarrow> check_failure + check_outcome" where
  "content_check x spec target = (let args = cs_args spec; shown = ke_show x target; text = py_str (h_repr (ke_host x)) in
     sbind (ke_text x target) (\<lambda>content.
     case map_of args ''sha256'' of
       Some wanted \<Rightarrow> sbind (ke_digest x target) (\<lambda>digest. Inr (outcome_row spec (verdict_of (py_eq (JStr digest) wanted)) shown digest))
     | None \<Rightarrow>
         (let expected = dict_get args ''contains''; pattern = dict_get args ''regex'' in
          if expected = JNull \<and> pattern = JNull then Inr (outcome_row spec ''undetermined'' shown ''missing contains/regex'')
          else sbind (if expected \<noteq> JNull then Inr (contains content (text expected)) else ke_search x (text pattern) content)
            (\<lambda>matched. Inr (outcome_row spec (verdict_of matched) shown [])))))"

definition command_line :: "check_env \<Rightarrow> check_spec \<Rightarrow> check_failure + string list" where
  "command_line x spec = sbind (lift_value (py_iter (dict_get_or (cs_args spec) ''argv'' (JList [])))) (\<lambda>extra.
     Inr (cs_target spec # map (py_str (h_repr (ke_host x))) extra))"

definition run_command :: "check_env \<Rightarrow> check_spec \<Rightarrow> string \<Rightarrow> pyfloat option \<Rightarrow> string list \<Rightarrow> check_failure + int \<times> string" where
  "run_command x spec base budget argv = ke_run x argv base (command_timeout_seconds (ke_host x) (cs_args spec) budget)"

definition command_not_found :: "check_env \<Rightarrow> check_spec \<Rightarrow> string" where
  "command_not_found x spec = ''command not found in daemon PATH: '' @ h_repr (ke_host x) (JStr (cs_target spec)) @ ke_hint x"

definition exit_check :: "check_env \<Rightarrow> check_spec \<Rightarrow> string \<Rightarrow> pyfloat option \<Rightarrow> check_failure + check_outcome" where
  "exit_check x spec base budget = sbind (command_line x spec) (\<lambda>argv.
     case run_command x spec base budget argv of
       Inl (FileNotFound t) \<Rightarrow> Inr (outcome_row spec ''undetermined'' (join '' '' argv) (command_not_found x spec))
     | Inl f \<Rightarrow> Inl f
     | Inr (code, out) \<Rightarrow> Inr (outcome_row spec (verdict_of (code = 0)) (join '' '' argv) (''exit='' @ int_str code)))"

definition output_check :: "check_env \<Rightarrow> check_spec \<Rightarrow> string \<Rightarrow> pyfloat option \<Rightarrow> check_failure + check_outcome" where
  "output_check x spec base budget = sbind (command_line x spec) (\<lambda>argv.
     let expected = py_str (h_repr (ke_host x)) (dict_get_or (cs_args spec) ''text'' (JStr [])) in
     sbind (run_command x spec base budget argv) (\<lambda>(code, out).
     let found = contains out expected in
     Inr (outcome_row spec (verdict_of (if cs_kind spec = OutputContains then found else \<not> found)) (join '' '' argv)
       (''looking for '' @ h_repr (ke_host x) (JStr expected) @ '' in stdout''))))"

definition output_match_check :: "check_env \<Rightarrow> check_spec \<Rightarrow> string \<Rightarrow> pyfloat option \<Rightarrow> check_failure + check_outcome" where
  "output_match_check x spec base budget = sbind (command_line x spec) (\<lambda>argv.
     let pattern = py_str (h_repr (ke_host x)) (dict_get_or (cs_args spec) ''regex'' (JStr [])) in
     sbind (run_command x spec base budget argv) (\<lambda>(code, out).
     sbind (ke_search x pattern out) (\<lambda>matched.
     Inr (outcome_row spec (verdict_of matched) (join '' '' argv) (''regex '' @ h_repr (ke_host x) (JStr pattern) @ '' on stdout'')))))"

definition not_empty_check :: "check_env \<Rightarrow> check_spec \<Rightarrow> string list \<Rightarrow> check_failure + check_outcome" where
  "not_empty_check x spec target = sbind (ke_text x target) (\<lambda>content.
     let text = strip content in
     Inr (outcome_row spec (verdict_of (text \<noteq> [])) (ke_show x target) (int_str (int (length text)) @ '' chars'')))"

definition line_count_check :: "check_env \<Rightarrow> check_spec \<Rightarrow> string list \<Rightarrow> check_failure + check_outcome" where
  "line_count_check x spec target = sbind (ke_text x target) (\<lambda>content.
     let lines = int (length (splitlines content)) in
     sbind (lift_value (py_int (dict_get_or (cs_args spec) ''count'' (JInt 0)))) (\<lambda>threshold.
     Inr (outcome_row spec (verdict_of (if cs_kind spec = LineCountMin then threshold \<le> lines else lines \<le> threshold)) (ke_show x target)
       (int_str lines @ '' lines (limit: '' @ int_str threshold @ '')''))))"

definition forbidden_check :: "check_env \<Rightarrow> check_spec \<Rightarrow> string list \<Rightarrow> check_failure + check_outcome" where
  "forbidden_check x spec target = sbind (ke_text x target) (\<lambda>content.
     sbind (lift_value (py_iter (dict_get_or (cs_args spec) ''patterns'' (JList [])))) (\<lambda>patterns.
     let found = filter (contains content) (map (py_str (h_repr (ke_host x))) patterns) in
     Inr (outcome_row spec (verdict_of (found = [])) (ke_show x target)
       (if found = [] then ''clean'' else ''forbidden found: '' @ h_repr (ke_host x) (str_list found)))))"

text \<open>\<open>str.isdigit\<close> below 256 also holds for the superscripts, which \<open>int\<close> refuses.\<close>

definition isdigit :: "string \<Rightarrow> bool" where
  "isdigit t \<longleftrightarrow> t \<noteq> [] \<and> list_all (\<lambda>c. digit_val c \<noteq> None \<or> (of_char c :: nat) \<in> {178, 179, 185}) t"

fun json_walk :: "json \<Rightarrow> string list \<Rightarrow> check_failure + json" where
  "json_walk current [] = Inr current"
| "json_walk (JObj d) (part # parts) = json_walk (dict_get d part) parts"
| "json_walk (JList xs) (part # parts) =
     (if \<not> isdigit part then Inr JNull
      else (case parse_int part of
          None \<Rightarrow> Inl (RaisedError (ValueError part))
        | Some i \<Rightarrow> if nat i < length xs then json_walk (xs ! nat i) parts else Inl (IndexError ''list index out of range'')))"
| "json_walk _ (part # parts) = Inr JNull"

definition json_path_check :: "check_env \<Rightarrow> check_spec \<Rightarrow> string list \<Rightarrow> check_failure + check_outcome" where
  "json_path_check x spec target = (let text = py_str (h_repr (ke_host x)); args = cs_args spec in
     sbind (ke_text x target) (\<lambda>content.
     sbind (ke_loads x content) (\<lambda>data.
     sbind (json_walk data (split_on (CHR ''.'') (text (dict_get_or args ''path'' (JStr []))))) (\<lambda>current.
     let expected = dict_get args ''value'' in
     Inr (outcome_row spec (verdict_of (py_eq current expected)) (ke_show x target)
       (''path='' @ text (dict_get args ''path'') @ '' got='' @ h_repr (ke_host x) current @ '' want='' @ h_repr (ke_host x) expected))))))"

definition structure_check :: "check_env \<Rightarrow> check_spec \<Rightarrow> string list \<Rightarrow> check_failure + check_outcome" where
  "structure_check x spec target = sbind (ke_text x target) (\<lambda>content.
     sbind (ke_loads x content) (\<lambda>data. Inr (outcome_row spec ''pass'' (ke_show x target) [])))"

section \<open>One check\<close>

definition escaped_row :: "check_spec \<Rightarrow> check_outcome" where
  "escaped_row spec = outcome_row spec ''fail'' ''path-policy'' ''target escapes workspace''"

definition under_target :: "check_spec \<Rightarrow> string list option \<Rightarrow> (string list \<Rightarrow> check_failure + check_outcome) \<Rightarrow> check_failure + check_outcome" where
  "under_target spec target f = (case target of None \<Rightarrow> Inr (escaped_row spec) | Some t \<Rightarrow> f t)"

definition dispatch_check :: "check_env \<Rightarrow> check_spec \<Rightarrow> string \<Rightarrow> pyfloat option \<Rightarrow> string list option \<Rightarrow> check_failure + check_outcome" where
  "dispatch_check x spec base budget target = (case cs_kind spec of
     FileExists \<Rightarrow> under_target spec target (\<lambda>t. Inr (outcome_row spec ''pass'' (ke_show x t) []))
   | ArtifactPresent \<Rightarrow> under_target spec target (\<lambda>t. Inr (outcome_row spec ''pass'' (ke_show x t) []))
   | FileContentMatches \<Rightarrow> under_target spec target (content_check x spec)
   | CommandExitZero \<Rightarrow> exit_check x spec base budget
   | OutputContains \<Rightarrow> output_check x spec base budget
   | OutputNotContains \<Rightarrow> output_check x spec base budget
   | OutputMatches \<Rightarrow> output_match_check x spec base budget
   | FileNotEmpty \<Rightarrow> under_target spec target (not_empty_check x spec)
   | LineCountMin \<Rightarrow> under_target spec target (line_count_check x spec)
   | LineCountMax \<Rightarrow> under_target spec target (line_count_check x spec)
   | NoForbidden \<Rightarrow> under_target spec target (forbidden_check x spec)
   | JsonPathEquals \<Rightarrow> under_target spec target (json_path_check x spec)
   | StructureValid \<Rightarrow> under_target spec target (structure_check x spec)
   | _ \<Rightarrow> Inr (outcome_row spec ''undetermined'' (cs_target spec) ''requires verifier or human observation''))"

text \<open>What the last handler of the source catches, and its text.\<close>

fun caught_failure :: "check_failure \<Rightarrow> string option" where
  "caught_failure (FileNotFound t) = Some t"
| "caught_failure (OsError t) = Some t"
| "caught_failure (BadJson t) = Some t"
| "caught_failure (BadRegex t) = Some t"
| "caught_failure (ProcessError t) = Some t"
| "caught_failure (IndexError t) = None"
| "caught_failure (RaisedError e) = None"

definition as_undetermined :: "check_spec \<Rightarrow> check_failure + check_outcome \<Rightarrow> check_failure + check_outcome" where
  "as_undetermined spec r = (case r of
     Inr row \<Rightarrow> Inr row
   | Inl f \<Rightarrow> (case caught_failure f of None \<Rightarrow> Inl f | Some t \<Rightarrow> Inr (outcome_row spec ''undetermined'' (cs_target spec) t)))"

definition stage_marker :: "check_spec \<Rightarrow> bool" where
  "stage_marker spec \<longleftrightarrow> cs_kind spec = ArtifactPresent \<and> starts_with (cs_target spec) ''stage:''"

definition needs_file :: "check_kind \<Rightarrow> bool" where
  "needs_file k \<longleftrightarrow> k \<in> {FileExists, FileContentMatches, ArtifactPresent, StructureValid}"

definition evaluate_check :: "check_env \<Rightarrow> string \<Rightarrow> pyfloat option \<Rightarrow> check_spec \<Rightarrow> check_failure + check_outcome" where
  "evaluate_check x base budget spec =
     (if stage_marker spec then Inr (outcome_row spec ''undetermined'' (cs_target spec)
        ''stage-completion marker is not a workspace artifact; defer to verifier verdict'')
      else sbind (safe_target x base (cs_target spec)) (\<lambda>target.
        if needs_file (cs_kind spec) \<and> target = None then Inr (escaped_row spec)
        else if needs_file (cs_kind spec) \<and> \<not> ke_is_file x (the target) then Inr (outcome_row spec ''fail'' (ke_show x (the target)) ''artifact does not exist'')
        else as_undetermined spec (dispatch_check x spec base budget target)))"


section \<open>What a check can see\<close>

lemma command_timeout_bounds:
  obtains q where "command_timeout_seconds h args budget = Fin q" and "1/10 \<le> q" and "q \<le> 60"
    and "\<And>b. budget = Some (Fin b) \<Longrightarrow> q \<le> max (1/10) b"
proof -
  have "\<exists>w. (case r of Some (Fin q) \<Rightarrow> Fin q | _ \<Rightarrow> Fin 60) = Fin w" for r :: "pyfloat option"
    by (auto split: option.split pyfloat.split)
  then obtain w where w: "(case (case dict_get args ''timeout_seconds'' of
      JNull \<Rightarrow> Some (Fin 60) | JInt i \<Rightarrow> Some (Fin (of_int i)) | JFloat q \<Rightarrow> Some q | JStr t \<Rightarrow> h_float_of h t | _ \<Rightarrow> None) of
      Some (Fin q) \<Rightarrow> Fin q | _ \<Rightarrow> Fin 60) = Fin w"
    by blast
  have "\<exists>v. (case budget of Some (Fin b) \<Rightarrow> float_min (Fin w) (Fin b) | _ \<Rightarrow> Fin w) = Fin v \<and> (\<forall>b. budget = Some (Fin b) \<longrightarrow> v \<le> b)"
    by (auto simp: float_min_def split: option.split pyfloat.split)
  then obtain v where v: "(case budget of Some (Fin b) \<Rightarrow> float_min (Fin w) (Fin b) | _ \<Rightarrow> Fin w) = Fin v"
    and small: "\<And>b. budget = Some (Fin b) \<Longrightarrow> v \<le> b"
    by blast
  have "command_timeout_seconds h args budget = Fin (min 60 (max (1/10) v))"
    unfolding command_timeout_seconds_def Let_def w v by (auto simp: float_min_def float_max_def)
  then show ?thesis by (rule that) (use small in \<open>force+\<close>)
qed

lemma safe_target_inside:
  assumes "safe_target x base t = Inr (Some p)"
  obtains b where "ke_resolve x base = Inr b" and "starts_with p b"
  using assms by (auto simp: safe_target_def sbind_def split: sum.splits check_failure.splits py_error.splits if_splits)

text \<open>Another world, the same for the check: it resolves, searches and parses alike.\<close>

abbreviation other_world :: "check_env \<Rightarrow> (string list \<Rightarrow> bool) \<Rightarrow> (string list \<Rightarrow> check_failure + string) \<Rightarrow> (string list \<Rightarrow> check_failure + string) \<Rightarrow>
    (string list \<Rightarrow> string \<Rightarrow> pyfloat \<Rightarrow> check_failure + int \<times> string) \<Rightarrow> check_env" where
  "other_world x is_file text digest run \<equiv> x\<lparr>ke_is_file := is_file, ke_text := text, ke_digest := digest, ke_run := run\<rparr>"

lemma other_target [simp]: "safe_target (other_world x f g d r) base t = safe_target x base t"
  by (simp add: safe_target_def)

definition same_runs :: "string \<Rightarrow> (string list \<Rightarrow> string \<Rightarrow> pyfloat \<Rightarrow> check_failure + int \<times> string) \<Rightarrow> check_env \<Rightarrow> bool" where
  "same_runs base r x \<longleftrightarrow> (\<forall>argv q. 1/10 \<le> q \<longrightarrow> q \<le> 60 \<longrightarrow> r argv base (Fin q) = ke_run x argv base (Fin q))"

lemma other_run:
  assumes "same_runs base r x"
  shows "run_command (other_world x f g d r) spec base budget argv = run_command x spec base budget argv"
proof -
  obtain q where "command_timeout_seconds (ke_host x) (cs_args spec) budget = Fin q" and "1/10 \<le> q" and "q \<le> 60"
    by (rule command_timeout_bounds)
  then show ?thesis using assms by (simp add: run_command_def same_runs_def)
qed

lemma other_command:
  assumes "same_runs base r x"
  shows "exit_check (other_world x f g d r) spec base budget = exit_check x spec base budget"
    and "output_check (other_world x f g d r) spec base budget = output_check x spec base budget"
    and "output_match_check (other_world x f g d r) spec base budget = output_match_check x spec base budget"
  unfolding exit_check_def output_check_def output_match_check_def other_run [OF assms] command_line_def command_not_found_def
  by (simp_all cong del: option.case_cong_weak sum.case_cong_weak check_failure.case_cong_weak prod.case_cong_weak)

lemma other_file:
  assumes "g t = ke_text x t" and "d t = ke_digest x t"
  shows "content_check (other_world x f g d r) spec t = content_check x spec t"
    and "not_empty_check (other_world x f g d r) spec t = not_empty_check x spec t"
    and "line_count_check (other_world x f g d r) spec t = line_count_check x spec t"
    and "forbidden_check (other_world x f g d r) spec t = forbidden_check x spec t"
    and "json_path_check (other_world x f g d r) spec t = json_path_check x spec t"
    and "structure_check (other_world x f g d r) spec t = structure_check x spec t"
  unfolding content_check_def not_empty_check_def line_count_check_def forbidden_check_def json_path_check_def structure_check_def
  by (simp_all add: assms Let_def cong: if_cong cong del: option.case_cong_weak)

text \<open>C23: What the evaluator itself does for a check is confined: its result is the same in any two worlds whose files agree under the resolved workspace and
  whose commands, started in the workspace, agree on time limits from a tenth of a second to sixty seconds. So it opens no file outside the resolved workspace
  and starts no command elsewhere or for longer. What a started command itself reads, and how a path is resolved, is outside the model (both are the same
  in the two worlds).\<close>

theorem check_is_confined:
  assumes files: "\<And>b p. ke_resolve x base = Inr b \<Longrightarrow> starts_with p b \<Longrightarrow> f p = ke_is_file x p \<and> g p = ke_text x p \<and> d p = ke_digest x p"
    and commands: "\<And>argv q. 1/10 \<le> q \<Longrightarrow> q \<le> 60 \<Longrightarrow> r argv base (Fin q) = ke_run x argv base (Fin q)"
  shows "evaluate_check (x\<lparr>ke_is_file := f, ke_text := g, ke_digest := d, ke_run := r\<rparr>) base budget spec = evaluate_check x base budget spec"
proof (cases "safe_target x base (cs_target spec)")
  case (Inl e)
  then show ?thesis by (simp add: evaluate_check_def)
next
  case (Inr target)
  have runs: "same_runs base r x" using commands by (simp add: same_runs_def)
  have same: "dispatch_check (other_world x f g d r) spec base budget target = dispatch_check x spec base budget target \<and>
    (target \<noteq> None \<longrightarrow> f (the target) = ke_is_file x (the target))"
  proof (cases target)
    case None
    then show ?thesis by (simp add: dispatch_check_def under_target_def other_command [OF runs] split: check_kind.split)
  next
    case (Some p)
    obtain b where "ke_resolve x base = Inr b" "starts_with p b" using safe_target_inside Inr Some by metis
    then have here: "f p = ke_is_file x p" "g p = ke_text x p" "d p = ke_digest x p" using files by blast+
    show ?thesis
      using Some here by (simp add: dispatch_check_def under_target_def other_command [OF runs] other_file split: check_kind.split)
  qed
  then show ?thesis using Inr by (cases target) (simp_all add: evaluate_check_def)
qed

definition sample_check_env :: check_env where
  "sample_check_env = \<lparr>ke_host = unary_host, ke_resolve = (\<lambda>t. Inr (map (\<lambda>c. [c]) t)), ke_show = concat, ke_is_file = (\<lambda>p. True),
     ke_text = (\<lambda>p. Inr ''inside''), ke_digest = (\<lambda>p. Inr ''0''), ke_search = (\<lambda>p t. Inr (contains t p)),
     ke_run = (\<lambda>argv base limit. Inr (0, [])), ke_loads = (\<lambda>t. Inr JNull), ke_hint = []\<rparr>"

text \<open>A file outside that may not be read, and a command that would fail without a limit, are not noticed.\<close>

theorem check_is_confined_witness:
  "evaluate_check (sample_check_env\<lparr>ke_is_file := ke_is_file sample_check_env,
      ke_text := (\<lambda>p. if starts_with p [''w''] then Inr ''inside'' else Inl (OsError ''denied'')), ke_digest := ke_digest sample_check_env,
      ke_run := (\<lambda>argv base limit. if limit = PosInf then Inl (ProcessError ''endless'') else Inr (0, []))\<rparr>) ''w'' None
      \<lparr>cs_kind = NoForbidden, cs_target = ''a'', cs_args = [(''patterns'', str_list [''out''])], cs_mandatory = True, cs_note = []\<rparr> =
    Inr \<lparr>co_id = ''no-forbidden:a'', co_outcome = ''pass'', co_source = ''w/a'', co_details = ''clean''\<rparr>"
proof (subst check_is_confined)
  show "ke_is_file sample_check_env p = ke_is_file sample_check_env p \<and>
      (if starts_with p [''w''] then Inr ''inside'' else Inl (OsError ''denied'')) = ke_text sample_check_env p \<and>
      ke_digest sample_check_env p = ke_digest sample_check_env p"
    if "ke_resolve sample_check_env ''w'' = Inr b" and "starts_with p b" for b p
    using that by (auto simp: sample_check_env_def)
  show "(if Fin q = PosInf then Inl (ProcessError ''endless'') else Inr (0, [])) = ke_run sample_check_env argv ''w'' (Fin q)" for argv q
    by (simp add: sample_check_env_def)
qed code_simp

text \<open>A file that is no UTF-8 text is not reported as undetermined: the error leaves the evaluator.\<close>

lemma undecodable_file_raises:
  assumes "cs_kind spec = NoForbidden" and "safe_target x base (cs_target spec) = Inr (Some p)" and "ke_text x p = Inl (RaisedError (ValueError t))"
  shows "evaluate_check x base budget spec = Inl (RaisedError (ValueError t))"
  using assms
  by (simp add: evaluate_check_def stage_marker_def needs_file_def as_undetermined_def dispatch_check_def under_target_def forbidden_check_def)
end
