(* ===== verification/Runner.thy ===== *)
theory Runner
  imports Context Evaluator Reconcile
begin

text \<open>
  \<open>longtask/cli/runner.py\<close>: the life of an attempt between the bookkeeping of the tick and the outside world, and the rows of
  \<open>lhgp/persistence/evidence.py\<close>: start, observation with renewal and timeout, the settling of an attempt with its evidence, cancellation,
  adoption after a restart, and the verifier that follows an executor.

  The executor adapters are the parameter: what they answer, by executor and attempt. Printed lines are not modelled. The column
  \<open>session_token_hash\<close> of the attempts is kept beside the rows, as \<open>rt_tokens\<close>.
\<close>

section \<open>The state of the runner\<close>

record run_info =
  ri_contract :: string
  ri_executor :: string
  ri_model :: string
  ri_role :: string
  ri_revision :: int
  ri_session :: string
  ri_generation :: "int option"

record evidence_row =
  er_contract :: string
  er_attempt :: string
  er_revision :: int
  er_check :: string
  er_outcome :: string
  er_source :: string
  er_deterministic :: bool
  er_model :: "string option"
  er_details :: "string option"
  er_recorded :: int

record runtime =
  rt_desk :: desk
  rt_registry :: registry
  rt_adapters :: "string list"
  rt_running :: "(string \<times> run_info) list"
  rt_tokens :: "(string \<times> string) list"
  rt_evidence :: "evidence_row list"
  rt_spawned :: int
  rt_finished :: int

type_synonym 'a run = "(runtime, 'a) io"

abbreviation rt_store :: "runtime \<Rightarrow> store" where
  "rt_store r \<equiv> dk_store (rt_desk r)"

record attempt_input =
  ai_attempt :: string
  ai_contract :: string
  ai_revision :: int
  ai_generation :: int
  ai_role :: string
  ai_snapshot :: dict
  ai_handover :: string
  ai_workspace :: string
  ai_budget :: "int \<times> int \<times> int"
  ai_prompt :: ustring
  ai_context :: "string option"
  ai_token :: "string option"
  ai_agent :: "string option"

text \<open>
  What an adapter may answer: \<open>prepare\<close> and \<open>spawn\<close> together; \<open>observe\<close>, where \<open>LostAttempt\<close> is a \<open>KeyError\<close> and \<open>SystemFailure\<close> an
  \<open>OSError\<close>; \<open>collect\<close> and \<open>cancel\<close>, with the text of whatever they raise.
\<close>

datatype launch_result = Launched string | PrepareRefused string | SpawnFailed string | LaunchRaised py_error
datatype observation = Seen dict | LostAttempt | SystemFailure string

datatype prompt_word =
    PromptTitle | PromptRevision | PromptRevisionEnd | PromptObjective | PromptChecks | PromptStandard | PromptDeadline | PromptConstraints
  | PromptChannel | PromptChannelText | VerifierIntro | VerifierStandard

record runner_env =
  re_context :: context_env
  re_checks :: check_env
  re_word :: "prompt_word \<Rightarrow> ustring"
  re_check_repr :: "check_spec \<Rightarrow> string"
  re_general :: "rat \<Rightarrow> string"
  re_stamp :: "int \<Rightarrow> string"
  re_secret :: "string \<Rightarrow> int \<Rightarrow> string"
  re_max_age :: int
  re_kill_switch :: bool
  re_build :: "registry_entry \<Rightarrow> bool"
  re_launch :: "string \<Rightarrow> attempt_input \<Rightarrow> launch_result"
  re_handle :: "string \<Rightarrow> string \<Rightarrow> run_handle option"
  re_observe :: "string \<Rightarrow> string \<Rightarrow> observation"
  re_collect :: "string \<Rightarrow> string \<Rightarrow> string + dict"
  re_cancel :: "string \<Rightarrow> string \<Rightarrow> string option"

abbreviation re_judge :: "runner_env \<Rightarrow> judge_env" where
  "re_judge x \<equiv> cx_judge (re_context x)"

abbreviation re_files :: "runner_env \<Rightarrow> file_env" where
  "re_files x \<equiv> jg_files (re_judge x)"

abbreviation re_repr :: "runner_env \<Rightarrow> json \<Rightarrow> string" where
  "re_repr x \<equiv> jg_repr (re_judge x)"

definition on_desk :: "(desk, 'a) io \<Rightarrow> 'a run" where
  "on_desk m = (\<lambda>r. case m (rt_desk r) of (v, d) \<Rightarrow> (v, r\<lparr>rt_desk := d\<rparr>))"

definition rlog :: "new_event \<Rightarrow> unit run" where
  "rlog n = on_desk (dlog n)"

definition dwrite :: "(store \<Rightarrow> store) \<Rightarrow> unit run" where
  "dwrite f = on_desk (on_world (awrite f))"

definition dcommit :: "(store \<Rightarrow> store_error + 'a \<times> store) \<Rightarrow> 'a run" where
  "dcommit f = on_desk (on_world (acommit f))"

definition rproject :: "runner_env \<Rightarrow> string \<Rightarrow> unit run" where
  "rproject x contract_id = on_desk (on_world (project (re_judge x) contract_id))"

text \<open>\<open>with transaction(conn)\<close>: a failure takes the rows back; files that were written stay.\<close>

definition in_transaction :: "'a run \<Rightarrow> 'a run" where
  "in_transaction m = (\<lambda>r. case m r of
     (Inr v, r') \<Rightarrow> (Inr v, r')
   | (Inl e, r') \<Rightarrow> (Inl e, r'\<lparr>rt_desk := (rt_desk r')\<lparr>dk_world := (dk_world (rt_desk r'))\<lparr>wo_store := rt_store r\<rparr>\<rparr>, rt_evidence := rt_evidence r\<rparr>))"

definition attempt_event :: "string \<Rightarrow> string \<Rightarrow> event_type \<Rightarrow> dict \<Rightarrow> int \<Rightarrow> string \<Rightarrow> new_event" where
  "attempt_event contract_id attempt_id t payload now role =
     (event_call (Some contract_id) t payload now)\<lparr>ne_attempt := Some attempt_id, ne_role := Some role\<rparr>"

section \<open>Adapters and tracking\<close>

definition replace_registry :: "registry \<Rightarrow> unit run" where
  "replace_registry reg = amodify (\<lambda>r. r\<lparr>rt_registry := reg\<rparr>)"

text \<open>An adapter is built once for an executor and stays when its entry goes.\<close>

definition adapter_for :: "runner_env \<Rightarrow> string \<Rightarrow> bool run" where
  "adapter_for x executor_id = (\<lambda>r.
     if executor_id \<in> set (rt_adapters r) then (Inr True, r)
     else (case map_of (rt_registry r) executor_id of
         None \<Rightarrow> (Inr False, r)
       | Some entry \<Rightarrow> if re_build x entry then (Inr True, r\<lparr>rt_adapters := executor_id # rt_adapters r\<rparr>) else (Inr False, r)))"

definition is_tracking :: "string \<Rightarrow> runtime \<Rightarrow> bool" where
  "is_tracking attempt_id r \<longleftrightarrow> map_of (rt_running r) attempt_id \<noteq> None"

definition is_idle :: "runtime \<Rightarrow> bool" where
  "is_idle r \<longleftrightarrow> rt_running r = []"

definition running_attempts :: "runtime \<Rightarrow> (string \<times> string) list" where
  "running_attempts r = map (\<lambda>(i, info). (ri_contract info, i)) (rt_running r)"

definition track :: "string \<Rightarrow> run_info \<Rightarrow> unit run" where
  "track attempt_id info = amodify (\<lambda>r. r\<lparr>rt_running := put attempt_id info (rt_running r)\<rparr>)"

definition untrack :: "string \<Rightarrow> unit run" where
  "untrack attempt_id = amodify (\<lambda>r. r\<lparr>rt_running := del attempt_id (rt_running r)\<rparr>)"

definition count_finished :: "unit run" where
  "count_finished = amodify (\<lambda>r. r\<lparr>rt_finished := rt_finished r + 1\<rparr>)"

definition count_spawned :: "unit run" where
  "count_spawned = amodify (\<lambda>r. r\<lparr>rt_spawned := rt_spawned r + 1\<rparr>)"

text \<open>The digest goes to the row of the attempt, if there is one.\<close>

definition issue_session_token :: "runner_env \<Rightarrow> string \<Rightarrow> int \<Rightarrow> string run" where
  "issue_session_token x attempt_id now = (let raw = re_secret x attempt_id now in (\<lambda>r.
     (Inr raw, if get_attempt (rt_store r) attempt_id = None then r
       else r\<lparr>rt_tokens := put attempt_id (rx_sha (jg_rpc (re_judge x)) raw) (rt_tokens r)\<rparr>)))"

definition resolve_directive_max_age_seconds :: "int option \<Rightarrow> string option \<Rightarrow> py_error + int" where
  "resolve_directive_max_age_seconds override env_value = (case override of
     Some n \<Rightarrow> Inr n
   | None \<Rightarrow> (case env_value of
       None \<Rightarrow> Inr 3600
     | Some t \<Rightarrow> if is_blank t then Inr 3600 else of_option (ValueError t) (parse_int t)))"

section \<open>Evidence\<close>

definition evidence_rows :: "string \<Rightarrow> string \<Rightarrow> int \<Rightarrow> (string \<times> string) list list \<Rightarrow> int \<Rightarrow> evidence_row list" where
  "evidence_rows contract_id attempt_id revision evidence now = map (\<lambda>item.
     (let outcome = str_get_or item ''outcome'' ''undetermined''; source = str_get_or item ''source'' [];
          text = (\<lambda>k. if str_get_or item k [] = [] then None else Some (str_get_or item k [])) in
      \<lparr>er_contract = contract_id, er_attempt = attempt_id, er_revision = revision, er_check = str_get_or item ''check_id'' [],
       er_outcome = outcome, er_source = source, er_deterministic = (outcome \<noteq> ''undetermined'' \<and> \<not> contains source ''model''),
       er_model = text ''model_outcome'', er_details = text ''details'', er_recorded = now\<rparr>))
     (filter (\<lambda>item. \<not> is_blank (str_get_or item ''check_id'' [])) evidence)"

definition record_evidence :: "evidence_row list \<Rightarrow> unit run" where
  "record_evidence rows = amodify (\<lambda>r. r\<lparr>rt_evidence := rt_evidence r @ rows\<rparr>)"

definition get_evidence_for_contract :: "string \<Rightarrow> int \<Rightarrow> evidence_row list \<Rightarrow> evidence_row list" where
  "get_evidence_for_contract contract_id limit rows =
     sql_limit limit (rev (sort_key er_recorded (filter (\<lambda>e. er_contract e = contract_id) rows)))"

section \<open>What an attempt is told\<close>

definition executor_prompt :: "runner_env \<Rightarrow> contract_view \<Rightarrow> ustring" where
  "executor_prompt x v = (let draft = cv_draft v; check_text = (\<lambda>c. case c of LegacyCheck t \<Rightarrow> t | TypedCheck s \<Rightarrow> re_check_repr x s) in
     ujoin [10] ([re_word x PromptTitle @ codes (cv_contract_id v) @ re_word x PromptRevision @ codes (int_str (cv_revision v)) @ re_word x PromptRevisionEnd,
       [], re_word x PromptObjective, codes (cd_objective draft), [], re_word x PromptChecks] @
       map (\<lambda>c. codes (''- '' @ check_text c)) (ac_checks (cd_acceptance draft)) @
       [re_word x PromptStandard @ codes (ac_standard (cd_acceptance draft)), [],
        re_word x PromptDeadline @ codes (h_iso_format (cx_host (re_context x)) (cd_deadline_at draft))] @
       (if cd_hard_constraints draft = [] then []
        else [[], re_word x PromptConstraints, codes (fe_indent (re_files x) (JObj (cd_hard_constraints draft)))]) @
       [[], re_word x PromptChannel, re_word x PromptChannelText]))"

definition with_addendum :: "ustring \<Rightarrow> ustring \<Rightarrow> ustring" where
  "with_addendum prompt addendum = (if addendum = [] then prompt else prompt @ [10, 10] @ addendum)"

text \<open>The input with the cursor and the ids of its directives, or the sizes of a refused context.\<close>

datatype built = RefusedInput int int | Built attempt_input int "int list"

definition attempt_input_of :: "runner_env \<Rightarrow> contract_view \<Rightarrow> string \<Rightarrow> string option \<Rightarrow> int \<Rightarrow> ustring \<Rightarrow> string option \<Rightarrow> attempt_input" where
  "attempt_input_of x v attempt_id agent_id generation prompt snapshot = (let b = cd_budget (cv_draft v) in
     \<lparr>ai_attempt = attempt_id, ai_contract = cv_contract_id v, ai_revision = cv_revision v, ai_generation = generation, ai_role = ''executor'',
      ai_snapshot = draft_to_dict (cx_host (re_context x)) (cv_draft v), ai_handover = cx_path (re_context x) (cv_contract_id v) ''handover.md'',
      ai_workspace = contract_workspace v, ai_budget = (bu_max_dispatches b, bu_max_escalations b, bu_max_output_bytes b), ai_prompt = prompt,
      ai_context = snapshot, ai_token = None, ai_agent = agent_id\<rparr>)"

definition build_attempt_input :: "runner_env \<Rightarrow> contract_view \<Rightarrow> string \<Rightarrow> int \<Rightarrow> bool \<Rightarrow> string option \<Rightarrow> (desk, built) io" where
  "build_attempt_input x v attempt_id now with_context agent_id =
     abind (aread (\<lambda>d. case get_lease (dk_store d) (cv_contract_id v) None of None \<Rightarrow> 0 | Some l \<Rightarrow> le_generation l)) (\<lambda>generation.
     if \<not> with_context then apure (Built (attempt_input_of x v attempt_id agent_id generation (executor_prompt x v) None) 0 [])
     else
       abind (\<lambda>d. (lift_py (handover_prompt_addendum (re_context x) (dk_files d) (cv_contract_id v)), d)) (\<lambda>addendum.
       abind (compile_context_snapshot (re_context x) v attempt_id now agent_id (Some (re_max_age x))) (\<lambda>c. case c of
         Refused n m \<Rightarrow> apure (RefusedInput n m)
       | Compiled path cursor ids \<Rightarrow>
           apure (Built (attempt_input_of x v attempt_id agent_id generation (with_addendum (executor_prompt x v) addendum) (Some path)) cursor ids))))"

definition verifier_prompt :: "runner_env \<Rightarrow> contract_view \<Rightarrow> ustring" where
  "verifier_prompt x v = re_word x VerifierIntro @ codes ''## acceptance.checks'' @ [10] @
     ujoin [10] (map (\<lambda>c. codes (''- '' @ (case c of TypedCheck s \<Rightarrow> check_id_of s | LegacyCheck t \<Rightarrow> t))) (ac_checks (cd_acceptance (cv_draft v)))) @
     re_word x VerifierStandard @ codes (ac_standard (cd_acceptance (cv_draft v)))"

text \<open>The input of a verifier names no agent.\<close>

definition build_verifier_input :: "runner_env \<Rightarrow> contract_view \<Rightarrow> string \<Rightarrow> int \<Rightarrow> (desk, built) io" where
  "build_verifier_input x v attempt_id now = abind (build_attempt_input x v attempt_id now True None) (\<lambda>b. case b of
     RefusedInput n m \<Rightarrow> apure (RefusedInput n m)
   | Built base cursor ids \<Rightarrow>
       abind (\<lambda>d. (lift_py (handover_prompt_addendum (re_context x) (dk_files d) (cv_contract_id v)), d)) (\<lambda>addendum.
       apure (Built (base\<lparr>ai_role := ''verifier'', ai_prompt := with_addendum (verifier_prompt x v) addendum, ai_agent := None\<rparr>) cursor ids)))"

section \<open>Settling an attempt\<close>

text \<open>A lease that has moved on is left alone.\<close>

definition release_if_held :: "int \<Rightarrow> string \<Rightarrow> string \<Rightarrow> store \<Rightarrow> store" where
  "release_if_held now contract_id attempt_id s = (case get_lease s contract_id None of
     None \<Rightarrow> s
   | Some l \<Rightarrow> if le_holder l \<noteq> attempt_id then s else recon_release contract_id attempt_id (le_generation l) now s)"

definition settle_row :: "string \<Rightarrow> int \<Rightarrow> string option \<Rightarrow> attempt \<Rightarrow> attempt" where
  "settle_row state now error_class a = a\<lparr>sa_state := state, sa_terminal := Some now,
     sa_error_class := (case error_class of None \<Rightarrow> sa_error_class a | Some e \<Rightarrow> Some e), sa_updated := now\<rparr>"

definition fail_attempt :: "runner_env \<Rightarrow> int \<Rightarrow> string \<Rightarrow> string \<Rightarrow> string \<Rightarrow> string \<Rightarrow> string \<Rightarrow> unit run" where
  "fail_attempt x now contract_id attempt_id reason role error_class =
     abind (rlog (attempt_event contract_id attempt_id ATTEMPT_FAILED [(''reason'', JStr reason)] now role)) (\<lambda>_.
     abind (dwrite (update_attempt attempt_id (settle_row ''failed'' now (Some error_class)))) (\<lambda>_.
     abind (dwrite (release_if_held now contract_id attempt_id)) (\<lambda>_.
     abind (rproject x contract_id) (\<lambda>_.
     abind (untrack attempt_id) (\<lambda>_. count_finished)))))"

definition mark_stale :: "runner_env \<Rightarrow> int \<Rightarrow> string \<Rightarrow> run_info \<Rightarrow> string \<Rightarrow> unit run" where
  "mark_stale x now attempt_id info reason =
     abind (rlog (attempt_event (ri_contract info) attempt_id ATTEMPT_STALE
       [(''reason'', JStr reason), (''session_ref'', JStr (ri_session info))] now (ri_role info))) (\<lambda>_.
     abind (dwrite (release_if_held now (ri_contract info) attempt_id)) (\<lambda>_.
     abind (dwrite (update_attempt attempt_id (settle_row ''stale'' now None))) (\<lambda>_.
     abind (rproject x (ri_contract info)) (\<lambda>_. untrack attempt_id))))"

text \<open>Whatever the adapter answers, the attempt is cancelled.\<close>

definition cancel_attempt :: "runner_env \<Rightarrow> int \<Rightarrow> string \<Rightarrow> string \<Rightarrow> string \<Rightarrow> string \<Rightarrow> bool run" where
  "cancel_attempt x now contract_id attempt_id reason actor = abind (aread (\<lambda>r. map_of (rt_running r) attempt_id)) (\<lambda>found. case found of
     None \<Rightarrow> apure False
   | Some info \<Rightarrow>
       if ri_contract info \<noteq> contract_id then apure False
       else
         abind (rlog ((attempt_event contract_id attempt_id ATTEMPT_CANCELLED [(''reason'', JStr reason)] now (ri_role info))\<lparr>ne_actor := actor\<rparr>)) (\<lambda>_.
         abind (dwrite (set_attempt_state attempt_id ''cancelled'' now (Some ''cancelled-by-user'') None False)) (\<lambda>_.
         abind (dwrite (release_if_held now contract_id attempt_id)) (\<lambda>_.
         abind (rproject x contract_id) (\<lambda>_.
         abind (untrack attempt_id) (\<lambda>_. apure True))))))"

section \<open>Starting an executor\<close>

definition HANDLE_REGISTERED :: event_type where "HANDLE_REGISTERED = ''handle/registered''"

definition persist_handle :: "runner_env \<Rightarrow> string \<Rightarrow> contract_view \<Rightarrow> string \<Rightarrow> int \<Rightarrow> unit run" where
  "persist_handle x executor_id v attempt_id now = (case re_handle x executor_id attempt_id of
     None \<Rightarrow> apure ()
   | Some h \<Rightarrow>
       abind (dwrite (register_attempt_handle attempt_id (eh_run h) (eh_locator h) (eh_recovery h) (eh_identity h) (eh_capability h) now)) (\<lambda>_.
       abind (dwrite (set_attempt_state attempt_id ''running'' now None None False)) (\<lambda>_.
       rlog ((attempt_event (cv_contract_id v) attempt_id HANDLE_REGISTERED (handle_to_dict h) now ''executor'')
         \<lparr>ne_goal := Some (cv_goal_id v), ne_revision := Some (cv_revision v)\<rparr>))))"

definition consume_directives :: "runner_env \<Rightarrow> string \<Rightarrow> string \<Rightarrow> int \<Rightarrow> int list \<Rightarrow> int \<Rightarrow> unit run" where
  "consume_directives x contract_id executor_id cursor ids now = on_desk (\<lambda>d.
     case mark_directives_consumed (cx_sql (re_context x)) contract_id cursor (Some executor_id) ids (Some now) (dk_side d, dk_store d) of
       Inl e \<Rightarrow> (Inl (CallError e), d)
     | Inr (moved, side, s) \<Rightarrow> (Inr (), d\<lparr>dk_side := side, dk_world := (dk_world d)\<lparr>wo_store := s\<rparr>\<rparr>))"

definition capacity_text :: "int \<Rightarrow> int \<Rightarrow> string" where
  "capacity_text n m = ''context snapshot '' @ int_str n @ ''B exceeds policy max_bytes='' @ int_str m"

text \<open>The generation of the lease that the contract has once the process runs.\<close>

definition track_started :: "string \<Rightarrow> string \<Rightarrow> contract_view \<Rightarrow> string \<Rightarrow> string \<Rightarrow> string \<Rightarrow> string \<Rightarrow> unit run" where
  "track_started contract_id attempt_id v executor_id model role session =
     abind (aread (\<lambda>r. map_option le_generation (get_lease (rt_store r) contract_id None))) (\<lambda>generation.
     track attempt_id \<lparr>ri_contract = contract_id, ri_executor = executor_id, ri_model = model, ri_role = role, ri_revision = cv_revision v,
       ri_session = session, ri_generation = generation\<rparr>)"

definition started :: "runner_env \<Rightarrow> string \<Rightarrow> contract_view \<Rightarrow> string \<Rightarrow> string \<Rightarrow> string \<Rightarrow> string \<Rightarrow> int \<Rightarrow> int list \<Rightarrow> int \<Rightarrow> bool run" where
  "started x contract_id v attempt_id executor_id model session cursor ids now =
     abind (consume_directives x contract_id executor_id cursor ids now) (\<lambda>_.
     abind (persist_handle x executor_id v attempt_id now) (\<lambda>_.
     abind (track_started contract_id attempt_id v executor_id model ''executor'' session) (\<lambda>_.
     abind count_spawned (\<lambda>_. apure True))))"

definition start_attempt :: "runner_env \<Rightarrow> int \<Rightarrow> string \<Rightarrow> string \<Rightarrow> string \<Rightarrow> string \<Rightarrow> bool run" where
  "start_attempt x now contract_id attempt_id executor_id model =
     (let refuse = (\<lambda>reason. abind (fail_attempt x now contract_id attempt_id reason ''executor'' ''attempt-failed'') (\<lambda>_. apure False)) in
      abind (adapter_for x executor_id) (\<lambda>available.
      abind (aread (\<lambda>r. get_contract (rt_store r) contract_id)) (\<lambda>contract.
      if \<not> available \<or> contract = None then refuse (''executor or contract unavailable: '' @ executor_id)
      else
        (let v = the contract in
         abind (on_desk (build_attempt_input x v attempt_id now True (Some executor_id))) (\<lambda>b. case b of
           RefusedInput n m \<Rightarrow> refuse (''context capacity refused: '' @ capacity_text n m)
         | Built i cursor ids \<Rightarrow>
             abind (issue_session_token x attempt_id now) (\<lambda>token.
             case re_launch x executor_id (i\<lparr>ai_token := Some token\<rparr>) of
               PrepareRefused t \<Rightarrow> refuse (''prepare refused: '' @ t)
             | SpawnFailed t \<Rightarrow> refuse (''spawn failed: '' @ t)
             | LaunchRaised e \<Rightarrow> alift (Inl (CallError e))
             | Launched session \<Rightarrow> started x contract_id v attempt_id executor_id model session cursor ids now))))))"

section \<open>The verifier of an executor\<close>

definition VERIFIER_ENDED :: "string set" where
  "VERIFIER_ENDED = {''succeeded'', ''failed'', ''cancelled'', ''stale'', ''orphaned''}"

definition deferral_already_recorded :: "store \<Rightarrow> string \<Rightarrow> int \<Rightarrow> bool" where
  "deferral_already_recorded s contract_id generation = (case get_recent_events contract_id [DISPATCH_DEFERRED] 1 (st_log s) of
     Inr (e # es) \<Rightarrow> py_eq (dict_get (ev_payload e) ''lease_generation'') (JInt generation) | _ \<Rightarrow> False)"

text \<open>The live lease of an attempt that has not ended.\<close>

definition lease_in_use :: "store \<Rightarrow> string \<Rightarrow> int \<Rightarrow> lease option" where
  "lease_in_use s contract_id now = (case get_lease s contract_id None of
     None \<Rightarrow> None
   | Some l \<Rightarrow> if lease_is_alive l now \<and> \<not> (case get_attempt s (le_holder l) of None \<Rightarrow> False | Some a \<Rightarrow> attempt_is_terminal a) then Some l else None)"

definition verifier_pending :: "store \<Rightarrow> string \<Rightarrow> bool" where
  "verifier_pending s contract_id \<longleftrightarrow> list_ex (\<lambda>(i, a). sa_contract a = Some contract_id \<and> sa_role a = ''verifier'' \<and> sa_state a \<notin> VERIFIER_ENDED) (st_attempts s)"

definition deferral_event :: "string \<Rightarrow> lease \<Rightarrow> int \<Rightarrow> new_event" where
  "deferral_event contract_id l now = event_call (Some contract_id) DISPATCH_DEFERRED
     [(''reason'', JStr (''verifier dispatch deferred: live lease held by running attempt '' @ le_holder l)),
      (''lease_generation'', JInt (le_generation l))] now"

definition hand_verification_to_user :: "string \<Rightarrow> string \<Rightarrow> int \<Rightarrow> unit run" where
  "hand_verification_to_user contract_id reason now = rlog (event_call (Some contract_id) ESCALATION_HANDED_TO_USER [(''reason'', JStr reason)] now)"

definition block_for_user :: "runner_env \<Rightarrow> contract_view \<Rightarrow> int \<Rightarrow> unit run" where
  "block_for_user x v now = suppress_store_error (
     abind (dcommit (update_contract_state (rx_zone (jg_rpc (re_judge x))) \<lparr>uc_contract = cv_contract_id v, uc_state = Blocked, uc_now = now,
       uc_expected = None, uc_blocked = Some NeedUser, uc_next_wakeup = None, uc_deadline = None, uc_acceptance = None, uc_next_decision = None,
       uc_event = None, uc_payload = [], uc_request = None, uc_actor = ''daemon'', uc_schema = STORE_SCHEMA_VERSION\<rparr>)) (\<lambda>_.
     rlog ((event_call (Some (cv_contract_id v)) CONTRACT_BLOCKED
         [(''reason'', JStr (''verification budget exhausted ('' @ paragraph_sign @ ''12.4)'')), (''blocked_reason'', JStr (block_reason_value NeedUser))] now)
       \<lparr>ne_goal := Some (cv_goal_id v), ne_revision := Some (cv_revision v)\<rparr>)))"

definition verifier_lease :: "contract_view \<Rightarrow> string \<Rightarrow> string \<Rightarrow> int \<Rightarrow> int \<Rightarrow> lease_call" where
  "verifier_lease v verifier_id executor_id expected now = \<lparr>lc_contract = cv_contract_id v, lc_partition = None, lc_holder = Some verifier_id,
     lc_generation = expected, lc_now = now, lc_timeout = bu_max_attempt_minutes (cd_budget (cv_draft v)) * MINUTE, lc_request = None,
     lc_actor = ''daemon'', lc_reason = [], lc_payload = [(''executor_id'', JStr executor_id), (''urgency_tier'', JInt 3)], lc_schema = 2,
     lc_role = Some ''verifier'', lc_revision = Some (cv_revision v)\<rparr>"

definition verifier_record :: "contract_view \<Rightarrow> string \<Rightarrow> registry_entry \<Rightarrow> string \<Rightarrow> int \<Rightarrow> attempt_record" where
  "verifier_record v verifier_id e executor_id now = \<lparr>ra_goal = cv_goal_id v, ra_contract = Some (cv_contract_id v), ra_attempt = verifier_id,
     ra_revision = cv_revision v, ra_role = ''verifier'', ra_executor = Some (rg_id e), ra_model = Some (effective_model e), ra_state = ''admitted'',
     ra_admitted = now, ra_started = None, ra_terminal = None, ra_return_code = None, ra_error_class = None,
     ra_payload = [(''verifier_for'', JStr executor_id), (''executor_id'', JStr (rg_id e))], ra_updated = now\<rparr>"

text \<open>The row of the verifier; an existing row keeps everything but its state, payload and time.\<close>

definition insert_verifier_row :: "attempt_record \<Rightarrow> store \<Rightarrow> store" where
  "insert_verifier_row c s = s\<lparr>st_attempts := put (ra_attempt c) (case get_attempt s (ra_attempt c) of
     None \<Rightarrow> new_attempt c | Some a \<Rightarrow> a\<lparr>sa_state := ra_state c, sa_payload := ra_payload c, sa_updated := ra_updated c\<rparr>) (st_attempts s)\<rparr>"

definition verifier_started :: "runner_env \<Rightarrow> contract_view \<Rightarrow> string \<Rightarrow> registry_entry \<Rightarrow> string \<Rightarrow> string \<Rightarrow> int \<Rightarrow> bool run" where
  "verifier_started x v verifier_id e executor_id session now =
     abind (rlog ((attempt_event (cv_contract_id v) verifier_id ATTEMPT_STARTED [(''executor_id'', JStr (rg_id e)), (''role'', JStr ''verifier''),
       (''verifier_for'', JStr executor_id), (''contract_revision'', JInt (cv_revision v))] now ''verifier'')
       \<lparr>ne_goal := Some (cv_goal_id v), ne_revision := Some (cv_revision v)\<rparr>)) (\<lambda>_.
     abind (dwrite (insert_verifier_row (verifier_record v verifier_id e executor_id now))) (\<lambda>_.
     abind (persist_handle x (rg_id e) v verifier_id now) (\<lambda>_.
     abind (track_started (cv_contract_id v) verifier_id v (rg_id e) (effective_model e) ''verifier'' session) (\<lambda>_.
     abind count_spawned (\<lambda>_. apure True)))))"

text \<open>From the lease on: the input is built under the lease of the verifier, and every refusal gives the lease back.\<close>

definition launch_verifier :: "runner_env \<Rightarrow> int \<Rightarrow> contract_view \<Rightarrow> string \<Rightarrow> registry_entry \<Rightarrow> string \<Rightarrow> bool run" where
  "launch_verifier x now v verifier_id e executor_id =
     (let refuse = (\<lambda>reason. abind (fail_attempt x now (cv_contract_id v) verifier_id reason ''verifier'' ''attempt-failed'') (\<lambda>_. apure False)) in
      abind (on_desk (build_verifier_input x v verifier_id now)) (\<lambda>b. case b of
        RefusedInput n m \<Rightarrow> refuse (''verifier context capacity refused: '' @ capacity_text n m)
      | Built i cursor ids \<Rightarrow>
          abind (issue_session_token x verifier_id now) (\<lambda>token.
          case re_launch x (rg_id e) (i\<lparr>ai_token := Some token\<rparr>) of
            PrepareRefused t \<Rightarrow> refuse (''verifier prepare refused: '' @ t)
          | SpawnFailed t \<Rightarrow> refuse (''verifier spawn failed: '' @ t)
          | LaunchRaised err \<Rightarrow> alift (Inl (CallError err))
          | Launched session \<Rightarrow> verifier_started x v verifier_id e executor_id session now)))"

definition claim_for_verifier :: "contract_view \<Rightarrow> string \<Rightarrow> string \<Rightarrow> int \<Rightarrow> bool run" where
  "claim_for_verifier v verifier_id executor_id now = (\<lambda>r.
     let expected = (case get_lease (rt_store r) (cv_contract_id v) None of None \<Rightarrow> 0 | Some l \<Rightarrow> le_generation l) in
     case acquire_lease (verifier_lease v verifier_id executor_id expected now) (rt_store r) of
       Inl (LeaseCASError t) \<Rightarrow> (Inr False, r)
     | Inl err \<Rightarrow> (Inl err, r)
     | Inr (l, s) \<Rightarrow> (Inr True, snd (dwrite (\<lambda>_. s) r)))"

definition send_verifier :: "runner_env \<Rightarrow> int \<Rightarrow> contract_view \<Rightarrow> registry_entry \<Rightarrow> string \<Rightarrow> bool run" where
  "send_verifier x now v e executor_id =
     abind (aread (\<lambda>r. new_attempt_id (rt_store r) (''ver-'' @ re_stamp x now @ ''-'' @ last_items 4 (cv_contract_id v)))) (\<lambda>found. case found of
       None \<Rightarrow> apure False
     | Some verifier_id \<Rightarrow>
         (let refuse = (\<lambda>reason. abind (fail_attempt x now (cv_contract_id v) verifier_id reason ''verifier'' ''attempt-failed'') (\<lambda>_. apure False)) in
          abind (adapter_for x (rg_id e)) (\<lambda>available.
          if \<not> available then refuse (''verifier adapter unavailable: '' @ rg_id e)
          else
            abind (claim_for_verifier v verifier_id (rg_id e) now) (\<lambda>claimed.
            if \<not> claimed then refuse ''verifier lease CAS failed before spawn''
            else launch_verifier x now v verifier_id e executor_id))))"

definition budget_text :: "int \<Rightarrow> int \<Rightarrow> string" where
  "budget_text used reserved = ''verification budget exhausted: '' @ int_str used @ ''/'' @ int_str reserved @ '' verifier attempts used ('' @ paragraph_sign @
     ''12.4): user arbitration needed''"

definition choose_verifier :: "runner_env \<Rightarrow> int \<Rightarrow> contract_view \<Rightarrow> string \<Rightarrow> bool run" where
  "choose_verifier x now v executor_id =
     abind (aread (\<lambda>r. match_candidates (re_repr x) (rt_registry r) (DraftSource (cv_draft v)) (count_running_by_executor (rt_store r)) ''verifier''))
       (\<lambda>matched. abind (alift (lift_py matched)) (\<lambda>candidates.
     case find (\<lambda>e. rg_id e \<noteq> executor_id) candidates of
       None \<Rightarrow> abind (hand_verification_to_user (cv_contract_id v) (''no independent verifier candidate in registry ('' @ paragraph_sign @ ''5.2)'') now) (\<lambda>_. apure False)
     | Some e \<Rightarrow> send_verifier x now v e executor_id))"

definition dispatch_verifier :: "runner_env \<Rightarrow> int \<Rightarrow> string \<Rightarrow> string \<Rightarrow> bool run" where
  "dispatch_verifier x now contract_id executor_id =
     (if re_kill_switch x then apure False
      else abind (aread (\<lambda>r. (get_contract (rt_store r) contract_id, lease_in_use (rt_store r) contract_id now))) (\<lambda>(contract, busy).
        case contract of
          None \<Rightarrow> apure False
        | Some v \<Rightarrow>
            if cv_state v \<noteq> Active then apure False
            else (case busy of
              Some l \<Rightarrow> abind (aread (\<lambda>r. deferral_already_recorded (rt_store r) contract_id (le_generation l))) (\<lambda>recorded.
                if recorded then apure False else abind (rlog (deferral_event contract_id l now)) (\<lambda>_. apure False))
            | None \<Rightarrow>
                abind (aread (\<lambda>r. (verifier_pending (rt_store r) contract_id, count_verifier_attempts (rt_store r) contract_id))) (\<lambda>(pending, used).
                let reserved = bu_verification_attempts_reserved (cd_budget (cv_draft v)) in
                if pending then apure False
                else if reserved \<le> used then
                  abind (hand_verification_to_user contract_id (budget_text used reserved) now) (\<lambda>_.
                  abind (block_for_user x v now) (\<lambda>_. apure False))
                else choose_verifier x now v executor_id))))"

section \<open>Collecting a result\<close>

definition OUTPUT_TAIL_CHARS :: nat where "OUTPUT_TAIL_CHARS = 2000"

definition tail_text :: "(json \<Rightarrow> string) \<Rightarrow> json \<Rightarrow> string" where
  "tail_text rp v = (if v = JNull then [] else last_items OUTPUT_TAIL_CHARS (py_str rp v))"

definition quoted :: "string \<Rightarrow> string" where
  "quoted t = CHR 0x22 # t @ [CHR 0x22]"

text \<open>Has the verifier reported by itself? The text of the payload is searched.\<close>

definition written_back :: "runner_env \<Rightarrow> string \<Rightarrow> string \<Rightarrow> store \<Rightarrow> bool" where
  "written_back x contract_id attempt_id s \<longleftrightarrow> list_ex (\<lambda>e. ev_attempt e = Some attempt_id \<and> ev_type e \<in> {ATTEMPT_SUCCEEDED, ATTEMPT_FAILED} \<and>
     (let text = fe_dumps (re_files x) (JObj (ev_payload e)) in
      contains text (quoted ''role'' @ '': '' @ quoted ''verifier'') \<or> contains text (quoted ''checks'')))
     (get_events (Some contract_id) None [] None (st_log s))"

definition source_loss_text :: string where
  "source_loss_text = ''verifier output was truncated by budget.max_output_bytes before the lhgp-verdict block could be captured''"

definition output_payload :: "runner_env \<Rightarrow> dict \<Rightarrow> dict \<Rightarrow> dict" where
  "output_payload x c p = (let p1 = put ''stderr_tail'' (JStr (tail_text (re_repr x) (dict_get c ''stderr'')))
       (put ''stdout_tail'' (JStr (tail_text (re_repr x) (dict_get c ''stdout''))) (put ''returncode'' (dict_get c ''returncode'') p)) in
     if truthy (dict_get c ''finished_by_event'') then put ''completion_attested'' (dict_get c ''completion_attested'') p1 else p1)"

text \<open>The list of a dictionary of checks is the list of their ids.\<close>

definition verdict_json :: "model_verdict option \<Rightarrow> json" where
  "verdict_json mv = (case mv of None \<Rightarrow> JNull
   | Some m \<Rightarrow> JObj [(''verdict'', JStr (mv_verdict m)), (''checks'', str_list (map fst (mv_checks m)))])"

definition read_verdict :: "runner_env \<Rightarrow> string \<Rightarrow> dict \<Rightarrow> dict \<Rightarrow> model_verdict option \<times> dict" where
  "read_verdict x role c p = (let (mv, p1) = (if role \<noteq> ''verifier'' then (None, p)
       else (case verdict_from_output (re_repr x) (fe_loads (re_files x)) (py_str (re_repr x) (py_or (dict_get c ''stdout'') (JStr [])))
           (truthy (dict_get c ''output_truncated'')) of
         Inl VerdictSourceLossError \<Rightarrow> (None, put ''verdict_source_loss'' (JStr source_loss_text) p)
       | Inr mv \<Rightarrow> (mv, p))) in (mv, put ''model_verdict'' (verdict_json mv) p1))"

definition missing_evidence :: "dict \<Rightarrow> dict" where
  "missing_evidence p = put ''reason'' (JStr ''verifier exited without structured acceptance evidence'')
     (put ''error_class'' (JStr ''verification-evidence-missing'') (put ''state'' (JStr ''failed'') p))"

definition collect_failed :: "string \<Rightarrow> dict \<Rightarrow> dict" where
  "collect_failed reason p = put ''collect_error'' (JStr reason) (put ''state'' (JStr ''failed'') p)"

fun failure_text :: "check_failure \<Rightarrow> string" where
  "failure_text (FileNotFound t) = t"
| "failure_text (OsError t) = t"
| "failure_text (BadJson t) = t"
| "failure_text (BadRegex t) = t"
| "failure_text (ProcessError t) = t"
| "failure_text (IndexError t) = t"
| "failure_text (RaisedError e) = (case e of TypeError t \<Rightarrow> t | ValueError t \<Rightarrow> t | KeyError t \<Rightarrow> t | AttributeError t \<Rightarrow> t | OverflowError t \<Rightarrow> t)"

text \<open>The checks that the attempt ran under: those of its revision, or of the contract as it is when the revision is unknown.\<close>

definition typed_checks :: "store \<Rightarrow> string \<Rightarrow> int \<Rightarrow> check_spec list" where
  "typed_checks s contract_id revision = (case (case acceptance_at_revision s contract_id revision of
       Some a \<Rightarrow> Some a | None \<Rightarrow> map_option (\<lambda>v. cd_acceptance (cv_draft v)) (get_contract s contract_id)) of
     None \<Rightarrow> [] | Some a \<Rightarrow> List.map_filter (\<lambda>c. case c of TypedCheck t \<Rightarrow> Some t | LegacyCheck t \<Rightarrow> None) (ac_checks a))"

definition evidence_json :: "(string \<times> string) list list \<Rightarrow> json" where
  "evidence_json evidence = JList (map (\<lambda>item. JObj (map (\<lambda>(k, w). (k, JStr w)) item)) evidence)"

definition deadline_budget :: "contract_view \<Rightarrow> int \<Rightarrow> pyfloat" where
  "deadline_budget v now = float_max (Fin (1/10)) (Fin (of_int (deadline_of (cv_draft v) - now) / of_int SECOND))"

definition mandatory_failed :: "check_spec list \<Rightarrow> (string \<times> string) list list \<Rightarrow> bool" where
  "mandatory_failed checks evidence \<longleftrightarrow> list_ex (\<lambda>(c, item). cs_mandatory c \<and> str_get_or item ''outcome'' [] \<noteq> ''pass'') (zip checks evidence)"

text \<open>The checks are evaluated, the model fills in what they leave open, and a verifier succeeds when no mandatory check is left.\<close>

definition judge_evidence :: "runner_env \<Rightarrow> int \<Rightarrow> string \<Rightarrow> int \<Rightarrow> model_verdict option \<Rightarrow> store \<Rightarrow> dict \<Rightarrow> dict \<times> (string \<times> string) list list" where
  "judge_evidence x now contract_id revision mv s p =
     (let p1 = dict_merge p (attempt_evidence_binding (rx_digest (jg_rpc (re_judge x))) s (Some contract_id) (Some revision));
          checks = typed_checks s contract_id revision in
      case get_contract s contract_id of
        None \<Rightarrow> (p1, [])
      | Some v \<Rightarrow>
          if checks = [] \<or> contract_workspace v = [] then (p1, [])
          else (case smap (evaluate_check (re_checks x) (contract_workspace v) (Some (deadline_budget v now))) checks of
              Inl f \<Rightarrow> (collect_failed (failure_text f) p1, [])
            | Inr results \<Rightarrow>
                (let evidence = map (\<lambda>r. merge_evidence (to_evidence r) mv) results in
                 (put ''state'' (JStr (if mandatory_failed checks evidence then ''failed'' else ''succeeded''))
                    (put ''evidence'' (evidence_json evidence) p1), evidence))))"

definition settle_payload :: "runner_env \<Rightarrow> int \<Rightarrow> string \<Rightarrow> run_info \<Rightarrow> string \<Rightarrow> store \<Rightarrow> dict \<times> (string \<times> string) list list" where
  "settle_payload x now attempt_id info state s =
     (let role = ri_role info;
          base = [(''session_ref'', JStr (ri_session info)), (''state'', JStr state), (''role'', JStr role), (''model'', JStr (ri_model info))] in
      case re_collect x (ri_executor info) attempt_id of
        Inl reason \<Rightarrow> (collect_failed reason base, [])
      | Inr c \<Rightarrow>
          (let (mv, p) = read_verdict x role c (output_payload x c base) in
           if role \<noteq> ''verifier'' then (p, [])
           else judge_evidence x now (ri_contract info) (ri_revision info) mv s
             (if \<not> truthy (dict_get c ''finished_by_event'') \<and> \<not> written_back x (ri_contract info) attempt_id s \<and> mv = None
              then missing_evidence p else p)))"

definition settled_state :: "dict \<Rightarrow> string" where
  "settled_state payload = (case dict_get payload ''state'' of JStr t \<Rightarrow> t | _ \<Rightarrow> [])"

definition finished_row :: "dict \<Rightarrow> int \<Rightarrow> attempt \<Rightarrow> attempt" where
  "finished_row payload now a = a\<lparr>sa_state := settled_state payload, sa_terminal := Some now, sa_updated := now,
     sa_return_code := as_int (dict_get payload ''returncode''),
     sa_error_class := (case dict_get payload ''collect_error'' of JStr t \<Rightarrow> Some t | _ \<Rightarrow> None), sa_payload := payload\<rparr>"

definition settle :: "runner_env \<Rightarrow> int \<Rightarrow> string \<Rightarrow> run_info \<Rightarrow> dict \<Rightarrow> (string \<times> string) list list \<Rightarrow> unit run" where
  "settle x now attempt_id info payload evidence = in_transaction (
     abind (rlog ((attempt_event (ri_contract info) attempt_id
       (if settled_state payload = ''succeeded'' then ATTEMPT_SUCCEEDED else ATTEMPT_FAILED) payload now (ri_role info))\<lparr>ne_revision := Some (ri_revision info)\<rparr>)) (\<lambda>_.
     abind (if ri_role info = ''verifier'' then record_evidence (evidence_rows (ri_contract info) attempt_id (ri_revision info) evidence now)
       else apure ()) (\<lambda>_.
     abind (dwrite (update_attempt attempt_id (finished_row payload now))) (\<lambda>_.
     abind (dwrite (release_if_held now (ri_contract info) attempt_id)) (\<lambda>_.
     rproject x (ri_contract info))))))"

definition finish_attempt :: "runner_env \<Rightarrow> int \<Rightarrow> string \<Rightarrow> run_info \<Rightarrow> string \<Rightarrow> unit run" where
  "finish_attempt x now attempt_id info state =
     abind (aread (\<lambda>r. settle_payload x now attempt_id info state (rt_store r))) (\<lambda>(payload, evidence).
     abind (settle x now attempt_id info payload evidence) (\<lambda>_.
     abind (untrack attempt_id) (\<lambda>_.
     abind count_finished (\<lambda>_.
     if settled_state payload = ''succeeded'' \<and> ri_role info = ''executor''
     then abind (dispatch_verifier x now (ri_contract info) (ri_executor info)) (\<lambda>_. apure ())
     else apure ()))))"

section \<open>Observing the attempts\<close>

definition orphan_timed_out :: "runner_env \<Rightarrow> int \<Rightarrow> string \<Rightarrow> run_info \<Rightarrow> contract_view \<Rightarrow> string \<Rightarrow> unit run" where
  "orphan_timed_out x now attempt_id info v cancel_error =
     abind (dwrite (mark_attempt_orphaned attempt_id now)) (\<lambda>_.
     abind (rlog ((attempt_event (ri_contract info) attempt_id ''attempt/orphaned''
       [(''reason'', JStr (''timeout cancellation failed: '' @ cancel_error)),
        (''timeout_seconds'', JFloat (Fin (of_int (bu_max_attempt_minutes (cd_budget (cv_draft v)) * 60))))] now (ri_role info))
       \<lparr>ne_goal := Some (cv_goal_id v), ne_revision := Some (cv_revision v)\<rparr>)) (\<lambda>_.
     abind (rproject x (ri_contract info)) (\<lambda>_. untrack attempt_id)))"

definition timed_out :: "store \<Rightarrow> string \<Rightarrow> contract_view \<Rightarrow> int \<Rightarrow> bool" where
  "timed_out s attempt_id v now \<longleftrightarrow> (case get_attempt s attempt_id of None \<Rightarrow> False
   | Some a \<Rightarrow> (case sa_started a of None \<Rightarrow> False | Some t \<Rightarrow> bu_max_attempt_minutes (cd_budget (cv_draft v)) * MINUTE \<le> now - t))"

definition renew_running :: "runner_env \<Rightarrow> int \<Rightarrow> string \<Rightarrow> run_info \<Rightarrow> contract_view option \<Rightarrow> int option \<Rightarrow> unit run" where
  "renew_running x now attempt_id info contract generation = (case (coalesce generation (ri_generation info), contract) of
     (Some g, Some v) \<Rightarrow> (\<lambda>r. case renew_lease (grace_lease_call (ri_contract info) attempt_id g now
           (bu_max_attempt_minutes (cd_budget (cv_draft v)) * MINUTE) None) (rt_store r) of
         Inl (LeaseFencedError t) \<Rightarrow> mark_stale x now attempt_id info ''lease fenced during renew'' r
       | Inl e \<Rightarrow> (Inl e, r)
       | Inr (l, s) \<Rightarrow> dwrite (\<lambda>_. s) r)
   | _ \<Rightarrow> apure ())"

text \<open>An error of the operating system leaves the loop; it stands as the error of a value.\<close>

definition observe_attempt :: "runner_env \<Rightarrow> int \<Rightarrow> string \<Rightarrow> run_info \<Rightarrow> contract_view option \<Rightarrow> unit run" where
  "observe_attempt x now attempt_id info contract = (case re_observe x (ri_executor info) attempt_id of
     LostAttempt \<Rightarrow> mark_stale x now attempt_id info ''adapter lost the attempt''
   | SystemFailure t \<Rightarrow> alift (Inl (CallError (ValueError t)))
   | Seen seen \<Rightarrow>
       abind (aread (\<lambda>r. map_option le_generation (get_lease (rt_store r) (ri_contract info) None))) (\<lambda>generation.
       if generation \<noteq> None \<and> generation \<noteq> ri_generation info then mark_stale x now attempt_id info ''lease moved to another generation''
       else
         (let state = py_str (re_repr x) (dict_get seen ''state'') in
          if state = ''running'' then renew_running x now attempt_id info contract generation
          else finish_attempt x now attempt_id info state)))"

definition poll_one :: "runner_env \<Rightarrow> int \<Rightarrow> string \<times> run_info \<Rightarrow> unit run" where
  "poll_one x now = (\<lambda>(attempt_id, info).
     abind (aread (\<lambda>r. (ri_executor info \<in> set (rt_adapters r), get_contract (rt_store r) (ri_contract info)))) (\<lambda>(available, contract).
     if \<not> available then mark_stale x now attempt_id info ''executor no longer available''
     else (case contract of
         None \<Rightarrow> observe_attempt x now attempt_id info None
       | Some v \<Rightarrow>
           abind (aread (\<lambda>r. timed_out (rt_store r) attempt_id v now)) (\<lambda>late.
           if \<not> late then observe_attempt x now attempt_id info (Some v)
           else (case re_cancel x (ri_executor info) attempt_id of
               Some exc \<Rightarrow> orphan_timed_out x now attempt_id info v exc
             | None \<Rightarrow> fail_attempt x now (ri_contract info) attempt_id
                 (''attempt timeout exceeded ('' @ re_general x (of_int (bu_max_attempt_minutes (cd_budget (cv_draft v)))) @ ''m)'')
                 (ri_role info) ''attempt-timeout'')))))"

definition poll_attempts :: "runner_env \<Rightarrow> int \<Rightarrow> unit run" where
  "poll_attempts x now = abind (aread rt_running) (aeach (poll_one x now))"

section \<open>Adoption after a restart\<close>

definition adopt_one :: "runner_env \<Rightarrow> string \<times> attempt \<Rightarrow> bool run" where
  "adopt_one x = (\<lambda>(i, a). let contract_id = text_or (sa_contract a) []; executor_id = text_or (sa_executor a) [] in
     abind (aread (\<lambda>r. (is_tracking i r, get_lease (rt_store r) contract_id None))) (\<lambda>(tracked, l).
     if tracked \<or> sa_state a \<noteq> ''running'' \<or> contract_id = [] \<or> executor_id = [] \<or> \<not> lease_held_by l i then apure False
     else abind (adapter_for x executor_id) (\<lambda>available.
       case (available, re_observe x executor_id i) of
         (True, Seen seen) \<Rightarrow>
           if py_str (re_repr x) (dict_get seen ''state'') \<noteq> ''running'' then apure False
           else abind (track i \<lparr>ri_contract = contract_id, ri_executor = executor_id, ri_model = text_or (sa_model a) ''*'', ri_role = sa_role a,
             ri_revision = sa_revision a, ri_session = text_or (sa_session_locator a) [], ri_generation = map_option le_generation l\<rparr>) (\<lambda>_. apure True)
       | _ \<Rightarrow> apure False)))"

primrec adopt_each :: "runner_env \<Rightarrow> (string \<times> attempt) list \<Rightarrow> int run" where
  "adopt_each x [] = apure 0"
| "adopt_each x (a # as) = abind (adopt_one x a) (\<lambda>b. abind (adopt_each x as) (\<lambda>n. apure (if b then n + 1 else n)))"

definition adopt_reconciled_attempts :: "runner_env \<Rightarrow> int run" where
  "adopt_reconciled_attempts x = abind (aread (\<lambda>r. list_reconcilable_attempts (rt_store r))) (adopt_each x)"

end
