(* ===== verification/Running.thy ===== *)
theory Running
  imports Runner Ticking
begin

text \<open>
  What the runner guarantees: an attempt that is no longer observed has given its lease back or is orphaned; a start that fails leaves the
  directives to the next one; a verifier is another executor under a lease of its own; and a verifier succeeds only on evidence.
\<close>

section \<open>Steps of the runner\<close>

definition put_store :: "store \<Rightarrow> runtime \<Rightarrow> runtime" where
  "put_store s r = r\<lparr>rt_desk := (rt_desk r)\<lparr>dk_world := (dk_world (rt_desk r))\<lparr>wo_store := s\<rparr>\<rparr>\<rparr>"

lemma put_store_simps [simp]:
  "rt_store (put_store s r) = s" "dk_side (rt_desk (put_store s r)) = dk_side (rt_desk r)" "rt_running (put_store s r) = rt_running r"
  "rt_registry (put_store s r) = rt_registry r" "rt_adapters (put_store s r) = rt_adapters r" "put_store s (put_store t r) = put_store s r"
  by (simp_all add: put_store_def)

lemma rlog_eq: "rlog n r = (Inr (), put_store (snd (log_event n (rt_store r))) r)"
  by (simp add: rlog_def on_desk_def dlog_eq put_store_def)

lemma dwrite_eq: "dwrite f r = (Inr (), put_store (f (rt_store r)) r)"
  by (simp add: dwrite_def on_desk_def on_world_def awrite_def put_store_def)

lemma rproject_frame:
  assumes "rproject x c r = (v, r')"
  shows "rt_store r' = rt_store r" and "rt_running r' = rt_running r" and "dk_side (rt_desk r') = dk_side (rt_desk r)"
    and "rt_adapters r' = rt_adapters r" and "rt_registry r' = rt_registry r"
  using assms project_store [of "re_judge x" c "dk_world (rt_desk r)"]
  by (auto simp: rproject_def on_desk_def on_world_def split: prod.splits)

lemmas run_eqs = rlog_eq dwrite_eq untrack_def track_def count_finished_def count_spawned_def

section \<open>Attempts that are no longer observed\<close>

text \<open>
  The attempt has a row, and it is still observed, or does not hold the lease of its contract, or is orphaned, so that the reconciliation
  takes it over.
\<close>

definition accounted :: "string \<Rightarrow> run_info \<Rightarrow> runtime \<Rightarrow> bool" where
  "accounted a info r \<longleftrightarrow> (case get_attempt (rt_store r) a of None \<Rightarrow> False | Some row \<Rightarrow>
     map_of (rt_running r) a = Some info \<or> \<not> lease_held_by (get_lease (rt_store r) (ri_contract info) None) a \<or> sa_state row = ''orphaned'')"

definition keeps_accounts :: "string \<Rightarrow> run_info \<Rightarrow> runtime \<Rightarrow> runtime \<Rightarrow> bool" where
  "keeps_accounts a info r r' \<longleftrightarrow> (accounted a info r \<longrightarrow> accounted a info r')"

interpretation accounts: step_frame "keeps_accounts a info" for a info
  by unfold_locales (auto simp: keeps_accounts_def)

lemma accounts_store:
  assumes "get_attempt (rt_store r') a = get_attempt (rt_store r) a" and "map_of (rt_running r') a = map_of (rt_running r) a"
    and "lease_held_by (get_lease (rt_store r') (ri_contract info) None) a \<Longrightarrow> lease_held_by (get_lease (rt_store r) (ri_contract info) None) a"
  shows "keeps_accounts a info r r'"
  using assms by (auto simp: keeps_accounts_def accounted_def split: option.splits)

text \<open>A release takes no lease, and ends the one that is held.\<close>

lemma release_keeps:
  shows "get_attempt (release_if_held now c i s) a = get_attempt s a"
    and "lease_held_by (get_lease (release_if_held now c i s) d None) a \<Longrightarrow> lease_held_by (get_lease s d None) a"
    and "\<not> lease_held_by (get_lease (release_if_held now c i s) c None) i"
proof -
  consider (away) "release_if_held now c i s = s" "\<not> lease_held_by (get_lease s c None) i"
    | (held) l n where "get_lease s c None = Some l" "le_holder l = i"
        "release_if_held now c i s = s\<lparr>st_leases := del (c, []) (st_leases s), st_log := snd (append_event n (st_log s))\<rparr>"
  proof (cases "get_lease s c None")
    case (Some l)
    show thesis
    proof (cases "le_holder l = i")
      case True
      with Some obtain n where "recon_release c i (le_generation l) now s =
          s\<lparr>st_leases := del (c, []) (st_leases s), st_log := snd (append_event n (st_log s))\<rparr>"
        using recon_release_held by metis
      with Some True show thesis by (intro held [OF Some True]) (simp add: release_if_held_def)
    qed (use Some away in \<open>simp add: release_if_held_def lease_held_by_def\<close>)
  qed (use away in \<open>simp add: release_if_held_def lease_held_by_def\<close>)
  note cases = this
  show "get_attempt (release_if_held now c i s) a = get_attempt s a"
    by (cases rule: cases) (simp_all add: get_attempt_def)
  show "lease_held_by (get_lease s d None) a" if "lease_held_by (get_lease (release_if_held now c i s) d None) a"
    using that by (cases rule: cases) (auto simp: get_lease_plain lease_held_by_def split: if_splits option.splits)
  show "\<not> lease_held_by (get_lease (release_if_held now c i s) c None) i"
    by (cases rule: cases) (simp_all add: get_lease_plain lease_held_by_def)
qed


text \<open>Steps that are about another attempt, and steps on the store without its attempts and leases.\<close>

definition desk_books :: "desk \<Rightarrow> desk \<Rightarrow> bool" where
  "desk_books d d' \<longleftrightarrow> bookkept (dk_store d) (dk_store d') \<and> dk_side d' = dk_side d"

interpretation desk_books: step_frame desk_books
  by unfold_locales (auto simp: desk_books_def bookkept_def)

lemma desk_books_steps:
  "akeeps desk_books (dlog n)" "akeeps desk_books (on_world (asave f))" "akeeps desk_books (\<lambda>d. (g d, d))"
  by (simp_all add: akeeps_def dlog_eq on_world_save desk_books_def bookkept_def)

lemma desk_books_sum:
  "(\<And>e. akeeps desk_books (f e)) \<Longrightarrow> (\<And>v. akeeps desk_books (g v)) \<Longrightarrow> akeeps desk_books (case m of Inl e \<Rightarrow> f e | Inr v \<Rightarrow> g v)"
  by (cases m) simp_all

lemma desk_books_compiled:
  "(\<And>n m. akeeps desk_books (f n m)) \<Longrightarrow> (\<And>p c i. akeeps desk_books (g p c i)) \<Longrightarrow>
    akeeps desk_books (case c of Refused n m \<Rightarrow> f n m | Compiled p c i \<Rightarrow> g p c i)"
  by (cases c) simp_all

lemma desk_books_built:
  "(\<And>n m. akeeps desk_books (f n m)) \<Longrightarrow> (\<And>p c i. akeeps desk_books (g p c i)) \<Longrightarrow>
    akeeps desk_books (case b of RefusedInput n m \<Rightarrow> f n m | Built p c i \<Rightarrow> g p c i)"
  by (cases b) simp_all

lemma desk_books_snapshot: "akeeps desk_books (compile_context_snapshot x v a now agent age)"
  unfolding compile_context_snapshot_def expire_old_snapshots_def expire_snapshot_def handover_data_def write_snapshot_def Let_def
  by (intro desk_books.intros desk_books.keeps_each desk_books_steps desk_books_sum akeeps_option akeeps_if akeeps_prod)

lemma desk_books_input: "akeeps desk_books (build_attempt_input x v a now b agent)" "akeeps desk_books (build_verifier_input x v a now)"
proof -
  show input: "akeeps desk_books (build_attempt_input x v a now b agent)" for b agent
    unfolding build_attempt_input_def
    by (intro desk_books.intros akeeps_if desk_books_steps desk_books_snapshot desk_books_compiled)
  show "akeeps desk_books (build_verifier_input x v a now)"
    unfolding build_verifier_input_def by (intro desk_books.intros input desk_books_steps desk_books_built)
qed

lemma on_desk_books:
  assumes "akeeps desk_books m" and "on_desk m r = (res, r')"
  shows "bookkept (rt_store r) (rt_store r')" and "dk_side (rt_desk r') = dk_side (rt_desk r)" and "rt_running r' = rt_running r"
    and "rt_adapters r' = rt_adapters r" and "rt_registry r' = rt_registry r"
  using assms by (auto simp: on_desk_def akeeps_def desk_books_def split: prod.splits) (metis snd_conv)+

lemma log_rows [simp]: "get_attempt (s\<lparr>st_log := l\<rparr>) a = get_attempt s a"
  by (simp add: get_attempt_def)

lemma update_lease [simp]: "get_lease (update_attempt i f s) c p = get_lease s c p"
  by (simp add: get_lease_def)

lemma accounts_books:
  assumes "akeeps desk_books m"
  shows "akeeps (keeps_accounts a info) (on_desk m)"
proof -
  have "keeps_accounts a info r (snd (on_desk m r))" for r
    using on_desk_books [OF assms surjective_pairing, of r]
    by (intro accounts_store) (simp_all add: get_attempt_def get_lease_def bookkept_def)
  then show ?thesis by (simp add: akeeps_def)
qed

lemma accounts_steps:
  "akeeps (keeps_accounts a info) (rlog n)" "akeeps (keeps_accounts a info) (dwrite (release_if_held now c i))"
  "akeeps (keeps_accounts a info) (rproject x c)" "akeeps (keeps_accounts a info) count_finished" "akeeps (keeps_accounts a info) count_spawned"
  "akeeps (keeps_accounts a info) (adapter_for x e)" "akeeps (keeps_accounts a info) (issue_session_token x i now)"
  "akeeps (keeps_accounts a info) (record_evidence rows)"
  "i \<noteq> a \<Longrightarrow> akeeps (keeps_accounts a info) (dwrite (update_attempt i f))"
  "i \<noteq> a \<Longrightarrow> akeeps (keeps_accounts a info) (track i info')" "i \<noteq> a \<Longrightarrow> akeeps (keeps_accounts a info) (untrack i)"
proof -
  have project: "keeps_accounts a info r (snd (rproject x c r))" for r
    by (rule accounts_store) (simp_all add: rproject_frame [OF surjective_pairing])
  show "akeeps (keeps_accounts a info) (rproject x c)" by (simp add: akeeps_def project)
  show "akeeps (keeps_accounts a info) (dwrite (release_if_held now c i))"
    by (simp add: akeeps_def dwrite_eq) (intro allI accounts_store, simp_all add: release_keeps(1) release_keeps(2))
qed (auto simp: akeeps_def run_eqs adapter_for_def issue_session_token_def record_evidence_def Let_def
    intro!: accounts_store split: option.split)

lemma accounts_update:
  "i \<noteq> a \<Longrightarrow> akeeps (keeps_accounts a info) (dwrite (set_attempt_state i st now ec rc cl))"
  "i \<noteq> a \<Longrightarrow> akeeps (keeps_accounts a info) (dwrite (register_attempt_handle i p q s t u now))"
  "i \<noteq> a \<Longrightarrow> akeeps (keeps_accounts a info) (dwrite (mark_attempt_orphaned i now))"
  by (simp_all add: set_attempt_state_def register_attempt_handle_def mark_attempt_orphaned_def accounts_steps)

lemma accounts_fail: "i \<noteq> a \<Longrightarrow> akeeps (keeps_accounts a info) (fail_attempt x now c i reason role ec)"
  and accounts_stale: "i \<noteq> a \<Longrightarrow> akeeps (keeps_accounts a info) (mark_stale x now i other reason)"
  unfolding fail_attempt_def mark_stale_def by (intro accounts.intros accounts_steps; assumption)+

text \<open>The attempt itself.\<close>

lemma accounted_free: "get_attempt (rt_store r) a = Some row \<Longrightarrow> \<not> lease_held_by (get_lease (rt_store r) (ri_contract info) None) a \<Longrightarrow> accounted a info r"
  and accounted_tracked: "get_attempt (rt_store r) a = Some row \<Longrightarrow> map_of (rt_running r) a = Some info \<Longrightarrow> accounted a info r"
  and accounted_orphaned: "get_attempt (rt_store r) a = Some row \<Longrightarrow> sa_state row = ''orphaned'' \<Longrightarrow> accounted a info r"
  by (simp_all add: accounted_def)

lemma own_fail:
  assumes "get_attempt (rt_store r) a = Some row"
  shows "accounted a info (snd (fail_attempt x now (ri_contract info) a reason role ec r))"
proof -
  let ?s = "release_if_held now (ri_contract info) a (update_attempt a (settle_row ''failed'' now (Some ec))
    (snd (log_event (attempt_event (ri_contract info) a ATTEMPT_FAILED [(''reason'', JStr reason)] now role) (rt_store r))))"
  obtain v r1 where p: "rproject x (ri_contract info) (put_store ?s r) = (v, r1)" by (cases "rproject x (ri_contract info) (put_store ?s r)")
  have "get_attempt ?s a \<noteq> None" "\<not> lease_held_by (get_lease ?s (ri_contract info) None) a"
    using assms by (simp_all add: release_keeps)
  then have "accounted a info (snd (v, r1\<lparr>rt_running := f (rt_running r1), rt_finished := n\<rparr>))" "accounted a info r1" for f n
    using rproject_frame [OF p] by (auto simp: accounted_def split: option.split)
  then show ?thesis
    using p by (cases v) (simp_all add: fail_attempt_def abind_eq run_eqs del: log_event_simps)
qed

lemma own_stale:
  assumes "get_attempt (rt_store r) a = Some row"
  shows "accounted a info (snd (mark_stale x now a info reason r))"
proof -
  let ?s = "update_attempt a (settle_row ''stale'' now None) (release_if_held now (ri_contract info) a
    (snd (log_event (attempt_event (ri_contract info) a ATTEMPT_STALE
       [(''reason'', JStr reason), (''session_ref'', JStr (ri_session info))] now (ri_role info)) (rt_store r))))"
  obtain v r1 where p: "rproject x (ri_contract info) (put_store ?s r) = (v, r1)" by (cases "rproject x (ri_contract info) (put_store ?s r)")
  have "get_attempt ?s a \<noteq> None" "\<not> lease_held_by (get_lease ?s (ri_contract info) None) a"
    using assms by (simp_all add: release_keeps)
  then have "accounted a info (snd (v, r1\<lparr>rt_running := f (rt_running r1)\<rparr>))" "accounted a info r1" for f
    using rproject_frame [OF p] by (auto simp: accounted_def split: option.split)
  then show ?thesis
    using p by (cases v) (simp_all add: mark_stale_def abind_eq run_eqs del: log_event_simps)
qed

lemma own_orphan:
  assumes "get_attempt (rt_store r) a = Some row"
  shows "accounted a info (snd (orphan_timed_out x now a info v e r))"
proof -
  obtain n s where s: "s = snd (log_event n (mark_attempt_orphaned a now (rt_store r)))"
    and eq: "orphan_timed_out x now a info v e r = abind (rproject x (ri_contract info)) (\<lambda>_. untrack a) (put_store s r)"
    by (simp add: orphan_timed_out_def abind_eq run_eqs del: log_event_simps)
  obtain u r1 where p: "rproject x (ri_contract info) (put_store s r) = (u, r1)" by (cases "rproject x (ri_contract info) (put_store s r)")
  have "\<exists>row. get_attempt s a = Some row \<and> sa_state row = ''orphaned''"
    using assms s by (auto simp: mark_attempt_orphaned_def)
  then have "accounted a info (snd (u, r1\<lparr>rt_running := f (rt_running r1)\<rparr>))" "accounted a info r1" for f
    using rproject_frame [OF p] by (auto simp: accounted_def)
  then show ?thesis using p eq by (cases u) (simp_all add: abind_eq untrack_def)
qed

lemma settle_frame:
  assumes "settle x now i info p ev r = (v, r')"
  shows "rt_running r' = rt_running r" and "(\<exists>e. v = Inl e) \<and> rt_store r' = rt_store r \<or>
    v = Inr () \<and> (\<exists>n. rt_store r' = release_if_held now (ri_contract info) i (update_attempt i (finished_row p now) (snd (log_event n (rt_store r)))))"
proof -
  obtain n where n: "n = (attempt_event (ri_contract info) i (if settled_state p = ''succeeded'' then ATTEMPT_SUCCEEDED else ATTEMPT_FAILED) p now (ri_role info))
      \<lparr>ne_revision := Some (ri_revision info)\<rparr>" by simp
  define s where "s = release_if_held now (ri_contract info) i (update_attempt i (finished_row p now) (snd (log_event n (rt_store r))))"
  define r2 where "r2 = (if ri_role info = ''verifier''
    then r\<lparr>rt_evidence := rt_evidence r @ evidence_rows (ri_contract info) i (ri_revision info) ev now\<rparr> else r)"
  obtain u r1 where q: "rproject x (ri_contract info) (put_store s r2) = (u, r1)" by (cases "rproject x (ri_contract info) (put_store s r2)")
  have eq: "settle x now i info p ev = in_transaction (abind (rlog n) (\<lambda>_. abind (if ri_role info = ''verifier''
      then record_evidence (evidence_rows (ri_contract info) i (ri_revision info) ev now) else apure ()) (\<lambda>_.
      abind (dwrite (update_attempt i (finished_row p now))) (\<lambda>_. abind (dwrite (release_if_held now (ri_contract info) i)) (\<lambda>_. rproject x (ri_contract info))))))"
    by (simp add: settle_def n)
  have inner: "abind (rlog n) (\<lambda>_. abind (if ri_role info = ''verifier''
      then record_evidence (evidence_rows (ri_contract info) i (ri_revision info) ev now) else apure ()) (\<lambda>_.
      abind (dwrite (update_attempt i (finished_row p now))) (\<lambda>_. abind (dwrite (release_if_held now (ri_contract info) i)) (\<lambda>_. rproject x (ri_contract info))))) r
      = (u, r1)"
    using q by (cases "ri_role info = ''verifier''") (simp_all add: abind_eq run_eqs record_evidence_def s_def r2_def put_store_def del: log_event_simps)
  have r2: "rt_running r2 = rt_running r" by (simp add: r2_def)
  show "rt_running r' = rt_running r"
    using assms rproject_frame [OF q] r2 by (auto simp: eq in_transaction_def inner split: sum.splits)
  show "(\<exists>e. v = Inl e) \<and> rt_store r' = rt_store r \<or>
    v = Inr () \<and> (\<exists>n. rt_store r' = release_if_held now (ri_contract info) i (update_attempt i (finished_row p now) (snd (log_event n (rt_store r)))))"
    using assms rproject_frame(1) [OF q] s_def by (auto simp: eq in_transaction_def inner simp del: log_event_simps split: sum.splits)
qed

text \<open>The verifier of a contract gets an id that no attempt has.\<close>

lemma claim_cases:
  assumes "claim_for_verifier v i e now r = (res, r')"
  obtains (claimed) s l where "res = Inr True" and "r' = put_store s r" and "st_attempts s = st_attempts (rt_store r)"
      and "st_contracts s = st_contracts (rt_store r)" and "get_lease s (cv_contract_id v) None = Some l" and "le_holder l = i"
      and "le_generation l = (case get_lease (rt_store r) (cv_contract_id v) None of None \<Rightarrow> 0 | Some l0 \<Rightarrow> le_generation l0) + 1"
      and "\<And>d. d \<noteq> cv_contract_id v \<Longrightarrow> get_lease s d None = get_lease (rt_store r) d None"
  | (failed) "r' = r" and "res \<noteq> Inr True"
proof -
  define expected where "expected = (case get_lease (rt_store r) (cv_contract_id v) None of None \<Rightarrow> 0 | Some l0 \<Rightarrow> le_generation l0)"
  define call where "call = verifier_lease v i e expected now"
  have call: "lc_request call = None" "lc_holder call = Some i" "lc_generation call = expected" "lease_key call = (cv_contract_id v, [])"
    by (simp_all add: call_def verifier_lease_def lease_key_def partition_key_def)
  show thesis
  proof (cases "acquire_lease call (rt_store r)")
    case (Inl err)
    then show thesis
      using assms failed by (auto simp: claim_for_verifier_def expected_def call_def Let_def split: store_error.splits)
  next
    case (Inr p)
    obtain l s where p: "p = (l, s)" by (cases p)
    have res: "res = Inr True" "r' = put_store s r"
      using assms Inr p by (simp_all add: claim_for_verifier_def expected_def call_def Let_def dwrite_eq)
    have acquired: "acquire_lease call (rt_store r) = Inr (l, s)" using Inr p by simp
    have fresh: "replayed_lease call (rt_store r) = None" by (simp add: replayed_lease_def request_events_def call)
    show thesis
    proof (rule acquire_lease_cases [OF acquired])
      fix h
      assume "lc_holder call = Some h" and l: "l = lease_row call h (lc_generation call + 1)"
        and w: "lease_write call (Some l) LEASE_ACQUIRED (rt_store r) s"
      then have h: "h = i" using call by simp
      from w obtain n where s: "s = (rt_store r)\<lparr>st_leases := put (cv_contract_id v, []) l (st_leases (rt_store r)),
          st_log := snd (append_event n (st_log (rt_store r)))\<rparr>"
        by (auto simp: lease_write_def call)
      show thesis
      proof (rule claimed [OF res])
        show "get_lease s (cv_contract_id v) None = Some l" by (simp add: s get_lease_plain)
        show "le_holder l = i" "le_generation l = (case get_lease (rt_store r) (cv_contract_id v) None of None \<Rightarrow> 0 | Some l0 \<Rightarrow> le_generation l0) + 1"
          by (simp_all add: l h lease_row_def call expected_def)
      qed (simp_all add: s get_lease_plain)
    qed (use fresh in simp)
  qed
qed

lemma accounts_claim: "i \<noteq> a \<Longrightarrow> akeeps (keeps_accounts a info) (claim_for_verifier v i e now)"
  unfolding akeeps_def
proof
  fix r
  assume "i \<noteq> a"
  obtain res r' where c: "claim_for_verifier v i e now r = (res, r')" by (cases "claim_for_verifier v i e now r")
  then show "keeps_accounts a info r (snd (claim_for_verifier v i e now r))"
  proof (cases rule: claim_cases)
    case (claimed s l)
    with c show ?thesis using \<open>i \<noteq> a\<close>
      by (cases "ri_contract info = cv_contract_id v") (auto intro!: accounts_store simp: get_attempt_def lease_held_by_def)
  qed (simp add: c accounts.refl)
qed

lemma accounts_launch:
  assumes "i \<noteq> a"
  shows "akeeps (keeps_accounts a info) (launch_verifier x now v i e ex)"
proof -
  have row: "akeeps (keeps_accounts a info) (dwrite (insert_verifier_row (verifier_record v i e ex now)))"
    using assms by (auto simp: akeeps_def dwrite_eq insert_verifier_row_def verifier_record_def get_attempt_def get_lease_def intro!: accounts_store)
  have handle: "akeeps (keeps_accounts a info) (persist_handle x ex v i now)" for ex
    unfolding persist_handle_def using assms by (intro accounts.intros akeeps_option accounts_steps accounts_update)
  have started: "akeeps (keeps_accounts a info) (verifier_started x v i e ex session now)" for session
    unfolding verifier_started_def track_started_def using assms by (intro accounts.intros accounts_steps row handle)
  have refuse: "akeeps (keeps_accounts a info) (abind (fail_attempt x now (cv_contract_id v) i reason ''verifier'' ''attempt-failed'') (\<lambda>_. apure False))"
    for reason using assms by (intro accounts.intros accounts_fail)
  have result: "akeeps (keeps_accounts a info) (case l of PrepareRefused t \<Rightarrow> m1 t | SpawnFailed t \<Rightarrow> m2 t | LaunchRaised err \<Rightarrow> m3 err | Launched session \<Rightarrow> m4 session)"
    if "\<And>t. akeeps (keeps_accounts a info) (m1 t)" "\<And>t. akeeps (keeps_accounts a info) (m2 t)" "\<And>t. akeeps (keeps_accounts a info) (m3 t)"
      "\<And>t. akeeps (keeps_accounts a info) (m4 t)" for l and m1 m2 m4 :: "string \<Rightarrow> bool run" and m3
    using that by (cases l) simp_all
  have built: "akeeps (keeps_accounts a info) (case b of RefusedInput n m \<Rightarrow> f n m | Built p c is \<Rightarrow> g p c is)"
    if "\<And>n m. akeeps (keeps_accounts a info) (f n m)" "\<And>p c is. akeeps (keeps_accounts a info) (g p c is)" for b and f :: "int \<Rightarrow> int \<Rightarrow> bool run" and g
    using that by (cases b) simp_all
  show ?thesis
    unfolding launch_verifier_def Let_def
    by (intro accounts.intros accounts_books desk_books_input built refuse accounts_steps result started)
qed

lemma accounts_send: "akeeps (keeps_accounts a info) (send_verifier x now v e ex)"
  unfolding akeeps_def
proof
  fix r
  obtain i where i: "new_attempt_id (rt_store r) (''ver-'' @ re_stamp x now @ ''-'' @ last_items 4 (cv_contract_id v)) = Some i"
      "get_attempt (rt_store r) i = None"
    using new_attempt_id_exists by blast
  show "keeps_accounts a info r (snd (send_verifier x now v e ex r))"
  proof (cases "i = a")
    case True
    then show ?thesis using i by (simp add: keeps_accounts_def accounted_def)
  next
    case False
    have "akeeps (keeps_accounts a info) (abind (adapter_for x (rg_id e)) (\<lambda>available.
        if \<not> available then abind (fail_attempt x now (cv_contract_id v) i (''verifier adapter unavailable: '' @ rg_id e) ''verifier'' ''attempt-failed'') (\<lambda>_. apure False)
        else abind (claim_for_verifier v i (rg_id e) now) (\<lambda>claimed.
          if \<not> claimed then abind (fail_attempt x now (cv_contract_id v) i ''verifier lease CAS failed before spawn'' ''verifier'' ''attempt-failed'') (\<lambda>_. apure False)
          else launch_verifier x now v i e ex)))"
      using False by (intro accounts.intros akeeps_if accounts_steps accounts_claim accounts_launch accounts_fail)
    then show ?thesis using i(1) by (simp add: send_verifier_def akeeps_def Let_def)
  qed
qed

lemma accounts_dispatch: "akeeps (keeps_accounts a info) (dispatch_verifier x now c ex)"
proof -
  have update: "akeeps (keeps_accounts a info) (dcommit (update_contract_state tz call))" for tz call
    unfolding akeeps_def
  proof
    fix r
    have "bookkept (rt_store r) (rt_store (snd (dcommit (update_contract_state tz call) r)))"
      by (auto simp: dcommit_def on_desk_def on_world_def acommit_def bookkept_def [of s s for s] split: sum.split prod.split dest: bookkept_update)
    moreover have "rt_running (snd (dcommit (update_contract_state tz call) r)) = rt_running r"
      by (simp add: dcommit_def on_desk_def split: prod.split)
    ultimately show "keeps_accounts a info r (snd (dcommit (update_contract_state tz call) r))"
      by (intro accounts_store) (simp_all add: bookkept_def get_attempt_def get_lease_def)
  qed
  have block: "akeeps (keeps_accounts a info) (block_for_user x v now)" for v
    unfolding block_for_user_def by (intro accounts.intros update accounts_steps)
  have hand: "akeeps (keeps_accounts a info) (hand_verification_to_user c reason now)" for c reason
    unfolding hand_verification_to_user_def by (rule accounts_steps)
  have choose: "akeeps (keeps_accounts a info) (choose_verifier x now v ex)" for v
    unfolding choose_verifier_def by (intro accounts.intros akeeps_option hand accounts_send)
  show ?thesis
    unfolding dispatch_verifier_def Let_def
    by (intro accounts.intros akeeps_if akeeps_prod akeeps_option accounts_steps hand block choose)
qed

text \<open>A visit, of the attempt or of another one.\<close>

lemma accounted_row: "accounted a info r \<Longrightarrow> \<exists>row. get_attempt (rt_store r) a = Some row"
  by (auto simp: accounted_def split: option.splits)

lemma visit_fail: "akeeps (keeps_accounts a info) (fail_attempt x now (ri_contract info') i reason role ec)"
  and visit_stale: "akeeps (keeps_accounts a info) (mark_stale x now i info' reason)"
  and visit_orphan: "akeeps (keeps_accounts a info) (orphan_timed_out x now i info' v e)"
  if "i = a \<longrightarrow> info' = info"
proof -
  show "akeeps (keeps_accounts a info) (fail_attempt x now (ri_contract info') i reason role ec)"
    using that accounts_fail [of i a] own_fail accounted_row by (cases "i = a") (fastforce simp: akeeps_def keeps_accounts_def)+
  show "akeeps (keeps_accounts a info) (mark_stale x now i info' reason)"
    using that accounts_stale [of i a] own_stale accounted_row by (cases "i = a") (fastforce simp: akeeps_def keeps_accounts_def)+
  show "akeeps (keeps_accounts a info) (orphan_timed_out x now i info' v e)"
  proof (cases "i = a")
    case True
    then show ?thesis using that own_orphan accounted_row by (fastforce simp: akeeps_def keeps_accounts_def)
  next
    case False
    then show ?thesis unfolding orphan_timed_out_def by (intro accounts.intros accounts_steps accounts_update)
  qed
qed

lemma visit_renew:
  assumes "i = a \<longrightarrow> info' = info"
  shows "akeeps (keeps_accounts a info) (renew_running x now i info' contract g)"
proof -
  have "keeps_accounts a info r (snd (case renew_lease (grace_lease_call (ri_contract info') i n now m None) (rt_store r) of
      Inl (LeaseFencedError t) \<Rightarrow> mark_stale x now i info' ''lease fenced during renew'' r
    | Inl e \<Rightarrow> (Inl e, r) | Inr (l, s) \<Rightarrow> dwrite (\<lambda>_. s) r))" for n m r
  proof (cases "renew_lease (grace_lease_call (ri_contract info') i n now m None) (rt_store r)")
    case (Inl e)
    have "keeps_accounts a info r (snd (mark_stale x now i info' reason r))" for reason
      using visit_stale [OF assms] by (simp add: akeeps_def)
    with Inl show ?thesis by (cases e) (simp_all add: accounts.refl)
  next
    case (Inr p)
    obtain l s where p: "p = (l, s)" by (cases p)
    have "keeps_accounts a info r (put_store s r)"
    proof (rule renew_lease_cases [OF Inr [unfolded p]])
      fix l0
      assume l0: "map_of (st_leases (rt_store r)) (lease_key (grace_lease_call (ri_contract info') i n now m None)) = Some l0"
        and l: "le_holder l = le_holder l0"
        and w: "lease_write (grace_lease_call (ri_contract info') i n now m None) (Some l) LEASE_RENEWED (rt_store r) s"
      from w obtain ev where s: "s = (rt_store r)\<lparr>st_leases := put (ri_contract info', []) l (st_leases (rt_store r)),
          st_log := snd (append_event ev (st_log (rt_store r)))\<rparr>"
        by (auto simp: lease_write_def)
      show "keeps_accounts a info r (put_store s r)"
        using l0 l by (intro accounts_store) (auto simp: s get_attempt_def get_lease_plain lease_held_by_def split: if_splits)
    qed (auto intro!: accounts_store)
    then show ?thesis by (simp add: Inr p dwrite_eq)
  qed
  then show ?thesis by (auto simp: renew_running_def akeeps_def accounts.refl split: option.split)
qed

lemma visit_finish:
  assumes "i = a \<longrightarrow> info' = info"
  shows "akeeps (keeps_accounts a info) (finish_attempt x now i info' state)"
  unfolding akeeps_def
proof
  fix r
  obtain p ev where p: "settle_payload x now i info' state (rt_store r) = (p, ev)" by (cases "settle_payload x now i info' state (rt_store r)")
  obtain v r1 where s: "settle x now i info' p ev r = (v, r1)" by (cases "settle x now i info' p ev r")
  note frame = settle_frame [OF s]
  let ?r2 = "r1\<lparr>rt_running := del i (rt_running r1), rt_finished := rt_finished r1 + 1\<rparr>"
  have settled: "keeps_accounts a info r ?r2" if "v = Inr ()"
  proof -
    obtain n where n: "rt_store r1 = release_if_held now (ri_contract info') i (update_attempt i (finished_row p now) (snd (log_event n (rt_store r))))"
      using frame(2) \<open>v = Inr ()\<close> by blast
    show ?thesis
    proof (cases "i = a")
      case True
      then have "\<not> lease_held_by (get_lease (rt_store r1) (ri_contract info) None) a" using n assms release_keeps(3) by simp
      then show ?thesis
        using n True by (auto simp: keeps_accounts_def accounted_def release_keeps split: option.splits)
    next
      case False
      then show ?thesis
        by (intro accounts_store) (simp_all add: n frame(1) release_keeps(1), drule release_keeps(2), simp)
    qed
  qed
  have failed: "keeps_accounts a info r r1" if "v = Inl e" for e
    using frame that by (intro accounts_store) simp_all
  let ?tail = "if settled_state p = ''succeeded'' \<and> ri_role info' = ''executor''
    then abind (dispatch_verifier x now (ri_contract info') (ri_executor info')) (\<lambda>_. apure ()) else apure ()"
  have "akeeps (keeps_accounts a info) ?tail" by (intro akeeps_if accounts.intros accounts_dispatch)
  then have later: "keeps_accounts a info ?r2 (snd (?tail ?r2))" by (simp only: akeeps_def)
  show "keeps_accounts a info r (snd (finish_attempt x now i info' state r))"
  proof (cases v)
    case (Inl e)
    then show ?thesis using failed by (simp add: finish_attempt_def p s abind_eq)
  next
    case (Inr u)
    then have ok: "v = Inr ()" by simp
    have "finish_attempt x now i info' state r = ?tail ?r2"
      by (simp add: finish_attempt_def p s ok abind_eq untrack_def count_finished_def)
    then show ?thesis using accounts.trans [OF settled [OF ok] later] by simp
  qed
qed

lemma visit_any:
  assumes "i = a \<longrightarrow> info' = info"
  shows "akeeps (keeps_accounts a info) (poll_one x now (i, info'))"
proof -
  have seen: "akeeps (keeps_accounts a info) (case seen of Seen d \<Rightarrow> f d | LostAttempt \<Rightarrow> g | SystemFailure t \<Rightarrow> h t)"
    if "\<And>d. akeeps (keeps_accounts a info) (f d)" "akeeps (keeps_accounts a info) g" "\<And>t. akeeps (keeps_accounts a info) (h t)"
    for seen and f :: "dict \<Rightarrow> unit run" and g h
    using that by (cases seen) simp_all
  have observe: "akeeps (keeps_accounts a info) (observe_attempt x now i info' contract)" for contract
    unfolding observe_attempt_def Let_def
    by (intro seen accounts.intros akeeps_if visit_stale visit_renew visit_finish assms)
  show ?thesis
    unfolding poll_one_def prod.case
    by (intro accounts.intros akeeps_prod akeeps_if akeeps_option visit_stale visit_fail visit_orphan observe assms)
qed


definition sample_context_env :: context_env where
  "sample_context_env = \<lparr>cx_judge = sample_judge_env, cx_sql = flat_sql, cx_boundary = sample_boundary, cx_word = (\<lambda>w. [35]),
     cx_encode = map char_of, cx_decode = (\<lambda>t. Some (codes t)), cx_glob = id, cx_path = (\<lambda>c n. c @ ''/'' @ n), cx_iso = (\<lambda>t. None),
     cx_checks = (\<lambda>cs. ''[]''), cx_dumps = (\<lambda>d. ''{}''), cx_memory = (\<lambda>d n. [])\<rparr>"

text \<open>Executors that start what they are given, run it for ever, and take a cancellation.\<close>

definition sample_runner_env :: runner_env where
  "sample_runner_env = \<lparr>re_context = sample_context_env, re_checks = sample_check_env, re_word = (\<lambda>w. [35]), re_check_repr = (\<lambda>c. ''check''),
     re_general = (\<lambda>q. ''30''), re_stamp = (\<lambda>t. ''T''), re_secret = (\<lambda>i t. ''secret''), re_max_age = 3600, re_kill_switch = False,
     re_build = (\<lambda>e. True), re_launch = (\<lambda>e i. Launched ''session''), re_handle = (\<lambda>e i. None), re_observe = (\<lambda>e i. Seen [(''state'', JStr ''running'')]),
     re_collect = (\<lambda>e i. Inr []), re_cancel = (\<lambda>e i. None)\<rparr>"

definition sample_lease :: "string \<Rightarrow> int \<Rightarrow> lease" where
  "sample_lease holder g = \<lparr>le_contract = ''c1'', le_partition = None, le_holder = holder, le_generation = g, le_heartbeat = 1, le_timeout = 10, le_updated = 1\<rparr>"

definition leased_store :: store where
  "leased_store = sample_store\<lparr>st_attempts := [(''a1'', sample_attempt ''running'' None)], st_leases := [((''c1'', []), sample_lease ''a1'' 1)]\<rparr>"

definition runtime_of :: "store \<Rightarrow> registry \<Rightarrow> (string \<times> run_info) list \<Rightarrow> runtime" where
  "runtime_of s reg tracked = \<lparr>rt_desk = \<lparr>dk_world = \<lparr>wo_store = s, wo_files = []\<rparr>, dk_side = []\<rparr>, rt_registry = reg, rt_adapters = [],
     rt_running = tracked, rt_tokens = [], rt_evidence = [], rt_spawned = 0, rt_finished = 0\<rparr>"

definition sample_info :: run_info where
  "sample_info = \<lparr>ri_contract = ''c1'', ri_executor = ''x'', ri_model = ''*'', ri_role = ''executor'', ri_revision = 1, ri_session = ''l'', ri_generation = Some 1\<rparr>"

lemma runtime_simps [simp]:
  "rt_store (runtime_of s reg t) = s" "rt_running (runtime_of s reg t) = t" "rt_adapters (runtime_of s reg t) = []" "rt_registry (runtime_of s reg t) = reg"
  "dk_side (rt_desk (runtime_of s reg t)) = []"
  by (simp_all add: runtime_of_def)

lemma rproject_ok:
  assumes "get_contract (rt_store r) c = Some v"
  obtains r' where "rproject x c r = (Inr (), r')"
  using assms by (auto simp: rproject_def on_desk_def on_world_def project_def rebuild_projection_def Let_def split: prod.split)


section \<open>What a verifier's success rests on\<close>

lemma read_verdict_fst: "fst (read_verdict x role c p) = fst (read_verdict x role c q)"
  by (simp add: read_verdict_def Let_def split: sum.split verdict_error.split)

lemma merged_pass:
  assumes "str_get_or (merge_evidence (to_evidence k) mv) ''outcome'' [] = ''pass''"
  shows "co_outcome k = ''pass'' \<or> co_outcome k \<noteq> ''fail'' \<and> model_says (to_evidence k) mv = Some ''pass''"
proof -
  have own: "map_of (to_evidence k) ''outcome'' = Some (co_outcome k)" by (simp add: to_evidence_def)
  then have "str_get_or (to_evidence k) ''outcome'' ''undetermined'' = co_outcome k" by (simp add: str_get_or_def)
  moreover have "map_of (merge_evidence (to_evidence k) mv) ''outcome'' = Some ''pass''"
    using assms by (simp add: str_get_or_def split: option.splits)
  ultimately show ?thesis
    using deterministic_evidence_wins [of "to_evidence k" mv] own by (auto split: if_splits)
qed

lemma settled_put [simp]: "settled_state (put ''state'' (JStr t) p) = t"
  by (simp add: settled_state_def dict_get_def)

lemma failed_collect [simp]: "settled_state (collect_failed reason p) = ''failed''"
  by (simp add: settled_state_def collect_failed_def dict_get_def)

lemma judged_success:
  assumes judged: "judge_evidence x now c n mv s p = (payload, evidence)" and success: "settled_state payload = ''succeeded''"
    and contract: "get_contract s c = Some v" and checks: "typed_checks s c n \<noteq> []" and workspace: "contract_workspace v \<noteq> []"
    and k: "k \<in> set (typed_checks s c n)" "cs_mandatory k"
  shows "\<exists>row. evaluate_check (re_checks x) (contract_workspace v) (Some (deadline_budget v now)) k = Inr row \<and>
    (co_outcome row = ''pass'' \<or> co_outcome row \<noteq> ''fail'' \<and> model_says (to_evidence row) mv = Some ''pass'')"
proof -
  let ?eval = "evaluate_check (re_checks x) (contract_workspace v) (Some (deadline_budget v now))"
  obtain results where r: "smap ?eval (typed_checks s c n) = Inr results"
    using judged success contract checks workspace
    by (cases "smap ?eval (typed_checks s c n)") (auto simp: judge_evidence_def Let_def)
  let ?evidence = "map (\<lambda>row. merge_evidence (to_evidence row) mv) results"
  have ok: "\<not> mandatory_failed (typed_checks s c n) ?evidence"
    using judged success contract checks workspace r by (auto simp: judge_evidence_def Let_def split: if_splits)
  from k(1) obtain j where j: "j < length (typed_checks s c n)" "typed_checks s c n ! j = k" by (auto simp: in_set_conv_nth)
  have len: "length results = length (typed_checks s c n)" using smap_length [OF r] .
  have "map ?eval (typed_checks s c n) ! j = map Inr results ! j" using r by (simp add: smap_eq_Inr_iff)
  then have row: "?eval k = Inr (results ! j)" "j < length results" using j len by simp_all
  have "(k, merge_evidence (to_evidence (results ! j)) mv) \<in> set (zip (typed_checks s c n) ?evidence)"
    using j row(2) by (auto simp: set_zip)
  then have "str_get_or (merge_evidence (to_evidence (results ! j)) mv) ''outcome'' [] = ''pass''"
    using ok k(2) by (auto simp: mandatory_failed_def list_ex_iff)
  then show ?thesis using row(1) merged_pass by blast
qed

lemma settled_put_other: "k \<noteq> ''state'' \<Longrightarrow> settled_state (put k x p) = settled_state p"
  by (simp add: settled_state_def dict_get_def)

lemma output_state: "settled_state (output_payload x c p) = settled_state p"
  by (simp add: output_payload_def settled_put_other Let_def)

lemma read_verdict_state: "settled_state (snd (read_verdict x role c p)) = settled_state p"
  by (simp add: read_verdict_def Let_def settled_put_other split: sum.split verdict_error.split)

lemma missing_state: "settled_state (missing_evidence p) = ''failed''"
  by (simp add: missing_evidence_def settled_put_other)

lemma binding_state: "settled_state (dict_merge p (attempt_evidence_binding d s c r)) = settled_state p"
  by (simp add: attempt_evidence_binding_def evidence_binding_def dict_merge_def settled_put_other split: option.split)

lemma unchecked_state:
  assumes "judge_evidence x now c n mv s p = (payload, evidence)"
    and "\<forall>v. get_contract s c = Some v \<longrightarrow> typed_checks s c n = [] \<or> contract_workspace v = []"
  shows "settled_state payload = settled_state p"
  using assms by (auto simp: judge_evidence_def Let_def binding_state split: option.splits)

text \<open>C7: A verifier succeeds only on evidence. If the settled state of a verifier's attempt is success, then its output was collected, and there are
  two cases. Where the contract has typed checks and names a workspace, every mandatory check was evaluated in the workspace and either passed, or did not
  fail and was passed explicitly by the verdict that the verifier printed: neither its exit code nor its word against a failed check is enough. Where
  there is no contract, no typed check or no workspace, no check is evaluated; then its run was observed as succeeded, and it attested its
  completion by an event, wrote a result back, or printed a verdict: its exit code alone is not enough.\<close>

theorem verifier_succeeds_on_evidence:
  assumes "settle_payload x now a info state s = (payload, evidence)" and "ri_role info = ''verifier''" and "settled_state payload = ''succeeded''"
  shows "\<exists>c. re_collect x (ri_executor info) a = Inr c \<and>
    ((\<exists>v. get_contract s (ri_contract info) = Some v \<and> typed_checks s (ri_contract info) (ri_revision info) \<noteq> [] \<and> contract_workspace v \<noteq> [] \<and>
       (\<forall>k \<in> set (typed_checks s (ri_contract info) (ri_revision info)). cs_mandatory k \<longrightarrow>
         (\<exists>row. evaluate_check (re_checks x) (contract_workspace v) (Some (deadline_budget v now)) k = Inr row \<and>
           (co_outcome row = ''pass'' \<or> co_outcome row \<noteq> ''fail'' \<and>
             model_says (to_evidence row) (fst (read_verdict x ''verifier'' c [])) = Some ''pass'')))) \<or>
     (\<forall>v. get_contract s (ri_contract info) = Some v \<longrightarrow>
         typed_checks s (ri_contract info) (ri_revision info) = [] \<or> contract_workspace v = []) \<and>
       state = ''succeeded'' \<and>
       (truthy (dict_get c ''finished_by_event'') \<or> written_back x (ri_contract info) a s \<or> fst (read_verdict x ''verifier'' c []) \<noteq> None))"
proof (cases "re_collect x (ri_executor info) a")
  case (Inl reason)
  then show ?thesis using assms(1,3) by (auto simp: settle_payload_def Let_def)
next
  case (Inr c)
  let ?base = "[(''session_ref'', JStr (ri_session info)), (''state'', JStr state), (''role'', JStr ''verifier''), (''model'', JStr (ri_model info))]"
  let ?c = "ri_contract info" and ?n = "ri_revision info"
  obtain m p where rv: "read_verdict x ''verifier'' c (output_payload x c ?base) = (m, p)"
    by (cases "read_verdict x ''verifier'' c (output_payload x c ?base)")
  have m: "fst (read_verdict x ''verifier'' c []) = m"
    using rv read_verdict_fst [of x "''verifier''" c "output_payload x c ?base" "[]"] by simp
  have p: "settled_state p = state"
    using read_verdict_state [of x "''verifier''" c "output_payload x c ?base"] by (simp add: rv output_state) (simp add: settled_state_def dict_get_def)
  define q where "q = (if \<not> truthy (dict_get c ''finished_by_event'') \<and> \<not> written_back x ?c a s \<and> m = None then missing_evidence p else p)"
  have judged: "judge_evidence x now ?c ?n m s q = (payload, evidence)"
    using assms(1,2) Inr rv unfolding q_def by (simp only: settle_payload_def Let_def sum.case prod.case if_False simp_thms)
  show ?thesis
  proof (cases "\<forall>v. get_contract s ?c = Some v \<longrightarrow> typed_checks s ?c ?n = [] \<or> contract_workspace v = []")
    case True
    from unchecked_state [OF judged this] assms(3) have "settled_state q = ''succeeded''" by simp
    then have "(truthy (dict_get c ''finished_by_event'') \<or> written_back x ?c a s \<or> m \<noteq> None) \<and> state = ''succeeded''"
      using p by (auto simp: q_def missing_state split: if_splits)
    then show ?thesis using True Inr m by blast
  next
    case False
    then obtain v where v: "get_contract s ?c = Some v" "typed_checks s ?c ?n \<noteq> []" "contract_workspace v \<noteq> []" by blast
    have "\<exists>row. evaluate_check (re_checks x) (contract_workspace v) (Some (deadline_budget v now)) k = Inr row \<and>
        (co_outcome row = ''pass'' \<or> co_outcome row \<noteq> ''fail'' \<and>
          model_says (to_evidence row) (fst (read_verdict x ''verifier'' c [])) = Some ''pass'')"
      if "k \<in> set (typed_checks s ?c ?n)" "cs_mandatory k" for k
      using judged_success [OF judged assms(3) v that] by (simp only: m)
    then show ?thesis using Inr v by blast
  qed
qed

definition file_check :: check_spec where
  "file_check = \<lparr>cs_kind = FileExists, cs_target = ''a'', cs_args = [], cs_mandatory = True, cs_note = []\<rparr>"

definition checked_view :: contract_view where
  "checked_view = Contract_Properties.sample_view\<lparr>cv_draft := (cv_draft Contract_Properties.sample_view)
     \<lparr>cd_hard_constraints := [(''file_effects'', JObj [(''workspace_root'', JStr ''w'')])],
      cd_acceptance := (cd_acceptance (cv_draft Contract_Properties.sample_view))\<lparr>ac_checks := [TypedCheck file_check]\<rparr>\<rparr>\<rparr>"

definition checked_store :: store where
  "checked_store = set_contract ''c1'' checked_view empty_store"

lemma checked_simps [simp]:
  "get_contract checked_store ''c1'' = Some checked_view" "contract_workspace checked_view = ''w''" "typed_checks checked_store ''c1'' n = [file_check]"
  by (simp_all add: checked_store_def set_contract_def get_contract_def checked_view_def contract_workspace_def dict_get_def is_blank_def strip_def
      lstrip_def is_space_def typed_checks_def acceptance_at_revision_def empty_store_def List.map_filter_simps)

lemma file_check_passes:
  "evaluate_check sample_check_env ''w'' b file_check = Inr \<lparr>co_id = ''file-exists:a'', co_outcome = ''pass'', co_source = ''w/a'', co_details = []\<rparr>"
  by (simp add: evaluate_check_def file_check_def stage_marker_def needs_file_def safe_target_def sample_check_env_def path_join_def as_undetermined_def
      dispatch_check_def under_target_def outcome_row_def check_id_of_def)

lemma sample_runner_simps [simp]:
  "re_checks sample_runner_env = sample_check_env" "re_collect sample_runner_env e i = Inr []" "re_kill_switch sample_runner_env = False"
  "re_launch sample_runner_env e input = Launched ''session''" "re_build sample_runner_env entry = True" "re_handle sample_runner_env e i = None"
  by (simp_all add: sample_runner_env_def)

theorem verifier_succeeds_on_evidence_witness:
  "\<exists>payload evidence row. settle_payload sample_runner_env 5 ''v1'' (sample_info\<lparr>ri_role := ''verifier''\<rparr>) ''succeeded'' checked_store = (payload, evidence) \<and>
     settled_state payload = ''succeeded'' \<and> evaluate_check sample_check_env ''w'' (Some (deadline_budget checked_view 5)) file_check = Inr row \<and>
     co_outcome row \<noteq> ''fail''"
proof -
  let ?info = "sample_info\<lparr>ri_role := ''verifier''\<rparr>"
  obtain payload evidence where s: "settle_payload sample_runner_env 5 ''v1'' ?info ''succeeded'' checked_store = (payload, evidence)"
    by (cases "settle_payload sample_runner_env 5 ''v1'' ?info ''succeeded'' checked_store")
  let ?m = "fst (read_verdict sample_runner_env ''verifier'' [] [])"
  let ?row = "\<lparr>co_id = ''file-exists:a'', co_outcome = ''pass'', co_source = ''w/a'', co_details = []\<rparr>"
  have "str_get_or (merge_evidence (to_evidence ?row) mv) ''outcome'' [] = ''pass''" for mv
    using deterministic_evidence_wins [of "to_evidence ?row" mv] by (simp add: str_get_or_def to_evidence_def)
  then have ok: "\<not> mandatory_failed [file_check] [merge_evidence (to_evidence ?row) mv]" for mv by (simp add: mandatory_failed_def)
  have judged: "settled_state (fst (judge_evidence sample_runner_env 5 ''c1'' 1 mv checked_store q)) = ''succeeded''" for mv q
    using ok file_check_passes by (simp add: judge_evidence_def Let_def)
  obtain mv p where rv: "read_verdict sample_runner_env ''verifier'' [] (output_payload sample_runner_env []
      [(''session_ref'', JStr (ri_session ?info)), (''state'', JStr ''succeeded''), (''role'', JStr (ri_role ?info)), (''model'', JStr (ri_model ?info))]) = (mv, p)"
    by (cases "read_verdict sample_runner_env ''verifier'' [] (output_payload sample_runner_env []
      [(''session_ref'', JStr (ri_session ?info)), (''state'', JStr ''succeeded''), (''role'', JStr (ri_role ?info)), (''model'', JStr (ri_model ?info))])")
  have "\<exists>q. judge_evidence sample_runner_env 5 ''c1'' 1 mv checked_store q = (payload, evidence)"
    using s rv by (auto simp: settle_payload_def sample_info_def Let_def)
  then have success: "settled_state payload = ''succeeded''" using judged by (metis fst_conv)
  from verifier_succeeds_on_evidence [OF s _ success] obtain row where
    "evaluate_check sample_check_env ''w'' (Some (deadline_budget checked_view 5)) file_check = Inr row" "co_outcome row \<noteq> ''fail''"
    by (auto simp: sample_info_def file_check_def)
  with s success show ?thesis by blast
qed

section \<open>Starts\<close>

lemma input_fields [simp]:
  "ai_attempt (attempt_input_of x v a agent g p s) = a" "ai_agent (attempt_input_of x v a agent g p s) = agent"
  "ai_generation (attempt_input_of x v a agent g p s) = g"
  by (simp_all add: attempt_input_of_def Let_def)

lemma snapshot_built:
  "(case c of Refused n m \<Rightarrow> apure (RefusedInput n m) | Compiled path cursor' ids' \<Rightarrow> apure (Built (f path) cursor' ids')) d = (Inr (Built i cursor ids), d') \<longleftrightarrow>
    (\<exists>path. c = Compiled path cursor ids \<and> i = f path \<and> d' = d)"
  by (cases c) auto

lemma build_input_result:
  assumes "build_attempt_input x v a now b agent d = (Inr (Built i cursor ids), d')"
  shows "ai_attempt i = a" and "ai_agent i = agent"
    and "ai_generation i = (case get_lease (dk_store d) (cv_contract_id v) None of None \<Rightarrow> 0 | Some l \<Rightarrow> le_generation l)"
proof -
  have "ai_attempt i = a \<and> ai_agent i = agent \<and>
    ai_generation i = (case get_lease (dk_store d) (cv_contract_id v) None of None \<Rightarrow> 0 | Some l \<Rightarrow> le_generation l)"
    using assms
    by (auto simp: build_attempt_input_def abind_Inr apure_Inr snapshot_built split: if_splits)
  then show "ai_attempt i = a" and "ai_agent i = agent"
    and "ai_generation i = (case get_lease (dk_store d) (cv_contract_id v) None of None \<Rightarrow> 0 | Some l \<Rightarrow> le_generation l)" by auto
qed

lemma adapter_frame:
  assumes "adapter_for x e r = (v, r')"
  shows "rt_desk r' = rt_desk r" and "rt_running r' = rt_running r"
  using assms by (auto simp: adapter_for_def split: if_splits option.splits)

lemma token_frame:
  assumes "issue_session_token x i now r = (v, r')"
  shows "rt_desk r' = rt_desk r" and "rt_running r' = rt_running r" and "v = Inr (re_secret x i now)"
  using assms by (auto simp: issue_session_token_def Let_def split: if_splits)

lemma fail_result:
  assumes "fail_attempt x now c a reason role ec r = (v, r')"
  shows "dk_side (rt_desk r') = dk_side (rt_desk r)"
    and "v = Inr () \<Longrightarrow> map_of (rt_running r') a = None \<and> \<not> lease_held_by (get_lease (rt_store r') c None) a"
proof -
  let ?s = "release_if_held now c a (update_attempt a (settle_row ''failed'' now (Some ec))
    (snd (log_event (attempt_event c a ATTEMPT_FAILED [(''reason'', JStr reason)] now role) (rt_store r))))"
  obtain u r1 where p: "rproject x c (put_store ?s r) = (u, r1)" by (cases "rproject x c (put_store ?s r)")
  have free: "\<not> lease_held_by (get_lease ?s c None) a" by (rule release_keeps(3))
  show "dk_side (rt_desk r') = dk_side (rt_desk r)"
    and "v = Inr () \<Longrightarrow> map_of (rt_running r') a = None \<and> \<not> lease_held_by (get_lease (rt_store r') c None) a"
    using assms p rproject_frame [OF p] free by (cases u; force simp: fail_attempt_def abind_eq run_eqs simp del: log_event_simps)+
qed

lemma refuse_result:
  assumes "abind (fail_attempt x now c a reason role ec) (\<lambda>_. apure False) r = (v, r')"
  shows "dk_side (rt_desk r') = dk_side (rt_desk r)" and "v \<noteq> Inr True"
    and "v = Inr False \<Longrightarrow> map_of (rt_running r') a = None \<and> \<not> lease_held_by (get_lease (rt_store r') c None) a"
proof -
  obtain u r1 where f: "fail_attempt x now c a reason role ec r = (u, r1)" by (cases "fail_attempt x now c a reason role ec r")
  have "dk_side (rt_desk r') = dk_side (rt_desk r) \<and> v \<noteq> Inr True \<and>
    (v = Inr False \<longrightarrow> map_of (rt_running r') a = None \<and> \<not> lease_held_by (get_lease (rt_store r') c None) a)"
    using assms fail_result [OF f] f by (cases u) (auto simp: abind_eq)
  then show "dk_side (rt_desk r') = dk_side (rt_desk r)" and "v \<noteq> Inr True"
    and "v = Inr False \<Longrightarrow> map_of (rt_running r') a = None \<and> \<not> lease_held_by (get_lease (rt_store r') c None) a"
    by simp_all
qed

lemma started_True: "started x c v a e m session cursor ids now r = (Inr b, r') \<Longrightarrow> b"
  by (simp only: started_def abind_Inr apure_Inr) blast

text \<open>C19: Directives wait for a process. A start moves the cursors and acknowledgements of directives only for an executor that was launched with this
  attempt's input; a start that fails leaves them untouched, so that the next attempt is given the same directives, and leaves neither a tracked
  attempt nor its lease behind.\<close>

theorem failed_start_keeps_directives:
  assumes "start_attempt x now c a e m r = (res, r')"
  shows "(dk_side (rt_desk r') = dk_side (rt_desk r) \<or>
      (\<exists>input session. re_launch x e input = Launched session \<and> ai_attempt input = a \<and> ai_agent input = Some e)) \<and>
    (case res of Inr False \<Rightarrow> dk_side (rt_desk r') = dk_side (rt_desk r) \<and> map_of (rt_running r') a = None \<and>
       \<not> lease_held_by (get_lease (rt_store r') c None) a | _ \<Rightarrow> True)"
proof -
  have "\<exists>available r1. adapter_for x e r = (Inr available, r1)"
    by (auto simp: adapter_for_def split: option.split)
  then obtain available r1 where ad: "adapter_for x e r = (Inr available, r1)" by blast
  note r1 = adapter_frame [OF ad]
  let ?refuse = "\<lambda>reason. abind (fail_attempt x now c a reason ''executor'' ''attempt-failed'') (\<lambda>_. apure False)"
  have refused: ?thesis if "?refuse reason r2 = (res, r')" and "dk_side (rt_desk r2) = dk_side (rt_desk r)" for reason r2
    using refuse_result [OF that(1)] that(2) by (simp split: sum.split bool.split)
  show ?thesis
  proof (cases "available \<and> get_contract (rt_store r1) c \<noteq> None")
    case False
    then have "?refuse (''executor or contract unavailable: '' @ e) r1 = (res, r')"
      using assms ad by (auto simp: start_attempt_def Let_def abind_eq aread_def)
    then show ?thesis using refused r1 by simp
  next
    case True
    then obtain v where v: "get_contract (rt_store r1) c = Some v" by auto
    obtain b r2 where b: "on_desk (build_attempt_input x v a now True (Some e)) r1 = (b, r2)"
      by (cases "on_desk (build_attempt_input x v a now True (Some e)) r1")
    note r2 = on_desk_books [OF desk_books_input(1) b]
    have side: "dk_side (rt_desk r2) = dk_side (rt_desk r)" using r2 r1 by simp
    show ?thesis
    proof (cases b)
      case (Inl err)
      then have "res = Inl err" "r' = r2" using assms ad True v b by (simp_all add: start_attempt_def Let_def abind_eq)
      then show ?thesis using side by simp
    next
      case (Inr built)
      show ?thesis
      proof (cases built)
        case (RefusedInput n k)
        then have "?refuse (''context capacity refused: '' @ capacity_text n k) r2 = (res, r')"
          using assms ad True v b Inr by (simp add: start_attempt_def Let_def abind_eq)
        then show ?thesis using refused side by blast
      next
        case (Built i cursor ids)
        obtain d' where d': "build_attempt_input x v a now True (Some e) (rt_desk r1) = (Inr (Built i cursor ids), d')"
          using b Inr Built by (auto simp: on_desk_def split: prod.splits)
        obtain r3 where t: "issue_session_token x a now r2 = (Inr (re_secret x a now), r3)"
          by (simp add: issue_session_token_def Let_def)
        have side3: "dk_side (rt_desk r3) = dk_side (rt_desk r)" using token_frame [OF t] side by simp
        let ?input = "i\<lparr>ai_token := Some (re_secret x a now)\<rparr>"
        have run: "start_attempt x now c a e m r = (case re_launch x e ?input of
            PrepareRefused t \<Rightarrow> ?refuse (''prepare refused: '' @ t) | SpawnFailed t \<Rightarrow> ?refuse (''spawn failed: '' @ t)
          | LaunchRaised err \<Rightarrow> alift (Inl (CallError err)) | Launched session \<Rightarrow> started x c v a e m session cursor ids now) r3"
          using ad True v b Inr Built t by (simp add: start_attempt_def Let_def abind_eq)
        show ?thesis
        proof (cases "re_launch x e ?input")
          case (Launched session)
          have "ai_attempt ?input = a" "ai_agent ?input = Some e" using build_input_result [OF d'] by simp_all
          then have "\<exists>input session. re_launch x e input = Launched session \<and> ai_attempt input = a \<and> ai_agent input = Some e"
            using Launched by blast
          moreover have "res \<noteq> Inr False" using assms run Launched started_True [of x c v a e m session cursor ids now r3 False r'] by auto
          ultimately show ?thesis by (auto split: sum.split bool.split)
        qed (use assms run refused side3 in \<open>auto split: sum.split\<close>)
      qed
    qed
  qed
qed

theorem failed_start_keeps_directives_witness:
  "\<exists>r'. start_attempt sample_runner_env 5 ''c1'' ''a1'' ''x'' ''*'' (runtime_of leased_store [] []) = (Inr False, r') \<and>
     dk_side (rt_desk r') = [] \<and> \<not> lease_held_by (get_lease (rt_store r') ''c1'' None) ''a1''"
proof -
  let ?r = "runtime_of leased_store [] []"
  let ?s = "release_if_held 5 ''c1'' ''a1'' (update_attempt ''a1'' (settle_row ''failed'' 5 (Some ''attempt-failed'')) (snd (log_event
    (attempt_event ''c1'' ''a1'' ATTEMPT_FAILED [(''reason'', JStr ''executor or contract unavailable: x'')] 5 ''executor'') leased_store)))"
  have "get_contract ?s ''c1'' = Some Contract_Properties.sample_view"
    using sample_contract by (simp add: release_if_held_def leased_store_def sample_lease_def recon_release_def release_lease_def
      request_events_def get_contract_def grace_lease_call_def lease_key_def partition_key_def get_lease_def update_attempt_def)
  then have "get_contract (rt_store (put_store ?s ?r)) ''c1'' = Some Contract_Properties.sample_view" by simp
  then obtain r1 where p: "rproject sample_runner_env ''c1'' (put_store ?s ?r) = (Inr (), r1)" by (rule rproject_ok)
  then have "\<exists>r'. start_attempt sample_runner_env 5 ''c1'' ''a1'' ''x'' ''*'' ?r = (Inr False, r')"
    by (simp add: start_attempt_def Let_def adapter_for_def fail_attempt_def abind_eq run_eqs del: log_event_simps)
  then obtain r' where s: "start_attempt sample_runner_env 5 ''c1'' ''a1'' ''x'' ''*'' ?r = (Inr False, r')" by blast
  from failed_start_keeps_directives [OF s] s show ?thesis by auto
qed

section \<open>Verifiers\<close>

text \<open>What happens between the lease of a verifier and its process.\<close>

lemma persist_lease:
  assumes "persist_handle x e v i now r = (u, r')"
  shows "st_leases (rt_store r') = st_leases (rt_store r)"
    and "\<exists>f. rt_running r' = rt_running r \<and> (\<forall>row. sa_role (f row) = sa_role row) \<and> get_attempt (rt_store r') i = map_option f (get_attempt (rt_store r) i)"
proof -
  have role: "sa_role (with_state st now ec rc cl row) = sa_role row" for st ec rc cl row by (simp add: with_state_def)
  show "st_leases (rt_store r') = st_leases (rt_store r)"
    using assms by (auto simp: persist_handle_def abind_eq run_eqs register_attempt_handle_def set_attempt_state_def split: option.splits)
  show "\<exists>f. rt_running r' = rt_running r \<and> (\<forall>row. sa_role (f row) = sa_role row) \<and> get_attempt (rt_store r') i = map_option f (get_attempt (rt_store r) i)"
  proof (cases "re_handle x e i")
    case None
    then show ?thesis using assms by (intro exI [of _ id]) (simp add: persist_handle_def option.map_id)
  next
    case (Some h)
    then show ?thesis
      using assms
      by (intro exI [of _ "\<lambda>row. with_state ''running'' now None None False (row\<lparr>sa_external_run := Some (eh_run h), sa_session_locator := Some (eh_locator h),
          sa_recovery := Some (eh_recovery h), sa_process_identity := eh_identity h, sa_capability := eh_capability h,
          sa_handle_registered := Some now, sa_updated := now\<rparr>)"])
        (auto simp: persist_handle_def abind_eq run_eqs register_attempt_handle_def set_attempt_state_def role option.map_comp o_def)
  qed
qed

lemma verifier_started_effect:
  assumes "verifier_started x v i e ex session now r = (Inr b, r')" and "get_lease (rt_store r) (cv_contract_id v) None = Some l"
    and "get_attempt (rt_store r) i = None"
  shows "b \<and> get_lease (rt_store r') (cv_contract_id v) None = Some l \<and>
    map_of (rt_running r') i = Some \<lparr>ri_contract = cv_contract_id v, ri_executor = rg_id e, ri_model = effective_model e, ri_role = ''verifier'',
      ri_revision = cv_revision v, ri_session = session, ri_generation = Some (le_generation l)\<rparr> \<and>
    (\<exists>row. get_attempt (rt_store r') i = Some row \<and> sa_role row = ''verifier'')"
proof -
  obtain n where n: "verifier_started x v i e ex session now r = abind (persist_handle x (rg_id e) v i now) (\<lambda>_.
      abind (track_started (cv_contract_id v) i v (rg_id e) (effective_model e) ''verifier'' session) (\<lambda>_. abind count_spawned (\<lambda>_. apure True)))
      (put_store (insert_verifier_row (verifier_record v i e ex now) (snd (log_event n (rt_store r)))) r)"
    by (simp add: verifier_started_def abind_eq run_eqs del: log_event_simps)
  let ?r1 = "put_store (insert_verifier_row (verifier_record v i e ex now) (snd (log_event n (rt_store r)))) r"
  obtain u r2 where p: "persist_handle x (rg_id e) v i now ?r1 = (u, r2)" by (cases "persist_handle x (rg_id e) v i now ?r1")
  have row: "get_attempt (rt_store ?r1) i = Some (new_attempt (verifier_record v i e ex now))"
    using assms(3) by (simp add: insert_verifier_row_def verifier_record_def get_attempt_def)
  have lease: "get_lease (rt_store r2) (cv_contract_id v) None = Some l"
    using persist_lease(1) [OF p] assms(2) by (simp add: get_lease_def insert_verifier_row_def)
  obtain f where "\<forall>a. sa_role (f a) = sa_role a" "get_attempt (rt_store r2) i = map_option f (get_attempt (rt_store ?r1) i)"
    using persist_lease(2) [OF p] by blast
  then have "\<exists>a. get_attempt (rt_store r2) i = Some a \<and> sa_role a = ''verifier''"
    using row by (simp add: new_attempt_def verifier_record_def)
  then show ?thesis
    using assms(1) n p lease by (cases u) (auto simp: abind_eq track_started_def run_eqs)
qed

lemma verifier_built:
  assumes "build_verifier_input x v a now d = (Inr (Built i cursor ids), d')"
  obtains base d1 where "build_attempt_input x v a now True None d = (Inr (Built base cursor ids), d1)"
    and "ai_attempt i = ai_attempt base" and "ai_generation i = ai_generation base"
proof -
  obtain b d1 where b: "build_attempt_input x v a now True None d = (Inr b, d1)"
    using assms by (auto simp: build_verifier_input_def abind_eq split: prod.splits sum.splits)
  show thesis
  proof (cases b)
    case (Built base cursor' ids')
    then show thesis using assms b by (intro that [of base d1]) (auto simp: build_verifier_input_def abind_eq split: sum.splits)
  qed (use assms b in \<open>simp add: build_verifier_input_def abind_eq\<close>)
qed

lemma launch_verifier_effect:
  assumes "launch_verifier x now v i e ex r = (Inr True, r')" and lease: "get_lease (rt_store r) (cv_contract_id v) None = Some l"
    and fresh: "get_attempt (rt_store r) i = None"
  shows "get_lease (rt_store r') (cv_contract_id v) None = Some l \<and>
    (\<exists>session input. re_launch x (rg_id e) input = Launched session \<and> ai_attempt input = i \<and> ai_generation input = le_generation l) \<and>
    (\<exists>info. map_of (rt_running r') i = Some info \<and> ri_executor info = rg_id e \<and> ri_generation info = Some (le_generation l)) \<and>
    (\<exists>row. get_attempt (rt_store r') i = Some row \<and> sa_role row = ''verifier'')"
proof -
  let ?refuse = "\<lambda>reason. abind (fail_attempt x now (cv_contract_id v) i reason ''verifier'' ''attempt-failed'') (\<lambda>_. apure False)"
  obtain b r1 where b: "on_desk (build_verifier_input x v i now) r = (b, r1)" by (cases "on_desk (build_verifier_input x v i now) r")
  note r1 = on_desk_books [OF desk_books_input(2) b]
  have not_refused: "?refuse reason r2 \<noteq> (Inr True, r')" for reason r2
    using refuse_result(2) by blast
  obtain built where built: "b = Inr built"
    using assms(1) b by (cases b) (simp_all add: launch_verifier_def Let_def abind_eq)
  obtain input cursor ids where input: "built = Built input cursor ids"
    using assms(1) b built not_refused by (cases built) (simp_all add: launch_verifier_def Let_def abind_eq)
  obtain r2 where t: "issue_session_token x i now r1 = (Inr (re_secret x i now), r2)"
    by (simp add: issue_session_token_def Let_def)
  note r2 = token_frame [OF t]
  let ?input = "input\<lparr>ai_token := Some (re_secret x i now)\<rparr>"
  obtain session where session: "re_launch x (rg_id e) ?input = Launched session"
    using assms(1) b built input t not_refused by (cases "re_launch x (rg_id e) ?input") (simp_all add: launch_verifier_def Let_def abind_eq)
  have run: "verifier_started x v i e ex session now r2 = (Inr True, r')"
    using assms(1) b built input t session by (simp add: launch_verifier_def Let_def abind_eq)
  have kept: "get_lease (rt_store r2) (cv_contract_id v) None = Some l" "get_attempt (rt_store r2) i = None"
    using r1(1) r2(1) lease fresh by (simp_all add: bookkept_def get_lease_def get_attempt_def)
  have "ai_attempt ?input = i \<and> ai_generation ?input = le_generation l"
  proof -
    obtain d' where "build_verifier_input x v i now (rt_desk r) = (Inr (Built input cursor ids), d')"
      using b built input by (auto simp: on_desk_def split: prod.splits)
    then obtain base d1 where "build_attempt_input x v i now True None (rt_desk r) = (Inr (Built base cursor ids), d1)"
      "ai_attempt input = ai_attempt base" "ai_generation input = ai_generation base"
      by (rule verifier_built)
    then show ?thesis using build_input_result lease by simp
  qed
  then show ?thesis using verifier_started_effect [OF run kept] session by (metis run_info.select_convs(2,7))
qed

text \<open>C8: A verifier is independent and under control. When one is dispatched, the kill switch is off, the contract is active, no live lease of an
  unfinished attempt is taken over, no other verifier of the contract is open and the verification budget is not used up; it is another executor than
  the one it checks, admitted for the role; and it runs under a fresh id with a lease one generation up, whose generation is the one in its input.\<close>

theorem verifier_is_independent:
  assumes sent: "dispatch_verifier x now c ex r = (Inr True, r')" and contract: "get_contract (rt_store r) c = Some v" and key: "cv_contract_id v = c"
  shows "\<not> re_kill_switch x \<and> cv_state v = Active \<and> lease_in_use (rt_store r) c now = None \<and> \<not> verifier_pending (rt_store r) c \<and>
    count_verifier_attempts (rt_store r) c < bu_verification_attempts_reserved (cd_budget (cv_draft v)) \<and>
    (\<exists>i e l cs session input info row. get_attempt (rt_store r) i = None \<and> rg_id e \<noteq> ex \<and>
      match_candidates (re_repr x) (rt_registry r) (DraftSource (cv_draft v)) (count_running_by_executor (rt_store r)) ''verifier'' = Inr cs \<and> e \<in> set cs \<and>
      get_lease (rt_store r') c None = Some l \<and> le_holder l = i \<and>
      le_generation l = (case get_lease (rt_store r) c None of None \<Rightarrow> 0 | Some l0 \<Rightarrow> le_generation l0) + 1 \<and>
      re_launch x (rg_id e) input = Launched session \<and> ai_attempt input = i \<and> ai_generation input = le_generation l \<and>
      map_of (rt_running r') i = Some info \<and> ri_executor info = rg_id e \<and> ri_generation info = Some (le_generation l) \<and>
      get_attempt (rt_store r') i = Some row \<and> sa_role row = ''verifier'')"
proof -
  let ?refuse = "\<lambda>i reason. abind (fail_attempt x now (cv_contract_id v) i reason ''verifier'' ''attempt-failed'') (\<lambda>_. apure False)"
  have not_refused: "?refuse i reason r2 \<noteq> (Inr True, r')" for i reason r2 using refuse_result(2) by blast
  have gates: "\<not> re_kill_switch x \<and> cv_state v = Active \<and> lease_in_use (rt_store r) c now = None \<and> \<not> verifier_pending (rt_store r) c \<and>
      count_verifier_attempts (rt_store r) c < bu_verification_attempts_reserved (cd_budget (cv_draft v)) \<and> choose_verifier x now v ex r = (Inr True, r')"
    using sent contract by (auto simp: dispatch_verifier_def Let_def abind_Inr apure_Inr split: if_splits option.splits)
  then have "choose_verifier x now v ex r = (Inr True, r')" by simp
  then obtain cs e where cs: "match_candidates (re_repr x) (rt_registry r) (DraftSource (cv_draft v)) (count_running_by_executor (rt_store r)) ''verifier'' = Inr cs"
      and e: "find (\<lambda>e. rg_id e \<noteq> ex) cs = Some e" and send: "send_verifier x now v e ex r = (Inr True, r')"
    by (auto simp: choose_verifier_def abind_Inr apure_Inr alift_Inr lift_py_Inr split: option.splits)
  obtain i where i: "new_attempt_id (rt_store r) (''ver-'' @ re_stamp x now @ ''-'' @ last_items 4 (cv_contract_id v)) = Some i"
      "get_attempt (rt_store r) i = None"
    using new_attempt_id_exists by blast
  have "\<exists>available r1. adapter_for x (rg_id e) r = (Inr available, r1)" by (auto simp: adapter_for_def split: option.split)
  then obtain available r1 where ad: "adapter_for x (rg_id e) r = (Inr available, r1)" by blast
  obtain res r2 where c2: "claim_for_verifier v i (rg_id e) now r1 = (res, r2)" by (cases "claim_for_verifier v i (rg_id e) now r1")
  have sent: "(if \<not> available then ?refuse i (''verifier adapter unavailable: '' @ rg_id e) r1 else
      abind (claim_for_verifier v i (rg_id e) now) (\<lambda>claimed. if \<not> claimed then ?refuse i ''verifier lease CAS failed before spawn''
        else launch_verifier x now v i e ex) r1) = (Inr True, r')"
    using send i(1) ad by (simp add: send_verifier_def abind_eq Let_def split: if_splits)
  then have available: available using not_refused by (cases available) simp_all
  show ?thesis
    using c2
  proof (cases rule: claim_cases)
    case (claimed s l)
    have launched: "launch_verifier x now v i e ex r2 = (Inr True, r')" using sent available c2 claimed(1) by (simp add: abind_eq)
    have "get_attempt (rt_store r2) i = None" using claimed(2,3) i(2) adapter_frame(1) [OF ad] by (simp add: get_attempt_def)
    moreover have "get_lease (rt_store r2) (cv_contract_id v) None = Some l" using claimed(2,5) by simp
    ultimately have effect: "get_lease (rt_store r') (cv_contract_id v) None = Some l \<and>
      (\<exists>session input. re_launch x (rg_id e) input = Launched session \<and> ai_attempt input = i \<and> ai_generation input = le_generation l) \<and>
      (\<exists>info. map_of (rt_running r') i = Some info \<and> ri_executor info = rg_id e \<and> ri_generation info = Some (le_generation l)) \<and>
      (\<exists>row. get_attempt (rt_store r') i = Some row \<and> sa_role row = ''verifier'')"
      using launch_verifier_effect [OF launched] by blast
    have l: "le_holder l = i" "le_generation l = (case get_lease (rt_store r) c None of None \<Rightarrow> 0 | Some l0 \<Rightarrow> le_generation l0) + 1"
      using claimed(6,7) adapter_frame(1) [OF ad] key by simp_all
    have "e \<in> set cs" "rg_id e \<noteq> ex" using find_Some_in [OF e] by simp_all
    then show ?thesis using gates cs i(2) effect l key by blast
  next
    case failed
    then have "res \<noteq> Inr True" by simp
    with sent available c2 not_refused show ?thesis by (cases res) (auto simp: abind_eq split: if_splits)
  qed
qed

definition verifying_env :: runner_env where
  "verifying_env = sample_runner_env\<lparr>re_context := sample_context_env\<lparr>cx_encode := (\<lambda>t. []), cx_glob := (\<lambda>ns. [])\<rparr>\<rparr>"

definition verified_view :: contract_view where
  "verified_view = Contract_Properties.sample_view\<lparr>cv_state := Active, cv_draft := sample_contract_draft\<lparr>cd_authority := default_authority\<rparr>\<rparr>"

definition verified_runtime :: runtime where
  "verified_runtime = (runtime_of (set_contract ''c1'' verified_view empty_store)
     [(''a'', sample_entry ''a'' LowCost [''m'']), (''b'', sample_entry ''b'' HighCost [''m''])] [])
     \<lparr>rt_desk := \<lparr>dk_world = \<lparr>wo_store = set_contract ''c1'' verified_view empty_store, wo_files = []\<rparr>, dk_side = [(''c1'', [])]\<rparr>\<rparr>"

lemma verified_simps [simp]:
  "cv_state verified_view = Active" "cv_contract_id verified_view = ''c1''" "cv_draft verified_view = sample_contract_draft\<lparr>cd_authority := default_authority\<rparr>"
  by (simp_all add: verified_view_def Contract_Properties.sample_view_def)

lemma verified_match:
  "match_candidates rp [(''a'', sample_entry ''a'' LowCost [''m'']), (''b'', sample_entry ''b'' HighCost [''m''])]
     (DraftSource (sample_contract_draft\<lparr>cd_authority := default_authority\<rparr>)) [] ''verifier'' = Inr [sample_entry ''a'' LowCost [''m''], sample_entry ''b'' HighCost [''m'']]"
proof -
  have "rg_id (sample_entry i c m) = i" "rg_enabled (sample_entry i c m)" "max_concurrent (sample_entry i c m) = 1" "rg_cost_hint (sample_entry i c m) = c" for i c m
    by (simp_all add: sample_entry_def max_concurrent_def)
  moreover have "draft_bounds default_authority = ([], False)" by (simp add: draft_bounds_def default_authority_def)
  ultimately show ?thesis
    by (simp add: match_candidates_def authority_bindings_draft candidate_ok_def authorised_def sample_capable running_of_def dispatch_key_def)
qed

lemma verified_policy: "policy_from_contract (cv_draft verified_view) = Inr \<lparr>cp_required = False, cp_max_bytes = 24000, cp_expires_after_minutes = 240\<rparr>"
  by (simp add: policy_from_contract_def sample_contract_draft_def dict_get_def dict_get_or_def DEFAULT_MAX_BYTES_def DEFAULT_EXPIRES_MINUTES_def)

lemma verified_choice:
  assumes "pending_directives ''c1'' 0 agent (Some 5) age [] (st_log s) = []" and "get_contract s ''c1'' = Some verified_view"
  shows "choose_directives ''c1'' agent 5 age [(''c1'', [])] s = Inr \<lparr>ch_directives = [], ch_waiting = 0, ch_ids = [], ch_cursor = 0\<rparr>"
  using assms by (simp add: choose_directives_def read_directive_cursor_def read_acknowledged_directives_def ack_items_def Let_def continuity_column_def dict_get_or_def)

lemma verified_snapshot:
  assumes "dk_files d = []" and "dk_side d = [(''c1'', [])]" and "pending_directives ''c1'' 0 agent (Some 5) age [] (st_log (dk_store d)) = []"
    and "get_contract (dk_store d) ''c1'' = Some verified_view"
  shows "\<exists>p cursor ids d'. compile_context_snapshot (re_context verifying_env) verified_view i 5 agent age d = (Inr (Compiled p cursor ids), d') \<and>
    map_of (dk_files d') (''c1'', ''handover.md'') = None"
proof -
  obtain x where x: "re_context verifying_env = x" "\<And>t. cx_encode x t = []" "\<And>ns. cx_glob x ns = []"
    by (simp add: verifying_env_def sample_runner_env_def)
  have body: "\<exists>body. snapshot_body x v i 5 p None digest risk memory \<lparr>ch_directives = [], ch_waiting = 0, ch_ids = [], ch_cursor = 0\<rparr> = Inr body"
      for v p digest risk memory
    by (simp add: snapshot_body_def directive_sections_def previous_sections_def)
  have expire: "expire_old_snapshots x ''c1'' 5 d = (Inr (), d)"
    using x(3) by (simp add: expire_old_snapshots_def abind_eq)
  have handover: "handover_data x ''c1'' 5 d = (Inr None, d)"
    using assms(1) by (simp add: handover_data_def read_handover_def abind_eq)
  have written: "\<exists>p cursor ids d'. write_snapshot x verified_view i 5 \<lparr>cp_required = False, cp_max_bytes = 24000, cp_expires_after_minutes = 240\<rparr> ch b d
      = (Inr (Compiled p cursor ids), d') \<and> map_of (dk_files d') (''c1'', ''handover.md'') = None" for ch b
    using x(2) assms(1) by (simp add: write_snapshot_def Let_def abind_eq on_world_save dlog_eq active_file_def scratch_file_def)
  obtain body where "snapshot_body x verified_view i 5 \<lparr>cp_required = False, cp_max_bytes = 24000, cp_expires_after_minutes = 240\<rparr> None
      (recent_attempt_digest x (dk_store d) ''c1'') (get_latest_forecast_snapshot ''c1'' (st_log (dk_store d)))
      (cx_memory x (cd_context sample_contract_draft) (memory_budget 24000)) \<lparr>ch_directives = [], ch_waiting = 0, ch_ids = [], ch_cursor = 0\<rparr> = Inr body"
    using body by blast
  then show ?thesis
    using verified_choice [OF assms(3,4)] verified_policy expire handover assms(2) written
    unfolding x(1) compile_context_snapshot_def by (simp add: lift_py_def abind_eq Let_def)
qed

lemma verified_input:
  assumes "dk_files d = []" and "dk_side d = [(''c1'', [])]" and "pending_directives ''c1'' 0 None (Some 5) (Some 3600) [] (st_log (dk_store d)) = []"
    and "get_contract (dk_store d) ''c1'' = Some verified_view"
  shows "\<exists>b cursor ids d'. build_verifier_input verifying_env verified_view i 5 d = (Inr (Built b cursor ids), d')"
proof -
  obtain p cursor ids d' where snapshot:
    "compile_context_snapshot (re_context verifying_env) verified_view i 5 None (Some 3600) d = (Inr (Compiled p cursor ids), d')"
    "map_of (dk_files d') (''c1'', ''handover.md'') = None"
    using verified_snapshot [OF assms] by blast
  have addendum: "handover_prompt_addendum (re_context verifying_env) files ''c1'' = Inr []" if "map_of files (''c1'', ''handover.md'') = None" for files
    using that by (simp add: handover_prompt_addendum_def read_handover_def)
  have "re_max_age verifying_env = 3600" by (simp add: verifying_env_def sample_runner_env_def)
  then show ?thesis
    using snapshot assms(1) addendum by (simp add: build_verifier_input_def build_attempt_input_def abind_eq lift_py_def split: option.splits)
qed

lemma verified_runtime_simps [simp]:
  "rt_store verified_runtime = set_contract ''c1'' verified_view empty_store" "dk_files (rt_desk verified_runtime) = []" "rt_adapters verified_runtime = []"
  "dk_side (rt_desk verified_runtime) = [(''c1'', [])]"
  "rt_registry verified_runtime = [(''a'', sample_entry ''a'' LowCost [''m'']), (''b'', sample_entry ''b'' HighCost [''m''])]"
  "get_contract (set_contract ''c1'' verified_view empty_store) ''c1'' = Some verified_view"
  by (simp_all add: verified_runtime_def runtime_of_def get_contract_def)

lemma verified_idle:
  "count_running_by_executor (set_contract ''c1'' verified_view empty_store) = []" "lease_in_use (set_contract ''c1'' verified_view empty_store) ''c1'' 5 = None"
  "\<not> verifier_pending (set_contract ''c1'' verified_view empty_store) ''c1''" "count_verifier_attempts (set_contract ''c1'' verified_view empty_store) ''c1'' = 0"
  "\<not> re_kill_switch verifying_env"
  by (simp_all add: count_running_by_executor_def lease_in_use_def verifier_pending_def count_verifier_attempts_def empty_store_def get_lease_def
    verifying_env_def)

lemma verified_claim:
  assumes "rt_store r = set_contract ''c1'' verified_view empty_store"
  shows "\<exists>s. claim_for_verifier verified_view i e 5 r = (Inr True, put_store s r) \<and> st_contracts s = st_contracts (rt_store r) \<and>
    st_attempts s = [] \<and> pending_directives ''c1'' 0 None (Some 5) (Some 3600) [] (st_log s) = []"
proof -
  let ?call = "verifier_lease verified_view i e 0 5"
  have fields: "lc_request ?call = None" "lc_holder ?call = Some i" "lc_generation ?call = 0" "lease_key ?call = (''c1'', [])" "lc_contract ?call = ''c1''"
    "lc_partition ?call = None"
    by (simp_all add: verifier_lease_def lease_key_def partition_key_def)
  let ?s0 = "set_contract ''c1'' verified_view empty_store"
  have none: "get_lease ?s0 ''c1'' None = None" by (simp add: get_lease_plain empty_store_def)
  let ?s1 = "?s0\<lparr>st_leases := put (''c1'', []) (lease_row ?call i 1) (st_leases ?s0)\<rparr>"
  let ?s2 = "snd (log_event (lease_event LEASE_ACQUIRED (dict_merge (lease_body ?call 1) (lc_payload ?call)) 1 ?call ?s1) ?s1)"
  have lease: "get_lease ?s2 ''c1'' None = Some (lease_row ?call i 1)" by (simp add: get_lease_plain)
  have "acquire_lease ?call ?s0 = Inr (lease_row ?call i 1, ?s2)"
    using fields none lease by (simp add: acquire_lease_def replayed_lease_def request_events_def write_lease_def finish_lease_def Let_def)
  then have "claim_for_verifier verified_view i e 5 r = (Inr True, put_store ?s2 r)"
    using assms none by (simp add: claim_for_verifier_def Let_def dwrite_eq)
  moreover have "pending_directives ''c1'' 0 None (Some 5) (Some 3600) [] (st_log ?s2) = []"
    
    by (simp add: pending_directives_def get_messages_def get_events_def append_event_def stored_event_def lease_event_def event_call_def empty_store_def
        empty_log_def LEASE_ACQUIRED_def AGENT_MESSAGE_def Let_def)
  moreover have "st_contracts ?s2 = st_contracts (rt_store r)" "st_attempts ?s2 = []"
    using assms by (simp_all add: empty_store_def)
  ultimately show ?thesis by blast
qed

lemma verified_launch:
  assumes "rt_desk r = \<lparr>dk_world = \<lparr>wo_store = s, wo_files = []\<rparr>, dk_side = [(''c1'', [])]\<rparr>" and "get_contract s ''c1'' = Some verified_view"
    and "pending_directives ''c1'' 0 None (Some 5) (Some 3600) [] (st_log s) = []"
  shows "\<exists>r'. launch_verifier verifying_env 5 verified_view i e ex r = (Inr True, r')"
proof -
  obtain b cursor ids d' where "build_verifier_input verifying_env verified_view i 5 (rt_desk r) = (Inr (Built b cursor ids), d')"
    using verified_input [of "rt_desk r" i] assms by auto
  then have "on_desk (build_verifier_input verifying_env verified_view i 5) r = (Inr (Built b cursor ids), r\<lparr>rt_desk := d'\<rparr>)"
    by (simp add: on_desk_def)
  moreover have "re_launch verifying_env x input = Launched ''session''" "re_handle verifying_env x i = None" for x input
    by (simp_all add: verifying_env_def)
  moreover have "\<exists>r1. issue_session_token verifying_env i 5 r0 = (Inr (re_secret verifying_env i 5), r1)" for r0
    by (simp add: issue_session_token_def Let_def)
  then obtain r1 where "issue_session_token verifying_env i 5 (r\<lparr>rt_desk := d'\<rparr>) = (Inr (re_secret verifying_env i 5), r1)" by blast
  ultimately show ?thesis
    by (simp add: launch_verifier_def Let_def abind_eq verifier_started_def run_eqs persist_handle_def track_started_def)
qed

theorem verifier_is_independent_witness:
  "\<exists>r' i info. dispatch_verifier verifying_env 5 ''c1'' ''a'' verified_runtime = (Inr True, r') \<and> map_of (rt_running r') i = Some info \<and> ri_executor info = ''b''"
proof -
  let ?b = "sample_entry ''b'' HighCost [''m'']"
  let ?r1 = "verified_runtime\<lparr>rt_adapters := [''b'']\<rparr>"
  have ids: "rg_id (sample_entry ''a'' LowCost [''m'']) = ''a''" "rg_id ?b = ''b''" by (simp_all add: sample_entry_def)
  have adapter: "adapter_for verifying_env ''b'' verified_runtime = (Inr True, ?r1)"
    by (simp add: adapter_for_def verifying_env_def)
  obtain i where i: "new_attempt_id (rt_store verified_runtime) (''ver-'' @ re_stamp verifying_env 5 @ ''-'' @ last_items 4 ''c1'') = Some i"
    using new_attempt_id_exists by blast
  have store: "rt_store ?r1 = set_contract ''c1'' verified_view empty_store" by (simp add: verified_runtime_def)
  obtain s where s: "claim_for_verifier verified_view i ''b'' 5 ?r1 = (Inr True, put_store s ?r1)" "st_contracts s = st_contracts (rt_store ?r1)"
      "pending_directives ''c1'' 0 None (Some 5) (Some 3600) [] (st_log s) = []"
    using verified_claim [OF store] by blast
  have "get_contract s ''c1'' = Some verified_view" using s(2) store by (simp add: get_contract_def)
  then obtain r' where launched: "launch_verifier verifying_env 5 verified_view i ?b ''a'' (put_store s ?r1) = (Inr True, r')"
    using verified_launch [of "put_store s ?r1" s i ?b "''a''"] s(3) by (auto simp: put_store_def verified_runtime_def)
  have "send_verifier verifying_env 5 verified_view ?b ''a'' verified_runtime = (Inr True, r')"
    using i adapter s(1) launched by (simp add: send_verifier_def abind_eq Let_def ids)
  moreover have "bu_verification_attempts_reserved (cd_budget (cv_draft verified_view)) = 2" by (simp add: sample_contract_draft_def)
  ultimately have sent: "dispatch_verifier verifying_env 5 ''c1'' ''a'' verified_runtime = (Inr True, r')"
    by (simp add: dispatch_verifier_def choose_verifier_def abind_eq Let_def verified_idle verified_match lift_py_def ids)
  have "get_contract (rt_store verified_runtime) ''c1'' = Some verified_view" by simp
  with verifier_is_independent [OF sent this] have "\<exists>i info e. e \<in> {sample_entry ''a'' LowCost [''m''], ?b} \<and> rg_id e \<noteq> ''a'' \<and>
      map_of (rt_running r') i = Some info \<and> ri_executor info = rg_id e"
    by (auto simp: verified_match verified_idle)
  then obtain i info e where "e \<in> {sample_entry ''a'' LowCost [''m''], ?b}" "rg_id e \<noteq> ''a''" "map_of (rt_running r') i = Some info" "ri_executor info = rg_id e"
    by blast
  moreover from this have "rg_id e = ''b''" by (auto simp: ids)
  ultimately show ?thesis using sent by metis
qed
end
