(* ===== verification/Wakeup.thy ===== *)
theory Wakeup
  imports Steps Scheduling
begin

text \<open>
  \<open>longtask/scheduler/wakeup.py\<close>: the two layers that keep the machine awake for the contracts. The guard holds a power request while a
  contract needs it; the alarms are scheduled tasks, one for each active contract, at its next point in time. The power request and the
  task scheduler of the platform are ports; each call may fail, with the text of its error.
\<close>

section \<open>The ports and the state\<close>

text \<open>A result \<open>None\<close> is a call that succeeded. \<open>wk_fmt\<close> prints the time of an alarm.\<close>

record wake_env =
  wk_fmt :: "int \<Rightarrow> string"
  wk_acquire :: "string \<Rightarrow> string option"
  wk_release :: "string option"
  wk_available :: bool
  wk_arm :: "string \<Rightarrow> int \<Rightarrow> string option"
  wk_disarm :: "string \<Rightarrow> string option"

record wakeup =
  wu_held :: bool
  wu_armed :: "(string \<times> int) list"
  wu_degraded :: bool
  wu_degraded_contracts :: "string list"

definition WAKEUP_SLEEP_GUARD :: event_type where "WAKEUP_SLEEP_GUARD = ''wakeup/sleep-guard''"
definition WAKEUP_RTC_ARMED :: event_type where "WAKEUP_RTC_ARMED = ''wakeup/rtc-armed''"
definition WAKEUP_DEGRADED :: event_type where "WAKEUP_DEGRADED = ''wakeup/degraded''"

definition DEFAULT_SAFETY_MARGIN :: int where "DEFAULT_SAFETY_MARGIN = 30 * MINUTE"

definition wlog :: "string option \<Rightarrow> event_type \<Rightarrow> dict \<Rightarrow> int \<Rightarrow> store \<Rightarrow> store" where
  "wlog contract_id t payload now s = snd (log_event (event_call contract_id t payload now) s)"

section \<open>The guard\<close>

definition degraded_payload :: "string \<Rightarrow> string \<Rightarrow> dict" where
  "degraded_payload layer reason = [(''layer'', JStr layer), (''reason'', JStr reason)]"

definition guard_update :: "wake_env \<Rightarrow> int \<Rightarrow> bool \<Rightarrow> string \<Rightarrow> string \<Rightarrow> wakeup \<times> store \<Rightarrow> wakeup \<times> store" where
  "guard_update x now needed reason contract_id = (\<lambda>(u, s).
     if needed \<and> \<not> wu_held u then (case wk_acquire x reason of
         None \<Rightarrow> (u\<lparr>wu_held := True\<rparr>, wlog (Some contract_id) WAKEUP_SLEEP_GUARD [(''held'', JBool True), (''reason'', JStr reason)] now s)
       | Some t \<Rightarrow> (u, wlog (Some contract_id) WAKEUP_DEGRADED (degraded_payload ''L0'' t) now s))
     else if \<not> needed \<and> wu_held u then (u\<lparr>wu_held := False\<rparr>, case wk_release x of
         None \<Rightarrow> wlog (Some contract_id) WAKEUP_SLEEP_GUARD [(''held'', JBool False), (''reason'', JStr reason)] now s
       | Some t \<Rightarrow> wlog (Some contract_id) WAKEUP_DEGRADED (degraded_payload ''L0'' t) now s)
     else (u, s))"

text \<open>The first active contract that has a live lease, is overdue, or has at least as much work as time.\<close>

definition needs_guard :: "int \<Rightarrow> store \<Rightarrow> contract_view \<Rightarrow> bool" where
  "needs_guard now s v = (let hours = of_int (deadline_of (cv_draft v) - now) / of_int (60 * MINUTE) :: rat in
     (case get_lease s (cv_contract_id v) None of None \<Rightarrow> False | Some l \<Rightarrow> lease_is_alive l now) \<or> hours \<le> 0 \<or>
     float_le (Fin 1) (float_scale (1 / hours) (cd_workload_initial_hours (cv_draft v))))"

definition guard_needed :: "int \<Rightarrow> store \<Rightarrow> bool \<times> string option" where
  "guard_needed now s = (case find (\<lambda>v. cv_state v = Active \<and> needs_guard now s v) (list_contracts None None 1000 s) of
     None \<Rightarrow> (False, None) | Some v \<Rightarrow> (True, Some (cv_contract_id v)))"

section \<open>The alarms\<close>

definition task_id :: "string \<Rightarrow> string" where
  "task_id contract_id = ''longtask-wakeup-'' @ contract_id"

definition note_fired :: "string \<Rightarrow> wakeup \<Rightarrow> bool \<times> wakeup" where
  "note_fired task u = (let contract_id = drop (length (task_id [])) task in
     if \<not> starts_with task (task_id []) \<or> contract_id = [] then (False, u)
     else (map_of (wu_armed u) contract_id \<noteq> None, u\<lparr>wu_armed := del contract_id (wu_armed u)\<rparr>))"

text \<open>The next point in time of a contract, and its alarm: the start of the minute (a zone has an offset of whole minutes), unless the point has come already.\<close>

definition next_point :: "contract_view \<Rightarrow> int" where
  "next_point v = (let bound = (\<lambda>t m. case t of None \<Rightarrow> m | Some p \<Rightarrow> min p m) in
     bound (cv_next_wakeup_at v) (bound (cv_next_decision_at v) (deadline_of (cv_draft v) - DEFAULT_SAFETY_MARGIN)))"

definition wake_target :: "int \<Rightarrow> contract_view \<Rightarrow> int option" where
  "wake_target now v = (if cv_state v \<noteq> Active \<or> next_point v \<le> now then None else Some (next_point v - next_point v mod MINUTE))"

definition wake_targets :: "int \<Rightarrow> contract_view list \<Rightarrow> (string \<times> int) list" where
  "wake_targets now vs = fold (\<lambda>v ts. case wake_target now v of None \<Rightarrow> ts | Some t \<Rightarrow> put (cv_contract_id v) t ts) vs []"

text \<open>A failure is reported once, until a call for the contract succeeds.\<close>

definition degrade :: "string \<Rightarrow> string \<Rightarrow> int \<Rightarrow> wakeup \<times> store \<Rightarrow> wakeup \<times> store" where
  "degrade contract_id reason now = (\<lambda>(u, s). if contract_id \<in> set (wu_degraded_contracts u) then (u, s)
     else (u\<lparr>wu_degraded_contracts := contract_id # wu_degraded_contracts u\<rparr>,
       wlog (Some contract_id) WAKEUP_DEGRADED (degraded_payload ''L1'' reason) now s))"

definition arm_one :: "wake_env \<Rightarrow> int \<Rightarrow> string \<times> int \<Rightarrow> wakeup \<times> store \<Rightarrow> wakeup \<times> store" where
  "arm_one x now = (\<lambda>(contract_id, t) (u, s).
     if map_of (wu_armed u) contract_id = Some t then (u, s)
     else (case wk_arm x (task_id contract_id) t of
         None \<Rightarrow> (u\<lparr>wu_armed := put contract_id t (wu_armed u), wu_degraded_contracts := removeAll contract_id (wu_degraded_contracts u)\<rparr>,
           wlog (Some contract_id) WAKEUP_RTC_ARMED [(''task_id'', JStr (task_id contract_id)), (''at'', JStr (wk_fmt x t))] now s)
       | Some reason \<Rightarrow> degrade contract_id reason now (u, s)))"

definition disarm_one :: "wake_env \<Rightarrow> int \<Rightarrow> (string \<times> int) list \<Rightarrow> string \<Rightarrow> wakeup \<times> store \<Rightarrow> wakeup \<times> store" where
  "disarm_one x now targets contract_id = (\<lambda>(u, s).
     if map_of targets contract_id \<noteq> None then (u, s)
     else (case wk_disarm x (task_id contract_id) of
         None \<Rightarrow> (u\<lparr>wu_armed := del contract_id (wu_armed u), wu_degraded_contracts := removeAll contract_id (wu_degraded_contracts u)\<rparr>, s)
       | Some reason \<Rightarrow> degrade contract_id reason now (u, s)))"

definition unavailable_reason :: string where
  "unavailable_reason = ''schedule port unavailable on this platform''"

definition align_alarms :: "wake_env \<Rightarrow> int \<Rightarrow> (string \<times> int) list \<Rightarrow> wakeup \<times> store \<Rightarrow> wakeup \<times> store" where
  "align_alarms x now targets us = (let (u, s) = fold (arm_one x now) targets us in
     fold (disarm_one x now targets) (map fst (wu_armed u)) (u, s))"

definition refresh_alarms :: "wake_env \<Rightarrow> int \<Rightarrow> wakeup \<times> store \<Rightarrow> wakeup \<times> store" where
  "refresh_alarms x now = (\<lambda>(u, s).
     if \<not> wk_available x then (u\<lparr>wu_armed := [], wu_degraded := True\<rparr>,
       if wu_degraded u then s else wlog None WAKEUP_DEGRADED (degraded_payload ''L1'' unavailable_reason) now s)
     else align_alarms x now (wake_targets now (list_contracts None None 1000 s)) (u\<lparr>wu_degraded := False\<rparr>, s))"


section \<open>What a pass over the alarms leaves\<close>

lemma next_point_bounds:
  "next_point v \<le> deadline_of (cv_draft v) - DEFAULT_SAFETY_MARGIN" "cv_next_wakeup_at v = Some t \<Longrightarrow> next_point v \<le> t"
  "cv_next_decision_at v = Some t \<Longrightarrow> next_point v \<le> t"
  by (auto simp: next_point_def Let_def split: option.split)

lemma wake_target_Some:
  "wake_target now v = Some t \<longleftrightarrow> cv_state v = Active \<and> now < next_point v \<and> t = next_point v - next_point v mod MINUTE"
  by (auto simp: wake_target_def)

lemma minute_iff: "t = p - p mod MINUTE \<longleftrightarrow> t mod MINUTE = 0 \<and> t \<le> p \<and> p < t + MINUTE"
proof -
  have pos: "0 < MINUTE" by (simp add: MINUTE_def SECOND_def)
  show ?thesis
  proof
    assume "t = p - p mod MINUTE"
    then show "t mod MINUTE = 0 \<and> t \<le> p \<and> p < t + MINUTE"
      using pos_mod_bound [OF pos, of p] pos_mod_sign [OF pos, of p] by (simp add: mod_diff_right_eq)
  next
    assume t: "t mod MINUTE = 0 \<and> t \<le> p \<and> p < t + MINUTE"
    then have "p mod MINUTE = (p - t) mod MINUTE" by (simp add: mod_diff_right_eq [symmetric])
    also have "\<dots> = p - t" using t by (intro mod_pos_pos_trivial) simp_all
    finally show "t = p - p mod MINUTE" by simp
  qed
qed

lemma wake_targets_in:
  "map_of (fold (\<lambda>v ts. case wake_target now v of None \<Rightarrow> ts | Some t \<Rightarrow> put (cv_contract_id v) t ts) vs ts) c = Some t \<Longrightarrow>
   map_of ts c = Some t \<or> (\<exists>v \<in> set vs. cv_contract_id v = c \<and> wake_target now v = Some t)"
  by (induction vs arbitrary: ts) (fastforce split: option.splits if_splits)+

lemma wake_targets_other:
  "c \<notin> cv_contract_id ` set vs \<Longrightarrow>
   map_of (fold (\<lambda>v ts. case wake_target now v of None \<Rightarrow> ts | Some t \<Rightarrow> put (cv_contract_id v) t ts) vs ts) c = map_of ts c"
  by (induction vs arbitrary: ts) (auto split: option.split)

lemma wake_targets_distinct:
  "distinct (map fst ts) \<Longrightarrow> distinct (map fst (fold (\<lambda>v ts. case wake_target now v of None \<Rightarrow> ts | Some t \<Rightarrow> put (cv_contract_id v) t ts) vs ts))"
  by (induction vs arbitrary: ts) (auto split: option.split intro: inv_intros)

lemma wake_targets_of:
  assumes "distinct (map cv_contract_id vs)" and "v \<in> set vs" and "wake_target now v = Some t"
  shows "map_of (wake_targets now vs) (cv_contract_id v) = Some t"
proof -
  obtain xs ys where vs: "vs = xs @ v # ys" using assms(2) by (auto dest: split_list)
  then have "cv_contract_id v \<notin> cv_contract_id ` set ys" using assms(1) by auto
  then show ?thesis by (simp add: wake_targets_def vs assms(3) wake_targets_other)
qed

definition arm_fails :: "wake_env \<Rightarrow> (string \<times> int) list \<Rightarrow> string \<Rightarrow> int \<Rightarrow> bool" where
  "arm_fails x armed c t \<longleftrightarrow> map_of armed c \<noteq> Some t \<and> wk_arm x (task_id c) t \<noteq> None"

lemma arm_one_at:
  "map_of (wu_armed (fst (arm_one x now (k, t) us))) c =
     (if c = k \<and> \<not> arm_fails x (wu_armed (fst us)) c t then Some t else map_of (wu_armed (fst us)) c)"
  "c \<in> set (wu_degraded_contracts (fst (arm_one x now (k, t) us))) \<longleftrightarrow>
     (if c = k then arm_fails x (wu_armed (fst us)) c t \<or> map_of (wu_armed (fst us)) c = Some t \<and> c \<in> set (wu_degraded_contracts (fst us))
      else c \<in> set (wu_degraded_contracts (fst us)))"
  by (cases us; auto simp: arm_one_def arm_fails_def degrade_def split: option.split)+

lemma arm_others:
  "c \<notin> fst ` set ts \<Longrightarrow> map_of (wu_armed (fst (fold (arm_one x now) ts us))) c = map_of (wu_armed (fst us)) c \<and>
     (c \<in> set (wu_degraded_contracts (fst (fold (arm_one x now) ts us))) \<longleftrightarrow> c \<in> set (wu_degraded_contracts (fst us)))"
proof (induction ts arbitrary: us)
  case (Cons p ts)
  then show ?case by (cases p) (simp add: arm_one_at)
qed simp

lemma arm_all:
  assumes "distinct (map fst ts)" and "map_of ts c = Some t"
  shows "map_of (wu_armed (fst (fold (arm_one x now) ts us))) c =
      (if arm_fails x (wu_armed (fst us)) c t then map_of (wu_armed (fst us)) c else Some t)"
    and "arm_fails x (wu_armed (fst us)) c t \<Longrightarrow> c \<in> set (wu_degraded_contracts (fst (fold (arm_one x now) ts us)))"
proof -
  obtain ys zs where ts: "ts = ys @ (c, t) # zs" using assms(2) by (meson map_of_SomeD split_list)
  then have c: "c \<notin> fst ` set ys" "c \<notin> fst ` set zs" using assms(1) by auto
  define us1 where "us1 = fold (arm_one x now) ys us"
  have us1: "map_of (wu_armed (fst us1)) c = map_of (wu_armed (fst us)) c" using arm_others [OF c(1)] by (simp add: us1_def)
  then have fails: "arm_fails x (wu_armed (fst us1)) c t = arm_fails x (wu_armed (fst us)) c t" by (simp add: arm_fails_def)
  have split: "fold (arm_one x now) ts us = fold (arm_one x now) zs (arm_one x now (c, t) us1)" by (simp add: ts us1_def)
  show "map_of (wu_armed (fst (fold (arm_one x now) ts us))) c =
      (if arm_fails x (wu_armed (fst us)) c t then map_of (wu_armed (fst us)) c else Some t)"
    unfolding split using arm_others [OF c(2)] us1 fails by (simp add: arm_one_at)
  show "c \<in> set (wu_degraded_contracts (fst (fold (arm_one x now) ts us)))" if "arm_fails x (wu_armed (fst us)) c t"
    unfolding split using arm_others [OF c(2)] fails that by (simp add: arm_one_at)
qed

lemma disarm_others:
  "c \<notin> set ks \<or> map_of targets c \<noteq> None \<Longrightarrow>
   map_of (wu_armed (fst (fold (disarm_one x now targets) ks us))) c = map_of (wu_armed (fst us)) c \<and>
   (c \<in> set (wu_degraded_contracts (fst us)) \<longrightarrow> c \<in> set (wu_degraded_contracts (fst (fold (disarm_one x now targets) ks us))))"
proof (induction ks arbitrary: us)
  case (Cons k ks)
  obtain u s where us: "us = (u, s)" by (cases us)
  have "map_of (wu_armed (fst (disarm_one x now targets k us))) c = map_of (wu_armed (fst us)) c \<and>
    (c \<in> set (wu_degraded_contracts (fst us)) \<longrightarrow> c \<in> set (wu_degraded_contracts (fst (disarm_one x now targets k us))))"
    using Cons.prems by (auto simp: us disarm_one_def degrade_def split: option.split)
  moreover have "c \<notin> set ks \<or> map_of targets c \<noteq> None" using Cons.prems by auto
  ultimately show ?case using Cons.IH by simp
qed simp

lemma disarm_all:
  assumes "distinct ks" and "c \<in> set ks" and "map_of targets c = None"
  shows "map_of (wu_armed (fst (fold (disarm_one x now targets) ks us))) c = (if wk_disarm x (task_id c) = None then None else map_of (wu_armed (fst us)) c)"
    and "wk_disarm x (task_id c) \<noteq> None \<Longrightarrow> c \<in> set (wu_degraded_contracts (fst (fold (disarm_one x now targets) ks us)))"
proof -
  obtain ys zs where ks: "ks = ys @ c # zs" using assms(2) by (auto dest: split_list)
  then have c: "c \<notin> set ys" "c \<notin> set zs" using assms(1) by auto
  define us1 where "us1 = fold (disarm_one x now targets) ys us"
  have us1: "map_of (wu_armed (fst us1)) c = map_of (wu_armed (fst us)) c" using disarm_others c(1) by (simp add: us1_def)
  obtain u s where p: "us1 = (u, s)" by (cases us1)
  have split: "fold (disarm_one x now targets) ks us = fold (disarm_one x now targets) zs (disarm_one x now targets c (u, s))"
    by (simp add: ks us1_def flip: p)
  have step: "map_of (wu_armed (fst (disarm_one x now targets c (u, s)))) c = (if wk_disarm x (task_id c) = None then None else map_of (wu_armed (fst us)) c)"
    "wk_disarm x (task_id c) \<noteq> None \<Longrightarrow> c \<in> set (wu_degraded_contracts (fst (disarm_one x now targets c (u, s))))"
    using assms(3) us1 p by (auto simp: disarm_one_def degrade_def split: option.split)
  show "map_of (wu_armed (fst (fold (disarm_one x now targets) ks us))) c = (if wk_disarm x (task_id c) = None then None else map_of (wu_armed (fst us)) c)"
    unfolding split using disarm_others [of c zs targets x now] c(2) step(1) by simp
  show "c \<in> set (wu_degraded_contracts (fst (fold (disarm_one x now targets) ks us)))" if "wk_disarm x (task_id c) \<noteq> None"
    unfolding split using disarm_others [of c zs targets x now] c(2) step(2) [OF that] by blast
qed

lemma arm_distinct: "distinct (map fst (wu_armed (fst us))) \<Longrightarrow> distinct (map fst (wu_armed (fst (fold (arm_one x now) ts us))))"
proof (induction ts arbitrary: us)
  case (Cons p ts)
  obtain k t where "p = (k, t)" by (cases p)
  moreover have "distinct (map fst (wu_armed (fst (arm_one x now (k, t) us))))"
    using Cons.prems by (cases us) (auto simp: arm_one_def degrade_def split: option.split intro: inv_intros)
  ultimately show ?case using Cons.IH by simp
qed simp

lemma aligned:
  assumes "distinct (map fst targets)" and "distinct (map fst (wu_armed u))" and "align_alarms x now targets (u, s) = (u', s')"
    and "c \<notin> set (wu_degraded_contracts u')"
  shows "map_of (wu_armed u') c = map_of targets c"
proof -
  obtain u1 s1 where f: "fold (arm_one x now) targets (u, s) = (u1, s1)" by (cases "fold (arm_one x now) targets (u, s)")
  have e: "fold (disarm_one x now targets) (map fst (wu_armed u1)) (u1, s1) = (u', s')"
    using assms(3) f by (simp add: align_alarms_def)
  have distinct: "distinct (map fst (wu_armed u1))" using arm_distinct [of "(u, s)" x now targets] assms(2) f by simp
  show ?thesis
  proof (cases "map_of targets c")
    case (Some t)
    note others = disarm_others [of c "map fst (wu_armed u1)" targets x now "(u1, s1)"]
    have "\<not> arm_fails x (wu_armed u) c t"
      using arm_all(2) [OF assms(1) Some, of x "(u, s)" now] others assms(4) e f Some by auto
    then have "map_of (wu_armed u1) c = Some t" using arm_all(1) [OF assms(1) Some, of x now "(u, s)"] f by simp
    then show ?thesis using others e Some by simp
  next
    case None
    show ?thesis
    proof (cases "c \<in> set (map fst (wu_armed u1))")
      case True
      note all = disarm_all [OF distinct True None, of x now "(u1, s1)"]
      show ?thesis using all assms(4) e None by (auto split: if_splits)
    next
      case False
      then have "map_of (wu_armed u1) c = None" by (simp add: map_of_eq_None_iff)
      then show ?thesis using disarm_others [of c "map fst (wu_armed u1)" targets x now "(u1, s1)"] False e None by simp
    qed
  qed
qed

text \<open>C27: No contract sleeps through its next point. After a pass over a usable task scheduler, a contract has an alarm exactly when it is active and its
  next point (the earliest of its wake-up, its next decision and the safety margin of its deadline) lies ahead, and the alarm is at the start of the
  minute of that point, never after it. Only a contract for which a call failed may differ, and it is on the list of the reported ones.\<close>

theorem alarms_follow_the_contracts:
  assumes "wk_available x" and "distinct (map fst (wu_armed u))" and "distinct (map cv_contract_id (list_contracts None None 1000 s))"
    and "refresh_alarms x now (u, s) = (u', s')" and "c \<notin> set (wu_degraded_contracts u')"
  shows "map_of (wu_armed u') c = Some t \<longleftrightarrow> (\<exists>v \<in> set (list_contracts None None 1000 s). cv_contract_id v = c \<and> cv_state v = Active \<and>
      now < next_point v \<and> t mod MINUTE = 0 \<and> t \<le> next_point v \<and> next_point v < t + MINUTE)"
proof -
  let ?vs = "list_contracts None None 1000 s"
  have "align_alarms x now (wake_targets now ?vs) (u\<lparr>wu_degraded := False\<rparr>, s) = (u', s')"
    using assms(1,4) by (simp add: refresh_alarms_def)
  moreover have "distinct (map fst (wake_targets now ?vs))" unfolding wake_targets_def by (rule wake_targets_distinct) simp
  ultimately have armed: "map_of (wu_armed u') c = map_of (wake_targets now ?vs) c"
    using aligned [of "wake_targets now ?vs" "u\<lparr>wu_degraded := False\<rparr>"] assms(2,5) by simp
  have "map_of (wake_targets now ?vs) c = Some t \<longleftrightarrow> (\<exists>v \<in> set ?vs. cv_contract_id v = c \<and> wake_target now v = Some t)"
    using wake_targets_in [of now ?vs "[]" c t] wake_targets_of [OF assms(3)] by (auto simp flip: wake_targets_def)
  also have "\<dots> \<longleftrightarrow> (\<exists>v \<in> set ?vs. cv_contract_id v = c \<and> cv_state v = Active \<and>
      now < next_point v \<and> t mod MINUTE = 0 \<and> t \<le> next_point v \<and> next_point v < t + MINUTE)"
    by (simp add: wake_target_Some minute_iff conj_assoc)
  finally show ?thesis using armed by simp
qed

text \<open>A platform that can do everything, and a contract that is due in the hundredth minute.\<close>

definition sample_wake_env :: wake_env where
  "sample_wake_env = \<lparr>wk_fmt = (\<lambda>t. []), wk_acquire = (\<lambda>r. None), wk_release = None, wk_available = True, wk_arm = (\<lambda>i t. None), wk_disarm = (\<lambda>i. None)\<rparr>"

definition asleep :: wakeup where
  "asleep = \<lparr>wu_held = False, wu_armed = [(''gone'', 5)], wu_degraded = False, wu_degraded_contracts = []\<rparr>"

definition due_view :: contract_view where
  "due_view = \<lparr>cv_draft = sample_contract_draft\<lparr>cd_deadline_at := AwareTime (100 * MINUTE) 0\<rparr>, cv_contract_id = ''c1'', cv_goal_id = ''c1'', cv_revision = 1,
     cv_state = Active, cv_deadline_status = NotDue, cv_acceptance_status = Pending, cv_created_at = 10, cv_updated_at = 10,
     cv_next_wakeup_at = None, cv_next_decision_at = Some (20 * MINUTE + 7), cv_blocked_reason = None\<rparr>"

theorem alarms_follow_the_contracts_witness:
  "\<exists>u' s'. refresh_alarms sample_wake_env 5 (asleep, set_contract ''c1'' due_view empty_store) = (u', s') \<and>
     map_of (wu_armed u') ''c1'' = Some (20 * MINUTE) \<and> map_of (wu_armed u') ''gone'' = None"
proof -
  let ?s = "set_contract ''c1'' due_view empty_store"
  obtain u' s' where r: "refresh_alarms sample_wake_env 5 (asleep, ?s) = (u', s')" by (cases "refresh_alarms sample_wake_env 5 (asleep, ?s)")
  have vs: "list_contracts None None 1000 ?s = [due_view]" by (simp add: list_contracts_def set_contract_def empty_store_def sql_limit_def)
  have next_due: "next_point due_view = 20 * MINUTE + 7"
    by (simp add: next_point_def due_view_def deadline_of_def DEFAULT_SAFETY_MARGIN_def MINUTE_def SECOND_def)
  have facts: "cv_contract_id due_view = ''c1''" "cv_state due_view = Active" by (simp_all add: due_view_def)
  have sound: "c \<notin> set (wu_degraded_contracts u')" for c
    using r vs by (auto simp: refresh_alarms_def align_alarms_def sample_wake_env_def asleep_def arm_one_def disarm_one_def wake_targets_def wake_target_def next_due
        due_view_def split: if_splits)
  have "map_of (wu_armed u') c = Some t \<longleftrightarrow> (\<exists>v \<in> {due_view}. cv_contract_id v = c \<and> cv_state v = Active \<and> 5 < next_point v \<and>
      t mod MINUTE = 0 \<and> t \<le> next_point v \<and> next_point v < t + MINUTE)" for c t
    using alarms_follow_the_contracts [OF _ _ _ r sound, of c t] vs by (simp add: sample_wake_env_def asleep_def)
  then have alarm: "map_of (wu_armed u') c = Some t \<longleftrightarrow> ''c1'' = c \<and> t mod MINUTE = 0 \<and> t \<le> 20 * MINUTE + 7 \<and> 20 * MINUTE + 7 < t + MINUTE" for c t
    using facts by (simp add: next_due MINUTE_def SECOND_def)
  have "map_of (wu_armed u') ''c1'' = Some (20 * MINUTE)" by (simp add: alarm MINUTE_def SECOND_def)
  moreover have "map_of (wu_armed u') ''gone'' = None" using alarm [of "''gone''"] by (cases "map_of (wu_armed u') ''gone''") auto
  ultimately show ?thesis using r by blast
qed
end
