(* ===== verification/Enforcement.thy ===== *)
theory Enforcement
  imports Scheduling
begin

text \<open>
  \<open>lhgp/enforcement/\<close> (\<open>levels.py\<close>, \<open>enforcer.py\<close>, \<open>report.py\<close>): how close a contract is to its deadline, what the daemon is told to do about it, and
  the two reports. The format of a number, \<open>f'{x:.2f}'\<close>, is a parameter that takes the number of digits.
\<close>

section \<open>Levels\<close>

datatype deadline_level = NormalLevel | WarningLevel | UrgentLevel | BreachedLevel

fun level_value :: "deadline_level \<Rightarrow> string" where
  "level_value NormalLevel = ''normal''"
| "level_value WarningLevel = ''warning''"
| "level_value UrgentLevel = ''urgent''"
| "level_value BreachedLevel = ''breached''"

fun level_ordinal :: "deadline_level \<Rightarrow> nat" where
  "level_ordinal NormalLevel = 0"
| "level_ordinal WarningLevel = 1"
| "level_ordinal UrgentLevel = 2"
| "level_ordinal BreachedLevel = 3"

definition level_of_value :: "string \<Rightarrow> deadline_level option" where
  "level_of_value t = find (\<lambda>l. level_value l = t) [NormalLevel, WarningLevel, UrgentLevel, BreachedLevel]"

definition WARNING_THRESHOLD :: rat where "WARNING_THRESHOLD = 3/10"
definition URGENT_THRESHOLD :: rat where "URGENT_THRESHOLD = 1/20"
definition MIN_ESCALATION_WINDOW :: rat where "MIN_ESCALATION_WINDOW = 60"

record level_decision =
  ld_level :: deadline_level
  ld_remaining :: rat
  ld_elapsed :: rat
  ld_rationale :: string

definition seconds_between :: "int \<Rightarrow> int \<Rightarrow> rat" where
  "seconds_between from till = of_int (till - from) / of_int SECOND"

definition contract_window_seconds :: "int \<Rightarrow> int \<Rightarrow> rat option" where
  "contract_window_seconds deadline created = (let w = seconds_between created deadline in if 0 < w then Some w else None)"

text \<open>The share of the window that is over; without a window, half of it.\<close>

definition window_or_guess :: "rat option \<Rightarrow> rat \<Rightarrow> rat" where
  "window_or_guess window remaining = (case window of Some w \<Rightarrow> if 0 < w then w else max (remaining * 2) MIN_ESCALATION_WINDOW
     | None \<Rightarrow> max (remaining * 2) MIN_ESCALATION_WINDOW)"

definition compute_deadline_level :: "(nat \<Rightarrow> rat \<Rightarrow> string) \<Rightarrow> int \<Rightarrow> int \<Rightarrow> rat option \<Rightarrow> level_decision" where
  "compute_deadline_level fixed deadline now window =
     (let remaining = seconds_between now deadline; decide = (\<lambda>l r t. \<lparr>ld_level = l, ld_remaining = remaining, ld_elapsed = r, ld_rationale = t\<rparr>) in
      if remaining \<le> 0 then decide BreachedLevel 1 (''now > deadline_at (delta='' @ fixed 0 (- remaining) @ ''s)'')
      else
        (let elapsed = max 0 (min 1 (1 - remaining / window_or_guess window remaining)) in
         if remaining < MIN_ESCALATION_WINDOW \<and> elapsed < URGENT_THRESHOLD then
           decide UrgentLevel elapsed (''small absolute window ('' @ fixed 0 remaining @ ''s) below '' @ fixed 0 MIN_ESCALATION_WINDOW @ ''s floor'')
         else if 1 - URGENT_THRESHOLD \<le> elapsed then
           decide UrgentLevel elapsed (''elapsed_ratio='' @ fixed 2 elapsed @ '' >= '' @ fixed 2 (1 - URGENT_THRESHOLD))
         else if 1 - WARNING_THRESHOLD \<le> elapsed then
           decide WarningLevel elapsed (''elapsed_ratio='' @ fixed 2 elapsed @ '' >= '' @ fixed 2 (1 - WARNING_THRESHOLD))
         else decide NormalLevel elapsed ''elapsed_ratio below warning threshold''))"

text \<open>As the daemon asks for the level of a contract.\<close>

definition decide_level :: "(nat \<Rightarrow> rat \<Rightarrow> string) \<Rightarrow> int \<Rightarrow> int \<Rightarrow> int \<Rightarrow> level_decision" where
  "decide_level fixed deadline created now = compute_deadline_level fixed deadline now (contract_window_seconds deadline created)"

section \<open>Actions\<close>

record enforcement_action =
  ea_contract :: string
  ea_level :: deadline_level
  ea_actions :: "string list"
  ea_status :: "deadline_status option"
  ea_rationale :: string
  ea_remaining :: rat
  ea_elapsed :: rat
  ea_event :: string

definition DEADLINE_LEVEL_ESCALATED :: event_type where "DEADLINE_LEVEL_ESCALATED = ''deadline/level-escalated''"
definition DEADLINE_BREACH_LOCKED :: event_type where "DEADLINE_BREACH_LOCKED = ''deadline/breach-locked''"

fun LEVEL_ACTIONS :: "deadline_level \<Rightarrow> string list \<times> deadline_status option \<times> string" where
  "LEVEL_ACTIONS NormalLevel = ([], None, [])"
| "LEVEL_ACTIONS WarningLevel = ([''republish'', ''notify_user''], Some AtRisk, DEADLINE_LEVEL_ESCALATED)"
| "LEVEL_ACTIONS UrgentLevel = ([''republish'', ''notify_user'', ''request_verification''], Some AtRisk, DEADLINE_LEVEL_ESCALATED)"
| "LEVEL_ACTIONS BreachedLevel = ([''lock_new_attempts'', ''notify_user'', ''request_verification''], Some Missed, DEADLINE_BREACH_LOCKED)"

definition enforce :: "contract_view \<Rightarrow> level_decision \<Rightarrow> enforcement_action" where
  "enforce v d = (let (actions, status, event) = LEVEL_ACTIONS (ld_level d) in
     \<lparr>ea_contract = cv_contract_id v, ea_level = ld_level d, ea_actions = actions, ea_status = status, ea_rationale = ld_rationale d,
      ea_remaining = ld_remaining d, ea_elapsed = ld_elapsed d, ea_event = event\<rparr>)"

definition enforce_all :: "(contract_view \<times> level_decision) list \<Rightarrow> enforcement_action list" where
  "enforce_all contracts = map (\<lambda>(v, d). enforce v d) contracts"

section \<open>Reports\<close>

definition short_action :: "enforcement_action \<Rightarrow> json" where
  "short_action a = JObj [(''contract_id'', JStr (ea_contract a)), (''actions'', str_list (ea_actions a)), (''rationale'', JStr (ea_rationale a)),
     (''remaining_seconds'', JFloat (Fin (ea_remaining a))), (''elapsed_ratio'', JFloat (Fin (ea_elapsed a)))]"

definition format_deadline_report :: "enforcement_action list \<Rightarrow> dict" where
  "format_deadline_report actions = (let bucket = (\<lambda>l. filter (\<lambda>a. ea_level a = l) actions); levels = [WarningLevel, UrgentLevel, BreachedLevel] in
     (''totals'', JObj (map (\<lambda>l. (level_value l, JInt (int (length (bucket l))))) levels)) #
     map (\<lambda>l. (level_value l, JList (map short_action (bucket l)))) levels)"

fun LEVEL_LABEL :: "deadline_level \<Rightarrow> string" where
  "LEVEL_LABEL NormalLevel = ''ok''"
| "LEVEL_LABEL WarningLevel = ''warn''"
| "LEVEL_LABEL UrgentLevel = ''urgent''"
| "LEVEL_LABEL BreachedLevel = ''BREACHED''"

definition pad_left :: "nat \<Rightarrow> string \<Rightarrow> string" where
  "pad_left n t = replicate (n - length t) (CHR '' '') @ t"

definition render_text :: "(nat \<Rightarrow> rat \<Rightarrow> string) \<Rightarrow> enforcement_action list \<Rightarrow> string" where
  "render_text fixed actions = (if actions = [] then ''deadline: no escalations this tick''
     else ''deadline tick:'' @ (CHR 0x0A # ''  '') @ join (CHR 0x0A # ''  '') (map (\<lambda>a. pad_left 8 (LEVEL_LABEL (ea_level a)) @ '' '' @ ea_contract a @ '' -> '' @
       (if ea_actions a = [] then ''(no-op)'' else join '','' (ea_actions a)) @ '' (rem='' @ fixed 0 (ea_remaining a) @ ''s)'') actions))"


section \<open>Levels over time\<close>

text \<open>The thresholds in seconds; in a window this long the rule for small windows never applies.\<close>

lemma level_of_window:
  assumes "contract_window_seconds deadline created = Some w" and "64 \<le> w"
  shows "ld_level (compute_deadline_level fixed deadline now (contract_window_seconds deadline created)) =
    (let remaining = seconds_between now deadline in
     if remaining \<le> 0 then BreachedLevel else if remaining \<le> w / 20 then UrgentLevel else if remaining \<le> 3 * w / 10 then WarningLevel else NormalLevel)"
proof -
  let ?r = "seconds_between now deadline"
  have w: "0 < w" using assms(2) by simp
  show ?thesis
  proof (cases "?r \<le> 0")
    case True
    then show ?thesis by (simp add: compute_deadline_level_def Let_def)
  next
    case False
    define e where "e = max 0 (min 1 (1 - ?r / w))"
    have e: "a \<le> e \<longleftrightarrow> ?r \<le> (1 - a) * w" if "0 < a" "a < 1" for a
      using w that False by (auto simp: e_def le_max_iff_disj field_simps)
    have late: "1 - URGENT_THRESHOLD \<le> e \<longleftrightarrow> ?r \<le> w / 20" "1 - WARNING_THRESHOLD \<le> e \<longleftrightarrow> ?r \<le> 3 * w / 10"
      using e [of "19/20"] e [of "7/10"] by (simp_all add: URGENT_THRESHOLD_def WARNING_THRESHOLD_def field_simps)
    have small: "\<not> (?r < MIN_ESCALATION_WINDOW \<and> e < URGENT_THRESHOLD)"
    proof
      assume "?r < MIN_ESCALATION_WINDOW \<and> e < URGENT_THRESHOLD"
      then have "\<not> ?r \<le> (1 - 1/20) * w" "?r < 60" using e [of "1/20"] by (auto simp: MIN_ESCALATION_WINDOW_def URGENT_THRESHOLD_def)
      then show False using assms(2) by simp
    qed
    have "ld_level (compute_deadline_level fixed deadline now (Some w)) = (if ?r < MIN_ESCALATION_WINDOW \<and> e < URGENT_THRESHOLD then UrgentLevel
        else if 1 - URGENT_THRESHOLD \<le> e then UrgentLevel else if 1 - WARNING_THRESHOLD \<le> e then WarningLevel else NormalLevel)"
      using False w unfolding compute_deadline_level_def Let_def window_or_guess_def e_def by simp
    then show ?thesis unfolding assms(1) Let_def late using small False by simp
  qed
qed

text \<open>C28: The level of a contract whose window is at least 64 seconds long never goes back: its level at a later time is at least its level now. It is
breached after the deadline and not before it, at least urgent in the last twentieth of the window and at least a warning in the last three tenths.
(At the deadline itself the code already says breached, and below a minute it says urgent only in very short windows; the documents put both differently.)\<close>

theorem levels_only_escalate:
  assumes "contract_window_seconds deadline created = Some w" and "64 \<le> w" and "now \<le> later"
  shows "level_ordinal (ld_level (decide_level fixed deadline created now)) \<le> level_ordinal (ld_level (decide_level fixed deadline created later)) \<and>
    (deadline < now \<longrightarrow> ld_level (decide_level fixed deadline created now) = BreachedLevel) \<and>
    (now < deadline \<longrightarrow> ld_level (decide_level fixed deadline created now) \<noteq> BreachedLevel) \<and>
    (seconds_between now deadline \<le> w / 20 \<longrightarrow> level_ordinal UrgentLevel \<le> level_ordinal (ld_level (decide_level fixed deadline created now))) \<and>
    (seconds_between now deadline \<le> 3 * w / 10 \<longrightarrow> level_ordinal WarningLevel \<le> level_ordinal (ld_level (decide_level fixed deadline created now)))"
proof -
  have "seconds_between later deadline \<le> seconds_between now deadline"
    using assms(3) by (simp add: seconds_between_def SECOND_def divide_right_mono)
  moreover have "seconds_between now deadline \<le> 0 \<longleftrightarrow> deadline \<le> now"
    by (simp add: seconds_between_def SECOND_def divide_le_0_iff)
  ultimately show ?thesis
    using assms(2) by (auto simp: decide_level_def level_of_window [OF assms(1,2)] Let_def)
qed

theorem levels_only_escalate_witness:
  "level_ordinal (ld_level (decide_level (\<lambda>n q. []) (100 * SECOND) 0 (50 * SECOND))) \<le>
     level_ordinal (ld_level (decide_level (\<lambda>n q. []) (100 * SECOND) 0 (96 * SECOND))) \<and>
   level_ordinal UrgentLevel \<le> level_ordinal (ld_level (decide_level (\<lambda>n q. []) (100 * SECOND) 0 (96 * SECOND)))"
proof -
  have window: "contract_window_seconds (100 * SECOND) 0 = Some 100"
    by (simp add: contract_window_seconds_def seconds_between_def SECOND_def)
  show ?thesis
    using levels_only_escalate [OF window, of "50 * SECOND" "96 * SECOND" "\<lambda>n q. []"]
      levels_only_escalate [OF window, of "96 * SECOND" "96 * SECOND" "\<lambda>n q. []"] by (simp add: seconds_between_def SECOND_def)
qed

text \<open>Fifty seconds before the end of a window of a hundred, the level is normal: the floor of a minute does not make it urgent.\<close>

lemma under_a_minute_is_not_urgent:
  "ld_level (decide_level fixed (100 * SECOND) 0 (50 * SECOND)) = NormalLevel"
  "ld_level (decide_level fixed (100 * SECOND) 0 (100 * SECOND)) = BreachedLevel"
  by (simp_all add: decide_level_def compute_deadline_level_def Let_def contract_window_seconds_def seconds_between_def window_or_guess_def SECOND_def
      MIN_ESCALATION_WINDOW_def URGENT_THRESHOLD_def WARNING_THRESHOLD_def)

text \<open>A contract of less than a minute starts as urgent and then is normal again.\<close>

lemma short_window_starts_urgent:
  "ld_level (decide_level fixed (50 * SECOND) 0 0) = UrgentLevel"
  "ld_level (decide_level fixed (50 * SECOND) 0 (10 * SECOND)) = NormalLevel"
  by (simp_all add: decide_level_def compute_deadline_level_def Let_def contract_window_seconds_def seconds_between_def window_or_guess_def SECOND_def
      MIN_ESCALATION_WINDOW_def URGENT_THRESHOLD_def WARNING_THRESHOLD_def)
end
