(* ===== verification/Spec2Isabelle.thy ===== *)
theory Spec2Isabelle
  imports Plan_Gate Fairness Goal_Store Reconcile Rpc_Properties Retry Projections Ticking Running Wakeup Enforcement History
begin

text \<open>
  LHGP (the Deadline Contract Hub, Python) is a local scheduler: a goal is split into stages, each stage is a
  contract with acceptance terms, a deadline and a budget, attempts of executors and verifiers
  work on a contract under a lease, and the authoritative state is a SQLite store that every step writes in one
  transaction. All paths below are under \<open>src/src/\<close>.

  The parts and the theories that model them.

  \<^item> \<open>Lhgp_Prelude\<close>: fallible computations (\<open>'e + 'a\<close>; \<open>Inl\<close> is a raised exception), JSON values, Python's
    string and number functions, tables as association lists.
  \<^item> \<open>Contract_View\<close>, \<open>State_Machine\<close> (\<open>lhgp/contracts/contract_view.py\<close>, \<open>state_machine.py\<close>): the axes of a contract
    and an attempt and their legal transitions. The locale \<open>lifecycle\<close> states what callers rely on in a transition
    table and is interpreted on both tables.
  \<^item> \<open>Contract_Values\<close>, \<open>Draft\<close> (\<open>lhgp/contracts/authority.py\<close>, \<open>budget.py\<close>, \<open>attention.py\<close>, \<open>continuity.py\<close>,
    \<open>auto_approve.py\<close>, \<open>acceptance.py\<close>, \<open>contract_draft.py\<close>, \<open>validation.py\<close>): the draft of a contract, its validators, its
    parser and serialiser.
  \<^item> \<open>Plan_Gate\<close> (\<open>lhgp/contracts/plan.py\<close>): the gate that a submitted plan passes.
  \<^item> \<open>Acceptance_Spec\<close>, \<open>Verdict\<close> (\<open>lhgp/acceptance/spec.py\<close>, \<open>verdict.py\<close>, \<open>checks.py\<close>): the acceptance tree and its
    verdict, the verdict block of a verifier, deterministic and model evidence. The locale \<open>verdict_reading\<close> says which readings of an outcome
    the composition preserves, and is interpreted on three: exact, lenient and strict.
  \<^item> \<open>Goal_Progress\<close> (\<open>lhgp/goals/progress.py\<close>, \<open>stage.py\<close>): plans and the advance through their stages.
  \<^item> \<open>Urgency\<close>, \<open>Fairness\<close> (\<open>lhgp/promoter/urgency.py\<close>, \<open>escalation.py\<close>, \<open>fairness.py\<close>, \<open>proposals.py\<close>): the pure decisions
    of a scheduling tick.
  \<^item> \<open>Event_Log\<close>, \<open>Notifications\<close> (\<open>lhgp/persistence/events.py\<close>, \<open>events_query.py\<close>,
    \<open>longtask/persistence/notifications.py\<close>): the event table with its queries (locale \<open>id_log\<close>) and the outbox.
  \<^item> \<open>Store_State\<close>: the rows of the tables, the view of a contract and the errors.
  \<^item> \<open>Versioned\<close>: the locale \<open>versioned_cells\<close>, the contract of a compare-and-swap write, with no-lost-update
    proved once; interpreted on leases, contracts and goals.
  \<^item> \<open>Leases\<close> (\<open>longtask/persistence/leases.py\<close>, \<open>lhgp/promoter/lease.py\<close>): the lease operations and the write fence. The
    locale \<open>fenced_leases\<close> says how a lease may change in a step, and is interpreted on the step relation of the operations.
  \<^item> \<open>Contract_Store\<close> (\<open>longtask/persistence/store.py\<close>): creation, state changes, amendments and fenced write-back of a
    contract, revision snapshots, evidence bindings. \<open>Contract_Properties\<close> holds what they guarantee together; \<open>History\<close> adds the writers of a
    contract that keep its revision (the bookkeeping of \<open>Dispatch\<close>, the next decision of \<open>Scheduling\<close>) and shows what the revision history still tells.
  \<^item> \<open>Goal_Store\<close> (the goals of \<open>longtask/persistence/store.py\<close>): the view of a goal, its amendment and advancement, and the
    automatic approval of drafted contracts under the user's grant.
  \<^item> \<open>Attempts\<close> (\<open>longtask/persistence/attempts.py\<close>, \<open>lhgp/promoter/records.py\<close>): the rows of the attempts, their queries and
    state changes, the orphan mark, and what the promoter records.
  \<^item> \<open>Registry\<close> (\<open>longtask/adapters/registry.py\<close>, \<open>lhgp/adapters/manifest.py\<close>, \<open>lhgp/admission/\<close>): the pool of executors, its JSON
    form, the match of a contract against it and the admission conditions of an offer.
  \<^item> \<open>Dispatch\<close> (\<open>longtask/cli/dispatch.py\<close>): the hand-over of a contract to an executor, with the plan gate, the lease and the records,
    over \<open>Registry\<close>, \<open>Leases\<close>, \<open>Attempts\<close> and \<open>Contract_Store\<close>.
  \<^item> \<open>Reconcile\<close> (\<open>longtask/promoter/reconcile.py\<close>, \<open>lhgp/adapters/handles.py\<close>): the recovery pass over the attempts after a restart:
    reattach, collect, orphan, and fence after a grace.
  \<^item> \<open>Scheduling\<close> (\<open>lhgp/scheduler/ticker.py\<close>, \<open>lhgp/persistence/decisions.py\<close>, \<open>usage.py\<close>, \<open>lhgp/forecast/model.py\<close>, and the
    timing functions of \<open>longtask/cli/tick.py\<close>): the contract clocks, the next decision time and the dispatch window, the
    usage ledger and the deadline snapshot.
  \<^item> \<open>Rpc_Common\<close>, \<open>Stage_Synth\<close>, \<open>Goal_Rpc\<close>, \<open>Contract_Rpc\<close>, \<open>Rpc_Server\<close> (\<open>lhgp/rpc/server.py\<close>, \<open>lhgp/rpc/handlers/\<close>,
    \<open>longtask/rpc/handlers/\<close>, \<open>longtask/rpc/executor_api.py\<close>, \<open>longtask/persistence/stage_synth.py\<close>): the control plane. A handler takes
    the store to a failure or a value and the store that it leaves; \<open>route\<close> is the table of all methods. \<open>Rpc_Properties\<close>
    shows who can change a contract, that a repeated request changes nothing, and what a confirmation rests on; its locale \<open>store_frame\<close> says
    when a relation on stores holds of a handler because it holds of its parts, and is interpreted on four relations.
  \<^item> \<open>Retry\<close> (\<open>longtask/rpc/dispatch.py\<close>): the retry of transient failures.
  \<^item> \<open>Projections\<close> (\<open>longtask/persistence/projections.py\<close>): \<open>handover.md\<close> with its parser (a round trip), and the files that are
    rebuilt from the store, with the check for edits by hand.
  \<^item> \<open>Judge\<close> (the judge of \<open>longtask/cli/tick.py\<close>): what a verifier reported becomes the state of its contract. A step works on a world of
    store and files and keeps what it wrote before it failed. The locale \<open>world_frame\<close> says when a relation on worlds holds of a step because it
    holds of its parts. \<open>Judging\<close> interprets it and shows what a completion rests on and what a rejection leaves behind.
  \<^item> \<open>Tick\<close> (\<open>run_daemon_tick\<close> of \<open>longtask/cli/tick.py\<close>): one pass of the scheduler over all contracts: judge, scan, wake, order, and for
    each contract expiry, the measure of its urgency, the ladder, the next decision, the forecast and the action, down to the dispatch with its window, its
    workspace and the capacity of the pass. \<open>Ticking\<close> shows under which conditions a pass starts an attempt and what it leaves behind, by inversion of a
    visit (\<open>visit_cases\<close>), an invariant of the loop (\<open>pass_ok\<close>) and two further instances of \<open>world_frame\<close>.

  \<^item> \<open>Steps\<close>: steps over any state, with the locale \<open>step_frame\<close>; the judge, the tick, the context and the runner are written over them.
  \<^item> \<open>Inbox\<close> (\<open>lhgp/persistence/messages.py\<close> and the cursors of \<open>longtask/persistence/context.py\<close>): the messages of a contract, which directives a reader
    gets, and the cursors and acknowledgements that a delivery moves. Shown, for readers with a plain name: delivery in order, the rest keeps waiting, nothing twice.
  \<^item> \<open>Untrusted\<close> (\<open>lhgp/untrusted/sanitize.py\<close>, \<open>boundary.py\<close>): text of an attempt without terminal controls, in a fence that it cannot close.
  \<^item> \<open>Context\<close> (\<open>longtask/persistence/context.py\<close>): the snapshot that an attempt starts with, over a \<open>desk\<close> of store, files and the column of
    the cursors: policy, expiry, handover, digest, directives, capacity, and the detector of a snapshot near its limit.
  \<^item> \<open>Evaluator\<close> (\<open>lhgp/acceptance/evaluator.py\<close>): the deterministic evaluation of a typed check of every kind.
  \<^item> \<open>Runner\<close> (\<open>longtask/cli/runner.py\<close>, \<open>lhgp/persistence/evidence.py\<close>): the life of an attempt: input, token, launch, handle, poll, timeout, renewal,
    collection, evidence, cancellation, adoption after a restart, and the dispatch of its verifier; the state is a \<open>runtime\<close> of desk, registry,
    tracked attempts, tokens and evidence. \<open>Running\<close> shows that a pass of the runner leaves no lease behind, what a success of a verifier rests on, that
    a verifier is independent, and that directives wait for a process, with \<open>step_frame\<close> interpreted on desks and on the accounts of one attempt.
  \<^item> \<open>Wakeup\<close> (\<open>longtask/scheduler/wakeup.py\<close>): the power request and the scheduled tasks that wake the machine for a contract, with the calls that
    fail. Shown: after a pass the alarms are those that the contracts need.
  \<^item> \<open>Enforcement\<close> (\<open>lhgp/enforcement/\<close>): the level of a contract before its deadline, the actions that belong to it and the reports. Shown:
    in a window of at least 64 seconds the level never goes back.

  Conventions. A Python \<open>str\<close> is an Isabelle \<open>string\<close> (code points 0 to 255); the plan gate uses lists of code points. A
  Python \<open>int\<close> is \<open>int\<close>; a \<open>float\<close> is an exact rational or a special value (rounding is not modelled); a point in time is
  an integer number of microseconds (the stored ISO texts are compared as times). Parameters stand for code outside the repository: the SHA-256
  digest, \<open>json.loads\<close>, \<open>repr\<close>, \<open>datetime\<close> parsing and formatting (\<open>pyhost\<close>), the time zone database (\<open>tzdb\<close>), Python's Unicode
  tables, the adapters of the executors, the process table, \<open>os.path.realpath\<close>, case folding and the format of a cost (\<open>tick_env\<close>), the format of a time in an attempt id, the row SQLite picks among
  events of one instant, \<open>json.dumps\<close> and the Chinese texts of the files (\<open>file_env\<close>), and for the control plane the record \<open>rpc_env\<close> (random parts of ids, session tokens and their hash, the health probe). Recursion is structural or has a termination proof. The search for a free attempt id has as fuel the number of
  attempts plus two, which \<open>attempt_id_search_ends\<close> shows to be enough; no other fuel is used.

  The environments \<open>context_env\<close>, \<open>check_env\<close> and \<open>runner_env\<close> add the encoding of texts, the order of a directory listing, the JSON functions of
  SQLite, the file system, processes and regular expressions that a check uses, the retrieval of memories, the random tokens, and what an adapter answers to each call;
  \<open>wake_env\<close> stands for the power and task ports of the platform.

  Not modelled: the process handling of the adapters themselves, the lines that the tick and the runner
  emit for printing, the transport and the client of the control plane, the MCP and CLI front ends with the loop of the daemon, memory and feedback, the commands
  of the platform's task scheduler, the documentation generators, and the creation and migration of the SQLite schema.
\<close>

end
